(* ===== verification/Prelude.thy ===== *)
theory Prelude
  imports Main "HOL-Library.Multiset" "HOL-Library.Char_ord" "HOL-Library.List_Lexorder"
    "HOL-Library.Product_Lexorder"
begin

text \<open>
  Shared vocabulary of the development: Python exceptions as values, the error sum that every
  fallible operation returns, dictionaries built by comprehension, the canonical ordering of
  keyed collections (duplicate check, then a stable sort by key), and the generic lemmas that
  carry the component proofs.

  A Python \<open>str\<close> is modelled by the list of its UTF-8 bytes (type \<open>string\<close>).  Equality,
  emptiness, concatenation and the lexicographic order of code points agree with the same
  operations on UTF-8 bytes, and \<open>str.encode("utf-8")\<close> becomes the identity.
\<close>

named_theorems cpn_defs \<open>definitions unfolded when a component is evaluated\<close>
named_theorems cpn_wf \<open>well-formedness facts produced by the constructors\<close>

section \<open>Exceptions and error results\<close>

datatype py_exn =
    TypeError string
  | ValueError string
  | KeyError string
  | AssertionError

type_synonym 'a result = "py_exn + 'a"

fun bindr :: "'a result \<Rightarrow> ('a \<Rightarrow> 'b result) \<Rightarrow> 'b result" where
  "bindr (Inl e) f = Inl e"
| "bindr (Inr x) f = f x"

fun is_ok :: "'a result \<Rightarrow> bool" where
  "is_ok (Inl e) = False"
| "is_ok (Inr x) = True"

text \<open>A comprehension whose element expression may raise: the first exception wins.\<close>

fun mapr :: "('a \<Rightarrow> 'b result) \<Rightarrow> 'a list \<Rightarrow> 'b list result" where
  "mapr f [] = Inr []"
| "mapr f (x # xs) = bindr (f x) (\<lambda>y. bindr (mapr f xs) (\<lambda>ys. Inr (y # ys)))"

text \<open>\<open>if not condition: raise ValueError(message)\<close> before the rest of a function.\<close>

definition require :: "bool \<Rightarrow> string \<Rightarrow> 'a result \<Rightarrow> 'a result" where
  "require b msg k = (if b then k else Inl (ValueError msg))"

lemma require_True [simp]: "require True msg k = k"
  by (simp add: require_def)

lemma require_Inr_iff: "require b msg k = Inr x \<longleftrightarrow> b \<and> k = Inr x"
  by (simp add: require_def)

lemma bindr_Inr_iff: "bindr r f = Inr y \<longleftrightarrow> (\<exists>x. r = Inr x \<and> f x = Inr y)"
  by (cases r) auto

lemma bindr_Inl_iff: "bindr r f = Inl e \<longleftrightarrow> r = Inl e \<or> (\<exists>x. r = Inr x \<and> f x = Inl e)"
  by (cases r) auto

lemma bindr_cong [fundef_cong]:
  "r = r' \<Longrightarrow> (\<And>x. r' = Inr x \<Longrightarrow> f x = g x) \<Longrightarrow> bindr r f = bindr r' g"
  by (cases r') auto

lemma is_ok_iff: "is_ok r \<longleftrightarrow> (\<exists>x. r = Inr x)"
  by (cases r) auto

lemma mapr_Inr_iff: "mapr f xs = Inr ys \<longleftrightarrow> list_all2 (\<lambda>x y. f x = Inr y) xs ys"
proof (induction xs arbitrary: ys)
  case Nil
  show ?case by auto
next
  case (Cons x xs)
  show ?case by (cases ys) (auto simp: bindr_Inr_iff Cons.IH list_all2_Cons1)
qed

lemma mapr_Inl: "mapr f xs = Inl e \<Longrightarrow> \<exists>x \<in> set xs. f x = Inl e"
  by (induction xs) (auto simp: bindr_Inl_iff)

lemma mapr_Inr_member: "mapr f xs = Inr ys \<Longrightarrow> y \<in> set ys \<Longrightarrow> \<exists>x \<in> set xs. f x = Inr y"
  by (induction xs arbitrary: ys) (auto simp: bindr_Inr_iff)

lemma mapr_ok_map: "(\<And>x. x \<in> set xs \<Longrightarrow> f x = Inr (g x)) \<Longrightarrow> mapr f xs = Inr (map g xs)"
  by (induction xs) auto

lemma mapr_cong [fundef_cong]:
  "xs = ys \<Longrightarrow> (\<And>x. x \<in> set ys \<Longrightarrow> f x = g x) \<Longrightarrow> mapr f xs = mapr g ys"
  by (induction ys arbitrary: xs) auto

lemma map_eq_list_all2: "map f xs = map g ys \<longleftrightarrow> list_all2 (\<lambda>x y. f x = g y) xs ys"
  by (auto simp: list_all2_conv_all_nth list_eq_iff_nth_eq)

text \<open>
  A loop whose body may raise or \<open>return\<close> from the enclosing function: \<open>Inl\<close> of the inner sum is
  the early return, \<open>Inr\<close> the state with which the loop goes on.
\<close>

fun loop_exit :: "('x \<Rightarrow> 's \<Rightarrow> ('f + 's) result) \<Rightarrow> 'x list \<Rightarrow> 's \<Rightarrow> ('f + 's) result" where
  "loop_exit f [] s = Inr (Inr s)"
| "loop_exit f (x # xs) s =
     bindr (f x s) (\<lambda>r. case r of Inl e \<Rightarrow> Inr (Inl e) | Inr s' \<Rightarrow> loop_exit f xs s')"

lemma loop_exit_total:
  assumes "\<And>x s. x \<in> set xs \<Longrightarrow> \<exists>r. f x s = Inr r"
  shows "\<exists>r. loop_exit f xs s = Inr r"
  using assms
proof (induction xs arbitrary: s)
  case (Cons x xs)
  obtain r where r: "f x s = Inr r" using Cons.prems by force
  show ?case
  proof (cases r)
    case (Inr s')
    then show ?thesis using Cons.IH [of s'] Cons.prems r by simp
  qed (simp add: r)
qed simp

lemma loop_exit_cong:
  "xs = ys \<Longrightarrow> (\<And>x s. x \<in> set ys \<Longrightarrow> f x s = g x s) \<Longrightarrow> loop_exit f xs s = loop_exit g ys s"
proof -
  assume xs: "xs = ys" and eq: "\<And>x s. x \<in> set ys \<Longrightarrow> f x s = g x s"
  have "loop_exit f ys = loop_exit g ys"
    using eq
  proof (induction ys)
    case (Cons y ys)
    then have "loop_exit f ys = loop_exit g ys" by simp
    with Cons.prems show ?case by (intro ext) simp
  qed (intro ext, simp)
  then show ?thesis by (simp add: xs)
qed

text \<open>A loop body that computes an item and adds it to the state.\<close>

definition collecting :: "('x \<Rightarrow> ('f + 'b) result) \<Rightarrow> ('s \<Rightarrow> 'b \<Rightarrow> 's) \<Rightarrow> 'x \<Rightarrow> 's \<Rightarrow> ('f + 's) result" where
  "collecting g h x s = bindr (g x) (\<lambda>r. Inr (case r of Inl f \<Rightarrow> Inl f | Inr b \<Rightarrow> Inr (h s b)))"

lemma loop_exit_collecting_Inr:
  "loop_exit (collecting g h) xs s = Inr (Inr s') \<longleftrightarrow>
     (\<exists>bs. list_all2 (\<lambda>x b. g x = Inr (Inr b)) xs bs \<and> s' = foldl h s bs)"
proof (induction xs arbitrary: s)
  case (Cons x xs)
  show ?case
  proof (cases "g x")
    case (Inr r)
    then show ?thesis
      by (cases r) (auto simp: collecting_def [of _ _ x] Cons.IH list_all2_Cons1)
  qed (auto simp: collecting_def [of _ _ x] list_all2_Cons1)
qed auto

lemma loop_exit_collecting_exit:
  "loop_exit (collecting g h) xs s = Inr (Inl f) \<Longrightarrow> \<exists>x \<in> set xs. g x = Inr (Inl f)"
proof (induction xs arbitrary: s)
  case (Cons x xs)
  then show ?case
    by (cases "g x") (auto simp: collecting_def [of _ _ x] split: sum.splits)
qed simp

lemma loop_exit_collecting_cases:
  assumes "\<And>x. x \<in> set xs \<Longrightarrow> is_ok (g x)"
  obtains f x where "loop_exit (collecting g h) xs s = Inr (Inl f)" "x \<in> set xs" "g x = Inr (Inl f)"
  | s' where "loop_exit (collecting g h) xs s = Inr (Inr s')"
proof -
  have "\<exists>r. loop_exit (collecting g h) xs s = Inr r"
  proof (rule loop_exit_total)
    fix x s assume "x \<in> set xs"
    then obtain r where "g x = Inr r" using assms by (auto simp: is_ok_iff)
    then show "\<exists>r. collecting g h x s = Inr r" by (simp add: collecting_def)
  qed
  then obtain r where r: "loop_exit (collecting g h) xs s = Inr r" ..
  then show ?thesis
    using loop_exit_collecting_exit [of g h xs s] that by (cases r) blast+
qed

lemma loop_exit_map: "loop_exit f (map g xs) s = loop_exit (\<lambda>x. f (g x)) xs s"
proof -
  have "loop_exit f (map g xs) = loop_exit (\<lambda>x. f (g x)) xs"
    by (induction xs) (intro ext; simp)+
  then show ?thesis by simp
qed

lemma loop_exit_append:
  "loop_exit f (xs @ ys) s =
     bindr (loop_exit f xs s) (\<lambda>r. case r of Inl e \<Rightarrow> Inr (Inl e) | Inr s' \<Rightarrow> loop_exit f ys s')"
proof (induction xs arbitrary: s)
  case (Cons x xs)
  show ?case
  proof (cases "f x s")
    case (Inr r)
    then show ?thesis by (cases r) (simp_all add: Cons.IH)
  qed simp
qed simp

lemma loop_exit_concat:
  "loop_exit f (concat (map g xs)) s = loop_exit (\<lambda>x. loop_exit f (g x)) xs s"
  by (induction xs arbitrary: s) (simp_all add: loop_exit_append cong: sum.case_cong)

section \<open>Dictionaries\<close>

text \<open>\<open>{k: v for ...}\<close>: a later pair with the same key overwrites an earlier one.\<close>

definition dict_of :: "('k \<times> 'v) list \<Rightarrow> ('k \<rightharpoonup> 'v)" where
  "dict_of kvs = map_of (rev kvs)"

lemma dict_of_distinct: "distinct (map fst kvs) \<Longrightarrow> dict_of kvs = map_of kvs"
  proof -
  assume d: "distinct (map fst kvs)"
  have "map_of (rev kvs) = map_of kvs"
    by (rule map_of_eqI) (use d in \<open>auto simp: rev_map [symmetric] map_of_eq_Some_iff\<close>)
  then show ?thesis by (simp add: dict_of_def)
qed

lemma dict_of_None_iff: "dict_of kvs k = None \<longleftrightarrow> k \<notin> fst ` set kvs"
  by (simp add: dict_of_def map_of_eq_None_iff)

lemma dict_of_SomeD: "dict_of kvs k = Some v \<Longrightarrow> (k, v) \<in> set kvs"
  unfolding dict_of_def by (drule map_of_SomeD) simp

lemma dict_of_Some_iff:
  "distinct (map fst kvs) \<Longrightarrow> dict_of kvs k = Some v \<longleftrightarrow> (k, v) \<in> set kvs"
  by (simp add: dict_of_distinct)

lemma dict_of_snoc: "dict_of (kvs @ [(k, v)]) = (dict_of kvs)(k \<mapsto> v)"
  by (simp add: dict_of_def fun_eq_iff)

lemma dict_of_mapI:
  "distinct (map f xs) \<Longrightarrow> x \<in> set xs \<Longrightarrow> dict_of (map (\<lambda>x. (f x, g x)) xs) (f x) = Some (g x)"
  by (subst dict_of_Some_iff) (auto simp: comp_def)

lemma dict_of_map_None:
  "dict_of (map (\<lambda>x. (f x, g x)) xs) k = None \<longleftrightarrow> k \<notin> f ` set xs"
  by (auto simp: dict_of_None_iff image_iff)

lemma dict_of_self_Some_iff:
  "distinct (map f xs) \<Longrightarrow> dict_of (map (\<lambda>x. (f x, x)) xs) k = Some x \<longleftrightarrow> x \<in> set xs \<and> f x = k"
  by (subst dict_of_Some_iff) (auto simp: comp_def)

lemma in_enumerateD: "(k, x) \<in> set (enumerate 0 xs) \<Longrightarrow> x \<in> set xs"
  by (auto simp: in_set_enumerate_eq)

lemma ball_enumerate: "(\<forall>kx \<in> set (enumerate 0 xs). P (snd kx)) \<longleftrightarrow> (\<forall>x \<in> set xs. P x)"
proof -
  have s: "set xs = snd ` set (enumerate 0 xs)"
    by (metis map_snd_enumerate set_map)
  show ?thesis by (subst s) simp
qed

lemma dict_of_map_SomeD:
  "dict_of (map (\<lambda>x. (f x, g x)) xs) k = Some v \<Longrightarrow> \<exists>x \<in> set xs. f x = k \<and> g x = v"
  by (drule dict_of_SomeD) auto

section \<open>Canonical collections\<close>

text \<open>
  Every record that owns a set-like tuple checks its keys for duplicates
  (\<open>len(set(ks)) != len(ks)\<close>) and stores \<open>tuple(sorted(values, key=...))\<close>.  Python's
  \<open>sorted\<close> is stable, as is \<open>sort_key\<close>.
\<close>

definition canonical :: "('a \<Rightarrow> 'k::linorder) \<Rightarrow> 'a list \<Rightarrow> bool" where
  "canonical key xs \<longleftrightarrow> distinct (map key xs) \<and> sorted (map key xs)"

lemma canonical_sort_key: "distinct (map key xs) \<Longrightarrow> canonical key (sort_key key xs)"
proof -
  assume d: "distinct (map key xs)"
  have "mset (map key (sort_key key xs)) = mset (map key xs)"
    by (metis mset_map mset_sort)
  then have "distinct (map key (sort_key key xs))"
    using d by (metis distinct_count_atmost_1 set_mset_mset)
  then show ?thesis by (simp add: canonical_def)
qed

lemma distinct_mset_eq: "mset xs = mset ys \<Longrightarrow> distinct xs \<longleftrightarrow> distinct ys"
  by (metis distinct_count_atmost_1 set_mset_mset)

lemma canonical_distinct: "canonical key xs \<Longrightarrow> distinct xs"
  by (auto simp: canonical_def distinct_map)

text \<open>Sorting decorated pairs by their decoration sorts the values, stably.\<close>

lemma insort_key_decorated:
  "insort_key fst (f x, x) (map (\<lambda>x. (f x, x)) xs) = map (\<lambda>x. (f x, x)) (insort_key f x xs)"
  by (induction xs) auto

lemma sort_key_decorated: "map snd (sort_key fst (map (\<lambda>x. (f x, x)) xs)) = sort_key f xs"
proof -
  have "sort_key fst (map (\<lambda>x. (f x, x)) xs) = map (\<lambda>x. (f x, x)) (sort_key f xs)"
    by (induction xs) (simp_all add: insort_key_decorated)
  then show ?thesis by (simp add: comp_def)
qed

lemma sort_key_id: "sorted (map key xs) \<Longrightarrow> sort_key key xs = xs"
  by (rule sort_key_id_if_sorted)

lemma sort_key_perm:
  "inj_on key (set xs) \<Longrightarrow> mset xs = mset ys \<Longrightarrow> sort_key key xs = sort_key key ys"
proof -
  assume inj: "inj_on key (set xs)" and eq: "mset xs = mset ys"
  have "map key (sort_key key xs) = sort (map key xs)"
    by (metis mset_map mset_sort properties_for_sort sorted_sort_key)
  moreover have "map key (sort_key key ys) = sort (map key xs)"
    by (metis eq mset_map mset_sort properties_for_sort sorted_sort_key)
  ultimately have keys: "map key (sort_key key xs) = map key (sort_key key ys)"
    by simp
  have sets: "set (sort_key key xs) = set xs" "set (sort_key key ys) = set xs"
    using mset_eq_setD [OF eq] by simp_all
  show ?thesis
    using inj_on_map_eq_map [of key "sort_key key xs" "sort_key key ys"] inj keys
    by (simp add: sets mset_eq_setD [OF eq, symmetric])
qed


text \<open>
  The interface of those records: \<open>build\<close> accepts an admissible collection without duplicate
  keys and stores it in key order, and rejects everything else.  What clients use is that the
  stored collection is canonical, has the members given, does not depend on the order given,
  and is a fixed point.
\<close>

locale canonical_builder =
  fixes key :: "'a \<Rightarrow> 'k::linorder"
    and admissible :: "'a list \<Rightarrow> bool"
    and build :: "'a list \<Rightarrow> 'a list result"
  assumes build_Inr: "build xs = Inr ys \<longleftrightarrow>
      admissible xs \<and> distinct (map key xs) \<and> ys = sort_key key xs"
    and admissible_perm: "mset xs = mset ys \<Longrightarrow> admissible xs \<longleftrightarrow> admissible ys"
begin

lemma build_canonical: "build xs = Inr ys \<Longrightarrow> canonical key ys"
  by (simp add: build_Inr canonical_sort_key)

lemma build_mset: "build xs = Inr ys \<Longrightarrow> mset ys = mset xs"
  by (simp add: build_Inr)

lemma build_set: "build xs = Inr ys \<Longrightarrow> set ys = set xs"
  by (simp add: build_Inr)

lemma build_perm:
  assumes "build xs = Inr zs" and eq: "mset xs = mset ys"
  shows "build ys = Inr zs"
proof -
  have d: "distinct (map key xs)" and z: "zs = sort_key key xs" and a: "admissible xs"
    using assms(1) by (simp_all add: build_Inr)
  have "mset (map key xs) = mset (map key ys)" using eq by simp
  then have "distinct (map key ys)" using d by (metis distinct_count_atmost_1 set_mset_mset)
  moreover have "sort_key key xs = sort_key key ys"
    by (rule sort_key_perm [OF _ eq]) (use d in \<open>simp add: distinct_map\<close>)
  moreover have "admissible ys" using a admissible_perm [OF eq] by simp
  ultimately show ?thesis using z by (simp add: build_Inr)
qed

lemma build_fixed: "build xs = Inr xs \<longleftrightarrow> admissible xs \<and> canonical key xs"
  by (metis build_Inr build_canonical canonical_def sort_key_id)

lemma build_idem: "build xs = Inr ys \<Longrightarrow> build ys = Inr ys"
proof -
  assume b: "build xs = Inr ys"
  show ?thesis by (rule build_perm [OF b build_mset [OF b, symmetric]])
qed

end


end
