(* ===== verification/Py_Text.thy ===== *)
theory Py_Text
  imports Prelude
begin

text \<open>
  The text formats of Python's standard library that the program relies on: decimal and
  hexadecimal digits, \<open>repr\<close> of a string (for the text of a \<open>KeyError\<close>) and
  \<open>json.dumps(..., ensure_ascii=False, separators=(",", ":"), sort_keys=True)\<close>.  The main
  result is that the canonical JSON text determines the value up to the order of object members.
\<close>

section \<open>Digits\<close>

definition hexd :: "nat \<Rightarrow> char" where
  "hexd n = ''0123456789abcdef'' ! n"

definition hexv :: "char \<Rightarrow> nat" where
  "hexv c = (let n = of_char c in if n < 58 then n - 48 else n - 87)"

fun dec_nat :: "nat \<Rightarrow> string" where
  "dec_nat n = (if n < 10 then [hexd n] else dec_nat (n div 10) @ [hexd (n mod 10)])"

declare dec_nat.simps [simp del]

text \<open>\<open>str(i)\<close> of an integer.\<close>

definition dec_int :: "int \<Rightarrow> string" where
  "dec_int i = (if i < 0 then CHR ''-'' # dec_nat (nat (- i)) else dec_nat (nat i))"

text \<open>\<open>k\<close> hexadecimal digits, most significant first.\<close>

fun hex_fixed :: "nat \<Rightarrow> nat \<Rightarrow> string" where
  "hex_fixed 0 n = []"
| "hex_fixed (Suc k) n = hex_fixed k (n div 16) @ [hexd (n mod 16)]"

definition undec :: "string \<Rightarrow> nat" where
  "undec s = foldl (\<lambda>a c. 10 * a + hexv c) 0 s"

definition unhex :: "string \<Rightarrow> nat" where
  "unhex s = foldl (\<lambda>a c. 16 * a + hexv c) 0 s"

lemma less_16_cases:
  "n < 16 \<Longrightarrow> n \<in> {0, 1, 2, 3, 4, 5, 6, 7, 8, 9, 10, 11, 12, 13, 14, 15 :: nat}"
  by (simp only: insert_iff empty_iff, presburger)

lemma of_char_hexd: "n < 16 \<Longrightarrow> of_char (hexd n) = (if n < 10 then 48 + n else 87 + n)"
  by (drule less_16_cases) (auto simp: hexd_def)

lemma hexv_hexd [simp]: "n < 16 \<Longrightarrow> hexv (hexd n) = n"
  by (auto simp: hexv_def of_char_hexd Let_def)

lemma hexd_inj: "m < 16 \<Longrightarrow> n < 16 \<Longrightarrow> hexd m = hexd n \<longleftrightarrow> m = n"
  by (metis hexv_hexd)

lemma length_hex_fixed [simp]: "length (hex_fixed k n) = k"
  by (induction k arbitrary: n) auto

lemma unhex_hex_fixed: "n < 16 ^ k \<Longrightarrow> unhex (hex_fixed k n) = n"
proof (induction k arbitrary: n)
  case 0
  then show ?case by (simp add: unhex_def)
next
  case (Suc k)
  then have "n div 16 < 16 ^ k" by (simp add: less_mult_imp_div_less mult.commute)
  with Suc.IH [of "n div 16"] show ?case by (simp add: unhex_def)
qed

lemma hex_fixed_inj: "m < 16 ^ k \<Longrightarrow> n < 16 ^ k \<Longrightarrow> hex_fixed k m = hex_fixed k n \<longleftrightarrow> m = n"
  by (metis unhex_hex_fixed)

lemma hex_fixed_chars: "c \<in> set (hex_fixed k n) \<Longrightarrow> \<exists>d < 16. c = hexd d"
proof (induction k arbitrary: n)
  case (Suc k)
  show ?case
  proof (cases "c \<in> set (hex_fixed k (n div 16))")
    case True
    then show ?thesis by (rule Suc.IH)
  next
    case False
    with Suc.prems have "c = hexd (n mod 16)" by simp
    then show ?thesis by (intro exI [of _ "n mod 16"]) simp
  qed
qed simp

lemma undec_dec_nat: "undec (dec_nat n) = n"
proof (induction n rule: dec_nat.induct)
  case (1 n)
  have "n mod 10 < 16" by (rule less_trans [of _ 10]) simp_all
  with 1 show ?case by (subst dec_nat.simps) (simp add: undec_def)
qed

lemma dec_nat_inj [simp]: "dec_nat m = dec_nat n \<longleftrightarrow> m = n"
  by (metis undec_dec_nat)

lemma dec_nat_nonempty [simp]: "dec_nat n \<noteq> []" "[] \<noteq> dec_nat n"
  by (subst dec_nat.simps, simp)+

lemma dec_nat_chars: "c \<in> set (dec_nat n) \<Longrightarrow> \<exists>d < 10. c = hexd d"
proof (induction n rule: dec_nat.induct)
  case (1 n)
  from "1.prems" have "c = hexd (n mod 10) \<or> (\<not> n < 10 \<and> c \<in> set (dec_nat (n div 10)))"
    by (subst (asm) dec_nat.simps) (auto split: if_splits)
  then show ?case
    using "1.IH" by (auto intro: exI [of _ "n mod 10"])
qed

lemma digit_ge_48: "d < 10 \<Longrightarrow> of_char (hexd d) \<in> {48..57::nat}"
  by (auto simp: of_char_hexd)

lemma dec_nat_digit: "c \<in> set (dec_nat n) \<Longrightarrow> of_char c \<in> {48..57::nat}"
  using dec_nat_chars digit_ge_48 by blast

lemma minus_notin_dec_nat: "CHR ''-'' \<notin> set (dec_nat n)"
  using dec_nat_digit [of "CHR ''-''" n] by auto

lemma dec_int_inj [simp]: "dec_int i = dec_int j \<longleftrightarrow> i = j"
proof -
  have "dec_nat m \<noteq> CHR ''-'' # xs" for m xs
    using minus_notin_dec_nat [of m] by (metis list.set_intros(1))
  then show ?thesis by (auto simp: dec_int_def) (metis)+
qed

lemma dec_int_nonempty [simp]: "dec_int i \<noteq> []"
  by (simp add: dec_int_def)

lemma dec_int_chars: "c \<in> set (dec_int i) \<Longrightarrow> c = CHR ''-'' \<or> of_char c \<in> {48..57::nat}"
  using dec_nat_digit by (auto simp: dec_int_def split: if_splits)

section \<open>repr of a string\<close>

definition repr_char :: "char \<Rightarrow> char \<Rightarrow> string" where
  "repr_char q c =
     (if c = q \<or> c = CHR 0x5C then [CHR 0x5C, c]
      else if c = CHR 0x0A then [CHR 0x5C, CHR ''n'']
      else if c = CHR 0x0D then [CHR 0x5C, CHR ''r'']
      else if c = CHR 0x09 then [CHR 0x5C, CHR ''t'']
      else if of_char c < (32::nat) \<or> of_char c = (127::nat)
        then [CHR 0x5C, CHR ''x''] @ hex_fixed 2 (of_char c)
      else [c])"

definition py_repr :: "string \<Rightarrow> string" where
  "py_repr s =
     (let q = (if CHR 0x27 \<in> set s \<and> CHR 0x22 \<notin> set s then CHR 0x22 else CHR 0x27)
      in q # concat (map (repr_char q) s) @ [q])"

text \<open>\<open>f"{type(exc).__name__}: {exc}"\<close>: the payload of a \<open>KeyError\<close> is already its \<open>repr\<close>.\<close>

fun exn_text :: "py_exn \<Rightarrow> string" where
  "exn_text (TypeError m) = ''TypeError: '' @ m"
| "exn_text (ValueError m) = ''ValueError: '' @ m"
| "exn_text (KeyError m) = ''KeyError: '' @ m"
| "exn_text AssertionError = ''AssertionError: ''"

section \<open>Canonical JSON\<close>

datatype json =
    JNull
  | JBool bool
  | JInt int
  | JStr string
  | JList "json list"
  | JObj "(string \<times> json) list"

definition escape_char :: "char \<Rightarrow> string" where
  "escape_char c =
     (if c = CHR 0x22 then [CHR 0x5C, CHR 0x22]
      else if c = CHR 0x5C then [CHR 0x5C, CHR 0x5C]
      else if c = CHR 0x0A then [CHR 0x5C, CHR ''n'']
      else if c = CHR 0x0D then [CHR 0x5C, CHR ''r'']
      else if c = CHR 0x09 then [CHR 0x5C, CHR ''t'']
      else if c = CHR 0x0C then [CHR 0x5C, CHR ''f'']
      else if c = CHR 0x08 then [CHR 0x5C, CHR ''b'']
      else if of_char c < (32::nat) then [CHR 0x5C, CHR ''u''] @ hex_fixed 4 (of_char c)
      else [c])"

definition json_string :: "string \<Rightarrow> string" where
  "json_string s = CHR 0x22 # concat (map escape_char s) @ [CHR 0x22]"

fun join_comma :: "string list \<Rightarrow> string" where
  "join_comma [] = []"
| "join_comma [x] = x"
| "join_comma (x # y # xs) = x @ CHR '','' # join_comma (y # xs)"

fun dumps :: "json \<Rightarrow> string" where
  "dumps JNull = ''null''"
| "dumps (JBool b) = (if b then ''true'' else ''false'')"
| "dumps (JInt i) = dec_int i"
| "dumps (JStr s) = json_string s"
| "dumps (JList xs) = CHR ''['' # join_comma (map dumps xs) @ [CHR '']'']"
| "dumps (JObj kvs) = CHR ''{'' # join_comma
     (map (\<lambda>(k, t). json_string k @ CHR '':'' # t)
       (sort_key fst (map (\<lambda>(k, v). (k, dumps v)) kvs))) @ [CHR ''}'']"

text \<open>The value with every object's members in key order.\<close>

fun jsort :: "json \<Rightarrow> json" where
  "jsort (JList xs) = JList (map jsort xs)"
| "jsort (JObj kvs) = JObj (sort_key fst (map (\<lambda>(k, v). (k, jsort v)) kvs))"
| "jsort j = j"

subsection \<open>The canonical text determines the value\<close>

fun unescape :: "string \<Rightarrow> (char \<times> string) option" where
  "unescape [] = None"
| "unescape (c # r) =
     (if c \<noteq> CHR 0x5C then Some (c, r)
      else case r of
          [] \<Rightarrow> None
        | d # r' \<Rightarrow>
            if d = CHR ''n'' then Some (CHR 0x0A, r')
            else if d = CHR ''r'' then Some (CHR 0x0D, r')
            else if d = CHR ''t'' then Some (CHR 0x09, r')
            else if d = CHR ''f'' then Some (CHR 0x0C, r')
            else if d = CHR ''b'' then Some (CHR 0x08, r')
            else if d = CHR ''u'' then Some (char_of (unhex (take 4 r')), drop 4 r')
            else Some (d, r'))"

lemma unescape_escape: "unescape (escape_char c @ r) = Some (c, r)"
proof -
  have "of_char c < (32::nat) \<Longrightarrow> unhex (hex_fixed 4 (of_char c)) = of_char c"
    by (rule unhex_hex_fixed) simp
  then show ?thesis by (simp add: escape_char_def)
qed

lemma escape_char_inj: "escape_char c @ r = escape_char d @ s \<Longrightarrow> c = d \<and> r = s"
  by (metis unescape_escape option.inject prod.inject)

lemma escape_char_not_quote: "escape_char c @ r \<noteq> CHR 0x22 # s"
  by (simp add: escape_char_def)

lemma escaped_prefix:
  "concat (map escape_char s) @ CHR 0x22 # r = concat (map escape_char t) @ CHR 0x22 # r' \<Longrightarrow>
   s = t \<and> r = r'"
proof (induction s arbitrary: t)
  case Nil
  show ?case
  proof (cases t)
    case Nil
    with Nil.prems show ?thesis by simp
  next
    case (Cons d t')
    with Nil.prems have "escape_char d @ concat (map escape_char t') @ CHR 0x22 # r' = CHR 0x22 # r"
      by simp
    then show ?thesis by (simp only: escape_char_not_quote)
  qed
next
  case (Cons c s)
  show ?case
  proof (cases t)
    case Nil
    with Cons.prems show ?thesis by (simp add: escape_char_not_quote)
  next
    case (Cons d t')
    with Cons.prems have "c = d \<and> concat (map escape_char s) @ CHR 0x22 # r =
        concat (map escape_char t') @ CHR 0x22 # r'"
      by (intro escape_char_inj) simp
    with Cons.IH [of t'] Cons show ?thesis by simp
  qed
qed

lemma json_string_prefix: "json_string s @ r = json_string t @ r' \<Longrightarrow> s = t \<and> r = r'"
  by (rule escaped_prefix) (simp add: json_string_def)

lemma json_string_inj [simp]: "json_string s = json_string t \<longleftrightarrow> s = t"
  using json_string_prefix [of s "[]" t "[]"] by auto

definition follow :: "string \<Rightarrow> bool" where
  "follow r \<longleftrightarrow> r = [] \<or> hd r \<in> {CHR '','', CHR '']'', CHR ''}''}"

definition prefix_free :: "string set \<Rightarrow> string set \<Rightarrow> bool" where
  "prefix_free T U \<longleftrightarrow> (\<forall>t \<in> T. \<forall>u \<in> U. \<forall>r s. t @ r = u @ s \<longrightarrow> follow r \<longrightarrow> follow s \<longrightarrow> t = u \<and> r = s)"

lemma prefix_freeD:
  "prefix_free T U \<Longrightarrow> t \<in> T \<Longrightarrow> u \<in> U \<Longrightarrow> t @ r = u @ s \<Longrightarrow> follow r \<Longrightarrow> follow s \<Longrightarrow> t = u \<and> r = s"
  unfolding prefix_free_def by blast

lemma prefix_free_subset: "prefix_free T U \<Longrightarrow> T' \<subseteq> T \<Longrightarrow> U' \<subseteq> U \<Longrightarrow> prefix_free T' U'"
  unfolding prefix_free_def by blast

lemma join_comma_Cons:
  "join_comma (x # xs) @ c # r = x @ (if xs = [] then c # r else CHR '','' # join_comma xs @ c # r)"
  by (cases xs) auto

lemma join_prefix:
  assumes pf: "prefix_free (set ts) (set us)"
    and ne: "\<And>t. t \<in> set ts \<union> set us \<Longrightarrow> t \<noteq> [] \<and> hd t \<noteq> c"
    and c: "c \<in> {CHR '']'', CHR ''}''}"
  shows "join_comma ts @ c # r = join_comma us @ c # s \<Longrightarrow> ts = us \<and> r = s"
  using pf ne
proof (induction ts arbitrary: us)
  case Nil
  show ?case
  proof (cases us)
    case Nil
    with Nil.prems show ?thesis by simp
  next
    case (Cons u us')
    then obtain a u' where "u = a # u'" "a \<noteq> c"
      using Nil.prems(3) [of u] by (cases u) auto
    with Nil.prems(1) Cons show ?thesis by (simp add: join_comma_Cons)
  qed
next
  case (Cons t ts)
  show ?case
  proof (cases us)
    case Nil
    obtain a t' where "t = a # t'" "a \<noteq> c"
      using Cons.prems(3) [of t] by (cases t) auto
    with Cons.prems(1) Nil show ?thesis by (simp add: join_comma_Cons)
  next
    case us: (Cons u us')
    let ?r = "if ts = [] then c # r else CHR '','' # join_comma ts @ c # r"
    let ?s = "if us' = [] then c # s else CHR '','' # join_comma us' @ c # s"
    have f: "follow ?r" "follow ?s" using c by (auto simp: follow_def)
    have eq: "t @ ?r = u @ ?s"
      using Cons.prems(1) unfolding us join_comma_Cons .
    have tu: "t = u \<and> ?r = ?s"
      by (rule prefix_freeD [OF Cons.prems(2) _ _ eq f]) (simp_all add: us)
    have c': "c \<noteq> CHR '',''" using c by auto
    have pf': "prefix_free (set ts) (set us')"
      by (rule prefix_free_subset [OF Cons.prems(2)]) (auto simp: us)
    show ?thesis
    proof (cases "ts = [] \<or> us' = []")
      case True
      with tu us c' show ?thesis by (auto split: if_splits)
    next
      case False
      with tu have "join_comma ts @ c # r = join_comma us' @ c # s" by simp
      then have "ts = us' \<and> r = s"
        by (rule Cons.IH [OF _ pf']) (use Cons.prems(3) us in auto)
      with tu us show ?thesis by simp
    qed
  qed
qed

lemma insort_key_fst_map:
  "insort_key fst (k, f v) (map (\<lambda>(k, v). (k, f v)) xs) =
   map (\<lambda>(k, v). (k, f v)) (insort_key fst (k, v) xs)"
  by (induction xs) auto

lemma sort_key_fst_map:
  "sort_key fst (map (\<lambda>(k, v). (k, f v)) kvs) = map (\<lambda>(k, v). (k, f v)) (sort_key fst kvs)"
  by (induction kvs) (auto simp: insort_key_fst_map split: prod.splits)

text \<open>Texts of different kinds differ in their first character; a number ends where a
  separator begins.\<close>

definition num_char :: "char \<Rightarrow> bool" where
  "num_char c \<longleftrightarrow> c = CHR ''-'' \<or> of_char c \<in> {48..57::nat}"

lemma dec_int_num: "c \<in> set (dec_int i) \<Longrightarrow> num_char c"
  using dec_int_chars by (auto simp: num_char_def)

lemma not_num_char [simp]:
  "\<not> num_char (CHR ''n'')" "\<not> num_char (CHR ''t'')" "\<not> num_char (CHR ''f'')"
  "\<not> num_char (CHR 0x22)" "\<not> num_char (CHR ''['')" "\<not> num_char (CHR ''{'')"
  "\<not> num_char (CHR '','')" "\<not> num_char (CHR '']'')" "\<not> num_char (CHR ''}'')"
  by (simp_all add: num_char_def)

lemma dec_int_Cons:
  obtains c w where "dec_int i = c # w" "num_char c"
  using dec_int_nonempty [of i] dec_int_num [of "hd (dec_int i)" i]
  by (cases "dec_int i") auto

lemma dec_int_first [simp]:
  "\<not> num_char c \<Longrightarrow> (c # w = dec_int i @ s) = False"
  "\<not> num_char c \<Longrightarrow> (dec_int i @ s = c # w) = False"
  by (metis dec_int_Cons append_Cons list.inject)+

lemma dec_int_prefix:
  assumes eq: "dec_int i @ r = dec_int j @ s" and "follow r" "follow s"
  shows "i = j \<and> r = s"
proof -
  have *: "takeWhile num_char (dec_int k @ t) = dec_int k" if "follow t" for k t
  proof -
    have "takeWhile num_char t = []"
      using that by (cases t) (auto simp: follow_def)
    then show ?thesis by (simp add: takeWhile_append2 dec_int_num)
  qed
  from eq have "dec_int i = dec_int j"
    using * [of r i] * [of s j] assms(2,3) by simp
  with eq show ?thesis by simp
qed

lemma dumps_first: "\<exists>c w. dumps j = c # w \<and> c \<notin> {CHR '','', CHR '']'', CHR ''}''}"
proof (cases j)
  case (JInt i)
  obtain c w where "dec_int i = c # w" "num_char c" by (rule dec_int_Cons)
  with JInt show ?thesis by (auto simp: num_char_def)
qed (auto simp: json_string_def)

text \<open>An element text: the text of a value, or of a key and a value.\<close>

definition member_text :: "string \<times> string \<Rightarrow> string" where
  "member_text = (\<lambda>(k, t). json_string k @ CHR '':'' # t)"

lemma dumps_JObj: "dumps (JObj kvs) = CHR ''{'' #
    join_comma (map member_text (map (\<lambda>(k, v). (k, dumps v)) (sort_key fst kvs))) @ [CHR ''}'']"
  by (simp add: sort_key_fst_map member_text_def)

lemma member_text_first: "member_text m \<noteq> [] \<and> hd (member_text m) = CHR 0x22"
  by (cases m) (simp add: member_text_def json_string_def)

lemma member_text_inj: "member_text m = member_text n \<Longrightarrow> m = n"
  by (cases m; cases n) (auto simp: member_text_def dest: json_string_prefix)

lemma prefix_free_member:
  assumes "prefix_free (snd ` M) (snd ` N)"
  shows "prefix_free (member_text ` M) (member_text ` N)"
  unfolding prefix_free_def
proof (intro ballI allI impI)
  fix t u r s
  assume "t \<in> member_text ` M" "u \<in> member_text ` N" and eq: "t @ r = u @ s"
    and f: "follow r" "follow s"
  then obtain k a l b where t: "t = member_text (k, a)" "(k, a) \<in> M"
    and u: "u = member_text (l, b)" "(l, b) \<in> N" by auto
  from eq have "json_string k @ CHR '':'' # a @ r = json_string l @ CHR '':'' # b @ s"
    by (simp add: t u member_text_def)
  then have kl: "k = l" and "CHR '':'' # a @ r = CHR '':'' # b @ s"
    by (auto dest: json_string_prefix)
  then have ab: "a @ r = b @ s" by simp
  have "a = b \<and> r = s"
    by (rule prefix_freeD [OF assms _ _ ab f]) (use t u in force)+
  with kl t u show "t = u \<and> r = s" by simp
qed

definition text_determines :: "json \<Rightarrow> bool" where
  "text_determines x \<longleftrightarrow> (\<forall>y r s. dumps x @ r = dumps y @ s \<longrightarrow> follow r \<longrightarrow> follow s \<longrightarrow>
     dumps x = dumps y \<and> r = s \<and> jsort x = jsort y)"

lemma text_determinesD1:
  "text_determines x \<Longrightarrow> dumps x @ r = dumps y @ s \<Longrightarrow> follow r \<Longrightarrow> follow s \<Longrightarrow>
   dumps x = dumps y \<and> r = s"
  unfolding text_determines_def by blast

lemma text_determinesD2: "text_determines x \<Longrightarrow> dumps x = dumps y \<Longrightarrow> jsort x = jsort y"
  unfolding text_determines_def
  by (drule spec [of _ y], drule spec [of _ "[]"], drule spec [of _ "[]"]) (simp add: follow_def)

lemma text_determines_prefix_free:
  assumes "\<And>x. x \<in> X \<Longrightarrow> text_determines x"
  shows "prefix_free (dumps ` X) (dumps ` Y)"
  unfolding prefix_free_def
proof (intro ballI allI impI)
  fix t u r s
  assume "t \<in> dumps ` X" "u \<in> dumps ` Y" and eq: "t @ r = u @ s" and f: "follow r" "follow s"
  then obtain x y where t: "t = dumps x" "text_determines x" and u: "u = dumps y"
    using assms by auto
  from eq have "dumps x @ r = dumps y @ s" unfolding t(1) u .
  from text_determinesD1 [OF t(2) this f] show "t = u \<and> r = s" unfolding t(1) u .
qed

lemma text_determines_map:
  assumes "\<And>x. x \<in> set xs \<Longrightarrow> text_determines x" and "map dumps xs = map dumps ys"
  shows "map jsort xs = map jsort ys"
proof -
  have "list_all2 (\<lambda>x y. dumps x = dumps y) xs ys"
    using assms(2) by (simp add: map_eq_list_all2)
  then have "list_all2 (\<lambda>x y. jsort x = jsort y) xs ys"
    by (rule list.rel_mono_strong) (use assms(1) text_determinesD2 in blast)
  then show ?thesis by (simp add: map_eq_list_all2)
qed

lemma text_determines_JList:
  assumes IH: "\<And>x. x \<in> set xs \<Longrightarrow> text_determines x"
  shows "text_determines (JList xs)"
  unfolding text_determines_def
proof (intro allI impI)
  fix y r s
  assume eq: "dumps (JList xs) @ r = dumps y @ s" and "follow r" "follow s"
  then obtain ys where y: "y = JList ys"
    by (cases y) (auto simp: json_string_def split: if_splits)
  from eq have "join_comma (map dumps xs) @ CHR '']'' # r = join_comma (map dumps ys) @ CHR '']'' # s"
    by (simp add: y)
  then have "map dumps xs = map dumps ys \<and> r = s"
  proof (rule join_prefix [rotated -1])
    show "prefix_free (set (map dumps xs)) (set (map dumps ys))"
      using text_determines_prefix_free [of "set xs" "set ys"] IH by simp
    show "t \<noteq> [] \<and> hd t \<noteq> CHR '']''" if "t \<in> set (map dumps xs) \<union> set (map dumps ys)" for t
    proof -
      from that obtain j where "t = dumps j" by auto
      then show ?thesis using dumps_first [of j] by auto
    qed
  qed simp
  then show "dumps (JList xs) = dumps y \<and> r = s \<and> jsort (JList xs) = jsort y"
    using text_determines_map [OF IH] by (simp add: y)
qed

lemma text_determines_JObj:
  assumes IH: "\<And>k x. (k, x) \<in> set kvs \<Longrightarrow> text_determines x"
  shows "text_determines (JObj kvs)"
  unfolding text_determines_def
proof (intro allI impI)
  fix y r s
  assume eq: "dumps (JObj kvs) @ r = dumps y @ s" and "follow r" "follow s"
  then obtain lws where y: "y = JObj lws"
    by (cases y) (auto simp: json_string_def split: if_splits)
  let ?f = "\<lambda>(k :: string, v). (k, dumps v)"
  let ?ms = "map ?f (sort_key fst kvs)" and ?ns = "map ?f (sort_key fst lws)"
  from eq have "join_comma (map member_text ?ms) @ CHR ''}'' # r =
      join_comma (map member_text ?ns) @ CHR ''}'' # s"
    unfolding y dumps_JObj by simp
  then have "map member_text ?ms = map member_text ?ns \<and> r = s"
  proof (rule join_prefix [rotated -1])
    have "prefix_free (dumps ` snd ` set kvs) (dumps ` snd ` set lws)"
      by (rule text_determines_prefix_free) (use IH in auto)
    then have "prefix_free (member_text ` ?f ` set kvs) (member_text ` ?f ` set lws)"
      by (intro prefix_free_member) (simp add: image_image case_prod_beta)
    then show "prefix_free (set (map member_text ?ms)) (set (map member_text ?ns))"
      by (simp add: image_image)
    show "t \<noteq> [] \<and> hd t \<noteq> CHR ''}''"
      if "t \<in> set (map member_text ?ms) \<union> set (map member_text ?ns)" for t
    proof -
      from that obtain m where "t = member_text m" by (auto simp: image_iff)
      then show ?thesis using member_text_first [of m] by simp
    qed
  qed simp
  then have eq': "?ms = ?ns" and rs: "r = s"
    using map_injective [of member_text] member_text_inj by (blast intro: injI)+
  have fsts: "map fst (sort_key fst kvs) = map fst (sort_key fst lws)"
    using arg_cong [OF eq', of "map fst"] by (simp add: case_prod_beta comp_def)
  have "map dumps (map snd (sort_key fst kvs)) = map dumps (map snd (sort_key fst lws))"
    using arg_cong [OF eq', of "map snd"] by (simp add: case_prod_beta comp_def)
  then have snds: "map jsort (map snd (sort_key fst kvs)) = map jsort (map snd (sort_key fst lws))"
    by (rule text_determines_map [rotated]) (use IH in auto)
  have "map (\<lambda>(k, v). (k, jsort v)) (sort_key fst kvs) =
      zip (map fst (sort_key fst kvs)) (map jsort (map snd (sort_key fst kvs)))"
    by (simp add: zip_map_map zip_same_conv_map case_prod_beta)
  also have "\<dots> = zip (map fst (sort_key fst lws)) (map jsort (map snd (sort_key fst lws)))"
    by (simp only: fsts snds)
  also have "\<dots> = map (\<lambda>(k, v). (k, jsort v)) (sort_key fst lws)"
    by (simp add: zip_map_map zip_same_conv_map case_prod_beta)
  finally have "jsort (JObj kvs) = jsort y"
    by (simp add: y sort_key_fst_map)
  moreover have "dumps (JObj kvs) = dumps y"
    unfolding y dumps_JObj by (simp only: eq')
  ultimately show "dumps (JObj kvs) = dumps y \<and> r = s \<and> jsort (JObj kvs) = jsort y"
    using rs by simp
qed

lemma text_determines: "text_determines x"
proof (induction x)
  case JNull
  show ?case
    unfolding text_determines_def
    by (intro allI impI, case_tac y) (auto simp: json_string_def split: if_splits)
next
  case (JBool b)
  show ?case
    unfolding text_determines_def
    by (intro allI impI, case_tac y) (auto simp: json_string_def split: if_splits)
next
  case (JInt i)
  show ?case
    unfolding text_determines_def
  proof (intro allI impI)
    fix y r s
    assume eq: "dumps (JInt i) @ r = dumps y @ s" and f: "follow r" "follow s"
    obtain c w where "dec_int i = c # w" "num_char c" by (rule dec_int_Cons)
    with eq obtain j where "y = JInt j"
      by (cases y) (auto simp: json_string_def split: if_splits)
    with eq f dec_int_prefix [of i r j s]
    show "dumps (JInt i) = dumps y \<and> r = s \<and> jsort (JInt i) = jsort y" by simp
  qed
next
  case (JStr t)
  show ?case
    unfolding text_determines_def
  proof (intro allI impI)
    fix y r s
    assume eq: "dumps (JStr t) @ r = dumps y @ s"
    then obtain u where "y = JStr u"
      by (cases y) (auto simp: json_string_def split: if_splits)
    with eq json_string_prefix [of t r u s]
    show "dumps (JStr t) = dumps y \<and> r = s \<and> jsort (JStr t) = jsort y" by simp
  qed
next
  case (JList xs)
  then show ?case by (rule text_determines_JList)
next
  case (JObj kvs)
  show ?case
    by (rule text_determines_JObj) (use JObj in force)
qed

lemma dumps_eqD: "dumps x = dumps y \<Longrightarrow> jsort x = jsort y"
  using text_determines text_determinesD2 by blast

text \<open>Members of equal objects are equal, so a payload determines what its members determine.\<close>

lemma jsort_lookup:
  assumes eq: "jsort (JObj kvs) = jsort (JObj lws)"
    and d: "distinct (map fst kvs)" "distinct (map fst lws)"
    and k: "map_of kvs k \<noteq> None" "map_of lws k \<noteq> None"
  shows "jsort (the (map_of kvs k)) = jsort (the (map_of lws k))"
proof -
  obtain v w where vw: "map_of kvs k = Some v" "map_of lws k = Some w" using k by auto
  let ?j = "map (\<lambda>(k, v). (k, jsort v))"
  have "sort_key fst (?j kvs) = sort_key fst (?j lws)" using eq by simp
  then have "mset (sort_key fst (?j kvs)) = mset (sort_key fst (?j lws))" by (rule arg_cong)
  then have "mset (?j kvs) = mset (?j lws)" unfolding mset_sort .
  then have s: "set (?j kvs) = set (?j lws)" by (rule mset_eq_setD)
  have fst: "map fst (?j xs) = map fst xs" for xs :: "(string \<times> json) list" by (induction xs) auto
  have "map_of (?j kvs) = map_of (?j lws)"
    using map_of_inject_set [of "?j kvs" "?j lws"] d s by (simp only: fst)
  moreover have "map_of (?j kvs) k = Some (jsort v)" "map_of (?j lws) k = Some (jsort w)"
    using vw by (simp_all add: map_of_map)
  ultimately show ?thesis by (simp add: vw)
qed

end
