(* ===== verification/Float64.thy ===== *)
theory Float64
  imports Py_Text "HOL-Library.Word"
begin

text \<open>
  The built-in \<open>float\<close>: IEEE-754 binary64 as its three bit fields.  Only finite floats enter a
  net, so comparison is comparison of the exact value scaled by 2 to the 1074, which is an
  integer.  The two zeros have different bits and equal values, which the model keeps: Python's
  \<open>==\<close> identifies them and \<open>float.hex()\<close> does not.
\<close>

datatype f64 = F64 (f_neg: bool) (f_exp: "11 word") (f_frac: "52 word")

definition f64_finite :: "f64 \<Rightarrow> bool" where
  "f64_finite x \<longleftrightarrow> f_exp x \<noteq> 2047"

definition f64_scaled :: "f64 \<Rightarrow> int" where
  "f64_scaled x =
     (let e = unat (f_exp x); f = unat (f_frac x);
          m = int ((if e = 0 then f else 2 ^ 52 + f) * 2 ^ (e - 1))
      in if f_neg x then - m else m)"

text \<open>\<open>x == y\<close> and \<open>x < y\<close> on finite floats.\<close>

definition f64_eq :: "f64 \<Rightarrow> f64 \<Rightarrow> bool" where
  "f64_eq x y \<longleftrightarrow> f64_scaled x = f64_scaled y"

definition f64_less :: "f64 \<Rightarrow> f64 \<Rightarrow> bool" where
  "f64_less x y \<longleftrightarrow> f64_scaled x < f64_scaled y"

definition f64_zero :: "f64 \<Rightarrow> bool" where
  "f64_zero x \<longleftrightarrow> f_exp x = 0 \<and> f_frac x = 0"

section \<open>Conversion from an integer\<close>

fun bitlen :: "nat \<Rightarrow> nat" where
  "bitlen n = (if n = 0 then 0 else Suc (bitlen (n div 2)))"

declare bitlen.simps [simp del]

text \<open>
  \<open>float(i)\<close>: the nearest binary64, ties to even, \<open>None\<close> for the \<open>OverflowError\<close>.  The pair is
  the exponent field and the fraction field of the magnitude.
\<close>

definition round_half_even :: "nat \<Rightarrow> nat \<Rightarrow> nat" where
  "round_half_even m s =
     (let q = m div 2 ^ s; r = m mod 2 ^ s; half = 2 ^ (s - 1)
      in if half < r \<or> (r = half \<and> odd q) then q + 1 else q)"

definition float_mag :: "nat \<Rightarrow> (nat \<times> nat) option" where
  "float_mag m =
     (let k = bitlen m in
      if m = 0 then Some (0, 0)
      else if k \<le> 53 then Some (k + 1022, m * 2 ^ (53 - k) - 2 ^ 52)
      else
        (let q = round_half_even m (k - 53);
             (q', k') = (if q = 2 ^ 53 then (2 ^ 52, k + 1) else (q, k))
         in if 1024 < k' then None else Some (k' + 1022, q' - 2 ^ 52)))"

definition float_of_int :: "int \<Rightarrow> f64 option" where
  "float_of_int i =
     map_option (\<lambda>(e, f). F64 (i < 0) (word_of_nat e) (word_of_nat f)) (float_mag (nat \<bar>i\<bar>))"

section \<open>float.hex\<close>

definition signed_dec :: "int \<Rightarrow> string" where
  "signed_dec i = (if i < 0 then dec_int i else CHR ''+'' # dec_int i)"

definition f64_hex :: "f64 \<Rightarrow> string" where
  "f64_hex x =
     (if f_neg x then ''-'' else '''') @
     (if f64_zero x then ''0x0.0p+0''
      else ''0x'' @ (if f_exp x = 0 then ''0'' else ''1'') @ ''.'' @
        hex_fixed 13 (unat (f_frac x)) @ ''p'' @
        signed_dec (if f_exp x = 0 then -1022 else int (unat (f_exp x)) - 1023))"

section \<open>Facts\<close>

lemma unat_frac_less: "unat (w :: 52 word) < 2 ^ 52"
  using unsigned_less [of w] by (simp add: of_nat_less_iff)

lemma unat_exp_less: "unat (w :: 11 word) < 2048"
  using unsigned_less [of w] by (simp add: of_nat_less_iff)

lemma f64_scaled_nonneg: "\<not> f_neg x \<Longrightarrow> 0 \<le> f64_scaled x"
  by (simp add: f64_scaled_def Let_def)

lemma f64_scaled_nonpos: "f_neg x \<Longrightarrow> f64_scaled x \<le> 0"
  by (simp add: f64_scaled_def Let_def)

lemma f64_scaled_zero: "f64_scaled x = 0 \<longleftrightarrow> f64_zero x"
  by (auto simp: f64_scaled_def f64_zero_def Let_def unat_eq_0)

text \<open>The magnitude with exponent field \<open>e\<close> and fraction \<open>f\<close> lies in its binade.\<close>

definition mag :: "nat \<Rightarrow> nat \<Rightarrow> nat" where
  "mag e f = (if e = 0 then f else 2 ^ 52 + f) * 2 ^ (e - 1)"

lemma f64_scaled_mag:
  "f64_scaled x = (if f_neg x then - 1 else 1) * int (mag (unat (f_exp x)) (unat (f_frac x)))"
  by (simp add: f64_scaled_def mag_def Let_def)

lemma mag_upper: "f < 2 ^ 52 \<Longrightarrow> mag e f < 2 ^ (52 + e)"
proof (cases e)
  case 0
  assume "f < 2 ^ 52"
  with 0 show ?thesis by (simp add: mag_def)
next
  case (Suc d)
  assume "f < 2 ^ 52"
  then have "2 ^ 52 + f < (2 :: nat) ^ 53" by simp
  then have "(2 ^ 52 + f) * 2 ^ d < (2 :: nat) ^ 53 * 2 ^ d" by (rule mult_strict_right_mono) simp
  also have "\<dots> = 2 ^ (52 + e)" by (simp add: Suc power_add)
  finally show ?thesis by (simp add: mag_def Suc)
qed

lemma mag_lower: "0 < e \<Longrightarrow> 2 ^ (51 + e) \<le> mag e f"
proof (cases e)
  case (Suc d)
  have "(2 :: nat) ^ (51 + e) = 2 ^ 52 * 2 ^ d" by (simp add: Suc power_add)
  also have "\<dots> \<le> (2 ^ 52 + f) * 2 ^ d" by (rule mult_right_mono) simp_all
  finally show ?thesis by (simp add: mag_def Suc)
qed simp

lemma mag_inj:
  assumes eq: "mag e f = mag e' f'" and f: "f < 2 ^ 52" "f' < 2 ^ 52"
  shows "e = e' \<and> f = f'"
proof -
  have less: "e1 < e2 \<Longrightarrow> g1 < 2 ^ 52 \<Longrightarrow> mag e1 g1 < mag e2 g2" for e1 e2 g1 g2
  proof -
    assume e: "e1 < e2" and g: "g1 < 2 ^ 52"
    have "mag e1 g1 < 2 ^ (52 + e1)" by (rule mag_upper [OF g])
    also have "\<dots> \<le> (2 :: nat) ^ (51 + e2)" using e by (intro power_increasing) auto
    also have "\<dots> \<le> mag e2 g2" using e by (intro mag_lower) simp
    finally show ?thesis .
  qed
  have "e = e'"
    using less [of e e' f f'] less [of e' e f' f] eq f by (metis less_irrefl linorder_neqE_nat)
  moreover from this eq have "f = f'" by (simp add: mag_def split: if_splits)
  ultimately show ?thesis ..
qed

lemma f64_scaled_inj:
  assumes "f64_scaled x = f64_scaled y"
  shows "x = y \<or> (f64_zero x \<and> f64_zero y)"
proof (cases "f64_scaled x = 0")
  case True
  with assms show ?thesis by (simp flip: f64_scaled_zero)
next
  case False
  then have neg: "f_neg x = f_neg y"
    using assms f64_scaled_nonneg [of x] f64_scaled_nonneg [of y]
      f64_scaled_nonpos [of x] f64_scaled_nonpos [of y] by force
  with assms have "mag (unat (f_exp x)) (unat (f_frac x)) = mag (unat (f_exp y)) (unat (f_frac y))"
    by (simp add: f64_scaled_mag split: if_splits)
  then have "unat (f_exp x) = unat (f_exp y) \<and> unat (f_frac x) = unat (f_frac y)"
    by (rule mag_inj) (rule unat_frac_less)+
  then have "f_exp x = f_exp y" "f_frac x = f_frac y" by (simp_all add: word_unat_eq_iff)
  with neg show ?thesis by (simp add: f64.expand)
qed

section \<open>Rounding of integers\<close>

text \<open>One, on the scale of \<open>f64_scaled\<close>.\<close>

definition f64_unit :: nat where
  "f64_unit = 2 ^ 1074"

lemma half_bounds: "p \<le> m div 2 \<Longrightarrow> m div 2 < 2 * p \<Longrightarrow> 2 * p \<le> m \<and> m < 4 * (p :: nat)"
  by arith

lemma bitlen_bounds: "0 < m \<Longrightarrow> 2 ^ (bitlen m - 1) \<le> m \<and> m < 2 ^ bitlen m \<and> 0 < bitlen m"
proof (induction m rule: bitlen.induct)
  case (1 m)
  show ?case
  proof (cases "m div 2 = 0")
    case True
    with 1 have "m = 1" by (auto simp: div_eq_0_iff)
    then show ?thesis by (simp add: bitlen.simps)
  next
    case False
    with 1 have IH: "2 ^ (bitlen (m div 2) - 1) \<le> m div 2" "m div 2 < 2 ^ bitlen (m div 2)"
      "0 < bitlen (m div 2)" by auto
    have b: "bitlen m = Suc (bitlen (m div 2))" using 1 by (subst bitlen.simps) simp
    from IH(3) have "2 ^ bitlen (m div 2) = 2 * (2 :: nat) ^ (bitlen (m div 2) - 1)"
      by (metis Suc_diff_1 power_Suc)
    with IH half_bounds [of "2 ^ (bitlen (m div 2) - 1)" m] show ?thesis
      unfolding b by simp
  qed
qed

lemma bitlen_unique:
  assumes "0 < k" "2 ^ (k - 1) \<le> m" "m < 2 ^ k"
  shows "bitlen m = k"
proof -
  have "0 < m" using assms(2) by (metis le_zero_eq not_gr_zero power_not_zero zero_neq_numeral)
  from bitlen_bounds [OF this] have b: "2 ^ (bitlen m - 1) \<le> m" "m < 2 ^ bitlen m" "0 < bitlen m"
    by auto
  have "(2 :: nat) ^ (bitlen m - 1) < 2 ^ k" using b(1) assms(3) by (rule le_less_trans)
  moreover have "(2 :: nat) ^ (k - 1) < 2 ^ bitlen m" using assms(2) b(2) by (rule le_less_trans)
  ultimately have "bitlen m - 1 < k \<and> k - 1 < bitlen m" by simp
  with assms(1) b(3) show ?thesis by linarith
qed

lemma round_up_error: "R < P \<Longrightarrow> P \<le> 2 * R \<Longrightarrow>
    2 * \<bar>int ((Q + 1) * P) - int (Q * P + R)\<bar> \<le> int P"
  and round_down_error: "2 * R \<le> P \<Longrightarrow> 2 * \<bar>int (Q * P) - int (Q * P + R)\<bar> \<le> int P"
  by (simp_all add: algebra_simps)

lemma round_half_even_error:
  assumes "0 < s"
  shows "2 * \<bar>int (round_half_even m s * 2 ^ s) - int m\<bar> \<le> int (2 ^ s)"
proof -
  let ?q = "m div 2 ^ s" and ?r = "m mod 2 ^ s" and ?h = "2 ^ (s - 1) :: nat"
  have h: "2 * ?h = 2 ^ s" using assms by (metis Suc_diff_1 power_Suc)
  have m: "m = ?q * 2 ^ s + ?r" by (rule div_mult_mod_eq [symmetric])
  show ?thesis
  proof (cases "?h < ?r \<or> (?r = ?h \<and> odd ?q)")
    case True
    then have q: "round_half_even m s = ?q + 1" by (simp add: round_half_even_def Let_def)
    have "2 ^ s \<le> 2 * ?r" using True by (auto simp flip: h)
    then have "2 * \<bar>int ((?q + 1) * 2 ^ s) - int (?q * 2 ^ s + ?r)\<bar> \<le> int (2 ^ s)"
      by (intro round_up_error) simp_all
    then show ?thesis unfolding q m [symmetric] .
  next
    case False
    then have q: "round_half_even m s = ?q" by (auto simp: round_half_even_def Let_def)
    have "2 * ?r \<le> 2 ^ s" using False by (auto simp flip: h)
    then have "2 * \<bar>int (?q * 2 ^ s) - int (?q * 2 ^ s + ?r)\<bar> \<le> int (2 ^ s)"
      by (rule round_down_error)
    then show ?thesis unfolding q m [symmetric] .
  qed
qed

lemma round_half_even_range:
  assumes "53 < bitlen m"
  shows "2 ^ 52 \<le> round_half_even m (bitlen m - 53) \<and> round_half_even m (bitlen m - 53) \<le> 2 ^ 53"
proof -
  let ?s = "bitlen m - 53"
  have "0 < m" using assms by (cases m) (auto simp: bitlen.simps)
  from bitlen_bounds [OF this] have b: "2 ^ (bitlen m - 1) \<le> m" "m < 2 ^ bitlen m" by auto
  have e: "bitlen m - 1 = 52 + ?s" "bitlen m = 53 + ?s" using assms by auto
  have "2 ^ 52 * 2 ^ ?s \<le> m" using b(1) unfolding e(1) power_add .
  then have lo: "2 ^ 52 \<le> m div 2 ^ ?s" by (simp add: less_eq_div_iff_mult_less_eq)
  have "(2 :: nat) ^ bitlen m = 2 ^ 53 * 2 ^ ?s" by (subst e(2)) (simp only: power_add)
  with b(2) have "m < 2 ^ 53 * 2 ^ ?s" by (simp only:)
  then have hi: "m div 2 ^ ?s < 2 ^ 53" by (simp only: less_mult_imp_div_less)
  show ?thesis using lo hi by (auto simp: round_half_even_def Let_def)
qed

text \<open>The integer that the conversion represents.\<close>

definition rounded :: "nat \<Rightarrow> nat" where
  "rounded m = (if bitlen m \<le> 53 then m
     else round_half_even m (bitlen m - 53) * 2 ^ (bitlen m - 53))"

lemma rounded_error: "2 ^ 53 * \<bar>int (rounded m) - int m\<bar> \<le> int m"
proof (cases "bitlen m \<le> 53")
  case False
  let ?s = "bitlen m - 53"
  have "0 < m" using False by (cases m) (auto simp: bitlen.simps)
  from bitlen_bounds [OF this] have "2 ^ (bitlen m - 1) \<le> m" by simp
  moreover have "bitlen m - 1 = 52 + ?s" using False by simp
  ultimately have "2 ^ 52 * 2 ^ ?s \<le> m" by (simp only: power_add)
  then have "int (2 ^ 52 * 2 ^ ?s) \<le> int m" by (simp only: of_nat_le_iff)
  moreover have "2 * \<bar>int (rounded m) - int m\<bar> \<le> int (2 ^ ?s)"
    using round_half_even_error [of ?s m] False by (simp add: rounded_def)
  ultimately show ?thesis by simp
qed (simp add: rounded_def)

lemma rounded_exact: "m \<le> 2 ^ 53 \<Longrightarrow> rounded m = m"
proof (cases "m = 2 ^ 53")
  case True
  have "bitlen (2 ^ 53) = 54" by (rule bitlen_unique) simp_all
  moreover have "round_half_even (2 ^ 53) 1 = 2 ^ 52"
    by (simp add: round_half_even_def)
  ultimately show ?thesis using True by (simp add: rounded_def)
next
  case False
  assume "m \<le> 2 ^ 53"
  with False have m: "m < 2 ^ 53" by simp
  have "bitlen m \<le> 53"
  proof (cases "m = 0")
    case True
    then show ?thesis by (simp add: bitlen.simps)
  next
    case False
    then have "2 ^ (bitlen m - 1) \<le> m" using bitlen_bounds by blast
    then have "(2 :: nat) ^ (bitlen m - 1) < 2 ^ 53" using m by (rule le_less_trans)
    then have "bitlen m - 1 < 53" by (rule power_less_imp_less_exp [rotated]) simp
    then show ?thesis by linarith
  qed
  then show ?thesis by (simp add: rounded_def)
qed

lemma float_mag_Some:
  assumes "float_mag m = Some (e, f)"
  shows "e < 2047 \<and> f < 2 ^ 52 \<and> mag e f = rounded m * f64_unit"
proof (cases "m = 0")
  case True
  with assms show ?thesis by (simp add: float_mag_def Let_def mag_def rounded_def bitlen.simps)
next
  case False
  then have b: "2 ^ (bitlen m - 1) \<le> m" "m < 2 ^ bitlen m" "0 < bitlen m"
    using bitlen_bounds by auto
  have norm: "mag (k + 1022) (q - 2 ^ 52) = q * 2 ^ (k + 1021)" if "2 ^ 52 \<le> q" for k q
    using that by (simp add: mag_def)
  show ?thesis
  proof (cases "bitlen m \<le> 53")
    case le: True
    let ?z = "53 - bitlen m"
    have e: "e = bitlen m + 1022" and f: "f = m * 2 ^ ?z - 2 ^ 52"
      using assms False le by (auto simp: float_mag_def Let_def)
    have "2 ^ (bitlen m - 1) * 2 ^ ?z \<le> m * 2 ^ ?z" by (rule mult_right_mono [OF b(1)]) simp
    also have "2 ^ (bitlen m - 1) * 2 ^ ?z = (2 :: nat) ^ (bitlen m - 1 + ?z)"
      by (simp only: power_add)
    also have "bitlen m - 1 + ?z = 52" using le b(3) by simp
    finally have lo: "2 ^ 52 \<le> m * 2 ^ ?z" .
    have "m * 2 ^ ?z < 2 ^ bitlen m * 2 ^ ?z" by (rule mult_strict_right_mono [OF b(2)]) simp
    also have "2 ^ bitlen m * 2 ^ ?z = (2 :: nat) ^ (bitlen m + ?z)" by (simp only: power_add)
    also have "bitlen m + ?z = 53" using le by simp
    finally have hi: "m * 2 ^ ?z < 2 ^ 53" .
    have "mag e f = m * (2 ^ ?z * 2 ^ (bitlen m + 1021))"
      using norm [OF lo] by (simp add: e f)
    also have "(2 :: nat) ^ ?z * 2 ^ (bitlen m + 1021) = 2 ^ (?z + (bitlen m + 1021))"
      by (simp only: power_add)
    also have "?z + (bitlen m + 1021) = 1074" using le by simp
    finally have "mag e f = rounded m * f64_unit" by (simp add: rounded_def le f64_unit_def)
    with hi le show ?thesis by (simp add: e f)
  next
    case gt: False
    let ?s = "bitlen m - 53"
    let ?q = "round_half_even m ?s"
    have q: "2 ^ 52 \<le> ?q" "?q \<le> 2 ^ 53"
      using round_half_even_range [of m] gt by auto
    define q' k' where "q' = (if ?q = 2 ^ 53 then 2 ^ 52 else ?q)"
      and "k' = (if ?q = 2 ^ 53 then bitlen m + 1 else bitlen m)"
    have ef: "k' \<le> 1024" "e = k' + 1022" "f = q' - 2 ^ 52"
      using assms False gt
      by (auto simp: float_mag_def Let_def q'_def k'_def split: if_splits)
    have q': "2 ^ 52 \<le> q'" "q' < 2 ^ 53"
      using q by (auto simp: q'_def)
    have "mag e f = q' * 2 ^ (k' + 1021)" using norm [OF q'(1)] by (simp only: ef)
    also have "\<dots> = ?q * 2 ^ (bitlen m + 1021)"
      using power_Suc [of "2 :: nat" "bitlen m + 1021"] by (simp add: q'_def k'_def)
    also have "bitlen m + 1021 = ?s + 1074" using gt by simp
    also have "?q * 2 ^ (?s + 1074) = rounded m * f64_unit"
      using gt by (simp only: power_add rounded_def f64_unit_def if_False mult.assoc)
    finally show ?thesis using q' ef by auto
  qed
qed

lemma float_of_int_Some:
  assumes "float_of_int i = Some x"
  shows "f64_finite x \<and>
    f64_scaled x = (if i < 0 then - 1 else 1) * int (rounded (nat \<bar>i\<bar>) * f64_unit)"
proof -
  from assms obtain e f where ef: "float_mag (nat \<bar>i\<bar>) = Some (e, f)"
    and x: "x = F64 (i < 0) (word_of_nat e) (word_of_nat f)"
    by (auto simp: float_of_int_def)
  note b = float_mag_Some [OF ef]
  have e: "unat (word_of_nat e :: 11 word) = e" and f: "unat (word_of_nat f :: 52 word) = f"
    using b by (simp_all add: unat_of_nat take_bit_nat_eq_self)
  have "unat (word_of_nat e :: 11 word) \<noteq> unat (2047 :: 11 word)"
    using b by (simp add: e)
  then have "f64_finite x" by (auto simp: x f64_finite_def)
  with b show ?thesis by (simp add: x f64_scaled_mag e f)
qed

text \<open>The conversion is correct to half a unit in the last place, and exact up to 2 to the 53.\<close>

lemma float_of_int_error:
  assumes "float_of_int i = Some x"
  shows "2 ^ 53 * \<bar>f64_scaled x - i * int f64_unit\<bar> \<le> \<bar>i\<bar> * int f64_unit"
proof -
  let ?m = "nat \<bar>i\<bar>"
  have i: "i = (if i < 0 then - 1 else 1) * int ?m" by simp
  have "f64_scaled x - i * int f64_unit =
      (if i < 0 then - 1 else 1) * ((int (rounded ?m) - int ?m) * int f64_unit)"
    using float_of_int_Some [OF assms] by (auto simp: algebra_simps)
  then have "2 ^ 53 * \<bar>f64_scaled x - i * int f64_unit\<bar> =
      2 ^ 53 * \<bar>int (rounded ?m) - int ?m\<bar> * int f64_unit"
    by (simp add: abs_mult)
  also have "\<dots> \<le> int ?m * int f64_unit"
    by (rule mult_right_mono [OF rounded_error]) simp
  finally show ?thesis by simp
qed

lemma float_mag_None_iff: "float_mag m = None \<longleftrightarrow>
    1024 < bitlen m \<or> (bitlen m = 1024 \<and> round_half_even m 971 = 2 ^ 53)"
proof (cases "bitlen m = 1024")
  case True
  then have "m \<noteq> 0" by (cases "m = 0") (simp_all add: bitlen.simps [of 0])
  with True show ?thesis by (simp add: float_mag_def Let_def)
next
  case False
  then show ?thesis by (auto simp: float_mag_def Let_def bitlen.simps [of 0])
qed

lemma round_half_even_top:
  assumes "(m :: nat) < 2 ^ 53 * 2 ^ Suc s"
  shows "round_half_even m (Suc s) = 2 ^ 53 \<longleftrightarrow> 2 ^ 53 * 2 ^ Suc s - 2 ^ s \<le> m"
proof -
  let ?P = "2 ^ Suc s :: nat"
  let ?q = "m div ?P" and ?r = "m mod ?P"
  have m: "m = ?q * ?P + ?r" by (rule div_mult_mod_eq [symmetric])
  have r: "?r < ?P" by simp
  have q: "?q < 2 ^ 53" using assms by (simp only: less_mult_imp_div_less)
  show ?thesis
  proof (cases "?q = 2 ^ 53 - 1")
    case True
    then have o: "odd ?q" by simp
    have "2 ^ 53 * ?P - 2 ^ s = (2 ^ 53 - 1) * ?P + 2 ^ s" by (simp add: algebra_simps)
    then have "2 ^ 53 * ?P - 2 ^ s \<le> m \<longleftrightarrow> 2 ^ s \<le> ?r"
      by (subst m) (simp only: True add_le_cancel_left)
    moreover have "round_half_even m (Suc s) = (if 2 ^ s \<le> ?r then ?q + 1 else ?q)"
      using o by (auto simp: round_half_even_def Let_def)
    ultimately show ?thesis using True by simp
  next
    case False
    with q have q2: "?q + 2 \<le> 2 ^ 53" by simp
    have "round_half_even m (Suc s) \<le> ?q + 1" by (simp add: round_half_even_def Let_def)
    with q2 have "round_half_even m (Suc s) \<noteq> 2 ^ 53" by linarith
    moreover have "m < 2 ^ 53 * ?P - 2 ^ s"
    proof -
      have "(?q + 2) * ?P \<le> 2 ^ 53 * ?P" by (rule mult_right_mono [OF q2]) simp
      moreover have "m + ?P < (?q + 2) * ?P" using r by (subst m) simp
      moreover have "2 ^ s \<le> ?P" by simp
      ultimately show ?thesis by linarith
    qed
    ultimately show ?thesis by simp
  qed
qed

text \<open>The \<open>OverflowError\<close> boundary: half a unit above the largest finite float.\<close>

lemma float_mag_overflow: "float_mag m = None \<longleftrightarrow> 2 ^ 1024 - 2 ^ 970 \<le> m"
proof -
  have big: "(2 :: nat) ^ 1024 = 2 ^ 53 * 2 ^ Suc 970"
    by (simp only: flip: power_add) simp
  show ?thesis
  proof (cases "m < 2 ^ 1024")
    case True
    then have top: "round_half_even m 971 = 2 ^ 53 \<longleftrightarrow> 2 ^ 1024 - 2 ^ 970 \<le> m"
      using round_half_even_top [of m 970] unfolding big by simp
    show ?thesis
    proof (cases "bitlen m = 1024")
      case eq: True
      then show ?thesis using top by (simp add: float_mag_None_iff)
    next
      case False
      have "bitlen m < 1024"
      proof (cases "m = 0")
        case True
        then show ?thesis by (simp add: bitlen.simps)
      next
        case pos: False
        then have "2 ^ (bitlen m - 1) \<le> m" using bitlen_bounds by blast
        from le_less_trans [OF this True] have "bitlen m - 1 < 1024"
          by (rule power_less_imp_less_exp [rotated]) simp
        with False show ?thesis by linarith
      qed
      moreover from this have "m < 2 ^ 1023"
      proof (cases "m = 0")
        case pos: False
        then have "m < 2 ^ bitlen m" using bitlen_bounds by blast
        also have "\<dots> \<le> (2 :: nat) ^ 1023"
          using \<open>bitlen m < 1024\<close> by (intro power_increasing) auto
        finally show ?thesis .
      qed simp
      moreover have "(2 :: nat) ^ 1023 \<le> 2 ^ 1024 - 2 ^ 970" by simp
      ultimately show ?thesis by (simp add: float_mag_None_iff)
    qed
  next
    case False
    then have "1024 < bitlen m"
    proof -
      have "0 < m" using False by (metis not_gr_zero zero_less_power zero_less_numeral)
      then have "m < 2 ^ bitlen m" using bitlen_bounds by blast
      with False have "(2 :: nat) ^ 1024 < 2 ^ bitlen m" by linarith
      then show ?thesis by (rule power_less_imp_less_exp [rotated]) simp
    qed
    moreover have "2 ^ 1024 - 2 ^ 970 \<le> m" using False by linarith
    ultimately show ?thesis by (simp add: float_mag_None_iff)
  qed
qed

lemma float_of_int_overflow: "float_of_int i = None \<longleftrightarrow> 2 ^ 1024 - 2 ^ 970 \<le> nat \<bar>i\<bar>"
  by (simp add: float_of_int_def float_mag_overflow)

lemma float_of_int_exact:
  assumes "\<bar>i\<bar> \<le> 2 ^ 53"
  obtains x where "float_of_int i = Some x" "f64_finite x" "f64_scaled x = i * int f64_unit"
proof -
  have m: "nat \<bar>i\<bar> \<le> 2 ^ 53" using assms by simp
  have "(2 :: nat) ^ 53 < 2 ^ 1024 - 2 ^ 970" by simp
  with m have "\<not> 2 ^ 1024 - 2 ^ 970 \<le> nat \<bar>i\<bar>" by linarith
  then obtain x where x: "float_of_int i = Some x"
    using float_of_int_overflow [of i] by (cases "float_of_int i") auto
  moreover have "f64_scaled x = i * int f64_unit"
    using float_of_int_Some [OF x] rounded_exact [OF m] by simp
  ultimately show ?thesis using float_of_int_Some [OF x] that by blast
qed

section \<open>float.hex determines the bits\<close>

lemma signed_dec_inj: "signed_dec i = signed_dec j \<longleftrightarrow> i = j"
  by (auto simp: signed_dec_def dec_int_def)

definition hex_body :: "f64 \<Rightarrow> string" where
  "hex_body x = (if f64_zero x then ''0x0.0p+0''
      else ''0x'' @ (if f_exp x = 0 then ''0'' else ''1'') @ ''.'' @
        hex_fixed 13 (unat (f_frac x)) @ ''p'' @
        signed_dec (if f_exp x = 0 then -1022 else int (unat (f_exp x)) - 1023))"

lemma f64_hex_body: "f64_hex x = (if f_neg x then ''-'' else '''') @ hex_body x"
  by (simp add: f64_hex_def hex_body_def)

lemma hex_body_zero: "f64_zero x \<longleftrightarrow> length (hex_body x) = 8"
  by (auto simp: hex_body_def)

lemma hex_body_first: "\<exists>w. hex_body x = CHR ''0'' # w"
  by (auto simp: hex_body_def)

lemma hex_body_inj:
  assumes eq: "hex_body x = hex_body y"
  shows "f_exp x = f_exp y \<and> f_frac x = f_frac y"
proof (cases "f64_zero x")
  case True
  with eq have "f64_zero y" by (simp add: hex_body_zero)
  with True show ?thesis by (simp add: f64_zero_def)
next
  case False
  with eq have "\<not> f64_zero y" by (simp add: hex_body_zero)
  note nz = False this
  have lead: "f_exp x = 0 \<longleftrightarrow> f_exp y = 0"
    using eq nz by (simp add: hex_body_def split: if_splits)
  have "hex_fixed 13 (unat (f_frac x)) = hex_fixed 13 (unat (f_frac y)) \<and>
      signed_dec (if f_exp x = 0 then -1022 else int (unat (f_exp x)) - 1023) =
      signed_dec (if f_exp y = 0 then -1022 else int (unat (f_exp y)) - 1023)"
    using eq nz lead by (simp add: hex_body_def split: if_splits)
  then have "unat (f_frac x) = unat (f_frac y)"
    and "(if f_exp x = 0 then -1022 else int (unat (f_exp x)) - 1023) =
      (if f_exp y = 0 then -1022 else int (unat (f_exp y)) - 1023)"
    using unat_frac_less by (simp_all add: hex_fixed_inj signed_dec_inj)
  then have "f_frac x = f_frac y" and "f_exp x = 0 \<and> f_exp y = 0 \<or> uint (f_exp x) = uint (f_exp y)"
    using lead by (simp_all add: word_unat_eq_iff [of "f_frac x"] split: if_splits)
  then show ?thesis by (auto simp: word_uint_eq_iff)
qed

lemma f64_hex_inj:
  assumes eq: "f64_hex x = f64_hex y"
  shows "x = y"
proof -
  have neg: "f_neg x = f_neg y"
    using eq hex_body_first [of x] hex_body_first [of y]
    by (auto simp: f64_hex_body split: if_splits)
  then have "hex_body x = hex_body y" using eq by (simp add: f64_hex_body)
  then have "f_exp x = f_exp y \<and> f_frac x = f_frac y" by (rule hex_body_inj)
  with neg show ?thesis by (simp add: f64.expand)
qed
end
