(* ===== verification/Sha256.thy ===== *)
theory Sha256
  imports Py_Text "HOL-Library.Word"
begin

unbundle bit_operations_syntax

text \<open>
  \<open>hashlib.sha256(data).hexdigest()\<close> of the standard library, written out as FIPS 180-4 on
  32-bit words, and the spelling check that every digest identity of the program makes.  The
  kernel identities rest on two facts only: a digest is always a legal spelling, and it is a
  function of the canonical JSON text.
\<close>

type_synonym u32 = "32 word"

text \<open>
  The constants of the standard are the first 32 fractional bits of the cube roots of the first 64
  primes and of the square roots of the first eight.
\<close>

definition small_primes :: "nat list" where
  "small_primes = filter (\<lambda>p. list_all (\<lambda>d. p mod d \<noteq> 0) [2..<p]) [2..<312]"

definition root_fraction :: "nat \<Rightarrow> nat \<Rightarrow> u32" where
  "root_fraction k p =
     word_of_nat (foldl (\<lambda>r b. if (r + 2 ^ b) ^ k \<le> p * 2 ^ (32 * k) then r + 2 ^ b else r)
       0 (rev [0..<37]))"

definition sha_k :: "u32 list" where
  "sha_k = map (root_fraction 3) small_primes"

type_synonym sha_state = "u32 \<times> u32 \<times> u32 \<times> u32 \<times> u32 \<times> u32 \<times> u32 \<times> u32"

definition sha_init :: sha_state where
  "sha_init =
     (case map (root_fraction 2) small_primes of
        a # b # c # d # e # f # g # h # _ \<Rightarrow> (a, b, c, d, e, f, g, h)
      | _ \<Rightarrow> (0, 0, 0, 0, 0, 0, 0, 0))"

definition sha_pad :: "nat list \<Rightarrow> nat list" where
  "sha_pad bs =
     (let n = length bs; z = (119 - n mod 64) mod 64
      in bs @ [128] @ replicate z 0 @ map (\<lambda>i. (8 * n) div 256 ^ i mod 256) (rev [0..<8]))"

fun words_of :: "nat list \<Rightarrow> u32 list" where
  "words_of (a # b # c # d # rest) =
     word_of_nat (((a * 256 + b) * 256 + c) * 256 + d) # words_of rest"
| "words_of _ = []"

definition sha_sched :: "u32 list \<Rightarrow> u32 list" where
  "sha_sched ws =
     (let t = length ws; w15 = ws ! (t - 15); w2 = ws ! (t - 2);
          s0 = word_rotr 7 w15 XOR word_rotr 18 w15 XOR drop_bit 3 w15;
          s1 = word_rotr 17 w2 XOR word_rotr 19 w2 XOR drop_bit 10 w2
      in ws @ [ws ! (t - 16) + s0 + ws ! (t - 7) + s1])"

definition sha_round :: "u32 \<times> u32 \<Rightarrow> sha_state \<Rightarrow> sha_state" where
  "sha_round = (\<lambda>(k, w) (a, b, c, d, e, f, g, h).
     (let s1 = word_rotr 6 e XOR word_rotr 11 e XOR word_rotr 25 e;
          ch = (e AND f) XOR (NOT e AND g);
          t1 = h + s1 + ch + k + w;
          s0 = word_rotr 2 a XOR word_rotr 13 a XOR word_rotr 22 a;
          maj = (a AND b) XOR (a AND c) XOR (b AND c)
      in (t1 + s0 + maj, a, b, c, d + t1, e, f, g)))"

definition sha_block :: "u32 list \<Rightarrow> sha_state \<Rightarrow> sha_state" where
  "sha_block ws = (\<lambda>(a, b, c, d, e, f, g, h).
     (case fold sha_round (zip sha_k ((sha_sched ^^ 48) ws)) (a, b, c, d, e, f, g, h) of
        (a', b', c', d', e', f', g', h') \<Rightarrow>
          (a + a', b + b', c + c', d + d', e + e', f + f', g + g', h + h')))"

function sha_blocks :: "u32 list \<Rightarrow> sha_state \<Rightarrow> sha_state" where
  "sha_blocks ws s = (if length ws < 16 then s else sha_blocks (drop 16 ws) (sha_block (take 16 ws) s))"
  by pat_completeness auto
termination
  by (relation "measure (length \<circ> fst)") auto

declare sha_blocks.simps [simp del]

definition sha256_hex :: "string \<Rightarrow> string" where
  "sha256_hex s =
     (case sha_blocks (words_of (sha_pad (map of_char s))) sha_init of
        (a, b, c, d, e, f, g, h) \<Rightarrow>
          concat (map (\<lambda>x. hex_fixed 8 (unat x)) [a, b, c, d, e, f, g, h]))"

section \<open>The digest spelling check\<close>

text \<open>\<open>string.hexdigits\<close> and \<open>str.lower\<close> on the characters that can pass the check.\<close>

definition hexdigits :: string where
  "hexdigits = ''0123456789abcdefABCDEF''"

definition lower_char :: "char \<Rightarrow> char" where
  "lower_char c =
     (let n = of_char c in if 65 \<le> n \<and> n \<le> (90::nat) then char_of (n + 32) else c)"

definition digest_spelling :: "string \<Rightarrow> bool" where
  "digest_spelling s \<longleftrightarrow>
     \<not> (length s \<noteq> 64 \<or> s \<noteq> map lower_char s \<or> (\<exists>c \<in> set s. c \<notin> set hexdigits))"

lemma hexd_cases: "n < 16 \<Longrightarrow> hexd n \<in> set ''0123456789abcdef''"
  unfolding hexd_def by (rule nth_mem) simp

lemma lower_hexd: "n < 16 \<Longrightarrow> lower_char (hexd n) = hexd n"
  by (auto simp: lower_char_def Let_def of_char_hexd split: if_splits)

lemma hexd_hexdigits: "n < 16 \<Longrightarrow> hexd n \<in> set hexdigits"
  using hexd_cases [of n] by (auto simp: hexdigits_def)

lemma sha256_hex_chars: "c \<in> set (sha256_hex s) \<Longrightarrow> \<exists>d < 16. c = hexd d"
  by (auto simp: sha256_hex_def split: prod.splits dest: hex_fixed_chars)

lemma digest_spelling_sha256 [simp]: "digest_spelling (sha256_hex s)"
proof -
  have "length (sha256_hex s) = 64"
    by (simp add: sha256_hex_def split: prod.splits)
  moreover have "map lower_char (sha256_hex s) = sha256_hex s"
    by (rule map_idI) (use sha256_hex_chars lower_hexd in blast)
  moreover have "c \<in> set hexdigits" if "c \<in> set (sha256_hex s)" for c
    using sha256_hex_chars [OF that] hexd_hexdigits by blast
  ultimately show ?thesis by (auto simp: digest_spelling_def)
qed

text \<open>\<open>_digest(payload)\<close>: the digest of the canonical JSON text.\<close>

definition digest_json :: "json \<Rightarrow> string" where
  "digest_json j = sha256_hex (dumps j)"

lemma digest_spelling_json [simp]: "digest_spelling (digest_json j)"
  by (simp add: digest_json_def)

text \<open>Two texts with the same digest that are not the same text.\<close>

definition sha256_collision :: "string \<Rightarrow> string \<Rightarrow> bool" where
  "sha256_collision s t \<longleftrightarrow> s \<noteq> t \<and> sha256_hex s = sha256_hex t"

lemma digest_json_eqD:
  "digest_json x = digest_json y \<Longrightarrow> jsort x = jsort y \<or> sha256_collision (dumps x) (dumps y)"
  by (auto simp: digest_json_def sha256_collision_def dest: dumps_eqD)

end
