(* ===== verification/Cpn_Values.thy ===== *)
theory Cpn_Values
  imports Float64 Sha256
begin

text \<open>
  \<open>petrinet/colored/values.py\<close>: nominal identities, the closed tagged values and tokens.
  A dataclass whose \<open>__post_init__\<close> may raise is a constructor function \<open>mk_...\<close> into
  \<open>result\<close>; a field whose nominal class is checked there (\<open>type(x) is not C\<close>) has the
  corresponding HOL type, so that check cannot fail in the model.  Fields that accept arbitrary
  Python objects (the \<open>value\<close> of an identity or of a tagged value) take a \<open>py_object\<close>.
\<close>

section \<open>Raw Python objects and nominal identities\<close>

datatype py_object =
    PyNone
  | PyBool bool
  | PyInt int
  | PyFloat f64
  | PyStr string
  | PyTuple "py_object list"
  | PyOther

text \<open>The \<open>__post_init__\<close> of every identity that wraps one nonempty built-in string.\<close>

definition nominal :: "string \<Rightarrow> (string \<Rightarrow> 'a) \<Rightarrow> py_object \<Rightarrow> 'a result" where
  "nominal what C v =
     (case v of
        PyStr s \<Rightarrow>
          if s = [] then Inl (ValueError (what @ '' value must not be empty'')) else Inr (C s)
      | _ \<Rightarrow> Inl (TypeError (what @ '' value must be a string'')))"

text \<open>The \<open>__post_init__\<close> of every identity that wraps a SHA-256 spelling.\<close>

definition digest_identity :: "string \<Rightarrow> (string \<Rightarrow> 'a) \<Rightarrow> py_object \<Rightarrow> 'a result" where
  "digest_identity what C v =
     (case v of
        PyStr s \<Rightarrow>
          if digest_spelling s then Inr (C s)
          else Inl (ValueError (what @ '' must be a lowercase SHA-256 digest''))
      | _ \<Rightarrow> Inl (TypeError (what @ '' value must be a string'')))"

datatype color_id = ColorId (color_value: string)
datatype token_id = TokenId (token_value: string)

definition mk_color_id :: "py_object \<Rightarrow> color_id result" where
  "mk_color_id = nominal ''color identity'' ColorId"

definition mk_token_id :: "py_object \<Rightarrow> token_id result" where
  "mk_token_id = nominal ''token identity'' TokenId"

lemma nominal_Inr_iff: "nominal what C v = Inr x \<longleftrightarrow> (\<exists>s. v = PyStr s \<and> s \<noteq> [] \<and> x = C s)"
  by (auto simp: nominal_def split: py_object.splits)

lemma nominal_str [simp]: "s \<noteq> [] \<Longrightarrow> nominal what C (PyStr s) = Inr (C s)"
  by (simp add: nominal_def)

lemma digest_identity_str [simp]:
  "digest_spelling s \<Longrightarrow> digest_identity what C (PyStr s) = Inr (C s)"
  by (simp add: digest_identity_def)

section \<open>Tagged values\<close>

datatype value_kind = KNone | KBoolean | KInteger | KReal | KString | KStringSequence

fun kind_text :: "value_kind \<Rightarrow> string" where
  "kind_text KNone = ''none''"
| "kind_text KBoolean = ''boolean''"
| "kind_text KInteger = ''integer''"
| "kind_text KReal = ''real''"
| "kind_text KString = ''string''"
| "kind_text KStringSequence = ''string_sequence''"

lemma kind_text_inj [simp]: "kind_text k = kind_text l \<longleftrightarrow> k = l"
  by (cases k; cases l) simp_all

text \<open>A \<open>StrEnum\<close> member is a string and is ordered as its text.\<close>

instantiation value_kind :: linorder
begin

definition less_eq_value_kind :: "value_kind \<Rightarrow> value_kind \<Rightarrow> bool" where
  "less_eq_value_kind k l \<longleftrightarrow> kind_text k \<le> kind_text l"

definition less_value_kind :: "value_kind \<Rightarrow> value_kind \<Rightarrow> bool" where
  "less_value_kind k l \<longleftrightarrow> kind_text k < kind_text l"

instance
  by standard (auto simp: less_eq_value_kind_def less_value_kind_def order.strict_iff_order)

end

text \<open>The pair of tag and active value, the tag being the constructor.\<close>

datatype cpn_value =
    VNone
  | VBool bool
  | VInt int
  | VReal f64
  | VStr string
  | VSeq "string list"

fun kind_of :: "cpn_value \<Rightarrow> value_kind" where
  "kind_of VNone = KNone"
| "kind_of (VBool b) = KBoolean"
| "kind_of (VInt i) = KInteger"
| "kind_of (VReal x) = KReal"
| "kind_of (VStr s) = KString"
| "kind_of (VSeq ss) = KStringSequence"

definition i64_min :: int where "i64_min = - (2 ^ 63)"
definition i64_max :: int where "i64_max = 2 ^ 63 - 1"

fun is_str :: "py_object \<Rightarrow> bool" where
  "is_str (PyStr s) = True"
| "is_str _ = False"

fun the_str :: "py_object \<Rightarrow> string" where
  "the_str (PyStr s) = s"
| "the_str _ = []"

fun kind_matches :: "value_kind \<Rightarrow> py_object \<Rightarrow> bool" where
  "kind_matches KNone v = (v = PyNone)"
| "kind_matches KBoolean v = (case v of PyBool b \<Rightarrow> True | _ \<Rightarrow> False)"
| "kind_matches KInteger v = (case v of PyInt i \<Rightarrow> True | _ \<Rightarrow> False)"
| "kind_matches KReal v = (case v of PyInt i \<Rightarrow> True | PyFloat x \<Rightarrow> True | _ \<Rightarrow> False)"
| "kind_matches KString v = is_str v"
| "kind_matches KStringSequence v = (case v of PyTuple xs \<Rightarrow> list_all is_str xs | _ \<Rightarrow> False)"

definition mk_real :: "f64 \<Rightarrow> cpn_value result" where
  "mk_real x =
     (if \<not> f64_finite x then Inl (ValueError ''real value must be finite binary64'')
      else Inr (VReal x))"

definition mk_value :: "value_kind \<Rightarrow> py_object \<Rightarrow> cpn_value result" where
  "mk_value k v =
     (if \<not> kind_matches k v
      then Inl (TypeError (''value does not match '' @ kind_text k @ '' kind''))
      else case v of
          PyNone \<Rightarrow> Inr VNone
        | PyBool b \<Rightarrow> Inr (VBool b)
        | PyInt i \<Rightarrow>
            if k = KInteger then
              (if \<not> (i64_min \<le> i \<and> i \<le> i64_max)
               then Inl (ValueError ''integer value must fit signed i64'') else Inr (VInt i))
            else
              (case float_of_int i of
                 None \<Rightarrow> Inl (ValueError ''real value overflows binary64'')
               | Some x \<Rightarrow> mk_real x)
        | PyFloat x \<Rightarrow> mk_real x
        | PyStr s \<Rightarrow> Inr (VStr s)
        | PyTuple xs \<Rightarrow>
            if list_ex (\<lambda>x. the_str x = []) xs
            then Inl (ValueError ''string-sequence entries must be nonempty'')
            else Inr (VSeq (map the_str xs))
        | PyOther \<Rightarrow> Inl AssertionError)"

fun value_ok :: "cpn_value \<Rightarrow> bool" where
  "value_ok (VInt i) = (i64_min \<le> i \<and> i \<le> i64_max)"
| "value_ok (VReal x) = f64_finite x"
| "value_ok (VSeq ss) = list_all (\<lambda>s. s \<noteq> []) ss"
| "value_ok _ = True"

lemma mk_real_Inr: "mk_real x = Inr v \<longleftrightarrow> v = VReal x \<and> f64_finite x"
  by (auto simp: mk_real_def)

lemma mk_value_kind_of: "mk_value k v = Inr w \<Longrightarrow> kind_of w = k"
  by (cases k; cases v)
    (auto simp: mk_value_def mk_real_Inr split: if_splits option.splits)

lemma mk_value_ok: "mk_value k v = Inr w \<Longrightarrow> value_ok w"
  by (cases k; cases v)
    (auto simp: mk_value_def mk_real_Inr list_ex_iff list_all_iff split: if_splits option.splits)

text \<open>The active value as a raw object; the constructor gives back exactly the accepted values.\<close>

fun py_value :: "cpn_value \<Rightarrow> py_object" where
  "py_value VNone = PyNone"
| "py_value (VBool b) = PyBool b"
| "py_value (VInt i) = PyInt i"
| "py_value (VReal x) = PyFloat x"
| "py_value (VStr s) = PyStr s"
| "py_value (VSeq ss) = PyTuple (map PyStr ss)"

lemma mk_value_again: "mk_value (kind_of v) (py_value v) = Inr w \<longleftrightarrow> value_ok v \<and> w = v"
  by (cases v) (auto simp: mk_value_def mk_real_def list_all_iff list_ex_iff comp_def)

lemma value_constructor_closed: "(\<exists>v. mk_value k v = Inr w) \<longleftrightarrow> value_ok w \<and> kind_of w = k"
  using mk_value_ok mk_value_kind_of mk_value_again by metis

section \<open>Equality and order of values\<close>

text \<open>
  \<open>v == w\<close> of the dataclass: equal tags and equal active values, where the active values of
  two reals are compared as floats.
\<close>

fun value_eq :: "cpn_value \<Rightarrow> cpn_value \<Rightarrow> bool" where
  "value_eq (VReal x) (VReal y) = f64_eq x y"
| "value_eq v w = (v = w)"

text \<open>
  \<open>_value_order_key\<close>, with the active value coded into one linearly ordered type: the integer
  part carries Booleans, integers and exact real values, the last part strings.  Keys of
  different tags are decided by the tag text, so the coding only has to agree with Python
  within one tag.
\<close>

type_synonym value_key = "string \<times> int \<times> string list"

definition value_order_key :: "cpn_value \<Rightarrow> value_key" where
  "value_order_key v =
     (kind_text (kind_of v),
      (case v of
         VNone \<Rightarrow> (0, [])
       | VBool b \<Rightarrow> (if b then 1 else 0, [])
       | VInt i \<Rightarrow> (i, [])
       | VReal x \<Rightarrow> (f64_scaled x, [])
       | VStr s \<Rightarrow> (0, [s])
       | VSeq ss \<Rightarrow> (0, ss)))"

lemma value_eq_key: "value_eq v w \<longleftrightarrow> value_order_key v = value_order_key w"
  by (cases v; cases w) (auto simp: value_order_key_def f64_eq_def)

lemma value_eq_refl [simp]: "value_eq v v"
  by (simp add: value_eq_key)

lemma value_eq_sym: "value_eq v w \<longleftrightarrow> value_eq w v"
  by (auto simp: value_eq_key)

lemma value_eq_trans: "value_eq u v \<Longrightarrow> value_eq v w \<Longrightarrow> value_eq u w"
  by (simp add: value_eq_key)

text \<open>Values on which Python equality is identity: no negative zero.\<close>

fun plain_value :: "cpn_value \<Rightarrow> bool" where
  "plain_value (VReal x) = (\<not> (f64_zero x \<and> f_neg x))"
| "plain_value _ = True"

lemma value_eq_plain: "value_eq v w \<Longrightarrow> plain_value v \<Longrightarrow> plain_value w \<Longrightarrow> v = w"
proof (cases v; cases w)
  fix x y
  assume eq: "value_eq v w" and p: "plain_value v" "plain_value w"
    and v: "v = VReal x" and w: "w = VReal y"
  from eq have "x = y \<or> (f64_zero x \<and> f64_zero y)"
    by (simp add: v w f64_eq_def f64_scaled_inj)
  moreover have "x = y" if "f64_zero x" "f64_zero y"
    using that p by (simp add: v w f64_zero_def f64.expand)
  ultimately show "v = w" by (auto simp: v w)
qed auto

lemma value_order_key_inj:
  "value_order_key v = value_order_key w \<Longrightarrow> plain_value v \<Longrightarrow> plain_value w \<Longrightarrow> v = w"
  using value_eq_plain by (simp add: value_eq_key)

lemma value_eq_kind: "value_eq v w \<Longrightarrow> kind_of v = kind_of w"
  by (cases v; cases w) auto

section \<open>Tokens\<close>

record cpn_token =
  tok_color :: color_id
  tok_value :: cpn_value
  tok_identity :: "token_id option"

definition token_ok :: "cpn_token \<Rightarrow> bool" where
  "token_ok t \<longleftrightarrow> color_value (tok_color t) \<noteq> [] \<and> value_ok (tok_value t) \<and>
     (\<forall>i \<in> set_option (tok_identity t). token_value i \<noteq> [])"

definition token_eq :: "cpn_token \<Rightarrow> cpn_token \<Rightarrow> bool" where
  "token_eq s t \<longleftrightarrow> tok_color s = tok_color t \<and> value_eq (tok_value s) (tok_value t) \<and>
     tok_identity s = tok_identity t"

lemma token_eq_refl [simp]: "token_eq t t"
  by (simp add: token_eq_def)

end
