(* ===== verification/Cpn_Markings.thy ===== *)
theory Cpn_Markings
  imports Cpn_Values
begin

text \<open>
  \<open>petrinet/colored/markings.py\<close>: the identities of definitions, markings, places, transitions
  and binding variables; place markings as canonically ordered token multisets; complete
  markings; transition bindings as ordered assignments.
\<close>

section \<open>Identities\<close>

datatype definition_id = DefinitionId (definition_value: string)
datatype marking_id = MarkingId (marking_value: string)
datatype place_id = PlaceId (place_value: string)
datatype transition_id = TransitionId (transition_value: string)
datatype variable_id = VariableId (variable_value: string)

definition mk_definition_id :: "py_object \<Rightarrow> definition_id result" where
  "mk_definition_id = nominal ''definition identity'' DefinitionId"

definition mk_marking_id :: "py_object \<Rightarrow> marking_id result" where
  "mk_marking_id = nominal ''marking identity'' MarkingId"

definition mk_place_id :: "py_object \<Rightarrow> place_id result" where
  "mk_place_id = nominal ''place identity'' PlaceId"

definition mk_transition_id :: "py_object \<Rightarrow> transition_id result" where
  "mk_transition_id = nominal ''transition identity'' TransitionId"

definition mk_variable_id :: "py_object \<Rightarrow> variable_id result" where
  "mk_variable_id = nominal ''binding variable identity'' VariableId"

lemma place_value_inj: "place_value p = place_value q \<longleftrightarrow> p = q"
  by (cases p; cases q) simp

section \<open>Place markings\<close>

text \<open>\<open>_token_order_key\<close>.\<close>

type_synonym token_key = "string \<times> value_key \<times> bool \<times> string"

definition token_order_key :: "cpn_token \<Rightarrow> token_key" where
  "token_order_key t =
     (color_value (tok_color t), value_order_key (tok_value t), tok_identity t \<noteq> None,
      (case tok_identity t of None \<Rightarrow> [] | Some i \<Rightarrow> token_value i))"

record place_marking =
  pm_place :: place_id
  pm_tokens :: "cpn_token list"

definition token_identities :: "cpn_token list \<Rightarrow> token_id list" where
  "token_identities ts = [i. t \<leftarrow> ts, Some i \<leftarrow> [tok_identity t]]"

definition mk_place_marking :: "place_id \<Rightarrow> cpn_token list \<Rightarrow> place_marking result" where
  "mk_place_marking p ts =
     (if \<not> distinct (token_identities ts)
      then Inl (ValueError ''identified token identities must be unique at a place'')
      else Inr \<lparr>pm_place = p, pm_tokens = sort_key token_order_key ts\<rparr>)"

definition place_marking_ok :: "place_marking \<Rightarrow> bool" where
  "place_marking_ok pm \<longleftrightarrow> place_value (pm_place pm) \<noteq> [] \<and> list_all token_ok (pm_tokens pm) \<and>
     distinct (token_identities (pm_tokens pm)) \<and>
     sorted (map token_order_key (pm_tokens pm))"

lemma token_identities_Nil [simp]: "token_identities [] = []"
  by (simp add: token_identities_def)

lemma token_identities_Cons [simp]:
  "token_identities (t # ts) =
    (case tok_identity t of None \<Rightarrow> token_identities ts | Some i \<Rightarrow> i # token_identities ts)"
  by (simp add: token_identities_def split: option.splits)

lemma token_identities_append [simp]:
  "token_identities (ts @ us) = token_identities ts @ token_identities us"
  by (induction ts) (auto split: option.splits)

lemma set_token_identities: "set (token_identities ts) = {i. \<exists>t \<in> set ts. tok_identity t = Some i}"
  by (induction ts) (auto split: option.splits)

lemma mset_token_identities:
  "mset (token_identities ts) = \<Sum>\<^sub># (image_mset (\<lambda>t. case tok_identity t of None \<Rightarrow> {#} | Some i \<Rightarrow> {#i#}) (mset ts))"
  by (induction ts) (auto split: option.splits)

lemma distinct_token_identities_perm:
  "mset ts = mset us \<Longrightarrow> distinct (token_identities ts) \<longleftrightarrow> distinct (token_identities us)"
  by (rule distinct_mset_eq) (simp add: mset_token_identities)

lemma mk_place_marking_ok:
  assumes "mk_place_marking p ts = Inr pm" "place_value p \<noteq> []" "list_all token_ok ts"
  shows "place_marking_ok pm"
  using assms distinct_token_identities_perm [of "sort_key token_order_key ts" ts]
  by (auto simp: mk_place_marking_def place_marking_ok_def list_all_iff split: if_splits)

definition plain_token :: "cpn_token \<Rightarrow> bool" where
  "plain_token t \<longleftrightarrow> plain_value (tok_value t)"

lemma token_order_key_inj:
  assumes "token_order_key s = token_order_key t" "plain_token s" "plain_token t"
  shows "s = t"
proof -
  have "tok_value s = tok_value t"
    using assms value_order_key_inj by (auto simp: token_order_key_def plain_token_def)
  moreover have "tok_color s = tok_color t"
    using assms by (auto simp: token_order_key_def color_id.expand)
  moreover have "tok_identity s = tok_identity t"
    using assms by (auto simp: token_order_key_def token_id.expand split: option.splits)
  ultimately show ?thesis by simp
qed

lemma token_order_key_eq_iff: "token_order_key s = token_order_key t \<longleftrightarrow> token_eq s t"
  by (auto simp: token_order_key_def token_eq_def value_eq_key color_id.expand token_id.expand
      split: option.splits)

section \<open>Markings\<close>

record marking =
  mk_identity :: marking_id
  mk_definition :: definition_id
  mk_places :: "place_marking list"

definition marking_token_identities :: "place_marking list \<Rightarrow> token_id list" where
  "marking_token_identities ps = concat (map (\<lambda>p. token_identities (pm_tokens p)) ps)"

definition mk_marking :: "marking_id \<Rightarrow> definition_id \<Rightarrow> place_marking list \<Rightarrow> marking result" where
  "mk_marking i d ps =
     (if \<not> distinct (map pm_place ps) then Inl (ValueError ''place identities must be unique'')
      else if \<not> distinct (marking_token_identities ps)
      then Inl (ValueError ''identified token identities must be unique across the marking'')
      else Inr \<lparr>mk_identity = i, mk_definition = d,
             mk_places = sort_key (place_value \<circ> pm_place) ps\<rparr>)"

definition marking_ok :: "marking \<Rightarrow> bool" where
  "marking_ok m \<longleftrightarrow> marking_value (mk_identity m) \<noteq> [] \<and> definition_value (mk_definition m) \<noteq> [] \<and>
     list_all place_marking_ok (mk_places m) \<and>
     canonical (place_value \<circ> pm_place) (mk_places m) \<and>
     distinct (marking_token_identities (mk_places m))"

lemma distinct_place_values: "distinct (map (place_value \<circ> pm_place) ps) \<longleftrightarrow> distinct (map pm_place ps)"
proof -
  have "inj_on place_value A" for A
    by (auto simp: inj_on_def place_value_inj)
  then show ?thesis by (simp add: distinct_map flip: map_map)
qed

lemma mset_marking_token_identities:
  "mset (marking_token_identities ps) = \<Sum>\<^sub># (image_mset (\<lambda>p. mset (token_identities (pm_tokens p))) (mset ps))"
  by (induction ps) (auto simp: marking_token_identities_def)

lemma distinct_marking_token_identities_perm:
  "mset ps = mset qs \<Longrightarrow>
   distinct (marking_token_identities ps) \<longleftrightarrow> distinct (marking_token_identities qs)"
  by (rule distinct_mset_eq) (simp add: mset_marking_token_identities)

lemma mk_marking_ok:
  assumes "mk_marking i d ps = Inr m" "marking_value i \<noteq> []" "definition_value d \<noteq> []"
    and "list_all place_marking_ok ps"
  shows "marking_ok m"
  using assms distinct_marking_token_identities_perm [of "sort_key (place_value \<circ> pm_place) ps" ps]
  by (auto simp: mk_marking_def marking_ok_def list_all_iff canonical_sort_key distinct_place_values
      simp del: map_map split: if_splits)

section \<open>Bindings\<close>

record assignment =
  as_variable :: variable_id
  as_value :: cpn_value

record binding =
  bind_transition :: transition_id
  bind_assignments :: "assignment list"

definition mk_binding :: "transition_id \<Rightarrow> assignment list \<Rightarrow> binding result" where
  "mk_binding t as =
     (if \<not> distinct (map as_variable as)
      then Inl (ValueError ''binding variable identities must be unique'')
      else Inr \<lparr>bind_transition = t, bind_assignments = as\<rparr>)"

definition binding_ok :: "binding \<Rightarrow> bool" where
  "binding_ok b \<longleftrightarrow> distinct (map as_variable (bind_assignments b)) \<and>
     (\<forall>a \<in> set (bind_assignments b). value_ok (as_value a))"

text \<open>\<open>{item.variable_identity: item.value for item in binding.assignments}\<close>\<close>

definition binding_values :: "binding \<Rightarrow> (variable_id \<rightharpoonup> cpn_value)" where
  "binding_values b = dict_of (map (\<lambda>a. (as_variable a, as_value a)) (bind_assignments b))"

definition assignment_eq :: "assignment \<Rightarrow> assignment \<Rightarrow> bool" where
  "assignment_eq a b \<longleftrightarrow> as_variable a = as_variable b \<and> value_eq (as_value a) (as_value b)"

definition binding_eq :: "binding \<Rightarrow> binding \<Rightarrow> bool" where
  "binding_eq a b \<longleftrightarrow> bind_transition a = bind_transition b \<and>
     list_all2 assignment_eq (bind_assignments a) (bind_assignments b)"

definition assignment_key :: "assignment \<Rightarrow> variable_id \<times> value_key" where
  "assignment_key a = (as_variable a, value_order_key (as_value a))"

definition binding_key :: "binding \<Rightarrow> transition_id \<times> (variable_id \<times> value_key) list" where
  "binding_key b = (bind_transition b, map assignment_key (bind_assignments b))"

lemma binding_eq_key: "binding_eq a b \<longleftrightarrow> binding_key a = binding_key b"
  by (simp add: binding_eq_def binding_key_def map_eq_list_all2 assignment_eq_def
      assignment_key_def value_eq_key cong: list.rel_cong)

lemma binding_eq_refl [simp]: "binding_eq b b"
  by (simp add: binding_eq_key)

lemma binding_eq_sym: "binding_eq a b \<longleftrightarrow> binding_eq b a"
  by (auto simp: binding_eq_key)

lemma binding_eq_trans: "binding_eq a b \<Longrightarrow> binding_eq b c \<Longrightarrow> binding_eq a c"
  by (simp add: binding_eq_key)

lemma mk_binding_Inr: "mk_binding t as = Inr b \<longleftrightarrow>
    distinct (map as_variable as) \<and> b = \<lparr>bind_transition = t, bind_assignments = as\<rparr>"
  by (auto simp: mk_binding_def)

end
