(* ===== verification/Cpn_Expressions.thy ===== *)
theory Cpn_Expressions
  imports Cpn_Markings
begin

text \<open>
  \<open>petrinet/colored/expressions.py\<close>: value expressions, guards with operator-specific arity,
  input patterns and inscriptions, output templates, and the pure evaluator with Python's
  short-circuit order and its \<open>TypeError\<close> and \<open>KeyError\<close> branches.
\<close>

section \<open>Value expressions\<close>

datatype expression_kind = ELiteral | EVariable

fun expression_kind_text :: "expression_kind \<Rightarrow> string" where
  "expression_kind_text ELiteral = ''literal''"
| "expression_kind_text EVariable = ''variable''"

datatype value_expression = Literal cpn_value | Variable variable_id

definition mk_value_expression ::
    "expression_kind \<Rightarrow> cpn_value option \<Rightarrow> variable_id option \<Rightarrow> value_expression result" where
  "mk_value_expression k l v =
     (case (k, l, v) of
        (ELiteral, Some x, None) \<Rightarrow> Inr (Literal x)
      | (EVariable, None, Some x) \<Rightarrow> Inr (Variable x)
      | _ \<Rightarrow> Inl (ValueError ''expression fields do not match its kind''))"

fun expression_ok :: "value_expression \<Rightarrow> bool" where
  "expression_ok (Literal v) = value_ok v"
| "expression_ok (Variable x) = (variable_value x \<noteq> [])"

section \<open>Guards\<close>

datatype comparison = CEqual | CNotEqual | CLess | CLessEq | CGreater | CGreaterEq

datatype guard_operator = OpTrue | OpFalse | OpAll | OpAny | OpNot | OpCompare comparison

fun operator_text :: "guard_operator \<Rightarrow> string" where
  "operator_text OpTrue = ''true''"
| "operator_text OpFalse = ''false''"
| "operator_text OpAll = ''all''"
| "operator_text OpAny = ''any''"
| "operator_text OpNot = ''not''"
| "operator_text (OpCompare CEqual) = ''equal''"
| "operator_text (OpCompare CNotEqual) = ''not_equal''"
| "operator_text (OpCompare CLess) = ''less_than''"
| "operator_text (OpCompare CLessEq) = ''less_than_or_equal''"
| "operator_text (OpCompare CGreater) = ''greater_than''"
| "operator_text (OpCompare CGreaterEq) = ''greater_than_or_equal''"

datatype guard =
    GTrue
  | GFalse
  | GAll "guard list"
  | GAny "guard list"
  | GNot guard
  | GCompare comparison value_expression value_expression

text \<open>The fields \<open>operator\<close>, \<open>operands\<close>, \<open>left\<close> and \<open>right\<close> of a guard object.\<close>

fun guard_operator_of :: "guard \<Rightarrow> guard_operator" where
  "guard_operator_of GTrue = OpTrue"
| "guard_operator_of GFalse = OpFalse"
| "guard_operator_of (GAll gs) = OpAll"
| "guard_operator_of (GAny gs) = OpAny"
| "guard_operator_of (GNot g) = OpNot"
| "guard_operator_of (GCompare c l r) = OpCompare c"

fun guard_operands :: "guard \<Rightarrow> guard list" where
  "guard_operands (GAll gs) = gs"
| "guard_operands (GAny gs) = gs"
| "guard_operands (GNot g) = [g]"
| "guard_operands _ = []"

fun guard_left :: "guard \<Rightarrow> value_expression option" where
  "guard_left (GCompare c l r) = Some l"
| "guard_left _ = None"

fun guard_right :: "guard \<Rightarrow> value_expression option" where
  "guard_right (GCompare c l r) = Some r"
| "guard_right _ = None"

definition mk_guard :: "guard_operator \<Rightarrow> guard list \<Rightarrow> value_expression option \<Rightarrow>
    value_expression option \<Rightarrow> guard result" where
  "mk_guard op gs l r =
     (let bad = Inl (ValueError ''guard fields do not match operator arity'') in
      case op of
        OpTrue \<Rightarrow> if gs = [] \<and> l = None \<and> r = None then Inr GTrue else bad
      | OpFalse \<Rightarrow> if gs = [] \<and> l = None \<and> r = None then Inr GFalse else bad
      | OpAll \<Rightarrow> if gs \<noteq> [] \<and> l = None \<and> r = None then Inr (GAll gs) else bad
      | OpAny \<Rightarrow> if gs \<noteq> [] \<and> l = None \<and> r = None then Inr (GAny gs) else bad
      | OpNot \<Rightarrow>
          (case gs of
             [g] \<Rightarrow> if l = None \<and> r = None then Inr (GNot g) else bad
           | _ \<Rightarrow> bad)
      | OpCompare c \<Rightarrow>
          (case (gs, l, r) of
             ([], Some x, Some y) \<Rightarrow> Inr (GCompare c x y)
           | _ \<Rightarrow> bad))"

fun guard_ok :: "guard \<Rightarrow> bool" where
  "guard_ok GTrue = True"
| "guard_ok GFalse = True"
| "guard_ok (GAll gs) = (gs \<noteq> [] \<and> list_all guard_ok gs)"
| "guard_ok (GAny gs) = (gs \<noteq> [] \<and> list_all guard_ok gs)"
| "guard_ok (GNot g) = guard_ok g"
| "guard_ok (GCompare c l r) = (expression_ok l \<and> expression_ok r)"

lemma mk_guard_fields:
  "mk_guard op gs l r = Inr g \<Longrightarrow>
   guard_operator_of g = op \<and> guard_operands g = gs \<and> guard_left g = l \<and> guard_right g = r"
  by (auto simp: mk_guard_def Let_def split: guard_operator.splits if_splits list.splits option.splits)

lemma mk_guard_of_fields:
  "guard_ok g \<Longrightarrow> mk_guard (guard_operator_of g) (guard_operands g) (guard_left g) (guard_right g) = Inr g"
  by (cases g) (auto simp: mk_guard_def Let_def)

section \<open>Patterns, inscriptions and templates\<close>

datatype input_mode = Consume | Read | Inhibit

fun input_mode_text :: "input_mode \<Rightarrow> string" where
  "input_mode_text Consume = ''consume''"
| "input_mode_text Read = ''read''"
| "input_mode_text Inhibit = ''inhibit''"

text \<open>The admitted color set shared by places, token patterns and inhibitor patterns.\<close>

definition admitted_colors :: "color_id list \<Rightarrow> color_id list result" where
  "admitted_colors cs =
     (if cs = [] then Inl (ValueError ''allowed_color_identities must not be empty'')
      else if \<not> distinct cs then Inl (ValueError ''allowed_color_identities must be unique'')
      else Inr (sort_key color_value cs))"

definition colors_ok :: "color_id list \<Rightarrow> bool" where
  "colors_ok cs \<longleftrightarrow> cs \<noteq> [] \<and> canonical color_value cs \<and> list_all (\<lambda>c. color_value c \<noteq> []) cs"

lemma inj_color_value: "inj color_value"
  by (rule injI) (simp add: color_id.expand)

lemma distinct_color_value: "distinct (map color_value cs) \<longleftrightarrow> distinct cs"
  using inj_color_value by (simp add: distinct_map inj_on_subset [OF _ subset_UNIV])

interpretation colors: canonical_builder color_value "\<lambda>cs. cs \<noteq> []" admitted_colors
  by unfold_locales (auto simp: admitted_colors_def distinct_color_value)

lemma admitted_colors_ok:
  "admitted_colors cs = Inr ds \<Longrightarrow> list_all (\<lambda>c. color_value c \<noteq> []) cs \<Longrightarrow> colors_ok ds"
proof -
  assume b: "admitted_colors cs = Inr ds" and ne: "list_all (\<lambda>c. color_value c \<noteq> []) cs"
  have "set ds = set cs" "cs \<noteq> []" using colors.build_set [OF b] b by (simp_all add: colors.build_Inr)
  with ne show ?thesis
    using colors.build_canonical [OF b] by (auto simp: colors_ok_def list_all_iff)
qed

record token_pattern =
  tp_variable :: variable_id
  tp_colors :: "color_id list"

record inhibitor_pattern =
  ip_colors :: "color_id list"

definition mk_token_pattern :: "variable_id \<Rightarrow> color_id list \<Rightarrow> token_pattern result" where
  "mk_token_pattern v cs = bindr (admitted_colors cs) (\<lambda>ds. Inr \<lparr>tp_variable = v, tp_colors = ds\<rparr>)"

definition mk_inhibitor_pattern :: "color_id list \<Rightarrow> inhibitor_pattern result" where
  "mk_inhibitor_pattern cs = bindr (admitted_colors cs) (\<lambda>ds. Inr \<lparr>ip_colors = ds\<rparr>)"

datatype input_pattern = TokenPattern token_pattern | InhibitorPattern inhibitor_pattern

fun pattern_colors :: "input_pattern \<Rightarrow> color_id list" where
  "pattern_colors (TokenPattern p) = tp_colors p"
| "pattern_colors (InhibitorPattern p) = ip_colors p"

fun is_token_pattern :: "input_pattern \<Rightarrow> bool" where
  "is_token_pattern (TokenPattern p) = True"
| "is_token_pattern (InhibitorPattern p) = False"

fun pattern_ok :: "input_pattern \<Rightarrow> bool" where
  "pattern_ok (TokenPattern p) = (variable_value (tp_variable p) \<noteq> [] \<and> colors_ok (tp_colors p))"
| "pattern_ok (InhibitorPattern p) = colors_ok (ip_colors p)"

record input_inscription =
  ii_mode :: input_mode
  ii_patterns :: "input_pattern list"

definition mk_input_inscription :: "input_mode \<Rightarrow> input_pattern list \<Rightarrow> input_inscription result" where
  "mk_input_inscription mode ps =
     (if ps = [] then Inl (ValueError ''patterns must not be empty'')
      else if mode = Inhibit then
        (if list_ex is_token_pattern ps
         then Inl (TypeError (input_mode_text mode @ '' patterns must be ColoredPetriNetInhibitorPattern''))
         else Inr \<lparr>ii_mode = mode, ii_patterns = ps\<rparr>)
      else
        (if list_ex (\<lambda>p. \<not> is_token_pattern p) ps
         then Inl (TypeError (input_mode_text mode @ '' patterns must be ColoredPetriNetTokenPattern''))
         else Inr \<lparr>ii_mode = mode, ii_patterns = ps\<rparr>))"

definition input_ok :: "input_inscription \<Rightarrow> bool" where
  "input_ok i \<longleftrightarrow> ii_patterns i \<noteq> [] \<and> list_all pattern_ok (ii_patterns i) \<and>
     list_all (\<lambda>p. is_token_pattern p \<longleftrightarrow> ii_mode i \<noteq> Inhibit) (ii_patterns i)"

lemma mk_input_inscription_ok:
  "mk_input_inscription mode ps = Inr i \<Longrightarrow> list_all pattern_ok ps \<Longrightarrow> input_ok i"
  by (auto simp: mk_input_inscription_def input_ok_def list_all_iff list_ex_iff split: if_splits)

record token_template =
  tt_color :: color_id
  tt_value :: value_expression
  tt_identity :: "value_expression option"

definition template_ok :: "token_template \<Rightarrow> bool" where
  "template_ok t \<longleftrightarrow> color_value (tt_color t) \<noteq> [] \<and> expression_ok (tt_value t) \<and>
     (\<forall>e \<in> set_option (tt_identity t). expression_ok e)"

record output_inscription =
  oi_templates :: "token_template list"

definition mk_output_inscription :: "token_template list \<Rightarrow> output_inscription result" where
  "mk_output_inscription ts =
     (if ts = [] then Inl (ValueError ''templates must not be empty'')
      else Inr \<lparr>oi_templates = ts\<rparr>)"

definition output_ok :: "output_inscription \<Rightarrow> bool" where
  "output_ok out \<longleftrightarrow> oi_templates out \<noteq> [] \<and> list_all template_ok (oi_templates out)"

section \<open>The evaluator\<close>

text \<open>The argument of the \<open>KeyError\<close> that a missing variable raises, as \<open>repr\<close> prints it.\<close>

definition variable_repr :: "variable_id \<Rightarrow> string" where
  "variable_repr x = ''ColoredPetriNetBindingVariableIdentity(value='' @ py_repr (variable_value x) @ '')''"

fun evaluate_value :: "value_expression \<Rightarrow> binding \<Rightarrow> cpn_value result" where
  "evaluate_value (Literal v) b = Inr v"
| "evaluate_value (Variable x) b =
     (case binding_values b x of
        None \<Rightarrow> Inl (KeyError (variable_repr x))
      | Some v \<Rightarrow> Inr v)"

text \<open>\<open>left.value < right.value\<close> and its variants on two values of one ordered kind.\<close>

fun value_less :: "cpn_value \<Rightarrow> cpn_value \<Rightarrow> bool" where
  "value_less (VInt i) (VInt j) = (i < j)"
| "value_less (VReal x) (VReal y) = f64_less x y"
| "value_less (VStr s) (VStr t) = (s < t)"
| "value_less _ _ = False"

definition compare_values :: "comparison \<Rightarrow> cpn_value \<Rightarrow> cpn_value \<Rightarrow> bool result" where
  "compare_values c l r =
     (if kind_of l \<noteq> kind_of r then Inl (TypeError ''guard comparison requires equal value kinds'')
      else if c = CEqual then Inr (value_eq l r)
      else if c = CNotEqual then Inr (\<not> value_eq l r)
      else if kind_of l \<notin> {KInteger, KReal, KString}
      then Inl (TypeError ''ordering guard requires integer, real, or string values'')
      else if c = CLess then Inr (value_less l r)
      else if c = CLessEq then Inr (value_less l r \<or> value_eq l r)
      else if c = CGreater then Inr (value_less r l)
      else Inr (value_less r l \<or> value_eq l r))"

text \<open>\<open>all(...)\<close> and \<open>any(...)\<close> over a generator stop at the first deciding operand.\<close>

fun all_short :: "('a \<Rightarrow> bool result) \<Rightarrow> 'a list \<Rightarrow> bool result" where
  "all_short f [] = Inr True"
| "all_short f (x # xs) = bindr (f x) (\<lambda>b. if b then all_short f xs else Inr False)"

fun any_short :: "('a \<Rightarrow> bool result) \<Rightarrow> 'a list \<Rightarrow> bool result" where
  "any_short f [] = Inr False"
| "any_short f (x # xs) = bindr (f x) (\<lambda>b. if b then Inr True else any_short f xs)"

lemma all_short_cong [fundef_cong]:
  "xs = ys \<Longrightarrow> (\<And>x. x \<in> set ys \<Longrightarrow> f x = g x) \<Longrightarrow> all_short f xs = all_short g ys"
proof (induction ys arbitrary: xs)
  case (Cons y ys)
  then have "all_short f ys = all_short g ys" by simp
  with Cons.prems show ?case by (simp cong: if_cong)
qed simp

lemma any_short_cong [fundef_cong]:
  "xs = ys \<Longrightarrow> (\<And>x. x \<in> set ys \<Longrightarrow> f x = g x) \<Longrightarrow> any_short f xs = any_short g ys"
proof (induction ys arbitrary: xs)
  case (Cons y ys)
  then have "any_short f ys = any_short g ys" by simp
  with Cons.prems show ?case by (simp cong: if_cong)
qed simp

fun evaluate_guard :: "guard \<Rightarrow> binding \<Rightarrow> bool result" where
  "evaluate_guard GTrue b = Inr True"
| "evaluate_guard GFalse b = Inr False"
| "evaluate_guard (GAll gs) b = all_short (\<lambda>g. evaluate_guard g b) gs"
| "evaluate_guard (GAny gs) b = any_short (\<lambda>g. evaluate_guard g b) gs"
| "evaluate_guard (GNot g) b = bindr (evaluate_guard g b) (\<lambda>v. Inr (\<not> v))"
| "evaluate_guard (GCompare c l r) b =
     bindr (evaluate_value l b) (\<lambda>x. bindr (evaluate_value r b) (\<lambda>y. compare_values c x y))"

end
