(* ===== verification/Cpn_Definitions.thy ===== *)
theory Cpn_Definitions
  imports Cpn_Expressions
begin

text \<open>
  \<open>petrinet/colored/definitions.py\<close>: colors, places, transitions, arcs and the complete net
  definition, whose collections are stored in identity order and whose transition priority is a
  permutation of the transition identities.
\<close>

datatype selection_policy = DeterministicOnly | DirectedAllowed

fun policy_text :: "selection_policy \<Rightarrow> string" where
  "policy_text DeterministicOnly = ''deterministic_only''"
| "policy_text DirectedAllowed = ''directed_allowed''"

datatype arc_id = ArcId (arc_value: string)

definition mk_arc_id :: "py_object \<Rightarrow> arc_id result" where
  "mk_arc_id = nominal ''arc identity'' ArcId"

section \<open>Colors and places\<close>

record color_definition =
  cd_identity :: color_id
  cd_kinds :: "value_kind list"

definition admitted_kinds :: "value_kind list \<Rightarrow> value_kind list result" where
  "admitted_kinds ks =
     (if ks = [] then Inl (ValueError ''allowed_value_kinds must not be empty'')
      else if \<not> distinct ks then Inl (ValueError ''allowed_value_kinds must be unique'')
      else Inr (sort_key kind_text ks))"

lemma distinct_kind_text: "distinct (map kind_text ks) \<longleftrightarrow> distinct ks"
  by (simp add: distinct_map inj_on_def)

interpretation kinds: canonical_builder kind_text "\<lambda>ks. ks \<noteq> []" admitted_kinds
  by unfold_locales (auto simp: admitted_kinds_def distinct_kind_text)

definition mk_color_definition :: "color_id \<Rightarrow> value_kind list \<Rightarrow> color_definition result" where
  "mk_color_definition i ks = bindr (admitted_kinds ks) (\<lambda>ls. Inr \<lparr>cd_identity = i, cd_kinds = ls\<rparr>)"

definition color_definition_ok :: "color_definition \<Rightarrow> bool" where
  "color_definition_ok c \<longleftrightarrow> color_value (cd_identity c) \<noteq> [] \<and> cd_kinds c \<noteq> [] \<and>
     canonical kind_text (cd_kinds c)"

record place_definition =
  pd_identity :: place_id
  pd_colors :: "color_id list"

definition mk_place_definition :: "place_id \<Rightarrow> color_id list \<Rightarrow> place_definition result" where
  "mk_place_definition i cs = bindr (admitted_colors cs) (\<lambda>ds. Inr \<lparr>pd_identity = i, pd_colors = ds\<rparr>)"

definition place_definition_ok :: "place_definition \<Rightarrow> bool" where
  "place_definition_ok p \<longleftrightarrow> place_value (pd_identity p) \<noteq> [] \<and> colors_ok (pd_colors p)"

lemma mk_color_definition_ok:
  assumes "mk_color_definition i ks = Inr c" "color_value i \<noteq> []"
  shows "color_definition_ok c"
proof -
  from assms(1) obtain ls where b: "admitted_kinds ks = Inr ls" and c: "c = \<lparr>cd_identity = i, cd_kinds = ls\<rparr>"
    by (auto simp: mk_color_definition_def bindr_Inr_iff)
  then have "set ls = set ks" "ks \<noteq> []" using kinds.build_set [OF b] b by (simp_all add: kinds.build_Inr)
  with assms(2) c kinds.build_canonical [OF b] show ?thesis
    by (auto simp: color_definition_ok_def)
qed

lemma mk_place_definition_ok:
  "mk_place_definition i cs = Inr p \<Longrightarrow> place_value i \<noteq> [] \<Longrightarrow>
   list_all (\<lambda>c. color_value c \<noteq> []) cs \<Longrightarrow> place_definition_ok p"
  by (auto simp: mk_place_definition_def place_definition_ok_def bindr_Inr_iff admitted_colors_ok)

section \<open>Transitions\<close>

record transition_definition =
  td_identity :: transition_id
  td_inputs :: "variable_id list"
  td_externals :: "variable_id list"
  td_guard :: guard

definition mk_transition_definition ::
    "transition_id \<Rightarrow> variable_id list \<Rightarrow> variable_id list \<Rightarrow> guard \<Rightarrow> transition_definition result" where
  "mk_transition_definition i ins outs g =
     (if \<not> distinct ins then Inl (ValueError ''input_variable_identities must be unique'')
      else if \<not> distinct outs
      then Inl (ValueError ''external_output_variable_identities must be unique'')
      else if list_ex (\<lambda>v. v \<in> set outs) ins
      then Inl (ValueError ''input and external-output variables must be disjoint'')
      else Inr \<lparr>td_identity = i, td_inputs = ins, td_externals = outs, td_guard = g\<rparr>)"

definition transition_definition_ok :: "transition_definition \<Rightarrow> bool" where
  "transition_definition_ok t \<longleftrightarrow> transition_value (td_identity t) \<noteq> [] \<and>
     distinct (td_inputs t @ td_externals t) \<and>
     list_all (\<lambda>v. variable_value v \<noteq> []) (td_inputs t @ td_externals t) \<and> guard_ok (td_guard t)"

lemma mk_transition_definition_ok:
  "mk_transition_definition i ins outs g = Inr t \<Longrightarrow> transition_value i \<noteq> [] \<Longrightarrow>
   list_all (\<lambda>v. variable_value v \<noteq> []) (ins @ outs) \<Longrightarrow> guard_ok g \<Longrightarrow> transition_definition_ok t"
  by (auto simp: mk_transition_definition_def transition_definition_ok_def list_ex_iff split: if_splits)

section \<open>Arcs\<close>

datatype arc_inscription = InputArc input_inscription | OutputArc output_inscription

record arc_definition =
  ad_identity :: arc_id
  ad_place :: place_id
  ad_transition :: transition_id
  ad_inscription :: arc_inscription

fun arc_input :: "arc_definition \<Rightarrow> input_inscription option" where
  "arc_input a = (case ad_inscription a of InputArc i \<Rightarrow> Some i | OutputArc out \<Rightarrow> None)"

fun arc_output :: "arc_definition \<Rightarrow> output_inscription option" where
  "arc_output a = (case ad_inscription a of InputArc i \<Rightarrow> None | OutputArc out \<Rightarrow> Some out)"

definition mk_arc_definition :: "arc_id \<Rightarrow> place_id \<Rightarrow> transition_id \<Rightarrow> input_inscription option \<Rightarrow>
    output_inscription option \<Rightarrow> arc_definition result" where
  "mk_arc_definition i p t inp outp =
     (case (inp, outp) of
        (Some x, None) \<Rightarrow> Inr \<lparr>ad_identity = i, ad_place = p, ad_transition = t, ad_inscription = InputArc x\<rparr>
      | (None, Some y) \<Rightarrow> Inr \<lparr>ad_identity = i, ad_place = p, ad_transition = t, ad_inscription = OutputArc y\<rparr>
      | _ \<Rightarrow> Inl (ValueError ''exactly one arc inscription variant must be present''))"

fun inscription_ok :: "arc_inscription \<Rightarrow> bool" where
  "inscription_ok (InputArc i) = input_ok i"
| "inscription_ok (OutputArc out) = output_ok out"

definition arc_definition_ok :: "arc_definition \<Rightarrow> bool" where
  "arc_definition_ok a \<longleftrightarrow> arc_value (ad_identity a) \<noteq> [] \<and> place_value (ad_place a) \<noteq> [] \<and>
     transition_value (ad_transition a) \<noteq> [] \<and> inscription_ok (ad_inscription a)"

section \<open>Complete definitions\<close>

record net =
  n_identity :: definition_id
  n_colors :: "color_definition list"
  n_places :: "place_definition list"
  n_transitions :: "transition_definition list"
  n_arcs :: "arc_definition list"
  n_priority :: "transition_id list"
  n_policy :: selection_policy

text \<open>One pass of the loop over the four component collections.\<close>

definition component :: "string \<Rightarrow> ('a \<Rightarrow> string) \<Rightarrow> 'a list \<Rightarrow> 'a list result" where
  "component name ident xs =
     (if \<not> distinct (map ident xs) then Inl (ValueError (name @ '' identities must be unique''))
      else Inr (sort_key ident xs))"

interpretation comp: canonical_builder ident "\<lambda>xs. True" "component name ident"
  for name and ident :: "'a \<Rightarrow> string"
  by unfold_locales (auto simp: component_def)

definition mk_net :: "definition_id \<Rightarrow> color_definition list \<Rightarrow> place_definition list \<Rightarrow>
    transition_definition list \<Rightarrow> arc_definition list \<Rightarrow> transition_id list \<Rightarrow> selection_policy \<Rightarrow>
    net result" where
  "mk_net i cs ps ts as pri pol =
     bindr (component ''colors'' (color_value \<circ> cd_identity) cs) (\<lambda>cs'.
     bindr (component ''places'' (place_value \<circ> pd_identity) ps) (\<lambda>ps'.
     bindr (component ''transitions'' (transition_value \<circ> td_identity) ts) (\<lambda>ts'.
     bindr (component ''arcs'' (arc_value \<circ> ad_identity) as) (\<lambda>as'.
       if \<not> distinct pri then Inl (ValueError ''transition_priority identities must be unique'')
       else if set pri \<noteq> set (map td_identity ts')
       then Inl (ValueError
         ''transition_priority must contain every transition identity exactly once'')
       else Inr \<lparr>n_identity = i, n_colors = cs', n_places = ps', n_transitions = ts',
              n_arcs = as', n_priority = pri, n_policy = pol\<rparr>))))"

definition net_ok :: "net \<Rightarrow> bool" where
  "net_ok n \<longleftrightarrow> definition_value (n_identity n) \<noteq> [] \<and>
     list_all color_definition_ok (n_colors n) \<and> canonical (color_value \<circ> cd_identity) (n_colors n) \<and>
     list_all place_definition_ok (n_places n) \<and> canonical (place_value \<circ> pd_identity) (n_places n) \<and>
     list_all transition_definition_ok (n_transitions n) \<and>
     canonical (transition_value \<circ> td_identity) (n_transitions n) \<and>
     list_all arc_definition_ok (n_arcs n) \<and> canonical (arc_value \<circ> ad_identity) (n_arcs n) \<and>
     distinct (n_priority n) \<and> set (n_priority n) = set (map td_identity (n_transitions n))"

lemma component_list_all:
  "component name ident xs = Inr ys \<Longrightarrow> list_all P xs \<Longrightarrow> list_all P ys"
  using comp.build_set by (simp add: list_all_iff) blast

lemma mk_net_ok:
  assumes "mk_net i cs ps ts as pri pol = Inr n" "definition_value i \<noteq> []"
    and "list_all color_definition_ok cs" "list_all place_definition_ok ps"
    and "list_all transition_definition_ok ts" "list_all arc_definition_ok as"
  shows "net_ok n"
  using assms
  by (auto simp: mk_net_def net_ok_def bindr_Inr_iff component_list_all comp.build_canonical
      split: if_splits)

text \<open>The definition does not depend on the order in which its components are listed.\<close>

lemma mk_net_perm:
  assumes "mk_net i cs ps ts as pri pol = Inr n"
    and "mset cs = mset cs'" "mset ps = mset ps'" "mset ts = mset ts'" "mset as = mset as'"
  shows "mk_net i cs' ps' ts' as' pri pol = Inr n"
proof -
  from assms(1) obtain a b c d where 1: "component ''colors'' (color_value \<circ> cd_identity) cs = Inr a"
      "component ''places'' (place_value \<circ> pd_identity) ps = Inr b"
      "component ''transitions'' (transition_value \<circ> td_identity) ts = Inr c"
      "component ''arcs'' (arc_value \<circ> ad_identity) as = Inr d"
    unfolding mk_net_def bindr_Inr_iff by blast
  from this [THEN comp.build_perm] assms(2-5)
  have "component ''colors'' (color_value \<circ> cd_identity) cs' = Inr a"
      "component ''places'' (place_value \<circ> pd_identity) ps' = Inr b"
      "component ''transitions'' (transition_value \<circ> td_identity) ts' = Inr c"
      "component ''arcs'' (arc_value \<circ> ad_identity) as' = Inr d"
    by blast+
  with 1 assms(1) show ?thesis by (simp add: mk_net_def)
qed

lemma transition_value_inj: "transition_value s = transition_value t \<longleftrightarrow> s = t"
  by (cases s; cases t) simp

lemma net_transitions_distinct: "net_ok n \<Longrightarrow> distinct (map td_identity (n_transitions n))"
  unfolding net_ok_def canonical_def
  by (auto simp: distinct_map inj_on_def transition_value_inj)

lemma net_places_distinct: "net_ok n \<Longrightarrow> distinct (map pd_identity (n_places n))"
  unfolding net_ok_def canonical_def by (auto simp: distinct_map inj_on_def)

lemma net_colors_distinct: "net_ok n \<Longrightarrow> distinct (map cd_identity (n_colors n))"
  unfolding net_ok_def canonical_def by (auto simp: distinct_map inj_on_def)

lemma net_arcs_distinct: "net_ok n \<Longrightarrow> distinct (map ad_identity (n_arcs n))"
  unfolding net_ok_def canonical_def by (auto simp: distinct_map inj_on_def)

end
