(* ===== verification/Cpn_Validity.thy ===== *)
theory Cpn_Validity
  imports Cpn_Validation
begin

text \<open>
  What the validators decide.  \<open>definition_valid\<close> and \<open>marking_valid\<close> state structural validity
  over the sets of the net; the lemmas show that on well-formed objects the validators return
  normally, and return no issue exactly when the predicate holds.
\<close>

section \<open>Declarative validity\<close>

definition input_arc_valid :: "net \<Rightarrow> place_definition \<Rightarrow> transition_definition \<Rightarrow> input_inscription \<Rightarrow> bool" where
  "input_arc_valid n p t i \<longleftrightarrow>
     (\<forall>pat \<in> set (ii_patterns i).
        set (pattern_colors pat) \<subseteq> set (color_ids n) \<inter> set (pd_colors p) \<and>
        (\<forall>tp. pat = TokenPattern tp \<longrightarrow> tp_variable tp \<in> set (td_inputs t)))"

definition output_arc_valid :: "net \<Rightarrow> place_definition \<Rightarrow> transition_definition \<Rightarrow> output_inscription \<Rightarrow> bool" where
  "output_arc_valid n p t out \<longleftrightarrow>
     (\<forall>tt \<in> set (oi_templates out).
        tt_color tt \<in> set (color_ids n) \<inter> set (pd_colors p) \<and>
        (\<forall>e \<in> set (template_expressions tt).
           set (value_variables e) \<subseteq> set (td_inputs t) \<union> set (td_externals t)))"

definition arc_valid :: "net \<Rightarrow> arc_definition \<Rightarrow> bool" where
  "arc_valid n a \<longleftrightarrow>
     (\<exists>p \<in> set (n_places n). pd_identity p = ad_place a \<and>
        (\<exists>t \<in> set (n_transitions n). td_identity t = ad_transition a \<and>
           (case ad_inscription a of
              InputArc i \<Rightarrow> input_arc_valid n p t i
            | OutputArc out \<Rightarrow> output_arc_valid n p t out)))"

definition transition_valid :: "net \<Rightarrow> transition_definition \<Rightarrow> bool" where
  "transition_valid n t \<longleftrightarrow>
     set (guard_variables (td_guard t)) \<subseteq> set (td_inputs t) \<and>
     (\<forall>x \<in> set (td_inputs t). count_list (binders n t) x = 1)"

definition definition_valid :: "net \<Rightarrow> bool" where
  "definition_valid n \<longleftrightarrow>
     (\<forall>p \<in> set (n_places n). set (pd_colors p) \<subseteq> set (color_ids n)) \<and>
     (\<forall>a \<in> set (n_arcs n). arc_valid n a) \<and>
     (\<forall>t \<in> set (n_transitions n). transition_valid n t)"

definition token_valid :: "net \<Rightarrow> place_id \<Rightarrow> cpn_token \<Rightarrow> bool" where
  "token_valid n q tok \<longleftrightarrow>
     (\<exists>c \<in> set (n_colors n). cd_identity c = tok_color tok \<and> kind_of (tok_value tok) \<in> set (cd_kinds c)) \<and>
     (\<exists>p \<in> set (n_places n). pd_identity p = q \<and> tok_color tok \<in> set (pd_colors p))"

definition marking_valid :: "net \<Rightarrow> marking \<Rightarrow> bool" where
  "marking_valid n m \<longleftrightarrow>
     mk_definition m = n_identity n \<and>
     set (map pm_place (mk_places m)) = set (map pd_identity (n_places n)) \<and>
     (\<forall>pm \<in> set (mk_places m). \<forall>tok \<in> set (pm_tokens pm). token_valid n (pm_place pm) tok)"

section \<open>Issue construction\<close>

definition finding_ok :: "finding \<Rightarrow> bool" where
  "finding_ok = (\<lambda>(code, path, related, message).
     path \<noteq> [] \<and> list_all (\<lambda>s. s \<noteq> []) path \<and>
     related \<noteq> [] \<and> list_all (\<lambda>s. s \<noteq> []) related \<and> message \<noteq> [])"

lemma finding_ok_simp [simp]:
  "finding_ok (code, path, related, message) \<longleftrightarrow>
     path \<noteq> [] \<and> list_all (\<lambda>s. s \<noteq> []) path \<and>
     related \<noteq> [] \<and> list_all (\<lambda>s. s \<noteq> []) related \<and> message \<noteq> []"
  by (simp add: finding_ok_def)

definition issue_from :: "finding \<Rightarrow> issue" where
  "issue_from = (\<lambda>(code, path, related, message).
     \<lparr>iss_code = code, iss_path = path, iss_related = sort related, iss_message = message\<rparr>)"

lemma list_ex_empty: "list_ex (\<lambda>s. s = []) xs \<longleftrightarrow> \<not> list_all (\<lambda>s. s \<noteq> []) xs"
  by (induction xs) auto

lemma issue_of_ok: "finding_ok f \<Longrightarrow> issue_of f = Inr (issue_from f)"
  by (cases f) (simp add: issue_of_def issue_from_def mk_issue_def list_ex_empty)

lemma mapr_issue_of: "list_all finding_ok fs \<Longrightarrow> mapr issue_of fs = Inr (map issue_from fs)"
  by (rule mapr_ok_map) (simp add: issue_of_ok list_all_iff)

lemma mk_validation_result_Nil [simp]: "mk_validation_result is = [] \<longleftrightarrow> is = []"
  by (metis mk_validation_result_def mset_sort mset_zero_iff)

section \<open>Well-formed objects produce well-formed findings\<close>

lemma value_variables_ok: "expression_ok e \<Longrightarrow> x \<in> set (value_variables e) \<Longrightarrow> variable_value x \<noteq> []"
  by (cases e) auto

lemma guard_variables_ok: "guard_ok g \<Longrightarrow> x \<in> set (guard_variables g) \<Longrightarrow> variable_value x \<noteq> []"
  by (induction g) (auto simp: list_all_iff dest: value_variables_ok)

lemma color_finding_ok:
  assumes "arc_value (ad_identity a) \<noteq> []" "place_value (pd_identity p) \<noteq> []" "color_value c \<noteq> []"
    and "path \<noteq> []" "list_all (\<lambda>s. s \<noteq> []) path" "u \<noteq> []" "w \<noteq> []"
  shows "list_all finding_ok (color_finding n a p path u w c)"
  using assms by (simp add: color_finding_def)

lemma variable_finding_ok:
  assumes "transition_value (ad_transition a) \<noteq> []" "variable_value x \<noteq> []"
    and "list_all (\<lambda>s. s \<noteq> []) path" "w \<noteq> []"
  shows "list_all finding_ok (variable_finding a path w declared x)"
  using assms by (simp add: variable_finding_def)

lemma list_all_concat_map:
  "(\<And>x. x \<in> set xs \<Longrightarrow> list_all P (f x)) \<Longrightarrow> list_all P (concat (map f xs))"
  by (auto simp: list_all_iff)

lemma input_pattern_findings_ok:
  assumes "arc_definition_ok a" "place_definition_ok p" "pattern_ok pat"
  shows "list_all finding_ok (input_pattern_findings n a p t (k, pat))"
proof -
  have "color_value c \<noteq> []" if "c \<in> set (pattern_colors pat)" for c
    using assms(3) that by (cases pat) (auto simp: colors_ok_def list_all_iff)
  then show ?thesis
    using assms
    by (cases pat)
      (auto simp: input_pattern_findings_def Let_def arc_definition_ok_def place_definition_ok_def
        intro!: list_all_concat_map color_finding_ok variable_finding_ok)
qed

lemma template_expressions_ok:
  "template_ok tt \<Longrightarrow> e \<in> set (template_expressions tt) \<Longrightarrow> expression_ok e"
  by (auto simp: template_ok_def template_expressions_def split: option.splits)

lemma output_template_findings_ok:
  assumes "arc_definition_ok a" "place_definition_ok p" "template_ok tt"
  shows "list_all finding_ok (output_template_findings n a p t (k, tt))"
proof -
  have "variable_value x \<noteq> []" if "e \<in> set (template_expressions tt)" "x \<in> set (value_variables e)" for e x
    using template_expressions_ok [OF assms(3) that(1)] that(2) by (rule value_variables_ok)
  then show ?thesis
    using assms
    by (auto simp: output_template_findings_def Let_def arc_definition_ok_def place_definition_ok_def
        template_ok_def intro!: list_all_concat_map color_finding_ok variable_finding_ok)
qed

lemma places_of_SomeD: "places_of n q = Some p \<Longrightarrow> p \<in> set (n_places n) \<and> pd_identity p = q"
  unfolding places_of_def by (drule dict_of_map_SomeD) auto

lemma transitions_of_SomeD: "transitions_of n q = Some t \<Longrightarrow> t \<in> set (n_transitions n) \<and> td_identity t = q"
  unfolding transitions_of_def by (drule dict_of_map_SomeD) auto

lemma colors_of_SomeD: "colors_of n q = Some c \<Longrightarrow> c \<in> set (n_colors n) \<and> cd_identity c = q"
  unfolding colors_of_def by (drule dict_of_map_SomeD) auto

lemma places_of_None: "places_of n q = None \<longleftrightarrow> (\<forall>p \<in> set (n_places n). pd_identity p \<noteq> q)"
  unfolding places_of_def dict_of_map_None by auto

lemma transitions_of_None:
  "transitions_of n q = None \<longleftrightarrow> (\<forall>t \<in> set (n_transitions n). td_identity t \<noteq> q)"
  unfolding transitions_of_def dict_of_map_None by auto

lemma colors_of_None: "colors_of n q = None \<longleftrightarrow> q \<notin> set (color_ids n)"
  unfolding colors_of_def color_ids_def set_map by (rule dict_of_map_None)

lemma places_of_Some_iff:
  "net_ok n \<Longrightarrow> places_of n q = Some p \<longleftrightarrow> p \<in> set (n_places n) \<and> pd_identity p = q"
  unfolding places_of_def by (rule dict_of_self_Some_iff) (rule net_places_distinct)

lemma transitions_of_Some_iff:
  "net_ok n \<Longrightarrow> transitions_of n q = Some t \<longleftrightarrow> t \<in> set (n_transitions n) \<and> td_identity t = q"
  unfolding transitions_of_def by (rule dict_of_self_Some_iff) (rule net_transitions_distinct)

lemma colors_of_Some_iff:
  "net_ok n \<Longrightarrow> colors_of n q = Some c \<longleftrightarrow> c \<in> set (n_colors n) \<and> cd_identity c = q"
  unfolding colors_of_def by (rule dict_of_self_Some_iff) (rule net_colors_distinct)

lemma net_ok_parts:
  assumes "net_ok n"
  shows "p \<in> set (n_places n) \<Longrightarrow> place_definition_ok p"
    and "t \<in> set (n_transitions n) \<Longrightarrow> transition_definition_ok t"
    and "a \<in> set (n_arcs n) \<Longrightarrow> arc_definition_ok a"
    and "c \<in> set (n_colors n) \<Longrightarrow> color_definition_ok c"
  using assms by (auto simp: net_ok_def list_all_iff)

lemma arc_findings_ok:
  assumes n: "net_ok n" and a: "a \<in> set (n_arcs n)"
  shows "list_all finding_ok (arc_findings n a)"
proof -
  note aok = net_ok_parts(3) [OF n a]
  have "list_all finding_ok (concat (map (input_pattern_findings n a p t) (enumerate 0 (ii_patterns i))))"
    if "places_of n (ad_place a) = Some p" "ad_inscription a = InputArc i" for p t i
  proof (rule list_all_concat_map)
    fix kx assume "kx \<in> set (enumerate 0 (ii_patterns i))"
    then obtain k pat where "kx = (k, pat)" "pat \<in> set (ii_patterns i)"
      by (metis in_enumerateD surj_pair)
    moreover have "place_definition_ok p" using places_of_SomeD [OF that(1)] net_ok_parts(1) [OF n] by simp
    moreover have "input_ok i" using aok that(2) by (simp add: arc_definition_ok_def)
    then have "pattern_ok pat" using \<open>pat \<in> _\<close> by (simp add: input_ok_def list_all_iff)
    ultimately show "list_all finding_ok (input_pattern_findings n a p t kx)"
      using input_pattern_findings_ok [OF aok] by simp
  qed
  moreover have "list_all finding_ok (concat (map (output_template_findings n a p t) (enumerate 0 (oi_templates out))))"
    if "places_of n (ad_place a) = Some p" "ad_inscription a = OutputArc out" for p t out
  proof (rule list_all_concat_map)
    fix kx assume "kx \<in> set (enumerate 0 (oi_templates out))"
    then obtain k tt where "kx = (k, tt)" "tt \<in> set (oi_templates out)"
      by (metis in_enumerateD surj_pair)
    moreover have "place_definition_ok p" using places_of_SomeD [OF that(1)] net_ok_parts(1) [OF n] by simp
    moreover have "output_ok out" using aok that(2) by (simp add: arc_definition_ok_def)
    then have "template_ok tt" using \<open>tt \<in> _\<close> by (simp add: output_ok_def list_all_iff)
    ultimately show "list_all finding_ok (output_template_findings n a p t kx)"
      using output_template_findings_ok [OF aok] by simp
  qed
  ultimately show ?thesis
    using aok by (auto simp: arc_findings_def Let_def arc_definition_ok_def
        split: option.splits arc_inscription.splits)
qed

lemma place_findings_ok: "net_ok n \<Longrightarrow> list_all finding_ok (place_findings n)"
  using net_ok_parts(1) [of n]
  by (fastforce simp: place_findings_def list_all_iff place_definition_ok_def colors_ok_def)

lemma transition_findings_ok:
  assumes "transition_definition_ok t"
  shows "list_all finding_ok (guard_findings t @ binder_findings n t)"
  using assms guard_variables_ok [of "td_guard t"]
  by (auto simp: transition_definition_ok_def guard_findings_def binder_findings_def list_all_iff Let_def)

lemma definition_findings_ok: "net_ok n \<Longrightarrow> list_all finding_ok (definition_findings n)"
  unfolding definition_findings_def list_all_append
  by (intro conjI place_findings_ok list_all_concat_map arc_findings_ok transition_findings_ok)
    (auto dest: net_ok_parts(2))

lemma validate_definition_eq:
  "net_ok n \<Longrightarrow>
   validate_definition n = Inr (mk_validation_result (map issue_from (definition_findings n)))"
  by (simp add: validate_definition_def mapr_issue_of definition_findings_ok)


section \<open>The definition validator decides validity\<close>

lemma place_findings_Nil:
  "place_findings n = [] \<longleftrightarrow> (\<forall>p \<in> set (n_places n). set (pd_colors p) \<subseteq> set (color_ids n))"
  by (auto simp: place_findings_def)

lemma color_finding_Nil:
  "color_finding n a p path u w c = [] \<longleftrightarrow> c \<in> set (color_ids n) \<inter> set (pd_colors p)"
  by (simp add: color_finding_def)

lemma variable_finding_Nil: "variable_finding a path w declared x = [] \<longleftrightarrow> x \<in> set declared"
  by (simp add: variable_finding_def)

lemma input_pattern_findings_Nil:
  "input_pattern_findings n a p t kx = [] \<longleftrightarrow>
     set (pattern_colors (snd kx)) \<subseteq> set (color_ids n) \<inter> set (pd_colors p) \<and>
     (\<forall>tp. snd kx = TokenPattern tp \<longrightarrow> tp_variable tp \<in> set (td_inputs t))"
  by (cases kx; cases "snd kx")
    (auto simp: input_pattern_findings_def Let_def color_finding_Nil variable_finding_Nil)

lemma output_template_findings_Nil:
  "output_template_findings n a p t kx = [] \<longleftrightarrow>
     tt_color (snd kx) \<in> set (color_ids n) \<inter> set (pd_colors p) \<and>
     (\<forall>e \<in> set (template_expressions (snd kx)).
        set (value_variables e) \<subseteq> set (td_inputs t) \<union> set (td_externals t))"
  by (cases kx)
    (auto simp: output_template_findings_def Let_def color_finding_Nil variable_finding_Nil)

lemma bex_unique:
  assumes "\<And>q. q \<in> A \<and> f q = k \<longleftrightarrow> q = p"
  shows "(\<exists>q \<in> A. f q = k \<and> Q q) \<longleftrightarrow> Q p"
  using assms by metis

lemma concat_map_Nil: "concat (map f xs) = [] \<longleftrightarrow> (\<forall>x \<in> set xs. f x = [])"
  by simp

lemma if_Nil: "(if b then [x] else ys) = [] \<longleftrightarrow> \<not> b \<and> ys = []"
  by simp

lemma arc_findings_Nil:
  assumes "net_ok n"
  shows "arc_findings n a = [] \<longleftrightarrow> arc_valid n a"
proof (cases "places_of n (ad_place a)")
  case None
  then show ?thesis
    using assms by (auto simp: arc_findings_def Let_def arc_valid_def places_of_None)
next
  case (Some p)
  note p = this
  show ?thesis
  proof (cases "transitions_of n (ad_transition a)")
    case None
    then show ?thesis
      using assms by (auto simp: arc_findings_def Let_def arc_valid_def transitions_of_None p)
  next
    case (Some t)
    have P: "q \<in> set (n_places n) \<and> pd_identity q = ad_place a \<longleftrightarrow> q = p" for q
      using p by (auto simp flip: places_of_Some_iff [OF assms])
    have T: "u \<in> set (n_transitions n) \<and> td_identity u = ad_transition a \<longleftrightarrow> u = t" for u
      using Some by (auto simp flip: transitions_of_Some_iff [OF assms])
    have "arc_valid n a \<longleftrightarrow>
       (case ad_inscription a of
          InputArc i \<Rightarrow> input_arc_valid n p t i
        | OutputArc out \<Rightarrow> output_arc_valid n p t out)"
      unfolding arc_valid_def bex_unique [OF P] bex_unique [OF T] ..
    then show ?thesis
      using Some p ball_enumerate [where P = "\<lambda>pat.
          set (pattern_colors pat) \<subseteq> set (color_ids n) \<inter> set (pd_colors p) \<and>
          (\<forall>tp. pat = TokenPattern tp \<longrightarrow> tp_variable tp \<in> set (td_inputs t))"]
        ball_enumerate [where P = "\<lambda>tt.
          tt_color tt \<in> set (color_ids n) \<inter> set (pd_colors p) \<and>
          (\<forall>e \<in> set (template_expressions tt).
            set (value_variables e) \<subseteq> set (td_inputs t) \<union> set (td_externals t))"]
      by (simp add: arc_findings_def Let_def input_arc_valid_def output_arc_valid_def
          input_pattern_findings_Nil output_template_findings_Nil split: arc_inscription.splits)
  qed
qed

lemma transition_findings_Nil:
  assumes "transition_definition_ok t"
  shows "guard_findings t @ binder_findings n t = [] \<longleftrightarrow> transition_valid n t"
proof -
  have disj: "x \<in> set (td_inputs t) \<Longrightarrow> x \<notin> set (td_externals t)" for x
    using assms by (auto simp: transition_definition_ok_def)
  have "guard_findings t = [] \<longleftrightarrow>
      (\<forall>x \<in> set (guard_variables (td_guard t)). x \<in> set (td_inputs t) \<and> x \<notin> set (td_externals t))"
    unfolding guard_findings_def concat_map_Nil if_Nil by blast
  also have "\<dots> \<longleftrightarrow> set (guard_variables (td_guard t)) \<subseteq> set (td_inputs t)"
    using disj by blast
  finally have g: "guard_findings t = [] \<longleftrightarrow> set (guard_variables (td_guard t)) \<subseteq> set (td_inputs t)" .
  have one: "(0 < k \<and> \<not> 1 < k) \<longleftrightarrow> k = 1" for k :: nat by auto
  have "binder_findings n t = [] \<longleftrightarrow>
      (\<forall>x \<in> set (td_inputs t). 0 < count_list (binders n t) x \<and> \<not> 1 < count_list (binders n t) x)"
    unfolding binder_findings_def concat_map_Nil Let_def if_Nil by simp
  then have "binder_findings n t = [] \<longleftrightarrow> (\<forall>x \<in> set (td_inputs t). count_list (binders n t) x = 1)"
    by (simp only: one)
  with g show ?thesis by (simp add: transition_valid_def)
qed

lemma definition_findings_Nil:
  assumes "net_ok n"
  shows "definition_findings n = [] \<longleftrightarrow> definition_valid n"
proof -
  have "guard_findings t @ binder_findings n t = [] \<longleftrightarrow> transition_valid n t"
    if "t \<in> set (n_transitions n)" for t
    using that by (intro transition_findings_Nil net_ok_parts(2) [OF assms])
  then have "concat (map (\<lambda>t. guard_findings t @ binder_findings n t) (n_transitions n)) = [] \<longleftrightarrow>
      (\<forall>t \<in> set (n_transitions n). transition_valid n t)"
    unfolding concat_eq_Nil_conv set_map ball_simps(9) by (rule ball_cong [OF refl])
  moreover have "concat (map (arc_findings n) (n_arcs n)) = [] \<longleftrightarrow> (\<forall>a \<in> set (n_arcs n). arc_valid n a)"
    by (simp add: arc_findings_Nil [OF assms])
  ultimately show ?thesis
    unfolding definition_findings_def definition_valid_def append_is_Nil_conv place_findings_Nil
    by blast
qed

lemma validate_definition_Nil:
  assumes "net_ok n"
  shows "validate_definition n = Inr [] \<longleftrightarrow> definition_valid n"
  using definition_findings_Nil [OF assms]
  by (simp add: validate_definition_eq [OF assms])

section \<open>The marking validator decides validity\<close>

lemma marking_token_findings_Nil:
  assumes "net_ok n" "pm_place pm \<in> pd_identity ` set (n_places n)"
  shows "marking_token_findings n pm kx = [] \<longleftrightarrow> token_valid n (pm_place pm) (snd kx)"
proof -
  obtain k tok where kx: "kx = (k, tok)" by (cases kx)
  from assms(2) obtain p where p: "places_of n (pm_place pm) = Some p"
    using places_of_None [of n "pm_place pm"] by (cases "places_of n (pm_place pm)") auto
  have P: "q \<in> set (n_places n) \<and> pd_identity q = pm_place pm \<longleftrightarrow> q = p" for q
    using p by (auto simp flip: places_of_Some_iff [OF assms(1)])
  show ?thesis
  proof (cases "colors_of n (tok_color tok)")
    case None
    then have "\<forall>c \<in> set (n_colors n). cd_identity c \<noteq> tok_color tok"
      by (force simp: colors_of_None color_ids_def)
    with None show ?thesis by (auto simp: marking_token_findings_def Let_def kx token_valid_def)
  next
    case (Some c)
    have C: "d \<in> set (n_colors n) \<and> cd_identity d = tok_color tok \<longleftrightarrow> d = c" for d
      using Some by (auto simp flip: colors_of_Some_iff [OF assms(1)])
    have "token_valid n (pm_place pm) tok \<longleftrightarrow>
        kind_of (tok_value tok) \<in> set (cd_kinds c) \<and> tok_color tok \<in> set (pd_colors p)"
      unfolding token_valid_def bex_unique [OF P] bex_unique [OF C] ..
    then show ?thesis using Some p by (auto simp: marking_token_findings_def Let_def kx)
  qed
qed

lemma marking_findings_Nil:
  assumes "net_ok n"
  shows "marking_findings n m = [] \<longleftrightarrow> marking_valid n m"
proof (cases "set (map pm_place (mk_places m)) = set (map pd_identity (n_places n))")
  case True
  have "concat (map (marking_token_findings n pm) (enumerate 0 (pm_tokens pm))) = [] \<longleftrightarrow>
      (\<forall>tok \<in> set (pm_tokens pm). token_valid n (pm_place pm) tok)"
    if "pm \<in> set (mk_places m)" for pm
  proof -
    have "pm_place pm \<in> pd_identity ` set (n_places n)" using True that by auto
    note 1 = marking_token_findings_Nil [OF assms this]
    show ?thesis
      using ball_enumerate [where P = "token_valid n (pm_place pm)"] by (simp add: 1)
  qed
  then show ?thesis using True by (auto simp: marking_findings_def marking_valid_def)
next
  case False
  then show ?thesis by (simp add: marking_findings_def marking_valid_def)
qed

lemma marking_findings_ok:
  assumes n: "net_ok n" and m: "marking_ok m"
  shows "list_all finding_ok (marking_findings n m)"
proof -
  have places: "place_value q \<noteq> []" if "q \<in> set (place_set_difference n m)" for q
    using that net_ok_parts(1) [OF n] m
    by (auto simp: place_set_difference_def Let_def place_definition_ok_def marking_ok_def
        list_all_iff place_marking_ok_def)
  have diff: "place_set_difference n m \<noteq> []"
    if "set (map pm_place (mk_places m)) \<noteq> set (map pd_identity (n_places n))"
    using that by (auto simp: place_set_difference_def Let_def filter_empty_conv)
  have toks: "list_all finding_ok (marking_token_findings n pm (k, tok))"
    if "pm \<in> set (mk_places m)" "tok \<in> set (pm_tokens pm)" for pm k tok
  proof -
    have "place_value (pm_place pm) \<noteq> []" "color_value (tok_color tok) \<noteq> []"
      using m that by (auto simp: marking_ok_def list_all_iff place_marking_ok_def token_ok_def)
    moreover have "kind_text k \<noteq> []" for k by (cases k) auto
    ultimately show ?thesis
      by (auto simp: marking_token_findings_def Let_def dest: places_of_SomeD split: option.splits)
  qed
  have "list_all finding_ok (concat (map (\<lambda>pm. concat (map (marking_token_findings n pm)
      (enumerate 0 (pm_tokens pm)))) (mk_places m)))"
  proof (intro list_all_concat_map)
    fix pm kx assume pm: "pm \<in> set (mk_places m)" and kx: "kx \<in> set (enumerate 0 (pm_tokens pm))"
    obtain k tok where "kx = (k, tok)" by (cases kx)
    with toks [OF pm in_enumerateD [of k tok]] kx
    show "list_all finding_ok (marking_token_findings n pm kx)" by simp
  qed
  moreover have "definition_value (n_identity n) \<noteq> []" "definition_value (mk_definition m) \<noteq> []"
    using n m by (auto simp: net_ok_def marking_ok_def)
  moreover have "list_all (\<lambda>s. s \<noteq> []) (map place_value (place_set_difference n m))"
    unfolding list_all_iff set_map ball_simps(9) using places by blast
  ultimately show ?thesis
    unfolding marking_findings_def list_all_append
    by (intro conjI) (simp_all add: diff del: list.pred_map)
qed

lemma validate_marking_eq:
  "net_ok n \<Longrightarrow> marking_ok m \<Longrightarrow>
   validate_marking n m = Inr (mk_validation_result (map issue_from (marking_findings n m)))"
  by (simp add: validate_marking_def mapr_issue_of marking_findings_ok)

lemma validate_marking_Nil:
  "net_ok n \<Longrightarrow> marking_ok m \<Longrightarrow> validate_marking n m = Inr [] \<longleftrightarrow> marking_valid n m"
  using marking_findings_Nil [of n m] by (simp add: validate_marking_eq)


end
