(* ===== verification/Cpn_Represent.thy ===== *)
theory Cpn_Represent
  imports Cpn_Definitions
begin

text \<open>
  The identity preimages of \<open>petrinet/colored/enablement.py\<close>, \<open>selection.py\<close> and \<open>firing.py\<close>:
  \<open>_represented_state\<close> walks a dataclass by its declared fields, \<open>_identity_value\<close> and
  \<open>_value_state\<close> encode active values, and \<open>_binding_state\<close> encodes a binding.  Python's single
  recursive function over \<open>dataclasses.fields\<close> becomes one function per represented type, each
  listing the class name and the fields in declaration order.  The lemmas show that the
  representation determines the object.
\<close>

named_theorems rep_inj \<open>a representation, up to member order, determines the represented object\<close>

section \<open>The shapes of a represented state\<close>

definition cpn_class :: "string \<Rightarrow> string" where
  "cpn_class s = ''ColoredPetriNet'' @ s"

definition rep_object :: "string \<Rightarrow> (string \<times> json) list \<Rightarrow> json" where
  "rep_object c fs =
     JObj [(''type'', JStr (cpn_class c)),
           (''fields'', JList (map (\<lambda>f. JList [JStr (fst f), snd f]) fs))]"

definition rep_enum :: "string \<Rightarrow> string \<Rightarrow> json" where
  "rep_enum c s = JObj [(''enum'', JStr (cpn_class c)), (''value'', JStr s)]"

definition rep_tuple :: "('a \<Rightarrow> json) \<Rightarrow> 'a list \<Rightarrow> json" where
  "rep_tuple f xs = JList (map f xs)"

fun rep_optional :: "('a \<Rightarrow> json) \<Rightarrow> 'a option \<Rightarrow> json" where
  "rep_optional f None = JNull"
| "rep_optional f (Some x) = f x"

definition rep_identity :: "string \<Rightarrow> string \<Rightarrow> json" where
  "rep_identity c s = rep_object c [(''value'', JStr s)]"

section \<open>Values, tokens and markings\<close>

text \<open>\<open>value.value\<close>, as each of the three encoders writes it.\<close>

fun active_state :: "cpn_value \<Rightarrow> json" where
  "active_state VNone = JNull"
| "active_state (VBool b) = JBool b"
| "active_state (VInt i) = JStr (dec_int i)"
| "active_state (VReal x) = JStr (f64_hex x)"
| "active_state (VStr s) = JStr s"
| "active_state (VSeq ss) = JList (map JStr ss)"

definition rep_color_id :: "color_id \<Rightarrow> json" where
  "rep_color_id c = rep_identity ''ColorIdentity'' (color_value c)"

definition rep_token_id :: "token_id \<Rightarrow> json" where
  "rep_token_id i = rep_identity ''TokenIdentity'' (token_value i)"

definition rep_definition_id :: "definition_id \<Rightarrow> json" where
  "rep_definition_id i = rep_identity ''DefinitionIdentity'' (definition_value i)"

definition rep_marking_id :: "marking_id \<Rightarrow> json" where
  "rep_marking_id i = rep_identity ''MarkingIdentity'' (marking_value i)"

definition rep_place_id :: "place_id \<Rightarrow> json" where
  "rep_place_id i = rep_identity ''PlaceIdentity'' (place_value i)"

definition rep_transition_id :: "transition_id \<Rightarrow> json" where
  "rep_transition_id i = rep_identity ''TransitionIdentity'' (transition_value i)"

definition rep_variable_id :: "variable_id \<Rightarrow> json" where
  "rep_variable_id i = rep_identity ''BindingVariableIdentity'' (variable_value i)"

definition rep_kind :: "value_kind \<Rightarrow> json" where
  "rep_kind k = rep_enum ''ValueKind'' (kind_text k)"

definition rep_value :: "cpn_value \<Rightarrow> json" where
  "rep_value v = rep_object ''Value'' [(''kind'', rep_kind (kind_of v)), (''value'', active_state v)]"

definition rep_token :: "cpn_token \<Rightarrow> json" where
  "rep_token t = rep_object ''Token''
     [(''color_identity'', rep_color_id (tok_color t)), (''value'', rep_value (tok_value t)),
      (''token_identity'', rep_optional rep_token_id (tok_identity t))]"

definition rep_place_marking :: "place_marking \<Rightarrow> json" where
  "rep_place_marking pm = rep_object ''PlaceMarking''
     [(''place_identity'', rep_place_id (pm_place pm)), (''tokens'', rep_tuple rep_token (pm_tokens pm))]"

definition rep_marking :: "marking \<Rightarrow> json" where
  "rep_marking m = rep_object ''Marking''
     [(''identity'', rep_marking_id (mk_identity m)),
      (''definition_identity'', rep_definition_id (mk_definition m)),
      (''places'', rep_tuple rep_place_marking (mk_places m))]"

definition rep_assignment :: "assignment \<Rightarrow> json" where
  "rep_assignment a = rep_object ''BindingAssignment''
     [(''variable_identity'', rep_variable_id (as_variable a)), (''value'', rep_value (as_value a))]"

definition rep_binding :: "binding \<Rightarrow> json" where
  "rep_binding b = rep_object ''Binding''
     [(''transition_identity'', rep_transition_id (bind_transition b)),
      (''assignments'', rep_tuple rep_assignment (bind_assignments b))]"

section \<open>Expressions and definitions\<close>

fun rep_expression :: "value_expression \<Rightarrow> json" where
  "rep_expression (Literal v) = rep_object ''ValueExpression''
     [(''kind'', rep_enum ''ValueExpressionKind'' (expression_kind_text ELiteral)),
      (''literal'', rep_value v), (''variable_identity'', JNull)]"
| "rep_expression (Variable x) = rep_object ''ValueExpression''
     [(''kind'', rep_enum ''ValueExpressionKind'' (expression_kind_text EVariable)),
      (''literal'', JNull), (''variable_identity'', rep_variable_id x)]"

definition rep_guard_object :: "guard_operator \<Rightarrow> json list \<Rightarrow> value_expression option \<Rightarrow>
    value_expression option \<Rightarrow> json" where
  "rep_guard_object op gs l r = rep_object ''GuardExpression''
     [(''operator'', rep_enum ''GuardOperator'' (operator_text op)), (''operands'', JList gs),
      (''left'', rep_optional rep_expression l), (''right'', rep_optional rep_expression r)]"

fun rep_guard :: "guard \<Rightarrow> json" where
  "rep_guard GTrue = rep_guard_object OpTrue [] None None"
| "rep_guard GFalse = rep_guard_object OpFalse [] None None"
| "rep_guard (GAll gs) = rep_guard_object OpAll (map rep_guard gs) None None"
| "rep_guard (GAny gs) = rep_guard_object OpAny (map rep_guard gs) None None"
| "rep_guard (GNot g) = rep_guard_object OpNot [rep_guard g] None None"
| "rep_guard (GCompare c l r) = rep_guard_object (OpCompare c) [] (Some l) (Some r)"

fun rep_pattern :: "input_pattern \<Rightarrow> json" where
  "rep_pattern (TokenPattern p) = rep_object ''TokenPattern''
     [(''variable_identity'', rep_variable_id (tp_variable p)),
      (''allowed_color_identities'', rep_tuple rep_color_id (tp_colors p))]"
| "rep_pattern (InhibitorPattern p) = rep_object ''InhibitorPattern''
     [(''allowed_color_identities'', rep_tuple rep_color_id (ip_colors p))]"

definition rep_input :: "input_inscription \<Rightarrow> json" where
  "rep_input i = rep_object ''InputInscription''
     [(''mode'', rep_enum ''InputMode'' (input_mode_text (ii_mode i))),
      (''patterns'', rep_tuple rep_pattern (ii_patterns i))]"

definition rep_template :: "token_template \<Rightarrow> json" where
  "rep_template t = rep_object ''TokenTemplate''
     [(''color_identity'', rep_color_id (tt_color t)),
      (''value_expression'', rep_expression (tt_value t)),
      (''token_identity_expression'', rep_optional rep_expression (tt_identity t))]"

definition rep_output :: "output_inscription \<Rightarrow> json" where
  "rep_output out = rep_object ''OutputInscription'' [(''templates'', rep_tuple rep_template (oi_templates out))]"

definition rep_arc_id :: "arc_id \<Rightarrow> json" where
  "rep_arc_id i = rep_identity ''ArcIdentity'' (arc_value i)"

definition rep_color_definition :: "color_definition \<Rightarrow> json" where
  "rep_color_definition c = rep_object ''ColorDefinition''
     [(''identity'', rep_color_id (cd_identity c)),
      (''allowed_value_kinds'', rep_tuple rep_kind (cd_kinds c))]"

definition rep_place_definition :: "place_definition \<Rightarrow> json" where
  "rep_place_definition p = rep_object ''PlaceDefinition''
     [(''identity'', rep_place_id (pd_identity p)),
      (''allowed_color_identities'', rep_tuple rep_color_id (pd_colors p))]"

definition rep_transition_definition :: "transition_definition \<Rightarrow> json" where
  "rep_transition_definition t = rep_object ''TransitionDefinition''
     [(''identity'', rep_transition_id (td_identity t)),
      (''input_variable_identities'', rep_tuple rep_variable_id (td_inputs t)),
      (''external_output_variable_identities'', rep_tuple rep_variable_id (td_externals t)),
      (''guard'', rep_guard (td_guard t))]"

definition rep_arc_definition :: "arc_definition \<Rightarrow> json" where
  "rep_arc_definition a = rep_object ''ArcDefinition''
     [(''identity'', rep_arc_id (ad_identity a)), (''place_identity'', rep_place_id (ad_place a)),
      (''transition_identity'', rep_transition_id (ad_transition a)),
      (''input_inscription'', rep_optional rep_input (arc_input a)),
      (''output_inscription'', rep_optional rep_output (arc_output a))]"

definition rep_policy :: "selection_policy \<Rightarrow> json" where
  "rep_policy p = rep_enum ''SelectionPolicy'' (policy_text p)"

definition rep_net :: "net \<Rightarrow> json" where
  "rep_net n = rep_object ''Definition''
     [(''identity'', rep_definition_id (n_identity n)),
      (''colors'', rep_tuple rep_color_definition (n_colors n)),
      (''places'', rep_tuple rep_place_definition (n_places n)),
      (''transitions'', rep_tuple rep_transition_definition (n_transitions n)),
      (''arcs'', rep_tuple rep_arc_definition (n_arcs n)),
      (''transition_priority'', rep_tuple rep_transition_id (n_priority n)),
      (''selection_policy'', rep_policy (n_policy n))]"

section \<open>Encodings of bindings and tokens\<close>

definition assignment_state :: "assignment \<Rightarrow> json" where
  "assignment_state a = JObj
     [(''variable'', JStr (variable_value (as_variable a))),
      (''kind'', JStr (kind_text (kind_of (as_value a)))),
      (''value'', active_state (as_value a))]"

definition binding_state :: "binding \<Rightarrow> json" where
  "binding_state b = JObj
     [(''transition'', JStr (transition_value (bind_transition b))),
      (''assignments'', JList (map assignment_state (bind_assignments b)))]"

definition token_state :: "cpn_token \<Rightarrow> json" where
  "token_state t = JObj
     [(''color'', JStr (color_value (tok_color t))),
      (''kind'', JStr (kind_text (kind_of (tok_value t)))),
      (''value'', active_state (tok_value t)),
      (''identity'', (case tok_identity t of None \<Rightarrow> JNull | Some i \<Rightarrow> JStr (token_value i)))]"


section \<open>A represented state determines the object\<close>

text \<open>
  The contract of a representation: equal up to the order of object members only for equal
  objects, and never \<open>null\<close>, which is reserved for an absent optional field.  Tuples and optional
  fields inherit it.
\<close>

locale faithful =
  fixes rep :: "'a \<Rightarrow> json"
  assumes determines: "jsort (rep x) = jsort (rep y) \<Longrightarrow> x = y"
    and not_null: "jsort (rep x) \<noteq> JNull"
begin

lemma eq_iff: "jsort (rep x) = jsort (rep y) \<longleftrightarrow> x = y"
  using determines by blast

lemma tuple_eq_iff: "jsort (rep_tuple rep xs) = jsort (rep_tuple rep ys) \<longleftrightarrow> xs = ys"
proof -
  have "inj (jsort \<circ> rep)" using determines by (intro injI) simp
  then show ?thesis by (simp add: rep_tuple_def inj_map_eq_map)
qed

lemma optional_eq_iff: "jsort (rep_optional rep x) = jsort (rep_optional rep y) \<longleftrightarrow> x = y"
  using not_null [of "the x"] not_null [of "the y"] by (cases x; cases y) (auto simp: eq_iff)

lemma digest_eqD:
  "digest_json (rep x) = digest_json (rep y) \<Longrightarrow> x = y \<or> sha256_collision (dumps (rep x)) (dumps (rep y))"
  using digest_json_eqD [of "rep x" "rep y"] by (auto simp: eq_iff)

end

lemma jsort_rep_object:
  "jsort (rep_object c fs) =
     JObj [(''fields'', JList (map (\<lambda>f. JList [JStr (fst f), jsort (snd f)]) fs)),
           (''type'', JStr (cpn_class c))]"
proof -
  have "\<not> (''type'' :: string) \<le> ''fields''" by code_simp
  then show ?thesis by (simp add: rep_object_def comp_def del: Cons_le_Cons)
qed

lemma rep_object_eq:
  "jsort (rep_object c fs) = jsort (rep_object d gs) \<longleftrightarrow>
     c = d \<and> map (\<lambda>f. JList [JStr (fst f), jsort (snd f)]) fs = map (\<lambda>f. JList [JStr (fst f), jsort (snd f)]) gs"
  by (auto simp: jsort_rep_object cpn_class_def)

lemma rep_object_not_null: "jsort (rep_object c fs) \<noteq> JNull"
  by (simp add: jsort_rep_object)

lemma rep_enum_eq: "jsort (rep_enum c s) = jsort (rep_enum d t) \<longleftrightarrow> c = d \<and> s = t"
proof -
  have "(''enum'' :: string) \<le> ''value''" by code_simp
  then show ?thesis by (auto simp: rep_enum_def cpn_class_def simp del: Cons_le_Cons)
qed

lemma rep_enum_not_null: "jsort (rep_enum c s) \<noteq> JNull"
  by (simp add: rep_enum_def)

lemmas rep_shapes = rep_object_eq rep_object_not_null rep_enum_eq rep_enum_not_null

lemma active_state_inj: "kind_of v = kind_of w \<Longrightarrow> jsort (active_state v) = jsort (active_state w) \<Longrightarrow> v = w"
proof (cases v; cases w)
  fix ss ts assume "jsort (active_state v) = jsort (active_state w)" "v = VSeq ss" "w = VSeq ts"
  moreover have "inj JStr" by (simp add: inj_def)
  ultimately show "v = w" by (simp add: inj_map_eq_map comp_def)
qed (auto dest: f64_hex_inj)

interpretation rep_color_id: faithful rep_color_id
  by unfold_locales (auto simp: rep_color_id_def rep_identity_def rep_shapes color_id.expand)

interpretation rep_token_id: faithful rep_token_id
  by unfold_locales (auto simp: rep_token_id_def rep_identity_def rep_shapes token_id.expand)

interpretation rep_definition_id: faithful rep_definition_id
  by unfold_locales (auto simp: rep_definition_id_def rep_identity_def rep_shapes definition_id.expand)

interpretation rep_marking_id: faithful rep_marking_id
  by unfold_locales (auto simp: rep_marking_id_def rep_identity_def rep_shapes marking_id.expand)

interpretation rep_place_id: faithful rep_place_id
  by unfold_locales (auto simp: rep_place_id_def rep_identity_def rep_shapes place_id.expand)

interpretation rep_transition_id: faithful rep_transition_id
  by unfold_locales (auto simp: rep_transition_id_def rep_identity_def rep_shapes transition_id.expand)

interpretation rep_variable_id: faithful rep_variable_id
  by unfold_locales (auto simp: rep_variable_id_def rep_identity_def rep_shapes variable_id.expand)

interpretation rep_arc_id: faithful rep_arc_id
  by unfold_locales (auto simp: rep_arc_id_def rep_identity_def rep_shapes arc_id.expand)

lemmas rep_identities_eq =
  rep_color_id.eq_iff rep_color_id.tuple_eq_iff rep_token_id.optional_eq_iff
  rep_definition_id.eq_iff rep_marking_id.eq_iff rep_place_id.eq_iff
  rep_transition_id.eq_iff rep_transition_id.tuple_eq_iff
  rep_variable_id.eq_iff rep_variable_id.tuple_eq_iff rep_arc_id.eq_iff

interpretation rep_kind: faithful rep_kind
  by unfold_locales (simp_all add: rep_kind_def rep_shapes)

interpretation rep_value: faithful rep_value
  by unfold_locales
    (auto simp: rep_value_def rep_shapes rep_kind.eq_iff intro: active_state_inj)

interpretation rep_token: faithful rep_token
  by unfold_locales (simp_all add: rep_token_def rep_shapes rep_identities_eq rep_value.eq_iff)

interpretation rep_place_marking: faithful rep_place_marking
  by unfold_locales
    (simp_all add: rep_place_marking_def rep_shapes rep_identities_eq rep_token.tuple_eq_iff)

interpretation rep_marking: faithful rep_marking
  by unfold_locales
    (simp_all add: rep_marking_def rep_shapes rep_identities_eq rep_place_marking.tuple_eq_iff)

interpretation rep_assignment: faithful rep_assignment
  by unfold_locales (simp_all add: rep_assignment_def rep_shapes rep_identities_eq rep_value.eq_iff)

interpretation rep_binding: faithful rep_binding
  by unfold_locales
    (simp_all add: rep_binding_def rep_shapes rep_identities_eq rep_assignment.tuple_eq_iff)

lemma rep_expression_inj: "jsort (rep_expression e) = jsort (rep_expression f) \<Longrightarrow> e = f"
  using rep_value.not_null rep_variable_id.not_null
  by (cases e; cases f) (auto simp: rep_shapes rep_identities_eq rep_value.eq_iff)

interpretation rep_expression: faithful rep_expression
proof unfold_locales
  show "jsort (rep_expression e) \<noteq> JNull" for e by (cases e) (simp_all add: rep_shapes)
qed (rule rep_expression_inj)

lemma operator_text_inj: "operator_text p = operator_text q \<Longrightarrow> p = q"
proof -
  have *: "p = OpTrue \<or> p = OpFalse \<or> p = OpAll \<or> p = OpAny \<or> p = OpNot \<or>
      (\<exists>c. p = OpCompare c \<and> (c = CEqual \<or> c = CNotEqual \<or> c = CLess \<or> c = CLessEq \<or> c = CGreater \<or> c = CGreaterEq))"
    for p by (cases p) (auto intro: comparison.exhaust)
  assume "operator_text p = operator_text q"
  then show "p = q" using * [of p] * [of q] by (elim disjE exE conjE) simp_all
qed

lemma rep_guard_object: "rep_guard g =
    rep_guard_object (guard_operator_of g) (map rep_guard (guard_operands g)) (guard_left g) (guard_right g)"
  by (cases g) simp_all

lemma rep_guard_object_eq:
  "jsort (rep_guard_object p gs l r) = jsort (rep_guard_object q hs l' r') \<Longrightarrow>
   p = q \<and> map jsort gs = map jsort hs \<and> l = l' \<and> r = r'"
  by (auto simp: rep_guard_object_def rep_shapes rep_expression.optional_eq_iff dest: operator_text_inj)

lemma guard_of_fields:
  "guard_operator_of g = guard_operator_of h \<Longrightarrow> guard_operands g = guard_operands h \<Longrightarrow>
   guard_left g = guard_left h \<Longrightarrow> guard_right g = guard_right h \<Longrightarrow> g = h"
  by (cases g; cases h) auto

lemma map_inj_set:
  "map f xs = map f ys \<Longrightarrow> (\<And>x y. x \<in> set xs \<Longrightarrow> f x = f y \<Longrightarrow> x = y) \<Longrightarrow> xs = ys"
proof (induction xs arbitrary: ys)
  case (Cons x xs)
  then obtain y ys' where ys: "ys = y # ys'" "f x = f y" "map f xs = map f ys'" by (cases ys) auto
  have "xs = ys'" by (rule Cons.IH [OF ys(3)]) (use Cons.prems(2) in auto)
  moreover have "x = y" using Cons.prems(2) ys(2) by auto
  ultimately show ?case using ys by simp
qed simp

lemma rep_guard_inj: "jsort (rep_guard g) = jsort (rep_guard h) \<Longrightarrow> g = h"
proof (induction "size g" arbitrary: g h rule: less_induct)
  case less
  note f = rep_guard_object_eq [OF less.prems [unfolded rep_guard_object [of g] rep_guard_object [of h]]]
  have "size k < size g" if "k \<in> set (guard_operands g)" for k
    using that by (cases g) (auto dest: size_list_estimation' [where f = size, OF _ order_refl])
  then have "guard_operands g = guard_operands h"
    using f less.hyps by (intro map_inj_set [where f = "jsort \<circ> rep_guard"]) auto
  with f show ?case by (intro guard_of_fields) auto
qed

interpretation rep_guard: faithful rep_guard
proof unfold_locales
  show "jsort (rep_guard g) \<noteq> JNull" for g
    by (simp add: rep_guard_object [of g] rep_guard_object_def rep_shapes)
qed (rule rep_guard_inj)


interpretation rep_pattern: faithful rep_pattern
proof unfold_locales
  show "jsort (rep_pattern p) \<noteq> JNull" for p by (cases p) (simp_all add: rep_shapes)
  show "p = q" if "jsort (rep_pattern p) = jsort (rep_pattern q)" for p q
    using that by (cases p; cases q) (auto simp: rep_shapes rep_identities_eq)
qed

lemma input_mode_text_inj: "input_mode_text m = input_mode_text k \<longleftrightarrow> m = k"
  by (cases m; cases k) simp_all

interpretation rep_input: faithful rep_input
  by unfold_locales
    (simp_all add: rep_input_def rep_shapes rep_pattern.tuple_eq_iff input_mode_text_inj)

interpretation rep_template: faithful rep_template
  by unfold_locales
    (simp_all add: rep_template_def rep_shapes rep_identities_eq rep_expression.eq_iff
      rep_expression.optional_eq_iff)

interpretation rep_output: faithful rep_output
  by unfold_locales (simp_all add: rep_output_def rep_shapes rep_template.tuple_eq_iff)

interpretation rep_color_definition: faithful rep_color_definition
  by unfold_locales
    (simp_all add: rep_color_definition_def rep_shapes rep_identities_eq rep_kind.tuple_eq_iff)

interpretation rep_place_definition: faithful rep_place_definition
  by unfold_locales (simp_all add: rep_place_definition_def rep_shapes rep_identities_eq)

interpretation rep_transition_definition: faithful rep_transition_definition
  by unfold_locales
    (simp_all add: rep_transition_definition_def rep_shapes rep_identities_eq rep_guard.eq_iff)

lemma arc_inscription_of_fields:
  "arc_input a = arc_input b \<Longrightarrow> arc_output a = arc_output b \<Longrightarrow> ad_inscription a = ad_inscription b"
  by (auto split: arc_inscription.splits)

interpretation rep_arc_definition: faithful rep_arc_definition
proof unfold_locales
  show "jsort (rep_arc_definition a) \<noteq> JNull" for a by (simp add: rep_arc_definition_def rep_shapes)
  show "a = b" if "jsort (rep_arc_definition a) = jsort (rep_arc_definition b)" for a b
    using that arc_inscription_of_fields [of a b]
    by (simp add: rep_arc_definition_def rep_shapes rep_identities_eq rep_input.optional_eq_iff
        rep_output.optional_eq_iff del: arc_input.simps arc_output.simps)
qed

lemma policy_text_inj: "policy_text p = policy_text q \<longleftrightarrow> p = q"
  by (cases p; cases q) simp_all

interpretation rep_policy: faithful rep_policy
  by unfold_locales (simp_all add: rep_policy_def rep_shapes policy_text_inj)

interpretation rep_net: faithful rep_net
  by unfold_locales
    (simp_all add: rep_net_def rep_shapes rep_identities_eq rep_color_definition.tuple_eq_iff
      rep_place_definition.tuple_eq_iff rep_transition_definition.tuple_eq_iff
      rep_arc_definition.tuple_eq_iff rep_policy.eq_iff)

end
