(* ===== verification/Cpn_Enablement.thy ===== *)
theory Cpn_Enablement
  imports Cpn_Validity Cpn_Represent
begin

text \<open>
  \<open>petrinet/colored/enablement.py\<close>: the closed enablement result, its content identity, and the
  enabler, which validates the definition and the marking, resolves the supported semantic
  versions, and enumerates every feasible binding of every transition in canonical order.
\<close>

section \<open>Identities\<close>

datatype enablement_id = EnablementId (enablement_value: string)
datatype evaluator_id = EvaluatorId (evaluator_value: string)
datatype ordering_id = OrderingId (ordering_value: string)
datatype enabler_id = EnablerId (enabler_value: string)

definition mk_enablement_id :: "py_object \<Rightarrow> enablement_id result" where
  "mk_enablement_id = digest_identity ''enablement result identity'' EnablementId"

definition mk_evaluator_id :: "py_object \<Rightarrow> evaluator_id result" where
  "mk_evaluator_id = nominal ''expression evaluator identity'' EvaluatorId"

definition mk_ordering_id :: "py_object \<Rightarrow> ordering_id result" where
  "mk_ordering_id = nominal ''ordering policy identity'' OrderingId"

definition mk_enabler_id :: "py_object \<Rightarrow> enabler_id result" where
  "mk_enabler_id = nominal ''transition enabler identity'' EnablerId"

definition evaluator_v1 :: evaluator_id where
  "evaluator_v1 = EvaluatorId ''colored-petri-net-expression-evaluator-v1''"

definition ordering_v1 :: ordering_id where
  "ordering_v1 = OrderingId ''colored-petri-net-enablement-order-v1''"

definition enabler_v1 :: enabler_id where
  "enabler_v1 = EnablerId ''colored-petri-net-transition-enabler-v1''"

section \<open>Failures and results\<close>

datatype enablement_code =
    EInvalidDefinition | EInvalidMarking | EUnsupportedEvaluator | EUnsupportedOrdering
  | EGuardFailed

fun enablement_code_text :: "enablement_code \<Rightarrow> string" where
  "enablement_code_text EInvalidDefinition = ''invalid_definition''"
| "enablement_code_text EInvalidMarking = ''invalid_marking''"
| "enablement_code_text EUnsupportedEvaluator = ''unsupported_expression_evaluator''"
| "enablement_code_text EUnsupportedOrdering = ''unsupported_ordering_policy''"
| "enablement_code_text EGuardFailed = ''guard_evaluation_failed''"

text \<open>The failure identity wraps the identity of the result it belongs to.\<close>

datatype enablement_failure_id = EnablementFailureId (ef_result: enablement_id)

record enablement_failure =
  ef_identity :: enablement_failure_id
  ef_code :: enablement_code
  ef_phase :: string
  ef_expected :: string
  ef_observed :: string
  ef_diagnostic :: string
  ef_issues :: "issue list"
  ef_boundary :: "string list"

definition enablement_boundary :: "string list" where
  "enablement_boundary =
     [''software enablement only'', ''no firing or external effect'', ''no scientific acceptance'']"

definition mk_enablement_failure :: "enablement_failure_id \<Rightarrow> enablement_code \<Rightarrow> string \<Rightarrow> string \<Rightarrow>
    string \<Rightarrow> string \<Rightarrow> issue list \<Rightarrow> string list \<Rightarrow> enablement_failure result" where
  "mk_enablement_failure i code phase expected observed diagnostic issues boundary =
     (if phase = [] then Inl (ValueError ''operation_phase must not be empty'')
      else if expected = [] then Inl (ValueError ''expected_condition must not be empty'')
      else if observed = [] then Inl (ValueError ''observed_condition must not be empty'')
      else if diagnostic = [] then Inl (ValueError ''diagnostic must not be empty'')
      else if boundary = [] \<or> list_ex (\<lambda>s. s = []) boundary
      then Inl (ValueError ''claim_boundary must contain nonempty strings'')
      else Inr \<lparr>ef_identity = i, ef_code = code, ef_phase = phase, ef_expected = expected,
             ef_observed = observed, ef_diagnostic = diagnostic, ef_issues = issues,
             ef_boundary = boundary\<rparr>)"

record enablement =
  er_identity :: enablement_id
  er_definition :: definition_id
  er_policy :: selection_policy
  er_marking :: marking_id
  er_evaluator :: evaluator_id
  er_ordering :: ordering_id
  er_enabler :: enabler_id
  er_bindings :: "binding list option"
  er_failure :: "enablement_failure option"

definition mk_enablement :: "enablement \<Rightarrow> enablement result" where
  "mk_enablement r =
     (if (er_bindings r = None) = (er_failure r = None)
      then Inl (ValueError ''exactly one of enabled_bindings and failure must be present'')
      else if (case er_bindings r of None \<Rightarrow> False | Some bs \<Rightarrow> \<not> distinct (map binding_key bs))
      then Inl (ValueError ''enabled_bindings must be unique'')
      else if (case er_failure r of None \<Rightarrow> False
               | Some f \<Rightarrow> ef_result (ef_identity f) \<noteq> er_identity r)
      then Inl (ValueError ''failure identity must bind this result identity'')
      else Inr r)"

definition is_success :: "enablement \<Rightarrow> bool" where
  "is_success r \<longleftrightarrow> er_bindings r \<noteq> None"

text \<open>\<open>==\<close> of two results: bindings compare by Python equality, every other field is nominal.\<close>

definition bindings_eq :: "binding list option \<Rightarrow> binding list option \<Rightarrow> bool" where
  "bindings_eq x y =
     (case (x, y) of
        (None, None) \<Rightarrow> True
      | (Some bs, Some cs) \<Rightarrow> list_all2 binding_eq bs cs
      | _ \<Rightarrow> False)"

definition enablement_eq :: "enablement \<Rightarrow> enablement \<Rightarrow> bool" where
  "enablement_eq r s \<longleftrightarrow>
     er_identity r = er_identity s \<and> er_definition r = er_definition s \<and>
     er_policy r = er_policy s \<and> er_marking r = er_marking s \<and>
     er_evaluator r = er_evaluator s \<and> er_ordering r = er_ordering s \<and>
     er_enabler r = er_enabler s \<and> bindings_eq (er_bindings r) (er_bindings s) \<and>
     er_failure r = er_failure s"

lemma enablement_eq_refl [simp]: "enablement_eq r r"
  by (simp add: enablement_eq_def bindings_eq_def list.rel_refl split: option.split)

section \<open>The result identity\<close>

definition issue_state :: "issue \<Rightarrow> json" where
  "issue_state i = JList [JList (map JStr (iss_path i)), JStr (issue_code_text (iss_code i)),
     JList (map JStr (iss_related i)), JStr (iss_message i)]"

definition enablement_payload :: "net \<Rightarrow> marking \<Rightarrow> evaluator_id \<Rightarrow> ordering_id \<Rightarrow> enabler_id \<Rightarrow>
    binding list option \<Rightarrow> json option \<Rightarrow> json" where
  "enablement_payload n m ev ord en bs failure = JObj
     [(''domain'', JStr ''ksdft2effmass.petrinet.colored.enablement-result-identity-v1''),
      (''definition'', rep_net n),
      (''selection_policy'', JStr (policy_text (n_policy n))),
      (''marking'', rep_marking m),
      (''expression'', JStr (evaluator_value ev)),
      (''ordering'', JStr (ordering_value ord)),
      (''enabler'', JStr (enabler_value en)),
      (''bindings'', (case bs of None \<Rightarrow> JNull | Some xs \<Rightarrow> JList (map binding_state xs))),
      (''failure'', (case failure of None \<Rightarrow> JNull | Some f \<Rightarrow> f))]"

definition enablement_identity :: "net \<Rightarrow> marking \<Rightarrow> evaluator_id \<Rightarrow> ordering_id \<Rightarrow> enabler_id \<Rightarrow>
    binding list option \<Rightarrow> json option \<Rightarrow> enablement_id result" where
  "enablement_identity n m ev ord en bs failure =
     mk_enablement_id (PyStr (digest_json (enablement_payload n m ev ord en bs failure)))"

definition enablement_failed :: "net \<Rightarrow> marking \<Rightarrow> evaluator_id \<Rightarrow> ordering_id \<Rightarrow>
    enablement_code \<Rightarrow> string \<Rightarrow> string \<Rightarrow> string \<Rightarrow> string \<Rightarrow> issue list \<Rightarrow> enablement result" where
  "enablement_failed n m ev ord code phase expected observed diagnostic issues =
     (let state = JList [JStr (enablement_code_text code), JStr phase, JStr expected, JStr observed,
                         JStr diagnostic, JList (map issue_state issues)]
      in bindr (enablement_identity n m ev ord enabler_v1 None (Some state)) (\<lambda>i.
         bindr (mk_enablement_failure (EnablementFailureId i) code phase expected observed diagnostic
                  issues enablement_boundary) (\<lambda>f.
         mk_enablement
           \<lparr>er_identity = i, er_definition = n_identity n, er_policy = n_policy n,
            er_marking = mk_identity m, er_evaluator = ev, er_ordering = ord,
            er_enabler = enabler_v1, er_bindings = None, er_failure = Some f\<rparr>)))"

section \<open>Enumerating the bindings of a transition\<close>

type_synonym demand = "place_id \<times> input_mode \<times> token_pattern"
type_synonym choice = "nat \<times> cpn_token"
type_synonym slot = "demand \<times> choice list"

definition place_repr :: "place_id \<Rightarrow> string" where
  "place_repr p = ''ColoredPetriNetPlaceIdentity(value='' @ py_repr (place_value p) @ '')''"

definition transition_repr :: "transition_id \<Rightarrow> string" where
  "transition_repr t = ''ColoredPetriNetTransitionIdentity(value='' @ py_repr (transition_value t) @ '')''"

definition tokens_by_place :: "marking \<Rightarrow> (place_id \<rightharpoonup> cpn_token list)" where
  "tokens_by_place m = dict_of (map (\<lambda>p. (pm_place p, pm_tokens p)) (mk_places m))"

text \<open>The loop over the patterns of a consuming or reading inscription.\<close>

fun pattern_slots :: "place_id \<Rightarrow> input_mode \<Rightarrow> cpn_token list \<Rightarrow> input_pattern list \<Rightarrow> slot list result" where
  "pattern_slots p mode tokens [] = Inr []"
| "pattern_slots p mode tokens (InhibitorPattern ip # ps) = Inl AssertionError"
| "pattern_slots p mode tokens (TokenPattern tp # ps) =
     bindr (pattern_slots p mode tokens ps) (\<lambda>slots.
       Inr (((p, mode, tp),
             filter (\<lambda>(index, token). tok_color token \<in> set (tp_colors tp)) (enumerate 0 tokens)) # slots))"

definition inhibiting :: "cpn_token list \<Rightarrow> input_pattern \<Rightarrow> bool" where
  "inhibiting tokens pat \<longleftrightarrow> list_ex (\<lambda>token. tok_color token \<in> set (pattern_colors pat)) tokens"

text \<open>
  The scan of one transition's input arcs in definition order: \<open>None\<close> when an inhibitor matches,
  which stops the scan.
\<close>

fun scan_arcs :: "(place_id \<rightharpoonup> cpn_token list) \<Rightarrow> arc_definition list \<Rightarrow> slot list \<Rightarrow> slot list option result" where
  "scan_arcs by_place [] slots = Inr (Some slots)"
| "scan_arcs by_place (a # as) slots =
     (case arc_input a of
        None \<Rightarrow> Inl AssertionError
      | Some i \<Rightarrow>
          (case by_place (ad_place a) of
             None \<Rightarrow> Inl (KeyError (place_repr (ad_place a)))
           | Some tokens \<Rightarrow>
               if ii_mode i = Inhibit then
                 (if list_ex (inhibiting tokens) (ii_patterns i) then Inr None
                  else scan_arcs by_place as slots)
               else
                 bindr (pattern_slots (ad_place a) (ii_mode i) tokens (ii_patterns i)) (\<lambda>new.
                   scan_arcs by_place as (slots @ new))))"

text \<open>Reservation of one occurrence per demand; \<open>None\<close> when two demands meet.\<close>

fun reserve :: "(demand \<times> choice) list \<Rightarrow> (place_id \<times> input_mode \<times> nat) list \<Rightarrow>
    (variable_id \<rightharpoonup> cpn_value) \<Rightarrow> (variable_id \<rightharpoonup> cpn_value) option" where
  "reserve [] reserved vals = Some vals"
| "reserve (((p, mode, tp), (index, token)) # rest) reserved vals =
     (if (p, mode, index) \<in> set reserved then None
      else reserve rest ((p, mode, index) # reserved) (vals(tp_variable tp \<mapsto> tok_value token)))"

definition bind_inputs :: "transition_definition \<Rightarrow> (variable_id \<rightharpoonup> cpn_value) \<Rightarrow> binding result" where
  "bind_inputs t vals =
     bindr (mapr (\<lambda>x. case vals x of
                        None \<Rightarrow> Inl (KeyError (variable_repr x))
                      | Some v \<Rightarrow> Inr \<lparr>as_variable = x, as_value = v\<rparr>) (td_inputs t)) (\<lambda>as.
     mk_binding (td_identity t) as)"

text \<open>\<open>enabled.add(binding)\<close>: the first of several equal bindings stays.\<close>

definition set_add :: "binding \<Rightarrow> binding list \<Rightarrow> binding list" where
  "set_add b bs = (if list_ex (binding_eq b) bs then bs else bs @ [b])"

text \<open>A guard that raises \<open>TypeError\<close> ends the enumeration with the transition and the exception.\<close>

type_synonym guard_fault = "transition_id \<times> py_exn"

definition try_choice :: "transition_definition \<Rightarrow> demand list \<Rightarrow> choice list \<Rightarrow> binding list \<Rightarrow>
    (guard_fault + binding list) result" where
  "try_choice t demands selected enabled =
     (case reserve (zip demands selected) [] Map.empty of
        None \<Rightarrow> Inr (Inr enabled)
      | Some vals \<Rightarrow>
          bindr (bind_inputs t vals) (\<lambda>b.
            case evaluate_guard (td_guard t) b of
              Inl (TypeError msg) \<Rightarrow> Inr (Inl (td_identity t, TypeError msg))
            | Inl e \<Rightarrow> Inl e
            | Inr g \<Rightarrow> Inr (Inr (if g then set_add b enabled else enabled))))"

definition transition_arcs :: "net \<Rightarrow> transition_definition \<Rightarrow> arc_definition list" where
  "transition_arcs n t =
     filter (\<lambda>a. ad_transition a = td_identity t \<and> arc_input a \<noteq> None) (n_arcs n)"

definition try_transition :: "net \<Rightarrow> (place_id \<rightharpoonup> cpn_token list) \<Rightarrow> transition_definition \<Rightarrow>
    binding list \<Rightarrow> (guard_fault + binding list) result" where
  "try_transition n by_place t enabled =
     bindr (scan_arcs by_place (transition_arcs n t) []) (\<lambda>scan.
       case scan of
         None \<Rightarrow> Inr (Inr enabled)
       | Some slots \<Rightarrow>
           if list_ex (\<lambda>slot. snd slot = []) slots then Inr (Inr enabled)
           else loop_exit (try_choice t (map fst slots)) (product_lists (map snd slots)) enabled)"

definition enumerate_bindings :: "net \<Rightarrow> marking \<Rightarrow> (guard_fault + binding list) result" where
  "enumerate_bindings n m = loop_exit (try_transition n (tokens_by_place m)) (n_transitions n) []"

section \<open>Canonical order\<close>

definition priority_of :: "net \<Rightarrow> (transition_id \<rightharpoonup> nat)" where
  "priority_of n = dict_of (map (\<lambda>(position, t). (t, position)) (enumerate 0 (n_priority n)))"

definition value_keys :: "binding \<Rightarrow> value_key list" where
  "value_keys b = map (\<lambda>a. value_order_key (as_value a)) (bind_assignments b)"

definition enablement_order_key :: "net \<Rightarrow> binding \<Rightarrow> (nat \<times> value_key list) result" where
  "enablement_order_key n b =
     (case priority_of n (bind_transition b) of
        None \<Rightarrow> Inl (KeyError (transition_repr (bind_transition b)))
      | Some k \<Rightarrow> Inr (k, value_keys b))"

definition order_bindings :: "net \<Rightarrow> binding list \<Rightarrow> binding list result" where
  "order_bindings n bs =
     bindr (mapr (enablement_order_key n) bs) (\<lambda>ks. Inr (map snd (sort_key fst (zip ks bs))))"

section \<open>The enabler\<close>

definition enable_with :: "net \<Rightarrow> marking \<Rightarrow> evaluator_id \<Rightarrow> ordering_id \<Rightarrow> enablement result" where
  "enable_with n m ev ord =
     bindr (validate_definition n) (\<lambda>dis.
       if \<not> is_valid dis then
         enablement_failed n m ev ord EInvalidDefinition ''definition_validation''
           ''a structurally valid colored Petri-net definition''
           ''definition validation returned findings'' ''enablement was not evaluated'' dis
       else
     bindr (validate_marking n m) (\<lambda>mis.
       if \<not> is_valid mis then
         enablement_failed n m ev ord EInvalidMarking ''marking_validation''
           ''a complete marking compatible with the exact definition''
           ''marking validation returned findings'' ''enablement was not evaluated'' mis
       else if ev \<noteq> evaluator_v1 then
         enablement_failed n m ev ord EUnsupportedEvaluator ''expression_evaluator_resolution''
           (evaluator_value evaluator_v1) (evaluator_value ev)
           ''enablement was not evaluated under an unsupported semantic version'' []
       else if ord \<noteq> ordering_v1 then
         enablement_failed n m ev ord EUnsupportedOrdering ''ordering_policy_resolution''
           (ordering_value ordering_v1) (ordering_value ord)
           ''enablement was not evaluated under an unsupported semantic version'' []
       else
     bindr (enumerate_bindings n m) (\<lambda>outcome.
       case outcome of
         Inl (t, exn) \<Rightarrow>
           enablement_failed n m ev ord EGuardFailed ''guard_evaluation''
             ''a total well-typed guard for every feasible binding''
             (''guard failed for transition '' @ transition_value t) (exn_text exn) []
       | Inr enabled \<Rightarrow>
           bindr (order_bindings n enabled) (\<lambda>ordered.
           bindr (enablement_identity n m ev ord enabler_v1 (Some ordered) None) (\<lambda>i.
             mk_enablement
               \<lparr>er_identity = i, er_definition = n_identity n, er_policy = n_policy n,
                er_marking = mk_identity m, er_evaluator = ev, er_ordering = ord,
                er_enabler = enabler_v1, er_bindings = Some ordered, er_failure = None\<rparr>)))))"

text \<open>The call with the default semantic versions.\<close>

definition enable :: "net \<Rightarrow> marking \<Rightarrow> enablement result" where
  "enable n m = enable_with n m evaluator_v1 ordering_v1"

end
