(* ===== verification/Cpn_Selection.thy ===== *)
theory Cpn_Selection
  imports Cpn_Enablement
begin

text \<open>
  \<open>petrinet/colored/selection.py\<close>: selection directives, the closed selection result and the
  selector, which takes the first enabled binding or, where the definition's policy admits it,
  the binding a directive names.
\<close>

section \<open>Identities and directives\<close>

datatype directive_id = DirectiveId (directive_value: string)
datatype selection_id = SelectionId (selection_value: string)
datatype selector_id = SelectorId (selector_value: string)

definition mk_directive_id :: "py_object \<Rightarrow> directive_id result" where
  "mk_directive_id = digest_identity ''selection directive identity'' DirectiveId"

definition mk_selection_id :: "py_object \<Rightarrow> selection_id result" where
  "mk_selection_id = digest_identity ''selection result identity'' SelectionId"

definition mk_selector_id :: "py_object \<Rightarrow> selector_id result" where
  "mk_selector_id = nominal ''binding selector identity'' SelectorId"

definition selector_v1 :: selector_id where
  "selector_v1 = SelectorId ''colored-petri-net-binding-selector-v1''"

record directive =
  sd_enablement :: enablement_id
  sd_binding :: binding
  sd_identity :: directive_id

definition directive_payload :: "enablement_id \<Rightarrow> binding \<Rightarrow> json" where
  "directive_payload e b = JObj
     [(''domain'', JStr ''ksdft2effmass.petrinet.colored.selection-directive-identity-v1''),
      (''enablement_result'', JStr (enablement_value e)),
      (''binding'', binding_state b)]"

definition mk_directive :: "enablement_id \<Rightarrow> binding \<Rightarrow> directive result" where
  "mk_directive e b =
     bindr (mk_directive_id (PyStr (digest_json (directive_payload e b)))) (\<lambda>i.
       Inr \<lparr>sd_enablement = e, sd_binding = b, sd_identity = i\<rparr>)"

text \<open>\<open>==\<close> of two directives.\<close>

definition directive_eq :: "directive \<Rightarrow> directive \<Rightarrow> bool" where
  "directive_eq d e \<longleftrightarrow> sd_enablement d = sd_enablement e \<and> binding_eq (sd_binding d) (sd_binding e) \<and>
     sd_identity d = sd_identity e"

section \<open>Results\<close>

datatype selection_outcome = Selected | Empty | NoMatch | SelectionFailed

fun selection_outcome_text :: "selection_outcome \<Rightarrow> string" where
  "selection_outcome_text Selected = ''selected''"
| "selection_outcome_text Empty = ''empty''"
| "selection_outcome_text NoMatch = ''no_match''"
| "selection_outcome_text SelectionFailed = ''failure''"

datatype selection_code =
    EnablementFailed | DefinitionMismatch | DirectedProhibited | DirectiveEnablementMismatch

fun selection_code_text :: "selection_code \<Rightarrow> string" where
  "selection_code_text EnablementFailed = ''enablement_failed''"
| "selection_code_text DefinitionMismatch = ''definition_mismatch''"
| "selection_code_text DirectedProhibited = ''directed_selection_prohibited''"
| "selection_code_text DirectiveEnablementMismatch = ''directive_enablement_mismatch''"

record selection =
  sr_enablement :: enablement_id
  sr_selector :: selector_id
  sr_ordering :: ordering_id
  sr_outcome :: selection_outcome
  sr_binding :: "binding option"
  sr_directive :: "directive option"
  sr_code :: "selection_code option"
  sr_identity :: selection_id

fun selection_shape :: "selection_outcome \<Rightarrow> binding option \<Rightarrow> directive option \<Rightarrow> selection_code option \<Rightarrow> bool" where
  "selection_shape Selected b d c = (b \<noteq> None \<and> c = None)"
| "selection_shape Empty b d c = (b = None \<and> d = None \<and> c = None)"
| "selection_shape NoMatch b d c = (b = None \<and> d \<noteq> None \<and> c = None)"
| "selection_shape SelectionFailed b d c = (b = None \<and> c \<noteq> None)"

definition optional_binding_eq :: "binding option \<Rightarrow> binding option \<Rightarrow> bool" where
  "optional_binding_eq x y =
     (case (x, y) of
        (None, None) \<Rightarrow> True
      | (Some a, Some b) \<Rightarrow> binding_eq a b
      | _ \<Rightarrow> False)"

definition directive_matches :: "directive \<Rightarrow> enablement_id \<Rightarrow> binding option \<Rightarrow> bool" where
  "directive_matches d e b \<longleftrightarrow> sd_enablement d = e \<and> optional_binding_eq (Some (sd_binding d)) b"

definition selection_payload :: "enablement_id \<Rightarrow> selector_id \<Rightarrow> ordering_id \<Rightarrow> selection_outcome \<Rightarrow>
    binding option \<Rightarrow> directive option \<Rightarrow> selection_code option \<Rightarrow> json" where
  "selection_payload e s ord outcome b d c = JObj
     [(''domain'', JStr ''ksdft2effmass.petrinet.colored.selection-result-identity-v1''),
      (''enablement_result'', JStr (enablement_value e)),
      (''selector'', JStr (selector_value s)),
      (''ordering'', JStr (ordering_value ord)),
      (''outcome'', JStr (selection_outcome_text outcome)),
      (''binding'', (case b of None \<Rightarrow> JNull | Some x \<Rightarrow> binding_state x)),
      (''directive'', (case d of None \<Rightarrow> JNull | Some x \<Rightarrow> JStr (directive_value (sd_identity x)))),
      (''failure'', (case c of None \<Rightarrow> JNull | Some x \<Rightarrow> JStr (selection_code_text x)))]"

definition mk_selection :: "enablement_id \<Rightarrow> selector_id \<Rightarrow> ordering_id \<Rightarrow> selection_outcome \<Rightarrow>
    binding option \<Rightarrow> directive option \<Rightarrow> selection_code option \<Rightarrow> selection result" where
  "mk_selection e s ord outcome b d c =
     (if \<not> selection_shape outcome b d c
      then Inl (ValueError ''selection fields do not match the outcome variant'')
      else if outcome = Selected \<and>
        (case d of None \<Rightarrow> False | Some x \<Rightarrow> \<not> directive_matches x e b)
      then Inl (ValueError ''selected directed result must match its exact directive'')
      else if outcome = NoMatch \<and>
        (case d of None \<Rightarrow> True | Some x \<Rightarrow> sd_enablement x \<noteq> e)
      then Inl (ValueError ''no-match result requires a current exact directive'')
      else
        bindr (mk_selection_id (PyStr (digest_json (selection_payload e s ord outcome b d c)))) (\<lambda>i.
          Inr \<lparr>sr_enablement = e, sr_selector = s, sr_ordering = ord, sr_outcome = outcome,
               sr_binding = b, sr_directive = d, sr_code = c, sr_identity = i\<rparr>))"

definition directive_identity :: "selection \<Rightarrow> directive_id option" where
  "directive_identity s = (case sr_directive s of None \<Rightarrow> None | Some d \<Rightarrow> Some (sd_identity d))"

text \<open>\<open>==\<close> of two selection results.\<close>

definition optional_directive_eq :: "directive option \<Rightarrow> directive option \<Rightarrow> bool" where
  "optional_directive_eq x y =
     (case (x, y) of
        (None, None) \<Rightarrow> True
      | (Some a, Some b) \<Rightarrow> directive_eq a b
      | _ \<Rightarrow> False)"

definition selection_eq :: "selection \<Rightarrow> selection \<Rightarrow> bool" where
  "selection_eq s t \<longleftrightarrow>
     sr_enablement s = sr_enablement t \<and> sr_selector s = sr_selector t \<and>
     sr_ordering s = sr_ordering t \<and> sr_outcome s = sr_outcome t \<and>
     optional_binding_eq (sr_binding s) (sr_binding t) \<and>
     optional_directive_eq (sr_directive s) (sr_directive t) \<and>
     sr_code s = sr_code t \<and> sr_identity s = sr_identity t"

lemma selection_eq_refl [simp]: "selection_eq s s"
  by (simp add: selection_eq_def optional_binding_eq_def optional_directive_eq_def directive_eq_def
      split: option.split)

section \<open>The selector\<close>

definition select :: "net \<Rightarrow> enablement \<Rightarrow> directive option \<Rightarrow> selection result" where
  "select n r d =
     (let result = mk_selection (er_identity r) selector_v1 (er_ordering r) in
      if n_identity n \<noteq> er_definition r \<or> n_policy n \<noteq> er_policy r
      then result SelectionFailed None d (Some DefinitionMismatch)
      else case er_bindings r of
        None \<Rightarrow> result SelectionFailed None d (Some EnablementFailed)
      | Some bs \<Rightarrow>
          (case d of
             None \<Rightarrow>
               (case bs of
                  [] \<Rightarrow> result Empty None None None
                | b # _ \<Rightarrow> result Selected (Some b) None None)
           | Some x \<Rightarrow>
               if n_policy n \<noteq> DirectedAllowed
               then result SelectionFailed None d (Some DirectedProhibited)
               else if sd_enablement x \<noteq> er_identity r
               then result SelectionFailed None d (Some DirectiveEnablementMismatch)
               else if \<not> list_ex (binding_eq (sd_binding x)) bs
               then result NoMatch None d None
               else result Selected (Some (sd_binding x)) d None))"

section \<open>The selector's result\<close>

lemma mk_selection_id_ok: "\<exists>i. mk_selection_id (PyStr (digest_json j)) = Inr i"
  by (simp add: mk_selection_id_def)

definition selection_legal :: "enablement_id \<Rightarrow> selection_outcome \<Rightarrow> binding option \<Rightarrow> directive option \<Rightarrow>
    selection_code option \<Rightarrow> bool" where
  "selection_legal e outcome b d c \<longleftrightarrow> selection_shape outcome b d c \<and>
     (outcome = Selected \<longrightarrow> (\<forall>x. d = Some x \<longrightarrow> directive_matches x e b)) \<and>
     (outcome = NoMatch \<longrightarrow> (\<exists>x. d = Some x \<and> sd_enablement x = e))"

lemma mk_selection_Inr:
  "mk_selection e s ord outcome b d c = Inr r \<longleftrightarrow>
     selection_legal e outcome b d c \<and>
     r = \<lparr>sr_enablement = e, sr_selector = s, sr_ordering = ord, sr_outcome = outcome,
          sr_binding = b, sr_directive = d, sr_code = c,
          sr_identity = SelectionId (digest_json (selection_payload e s ord outcome b d c))\<rparr>"
  by (auto simp: mk_selection_def selection_legal_def mk_selection_id_def split: option.splits)

text \<open>What the selector decides, as one table.\<close>

definition selection_choice :: "net \<Rightarrow> enablement \<Rightarrow> directive option \<Rightarrow>
    selection_outcome \<times> binding option \<times> directive option \<times> selection_code option" where
  "selection_choice n r d =
     (if n_identity n \<noteq> er_definition r \<or> n_policy n \<noteq> er_policy r
      then (SelectionFailed, None, d, Some DefinitionMismatch)
      else case er_bindings r of
        None \<Rightarrow> (SelectionFailed, None, d, Some EnablementFailed)
      | Some bs \<Rightarrow>
          (case d of
             None \<Rightarrow> (case bs of [] \<Rightarrow> (Empty, None, None, None) | b # _ \<Rightarrow> (Selected, Some b, None, None))
           | Some x \<Rightarrow>
               if n_policy n \<noteq> DirectedAllowed then (SelectionFailed, None, d, Some DirectedProhibited)
               else if sd_enablement x \<noteq> er_identity r
               then (SelectionFailed, None, d, Some DirectiveEnablementMismatch)
               else if \<not> list_ex (binding_eq (sd_binding x)) bs then (NoMatch, None, d, None)
               else (Selected, Some (sd_binding x), d, None)))"

lemma select_choice:
  "select n r d = (case selection_choice n r d of (outcome, b, d', c) \<Rightarrow>
     mk_selection (er_identity r) selector_v1 (er_ordering r) outcome b d' c)"
  by (simp add: select_def selection_choice_def Let_def split: option.split list.split)

lemma selection_choice_legal:
  "selection_choice n r d = (outcome, b, d', c) \<Longrightarrow> selection_legal (er_identity r) outcome b d' c"
  by (auto simp: selection_choice_def selection_legal_def directive_matches_def optional_binding_eq_def
      split: if_splits option.splits list.splits)

lemma select_total: "\<exists>s. select n r d = Inr s"
proof -
  obtain outcome b d' c where ch: "selection_choice n r d = (outcome, b, d', c)" by (metis surj_pair)
  from selection_choice_legal [OF ch] show ?thesis
    by (simp add: select_choice ch mk_selection_Inr)
qed

lemma select_Inr:
  "select n r d = Inr s \<Longrightarrow>
   selection_choice n r d = (sr_outcome s, sr_binding s, sr_directive s, sr_code s) \<and>
   sr_enablement s = er_identity r \<and> sr_ordering s = er_ordering r \<and> sr_selector s = selector_v1"
  by (cases "selection_choice n r d") (auto simp: select_choice mk_selection_Inr)

end
