(* ===== verification/Cpn_Firing_Input.thy ===== *)
theory Cpn_Firing_Input
  imports Cpn_Selection
begin

text \<open>
  \<open>petrinet/colored/firing.py\<close>, first part: the derivation input of a firing attempt, with the
  represented state of the enablement and selection results it carries, and the identities,
  audit entries, failure and result of firing.
\<close>

section \<open>Firing input\<close>

record firing_input =
  fi_net :: net
  fi_transition :: transition_id
  fi_marking :: marking
  fi_enablement :: enablement
  fi_selection :: selection
  fi_binding :: binding
  fi_directive :: "directive_id option"
  fi_external :: binding

section \<open>Represented state\<close>

definition rep_enablement_id :: "enablement_id \<Rightarrow> json" where
  "rep_enablement_id i = rep_identity ''EnablementResultIdentity'' (enablement_value i)"

definition rep_evaluator_id :: "evaluator_id \<Rightarrow> json" where
  "rep_evaluator_id i = rep_identity ''ExpressionEvaluatorIdentity'' (evaluator_value i)"

definition rep_ordering_id :: "ordering_id \<Rightarrow> json" where
  "rep_ordering_id i = rep_identity ''OrderingPolicyIdentity'' (ordering_value i)"

definition rep_enabler_id :: "enabler_id \<Rightarrow> json" where
  "rep_enabler_id i = rep_identity ''TransitionEnablerIdentity'' (enabler_value i)"

definition rep_issue :: "issue \<Rightarrow> json" where
  "rep_issue i = rep_object ''ValidationIssue''
     [(''code'', rep_enum ''ValidationIssueCode'' (issue_code_text (iss_code i))),
      (''path'', rep_tuple JStr (iss_path i)),
      (''related_identities'', rep_tuple JStr (iss_related i)),
      (''message'', JStr (iss_message i))]"

definition rep_enablement_failure :: "enablement_failure \<Rightarrow> json" where
  "rep_enablement_failure f = rep_object ''EnablementFailure''
     [(''identity'', rep_object ''EnablementFailureIdentity''
         [(''result_identity'', rep_enablement_id (ef_result (ef_identity f)))]),
      (''code'', rep_enum ''EnablementFailureCode'' (enablement_code_text (ef_code f))),
      (''operation_phase'', JStr (ef_phase f)),
      (''expected_condition'', JStr (ef_expected f)),
      (''observed_condition'', JStr (ef_observed f)),
      (''diagnostic'', JStr (ef_diagnostic f)),
      (''validation_issues'', rep_tuple rep_issue (ef_issues f)),
      (''claim_boundary'', rep_tuple JStr (ef_boundary f))]"

definition rep_enablement :: "enablement \<Rightarrow> json" where
  "rep_enablement r = rep_object ''EnablementResult''
     [(''identity'', rep_enablement_id (er_identity r)),
      (''definition_identity'', rep_definition_id (er_definition r)),
      (''selection_policy'', rep_policy (er_policy r)),
      (''marking_identity'', rep_marking_id (er_marking r)),
      (''expression_evaluator_identity'', rep_evaluator_id (er_evaluator r)),
      (''ordering_policy_identity'', rep_ordering_id (er_ordering r)),
      (''transition_enabler_identity'', rep_enabler_id (er_enabler r)),
      (''enabled_bindings'', rep_optional (rep_tuple rep_binding) (er_bindings r)),
      (''failure'', rep_optional rep_enablement_failure (er_failure r))]"

definition rep_directive_id :: "directive_id \<Rightarrow> json" where
  "rep_directive_id i = rep_identity ''SelectionDirectiveIdentity'' (directive_value i)"

definition rep_directive :: "directive \<Rightarrow> json" where
  "rep_directive d = rep_object ''SelectionDirective''
     [(''enablement_result_identity'', rep_enablement_id (sd_enablement d)),
      (''binding'', rep_binding (sd_binding d)),
      (''identity'', rep_directive_id (sd_identity d))]"

definition rep_selection_code :: "selection_code \<Rightarrow> json" where
  "rep_selection_code c = rep_enum ''SelectionFailureCode'' (selection_code_text c)"

definition rep_selection :: "selection \<Rightarrow> json" where
  "rep_selection s = rep_object ''SelectionResult''
     [(''enablement_result_identity'', rep_enablement_id (sr_enablement s)),
      (''selector_identity'', rep_identity ''BindingSelectorIdentity'' (selector_value (sr_selector s))),
      (''ordering_policy_identity'', rep_ordering_id (sr_ordering s)),
      (''outcome'', rep_enum ''SelectionOutcomeKind'' (selection_outcome_text (sr_outcome s))),
      (''selected_binding'', rep_optional rep_binding (sr_binding s)),
      (''directive'', rep_optional rep_directive (sr_directive s)),
      (''failure_code'', rep_optional rep_selection_code (sr_code s)),
      (''identity'', rep_identity ''SelectionResultIdentity'' (selection_value (sr_identity s)))]"

definition rep_firing_input :: "firing_input \<Rightarrow> json" where
  "rep_firing_input f = rep_object ''FiringInput''
     [(''definition'', rep_net (fi_net f)),
      (''transition_identity'', rep_transition_id (fi_transition f)),
      (''predecessor_marking'', rep_marking (fi_marking f)),
      (''enablement_result'', rep_enablement (fi_enablement f)),
      (''selection_result'', rep_selection (fi_selection f)),
      (''selected_binding'', rep_binding (fi_binding f)),
      (''directive_identity'', rep_optional rep_directive_id (fi_directive f)),
      (''external_output_binding'', rep_binding (fi_external f))]"

text \<open>The representations satisfy the contract of \<open>Cpn_Represent\<close>.\<close>

lemma jsort_strings: "jsort (rep_tuple JStr ss) = jsort (rep_tuple JStr ts) \<longleftrightarrow> ss = ts"
proof -
  have "inj JStr" by (simp add: inj_def)
  then show ?thesis by (simp add: rep_tuple_def comp_def inj_map_eq_map)
qed

interpretation rep_enablement_id: faithful rep_enablement_id
  by unfold_locales (auto simp: rep_enablement_id_def rep_identity_def rep_shapes enablement_id.expand)

interpretation rep_evaluator_id: faithful rep_evaluator_id
  by unfold_locales (auto simp: rep_evaluator_id_def rep_identity_def rep_shapes evaluator_id.expand)

interpretation rep_ordering_id: faithful rep_ordering_id
  by unfold_locales (auto simp: rep_ordering_id_def rep_identity_def rep_shapes ordering_id.expand)

interpretation rep_enabler_id: faithful rep_enabler_id
  by unfold_locales (auto simp: rep_enabler_id_def rep_identity_def rep_shapes enabler_id.expand)

interpretation rep_directive_id: faithful rep_directive_id
  by unfold_locales (auto simp: rep_directive_id_def rep_identity_def rep_shapes directive_id.expand)

lemma issue_code_text_inj: "issue_code_text c = issue_code_text d \<longleftrightarrow> c = d"
  by (cases c; cases d) simp_all

lemma enablement_code_text_inj: "enablement_code_text c = enablement_code_text d \<longleftrightarrow> c = d"
  by (cases c; cases d) simp_all

lemma selection_outcome_text_inj: "selection_outcome_text c = selection_outcome_text d \<longleftrightarrow> c = d"
  by (cases c; cases d) simp_all

lemma selection_code_text_inj: "selection_code_text c = selection_code_text d \<longleftrightarrow> c = d"
  by (cases c; cases d) simp_all

interpretation rep_issue: faithful rep_issue
  by unfold_locales (simp_all add: rep_issue_def rep_shapes issue_code_text_inj jsort_strings)

interpretation rep_enablement_failure: faithful rep_enablement_failure
  by unfold_locales
    (auto simp: rep_enablement_failure_def rep_shapes rep_enablement_id.eq_iff enablement_code_text_inj
      rep_issue.tuple_eq_iff jsort_strings enablement_failure_id.expand)

interpretation rep_bindings: faithful "rep_tuple rep_binding"
  by unfold_locales (simp_all add: rep_binding.tuple_eq_iff, simp add: rep_tuple_def)

interpretation rep_enablement: faithful rep_enablement
  by unfold_locales
    (simp_all add: rep_enablement_def rep_shapes rep_identities_eq rep_enablement_id.eq_iff
      rep_policy.eq_iff rep_evaluator_id.eq_iff rep_ordering_id.eq_iff rep_enabler_id.eq_iff
      rep_bindings.optional_eq_iff rep_enablement_failure.optional_eq_iff)

interpretation rep_directive: faithful rep_directive
  by unfold_locales
    (simp_all add: rep_directive_def rep_shapes rep_enablement_id.eq_iff rep_binding.eq_iff
      rep_directive_id.eq_iff)

interpretation rep_selection_code: faithful rep_selection_code
  by unfold_locales (simp_all add: rep_selection_code_def rep_shapes selection_code_text_inj)

interpretation rep_selection: faithful rep_selection
  by unfold_locales
    (simp_all add: rep_selection_def rep_identity_def rep_shapes rep_enablement_id.eq_iff
      rep_ordering_id.eq_iff selection_outcome_text_inj rep_binding.optional_eq_iff
      rep_directive.optional_eq_iff rep_selection_code.optional_eq_iff selector_id.expand
      selection_id.expand)

interpretation rep_firing_input: faithful rep_firing_input
  by unfold_locales
    (simp_all add: rep_firing_input_def rep_shapes rep_net.eq_iff rep_identities_eq rep_marking.eq_iff
      rep_enablement.eq_iff rep_selection.eq_iff rep_binding.eq_iff rep_directive_id.optional_eq_iff)

section \<open>Digest payloads\<close>

lemma assignment_state_inj: "jsort (assignment_state a) = jsort (assignment_state b) \<Longrightarrow> a = b"
proof -
  assume eq: "jsort (assignment_state a) = jsort (assignment_state b)"
  note l = jsort_lookup [OF eq [unfolded assignment_state_def]]
  have "JStr (variable_value (as_variable a)) = JStr (variable_value (as_variable b))"
    using l [of "''variable''"] by simp
  moreover have "JStr (kind_text (kind_of (as_value a))) = JStr (kind_text (kind_of (as_value b)))"
    using l [of "''kind''"] by simp
  moreover have "jsort (active_state (as_value a)) = jsort (active_state (as_value b))"
    using l [of "''value''"] by simp
  ultimately show "a = b" by (simp add: active_state_inj variable_id.expand)
qed

lemma binding_state_inj: "jsort (binding_state a) = jsort (binding_state b) \<Longrightarrow> a = b"
proof -
  assume eq: "jsort (binding_state a) = jsort (binding_state b)"
  note l = jsort_lookup [OF eq [unfolded binding_state_def]]
  have "bind_transition a = bind_transition b"
    using l [of "''transition''"] by (simp add: transition_id.expand)
  moreover have "map (jsort \<circ> assignment_state) (bind_assignments a) = map (jsort \<circ> assignment_state) (bind_assignments b)"
    using l [of "''assignments''"] by simp
  then have "bind_assignments a = bind_assignments b"
    by (rule map_inj_set) (simp add: assignment_state_inj)
  ultimately show "a = b" by simp
qed

lemma enablement_payload_inj:
  assumes eq: "jsort (enablement_payload n m ev ord en bs fl) = jsort (enablement_payload n' m' ev' ord' en' bs' fl')"
  shows "n = n' \<and> m = m' \<and> ev = ev' \<and> ord = ord' \<and> en = en' \<and> bs = bs'"
proof -
  note l = jsort_lookup [OF eq [unfolded enablement_payload_def]]
  have "n = n'" using l [of "''definition''"] by (simp add: rep_net.eq_iff)
  moreover have "m = m'" using l [of "''marking''"] by (simp add: rep_marking.eq_iff)
  moreover have "ev = ev'" using l [of "''expression''"] by (simp add: evaluator_id.expand)
  moreover have "ord = ord'" using l [of "''ordering''"] by (simp add: ordering_id.expand)
  moreover have "en = en'" using l [of "''enabler''"] by (simp add: enabler_id.expand)
  moreover have "bs = bs'"
  proof -
    have "jsort (case bs of None \<Rightarrow> JNull | Some xs \<Rightarrow> JList (map binding_state xs)) =
        jsort (case bs' of None \<Rightarrow> JNull | Some xs \<Rightarrow> JList (map binding_state xs))"
      using l [of "''bindings''"] by simp
    moreover have "xs = ys" if "map (jsort \<circ> binding_state) xs = map (jsort \<circ> binding_state) ys" for xs ys
      using that by (rule map_inj_set) (simp add: binding_state_inj)
    ultimately show ?thesis by (cases bs; cases bs') simp_all
  qed
  ultimately show ?thesis by simp
qed

section \<open>Identities and audit entries\<close>

datatype firing_id = FiringId (firing_value: string)
datatype firer_id = FirerId (firer_value: string)

definition mk_firing_id :: "py_object \<Rightarrow> firing_id result" where
  "mk_firing_id = digest_identity ''firing result identity'' FiringId"

definition mk_firer_id :: "py_object \<Rightarrow> firer_id result" where
  "mk_firer_id = nominal ''transition firer identity'' FirerId"

definition firer_v1 :: firer_id where
  "firer_v1 = FirerId ''colored-petri-net-transition-firer-v1''"

record token_occurrence =
  oc_arc :: arc_id
  oc_place :: place_id
  oc_pattern :: int
  oc_ordinal :: int
  oc_token :: cpn_token

definition mk_occurrence :: "arc_id \<Rightarrow> place_id \<Rightarrow> int \<Rightarrow> int \<Rightarrow> cpn_token \<Rightarrow> token_occurrence result" where
  "mk_occurrence a p pattern ordinal tok =
     (if pattern < 0 then Inl (ValueError ''pattern_index must be nonnegative'')
      else if ordinal < 0 then Inl (ValueError ''occurrence_ordinal must be nonnegative'')
      else Inr \<lparr>oc_arc = a, oc_place = p, oc_pattern = pattern, oc_ordinal = ordinal, oc_token = tok\<rparr>)"

record inhibitor_evaluation =
  iv_arc :: arc_id
  iv_place :: place_id
  iv_pattern :: int
  iv_count :: int

definition mk_inhibitor_evaluation :: "arc_id \<Rightarrow> place_id \<Rightarrow> int \<Rightarrow> int \<Rightarrow> inhibitor_evaluation result" where
  "mk_inhibitor_evaluation a p pattern matching =
     (if pattern < 0 then Inl (ValueError ''pattern_index must be nonnegative'')
      else if matching < 0 then Inl (ValueError ''matching_count must be nonnegative'')
      else Inr \<lparr>iv_arc = a, iv_place = p, iv_pattern = pattern, iv_count = matching\<rparr>)"

record produced_token =
  pt_arc :: arc_id
  pt_place :: place_id
  pt_index :: int
  pt_token :: cpn_token

definition mk_produced :: "arc_id \<Rightarrow> place_id \<Rightarrow> int \<Rightarrow> cpn_token \<Rightarrow> produced_token result" where
  "mk_produced a p index tok =
     (if index < 0 then Inl (ValueError ''template_index must be nonnegative'')
      else Inr \<lparr>pt_arc = a, pt_place = p, pt_index = index, pt_token = tok\<rparr>)"

section \<open>Failures and results\<close>

datatype firing_code =
    FInvalidDefinition | FInvalidPredecessor | FEnablementMismatch | FSelectionMismatch
  | FDirectiveMismatch | FTransitionOrBindingMismatch | FExternalMismatch
  | FReconstructionFailed | FOutputFailed | FProducedInvalid | FIdentityCollision

fun firing_code_text :: "firing_code \<Rightarrow> string" where
  "firing_code_text FInvalidDefinition = ''invalid_definition''"
| "firing_code_text FInvalidPredecessor = ''invalid_predecessor_marking''"
| "firing_code_text FEnablementMismatch = ''enablement_mismatch''"
| "firing_code_text FSelectionMismatch = ''selection_mismatch''"
| "firing_code_text FDirectiveMismatch = ''directive_mismatch''"
| "firing_code_text FTransitionOrBindingMismatch = ''transition_or_binding_mismatch''"
| "firing_code_text FExternalMismatch = ''external_output_binding_mismatch''"
| "firing_code_text FReconstructionFailed = ''input_occurrence_reconstruction_failed''"
| "firing_code_text FOutputFailed = ''output_evaluation_failed''"
| "firing_code_text FProducedInvalid = ''produced_token_invalid''"
| "firing_code_text FIdentityCollision = ''token_identity_collision''"

datatype firing_failure_id = FiringFailureId (ff_result: firing_id)

record firing_failure =
  ff_identity :: firing_failure_id
  ff_code :: firing_code
  ff_phase :: string
  ff_expected :: string
  ff_observed :: string
  ff_diagnostic :: string
  ff_issues :: "issue list"
  ff_boundary :: "string list"

definition firing_boundary :: "string list" where
  "firing_boundary =
     [''pure generic firing only'', ''no external effect or authority'', ''no scientific acceptance'']"

definition mk_firing_failure :: "firing_failure_id \<Rightarrow> firing_code \<Rightarrow> string \<Rightarrow> string \<Rightarrow>
    string \<Rightarrow> string \<Rightarrow> issue list \<Rightarrow> string list \<Rightarrow> firing_failure result" where
  "mk_firing_failure i code phase expected observed diagnostic issues boundary =
     (if phase = [] then Inl (ValueError ''operation_phase must not be empty'')
      else if expected = [] then Inl (ValueError ''expected_condition must not be empty'')
      else if observed = [] then Inl (ValueError ''observed_condition must not be empty'')
      else if diagnostic = [] then Inl (ValueError ''diagnostic must not be empty'')
      else if boundary = [] \<or> list_ex (\<lambda>s. s = []) boundary
      then Inl (ValueError ''claim_boundary must contain nonempty strings'')
      else Inr \<lparr>ff_identity = i, ff_code = code, ff_phase = phase, ff_expected = expected,
             ff_observed = observed, ff_diagnostic = diagnostic, ff_issues = issues,
             ff_boundary = boundary\<rparr>)"

record firing_audit =
  fa_consumed :: "token_occurrence list"
  fa_read :: "token_occurrence list"
  fa_inhibitors :: "inhibitor_evaluation list"
  fa_produced :: "produced_token list"
  fa_firer :: firer_id

datatype firing_outcome = FiringSuccess | FiringFailure

record firing =
  fr_identity :: firing_id
  fr_input :: firing_input
  fr_outcome :: firing_outcome
  fr_successor :: "marking option"
  fr_audit :: "firing_audit option"
  fr_failure :: "firing_failure option"

definition mk_firing :: "firing \<Rightarrow> firing result" where
  "mk_firing r =
     (if \<not> (fr_outcome r = FiringSuccess \<and> fr_successor r \<noteq> None \<and> fr_audit r \<noteq> None \<and>
               fr_failure r = None \<or>
             fr_outcome r = FiringFailure \<and> fr_successor r = None \<and> fr_audit r = None \<and>
               fr_failure r \<noteq> None)
      then Inl (ValueError ''firing fields do not match the outcome variant'')
      else if (case fr_failure r of None \<Rightarrow> False
               | Some f \<Rightarrow> ff_result (ff_identity f) \<noteq> fr_identity r)
      then Inl (ValueError ''failure identity must bind this result identity'')
      else Inr r)"

end
