(* ===== verification/Cpn_Firing.thy ===== *)
theory Cpn_Firing
  imports Cpn_Firing_Input
begin

text \<open>
  \<open>petrinet/colored/firing.py\<close>, second part: the firer.  It replays validation, enablement and
  selection, reconstructs the least feasible token occurrences of the selected binding,
  evaluates the output templates, checks token identities, and builds and validates the
  successor marking.
\<close>

section \<open>Reconstruction of token occurrences\<close>

type_synonym input_demand = "arc_definition \<times> input_mode \<times> nat \<times> token_pattern"
type_synonym input_slot = "input_demand \<times> choice list"

fun reconstruct_patterns :: "(variable_id \<rightharpoonup> cpn_value) \<Rightarrow> arc_definition \<Rightarrow> input_mode \<Rightarrow>
    cpn_token list \<Rightarrow> (nat \<times> input_pattern) list \<Rightarrow> input_slot list result" where
  "reconstruct_patterns vals a mode tokens [] = Inr []"
| "reconstruct_patterns vals a mode tokens ((k, InhibitorPattern ip) # ps) = Inl AssertionError"
| "reconstruct_patterns vals a mode tokens ((k, TokenPattern tp) # ps) =
     (case vals (tp_variable tp) of
        None \<Rightarrow> Inl (KeyError (variable_repr (tp_variable tp)))
      | Some expected \<Rightarrow>
          bindr (reconstruct_patterns vals a mode tokens ps) (\<lambda>slots.
            Inr (((a, mode, k, tp),
                  filter (\<lambda>(ordinal, token). tok_color token \<in> set (tp_colors tp) \<and>
                            value_eq (tok_value token) expected) (enumerate 0 tokens)) # slots)))"

text \<open>The audited inhibitors of one arc; \<open>None\<close> at the first that matches.\<close>

fun audit_inhibitors :: "arc_definition \<Rightarrow> cpn_token list \<Rightarrow> (nat \<times> input_pattern) list \<Rightarrow>
    inhibitor_evaluation list \<Rightarrow> inhibitor_evaluation list option result" where
  "audit_inhibitors a tokens [] audited = Inr (Some audited)"
| "audit_inhibitors a tokens ((k, pat) # ps) audited =
     (let matching = length (filter (\<lambda>token. tok_color token \<in> set (pattern_colors pat)) tokens) in
      bindr (mk_inhibitor_evaluation (ad_identity a) (ad_place a) (int k) (int matching)) (\<lambda>e.
        if matching \<noteq> 0 then Inr None else audit_inhibitors a tokens ps (audited @ [e])))"

fun reconstruct_scan :: "(place_id \<rightharpoonup> cpn_token list) \<Rightarrow> (variable_id \<rightharpoonup> cpn_value) \<Rightarrow>
    arc_definition list \<Rightarrow> input_slot list \<Rightarrow> inhibitor_evaluation list \<Rightarrow>
    (input_slot list \<times> inhibitor_evaluation list) option result" where
  "reconstruct_scan by_place vals [] slots audited = Inr (Some (slots, audited))"
| "reconstruct_scan by_place vals (a # as) slots audited =
     (case arc_input a of
        None \<Rightarrow> Inl AssertionError
      | Some i \<Rightarrow>
          (case by_place (ad_place a) of
             None \<Rightarrow> Inl (KeyError (place_repr (ad_place a)))
           | Some tokens \<Rightarrow>
               if ii_mode i = Inhibit then
                 bindr (audit_inhibitors a tokens (enumerate 0 (ii_patterns i)) audited) (\<lambda>r.
                   case r of None \<Rightarrow> Inr None | Some audited' \<Rightarrow> reconstruct_scan by_place vals as slots audited')
               else
                 bindr (reconstruct_patterns vals a (ii_mode i) tokens (enumerate 0 (ii_patterns i))) (\<lambda>new.
                   reconstruct_scan by_place vals as (slots @ new) audited)))"

text \<open>One candidate assignment: \<open>None\<close> when two demands meet at one occurrence.\<close>

fun place_occurrences :: "(input_demand \<times> choice) list \<Rightarrow> (place_id \<times> input_mode \<times> nat) list \<Rightarrow>
    token_occurrence list \<Rightarrow> token_occurrence list \<Rightarrow>
    (token_occurrence list \<times> token_occurrence list) option result" where
  "place_occurrences [] reserved consumed rd = Inr (Some (consumed, rd))"
| "place_occurrences (((a, mode, k, tp), (ordinal, token)) # rest) reserved consumed rd =
     (if (ad_place a, mode, ordinal) \<in> set reserved then Inr None
      else bindr (mk_occurrence (ad_identity a) (ad_place a) (int k) (int ordinal) token) (\<lambda>oc.
        if mode = Consume
        then place_occurrences rest ((ad_place a, mode, ordinal) # reserved) (consumed @ [oc]) rd
        else place_occurrences rest ((ad_place a, mode, ordinal) # reserved) consumed (rd @ [oc])))"

fun first_feasible :: "input_demand list \<Rightarrow> choice list list \<Rightarrow>
    (token_occurrence list \<times> token_occurrence list) option result" where
  "first_feasible demands [] = Inr None"
| "first_feasible demands (selected # rest) =
     bindr (place_occurrences (zip demands selected) [] [] []) (\<lambda>r.
       case r of None \<Rightarrow> first_feasible demands rest | Some x \<Rightarrow> Inr (Some x))"

definition binding_arcs :: "net \<Rightarrow> binding \<Rightarrow> arc_definition list" where
  "binding_arcs n b = filter (\<lambda>a. ad_transition a = bind_transition b \<and> arc_input a \<noteq> None) (n_arcs n)"

definition reconstruct :: "net \<Rightarrow> marking \<Rightarrow> binding \<Rightarrow>
    (token_occurrence list \<times> token_occurrence list \<times> inhibitor_evaluation list) option result" where
  "reconstruct n m b =
     bindr (reconstruct_scan (tokens_by_place m) (binding_values b) (binding_arcs n b) [] []) (\<lambda>scan.
       case scan of
         None \<Rightarrow> Inr None
       | Some (slots, audited) \<Rightarrow>
           if list_ex (\<lambda>slot. snd slot = []) slots then Inr None
           else bindr (first_feasible (map fst slots) (product_lists (map snd slots))) (\<lambda>r.
             case r of None \<Rightarrow> Inr None | Some (consumed, rd) \<Rightarrow> Inr (Some (consumed, rd, audited))))"

section \<open>Output tokens\<close>

definition output_identity :: "token_template \<Rightarrow> binding \<Rightarrow> token_id option result" where
  "output_identity tt b =
     (case tt_identity tt of
        None \<Rightarrow> Inr None
      | Some e \<Rightarrow>
          bindr (evaluate_value e b) (\<lambda>v.
            case v of
              VStr s \<Rightarrow> bindr (mk_token_id (PyStr s)) (\<lambda>i. Inr (Some i))
            | _ \<Rightarrow> Inl (TypeError ''token identity expression must produce string'')))"

definition output_token :: "binding \<Rightarrow> arc_definition \<times> nat \<times> token_template \<Rightarrow> produced_token result" where
  "output_token b = (\<lambda>(a, k, tt).
     bindr (evaluate_value (tt_value tt) b) (\<lambda>v.
     bindr (output_identity tt b) (\<lambda>i.
       mk_produced (ad_identity a) (ad_place a) (int k)
         \<lparr>tok_color = tt_color tt, tok_value = v, tok_identity = i\<rparr>)))"

definition output_sites :: "net \<Rightarrow> transition_definition \<Rightarrow> (arc_definition \<times> nat \<times> token_template) list" where
  "output_sites n t =
     concat (map (\<lambda>a.
       if ad_transition a \<noteq> td_identity t then []
       else case arc_output a of
           None \<Rightarrow> []
         | Some out \<Rightarrow> map (\<lambda>(k, tt). (a, k, tt)) (enumerate 0 (oi_templates out))) (n_arcs n))"

definition output_tokens :: "net \<Rightarrow> transition_definition \<Rightarrow> binding \<Rightarrow> produced_token list result" where
  "output_tokens n t b = mapr (output_token b) (output_sites n t)"

section \<open>The successor marking\<close>

definition consumed_coordinates :: "token_occurrence list \<Rightarrow> (place_id \<times> int) list" where
  "consumed_coordinates consumed = map (\<lambda>oc. (oc_place oc, oc_ordinal oc)) consumed"

text \<open>The tokens of one place whose coordinate is not consumed.\<close>

definition retained_tokens :: "(place_id \<times> int) list \<Rightarrow> place_marking \<Rightarrow> cpn_token list" where
  "retained_tokens gone pm =
     map snd (filter (\<lambda>(index, token). (pm_place pm, int index) \<notin> set gone) (enumerate 0 (pm_tokens pm)))"

definition retained_identities :: "(place_id \<times> int) list \<Rightarrow> marking \<Rightarrow> token_id list" where
  "retained_identities gone m =
     concat (map (\<lambda>pm. token_identities (retained_tokens gone pm)) (mk_places m))"

definition produced_identities :: "produced_token list \<Rightarrow> token_id list" where
  "produced_identities ps = token_identities (map pt_token ps)"

definition identity_collision :: "(place_id \<times> int) list \<Rightarrow> marking \<Rightarrow> produced_token list \<Rightarrow> bool" where
  "identity_collision gone m ps \<longleftrightarrow>
     \<not> distinct (produced_identities ps) \<or>
     list_ex (\<lambda>i. i \<in> set (retained_identities gone m)) (produced_identities ps)"

definition produced_at :: "produced_token list \<Rightarrow> place_id \<Rightarrow> cpn_token list" where
  "produced_at ps p = map pt_token (filter (\<lambda>x. pt_place x = p) ps)"

definition successor_places :: "(place_id \<times> int) list \<Rightarrow> produced_token list \<Rightarrow> marking \<Rightarrow> place_marking list result" where
  "successor_places gone ps m =
     mapr (\<lambda>pm. mk_place_marking (pm_place pm) (retained_tokens gone pm @ produced_at ps (pm_place pm)))
       (mk_places m)"

definition successor_payload :: "net \<Rightarrow> marking \<Rightarrow> place_marking list \<Rightarrow> json" where
  "successor_payload n m pms = JObj
     [(''domain'', JStr ''ksdft2effmass.petrinet.colored.successor-marking-v1''),
      (''definition'', JStr (definition_value (n_identity n))),
      (''predecessor'', JStr (marking_value (mk_identity m))),
      (''places'', JList (map (\<lambda>pm. JObj
         [(''place'', JStr (place_value (pm_place pm))),
          (''tokens'', JList (map token_state (pm_tokens pm)))]) pms))]"

definition successor :: "net \<Rightarrow> marking \<Rightarrow> (place_id \<times> int) list \<Rightarrow> produced_token list \<Rightarrow> marking result" where
  "successor n m gone ps =
     bindr (successor_places gone ps m) (\<lambda>pms.
     bindr (mk_marking_id (PyStr (digest_json (successor_payload n m pms)))) (\<lambda>i.
       mk_marking i (n_identity n) pms))"

section \<open>Result identities\<close>

definition occurrence_state :: "token_occurrence \<Rightarrow> json" where
  "occurrence_state oc = JObj
     [(''arc'', JStr (arc_value (oc_arc oc))), (''place'', JStr (place_value (oc_place oc))),
      (''pattern'', JInt (oc_pattern oc)), (''ordinal'', JInt (oc_ordinal oc)),
      (''token'', token_state (oc_token oc))]"

definition inhibitor_state :: "inhibitor_evaluation \<Rightarrow> json" where
  "inhibitor_state e = JObj
     [(''arc'', JStr (arc_value (iv_arc e))), (''place'', JStr (place_value (iv_place e))),
      (''pattern'', JInt (iv_pattern e)), (''matching_count'', JInt (iv_count e))]"

definition produced_state :: "produced_token \<Rightarrow> json" where
  "produced_state p = JObj
     [(''arc'', JStr (arc_value (pt_arc p))), (''place'', JStr (place_value (pt_place p))),
      (''index'', JInt (pt_index p)), (''token'', token_state (pt_token p))]"

definition directive_state :: "directive_id option \<Rightarrow> json" where
  "directive_state d = (case d of None \<Rightarrow> JNull | Some i \<Rightarrow> JStr (directive_value i))"

definition success_payload :: "firing_input \<Rightarrow> marking \<Rightarrow> firing_audit \<Rightarrow> json" where
  "success_payload f s audit = JObj
     [(''domain'', JStr ''ksdft2effmass.petrinet.colored.firing-result-v1''),
      (''enablement'', JStr (enablement_value (er_identity (fi_enablement f)))),
      (''selection'', JStr (selection_value (sr_identity (fi_selection f)))),
      (''transition'', JStr (transition_value (fi_transition f))),
      (''selected_binding'', binding_state (fi_binding f)),
      (''external_output_binding'', binding_state (fi_external f)),
      (''directive'', directive_state (fi_directive f)),
      (''successor'', JStr (marking_value (mk_identity s))),
      (''consumed'', JList (map occurrence_state (fa_consumed audit))),
      (''read'', JList (map occurrence_state (fa_read audit))),
      (''inhibitors'', JList (map inhibitor_state (fa_inhibitors audit))),
      (''produced'', JList (map produced_state (fa_produced audit))),
      (''firer'', JStr (firer_value firer_v1))]"

definition failure_payload :: "firing_input \<Rightarrow> firing_code \<Rightarrow> string \<Rightarrow> string \<Rightarrow> string \<Rightarrow> issue list \<Rightarrow> json" where
  "failure_payload f code phase expected observed issues = JObj
     [(''domain'', JStr ''ksdft2effmass.petrinet.colored.firing-result-v1''),
      (''firing_input'', rep_firing_input f),
      (''definition'', JStr (definition_value (n_identity (fi_net f)))),
      (''predecessor'', JStr (marking_value (mk_identity (fi_marking f)))),
      (''enablement'', JStr (enablement_value (er_identity (fi_enablement f)))),
      (''selection'', JStr (selection_value (sr_identity (fi_selection f)))),
      (''transition'', JStr (transition_value (fi_transition f))),
      (''selected_binding'', binding_state (fi_binding f)),
      (''external_output_binding'', binding_state (fi_external f)),
      (''directive'', directive_state (fi_directive f)),
      (''code'', JStr (firing_code_text code)),
      (''phase'', JStr phase),
      (''expected'', JStr expected),
      (''observed'', JStr observed),
      (''issues'', JList (map issue_state issues)),
      (''firer'', JStr (firer_value firer_v1))]"

definition firing_failed :: "firing_input \<Rightarrow> firing_code \<Rightarrow> string \<Rightarrow> string \<Rightarrow> string \<Rightarrow> issue list \<Rightarrow>
    firing result" where
  "firing_failed f code phase expected observed issues =
     bindr (mk_firing_id (PyStr (digest_json (failure_payload f code phase expected observed issues)))) (\<lambda>i.
     bindr (mk_firing_failure (FiringFailureId i) code phase expected observed
              ''firing produced no successor'' issues firing_boundary) (\<lambda>failure.
     mk_firing \<lparr>fr_identity = i, fr_input = f, fr_outcome = FiringFailure, fr_successor = None,
                fr_audit = None, fr_failure = Some failure\<rparr>))"

definition firing_succeeded :: "firing_input \<Rightarrow> marking \<Rightarrow> firing_audit \<Rightarrow> firing result" where
  "firing_succeeded f s audit =
     bindr (mk_firing_id (PyStr (digest_json (success_payload f s audit)))) (\<lambda>i.
     mk_firing \<lparr>fr_identity = i, fr_input = f, fr_outcome = FiringSuccess, fr_successor = Some s,
                fr_audit = Some audit, fr_failure = None\<rparr>)"

section \<open>The firer\<close>

text \<open>The part of \<open>execute\<close> that follows the identification of the transition.\<close>

definition fire_successor :: "firing_input \<Rightarrow> token_occurrence list \<Rightarrow> token_occurrence list \<Rightarrow>
    inhibitor_evaluation list \<Rightarrow> produced_token list \<Rightarrow> firing result" where
  "fire_successor f consumed rd audited produced =
     (let n = fi_net f; m = fi_marking f; gone = consumed_coordinates consumed in
      if identity_collision gone m produced then
        firing_failed f FIdentityCollision ''produced_identity_validation''
          ''new unique identities or identities released by consumption''
          ''produced identity is duplicate or collides with a retained token'' []
      else
      bindr (successor n m gone produced) (\<lambda>s.
      bindr (validate_marking n s) (\<lambda>is.
        if \<not> is_valid is then
          firing_failed f FProducedInvalid ''successor_validation''
            ''a definition-compatible successor marking''
            ''produced tokens make the successor invalid'' []
        else
          firing_succeeded f s
            \<lparr>fa_consumed = consumed, fa_read = rd, fa_inhibitors = audited,
             fa_produced = produced, fa_firer = firer_v1\<rparr>)))"

definition fire_transition :: "firing_input \<Rightarrow> transition_definition \<Rightarrow> firing result" where
  "fire_transition f t =
     (let n = fi_net f; m = fi_marking f; b = fi_binding f; ext = fi_external f in
      if bind_transition ext \<noteq> td_identity t \<or>
         map as_variable (bind_assignments ext) \<noteq> td_externals t then
        firing_failed f FExternalMismatch ''external_output_validation''
          ''exact declared external-output assignments in order''
          ''external-output binding is incomplete, extra, reordered, or mismatched'' []
      else
      bindr (reconstruct n m b) (\<lambda>occurrences.
        case occurrences of
          None \<Rightarrow>
            firing_failed f FReconstructionFailed ''input_reconstruction''
              ''one canonical feasible occurrence assignment''
              ''selected value binding cannot be reconstructed'' []
        | Some (consumed, rd, audited) \<Rightarrow>
            bindr (mk_binding (td_identity t) (bind_assignments b @ bind_assignments ext)) (\<lambda>combined.
              case output_tokens n t combined of
                Inl AssertionError \<Rightarrow> Inl AssertionError
              | Inl e \<Rightarrow>
                  firing_failed f FOutputFailed ''output_evaluation''
                    ''well-typed total output templates'' (exn_text e) []
              | Inr produced \<Rightarrow> fire_successor f consumed rd audited produced)))"

definition fire :: "firing_input \<Rightarrow> firing result" where
  "fire f =
     (let n = fi_net f; m = fi_marking f; s = fi_selection f in
      bindr (validate_definition n) (\<lambda>dis.
      if \<not> is_valid dis then
        firing_failed f FInvalidDefinition ''definition_validation''
          ''a structurally valid definition'' ''definition validation returned findings'' dis
      else
      bindr (validate_marking n m) (\<lambda>mis.
      if \<not> is_valid mis then
        firing_failed f FInvalidPredecessor ''marking_validation''
          ''a compatible complete predecessor marking'' ''marking validation returned findings'' mis
      else
      bindr (enable n m) (\<lambda>replayed.
      if \<not> enablement_eq replayed (fi_enablement f) then
        firing_failed f FEnablementMismatch ''enablement_replay''
          ''replay-equal complete enablement'' ''supplied enablement differs from recomputation'' []
      else
      bindr (select n replayed (sr_directive s)) (\<lambda>reselected.
      if \<not> selection_eq reselected s then
        firing_failed f FSelectionMismatch ''selection_replay''
          ''replay-equal exact selection'' ''supplied selection differs from recomputation'' []
      else if sr_outcome s \<noteq> Selected \<or> \<not> optional_binding_eq (sr_binding s) (Some (fi_binding f)) then
        firing_failed f FTransitionOrBindingMismatch ''selected_binding_validation''
          ''one exact selected binding'' ''firing binding is not the selected binding'' []
      else if fi_directive f \<noteq> directive_identity s then
        firing_failed f FDirectiveMismatch ''directive_validation''
          ''the exact selection directive identity or absence''
          ''firing directive identity differs from selection'' []
      else
        (case List.find (\<lambda>t. td_identity t = bind_transition (fi_binding f)) (n_transitions n) of
           None \<Rightarrow>
             firing_failed f FTransitionOrBindingMismatch ''transition_validation''
               ''the selected defined transition'' ''transition identity differs from selected binding'' []
         | Some t \<Rightarrow>
             if fi_transition f \<noteq> bind_transition (fi_binding f) then
               firing_failed f FTransitionOrBindingMismatch ''transition_validation''
                 ''the selected defined transition'' ''transition identity differs from selected binding'' []
             else fire_transition f t))))))"

end
