(* ===== verification/Cpn_Enabled.thy ===== *)
theory Cpn_Enabled
  imports Cpn_Enablement
begin

text \<open>
  What the enabler computes.  \<open>binding_enabled\<close> is the textbook enabling rule of a colored net
  with inhibitor and read arcs, stated over arcs and token occurrences without any enumeration;
  the theory shows that on valid inputs the enabler returns exactly the enabled bindings, each
  once up to Python equality, in priority and value order.
\<close>

section \<open>The enabling rule\<close>

definition tokens_at :: "marking \<Rightarrow> place_id \<Rightarrow> cpn_token list" where
  "tokens_at m p = (case tokens_by_place m p of None \<Rightarrow> [] | Some ts \<Rightarrow> ts)"

definition arc_demands :: "arc_definition \<Rightarrow> demand list" where
  "arc_demands a =
     (case arc_input a of
        None \<Rightarrow> []
      | Some i \<Rightarrow> if ii_mode i = Inhibit then []
                  else [(ad_place a, ii_mode i, tp). TokenPattern tp \<leftarrow> ii_patterns i])"

definition demands_of :: "net \<Rightarrow> transition_definition \<Rightarrow> demand list" where
  "demands_of n t = concat (map arc_demands (transition_arcs n t))"

definition arc_inhibited :: "marking \<Rightarrow> arc_definition \<Rightarrow> bool" where
  "arc_inhibited m a \<longleftrightarrow>
     (case arc_input a of
        None \<Rightarrow> False
      | Some i \<Rightarrow> ii_mode i = Inhibit \<and>
          (\<exists>pat \<in> set (ii_patterns i). \<exists>tok \<in> set (tokens_at m (ad_place a)).
             tok_color tok \<in> set (pattern_colors pat)))"

definition inhibited :: "net \<Rightarrow> marking \<Rightarrow> transition_definition \<Rightarrow> bool" where
  "inhibited n m t \<longleftrightarrow> (\<exists>a \<in> set (transition_arcs n t). arc_inhibited m a)"

definition demand_variable :: "demand \<Rightarrow> variable_id" where
  "demand_variable d = tp_variable (snd (snd d))"

definition demand_place :: "demand \<Rightarrow> place_id" where
  "demand_place d = fst d"

definition demand_mode :: "demand \<Rightarrow> input_mode" where
  "demand_mode d = fst (snd d)"

definition demand_colors :: "demand \<Rightarrow> color_id list" where
  "demand_colors d = tp_colors (snd (snd d))"

text \<open>
  \<open>occ\<close> names the token occurrence each input variable is bound to: an admitted token of the
  variable's place that carries the value bound, and no token serving two demands of the same
  place and mode.
\<close>

definition occurrence :: "net \<Rightarrow> marking \<Rightarrow> transition_definition \<Rightarrow> binding \<Rightarrow> (variable_id \<Rightarrow> nat) \<Rightarrow> bool" where
  "occurrence n m t b occ \<longleftrightarrow>
     (\<forall>d \<in> set (demands_of n t).
        let ts = tokens_at m (demand_place d); k = occ (demand_variable d)
        in k < length ts \<and> tok_color (ts ! k) \<in> set (demand_colors d) \<and>
           binding_values b (demand_variable d) = Some (tok_value (ts ! k))) \<and>
     (\<forall>d \<in> set (demands_of n t). \<forall>e \<in> set (demands_of n t).
        demand_place d = demand_place e \<and> demand_mode d = demand_mode e \<and>
        occ (demand_variable d) = occ (demand_variable e) \<longrightarrow> demand_variable d = demand_variable e)"

definition binding_feasible :: "net \<Rightarrow> marking \<Rightarrow> transition_definition \<Rightarrow> binding \<Rightarrow> bool" where
  "binding_feasible n m t b \<longleftrightarrow>
     td_identity t = bind_transition b \<and> \<not> inhibited n m t \<and>
     map as_variable (bind_assignments b) = td_inputs t \<and> (\<exists>occ. occurrence n m t b occ)"

definition binding_enabled :: "net \<Rightarrow> marking \<Rightarrow> binding \<Rightarrow> bool" where
  "binding_enabled n m b \<longleftrightarrow>
     (\<exists>t \<in> set (n_transitions n). binding_feasible n m t b \<and> evaluate_guard (td_guard t) b = Inr True)"

section \<open>The arc scan\<close>

definition demand_choices :: "marking \<Rightarrow> demand \<Rightarrow> choice list" where
  "demand_choices m d =
     filter (\<lambda>(index, token). tok_color token \<in> set (demand_colors d))
       (enumerate 0 (tokens_at m (demand_place d)))"

definition scannable :: "marking \<Rightarrow> arc_definition \<Rightarrow> bool" where
  "scannable m a \<longleftrightarrow>
     (\<exists>i. arc_input a = Some i \<and> input_ok i) \<and> tokens_by_place m (ad_place a) \<noteq> None"

lemma pattern_slots_eq:
  "list_all is_token_pattern ps \<Longrightarrow> tokens = tokens_at m p \<Longrightarrow>
   pattern_slots p mode tokens ps =
     Inr (map (\<lambda>d. (d, demand_choices m d)) [(p, mode, tp). TokenPattern tp \<leftarrow> ps])"
proof (induction ps)
  case (Cons pat ps)
  then show ?case
    by (cases pat)
      (simp_all add: demand_choices_def demand_colors_def demand_place_def)
qed simp

lemma scan_arcs_eq:
  "list_all (scannable m) as \<Longrightarrow>
   scan_arcs (tokens_by_place m) as slots =
     Inr (if list_ex (arc_inhibited m) as then None
          else Some (slots @ map (\<lambda>d. (d, demand_choices m d)) (concat (map arc_demands as))))"
proof (induction as arbitrary: slots)
  case (Cons a as)
  then obtain i ts where i: "arc_input a = Some i" "input_ok i"
    and ts: "tokens_by_place m (ad_place a) = Some ts"
    by (auto simp: scannable_def)
  have at: "tokens_at m (ad_place a) = ts" by (simp add: tokens_at_def ts)
  show ?case
  proof (cases "ii_mode i = Inhibit")
    case True
    have "list_ex (inhibiting ts) (ii_patterns i) \<longleftrightarrow> arc_inhibited m a"
      by (simp add: arc_inhibited_def i at True inhibiting_def list_ex_iff del: arc_input.simps)
    moreover have "arc_demands a = []" by (simp add: arc_demands_def i True del: arc_input.simps)
    ultimately show ?thesis using Cons by (simp add: i ts True del: arc_input.simps)
  next
    case False
    have "\<not> arc_inhibited m a" by (simp add: arc_inhibited_def i False del: arc_input.simps)
    moreover have "list_all is_token_pattern (ii_patterns i)"
      using i(2) False by (simp add: input_ok_def list_all_iff)
    moreover have "arc_demands a = [(ad_place a, ii_mode i, tp). TokenPattern tp \<leftarrow> ii_patterns i]"
      by (simp add: arc_demands_def i False del: arc_input.simps)
    ultimately show ?thesis
      using Cons by (simp add: i ts False pattern_slots_eq [OF _ at [symmetric]] del: arc_input.simps)
  qed
qed simp


section \<open>Reservation\<close>

definition coordinate :: "demand \<times> choice \<Rightarrow> place_id \<times> input_mode \<times> nat" where
  "coordinate dc = (demand_place (fst dc), demand_mode (fst dc), fst (snd dc))"

definition bound_value :: "demand \<times> choice \<Rightarrow> variable_id \<times> cpn_value" where
  "bound_value dc = (demand_variable (fst dc), tok_value (snd (snd dc)))"

lemma reserve_eq:
  "reserve dcs reserved vals =
     (if distinct (map coordinate dcs) \<and> set (map coordinate dcs) \<inter> set reserved = {}
      then Some (vals ++ dict_of (map bound_value dcs)) else None)"
proof (induction dcs arbitrary: reserved vals)
  case Nil
  then show ?case by (simp add: dict_of_def)
next
  case (Cons dc dcs)
  obtain p mode tp index token where dc: "dc = ((p, mode, tp), (index, token))"
    by (metis surj_pair)
  have co: "coordinate dc = (p, mode, index)" and bv: "bound_value dc = (tp_variable tp, tok_value token)"
    by (simp_all add: dc coordinate_def demand_place_def demand_mode_def bound_value_def demand_variable_def)
  have dict: "vals(tp_variable tp \<mapsto> tok_value token) ++ dict_of (map bound_value dcs) =
      vals ++ dict_of (map bound_value (dc # dcs))"
    by (simp add: dict_of_def bv map_add_def fun_eq_iff split: option.splits)
  show ?case
    unfolding dc reserve.simps Cons.IH dict [unfolded dc]
    using co by (auto simp: dc)
qed

lemma reserve_start:
  "reserve (zip ds cs) [] Map.empty =
     (if distinct (map coordinate (zip ds cs)) then Some (dict_of (map bound_value (zip ds cs))) else None)"
  by (simp add: reserve_eq)

section \<open>Binders of a valid transition\<close>

lemma pattern_variables_demands:
  "pattern_variables ps = map demand_variable [(p, mode, tp). TokenPattern tp \<leftarrow> ps]"
  by (induction ps rule: pattern_variables.induct) (simp_all add: demand_variable_def)

lemma no_token_patterns:
  "list_all (\<lambda>p. \<not> is_token_pattern p) ps \<Longrightarrow> pattern_variables ps = []"
  by (induction ps rule: pattern_variables.induct) simp_all

lemma arc_demand_variables:
  assumes "arc_definition_ok a" "arc_input a = Some i"
  shows "map demand_variable (arc_demands a) = pattern_variables (ii_patterns i)"
proof -
  have i: "input_ok i" using assms by (auto simp: arc_definition_ok_def split: arc_inscription.splits)
  show ?thesis
  proof (cases "ii_mode i = Inhibit")
    case True
    then have "pattern_variables (ii_patterns i) = []"
      using i by (intro no_token_patterns) (simp add: input_ok_def)
    then show ?thesis by (simp add: arc_demands_def assms(2) True del: arc_input.simps)
  next
    case False
    then show ?thesis
      by (simp add: arc_demands_def assms(2) pattern_variables_demands [where p = "ad_place a" and mode = "ii_mode i"]
          del: arc_input.simps)
  qed
qed

lemma arc_place_known:
  "definition_valid n \<Longrightarrow> a \<in> set (n_arcs n) \<Longrightarrow> places_of n (ad_place a) \<noteq> None"
  unfolding definition_valid_def arc_valid_def places_of_None by blast

lemma binders_demands:
  assumes n: "net_ok n" and v: "definition_valid n"
  shows "binders n t = map demand_variable (demands_of n t)"
proof -
  define piece where "piece a = (if ad_transition a = td_identity t \<and> places_of n (ad_place a) \<noteq> None
      then (case arc_input a of None \<Rightarrow> [] | Some i \<Rightarrow> pattern_variables (ii_patterns i)) else [])" for a
  have "concat (map piece as) = map demand_variable (concat (map arc_demands
      (filter (\<lambda>a. ad_transition a = td_identity t \<and> arc_input a \<noteq> None) as)))"
    if "set as \<subseteq> set (n_arcs n)" for as
    using that
  proof (induction as)
    case (Cons a as)
    have "places_of n (ad_place a) \<noteq> None" using Cons.prems v by (intro arc_place_known) auto
    moreover have "arc_definition_ok a" using Cons.prems net_ok_parts(3) [OF n] by simp
    ultimately show ?case
      using Cons by (cases "arc_input a") (simp_all add: piece_def arc_demand_variables del: arc_input.simps)
  qed simp
  from this [OF order_refl] show ?thesis
    unfolding binders_def demands_of_def transition_arcs_def piece_def .
qed

lemma arc_demandsE:
  assumes "d \<in> set (arc_demands a)"
  obtains i tp where "arc_input a = Some i" "ii_mode i \<noteq> Inhibit" "TokenPattern tp \<in> set (ii_patterns i)"
    "d = (ad_place a, ii_mode i, tp)"
proof (cases "arc_input a")
  case (Some i)
  then have "ii_mode i \<noteq> Inhibit" "d \<in> set [(ad_place a, ii_mode i, tp). TokenPattern tp \<leftarrow> ii_patterns i]"
    using assms by (auto simp: arc_demands_def simp del: arc_input.simps split: if_splits)
  then show ?thesis
    using Some that by (auto split: input_pattern.splits)
qed (use assms in \<open>simp add: arc_demands_def del: arc_input.simps\<close>)

lemma arc_inputD: "arc_input a = Some i \<Longrightarrow> ad_inscription a = InputArc i"
  by (simp split: arc_inscription.splits)

lemma demand_arcE:
  assumes "net_ok n" "definition_valid n" "t \<in> set (n_transitions n)" "d \<in> set (demands_of n t)"
  obtains a i tp p where "a \<in> set (n_arcs n)" "ad_transition a = td_identity t" "arc_input a = Some i"
    "ii_mode i \<noteq> Inhibit" "TokenPattern tp \<in> set (ii_patterns i)" "d = (ad_place a, ii_mode i, tp)"
    "p \<in> set (n_places n)" "pd_identity p = ad_place a" "tp_variable tp \<in> set (td_inputs t)"
proof -
  from assms(4) obtain a where a: "a \<in> set (n_arcs n)" "ad_transition a = td_identity t" "d \<in> set (arc_demands a)"
    by (auto simp: demands_of_def transition_arcs_def)
  from a(3) obtain i tp where i: "arc_input a = Some i" "ii_mode i \<noteq> Inhibit"
    "TokenPattern tp \<in> set (ii_patterns i)" "d = (ad_place a, ii_mode i, tp)" by (rule arc_demandsE)
  have "arc_valid n a" using assms(2) a(1) by (simp add: definition_valid_def)
  then obtain p u where p: "p \<in> set (n_places n)" "pd_identity p = ad_place a"
    and u: "u \<in> set (n_transitions n)" "td_identity u = ad_transition a" "input_arc_valid n p u i"
    using arc_inputD [OF i(1)] by (auto simp: arc_valid_def)
  have "transitions_of n (td_identity t) = Some u" "transitions_of n (td_identity t) = Some t"
    using u a(2) assms(1,3) by (simp_all add: transitions_of_Some_iff)
  then have "u = t" by simp
  then have "tp_variable tp \<in> set (td_inputs t)"
    using u(3) i(3) by (auto simp: input_arc_valid_def)
  with a i p that show ?thesis by blast
qed

lemma count_list_one_distinct:
  "(\<And>x. x \<in> set xs \<Longrightarrow> count_list xs x = 1) \<Longrightarrow> distinct xs"
proof (induction xs)
  case (Cons x xs)
  have "count_list xs x = 0" using Cons.prems [of x] by simp
  then have x: "x \<notin> set xs" by (simp add: count_list_0_iff)
  moreover have "count_list xs y = 1" if "y \<in> set xs" for y
    using Cons.prems [of y] that x by (auto split: if_splits)
  ultimately show ?case using Cons.IH by simp
qed simp

lemma demand_variables:
  assumes n: "net_ok n" and v: "definition_valid n" and t: "t \<in> set (n_transitions n)"
  shows "distinct (map demand_variable (demands_of n t))"
    and "set (map demand_variable (demands_of n t)) = set (td_inputs t)"
proof -
  have sub: "set (map demand_variable (demands_of n t)) \<subseteq> set (td_inputs t)"
  proof
    fix x assume "x \<in> set (map demand_variable (demands_of n t))"
    then obtain d where d: "d \<in> set (demands_of n t)" and x: "x = demand_variable d" by auto
    from n v t d show "x \<in> set (td_inputs t)"
      by (rule demand_arcE) (simp add: x demand_variable_def)
  qed
  have one: "count_list (map demand_variable (demands_of n t)) x = 1" if "x \<in> set (td_inputs t)" for x
    using v t that by (simp add: definition_valid_def transition_valid_def binders_demands [OF n v])
  show "distinct (map demand_variable (demands_of n t))"
    using sub one by (intro count_list_one_distinct) blast
  have "x \<in> set (map demand_variable (demands_of n t))" if "x \<in> set (td_inputs t)" for x
    using one [OF that] by (metis count_list_0_iff zero_neq_one)
  with sub show "set (map demand_variable (demands_of n t)) = set (td_inputs t)" by blast
qed


section \<open>One choice of tokens\<close>

definition choice_values :: "demand list \<Rightarrow> choice list \<Rightarrow> (variable_id \<rightharpoonup> cpn_value)" where
  "choice_values ds cs = dict_of (map bound_value (zip ds cs))"

definition choice_binding :: "transition_definition \<Rightarrow> demand list \<Rightarrow> choice list \<Rightarrow> binding" where
  "choice_binding t ds cs =
     \<lparr>bind_transition = td_identity t,
      bind_assignments = map (\<lambda>x. \<lparr>as_variable = x, as_value = the (choice_values ds cs x)\<rparr>) (td_inputs t)\<rparr>"

definition feasible :: "demand list \<Rightarrow> choice list \<Rightarrow> bool" where
  "feasible ds cs \<longleftrightarrow> distinct (map coordinate (zip ds cs))"

lemma map_fst_bound_value:
  "length cs = length ds \<Longrightarrow> map fst (map bound_value (zip ds cs)) = map demand_variable ds"
proof -
  assume len: "length cs = length ds"
  have "map fst (map bound_value (zip ds cs)) = map demand_variable (map fst (zip ds cs))"
    by (simp add: bound_value_def)
  then show ?thesis by (simp add: len)
qed

lemma choice_values_dom:
  "length cs = length ds \<Longrightarrow> dom (choice_values ds cs) = set (map demand_variable ds)"
proof -
  assume len: "length cs = length ds"
  have "dom (choice_values ds cs) = set (map fst (map bound_value (zip ds cs)))"
    by (simp add: choice_values_def dict_of_def dom_map_of_conv_image_fst image_image)
  then show ?thesis by (simp only: map_fst_bound_value [OF len])
qed

lemma choice_values_nth:
  assumes "length cs = length ds" "distinct (map demand_variable ds)" "k < length ds"
  shows "choice_values ds cs (demand_variable (ds ! k)) = Some (tok_value (snd (cs ! k)))"
proof -
  have d: "distinct (map fst (map bound_value (zip ds cs)))"
    using assms map_fst_bound_value [OF assms(1)] by simp
  have "bound_value (ds ! k, cs ! k) \<in> set (map bound_value (zip ds cs))"
    using assms by (auto simp: set_zip)
  then show ?thesis
    unfolding choice_values_def dict_of_Some_iff [OF d] by (simp add: bound_value_def)
qed

lemma bind_inputs_choice:
  assumes "length cs = length ds" "set (map demand_variable ds) = set (td_inputs t)"
    and "distinct (td_inputs t)"
  shows "bind_inputs t (choice_values ds cs) = Inr (choice_binding t ds cs)"
proof -
  have "mapr (\<lambda>x. case choice_values ds cs x of
                        None \<Rightarrow> Inl (KeyError (variable_repr x))
                      | Some v \<Rightarrow> Inr \<lparr>as_variable = x, as_value = v\<rparr>) (td_inputs t) =
      Inr (map (\<lambda>x. \<lparr>as_variable = x, as_value = the (choice_values ds cs x)\<rparr>) (td_inputs t))"
  proof (rule mapr_ok_map)
    fix x assume "x \<in> set (td_inputs t)"
    then have "x \<in> dom (choice_values ds cs)"
      using choice_values_dom [OF assms(1)] assms(2) by simp
    then show "(case choice_values ds cs x of
                        None \<Rightarrow> Inl (KeyError (variable_repr x))
                      | Some v \<Rightarrow> Inr \<lparr>as_variable = x, as_value = v\<rparr>) =
      Inr \<lparr>as_variable = x, as_value = the (choice_values ds cs x)\<rparr>" by auto
  qed
  then show ?thesis
    using assms(3) by (simp add: bind_inputs_def mk_binding_def choice_binding_def comp_def)
qed

text \<open>What one choice contributes: a fault, nothing, or a binding whose guard holds.\<close>

definition choice_outcome :: "transition_definition \<Rightarrow> demand list \<Rightarrow> choice list \<Rightarrow>
    (guard_fault + binding option) result" where
  "choice_outcome t ds cs =
     (if \<not> feasible ds cs then Inr (Inr None)
      else case evaluate_guard (td_guard t) (choice_binding t ds cs) of
          Inl (TypeError msg) \<Rightarrow> Inr (Inl (td_identity t, TypeError msg))
        | Inl e \<Rightarrow> Inl e
        | Inr g \<Rightarrow> Inr (Inr (if g then Some (choice_binding t ds cs) else None)))"

definition add_outcome :: "binding list \<Rightarrow> binding option \<Rightarrow> binding list" where
  "add_outcome bs r = (case r of None \<Rightarrow> bs | Some b \<Rightarrow> set_add b bs)"

lemma try_choice_eq:
  assumes "length cs = length ds" "set (map demand_variable ds) = set (td_inputs t)"
    and "distinct (td_inputs t)"
  shows "try_choice t ds cs enabled =
     bindr (choice_outcome t ds cs) (\<lambda>r. Inr (case r of Inl f \<Rightarrow> Inl f | Inr b \<Rightarrow> Inr (add_outcome enabled b)))"
proof (cases "feasible ds cs")
  case True
  then have "reserve (zip ds cs) [] Map.empty = Some (choice_values ds cs)"
    by (simp add: reserve_start feasible_def choice_values_def)
  then show ?thesis
    by (simp add: try_choice_def bind_inputs_choice [OF assms] choice_outcome_def True add_outcome_def
        split: sum.splits py_exn.splits)
next
  case False
  then have "reserve (zip ds cs) [] Map.empty = None" by (simp add: reserve_start feasible_def)
  then show ?thesis by (simp add: try_choice_def choice_outcome_def False add_outcome_def)
qed


section \<open>The enumeration as one loop\<close>

definition choices_of :: "net \<Rightarrow> marking \<Rightarrow> transition_definition \<Rightarrow> choice list list" where
  "choices_of n m t =
     (if inhibited n m t then [] else product_lists (map (demand_choices m) (demands_of n t)))"

definition all_choices :: "net \<Rightarrow> marking \<Rightarrow> (transition_definition \<times> choice list) list" where
  "all_choices n m = concat (map (\<lambda>t. map (Pair t) (choices_of n m t)) (n_transitions n))"

definition outcome_of :: "net \<Rightarrow> transition_definition \<times> choice list \<Rightarrow> (guard_fault + binding option) result" where
  "outcome_of n = (\<lambda>(t, cs). choice_outcome t (demands_of n t) cs)"

lemma places_in_marking:
  assumes "net_ok n" "marking_valid n m" "p \<in> set (n_places n)"
  shows "tokens_by_place m (pd_identity p) \<noteq> None"
proof -
  have "pd_identity p \<in> set (map pm_place (mk_places m))"
    using assms by (simp add: marking_valid_def)
  then show ?thesis by (simp add: tokens_by_place_def dict_of_map_None)
qed

lemma transition_arcs_scannable:
  assumes n: "net_ok n" and v: "definition_valid n" and m: "marking_valid n m"
  shows "list_all (scannable m) (transition_arcs n t)"
  unfolding list_all_iff
proof
  fix a assume "a \<in> set (transition_arcs n t)"
  then obtain i where a: "a \<in> set (n_arcs n)" "arc_input a = Some i"
    by (auto simp: transition_arcs_def simp del: arc_input.simps)
  have "input_ok i"
    using net_ok_parts(3) [OF n a(1)] arc_inputD [OF a(2)] by (simp add: arc_definition_ok_def)
  moreover obtain p where "p \<in> set (n_places n)" "pd_identity p = ad_place a"
    using arc_place_known [OF v a(1)] by (auto simp: places_of_None)
  then have "tokens_by_place m (ad_place a) \<noteq> None"
    using places_in_marking [OF n m] by force
  ultimately show "scannable m a" using a(2) by (simp add: scannable_def del: arc_input.simps)
qed

lemma product_lists_empty: "[] \<in> set xss \<Longrightarrow> product_lists xss = []"
  by (induction xss) auto

lemma product_lists_length: "cs \<in> set (product_lists xss) \<Longrightarrow> length cs = length xss"
  by (simp add: product_lists_set list_all2_lengthD)

lemma try_transition_eq:
  assumes n: "net_ok n" and v: "definition_valid n" and m: "marking_valid n m"
    and t: "t \<in> set (n_transitions n)"
  shows "try_transition n (tokens_by_place m) t enabled =
     loop_exit (collecting (outcome_of n) add_outcome) (map (Pair t) (choices_of n m t)) enabled"
proof (cases "inhibited n m t")
  case True
  then have "scan_arcs (tokens_by_place m) (transition_arcs n t) [] = Inr None"
    by (simp add: scan_arcs_eq [OF transition_arcs_scannable [OF n v m]] inhibited_def list_ex_iff)
  then show ?thesis by (simp add: try_transition_def choices_of_def True)
next
  case False
  let ?ds = "demands_of n t"
  have scan: "scan_arcs (tokens_by_place m) (transition_arcs n t) [] =
      Inr (Some (map (\<lambda>d. (d, demand_choices m d)) ?ds))"
    using False by (simp add: scan_arcs_eq [OF transition_arcs_scannable [OF n v m]] inhibited_def
        list_ex_iff demands_of_def)
  have snds: "map snd (map (\<lambda>d. (d, demand_choices m d)) ?ds) = map (demand_choices m) ?ds"
    and fsts: "map fst (map (\<lambda>d. (d, demand_choices m d)) ?ds) = ?ds"
    by (simp_all add: comp_def)
  have dist: "distinct (td_inputs t)"
    using net_ok_parts(2) [OF n t] by (simp add: transition_definition_ok_def)
  have body: "try_choice t ?ds cs s = collecting (outcome_of n) add_outcome (t, cs) s"
    if "cs \<in> set (product_lists (map (demand_choices m) ?ds))" for cs s
    using try_choice_eq [OF _ demand_variables(2) [OF n v t] dist] product_lists_length [OF that]
    by (simp add: collecting_def outcome_of_def)
  have "loop_exit (try_choice t ?ds) (product_lists (map (demand_choices m) ?ds)) enabled =
      loop_exit (\<lambda>cs. collecting (outcome_of n) add_outcome (t, cs))
        (product_lists (map (demand_choices m) ?ds)) enabled"
    by (rule loop_exit_cong [OF refl]) (rule body)
  also have "\<dots> = loop_exit (collecting (outcome_of n) add_outcome) (map (Pair t) (choices_of n m t)) enabled"
    by (simp add: loop_exit_map choices_of_def False)
  finally have loop: "loop_exit (try_choice t ?ds) (product_lists (map (demand_choices m) ?ds)) enabled = \<dots>" .
  have "product_lists (map (demand_choices m) ?ds) = []"
    if "list_ex (\<lambda>slot. snd slot = []) (map (\<lambda>d. (d, demand_choices m d)) ?ds)"
    using that by (intro product_lists_empty) (force simp: list_ex_iff image_iff)
  then have "try_transition n (tokens_by_place m) t enabled =
      loop_exit (try_choice t ?ds) (product_lists (map (demand_choices m) ?ds)) enabled"
    unfolding try_transition_def scan bindr.simps option.case fsts snds
    by (cases "list_ex (\<lambda>slot. snd slot = []) (map (\<lambda>d. (d, demand_choices m d)) ?ds)")
      (simp_all del: list_ex_iff list.pred_map)
  then show ?thesis using loop by simp
qed

lemma enumerate_bindings_eq:
  assumes "net_ok n" "definition_valid n" "marking_valid n m"
  shows "enumerate_bindings n m = loop_exit (collecting (outcome_of n) add_outcome) (all_choices n m) []"
  unfolding enumerate_bindings_def all_choices_def loop_exit_concat
  by (rule loop_exit_cong [OF refl]) (rule try_transition_eq [OF assms])


section \<open>Choices are occurrences\<close>

lemma demand_choices_iff:
  "(k, tok) \<in> set (demand_choices m d) \<longleftrightarrow>
     k < length (tokens_at m (demand_place d)) \<and> tok = tokens_at m (demand_place d) ! k \<and>
     tok_color tok \<in> set (demand_colors d)"
  by (auto simp: demand_choices_def in_set_enumerate_eq)

lemma product_lists_iff:
  "cs \<in> set (product_lists xss) \<longleftrightarrow> length cs = length xss \<and> (\<forall>k < length xss. cs ! k \<in> set (xss ! k))"
  by (auto simp: product_lists_set list_all2_conv_all_nth)

lemma coordinates_distinct:
  assumes "length cs = length ds"
  shows "feasible ds cs \<longleftrightarrow>
    (\<forall>i < length ds. \<forall>j < length ds. coordinate (ds ! i, cs ! i) = coordinate (ds ! j, cs ! j) \<longrightarrow> i = j)"
  using assms by (auto simp: feasible_def distinct_conv_nth)

lemma assignments_eq:
  assumes "distinct (map as_variable (bind_assignments b))"
  shows "bind_assignments b =
    map (\<lambda>x. \<lparr>as_variable = x, as_value = the (binding_values b x)\<rparr>) (map as_variable (bind_assignments b))"
proof -
  have "binding_values b (as_variable a) = Some (as_value a)" if "a \<in> set (bind_assignments b)" for a
    unfolding binding_values_def by (rule dict_of_mapI [OF assms that])
  then show ?thesis by (auto intro!: nth_equalityI)
qed

lemma binding_values_built:
  assumes "distinct xs" "x \<in> set xs" "bind_assignments b = map (\<lambda>x. \<lparr>as_variable = x, as_value = f x\<rparr>) xs"
  shows "binding_values b x = Some (f x)"
proof -
  have "binding_values b = dict_of (map (\<lambda>x. (x, f x)) xs)"
    by (simp add: binding_values_def assms(3) comp_def)
  then show ?thesis using dict_of_mapI [of "\<lambda>x. x" xs x f] assms(1,2) by simp
qed

text \<open>Every input variable is bound by exactly one demand.\<close>

definition well_bound :: "transition_definition \<Rightarrow> demand list \<Rightarrow> bool" where
  "well_bound t ds \<longleftrightarrow> distinct (td_inputs t) \<and> distinct (map demand_variable ds) \<and>
     set (map demand_variable ds) = set (td_inputs t)"

lemma demands_well_bound:
  assumes n: "net_ok n" and v: "definition_valid n" and t: "t \<in> set (n_transitions n)"
  shows "well_bound t (demands_of n t)"
  using demand_variables [OF n v t] net_ok_parts(2) [OF n t]
  by (simp add: well_bound_def transition_definition_ok_def)

lemma demand_nth_inject:
  "well_bound t ds \<Longrightarrow> i < length ds \<Longrightarrow> j < length ds \<Longrightarrow>
   demand_variable (ds ! i) = demand_variable (ds ! j) \<longleftrightarrow> i = j"
  by (auto simp: well_bound_def distinct_conv_nth)

lemma choice_binding_value:
  assumes w: "well_bound t ds" and "length cs = length ds" "k < length ds"
  shows "binding_values (choice_binding t ds cs) (demand_variable (ds ! k)) = Some (tok_value (snd (cs ! k)))"
proof -
  have "demand_variable (ds ! k) \<in> set (map demand_variable ds)" using assms(3) by simp
  then have "binding_values (choice_binding t ds cs) (demand_variable (ds ! k)) =
      Some (the (choice_values ds cs (demand_variable (ds ! k))))"
    using w by (intro binding_values_built [where xs = "td_inputs t"])
      (simp_all add: well_bound_def choice_binding_def)
  then show ?thesis
    using choice_values_nth [OF assms(2) _ assms(3)] w by (simp add: well_bound_def)
qed

lemma choice_occurrence:
  assumes w: "well_bound t ds" and ds: "ds = demands_of n t"
    and cs: "cs \<in> set (product_lists (map (demand_choices m) ds))" and f: "feasible ds cs"
  shows "\<exists>occ. occurrence n m t (choice_binding t ds cs) occ"
proof -
  have len: "length cs = length ds" using product_lists_length [OF cs] by simp
  define occ where "occ x = the (map_of (zip (map demand_variable ds) (map fst cs)) x)" for x
  have occ: "occ (demand_variable (ds ! k)) = fst (cs ! k)" if "k < length ds" for k
    using map_of_zip_nth [of "map demand_variable ds" "map fst cs" k] w len that
    by (simp add: occ_def well_bound_def)
  have mem: "cs ! k \<in> set (demand_choices m (ds ! k))" if "k < length ds" for k
    using cs that by (simp add: product_lists_iff)
  have "occurrence n m t (choice_binding t ds cs) occ"
    unfolding occurrence_def ds [symmetric] Let_def
  proof (intro conjI ballI impI)
    fix d assume "d \<in> set ds"
    then obtain k where k: "k < length ds" "d = ds ! k" by (auto simp: in_set_conv_nth)
    obtain i tok where c: "cs ! k = (i, tok)" by (cases "cs ! k")
    have "(i, tok) \<in> set (demand_choices m d)" using mem [OF k(1)] k c by simp
    then show "occ (demand_variable d) < length (tokens_at m (demand_place d))"
      "tok_color (tokens_at m (demand_place d) ! occ (demand_variable d)) \<in> set (demand_colors d)"
      "binding_values (choice_binding t ds cs) (demand_variable d) =
         Some (tok_value (tokens_at m (demand_place d) ! occ (demand_variable d)))"
      using occ [OF k(1)] k(2) c choice_binding_value [OF w len k(1)] by (auto simp: demand_choices_iff)
  next
    fix d e assume "d \<in> set ds" "e \<in> set ds"
      and eq: "demand_place d = demand_place e \<and> demand_mode d = demand_mode e \<and>
        occ (demand_variable d) = occ (demand_variable e)"
    then obtain i j where ij: "i < length ds" "d = ds ! i" "j < length ds" "e = ds ! j"
      by (auto simp: in_set_conv_nth)
    with eq have "coordinate (ds ! i, cs ! i) = coordinate (ds ! j, cs ! j)"
      by (simp add: coordinate_def occ)
    then have "i = j" using f ij by (simp add: coordinates_distinct [OF len])
    with ij show "demand_variable d = demand_variable e" by simp
  qed
  then show ?thesis by blast
qed

lemma occurrence_choice:
  assumes w: "well_bound t ds" and ds: "ds = demands_of n t" and occ: "occurrence n m t b occ" and vars: "map as_variable (bind_assignments b) = td_inputs t"
    and tr: "bind_transition b = td_identity t"
  obtains cs where "cs \<in> set (product_lists (map (demand_choices m) ds))" "feasible ds cs"
    "b = choice_binding t ds cs"
proof -
  define pick where "pick d = (occ (demand_variable d), tokens_at m (demand_place d) ! occ (demand_variable d))" for d
  let ?cs = "map pick ds"
  have at: "occ (demand_variable d) < length (tokens_at m (demand_place d)) \<and>
      tok_color (tokens_at m (demand_place d) ! occ (demand_variable d)) \<in> set (demand_colors d) \<and>
      binding_values b (demand_variable d) = Some (tok_value (snd (pick d)))" if "d \<in> set ds" for d
    using occ that by (simp add: occurrence_def ds Let_def pick_def)
  have "pick d \<in> set (demand_choices m d)" if "d \<in> set ds" for d
    using at [OF that] by (simp add: pick_def demand_choices_iff)
  then have "?cs \<in> set (product_lists (map (demand_choices m) ds))"
    by (simp add: product_lists_iff)
  moreover have "feasible ds ?cs"
  proof -
    have "i = j" if "i < length ds" "j < length ds"
      "coordinate (ds ! i, ?cs ! i) = coordinate (ds ! j, ?cs ! j)" for i j
    proof -
      have "demand_variable (ds ! i) = demand_variable (ds ! j)"
        using occ that by (simp add: occurrence_def ds coordinate_def pick_def)
      then show ?thesis using demand_nth_inject [OF w that(1,2)] by simp
    qed
    then show ?thesis by (simp add: coordinates_distinct)
  qed
  moreover have "b = choice_binding t ds ?cs"
  proof -
    have "the (binding_values b x) = the (choice_values ds ?cs x)" if x: "x \<in> set (td_inputs t)" for x
    proof -
      obtain k where k: "k < length ds" "x = demand_variable (ds ! k)"
      proof -
        have "x \<in> demand_variable ` set ds" using x w by (simp add: well_bound_def)
        then show ?thesis using that by (auto simp: in_set_conv_nth)
      qed
      then show ?thesis
        using at [of "ds ! k"] choice_values_nth [OF _ _ k(1), of ?cs] w by (simp add: well_bound_def)
    qed
    then have same: "map (\<lambda>x. \<lparr>as_variable = x, as_value = the (binding_values b x)\<rparr>) (td_inputs t) =
        bind_assignments (choice_binding t ds ?cs)"
      by (simp add: choice_binding_def)
    have "distinct (map as_variable (bind_assignments b))" using w by (simp add: vars well_bound_def)
    from assignments_eq [OF this, unfolded vars same] show ?thesis
      using tr by (simp add: choice_binding_def)
  qed
  ultimately show ?thesis by (rule that)
qed

lemma feasible_iff_choice:
  assumes w: "well_bound t ds" and ds: "ds = demands_of n t"
  shows "binding_feasible n m t b \<longleftrightarrow> (\<exists>cs \<in> set (choices_of n m t). feasible ds cs \<and> b = choice_binding t ds cs)"
proof
  assume b: "binding_feasible n m t b"
  then obtain occ where "\<not> inhibited n m t" "occurrence n m t b occ"
      "map as_variable (bind_assignments b) = td_inputs t" "bind_transition b = td_identity t"
    by (auto simp: binding_feasible_def)
  then show "\<exists>cs \<in> set (choices_of n m t). feasible ds cs \<and> b = choice_binding t ds cs"
    using occurrence_choice [OF w ds, of m b occ] by (auto simp: choices_of_def ds)
next
  assume "\<exists>cs \<in> set (choices_of n m t). feasible ds cs \<and> b = choice_binding t ds cs"
  then obtain cs where cs: "\<not> inhibited n m t" "cs \<in> set (product_lists (map (demand_choices m) ds))"
      "feasible ds cs" "b = choice_binding t ds cs"
    by (auto simp: choices_of_def ds split: if_splits)
  with choice_occurrence [OF w ds cs(2,3)] show "binding_feasible n m t b"
    by (simp add: binding_feasible_def) (simp add: choice_binding_def comp_def)
qed


section \<open>Sets of bindings\<close>

lemma set_add_set: "set (set_add b bs) \<subseteq> insert b (set bs)"
  by (auto simp: set_add_def)

lemma set_add_mono: "set bs \<subseteq> set (set_add b bs)"
  by (auto simp: set_add_def)

lemma set_add_member: "\<exists>c \<in> set (set_add b bs). binding_eq b c"
  by (auto simp: set_add_def list_ex_iff)

lemma set_add_distinct: "distinct (map binding_key bs) \<Longrightarrow> distinct (map binding_key (set_add b bs))"
  by (auto simp: set_add_def list_ex_iff binding_eq_key image_iff)

lemma add_outcome_set: "set (add_outcome bs r) \<subseteq> set bs \<union> set_option r"
  using set_add_set by (auto simp: add_outcome_def split: option.splits)

lemma add_outcome_mono: "set bs \<subseteq> set (add_outcome bs r)"
  using set_add_mono by (auto simp: add_outcome_def split: option.splits)

lemma add_outcome_distinct:
  "distinct (map binding_key bs) \<Longrightarrow> distinct (map binding_key (add_outcome bs r))"
  by (simp add: add_outcome_def set_add_distinct split: option.splits)

lemma add_outcomes_set: "set (foldl add_outcome bs rs) \<subseteq> set bs \<union> {b. Some b \<in> set rs}"
proof (induction rs arbitrary: bs)
  case (Cons r rs)
  show ?case using Cons.IH [of "add_outcome bs r"] add_outcome_set [of bs r]
    by (cases r) (auto simp: add_outcome_def)
qed simp

lemma add_outcomes_mono: "set bs \<subseteq> set (foldl add_outcome bs rs)"
proof (induction rs arbitrary: bs)
  case (Cons r rs)
  then show ?case using add_outcome_mono [of bs r] by fastforce
qed simp

lemma add_outcomes_member: "Some b \<in> set rs \<Longrightarrow> \<exists>c \<in> set (foldl add_outcome bs rs). binding_eq b c"
proof (induction rs arbitrary: bs)
  case (Cons r rs)
  show ?case
  proof (cases "r = Some b")
    case True
    then obtain c where "c \<in> set (add_outcome bs r)" "binding_eq b c"
      using set_add_member by (auto simp: add_outcome_def)
    then show ?thesis using add_outcomes_mono [of "add_outcome bs r" rs] by auto
  next
    case False
    then show ?thesis using Cons by simp
  qed
qed simp

lemma add_outcomes_distinct:
  "distinct (map binding_key bs) \<Longrightarrow> distinct (map binding_key (foldl add_outcome bs rs))"
  by (induction rs arbitrary: bs) (simp_all add: add_outcome_distinct)

section \<open>Guards of valid transitions\<close>

lemma evaluate_value_defined:
  "set (value_variables e) \<subseteq> dom (binding_values b) \<Longrightarrow> \<exists>v. evaluate_value e b = Inr v"
  by (cases e) auto

lemma compare_values_error: "compare_values c x y = Inl e \<Longrightarrow> \<exists>msg. e = TypeError msg"
  by (auto simp: compare_values_def split: if_splits)

lemma all_short_error: "all_short f xs = Inl e \<Longrightarrow> \<exists>x \<in> set xs. f x = Inl e"
  by (induction xs) (auto simp: bindr_Inl_iff split: if_splits)

lemma any_short_error: "any_short f xs = Inl e \<Longrightarrow> \<exists>x \<in> set xs. f x = Inl e"
  by (induction xs) (auto simp: bindr_Inl_iff split: if_splits)

lemma evaluate_guard_error:
  "set (guard_variables g) \<subseteq> dom (binding_values b) \<Longrightarrow> evaluate_guard g b = Inl e \<Longrightarrow> \<exists>msg. e = TypeError msg"
proof (induction g)
  case (GAll gs)
  then obtain g where "g \<in> set gs" "evaluate_guard g b = Inl e" by (auto dest: all_short_error)
  with GAll show ?case by (fastforce simp: subset_iff)
next
  case (GAny gs)
  then obtain g where "g \<in> set gs" "evaluate_guard g b = Inl e" by (auto dest: any_short_error)
  with GAny show ?case by (fastforce simp: subset_iff)
next
  case (GNot g)
  then show ?case by (simp add: bindr_Inl_iff)
next
  case (GCompare c l r)
  then obtain x y where "evaluate_value l b = Inr x" "evaluate_value r b = Inr y"
    using evaluate_value_defined [of l b] evaluate_value_defined [of r b] by auto
  with GCompare show ?case by (auto dest: compare_values_error)
qed simp_all

lemma choice_binding_dom:
  "dom (binding_values (choice_binding t ds cs)) = set (td_inputs t)"
  by (simp add: binding_values_def choice_binding_def dict_of_def dom_map_of_conv_image_fst image_image comp_def)

lemma guard_of_choice:
  assumes "net_ok n" "definition_valid n" "t \<in> set (n_transitions n)"
    and "evaluate_guard (td_guard t) (choice_binding t ds cs) = Inl e"
  shows "\<exists>msg. e = TypeError msg"
proof (rule evaluate_guard_error [OF _ assms(4)])
  show "set (guard_variables (td_guard t)) \<subseteq> dom (binding_values (choice_binding t ds cs))"
    using assms(2,3) by (simp add: choice_binding_dom definition_valid_def transition_valid_def)
qed

text \<open>The enumeration is guard-total when no feasible binding's guard raises.\<close>

definition guards_total :: "net \<Rightarrow> marking \<Rightarrow> bool" where
  "guards_total n m \<longleftrightarrow>
     (\<forall>t \<in> set (n_transitions n). \<forall>b. binding_feasible n m t b \<longrightarrow> is_ok (evaluate_guard (td_guard t) b))"

lemma all_choices_iff: "(t, cs) \<in> set (all_choices n m) \<longleftrightarrow> t \<in> set (n_transitions n) \<and> cs \<in> set (choices_of n m t)"
  by (auto simp: all_choices_def)

lemma outcome_ok:
  assumes "net_ok n" "definition_valid n" "x \<in> set (all_choices n m)"
  shows "is_ok (outcome_of n x)"
proof -
  obtain t cs where x: "x = (t, cs)" by (cases x)
  have t: "t \<in> set (n_transitions n)" using assms(3) by (simp add: x all_choices_iff)
  show ?thesis
    using guard_of_choice [OF assms(1,2) t, of "demands_of n t" cs]
    by (auto simp: x outcome_of_def choice_outcome_def split: sum.splits py_exn.splits)
qed

lemma outcome_fault:
  assumes "net_ok n" "definition_valid n" "x \<in> set (all_choices n m)" "outcome_of n x = Inr (Inl (q, e))"
  shows "\<exists>t \<in> set (n_transitions n). \<exists>b. td_identity t = q \<and> binding_feasible n m t b \<and>
    evaluate_guard (td_guard t) b = Inl e"
proof -
  obtain t cs where x: "x = (t, cs)" by (cases x)
  have t: "t \<in> set (n_transitions n)" "cs \<in> set (choices_of n m t)"
    using assms(3) by (simp_all add: x all_choices_iff)
  let ?b = "choice_binding t (demands_of n t) cs"
  have "feasible (demands_of n t) cs" "q = td_identity t" "evaluate_guard (td_guard t) ?b = Inl e"
    using assms(4)
    by (auto simp: x outcome_of_def choice_outcome_def split: if_splits sum.splits py_exn.splits)
  moreover from this t have "binding_feasible n m t ?b"
    using feasible_iff_choice [OF demands_well_bound [OF assms(1,2) t(1)] refl] by blast
  ultimately show ?thesis using t(1) by blast
qed

lemma outcome_binding:
  assumes "net_ok n" "definition_valid n"
  shows "(\<exists>x \<in> set (all_choices n m). outcome_of n x = Inr (Inr (Some b))) \<longleftrightarrow> binding_enabled n m b"
proof -
  have "outcome_of n (t, cs) = Inr (Inr (Some b)) \<longleftrightarrow>
      feasible (demands_of n t) cs \<and> b = choice_binding t (demands_of n t) cs \<and>
      evaluate_guard (td_guard t) b = Inr True" for t cs
    by (auto simp: outcome_of_def choice_outcome_def split: sum.splits py_exn.splits)
  moreover have "binding_feasible n m t b \<longleftrightarrow>
      (\<exists>cs \<in> set (choices_of n m t). feasible (demands_of n t) cs \<and> b = choice_binding t (demands_of n t) cs)"
    if "t \<in> set (n_transitions n)" for t
    by (rule feasible_iff_choice [OF demands_well_bound [OF assms that] refl])
  ultimately show ?thesis
    unfolding binding_enabled_def Bex_def split_paired_Ex all_choices_iff by blast
qed

lemma enumerate_bindings_Inr:
  assumes "net_ok n" "definition_valid n" "marking_valid n m"
    and e: "enumerate_bindings n m = Inr (Inr bs)"
  shows "\<And>b. b \<in> set bs \<Longrightarrow> binding_enabled n m b"
    and "\<And>b. binding_enabled n m b \<Longrightarrow> \<exists>c \<in> set bs. binding_eq b c"
    and "distinct (map binding_key bs)"
proof -
  obtain rs where rs: "list_all2 (\<lambda>x b. outcome_of n x = Inr (Inr b)) (all_choices n m) rs"
    and bs: "bs = foldl add_outcome [] rs"
    using e unfolding enumerate_bindings_eq [OF assms(1-3)] loop_exit_collecting_Inr by blast
  have "map (outcome_of n) (all_choices n m) = map (\<lambda>b. Inr (Inr b)) rs"
    using rs by (simp add: map_eq_list_all2)
  then have "set (map (outcome_of n) (all_choices n m)) = set (map (\<lambda>b. Inr (Inr b)) rs)" by simp
  then have im: "outcome_of n ` set (all_choices n m) = (\<lambda>b. Inr (Inr b)) ` set rs" by simp
  have mem: "Some b \<in> set rs \<longleftrightarrow> binding_enabled n m b" for b
  proof -
    have "Some b \<in> set rs \<longleftrightarrow> Inr (Inr (Some b)) \<in> outcome_of n ` set (all_choices n m)"
      unfolding im by auto
    also have "\<dots> \<longleftrightarrow> binding_enabled n m b"
      unfolding outcome_binding [OF assms(1,2), of m b, symmetric] by force
    finally show ?thesis .
  qed
  show "b \<in> set bs \<Longrightarrow> binding_enabled n m b" for b
    using add_outcomes_set [of "[]" rs] mem by (auto simp: bs)
  show "binding_enabled n m b \<Longrightarrow> \<exists>c \<in> set bs. binding_eq b c" for b
    using add_outcomes_member mem by (simp add: bs)
  show "distinct (map binding_key bs)" unfolding bs by (rule add_outcomes_distinct) simp
qed

lemma enumerate_bindings_cases:
  assumes "net_ok n" "definition_valid n" "marking_valid n m"
  obtains (fault) q e t b where "enumerate_bindings n m = Inr (Inl (q, e))" "t \<in> set (n_transitions n)"
      "td_identity t = q" "binding_feasible n m t b" "evaluate_guard (td_guard t) b = Inl e"
  | (bindings) bs where "enumerate_bindings n m = Inr (Inr bs)"
proof (rule loop_exit_collecting_cases [of "all_choices n m" "outcome_of n" add_outcome "[]"])
  show "is_ok (outcome_of n x)" if "x \<in> set (all_choices n m)" for x
    by (rule outcome_ok [OF assms(1,2) that])
  show thesis if "loop_exit (collecting (outcome_of n) add_outcome) (all_choices n m) [] = Inr (Inl f)"
      "x \<in> set (all_choices n m)" "outcome_of n x = Inr (Inl f)" for f x
    using outcome_fault [OF assms(1,2) that(2), of "fst f" "snd f"] that(1,3) fault [of "fst f" "snd f"]
    by (auto simp: enumerate_bindings_eq [OF assms])
  show thesis if "loop_exit (collecting (outcome_of n) add_outcome) (all_choices n m) [] = Inr (Inr s)" for s
    using that bindings by (simp add: enumerate_bindings_eq [OF assms])
qed


lemma enumerate_bindings_total:
  assumes "net_ok n" "definition_valid n" "marking_valid n m"
  shows "(\<exists>bs. enumerate_bindings n m = Inr (Inr bs)) \<longleftrightarrow> guards_total n m"
proof
  assume "\<exists>bs. enumerate_bindings n m = Inr (Inr bs)"
  then obtain rs where rs: "list_all2 (\<lambda>x b. outcome_of n x = Inr (Inr b)) (all_choices n m) rs"
    unfolding enumerate_bindings_eq [OF assms] loop_exit_collecting_Inr by blast
  have ok: "\<exists>r. outcome_of n x = Inr (Inr r)" if "x \<in> set (all_choices n m)" for x
    using rs that by (auto simp: list_all2_conv_all_nth in_set_conv_nth)
  show "guards_total n m"
    unfolding guards_total_def
  proof (intro ballI allI impI)
    fix t b assume t: "t \<in> set (n_transitions n)" and b: "binding_feasible n m t b"
    obtain cs where cs: "cs \<in> set (choices_of n m t)" "feasible (demands_of n t) cs"
        "b = choice_binding t (demands_of n t) cs"
      using b feasible_iff_choice [OF demands_well_bound [OF assms(1,2) t] refl] by blast
    obtain r where "outcome_of n (t, cs) = Inr (Inr r)"
      using ok [of "(t, cs)"] t cs(1) by (auto simp: all_choices_iff)
    then show "is_ok (evaluate_guard (td_guard t) b)"
      using cs(2,3) by (auto simp: outcome_of_def choice_outcome_def split: sum.splits py_exn.splits)
  qed
next
  assume g: "guards_total n m"
  show "\<exists>bs. enumerate_bindings n m = Inr (Inr bs)"
  proof (rule enumerate_bindings_cases [OF assms])
    fix q e t b
    assume "t \<in> set (n_transitions n)" "binding_feasible n m t b" and r: "evaluate_guard (td_guard t) b = Inl e"
    with g have "is_ok (evaluate_guard (td_guard t) b)" unfolding guards_total_def by blast
    with r show ?thesis by simp
  qed blast
qed


section \<open>Canonical order of the result\<close>

definition order_key :: "net \<Rightarrow> binding \<Rightarrow> nat \<times> value_key list" where
  "order_key n b = (the (priority_of n (bind_transition b)), value_keys b)"

lemma priority_of_dom: "priority_of n t \<noteq> None \<longleftrightarrow> t \<in> set (n_priority n)"
proof -
  have "priority_of n t = None \<longleftrightarrow> t \<notin> snd ` set (enumerate 0 (n_priority n))"
    unfolding priority_of_def dict_of_None_iff by force
  also have "snd ` set (enumerate 0 (n_priority n)) = set (n_priority n)"
    by (metis map_snd_enumerate set_map)
  finally show ?thesis by simp
qed

lemma priority_of_nth:
  assumes "distinct (n_priority n)" "k < length (n_priority n)"
  shows "priority_of n (n_priority n ! k) = Some k"
proof -
  have "map fst (map (\<lambda>(position, t). (t, position)) (enumerate 0 (n_priority n))) = n_priority n"
    by (simp add: comp_def case_prod_unfold)
  then have "distinct (map fst (map (\<lambda>(position, t). (t, position)) (enumerate 0 (n_priority n))))"
    using assms(1) by simp
  then show ?thesis
    unfolding priority_of_def
    by (subst dict_of_Some_iff)
      (use assms(2) in \<open>auto simp: in_set_enumerate_eq intro!: image_eqI [of _ _ "(k, n_priority n ! k)"]\<close>)
qed

lemma priority_of_inj:
  assumes "distinct (n_priority n)" "priority_of n s = Some k" "priority_of n t = Some k"
  shows "s = t"
proof -
  have "u = n_priority n ! k" if "priority_of n u = Some k" for u
  proof -
    have "u \<in> set (n_priority n)" using that priority_of_dom [of n u] by simp
    then obtain i where "i < length (n_priority n)" "u = n_priority n ! i" by (auto simp: in_set_conv_nth)
    with that priority_of_nth [OF assms(1), of i] show ?thesis by simp
  qed
  from this [OF assms(2)] this [OF assms(3)] show ?thesis by simp
qed

lemma order_bindings_eq:
  assumes "\<And>b. b \<in> set bs \<Longrightarrow> bind_transition b \<in> set (n_priority n)"
  shows "order_bindings n bs = Inr (sort_key (order_key n) bs)"
proof -
  have "mapr (enablement_order_key n) bs = Inr (map (order_key n) bs)"
  proof (rule mapr_ok_map)
    fix b assume "b \<in> set bs"
    then have "priority_of n (bind_transition b) \<noteq> None"
      using assms priority_of_dom [THEN iffD2] by blast
    then show "enablement_order_key n b = Inr (order_key n b)"
      by (auto simp: enablement_order_key_def order_key_def)
  qed
  moreover have "zip (map (order_key n) bs) bs = map (\<lambda>b. (order_key n b, b)) bs"
    by (simp add: zip_map1 zip_same_conv_map)
  moreover have "map snd (sort_key fst (map (\<lambda>b. (order_key n b, b)) bs)) = sort_key (order_key n) bs"
    by (rule sort_key_decorated)
  ultimately show ?thesis by (simp add: order_bindings_def)
qed

lemma enabled_transition:
  assumes "net_ok n" "binding_enabled n m b"
  obtains t where "t \<in> set (n_transitions n)" "td_identity t = bind_transition b"
    "map as_variable (bind_assignments b) = td_inputs t" "bind_transition b \<in> set (n_priority n)"
proof -
  from assms(2) obtain t where t: "t \<in> set (n_transitions n)" "td_identity t = bind_transition b"
      "map as_variable (bind_assignments b) = td_inputs t"
    by (auto simp: binding_enabled_def binding_feasible_def)
  moreover have "bind_transition b \<in> set (n_priority n)"
    using assms(1) t by (force simp: net_ok_def)
  ultimately show ?thesis by (rule that)
qed

lemma order_key_binding_key:
  assumes n: "net_ok n" and b: "binding_enabled n m b" and c: "binding_enabled n m c"
    and eq: "order_key n b = order_key n c"
  shows "binding_key b = binding_key c"
proof -
  obtain s where s: "s \<in> set (n_transitions n)" "td_identity s = bind_transition b"
      "map as_variable (bind_assignments b) = td_inputs s" "bind_transition b \<in> set (n_priority n)"
    by (rule enabled_transition [OF n b])
  obtain t where t: "t \<in> set (n_transitions n)" "td_identity t = bind_transition c"
      "map as_variable (bind_assignments c) = td_inputs t" "bind_transition c \<in> set (n_priority n)"
    by (rule enabled_transition [OF n c])
  have tr: "bind_transition b = bind_transition c"
  proof -
    obtain j k where "priority_of n (bind_transition b) = Some j" "priority_of n (bind_transition c) = Some k"
      using s(4) t(4) priority_of_dom by blast
    moreover from this have "j = k" using eq by (simp add: order_key_def)
    moreover have "distinct (n_priority n)" using n by (simp add: net_ok_def)
    ultimately show ?thesis using priority_of_inj by blast
  qed
  then have "s = t"
    using s(1,2) t(1,2) net_transitions_distinct [OF n] by (auto simp: distinct_map inj_on_def)
  then have "map as_variable (bind_assignments b) = map as_variable (bind_assignments c)"
    using s(3) t(3) by simp
  moreover have "value_keys b = value_keys c" using eq by (simp add: order_key_def)
  ultimately show ?thesis
    using tr by (simp add: binding_key_def value_keys_def assignment_key_def map_eq_list_all2
        list_all2_conv_all_nth)
qed


section \<open>The enabler's result\<close>

lemma enablement_identity_ok:
  "\<exists>i. enablement_identity n m ev ord en bs failure = Inr i"
  by (simp add: enablement_identity_def mk_enablement_id_def)

lemma enablement_failed_ok:
  assumes "phase \<noteq> []" "expected \<noteq> []" "observed \<noteq> []" "diagnostic \<noteq> []"
  obtains r f where "enablement_failed n m ev ord code phase expected observed diagnostic issues = Inr r"
    "er_bindings r = None" "er_failure r = Some f" "ef_code f = code" "ef_issues f = issues"
    "er_definition r = n_identity n" "er_marking r = mk_identity m" "er_policy r = n_policy n"
proof -
  define state where "state = JList [JStr (enablement_code_text code), JStr phase, JStr expected,
      JStr observed, JStr diagnostic, JList (map issue_state issues)]"
  obtain i where i: "enablement_identity n m ev ord enabler_v1 None (Some state) = Inr i"
    using enablement_identity_ok by blast
  have b: "enablement_boundary \<noteq> [] \<and> \<not> list_ex (\<lambda>s. s = []) enablement_boundary"
    by (simp add: enablement_boundary_def)
  show ?thesis
    by (rule that [of
        "\<lparr>er_identity = i, er_definition = n_identity n, er_policy = n_policy n,
          er_marking = mk_identity m, er_evaluator = ev, er_ordering = ord,
          er_enabler = enabler_v1, er_bindings = None, er_failure =
            Some \<lparr>ef_identity = EnablementFailureId i, ef_code = code, ef_phase = phase,
              ef_expected = expected, ef_observed = observed, ef_diagnostic = diagnostic,
              ef_issues = issues, ef_boundary = enablement_boundary\<rparr>\<rparr>"
        "\<lparr>ef_identity = EnablementFailureId i, ef_code = code, ef_phase = phase,
              ef_expected = expected, ef_observed = observed, ef_diagnostic = diagnostic,
              ef_issues = issues, ef_boundary = enablement_boundary\<rparr>"])
      (use assms b in \<open>simp_all add: enablement_failed_def Let_def i [unfolded state_def]
        mk_enablement_failure_def mk_enablement_def\<close>)
qed

lemma exn_text_nonempty: "exn_text e \<noteq> []"
  by (cases e) simp_all

definition enablement_verdict :: "net \<Rightarrow> marking \<Rightarrow> evaluator_id \<Rightarrow> ordering_id \<Rightarrow> enablement_code option" where
  "enablement_verdict n m ev ord =
     (if \<not> definition_valid n then Some EInvalidDefinition
      else if \<not> marking_valid n m then Some EInvalidMarking
      else if ev \<noteq> evaluator_v1 then Some EUnsupportedEvaluator
      else if ord \<noteq> ordering_v1 then Some EUnsupportedOrdering
      else if \<not> guards_total n m then Some EGuardFailed
      else None)"

lemma is_valid_definition:
  "net_ok n \<Longrightarrow> validate_definition n = Inr is \<Longrightarrow> is_valid is \<longleftrightarrow> definition_valid n"
  using validate_definition_Nil [of n] by (auto simp: is_valid_def)

lemma is_valid_marking:
  "net_ok n \<Longrightarrow> marking_ok m \<Longrightarrow> validate_marking n m = Inr is \<Longrightarrow> is_valid is \<longleftrightarrow> marking_valid n m"
  using validate_marking_Nil [of n m] by (auto simp: is_valid_def)

definition result_of :: "net \<Rightarrow> marking \<Rightarrow> evaluator_id \<Rightarrow> ordering_id \<Rightarrow> enablement \<Rightarrow> bool" where
  "result_of n m ev ord r \<longleftrightarrow>
     er_definition r = n_identity n \<and> er_marking r = mk_identity m \<and> er_policy r = n_policy n \<and>
     map_option ef_code (er_failure r) = enablement_verdict n m ev ord \<and>
     (er_bindings r = None \<longleftrightarrow> er_failure r \<noteq> None) \<and>
     (\<forall>bs. er_bindings r = Some bs \<longrightarrow>
        enumerate_bindings n m \<in> (\<lambda>cs. Inr (Inr cs)) ` {cs. bs = sort_key (order_key n) cs \<and>
          distinct (map binding_key cs) \<and> (\<forall>b \<in> set cs. binding_enabled n m b)})"

lemma enable_success:
  assumes n: "net_ok n" and v: "definition_valid n" and mv: "marking_valid n m"
    and e: "enumerate_bindings n m = Inr (Inr cs)"
  obtains r where "bindr (order_bindings n cs) (\<lambda>ordered.
           bindr (enablement_identity n m ev ord enabler_v1 (Some ordered) None) (\<lambda>i.
             mk_enablement
               \<lparr>er_identity = i, er_definition = n_identity n, er_policy = n_policy n,
                er_marking = mk_identity m, er_evaluator = ev, er_ordering = ord,
                er_enabler = enabler_v1, er_bindings = Some ordered, er_failure = None\<rparr>)) = Inr r"
    "er_bindings r = Some (sort_key (order_key n) cs)" "er_failure r = None"
    "er_definition r = n_identity n" "er_marking r = mk_identity m" "er_policy r = n_policy n"
proof -
  note en = enumerate_bindings_Inr [OF n v mv e]
  have "bind_transition b \<in> set (n_priority n)" if "b \<in> set cs" for b
    using enabled_transition [OF n en(1) [OF that]] by blast
  then have o: "order_bindings n cs = Inr (sort_key (order_key n) cs)" by (rule order_bindings_eq)
  have d: "distinct (map binding_key (sort_key (order_key n) cs))"
    using en(3) distinct_mset_eq [of "map binding_key (sort_key (order_key n) cs)" "map binding_key cs"]
    by simp
  obtain i where i: "enablement_identity n m ev ord enabler_v1 (Some (sort_key (order_key n) cs)) None = Inr i"
    using enablement_identity_ok by blast
  show ?thesis
    by (rule that [of "\<lparr>er_identity = i, er_definition = n_identity n, er_policy = n_policy n,
                er_marking = mk_identity m, er_evaluator = ev, er_ordering = ord,
                er_enabler = enabler_v1, er_bindings = Some (sort_key (order_key n) cs), er_failure = None\<rparr>"])
      (use d in \<open>simp_all add: o i mk_enablement_def\<close>)
qed

lemma enable_with_result:
  assumes n: "net_ok n" and m: "marking_ok m" and ev: "evaluator_value ev \<noteq> []" and ord: "ordering_value ord \<noteq> []"
  shows "\<exists>r. enable_with n m ev ord = Inr r \<and> result_of n m ev ord r"
proof -
  obtain dis where dis: "validate_definition n = Inr dis" using validate_definition_eq [OF n] by blast
  obtain mis where mis: "validate_marking n m = Inr mis" using validate_marking_eq [OF n m] by blast
  note dv = is_valid_definition [OF n dis] and mv = is_valid_marking [OF n m mis]
  have ne: "evaluator_value evaluator_v1 \<noteq> []" "ordering_value ordering_v1 \<noteq> []"
    by (simp_all add: evaluator_v1_def ordering_v1_def)
  have failed: "\<exists>r. enablement_failed n m ev ord code phase expected observed diagnostic issues = Inr r \<and>
      result_of n m ev ord r"
    if ne: "phase \<noteq> []" "expected \<noteq> []" "observed \<noteq> []" "diagnostic \<noteq> []"
      and verdict: "enablement_verdict n m ev ord = Some code" for code phase expected observed diagnostic issues
  proof -
    obtain r f where r: "enablement_failed n m ev ord code phase expected observed diagnostic issues = Inr r"
      "er_bindings r = None" "er_failure r = Some f" "ef_code f = code" "ef_issues f = issues"
      "er_definition r = n_identity n" "er_marking r = mk_identity m" "er_policy r = n_policy n"
      using enablement_failed_ok [OF ne] by metis
    then show ?thesis using verdict by (simp add: result_of_def)
  qed
  show ?thesis
  proof -
    consider (bad_definition) "\<not> definition_valid n"
      | (bad_marking) "definition_valid n" "\<not> marking_valid n m"
      | (bad_evaluator) "definition_valid n" "marking_valid n m" "ev \<noteq> evaluator_v1"
      | (bad_ordering) "definition_valid n" "marking_valid n m" "ev = evaluator_v1" "ord \<noteq> ordering_v1"
      | (supported) "definition_valid n" "marking_valid n m" "ev = evaluator_v1" "ord = ordering_v1"
      by blast
    then show ?thesis
    proof cases
      case bad_definition
      then have "enablement_verdict n m ev ord = Some EInvalidDefinition" by (simp add: enablement_verdict_def)
      from failed [OF _ _ _ _ this] show ?thesis
        using bad_definition dv by (simp add: enable_with_def dis)
    next
      case bad_marking
      then have "enablement_verdict n m ev ord = Some EInvalidMarking" by (simp add: enablement_verdict_def)
      from failed [OF _ _ _ _ this] show ?thesis
        using bad_marking dv mv by (simp add: enable_with_def dis mis)
    next
      case bad_evaluator
      then have "enablement_verdict n m ev ord = Some EUnsupportedEvaluator" by (simp add: enablement_verdict_def)
      from failed [OF _ ne(1) ev _ this] show ?thesis
        using bad_evaluator dv mv by (simp add: enable_with_def dis mis)
    next
      case bad_ordering
      then have "enablement_verdict n m ev ord = Some EUnsupportedOrdering" by (simp add: enablement_verdict_def)
      from failed [OF _ ne(2) ord _ this] show ?thesis
        using bad_ordering dv mv by (simp add: enable_with_def dis mis)
    next
      case supported
    note v = supported
    show ?thesis
    proof (rule enumerate_bindings_cases [OF n v(1,2)])
      fix q e t b assume r: "enumerate_bindings n m = Inr (Inl (q, e))"
      then have "\<not> guards_total n m" using enumerate_bindings_total [OF n v(1,2)] by simp
      then have "enablement_verdict n m ev ord = Some EGuardFailed" using v by (simp add: enablement_verdict_def)
      from failed [OF _ _ _ exn_text_nonempty [of e] this] show ?thesis
        using v dv mv by (simp add: enable_with_def dis mis r)
    next
      fix cs assume r: "enumerate_bindings n m = Inr (Inr cs)"
      then have g: "guards_total n m" using enumerate_bindings_total [OF n v(1,2)] by simp
      note en = enumerate_bindings_Inr [OF n v(1,2) r]
      show ?thesis
        by (rule enable_success [OF n v(1,2) r, of ev ord])
          (use v dv mv g en in \<open>simp add: enable_with_def dis mis r result_of_def enablement_verdict_def\<close>)
    qed
    qed
  qed
qed

end
