(* ===== verification/Cpn_Reconstruct.thy ===== *)
theory Cpn_Reconstruct
  imports Cpn_Firing Cpn_Enabled
begin

text \<open>
  What the firer's reconstruction computes.  The scan of the input arcs and the loop over
  candidate assignments collapse to a search for the first feasible element of a product of
  candidate lists; the theory shows that every binding equal to an enabled one is reconstructed,
  and what the reconstructed occurrences are.
\<close>

section \<open>Input demands with their coordinates\<close>

definition arc_input_demands :: "arc_definition \<Rightarrow> input_demand list" where
  "arc_input_demands a =
     (case arc_input a of
        None \<Rightarrow> []
      | Some i \<Rightarrow> if ii_mode i = Inhibit then []
                  else [(a, ii_mode i, k, tp). (k, TokenPattern tp) \<leftarrow> enumerate 0 (ii_patterns i)])"

definition input_demands :: "net \<Rightarrow> transition_definition \<Rightarrow> input_demand list" where
  "input_demands n t = concat (map arc_input_demands (transition_arcs n t))"

definition plain_demand :: "input_demand \<Rightarrow> demand" where
  "plain_demand d = (ad_place (fst d), fst (snd d), snd (snd (snd d)))"

definition input_choices :: "marking \<Rightarrow> binding \<Rightarrow> input_demand \<Rightarrow> choice list" where
  "input_choices m b d =
     filter (\<lambda>(ordinal, token). tok_color token \<in> set (demand_colors (plain_demand d)) \<and>
               value_eq (tok_value token) (the (binding_values b (demand_variable (plain_demand d)))))
       (enumerate 0 (tokens_at m (demand_place (plain_demand d))))"

definition arc_audits :: "arc_definition \<Rightarrow> inhibitor_evaluation list" where
  "arc_audits a =
     (case arc_input a of
        None \<Rightarrow> []
      | Some i \<Rightarrow> if ii_mode i = Inhibit
          then map (\<lambda>(k, pat). \<lparr>iv_arc = ad_identity a, iv_place = ad_place a, iv_pattern = int k, iv_count = 0\<rparr>)
                 (enumerate 0 (ii_patterns i))
          else [])"

lemma enumerate_patterns_plain:
  "map plain_demand [(a, mode, k, tp). (k, TokenPattern tp) \<leftarrow> enumerate j ps] =
   [(ad_place a, mode, tp). TokenPattern tp \<leftarrow> ps]"
proof (induction ps arbitrary: j)
  case (Cons pat ps)
  then show ?case by (cases pat) (simp_all add: plain_demand_def)
qed simp

lemma arc_input_demands_plain: "map plain_demand (arc_input_demands a) = arc_demands a"
  by (simp add: arc_input_demands_def arc_demands_def enumerate_patterns_plain
      del: arc_input.simps split: option.split)

lemma input_demands_plain: "map plain_demand (input_demands n t) = demands_of n t"
  by (simp add: input_demands_def demands_of_def map_concat arc_input_demands_plain comp_def)

section \<open>The scan\<close>

lemma reconstruct_patterns_eq:
  assumes "list_all is_token_pattern (map snd kps)" "tokens = tokens_at m (ad_place a)"
    and "\<And>k tp. (k, TokenPattern tp) \<in> set kps \<Longrightarrow> binding_values b (tp_variable tp) \<noteq> None"
  shows "reconstruct_patterns (binding_values b) a mode tokens kps =
     Inr (map (\<lambda>d. (d, input_choices m b d)) [(a, mode, k, tp). (k, TokenPattern tp) \<leftarrow> kps])"
  using assms(1,3)
proof (induction kps)
  case (Cons kp kps)
  obtain k pat where kp: "kp = (k, pat)" by (cases kp)
  obtain tp where tp: "pat = TokenPattern tp" using Cons.prems(1) by (cases pat) (simp_all add: kp)
  obtain v where v: "binding_values b (tp_variable tp) = Some v" using Cons.prems(2) [of k tp] by (auto simp: kp tp)
  have "reconstruct_patterns (binding_values b) a mode tokens kps =
     Inr (map (\<lambda>d. (d, input_choices m b d)) [(a, mode, k, tp). (k, TokenPattern tp) \<leftarrow> kps])"
    by (rule Cons.IH) (use Cons.prems in auto)
  then show ?case
    by (simp add: kp tp v assms(2) input_choices_def plain_demand_def demand_colors_def demand_place_def
        demand_variable_def)
qed simp

lemma audit_inhibitors_eq:
  "audit_inhibitors a tokens kps audited =
     Inr (if list_ex (\<lambda>(k, pat). inhibiting tokens pat) kps then None
          else Some (audited @ map (\<lambda>(k, pat).
            \<lparr>iv_arc = ad_identity a, iv_place = ad_place a, iv_pattern = int k, iv_count = 0\<rparr>) kps))"
proof (induction kps arbitrary: audited)
  case (Cons kp kps)
  obtain k pat where kp: "kp = (k, pat)" by (cases kp)
  have "length (filter (\<lambda>token. tok_color token \<in> set (pattern_colors pat)) tokens) = 0 \<longleftrightarrow>
      \<not> inhibiting tokens pat"
    by (simp add: inhibiting_def list_ex_iff filter_empty_conv)
  then show ?case by (simp add: kp mk_inhibitor_evaluation_def Cons.IH Let_def)
qed simp

lemma list_ex_enumerate: "list_ex (\<lambda>(k, x). P x) (enumerate j xs) \<longleftrightarrow> list_ex P xs"
  by (induction xs arbitrary: j) simp_all

lemma reconstruct_scan_eq:
  assumes "list_all (scannable m) as"
    and "\<And>d. d \<in> set (concat (map arc_demands as)) \<Longrightarrow> binding_values b (demand_variable d) \<noteq> None"
  shows "reconstruct_scan (tokens_by_place m) (binding_values b) as slots audited =
     Inr (if list_ex (arc_inhibited m) as then None
          else Some (slots @ map (\<lambda>d. (d, input_choices m b d)) (concat (map arc_input_demands as)),
                     audited @ concat (map arc_audits as)))"
  using assms
proof (induction as arbitrary: slots audited)
  case (Cons a as)
  then obtain i ts where i: "arc_input a = Some i" "input_ok i"
    and ts: "tokens_by_place m (ad_place a) = Some ts"
    by (auto simp: scannable_def)
  have at: "tokens_at m (ad_place a) = ts" by (simp add: tokens_at_def ts)
  show ?case
  proof (cases "ii_mode i = Inhibit")
    case True
    have "list_ex (inhibiting ts) (ii_patterns i) \<longleftrightarrow> arc_inhibited m a"
      by (simp add: arc_inhibited_def i at True inhibiting_def list_ex_iff del: arc_input.simps)
    moreover have "arc_input_demands a = []" by (simp add: arc_input_demands_def i True del: arc_input.simps)
    moreover have "arc_audits a = map (\<lambda>(k, pat). \<lparr>iv_arc = ad_identity a, iv_place = ad_place a,
        iv_pattern = int k, iv_count = 0\<rparr>) (enumerate 0 (ii_patterns i))"
      by (simp add: arc_audits_def i True del: arc_input.simps)
    ultimately show ?thesis
      using Cons by (simp add: i ts True audit_inhibitors_eq list_ex_enumerate del: arc_input.simps)
  next
    case False
    have "\<not> arc_inhibited m a" by (simp add: arc_inhibited_def i False del: arc_input.simps)
    moreover have "list_all is_token_pattern (map snd (enumerate 0 (ii_patterns i)))"
      using i(2) False by (simp add: input_ok_def list_all_iff)
    moreover have d: "arc_input_demands a =
        [(a, ii_mode i, k, tp). (k, TokenPattern tp) \<leftarrow> enumerate 0 (ii_patterns i)]"
      by (simp add: arc_input_demands_def i False del: arc_input.simps)
    moreover have "arc_audits a = []" by (simp add: arc_audits_def i False del: arc_input.simps)
    moreover have "binding_values b (tp_variable tp) \<noteq> None"
      if "(k, TokenPattern tp) \<in> set (enumerate 0 (ii_patterns i))" for k tp
    proof -
      have "(ad_place a, ii_mode i, tp) \<in> set (arc_demands a)"
        using in_enumerateD [OF that] by (force simp: arc_demands_def i False simp del: arc_input.simps)
      then show ?thesis using Cons.prems(2) [of "(ad_place a, ii_mode i, tp)"] by (simp add: demand_variable_def)
    qed
    ultimately show ?thesis
      using Cons by (simp add: i ts False reconstruct_patterns_eq [OF _ at [symmetric]] del: arc_input.simps)
  qed
qed simp


section \<open>The search\<close>

definition occurrence_of :: "input_demand \<times> choice \<Rightarrow> token_occurrence" where
  "occurrence_of = (\<lambda>((a, mode, k, tp), (ordinal, token)).
     \<lparr>oc_arc = ad_identity a, oc_place = ad_place a, oc_pattern = int k, oc_ordinal = int ordinal,
      oc_token = token\<rparr>)"

definition demand_is_consume :: "input_demand \<Rightarrow> bool" where
  "demand_is_consume d \<longleftrightarrow> fst (snd d) = Consume"

definition consumed_of :: "input_demand list \<Rightarrow> choice list \<Rightarrow> token_occurrence list" where
  "consumed_of ds cs = map occurrence_of (filter (\<lambda>dc. demand_is_consume (fst dc)) (zip ds cs))"

definition read_of :: "input_demand list \<Rightarrow> choice list \<Rightarrow> token_occurrence list" where
  "read_of ds cs = map occurrence_of (filter (\<lambda>dc. \<not> demand_is_consume (fst dc)) (zip ds cs))"

definition plain_choice :: "input_demand \<times> choice \<Rightarrow> demand \<times> choice" where
  "plain_choice dc = (plain_demand (fst dc), snd dc)"

lemma place_occurrences_eq:
  "place_occurrences dcs reserved consumed rd =
     Inr (if distinct (map (coordinate \<circ> plain_choice) dcs) \<and>
             set (map (coordinate \<circ> plain_choice) dcs) \<inter> set reserved = {}
          then Some (consumed @ map occurrence_of (filter (\<lambda>dc. demand_is_consume (fst dc)) dcs),
                     rd @ map occurrence_of (filter (\<lambda>dc. \<not> demand_is_consume (fst dc)) dcs))
          else None)"
proof (induction dcs arbitrary: reserved consumed rd)
  case (Cons dc dcs)
  obtain a mode k tp ordinal token where dc: "dc = ((a, mode, k, tp), (ordinal, token))" by (metis surj_pair)
  have co: "(coordinate \<circ> plain_choice) dc = (ad_place a, mode, ordinal)"
    by (simp add: dc coordinate_def plain_choice_def plain_demand_def demand_place_def demand_mode_def)
  have oc: "occurrence_of dc = \<lparr>oc_arc = ad_identity a, oc_place = ad_place a, oc_pattern = int k,
      oc_ordinal = int ordinal, oc_token = token\<rparr>"
    by (simp add: dc occurrence_of_def)
  have mode: "demand_is_consume (fst dc) \<longleftrightarrow> mode = Consume" by (simp add: dc demand_is_consume_def)
  have mk: "mk_occurrence (ad_identity a) (ad_place a) (int k) (int ordinal) token = Inr (occurrence_of dc)"
    by (simp add: oc mk_occurrence_def)
  show ?case
  proof (cases "(ad_place a, mode, ordinal) \<in> set reserved")
    case True
    then show ?thesis using co by (simp add: dc)
  next
    case False
    then have "place_occurrences (dc # dcs) reserved consumed rd =
       (if mode = Consume
        then place_occurrences dcs ((ad_place a, mode, ordinal) # reserved) (consumed @ [occurrence_of dc]) rd
        else place_occurrences dcs ((ad_place a, mode, ordinal) # reserved) consumed (rd @ [occurrence_of dc]))"
      using mk by (simp add: dc)
    also have "\<dots> = Inr (if distinct (map (coordinate \<circ> plain_choice) (dc # dcs)) \<and>
             set (map (coordinate \<circ> plain_choice) (dc # dcs)) \<inter> set reserved = {}
          then Some (consumed @ map occurrence_of (filter (\<lambda>dc. demand_is_consume (fst dc)) (dc # dcs)),
                     rd @ map occurrence_of (filter (\<lambda>dc. \<not> demand_is_consume (fst dc)) (dc # dcs)))
          else None)"
      using False co mode unfolding Cons.IH by (cases "mode = Consume") auto
    finally show ?thesis .
  qed
qed simp

lemma plain_choices: "map plain_choice (zip ds cs) = zip (map plain_demand ds) cs"
  by (simp add: plain_choice_def zip_map1 case_prod_unfold)

lemma place_occurrences_start:
  "place_occurrences (zip ds cs) [] [] [] =
     Inr (if feasible (map plain_demand ds) cs then Some (consumed_of ds cs, read_of ds cs) else None)"
  by (simp add: place_occurrences_eq feasible_def consumed_of_def read_of_def flip: plain_choices)

lemma first_feasible_eq:
  "first_feasible ds css =
     Inr (map_option (\<lambda>cs. (consumed_of ds cs, read_of ds cs))
       (List.find (feasible (map plain_demand ds)) css))"
  by (induction css) (simp_all add: place_occurrences_start)

lemma reconstruct_eq:
  assumes n: "net_ok n" and v: "definition_valid n" and m: "marking_valid n m"
    and t: "t \<in> set (n_transitions n)" "td_identity t = bind_transition b"
    and dom: "set (td_inputs t) \<subseteq> dom (binding_values b)"
  shows "reconstruct n m b =
    Inr (if inhibited n m t then None
         else map_option (\<lambda>cs. (consumed_of (input_demands n t) cs, read_of (input_demands n t) cs,
                                concat (map arc_audits (transition_arcs n t))))
           (List.find (feasible (demands_of n t)) (product_lists (map (input_choices m b) (input_demands n t)))))"
proof -
  let ?ds = "input_demands n t"
  have arcs: "binding_arcs n b = transition_arcs n t"
    by (simp add: binding_arcs_def transition_arcs_def t(2))
  have vars: "binding_values b (demand_variable d) \<noteq> None"
    if "d \<in> set (concat (map arc_demands (transition_arcs n t)))" for d
  proof -
    have "demand_variable d \<in> set (td_inputs t)"
      using that demand_variables(2) [OF n v t(1)] by (auto simp: demands_of_def)
    then show ?thesis using dom by auto
  qed
  have scan: "reconstruct_scan (tokens_by_place m) (binding_values b) (binding_arcs n b) [] [] =
     Inr (if inhibited n m t then None
          else Some (map (\<lambda>d. (d, input_choices m b d)) ?ds, concat (map arc_audits (transition_arcs n t))))"
    using reconstruct_scan_eq [OF transition_arcs_scannable [OF n v m] vars]
    by (simp add: arcs inhibited_def list_ex_iff input_demands_def)
  show ?thesis
  proof (cases "inhibited n m t")
    case True
    then show ?thesis by (simp add: reconstruct_def scan)
  next
    case False
    have snds: "map snd (map (\<lambda>d. (d, input_choices m b d)) ?ds) = map (input_choices m b) ?ds"
      and fsts: "map fst (map (\<lambda>d. (d, input_choices m b d)) ?ds) = ?ds"
      by (simp_all add: comp_def)
    have "product_lists (map (input_choices m b) ?ds) = []"
      if "list_ex (\<lambda>slot. snd slot = []) (map (\<lambda>d. (d, input_choices m b d)) ?ds)"
      using that by (intro product_lists_empty) (force simp: list_ex_iff image_iff)
    then show ?thesis
      unfolding reconstruct_def scan if_not_P [OF False] bindr.simps option.case prod.case fsts snds
        first_feasible_eq input_demands_plain
      by (cases "list_ex (\<lambda>slot. snd slot = []) (map (\<lambda>d. (d, input_choices m b d)) ?ds)")
        (simp_all del: list_ex_iff list.pred_map add: option.case_eq_if map_option_case split: option.split)
  qed
qed


section \<open>Equal bindings are reconstructed\<close>

lemma map_of_assignments_eq:
  "list_all2 assignment_eq as bs \<Longrightarrow>
   rel_option value_eq (map_of (map (\<lambda>a. (as_variable a, as_value a)) as) x)
     (map_of (map (\<lambda>a. (as_variable a, as_value a)) bs) x)"
  by (induction rule: list_all2_induct) (auto simp: assignment_eq_def)

lemma binding_eq_values:
  assumes "binding_eq b c"
  shows "rel_option value_eq (binding_values b x) (binding_values c x)"
proof -
  have "list_all2 assignment_eq (rev (bind_assignments b)) (rev (bind_assignments c))"
    using assms by (simp add: binding_eq_def)
  from map_of_assignments_eq [OF this, of x] show ?thesis
    by (simp add: binding_values_def dict_of_def rev_map)
qed

lemma binding_eq_variables:
  assumes "binding_eq b c"
  shows "map as_variable (bind_assignments b) = map as_variable (bind_assignments c)"
  using assms
  by (auto simp: binding_eq_def map_eq_list_all2 assignment_eq_def elim: list.rel_mono_strong)

lemma binding_eq_transition: "binding_eq b c \<Longrightarrow> bind_transition b = bind_transition c"
  by (simp add: binding_eq_def)

lemma dom_binding_values: "dom (binding_values b) = set (map as_variable (bind_assignments b))"
  by (simp add: binding_values_def dict_of_def dom_map_of_conv_image_fst image_image)

lemma enabled_reconstructible:
  assumes n: "net_ok n" and v: "definition_valid n" and t: "t \<in> set (n_transitions n)"
    and c: "binding_feasible n m t c" and eq: "binding_eq b c"
  shows "\<exists>cs \<in> set (product_lists (map (input_choices m b) (input_demands n t))).
    feasible (demands_of n t) cs"
proof -
  let ?ds = "demands_of n t"
  note w = demands_well_bound [OF n v t]
  obtain cs where cs: "cs \<in> set (choices_of n m t)" "feasible ?ds cs" "c = choice_binding t ?ds cs"
    using c feasible_iff_choice [OF w refl] by blast
  then have prod: "cs \<in> set (product_lists (map (demand_choices m) ?ds))"
    by (simp add: choices_of_def split: if_splits)
  have len: "length cs = length ?ds" using product_lists_length [OF prod] by simp
  have len': "length (input_demands n t) = length ?ds"
    by (metis input_demands_plain length_map)
  have "cs ! k \<in> set (input_choices m b (input_demands n t ! k))" if k: "k < length ?ds" for k
  proof -
    have d: "plain_demand (input_demands n t ! k) = ?ds ! k"
      using k len' nth_map [of k "input_demands n t" plain_demand] by (simp only: input_demands_plain)
    obtain i tok where ctok: "cs ! k = (i, tok)" by (cases "cs ! k")
    have "(i, tok) \<in> set (demand_choices m (?ds ! k))"
      using prod k ctok unfolding product_lists_iff by simp metis
    moreover have "binding_values c (demand_variable (?ds ! k)) = Some (tok_value tok)"
      using choice_binding_value [OF w len k] by (simp add: cs(3) ctok)
    then have "value_eq (tok_value tok) (the (binding_values b (demand_variable (?ds ! k))))"
      using binding_eq_values [OF eq, of "demand_variable (?ds ! k)"]
      by (auto simp: option_rel_Some2 value_eq_sym)
    ultimately show ?thesis by (auto simp: ctok input_choices_def d demand_choices_def)
  qed
  then have "cs \<in> set (product_lists (map (input_choices m b) (input_demands n t)))"
    by (simp add: product_lists_iff len len')
  with cs(2) show ?thesis by blast
qed

lemma reconstruct_enabled:
  assumes n: "net_ok n" and v: "definition_valid n" and m: "marking_valid n m"
    and e: "binding_enabled n m c" and eq: "binding_eq b c"
  obtains t cs where "t \<in> set (n_transitions n)" "td_identity t = bind_transition b"
    "map as_variable (bind_assignments b) = td_inputs t"
    "\<not> inhibited n m t"
    "reconstruct n m b = Inr (Some (consumed_of (input_demands n t) cs, read_of (input_demands n t) cs,
        concat (map arc_audits (transition_arcs n t))))"
    "List.find (feasible (demands_of n t)) (product_lists (map (input_choices m b) (input_demands n t))) = Some cs"
proof -
  obtain t where t: "t \<in> set (n_transitions n)" and f: "binding_feasible n m t c"
    using e by (auto simp: binding_enabled_def)
  have tr: "td_identity t = bind_transition b" and ni: "\<not> inhibited n m t"
    and vars: "map as_variable (bind_assignments b) = td_inputs t"
    using f binding_eq_transition [OF eq] binding_eq_variables [OF eq] by (simp_all add: binding_feasible_def)
  have dom: "set (td_inputs t) \<subseteq> dom (binding_values b)"
    unfolding dom_binding_values vars ..
  obtain cs where "cs \<in> set (product_lists (map (input_choices m b) (input_demands n t)))"
      "feasible (demands_of n t) cs"
    using enabled_reconstructible [OF n v t f eq] by blast
  then obtain cs where cs: "List.find (feasible (demands_of n t))
      (product_lists (map (input_choices m b) (input_demands n t))) = Some cs"
    by (metis find_None_iff option.exhaust)
  show ?thesis
    by (rule that [OF t tr vars ni _ cs])
      (simp add: reconstruct_eq [OF n v m t tr dom] ni cs)
qed

section \<open>Reconstructed occurrences\<close>

text \<open>An occurrence names a token of its place.\<close>

definition occurrence_at :: "marking \<Rightarrow> token_occurrence \<Rightarrow> bool" where
  "occurrence_at m oc \<longleftrightarrow> 0 \<le> oc_ordinal oc \<and>
     nat (oc_ordinal oc) < length (tokens_at m (oc_place oc)) \<and>
     oc_token oc = tokens_at m (oc_place oc) ! nat (oc_ordinal oc)"

lemma input_choices_iff:
  "(k, tok) \<in> set (input_choices m b d) \<longleftrightarrow>
     k < length (tokens_at m (demand_place (plain_demand d))) \<and>
     tok = tokens_at m (demand_place (plain_demand d)) ! k \<and>
     tok_color tok \<in> set (demand_colors (plain_demand d)) \<and>
     value_eq (tok_value tok) (the (binding_values b (demand_variable (plain_demand d))))"
  by (auto simp: input_choices_def in_set_enumerate_eq)

lemma zip_product_lists:
  assumes "cs \<in> set (product_lists (map f ds))" "(d, c) \<in> set (zip ds cs)"
  shows "d \<in> set ds \<and> c \<in> set (f d)"
  using assms by (auto simp: set_zip product_lists_iff)

lemma occurrence_of_at:
  assumes "c \<in> set (input_choices m b d)"
  shows "occurrence_at m (occurrence_of (d, c))"
proof -
  obtain a mode k tp where d: "d = (a, mode, k, tp)" by (metis surj_pair)
  obtain i tok where c: "c = (i, tok)" by (cases c)
  from assms [unfolded c input_choices_iff] show ?thesis
    by (simp add: occurrence_at_def occurrence_of_def d c plain_demand_def demand_place_def)
qed

lemma consumed_at:
  assumes "cs \<in> set (product_lists (map (input_choices m b) ds))"
  shows "oc \<in> set (consumed_of ds cs) \<Longrightarrow> occurrence_at m oc"
    and "oc \<in> set (read_of ds cs) \<Longrightarrow> occurrence_at m oc"
  using zip_product_lists [OF assms] occurrence_of_at
  by (fastforce simp: consumed_of_def read_of_def)+

text \<open>The patterns of one mode take distinct tokens.\<close>

lemma mode_coordinates_distinct:
  assumes "feasible (map plain_demand ds) cs" "\<And>d. d \<in> set ds \<Longrightarrow> P d \<Longrightarrow> fst (snd d) = mode"
  shows "distinct (map (\<lambda>oc. (oc_place oc, oc_ordinal oc)) (map occurrence_of (filter (\<lambda>dc. P (fst dc)) (zip ds cs))))"
proof -
  let ?f = "coordinate \<circ> plain_choice" and ?taken = "filter (\<lambda>dc. P (fst dc)) (zip ds cs)"
  have d: "distinct (map ?f (zip ds cs))"
    using assms(1) by (simp add: feasible_def flip: plain_choices)
  then have inj: "inj_on ?f (set (zip ds cs))" and z: "distinct (zip ds cs)"
    by (simp_all add: distinct_map)
  have key: "(oc_place (occurrence_of dc), oc_ordinal (occurrence_of dc)) =
      (fst (?f dc), int (snd (snd (?f dc))))" for dc
    by (cases dc) (simp add: occurrence_of_def coordinate_def plain_choice_def plain_demand_def
        demand_place_def split: prod.split)
  have same: "fst (snd (?f dc)) = mode" if "dc \<in> set ?taken" for dc
  proof -
    have "P (fst dc)" "fst dc \<in> set ds" using that set_zip_leftD [of "fst dc" "snd dc" ds cs] by simp_all
    then show ?thesis
      using assms(2) [of "fst dc"] by (simp add: coordinate_def plain_choice_def plain_demand_def demand_mode_def)
  qed
  have "inj_on (\<lambda>dc. (oc_place (occurrence_of dc), oc_ordinal (occurrence_of dc))) (set ?taken)"
  proof (rule inj_onI)
    fix x y
    assume xy: "x \<in> set ?taken" "y \<in> set ?taken"
      and eq: "(oc_place (occurrence_of x), oc_ordinal (occurrence_of x)) =
        (oc_place (occurrence_of y), oc_ordinal (occurrence_of y))"
    have "?f x = ?f y" using eq same [OF xy(1)] same [OF xy(2)] unfolding key by (simp add: prod_eq_iff)
    then show "x = y" using inj xy by (simp add: inj_on_def)
  qed
  then show ?thesis using distinct_filter [OF z] by (simp add: distinct_map comp_def)
qed

lemma consumed_coordinates_distinct:
  "feasible (map plain_demand ds) cs \<Longrightarrow> distinct (consumed_coordinates (consumed_of ds cs))"
  unfolding consumed_coordinates_def consumed_of_def
  by (rule mode_coordinates_distinct) (simp_all add: demand_is_consume_def)

lemma read_coordinates_distinct:
  assumes "feasible (map plain_demand (input_demands n t)) cs"
  shows "distinct (consumed_coordinates (read_of (input_demands n t) cs))"
  unfolding consumed_coordinates_def read_of_def
proof (rule mode_coordinates_distinct [OF assms])
  fix d assume d: "d \<in> set (input_demands n t)" "\<not> demand_is_consume d"
  then have "fst (snd d) \<noteq> Inhibit"
    by (auto simp: input_demands_def arc_input_demands_def simp del: arc_input.simps
        split: option.splits if_splits input_pattern.splits)
  then show "fst (snd d) = Read" using d(2) by (cases "fst (snd d)") (simp_all add: demand_is_consume_def)
qed

end
