(* ===== verification/Cpn_Successor.thy ===== *)
theory Cpn_Successor
  imports Cpn_Reconstruct
begin

text \<open>
  The successor marking of a firing: removing the consumed occurrences and adding the produced
  tokens never violates a constructor's uniqueness check once the identity-collision check has
  passed, the result is the marking the token game prescribes, and it is well formed.
\<close>

section \<open>Removing occurrences\<close>

lemma mset_map_enumerate:
  "mset (map snd (filter (\<lambda>(i, x). P i) (enumerate 0 xs))) =
   image_mset ((!) xs) (filter_mset P (mset_set {0..<length xs}))"
proof -
  have e: "enumerate 0 xs = map (\<lambda>i. (i, xs ! i)) [0..<length xs]"
    by (rule nth_equalityI) (simp_all add: nth_enumerate_eq)
  have "map snd (filter (\<lambda>(i, x). P i) (enumerate 0 xs)) = map ((!) xs) (filter P [0..<length xs])"
    by (simp add: e filter_map comp_def)
  then have "mset (map snd (filter (\<lambda>(i, x). P i) (enumerate 0 xs))) =
      image_mset ((!) xs) (filter_mset P (mset [0..<length xs]))"
    by (simp only: mset_map mset_filter)
  then show ?thesis by (simp add: mset_upt)
qed

lemma removed_mset:
  assumes d: "distinct ks" and b: "\<And>k. k \<in> set ks \<Longrightarrow> k < length xs"
  shows "mset (map snd (filter (\<lambda>(i, x). i \<notin> set ks) (enumerate 0 xs))) + mset (map ((!) xs) ks) = mset xs"
proof -
  let ?I = "mset_set {0..<length xs}"
  have "filter_mset (\<lambda>i. i \<in> set ks) ?I = mset_set {i \<in> {0..<length xs}. i \<in> set ks}"
    by simp
  also have "{i \<in> {0..<length xs}. i \<in> set ks} = set ks" using b by auto
  also have "mset_set (set ks) = mset ks" using d by (rule mset_set_set)
  finally have ks: "filter_mset (\<lambda>i. i \<in> set ks) ?I = mset ks" .
  have all: "image_mset ((!) xs) ?I = mset xs"
    by (metis map_nth mset_map mset_upt)
  have "?I = filter_mset (\<lambda>i. i \<in> set ks) ?I + filter_mset (\<lambda>i. i \<notin> set ks) ?I"
    by (rule multiset_partition)
  then have "image_mset ((!) xs) ?I =
      image_mset ((!) xs) (filter_mset (\<lambda>i. i \<in> set ks) ?I + filter_mset (\<lambda>i. i \<notin> set ks) ?I)"
    by (rule arg_cong)
  then have "mset xs = image_mset ((!) xs) (mset ks) + image_mset ((!) xs) (filter_mset (\<lambda>i. i \<notin> set ks) ?I)"
    unfolding all ks image_mset_union .
  then show ?thesis unfolding mset_map_enumerate by (simp only: mset_map add.commute)
qed

lemma marking_places_distinct: "marking_ok m \<Longrightarrow> distinct (map pm_place (mk_places m))"
proof -
  assume "marking_ok m"
  then have "distinct (map (place_value \<circ> pm_place) (mk_places m))"
    unfolding marking_ok_def canonical_def by blast
  then show ?thesis by (simp only: distinct_place_values)
qed

lemma tokens_at_place:
  assumes "marking_ok m" "pm \<in> set (mk_places m)"
  shows "tokens_at m (pm_place pm) = pm_tokens pm"
  using dict_of_mapI [OF marking_places_distinct [OF assms(1)] assms(2), of pm_tokens]
  by (simp add: tokens_at_def tokens_by_place_def)

lemma retained_mset:
  assumes m: "marking_ok m" and pm: "pm \<in> set (mk_places m)"
    and at: "\<And>oc. oc \<in> set consumed \<Longrightarrow> occurrence_at m oc"
    and d: "distinct (consumed_coordinates consumed)"
  shows "mset (retained_tokens (consumed_coordinates consumed) pm) +
      mset (map oc_token (filter (\<lambda>oc. oc_place oc = pm_place pm) consumed)) = mset (pm_tokens pm)"
proof -
  let ?here = "filter (\<lambda>oc. oc_place oc = pm_place pm) consumed"
  let ?ks = "map (\<lambda>oc. nat (oc_ordinal oc)) ?here"
  note tk = tokens_at_place [OF m pm]
  have oc: "0 \<le> oc_ordinal oc \<and> nat (oc_ordinal oc) < length (pm_tokens pm) \<and>
      oc_token oc = pm_tokens pm ! nat (oc_ordinal oc)" if "oc \<in> set ?here" for oc
    using at [of oc] that tk by (auto simp: occurrence_at_def)
  have "(pm_place pm, int i) \<in> set (consumed_coordinates consumed) \<longleftrightarrow> i \<in> set ?ks" for i
    using oc by (force simp: consumed_coordinates_def image_iff)
  then have ret: "retained_tokens (consumed_coordinates consumed) pm =
      map snd (filter (\<lambda>(i, x). i \<notin> set ?ks) (enumerate 0 (pm_tokens pm)))"
    by (simp only: retained_tokens_def)
  have "distinct (map (\<lambda>oc. (oc_place oc, oc_ordinal oc)) ?here)"
    using d by (simp add: consumed_coordinates_def distinct_map inj_on_def)
  moreover have "oc_ordinal x = oc_ordinal y"
    if "x \<in> set ?here" "y \<in> set ?here" "nat (oc_ordinal x) = nat (oc_ordinal y)" for x y
    using that(3) oc [OF that(1)] oc [OF that(2)] by (simp add: eq_nat_nat_iff)
  ultimately have dk: "distinct ?ks"
    unfolding distinct_map inj_on_def by auto
  have "map ((!) (pm_tokens pm)) ?ks = map oc_token ?here" using oc by auto
  then show ?thesis
    using removed_mset [OF dk, of "pm_tokens pm"] oc by (simp only: ret) auto
qed

section \<open>Identities of the successor\<close>

lemma token_identities_concat: "token_identities (concat xss) = concat (map token_identities xss)"
  by (induction xss) simp_all

lemma mset_token_identities_cong:
  "mset ts = mset us \<Longrightarrow> mset (token_identities ts) = mset (token_identities us)"
  by (simp add: mset_token_identities)

lemma mset_token_identities_mono:
  "mset ts \<subseteq># mset us \<Longrightarrow> mset (token_identities ts) \<subseteq># mset (token_identities us)"
  by (simp add: mset_token_identities subset_mset.le_iff_add) (metis image_mset_union sum_mset.union)

lemma distinct_submset: "mset xs \<subseteq># mset ys \<Longrightarrow> distinct ys \<Longrightarrow> distinct xs"
proof -
  assume sub: "mset xs \<subseteq># mset ys" and d: "distinct ys"
  have "count (mset xs) a \<le> 1" for a
    using mset_subset_eq_count [OF sub, of a] d [unfolded distinct_count_atmost_1]
    by (metis le_zero_eq nle_le order.trans zero_le_one)
  then show ?thesis
    unfolding distinct_count_atmost_1
    by (metis count_greater_eq_one_iff count_eq_zero_iff le_antisym set_mset_mset)
qed


lemma mset_produced_at:
  assumes d: "distinct qs"
  shows "mset (concat (map (produced_at ps) qs)) \<subseteq># mset (map pt_token ps)"
proof -
  have part: "mset (concat (map (\<lambda>q. filter (\<lambda>x. pt_place x = q) ps) qs)) =
      filter_mset (\<lambda>x. pt_place x \<in> set qs) (mset ps)"
    using d
  proof (induction qs)
    case (Cons q qs)
    have "filter_mset (\<lambda>x. pt_place x = q) (mset ps) + filter_mset (\<lambda>x. pt_place x \<in> set qs) (mset ps) =
        filter_mset (\<lambda>x. pt_place x \<in> set (q # qs)) (mset ps)"
      using Cons.prems by (intro multiset_eqI) auto
    with Cons show ?case by simp
  qed simp
  have "concat (map (produced_at ps) qs) = map pt_token (concat (map (\<lambda>q. filter (\<lambda>x. pt_place x = q) ps) qs))"
    by (induction qs) (simp_all add: produced_at_def)
  then have "mset (concat (map (produced_at ps) qs)) =
      image_mset pt_token (filter_mset (\<lambda>x. pt_place x \<in> set qs) (mset ps))"
    by (simp only: mset_map part)
  then show ?thesis by (simp add: image_mset_subseteq_mono)
qed

definition successor_tokens :: "(place_id \<times> int) list \<Rightarrow> produced_token list \<Rightarrow> place_marking \<Rightarrow> cpn_token list" where
  "successor_tokens gone ps pm = retained_tokens gone pm @ produced_at ps (pm_place pm)"

definition successor_place :: "(place_id \<times> int) list \<Rightarrow> produced_token list \<Rightarrow> place_marking \<Rightarrow> place_marking" where
  "successor_place gone ps pm =
     \<lparr>pm_place = pm_place pm, pm_tokens = sort_key token_order_key (successor_tokens gone ps pm)\<rparr>"

definition successor_marking :: "net \<Rightarrow> marking \<Rightarrow> (place_id \<times> int) list \<Rightarrow> produced_token list \<Rightarrow> marking" where
  "successor_marking n m gone ps =
     (let pms = map (successor_place gone ps) (mk_places m)
      in \<lparr>mk_identity = MarkingId (digest_json (successor_payload n m pms)),
          mk_definition = n_identity n, mk_places = pms\<rparr>)"

lemma mset_concat_add:
  "mset (concat (map (\<lambda>x. f x @ g x) xs)) = mset (concat (map f xs)) + mset (concat (map g xs))"
  by (induction xs) simp_all

lemma retained_submset: "mset (retained_tokens gone pm) \<subseteq># mset (pm_tokens pm)"
proof -
  have "mset (map snd (filter P xs)) \<subseteq># mset (map snd xs)" for P and xs :: "(nat \<times> cpn_token) list"
    by (simp add: image_mset_subseteq_mono)
  from this [of _ "enumerate 0 (pm_tokens pm)"] show ?thesis
    by (simp add: retained_tokens_def)
qed

lemma mset_concat_map_mono:
  "(\<And>x. mset (f x) \<subseteq># mset (g x)) \<Longrightarrow> mset (concat (map f xs)) \<subseteq># mset (concat (map g xs))"
  by (induction xs) (simp_all add: subset_mset.add_mono)

lemma successor_identities:
  assumes "marking_ok m"
  shows "mset (concat (map (\<lambda>pm. token_identities (successor_tokens gone ps pm)) (mk_places m)))
    \<subseteq># mset (retained_identities gone m @ produced_identities ps)"
proof -
  have "mset (concat (map (\<lambda>pm. token_identities (successor_tokens gone ps pm)) (mk_places m))) =
      mset (retained_identities gone m) +
      mset (concat (map (\<lambda>pm. token_identities (produced_at ps (pm_place pm))) (mk_places m)))"
    by (simp add: successor_tokens_def retained_identities_def mset_concat_add)
  moreover have "concat (map (\<lambda>pm. token_identities (produced_at ps (pm_place pm))) (mk_places m)) =
      token_identities (concat (map (produced_at ps) (map pm_place (mk_places m))))"
    by (simp add: token_identities_concat comp_def)
  moreover have "mset (token_identities (concat (map (produced_at ps) (map pm_place (mk_places m)))))
      \<subseteq># mset (produced_identities ps)"
    unfolding produced_identities_def
    by (intro mset_token_identities_mono mset_produced_at marking_places_distinct assms)
  ultimately show ?thesis by simp
qed

lemma no_collision_distinct:
  assumes m: "marking_ok m" and c: "\<not> identity_collision gone m ps"
  shows "distinct (concat (map (\<lambda>pm. token_identities (successor_tokens gone ps pm)) (mk_places m)))"
proof (rule distinct_submset [OF successor_identities [OF m]])
  have "mset (retained_identities gone m) \<subseteq># mset (marking_token_identities (mk_places m))"
    unfolding retained_identities_def marking_token_identities_def
    by (intro mset_concat_map_mono mset_token_identities_mono retained_submset)
  then have "distinct (retained_identities gone m)"
    by (rule distinct_submset) (use m in \<open>simp add: marking_ok_def\<close>)
  then show "distinct (retained_identities gone m @ produced_identities ps)"
    using c by (auto simp: identity_collision_def list_ex_iff)
qed

lemma distinct_concat_member: "distinct (concat xss) \<Longrightarrow> xs \<in> set xss \<Longrightarrow> distinct xs"
  by (induction xss) auto

lemma successor_places_eq:
  assumes m: "marking_ok m" and c: "\<not> identity_collision gone m ps"
  shows "successor_places gone ps m = Inr (map (successor_place gone ps) (mk_places m))"
  unfolding successor_places_def
proof (rule mapr_ok_map)
  fix pm assume "pm \<in> set (mk_places m)"
  then have "distinct (token_identities (successor_tokens gone ps pm))"
    using distinct_concat_member [OF no_collision_distinct [OF m c]] by simp
  then show "mk_place_marking (pm_place pm) (retained_tokens gone pm @ produced_at ps (pm_place pm)) =
      Inr (successor_place gone ps pm)"
    by (simp only: mk_place_marking_def successor_place_def successor_tokens_def if_False not_not simp_thms)
qed

lemma marking_id_digest: "mk_marking_id (PyStr (digest_json j)) = Inr (MarkingId (digest_json j))"
  and digest_nonempty: "digest_json j \<noteq> []"
proof -
  show "digest_json j \<noteq> []" using digest_spelling_json [of j] by (auto simp: digest_spelling_def)
  then show "mk_marking_id (PyStr (digest_json j)) = Inr (MarkingId (digest_json j))"
    by (simp add: mk_marking_id_def)
qed

lemma successor_identities_eq:
  "mset (marking_token_identities (map (successor_place gone ps) pms)) =
   mset (concat (map (\<lambda>pm. token_identities (successor_tokens gone ps pm)) pms))"
proof (induction pms)
  case (Cons pm pms)
  have "mset (token_identities (sort_key token_order_key (successor_tokens gone ps pm))) =
      mset (token_identities (successor_tokens gone ps pm))"
    by (rule mset_token_identities_cong) simp
  with Cons show ?case by (simp add: marking_token_identities_def successor_place_def)
qed (simp add: marking_token_identities_def)

lemma successor_eq:
  assumes m: "marking_ok m" and c: "\<not> identity_collision gone m ps"
  shows "successor n m gone ps = Inr (successor_marking n m gone ps)"
proof -
  let ?pms = "map (successor_place gone ps) (mk_places m)"
  have places: "map pm_place ?pms = map pm_place (mk_places m)"
    by (simp add: successor_place_def)
  have keys: "map (place_value \<circ> pm_place) ?pms = map (place_value \<circ> pm_place) (mk_places m)"
    by (simp add: successor_place_def)
  have d: "distinct (map pm_place ?pms)" unfolding places by (rule marking_places_distinct [OF m])
  have i: "distinct (marking_token_identities ?pms)"
    using no_collision_distinct [OF m c] distinct_mset_eq [OF successor_identities_eq] by blast
  have "sorted (map (place_value \<circ> pm_place) ?pms)"
    unfolding keys using m by (simp add: marking_ok_def canonical_def)
  then have s: "sort_key (place_value \<circ> pm_place) ?pms = ?pms" by (rule sort_key_id)
  have "mk_marking (MarkingId (digest_json (successor_payload n m ?pms))) (n_identity n) ?pms =
      Inr (successor_marking n m gone ps)"
    unfolding mk_marking_def s successor_marking_def Let_def using d i by simp
  then show ?thesis
    by (simp only: successor_def successor_places_eq [OF m c] bindr.simps marking_id_digest)
qed

lemma successor_marking_ok:
  assumes m: "marking_ok m" and c: "\<not> identity_collision gone m ps"
    and n: "definition_value (n_identity n) \<noteq> []"
    and ps: "\<And>p. p \<in> set ps \<Longrightarrow> token_ok (pt_token p)"
  shows "marking_ok (successor_marking n m gone ps)"
proof (rule mk_marking_ok)
  let ?pms = "map (successor_place gone ps) (mk_places m)"
  show "mk_marking (MarkingId (digest_json (successor_payload n m ?pms))) (n_identity n) ?pms =
      Inr (successor_marking n m gone ps)"
    using successor_eq [OF m c, of n]
    by (simp only: successor_def successor_places_eq [OF m c] bindr.simps marking_id_digest)
  show "list_all place_marking_ok ?pms"
    unfolding list_all_iff set_map ball_simps(9)
  proof
    fix pm assume pm: "pm \<in> set (mk_places m)"
    then have ok: "place_marking_ok pm" using m by (simp add: marking_ok_def list_all_iff)
    have "mk_place_marking (pm_place pm) (successor_tokens gone ps pm) = Inr (successor_place gone ps pm)"
      using distinct_concat_member [OF no_collision_distinct [OF m c]] pm
      by (simp add: mk_place_marking_def successor_place_def)
    moreover have "list_all token_ok (successor_tokens gone ps pm)"
    proof -
      have "set (retained_tokens gone pm) \<subseteq> set (pm_tokens pm)"
        using retained_submset [of gone pm] by (metis set_mset_mono set_mset_mset)
      moreover have "set (produced_at ps (pm_place pm)) \<subseteq> pt_token ` set ps"
        by (auto simp: produced_at_def)
      ultimately show ?thesis
        using ok ps by (auto simp: successor_tokens_def place_marking_ok_def list_all_iff)
    qed
    moreover have "place_value (pm_place pm) \<noteq> []" using ok by (simp add: place_marking_ok_def)
    ultimately show "place_marking_ok (successor_place gone ps pm)"
      using mk_place_marking_ok by blast
  qed
qed (use n in \<open>simp_all add: digest_nonempty\<close>)

section \<open>The token game\<close>

lemma tokens_at_unknown: "p \<notin> set (map pm_place (mk_places m)) \<Longrightarrow> tokens_at m p = []"
  by (simp add: tokens_at_def tokens_by_place_def dict_of_map_None [THEN iffD2])

lemma successor_tokens_at:
  assumes m: "marking_ok m" and pm: "pm \<in> set (mk_places m)"
    and ok: "marking_ok (successor_marking n m gone ps)"
  shows "tokens_at (successor_marking n m gone ps) (pm_place pm) =
    sort_key token_order_key (successor_tokens gone ps pm)"
proof -
  have "successor_place gone ps pm \<in> set (mk_places (successor_marking n m gone ps))"
    using pm by (simp add: successor_marking_def Let_def)
  from tokens_at_place [OF ok this] show ?thesis by (simp add: successor_place_def)
qed

lemma token_game:
  assumes m: "marking_ok m" and ok: "marking_ok (successor_marking n m (consumed_coordinates consumed) ps)"
    and at: "\<And>oc. oc \<in> set consumed \<Longrightarrow> occurrence_at m oc"
    and d: "distinct (consumed_coordinates consumed)"
    and known: "\<And>x. x \<in> set ps \<Longrightarrow> pt_place x \<in> set (map pm_place (mk_places m))"
  shows "mset (tokens_at (successor_marking n m (consumed_coordinates consumed) ps) p) +
      mset (map oc_token (filter (\<lambda>oc. oc_place oc = p) consumed)) =
    mset (tokens_at m p) + mset (map pt_token (filter (\<lambda>x. pt_place x = p) ps))"
proof (cases "p \<in> set (map pm_place (mk_places m))")
  case True
  then obtain pm where pm: "pm \<in> set (mk_places m)" "p = pm_place pm" by auto
  have "mset (tokens_at (successor_marking n m (consumed_coordinates consumed) ps) p) =
      mset (retained_tokens (consumed_coordinates consumed) pm) + mset (produced_at ps p)"
    by (simp add: pm(2) successor_tokens_at [OF m pm(1) ok] successor_tokens_def)
  moreover have "mset (tokens_at m p) = mset (retained_tokens (consumed_coordinates consumed) pm) +
      mset (map oc_token (filter (\<lambda>oc. oc_place oc = p) consumed))"
    using retained_mset [OF m pm(1) at d] by (simp add: pm(2) tokens_at_place [OF m pm(1)])
  ultimately show ?thesis by (simp add: produced_at_def)
next
  case False
  have "tokens_at (successor_marking n m (consumed_coordinates consumed) ps) p = []"
    using False by (intro tokens_at_unknown) (simp add: successor_marking_def successor_place_def Let_def image_image)
  moreover have t: "tokens_at m p = []" using False by (rule tokens_at_unknown)
  moreover have "filter (\<lambda>oc. oc_place oc = p) consumed = []"
    using at t by (fastforce simp: filter_empty_conv occurrence_at_def)
  moreover have "filter (\<lambda>x. pt_place x = p) ps = []"
    using known False by (auto simp: filter_empty_conv)
  ultimately show ?thesis by simp
qed


end
