(* ===== verification/Cpn_Fire_Rule.thy ===== *)
theory Cpn_Fire_Rule
  imports Cpn_Successor
begin

text \<open>
  What the firer computes.  On well-formed inputs it never raises; it succeeds only for a binding
  equal to an enabled one; and the lemmas at the end give, for a success, the transition, the
  reconstructed occurrences, the produced tokens and the successor in one place.
\<close>

section \<open>Well-formed firing inputs\<close>

text \<open>What the constructors of the parts guarantee; nothing relates the parts to each other.\<close>

definition firing_ok :: "firing_input \<Rightarrow> bool" where
  "firing_ok f \<longleftrightarrow> net_ok (fi_net f) \<and> marking_ok (fi_marking f) \<and>
     binding_ok (fi_binding f) \<and> binding_ok (fi_external f)"

section \<open>Output templates\<close>

lemma evaluate_value_no_assertion: "evaluate_value e b \<noteq> Inl AssertionError"
  by (cases e) (auto split: option.splits)

lemma output_identity_no_assertion: "output_identity tt b \<noteq> Inl AssertionError"
  using evaluate_value_no_assertion
  by (auto simp: output_identity_def bindr_Inl_iff mk_token_id_def nominal_def
      split: option.splits cpn_value.splits if_splits)

lemma output_tokens_no_assertion: "output_tokens n t b \<noteq> Inl AssertionError"
proof
  assume "output_tokens n t b = Inl AssertionError"
  then obtain x where "output_token b x = Inl AssertionError"
    by (auto simp: output_tokens_def dest: mapr_Inl)
  then show False
    using evaluate_value_no_assertion output_identity_no_assertion
    by (cases x) (auto simp: output_token_def bindr_Inl_iff mk_produced_def)
qed

lemma output_token_Inr:
  "output_token b (a, k, tt) = Inr p \<longleftrightarrow>
     (\<exists>v i. evaluate_value (tt_value tt) b = Inr v \<and> output_identity tt b = Inr i \<and>
        p = \<lparr>pt_arc = ad_identity a, pt_place = ad_place a, pt_index = int k,
             pt_token = \<lparr>tok_color = tt_color tt, tok_value = v, tok_identity = i\<rparr>\<rparr>)"
  by (auto simp: output_token_def bindr_Inr_iff mk_produced_def)

lemma output_site:
  assumes "(a, k, tt) \<in> set (output_sites n t)"
  obtains out where "a \<in> set (n_arcs n)" "ad_transition a = td_identity t" "ad_inscription a = OutputArc out"
    "tt \<in> set (oi_templates out)"
proof -
  from assms obtain c where c: "c \<in> set (n_arcs n)" "ad_transition c = td_identity t"
    "(a, k, tt) \<in> set (case arc_output c of None \<Rightarrow> []
         | Some out \<Rightarrow> map (\<lambda>(k, tt). (c, k, tt)) (enumerate 0 (oi_templates out)))"
    by (auto simp: output_sites_def simp del: arc_output.simps split: if_splits)
  then obtain out where out: "arc_output c = Some out"
    by (cases "arc_output c") (simp_all del: arc_output.simps)
  then have "ad_inscription c = OutputArc out" by (simp split: arc_inscription.splits)
  moreover have "a = c \<and> tt \<in> set (oi_templates out)"
    using c(3) by (auto simp: out in_set_enumerate_eq simp del: arc_output.simps)
  ultimately show ?thesis using c that by blast
qed

lemma evaluate_value_ok:
  assumes "evaluate_value e b = Inr v" "expression_ok e" "binding_ok b"
  shows "value_ok v"
proof (cases e)
  case (Variable x)
  then have "binding_values b x = Some v" using assms(1) by (simp split: option.splits)
  then have "\<exists>a \<in> set (bind_assignments b). as_value a = v"
    unfolding binding_values_def by (auto dest: dict_of_map_SomeD)
  then show ?thesis using assms(3) by (auto simp: binding_ok_def)
qed (use assms in simp)

lemma output_identity_ok: "output_identity tt b = Inr (Some i) \<Longrightarrow> token_value i \<noteq> []"
proof (cases "tt_identity tt")
  case (Some e)
  moreover assume "output_identity tt b = Inr (Some i)"
  ultimately obtain v where "evaluate_value e b = Inr v"
    "(case v of VStr s \<Rightarrow> bindr (mk_token_id (PyStr s)) (\<lambda>i. Inr (Some i))
       | _ \<Rightarrow> Inl (TypeError ''token identity expression must produce string'')) = Inr (Some i)"
    by (auto simp: output_identity_def bindr_Inr_iff)
  then show ?thesis
    by (cases v) (auto simp: bindr_Inr_iff mk_token_id_def nominal_Inr_iff)
qed (simp add: output_identity_def)

lemma produced_ok:
  assumes n: "net_ok n" and b: "binding_ok b" and p: "output_tokens n t b = Inr ps" "p \<in> set ps"
  shows "token_ok (pt_token p)"
proof -
  obtain a k tt where site: "(a, k, tt) \<in> set (output_sites n t)" and o: "output_token b (a, k, tt) = Inr p"
    using mapr_Inr_member [OF p(1) [unfolded output_tokens_def] p(2)] by (metis surj_pair)
  obtain out where out: "a \<in> set (n_arcs n)" "ad_inscription a = OutputArc out" "tt \<in> set (oi_templates out)"
    by (rule output_site [OF site])
  have "output_ok out" using net_ok_parts(3) [OF n out(1)] out(2) by (simp add: arc_definition_ok_def)
  then have tt: "template_ok tt" using out(3) by (simp add: output_ok_def list_all_iff)
  from o obtain v i where v: "evaluate_value (tt_value tt) b = Inr v" "output_identity tt b = Inr i"
    and pt: "pt_token p = \<lparr>tok_color = tt_color tt, tok_value = v, tok_identity = i\<rparr>"
    by (auto simp: output_token_Inr)
  have "value_ok v" using evaluate_value_ok [OF v(1) _ b] tt by (simp add: template_ok_def)
  moreover have "token_value j \<noteq> []" if "i = Some j" for j
    using output_identity_ok [of tt b j] v(2) that by simp
  ultimately show ?thesis using tt by (simp add: pt token_ok_def template_ok_def)
qed

lemma produced_place:
  assumes n: "net_ok n" "definition_valid n" and m: "marking_valid n m"
    and p: "output_tokens n t b = Inr ps" "p \<in> set ps"
  shows "pt_place p \<in> set (map pm_place (mk_places m))"
proof -
  obtain a k tt where site: "(a, k, tt) \<in> set (output_sites n t)" and o: "output_token b (a, k, tt) = Inr p"
    using mapr_Inr_member [OF p(1) [unfolded output_tokens_def] p(2)] by (metis surj_pair)
  have a: "a \<in> set (n_arcs n)" by (rule output_site [OF site])
  have "pt_place p = ad_place a" using o by (auto simp: output_token_Inr)
  moreover obtain q where "q \<in> set (n_places n)" "pd_identity q = ad_place a"
    using arc_place_known [OF n(2) a] by (auto simp: places_of_None)
  ultimately have "pt_place p \<in> set (map pd_identity (n_places n))" by force
  then show ?thesis using m by (simp add: marking_valid_def)
qed

section \<open>Failures\<close>

lemma firing_failed_ok:
  assumes "phase \<noteq> []" "expected \<noteq> []" "observed \<noteq> []"
  obtains r x where "firing_failed f code phase expected observed issues = Inr r"
    "fr_input r = f" "fr_outcome r = FiringFailure" "fr_successor r = None" "fr_audit r = None"
    "fr_failure r = Some x" "ff_code x = code" "ff_issues x = issues"
proof -
  have b: "firing_boundary \<noteq> [] \<and> \<not> list_ex (\<lambda>s. s = []) firing_boundary"
    by (simp add: firing_boundary_def)
  let ?i = "FiringId (digest_json (failure_payload f code phase expected observed issues))"
  let ?x = "\<lparr>ff_identity = FiringFailureId ?i, ff_code = code, ff_phase = phase, ff_expected = expected,
      ff_observed = observed, ff_diagnostic = ''firing produced no successor'', ff_issues = issues,
      ff_boundary = firing_boundary\<rparr>"
  show ?thesis
    by (rule that [of "\<lparr>fr_identity = ?i, fr_input = f, fr_outcome = FiringFailure,
          fr_successor = None, fr_audit = None, fr_failure = Some ?x\<rparr>" ?x])
      (use assms b in \<open>simp_all add: firing_failed_def mk_firing_id_def mk_firing_failure_def mk_firing_def\<close>)
qed

definition fails_with :: "firing_input \<Rightarrow> firing_code \<Rightarrow> firing result \<Rightarrow> bool" where
  "fails_with f code res \<longleftrightarrow>
     (\<exists>r x. res = Inr r \<and> fr_input r = f \<and> fr_outcome r = FiringFailure \<and> fr_successor r = None \<and>
        fr_audit r = None \<and> fr_failure r = Some x \<and> ff_code x = code)"

lemma firing_failed_with:
  "phase \<noteq> [] \<Longrightarrow> expected \<noteq> [] \<Longrightarrow> observed \<noteq> [] \<Longrightarrow>
   fails_with f code (firing_failed f code phase expected observed issues)"
  unfolding fails_with_def by (rule firing_failed_ok) blast+

lemma firing_succeeded_eq:
  "firing_succeeded f s audit = Inr
     \<lparr>fr_identity = FiringId (digest_json (success_payload f s audit)), fr_input = f,
      fr_outcome = FiringSuccess, fr_successor = Some s, fr_audit = Some audit, fr_failure = None\<rparr>"
  by (simp add: firing_succeeded_def mk_firing_id_def mk_firing_def)


section \<open>Replay\<close>

text \<open>
  The checks that precede the transition: the first that fails, if any.  \<open>definition_valid\<close> and
  \<open>marking_valid\<close> replace the validators by what they decide.
\<close>

definition replay_verdict :: "firing_input \<Rightarrow> firing_code option" where
  "replay_verdict f =
     (let n = fi_net f; m = fi_marking f; s = fi_selection f in
      if \<not> definition_valid n then Some FInvalidDefinition
      else if \<not> marking_valid n m then Some FInvalidPredecessor
      else case enable n m of
        Inl e \<Rightarrow> None
      | Inr r \<Rightarrow>
          if \<not> enablement_eq r (fi_enablement f) then Some FEnablementMismatch
          else case select n r (sr_directive s) of
            Inl e \<Rightarrow> None
          | Inr s' \<Rightarrow>
              if \<not> selection_eq s' s then Some FSelectionMismatch
              else if sr_outcome s \<noteq> Selected \<or> \<not> optional_binding_eq (sr_binding s) (Some (fi_binding f))
              then Some FTransitionOrBindingMismatch
              else if fi_directive f \<noteq> directive_identity s then Some FDirectiveMismatch
              else if fi_transition f \<noteq> bind_transition (fi_binding f)
              then Some FTransitionOrBindingMismatch
              else None)"

lemma enable_result:
  assumes "net_ok n" "marking_ok m"
  obtains r where "enable n m = Inr r" "result_of n m evaluator_v1 ordering_v1 r"
  using enable_with_result [OF assms, of evaluator_v1 ordering_v1]
  by (auto simp: enable_def evaluator_v1_def ordering_v1_def)

lemma result_bindings_enabled:
  "result_of n m ev ord r \<Longrightarrow> er_bindings r = Some bs \<Longrightarrow> b \<in> set bs \<Longrightarrow> binding_enabled n m b"
  by (auto simp: result_of_def)

lemma selected_binding_member:
  assumes "selection_choice n r d = (Selected, Some b, d', c)"
  obtains bs x where "er_bindings r = Some bs" "x \<in> set bs" "binding_eq b x"
proof -
  obtain bs where bs: "er_bindings r = Some bs"
    using assms by (cases "er_bindings r") (auto simp: selection_choice_def split: if_splits)
  have "\<exists>x \<in> set bs. binding_eq b x"
  proof (cases d)
    case None
    then have "b \<in> set bs"
      using assms by (auto simp: selection_choice_def bs split: if_splits list.splits)
    then show ?thesis using binding_eq_refl by blast
  next
    case (Some x)
    then show ?thesis
      using assms by (auto simp: selection_choice_def bs list_ex_iff split: if_splits)
  qed
  with bs that show ?thesis by blast
qed

text \<open>The selected binding of a replay-equal selection equals an enabled binding.\<close>

lemma replayed_binding_enabled:
  assumes r: "result_of n m ev ord r" and s': "select n r d = Inr s'" and eq: "selection_eq s' s"
    and sel: "sr_outcome s = Selected" "optional_binding_eq (sr_binding s) (Some b)"
  obtains c where "binding_enabled n m c" "binding_eq b c"
proof -
  obtain sb where sb: "sr_binding s = Some sb" "binding_eq sb b"
    using sel(2) by (auto simp: optional_binding_eq_def split: option.splits)
  obtain b' where b': "sr_binding s' = Some b'" "binding_eq b' sb"
    using eq sb(1) by (auto simp: selection_eq_def optional_binding_eq_def split: option.splits)
  have "sr_outcome s' = Selected" using eq sel(1) by (simp add: selection_eq_def)
  then have "selection_choice n r d = (Selected, Some b', sr_directive s', sr_code s')"
    using select_Inr [OF s'] b'(1) by simp
  then obtain bs x where x: "er_bindings r = Some bs" "x \<in> set bs" "binding_eq b' x"
    by (rule selected_binding_member)
  have "binding_eq b x"
    using sb(2) b'(2) x(3) by (simp add: binding_eq_key)
  with result_bindings_enabled [OF r x(1,2)] show ?thesis by (rule that)
qed

lemma find_transition:
  assumes "net_ok n" "t \<in> set (n_transitions n)" "td_identity t = q"
  shows "List.find (\<lambda>t. td_identity t = q) (n_transitions n) = Some t"
proof (cases "List.find (\<lambda>t. td_identity t = q) (n_transitions n)")
  case None
  then have "\<not> (\<exists>t. t \<in> set (n_transitions n) \<and> td_identity t = q)" by (rule find_None_iff [THEN iffD1])
  with assms(2,3) show ?thesis by blast
next
  case (Some u)
  then obtain i where "i < length (n_transitions n)" "td_identity (n_transitions n ! i) = q" "u = n_transitions n ! i"
    unfolding find_Some_iff by blast
  then have "transitions_of n q = Some u" "transitions_of n q = Some t"
    using assms(2,3) by (simp_all add: transitions_of_Some_iff [OF assms(1)])
  with Some show ?thesis by simp
qed

lemma replay_failure:
  assumes ok: "firing_ok f" and v: "replay_verdict f = Some code"
  shows "fails_with f code (fire f)"
proof -
  have n: "net_ok (fi_net f)" and m: "marking_ok (fi_marking f)" using ok by (simp_all add: firing_ok_def)
  obtain dis where dis: "validate_definition (fi_net f) = Inr dis" using validate_definition_eq [OF n] by blast
  obtain mis where mis: "validate_marking (fi_net f) (fi_marking f) = Inr mis"
    using validate_marking_eq [OF n m] by blast
  note dv = is_valid_definition [OF n dis] and mv = is_valid_marking [OF n m mis]
  obtain r where r: "enable (fi_net f) (fi_marking f) = Inr r"
      "result_of (fi_net f) (fi_marking f) evaluator_v1 ordering_v1 r"
    by (rule enable_result [OF n m])
  obtain s' where s': "select (fi_net f) r (sr_directive (fi_selection f)) = Inr s'"
    using select_total by blast
  have "fi_transition f \<noteq> bind_transition (fi_binding f) \<Longrightarrow> definition_valid (fi_net f) \<Longrightarrow>
     fails_with f FTransitionOrBindingMismatch
        (case List.find (\<lambda>t. td_identity t = bind_transition (fi_binding f)) (n_transitions (fi_net f)) of
           None \<Rightarrow>
             firing_failed f FTransitionOrBindingMismatch ''transition_validation''
               ''the selected defined transition'' ''transition identity differs from selected binding'' []
         | Some t \<Rightarrow>
             if fi_transition f \<noteq> bind_transition (fi_binding f) then
               firing_failed f FTransitionOrBindingMismatch ''transition_validation''
                 ''the selected defined transition'' ''transition identity differs from selected binding'' []
             else fire_transition f t)"
    by (simp add: firing_failed_with split: option.split)
  then show ?thesis
    using v
    by (auto simp: replay_verdict_def fire_def Let_def dis mis dv mv r s' firing_failed_with
        simp del: not_None_eq split: if_splits)
qed

lemma replay_success:
  assumes ok: "firing_ok f" and v: "replay_verdict f = None"
  obtains t c where "definition_valid (fi_net f)" "marking_valid (fi_net f) (fi_marking f)"
    "binding_enabled (fi_net f) (fi_marking f) c" "binding_eq (fi_binding f) c"
    "t \<in> set (n_transitions (fi_net f))" "td_identity t = bind_transition (fi_binding f)"
    "fi_transition f = bind_transition (fi_binding f)" "fire f = fire_transition f t"
proof -
  have n: "net_ok (fi_net f)" and m: "marking_ok (fi_marking f)" using ok by (simp_all add: firing_ok_def)
  obtain dis where dis: "validate_definition (fi_net f) = Inr dis" using validate_definition_eq [OF n] by blast
  obtain mis where mis: "validate_marking (fi_net f) (fi_marking f) = Inr mis"
    using validate_marking_eq [OF n m] by blast
  note dv = is_valid_definition [OF n dis] and mv = is_valid_marking [OF n m mis]
  obtain r where r: "enable (fi_net f) (fi_marking f) = Inr r"
      "result_of (fi_net f) (fi_marking f) evaluator_v1 ordering_v1 r"
    by (rule enable_result [OF n m])
  obtain s' where s': "select (fi_net f) r (sr_directive (fi_selection f)) = Inr s'"
    using select_total by blast
  have chk: "definition_valid (fi_net f)" "marking_valid (fi_net f) (fi_marking f)"
      "enablement_eq r (fi_enablement f)" "selection_eq s' (fi_selection f)"
      "sr_outcome (fi_selection f) = Selected"
      "optional_binding_eq (sr_binding (fi_selection f)) (Some (fi_binding f))"
      "fi_directive f = directive_identity (fi_selection f)"
      "fi_transition f = bind_transition (fi_binding f)"
    using v by (simp_all add: replay_verdict_def Let_def r s' split: if_splits)
  obtain c where c: "binding_enabled (fi_net f) (fi_marking f) c" "binding_eq (fi_binding f) c"
    by (rule replayed_binding_enabled [OF r(2) s' chk(4-6)])
  obtain t where t: "t \<in> set (n_transitions (fi_net f))" "td_identity t = bind_transition c"
    by (rule enabled_transition [OF n c(1)])
  have tb: "td_identity t = bind_transition (fi_binding f)"
    using t(2) binding_eq_transition [OF c(2)] by simp
  have "fire f = fire_transition f t"
    using chk find_transition [OF n t(1) tb]
    by (simp add: fire_def Let_def dis mis dv mv r s')
  with chk(1,2) c t(1) tb chk(8) show ?thesis by (intro that)
qed


section \<open>After replay\<close>

definition external_mismatch :: "firing_input \<Rightarrow> transition_definition \<Rightarrow> bool" where
  "external_mismatch f t \<longleftrightarrow>
     bind_transition (fi_external f) \<noteq> td_identity t \<or>
     map as_variable (bind_assignments (fi_external f)) \<noteq> td_externals t"

definition combined_binding :: "firing_input \<Rightarrow> binding" where
  "combined_binding f =
     \<lparr>bind_transition = bind_transition (fi_binding f),
      bind_assignments = bind_assignments (fi_binding f) @ bind_assignments (fi_external f)\<rparr>"

text \<open>The audit and the successor of a firing of \<open>t\<close> that takes the tokens \<open>cs\<close> and produces \<open>ps\<close>.\<close>

definition audit_of :: "firing_input \<Rightarrow> transition_definition \<Rightarrow> choice list \<Rightarrow> produced_token list \<Rightarrow> firing_audit" where
  "audit_of f t cs ps =
     \<lparr>fa_consumed = consumed_of (input_demands (fi_net f) t) cs,
      fa_read = read_of (input_demands (fi_net f) t) cs,
      fa_inhibitors = concat (map arc_audits (transition_arcs (fi_net f) t)),
      fa_produced = ps, fa_firer = firer_v1\<rparr>"

definition fired_marking :: "firing_input \<Rightarrow> transition_definition \<Rightarrow> choice list \<Rightarrow> produced_token list \<Rightarrow> marking" where
  "fired_marking f t cs ps =
     successor_marking (fi_net f) (fi_marking f)
       (consumed_coordinates (consumed_of (input_demands (fi_net f) t) cs)) ps"

text \<open>The least feasible choice of tokens for the selected binding.\<close>

definition least_choice :: "firing_input \<Rightarrow> transition_definition \<Rightarrow> choice list \<Rightarrow> bool" where
  "least_choice f t cs \<longleftrightarrow>
     List.find (feasible (demands_of (fi_net f) t))
       (product_lists (map (input_choices (fi_marking f) (fi_binding f)) (input_demands (fi_net f) t))) = Some cs"

definition fires :: "firing_input \<Rightarrow> transition_definition \<Rightarrow> choice list \<Rightarrow> produced_token list \<Rightarrow> bool" where
  "fires f t cs ps \<longleftrightarrow>
     least_choice f t cs \<and> \<not> external_mismatch f t \<and>
     output_tokens (fi_net f) t (combined_binding f) = Inr ps \<and>
     \<not> identity_collision (consumed_coordinates (consumed_of (input_demands (fi_net f) t) cs)) (fi_marking f) ps \<and>
     marking_ok (fired_marking f t cs ps) \<and> marking_valid (fi_net f) (fired_marking f t cs ps)"

lemma combined_ok:
  assumes "firing_ok f" "t \<in> set (n_transitions (fi_net f))" "td_identity t = bind_transition (fi_binding f)"
    and "map as_variable (bind_assignments (fi_binding f)) = td_inputs t" "\<not> external_mismatch f t"
  shows "mk_binding (td_identity t) (bind_assignments (fi_binding f) @ bind_assignments (fi_external f)) =
      Inr (combined_binding f)"
    and "binding_ok (combined_binding f)"
proof -
  have "distinct (td_inputs t @ td_externals t)"
    using net_ok_parts(2) [of "fi_net f" t] assms(1,2) by (simp add: firing_ok_def transition_definition_ok_def)
  then have d: "distinct (map as_variable (bind_assignments (fi_binding f) @ bind_assignments (fi_external f)))"
    using assms(4,5) by (simp add: external_mismatch_def)
  then show "mk_binding (td_identity t) (bind_assignments (fi_binding f) @ bind_assignments (fi_external f)) =
      Inr (combined_binding f)"
    by (simp add: mk_binding_def combined_binding_def assms(3) del: map_append)
  show "binding_ok (combined_binding f)"
    using d assms(1) by (auto simp: binding_ok_def combined_binding_def firing_ok_def simp del: map_append)
qed

text \<open>With the external binding that the transition declares, only its outputs can fail.\<close>

lemma fire_matched_cases:
  assumes ok: "firing_ok f" and v: "definition_valid (fi_net f)" and mv: "marking_valid (fi_net f) (fi_marking f)"
    and c: "binding_enabled (fi_net f) (fi_marking f) c" "binding_eq (fi_binding f) c"
    and t: "t \<in> set (n_transitions (fi_net f))" "td_identity t = bind_transition (fi_binding f)"
    and matched: "\<not> external_mismatch f t"
  obtains (failure) code where "code \<in> {FOutputFailed, FIdentityCollision, FProducedInvalid}"
      "fails_with f code (fire_transition f t)"
  | (success) cs ps where "fires f t cs ps"
      "fire_transition f t = firing_succeeded f (fired_marking f t cs ps) (audit_of f t cs ps)"
proof -
  let ?n = "fi_net f" and ?m = "fi_marking f"
  have n: "net_ok ?n" and m: "marking_ok ?m" using ok by (simp_all add: firing_ok_def)
  obtain u cs where u: "u \<in> set (n_transitions ?n)" "td_identity u = bind_transition (fi_binding f)"
      "map as_variable (bind_assignments (fi_binding f)) = td_inputs u"
    and rec: "reconstruct ?n ?m (fi_binding f) = Inr (Some (consumed_of (input_demands ?n u) cs,
        read_of (input_demands ?n u) cs, concat (map arc_audits (transition_arcs ?n u))))"
    and least: "List.find (feasible (demands_of ?n u))
        (product_lists (map (input_choices ?m (fi_binding f)) (input_demands ?n u))) = Some cs"
    by (rule reconstruct_enabled [OF n v mv c])
  have "transitions_of ?n (td_identity t) = Some u" "transitions_of ?n (td_identity t) = Some t"
    using u t by (simp_all add: transitions_of_Some_iff [OF n])
  then have ut: "u = t" by simp
  note comb = combined_ok [OF ok t u(3) [unfolded ut] matched]
  have step: "fire_transition f t =
    (case output_tokens ?n t (combined_binding f) of
              Inl AssertionError \<Rightarrow> Inl AssertionError
            | Inl e \<Rightarrow>
                firing_failed f FOutputFailed ''output_evaluation''
                  ''well-typed total output templates'' (exn_text e) []
            | Inr produced \<Rightarrow> fire_successor f (consumed_of (input_demands ?n t) cs)
                (read_of (input_demands ?n t) cs) (concat (map arc_audits (transition_arcs ?n t))) produced)"
    using matched by (simp add: fire_transition_def Let_def external_mismatch_def rec ut comb)
  show ?thesis
  proof (cases "output_tokens ?n t (combined_binding f)")
    case (Inl e)
    then have "fails_with f FOutputFailed (fire_transition f t)"
      using output_tokens_no_assertion [of ?n t "combined_binding f"]
      by (cases e) (simp_all add: step firing_failed_with)
    then show ?thesis by (intro failure [of FOutputFailed]) simp_all
  next
    case (Inr ps)
    let ?gone = "consumed_coordinates (consumed_of (input_demands ?n t) cs)"
    show ?thesis
    proof (cases "identity_collision ?gone ?m ps")
      case True
      then have "fails_with f FIdentityCollision (fire_transition f t)"
        by (simp add: step Inr fire_successor_def Let_def firing_failed_with)
      then show ?thesis by (intro failure [of FIdentityCollision]) simp_all
    next
      case nc: False
      let ?s = "fired_marking f t cs ps"
      have s_ok: "marking_ok ?s"
        unfolding fired_marking_def
        by (rule successor_marking_ok [OF m nc _ produced_ok [OF n comb(2) Inr]])
          (use n in \<open>simp_all add: net_ok_def\<close>)
      obtain sis where sis: "validate_marking ?n ?s = Inr sis" using validate_marking_eq [OF n s_ok] by blast
      note sv = is_valid_marking [OF n s_ok sis]
      have suc: "successor ?n ?m ?gone ps = Inr ?s"
        unfolding fired_marking_def by (rule successor_eq [OF m nc])
      show ?thesis
      proof (cases "marking_valid ?n ?s")
        case True
        then have "fire_transition f t = firing_succeeded f ?s (audit_of f t cs ps)"
          using nc by (simp add: step Inr fire_successor_def Let_def suc sis sv audit_of_def)
        moreover have "fires f t cs ps"
          using least matched Inr nc s_ok True by (simp add: fires_def least_choice_def ut)
        ultimately show ?thesis by (rule success [rotated])
      next
        case False
        then have "fails_with f FProducedInvalid (fire_transition f t)"
          using nc by (simp add: step Inr fire_successor_def Let_def suc sis sv firing_failed_with)
        then show ?thesis by (intro failure [of FProducedInvalid]) simp_all
      qed
    qed
  qed
qed

lemma fire_transition_cases:
  assumes ok: "firing_ok f" and v: "definition_valid (fi_net f)" and mv: "marking_valid (fi_net f) (fi_marking f)"
    and c: "binding_enabled (fi_net f) (fi_marking f) c" "binding_eq (fi_binding f) c"
    and t: "t \<in> set (n_transitions (fi_net f))" "td_identity t = bind_transition (fi_binding f)"
  obtains (failure) code where "code \<in> {FExternalMismatch, FOutputFailed, FIdentityCollision, FProducedInvalid}"
      "fails_with f code (fire_transition f t)"
  | (success) cs ps where "fires f t cs ps"
      "fire_transition f t = firing_succeeded f (fired_marking f t cs ps) (audit_of f t cs ps)"
proof (cases "external_mismatch f t")
  case True
  then have "fails_with f FExternalMismatch (fire_transition f t)"
    by (simp add: fire_transition_def Let_def external_mismatch_def firing_failed_with)
  then show ?thesis by (intro failure [of FExternalMismatch]) simp_all
next
  case False
  show ?thesis
    by (rule fire_matched_cases [OF ok v mv c t False]) (use failure success in blast)+
qed

section \<open>The firer's result\<close>

lemma fire_cases:
  assumes ok: "firing_ok f"
  obtains (failure) code where "code \<noteq> FReconstructionFailed" "fails_with f code (fire f)"
  | (success) t c cs ps where "replay_verdict f = None"
      "definition_valid (fi_net f)" "marking_valid (fi_net f) (fi_marking f)"
      "binding_enabled (fi_net f) (fi_marking f) c" "binding_eq (fi_binding f) c"
      "t \<in> set (n_transitions (fi_net f))" "td_identity t = bind_transition (fi_binding f)"
      "fires f t cs ps"
      "fire f = firing_succeeded f (fired_marking f t cs ps) (audit_of f t cs ps)"
proof (cases "replay_verdict f")
  case (Some code)
  have "code \<noteq> FReconstructionFailed"
    using Some by (auto simp: replay_verdict_def Let_def split: if_splits sum.splits)
  then show ?thesis using failure replay_failure [OF ok Some] by blast
next
  case None
  obtain t c where r: "definition_valid (fi_net f)" "marking_valid (fi_net f) (fi_marking f)"
      "binding_enabled (fi_net f) (fi_marking f) c" "binding_eq (fi_binding f) c"
      "t \<in> set (n_transitions (fi_net f))" "td_identity t = bind_transition (fi_binding f)"
    and fire: "fire f = fire_transition f t"
    by (rule replay_success [OF ok None]) blast
  show ?thesis
  proof (rule fire_transition_cases [OF ok r])
    fix code
    assume "code \<in> {FExternalMismatch, FOutputFailed, FIdentityCollision, FProducedInvalid}"
      "fails_with f code (fire_transition f t)"
    then show ?thesis by (intro failure [of code]) (auto simp: fire)
  next
    fix cs ps
    assume "fires f t cs ps"
      "fire_transition f t = firing_succeeded f (fired_marking f t cs ps) (audit_of f t cs ps)"
    then show ?thesis using success [OF None r, of cs ps] by (simp add: fire)
  qed
qed

lemma fire_successorE:
  assumes ok: "firing_ok f" and r: "fire f = Inr r" "fr_successor r = Some s"
  obtains t c cs ps where "replay_verdict f = None"
      "definition_valid (fi_net f)" "marking_valid (fi_net f) (fi_marking f)"
      "binding_enabled (fi_net f) (fi_marking f) c" "binding_eq (fi_binding f) c"
      "t \<in> set (n_transitions (fi_net f))" "td_identity t = bind_transition (fi_binding f)"
      "fires f t cs ps" "s = fired_marking f t cs ps" "fr_audit r = Some (audit_of f t cs ps)"
      "fr_outcome r = FiringSuccess"
proof (rule fire_cases [OF ok])
  fix code assume "fails_with f code (fire f)"
  then show ?thesis using r by (auto simp: fails_with_def)
next
  fix t c cs ps
  assume a: "replay_verdict f = None"
      "definition_valid (fi_net f)" "marking_valid (fi_net f) (fi_marking f)"
      "binding_enabled (fi_net f) (fi_marking f) c" "binding_eq (fi_binding f) c"
      "t \<in> set (n_transitions (fi_net f))" "td_identity t = bind_transition (fi_binding f)"
      "fires f t cs ps"
    and fire: "fire f = firing_succeeded f (fired_marking f t cs ps) (audit_of f t cs ps)"
  have "s = fired_marking f t cs ps" "fr_audit r = Some (audit_of f t cs ps)" "fr_outcome r = FiringSuccess"
    using r by (auto simp: fire firing_succeeded_eq)
  with a show ?thesis by (rule that)
qed

end
