(* ===== verification/Cpn_Audit.thy ===== *)
theory Cpn_Audit
  imports Cpn_Fire_Rule
begin

text \<open>
  Facts about a successful firing that its audit record exposes: which occurrences are consumed
  and read, why the choice is the least one, that every inhibitor is absent, what each output
  token is, and which places are left alone.
\<close>

section \<open>Occurrences and their patterns\<close>

definition demand_site :: "input_demand \<Rightarrow> arc_id \<times> place_id \<times> int" where
  "demand_site = (\<lambda>(a, mode, k, tp). (ad_identity a, ad_place a, int k))"

definition occurrence_site :: "token_occurrence \<Rightarrow> arc_id \<times> place_id \<times> int" where
  "occurrence_site oc = (oc_arc oc, oc_place oc, oc_pattern oc)"

text \<open>The token satisfies the pattern under the binding.\<close>

definition satisfies :: "binding \<Rightarrow> input_demand \<Rightarrow> cpn_token \<Rightarrow> bool" where
  "satisfies b = (\<lambda>(a, mode, k, tp) tok.
     tok_color tok \<in> set (tp_colors tp) \<and>
     (case binding_values b (tp_variable tp) of None \<Rightarrow> False | Some v \<Rightarrow> value_eq (tok_value tok) v))"

lemma occurrence_of_site: "occurrence_site (occurrence_of (d, c)) = demand_site d"
  by (cases d; cases c) (simp add: occurrence_site_def occurrence_of_def demand_site_def)

lemma occurrence_of_token: "oc_token (occurrence_of (d, c)) = snd c"
  by (cases d; cases c) (simp add: occurrence_of_def)

lemma occurrences_of_demands:
  assumes "cs \<in> set (product_lists (map (input_choices m b) ds))"
    and "\<And>d. d \<in> set ds \<Longrightarrow> binding_values b (demand_variable (plain_demand d)) \<noteq> None"
  shows "list_all2 (\<lambda>d oc. occurrence_site oc = demand_site d \<and> satisfies b d (oc_token oc))
    (filter P ds) (map occurrence_of (filter (\<lambda>dc. P (fst dc)) (zip ds cs)))"
proof -
  have len: "length cs = length ds" using product_lists_length [OF assms(1)] by simp
  have mem: "c \<in> set (input_choices m b d) \<and> binding_values b (demand_variable (plain_demand d)) \<noteq> None"
    if "(d, c) \<in> set (zip ds cs)" for d c
    using zip_product_lists [OF assms(1) that] assms(2) by simp
  from len mem show ?thesis
  proof (induction cs ds rule: list_induct2)
    case (Cons c cs d ds)
    have "satisfies b d (snd c)"
    proof -
      obtain a mode k tp where d: "d = (a, mode, k, tp)" by (metis surj_pair)
      obtain i tok where c: "c = (i, tok)" by (cases c)
      have ch: "(i, tok) \<in> set (input_choices m b d)"
        and bv: "binding_values b (demand_variable (plain_demand d)) \<noteq> None"
        using Cons.prems [of d c] by (simp_all add: c)
      from ch [unfolded input_choices_iff] bv show ?thesis
        by (auto simp: satisfies_def d c plain_demand_def demand_colors_def demand_variable_def split: option.split)
    qed
    moreover have "list_all2 (\<lambda>d oc. occurrence_site oc = demand_site d \<and> satisfies b d (oc_token oc))
        (filter P ds) (map occurrence_of (filter (\<lambda>dc. P (fst dc)) (zip ds cs)))"
    proof (rule Cons.IH)
      fix e x assume "(e, x) \<in> set (zip ds cs)"
      then have "(e, x) \<in> set (zip (d # ds) (c # cs))" by simp
      then show "x \<in> set (input_choices m b e) \<and> binding_values b (demand_variable (plain_demand e)) \<noteq> None"
        by (rule Cons.prems)
    qed
    ultimately show ?case by (simp add: occurrence_of_site occurrence_of_token)
  qed simp
qed

section \<open>The least choice\<close>

lemma enumerate_strict: "sorted_wrt (\<lambda>x y. fst x < fst y) (enumerate j xs)"
  by (induction xs arbitrary: j) (auto simp: in_set_enumerate_eq)

lemma input_choices_strict: "sorted_wrt (\<lambda>x y. fst x < fst y) (input_choices m b d)"
  unfolding input_choices_def by (rule sorted_wrt_filter) (rule enumerate_strict)

lemma product_lists_lex:
  assumes "\<And>xs. xs \<in> set xss \<Longrightarrow> sorted_wrt (\<lambda>x y. fst x < (fst y :: nat)) xs"
  shows "sorted_wrt (\<lambda>x y. map fst x < map fst y) (product_lists xss)"
  using assms
proof (induction xss)
  case (Cons xs xss)
  have tail: "sorted_wrt (\<lambda>x y. map fst x < map fst y) (product_lists xss)" using Cons by simp
  have "sorted_wrt (\<lambda>x y. fst x < fst y) xs" using Cons.prems by simp
  then have "sorted_wrt (\<lambda>x y. map fst x < map fst y)
      (concat (map (\<lambda>x. map (Cons x) (product_lists xss)) xs))"
    by (induction xs) (auto simp: sorted_wrt_append sorted_wrt_map tail)
  then show ?case by simp
qed simp

lemma find_least:
  assumes "sorted_wrt (\<lambda>x y. f x < (f y :: 'b :: linorder)) xs" "List.find P xs = Some x" "y \<in> set xs" "P y"
  shows "f x \<le> f y"
proof -
  obtain i where i: "i < length xs" "x = xs ! i" "\<And>j. j < i \<Longrightarrow> \<not> P (xs ! j)"
    using assms(2) unfolding find_Some_iff by blast
  obtain j where j: "j < length xs" "y = xs ! j" using assms(3) by (auto simp: in_set_conv_nth)
  have "i \<le> j" using i(3) j assms(4) by (metis leI)
  then show ?thesis
    using sorted_wrt_nth_less [OF assms(1), of i j] i j by (cases "i = j") (auto simp: less_imp_le)
qed

lemma least_choice_least:
  assumes "least_choice f t cs"
    and "ds \<in> set (product_lists (map (input_choices (fi_marking f) (fi_binding f)) (input_demands (fi_net f) t)))"
    and "feasible (demands_of (fi_net f) t) ds"
  shows "map fst cs \<le> map fst ds"
  by (rule find_least [OF product_lists_lex assms(1) [unfolded least_choice_def] assms(2,3)])
    (use input_choices_strict in auto)

lemma least_choice_member:
  assumes "least_choice f t cs"
  shows "cs \<in> set (product_lists (map (input_choices (fi_marking f) (fi_binding f)) (input_demands (fi_net f) t)))"
    and "feasible (map plain_demand (input_demands (fi_net f) t)) cs"
  using assms unfolding least_choice_def find_Some_iff input_demands_plain by auto

section \<open>Frame\<close>

lemma retained_all:
  assumes "\<And>oc. oc \<in> set consumed \<Longrightarrow> oc_place oc \<noteq> pm_place pm"
  shows "retained_tokens (consumed_coordinates consumed) pm = pm_tokens pm"
proof -
  have "filter (\<lambda>(index, token). (pm_place pm, int index) \<notin> set (consumed_coordinates consumed))
      (enumerate 0 (pm_tokens pm)) = enumerate 0 (pm_tokens pm)"
    using assms by (intro filter_True) (fastforce simp: consumed_coordinates_def)
  then show ?thesis by (simp add: retained_tokens_def)
qed

lemma untouched_place:
  assumes m: "marking_ok m" and ok: "marking_ok (successor_marking n m (consumed_coordinates consumed) ps)"
    and c: "\<And>oc. oc \<in> set consumed \<Longrightarrow> oc_place oc \<noteq> p"
    and p: "\<And>x. x \<in> set ps \<Longrightarrow> pt_place x \<noteq> p"
  shows "tokens_at (successor_marking n m (consumed_coordinates consumed) ps) p = tokens_at m p"
proof (cases "p \<in> set (map pm_place (mk_places m))")
  case True
  then obtain pm where pm: "pm \<in> set (mk_places m)" "p = pm_place pm" by auto
  have "produced_at ps p = []" using p by (auto simp: produced_at_def filter_empty_conv)
  then have "successor_tokens (consumed_coordinates consumed) ps pm = pm_tokens pm"
    using retained_all [of consumed pm] c pm(2) by (simp add: successor_tokens_def)
  moreover have "sorted (map token_order_key (pm_tokens pm))"
    using m pm(1) by (auto simp: marking_ok_def list_all_iff place_marking_ok_def)
  ultimately show ?thesis
    by (simp add: pm(2) successor_tokens_at [OF m pm(1) ok] tokens_at_place [OF m pm(1)] sort_key_id)
next
  case False
  have "tokens_at (successor_marking n m (consumed_coordinates consumed) ps) p = []"
    using False by (intro tokens_at_unknown) (simp add: successor_marking_def successor_place_def Let_def image_image)
  with tokens_at_unknown [OF False] show ?thesis by simp
qed

section \<open>Success in terms of the audit\<close>

lemma fire_audit:
  assumes ok: "firing_ok f" and r: "fire f = Inr r" "fr_successor r = Some s" "fr_audit r = Some a"
  obtains t c cs where "t \<in> set (n_transitions (fi_net f))" "td_identity t = bind_transition (fi_binding f)"
    "binding_enabled (fi_net f) (fi_marking f) c" "binding_eq (fi_binding f) c"
    "least_choice f t cs" "a = audit_of f t cs (fa_produced a)"
    "output_tokens (fi_net f) t (combined_binding f) = Inr (fa_produced a)"
    "s = successor_marking (fi_net f) (fi_marking f) (consumed_coordinates (fa_consumed a)) (fa_produced a)"
    "\<not> identity_collision (consumed_coordinates (fa_consumed a)) (fi_marking f) (fa_produced a)"
    "marking_ok s" "marking_valid (fi_net f) s" "marking_valid (fi_net f) (fi_marking f)"
    "definition_valid (fi_net f)"
proof (rule fire_successorE [OF ok r(1,2)])
  fix t c cs ps
  assume e: "definition_valid (fi_net f)" "marking_valid (fi_net f) (fi_marking f)"
      "binding_enabled (fi_net f) (fi_marking f) c" "binding_eq (fi_binding f) c"
      "t \<in> set (n_transitions (fi_net f))" "td_identity t = bind_transition (fi_binding f)"
    and f: "fires f t cs ps" "s = fired_marking f t cs ps" "fr_audit r = Some (audit_of f t cs ps)"
  have a: "a = audit_of f t cs ps" using f(3) r(3) by simp
  then have ps: "fa_produced a = ps" and con: "fa_consumed a = consumed_of (input_demands (fi_net f) t) cs"
    by (simp_all add: audit_of_def)
  show ?thesis
    by (rule that [of t c cs])
      (use e f a ps con in \<open>simp_all add: fires_def fired_marking_def\<close>)
qed


section \<open>Which places a firing touches\<close>

lemma input_demand_arc:
  assumes "d \<in> set (input_demands n t)"
  obtains a i k tp where "d = (a, ii_mode i, k, tp)" "a \<in> set (n_arcs n)" "ad_transition a = td_identity t"
    "arc_input a = Some i"
proof -
  obtain a where a: "a \<in> set (transition_arcs n t)" "d \<in> set (arc_input_demands a)"
    using assms by (auto simp: input_demands_def)
  obtain i where i: "arc_input a = Some i"
    using a(1) by (auto simp: transition_arcs_def simp del: arc_input.simps)
  have "\<exists>k tp. d = (a, ii_mode i, k, tp)"
    using a(2) by (auto simp: arc_input_demands_def i simp del: arc_input.simps
        split: if_splits input_pattern.splits)
  with a(1) i that show ?thesis by (auto simp: transition_arcs_def simp del: arc_input.simps)
qed

lemma consumed_arc:
  assumes "oc \<in> set (consumed_of (input_demands n t) cs)"
  obtains a i where "a \<in> set (n_arcs n)" "ad_transition a = td_identity t" "arc_input a = Some i"
    "ii_mode i = Consume" "oc_place oc = ad_place a"
proof -
  obtain d c where dc: "(d, c) \<in> set (zip (input_demands n t) cs)" "demand_is_consume d" "oc = occurrence_of (d, c)"
    using assms by (auto simp: consumed_of_def)
  obtain a i k tp where d: "d = (a, ii_mode i, k, tp)" "a \<in> set (n_arcs n)" "ad_transition a = td_identity t"
      "arc_input a = Some i"
    by (rule input_demand_arc [OF set_zip_leftD [OF dc(1)]])
  moreover have "ii_mode i = Consume" using dc(2) d(1) by (simp add: demand_is_consume_def)
  moreover have "oc_place oc = ad_place a" using dc(3) d(1) by (cases c) (simp add: occurrence_of_def)
  ultimately show ?thesis using that by blast
qed

lemma produced_arc:
  assumes "output_tokens n t b = Inr ps" "x \<in> set ps"
  obtains a where "a \<in> set (n_arcs n)" "ad_transition a = td_identity t" "arc_output a \<noteq> None"
    "pt_place x = ad_place a"
proof -
  obtain a k tt where site: "(a, k, tt) \<in> set (output_sites n t)" and o: "output_token b (a, k, tt) = Inr x"
    using mapr_Inr_member [OF assms(1) [unfolded output_tokens_def] assms(2)] by (metis surj_pair)
  obtain out where a: "a \<in> set (n_arcs n)" "ad_transition a = td_identity t" "ad_inscription a = OutputArc out"
    by (rule output_site [OF site])
  moreover have "arc_output a \<noteq> None" using a(3) by simp
  moreover have "pt_place x = ad_place a" using o by (auto simp: output_token_Inr)
  ultimately show ?thesis using that by blast
qed

section \<open>Selected bindings of the pipeline\<close>

lemma selected_enablement:
  assumes e: "result_of n m evaluator_v1 ordering_v1 e" and s: "select n e d = Inr s" "sr_outcome s = Selected"
  shows "definition_valid n \<and> marking_valid n m \<and> sr_directive s = d"
proof -
  have ch: "selection_choice n e d = (Selected, sr_binding s, sr_directive s, sr_code s)"
    using select_Inr [OF s(1)] s(2) by simp
  then have "er_bindings e \<noteq> None"
    by (cases "er_bindings e") (auto simp: selection_choice_def split: if_splits)
  then have "enablement_verdict n m evaluator_v1 ordering_v1 = None"
    using e by (auto simp: result_of_def)
  then have "definition_valid n \<and> marking_valid n m"
    by (simp add: enablement_verdict_def split: if_splits)
  moreover have "sr_directive s = d"
    using ch by (auto simp: selection_choice_def split: if_splits option.splits list.splits)
  ultimately show ?thesis by simp
qed

text \<open>A firing of what the enabler and the selector returned passes every replay check.\<close>

lemma pipeline_replays:
  assumes "net_ok n" "marking_ok m" "enable n m = Inr e" "select n e d = Inr s"
    and "sr_outcome s = Selected" "sr_binding s = Some b" "binding_ok b" "binding_ok ext"
    and f: "f = \<lparr>fi_net = n, fi_transition = bind_transition b, fi_marking = m, fi_enablement = e,
      fi_selection = s, fi_binding = b, fi_directive = directive_identity s, fi_external = ext\<rparr>"
  obtains t c where "firing_ok f" "definition_valid (fi_net f)" "marking_valid (fi_net f) (fi_marking f)"
    "binding_enabled (fi_net f) (fi_marking f) c" "binding_eq (fi_binding f) c"
    "t \<in> set (n_transitions (fi_net f))" "td_identity t = bind_transition (fi_binding f)"
    "fire f = fire_transition f t"
proof -
  have ok: "firing_ok f" using assms(1,2,7,8) by (simp add: firing_ok_def f)
  obtain e' where "enable n m = Inr e'" "result_of n m evaluator_v1 ordering_v1 e'"
    by (rule enable_result [OF assms(1,2)])
  then have e: "result_of n m evaluator_v1 ordering_v1 e" using assms(3) by simp
  note sel = selected_enablement [OF e assms(4,5)]
  have v: "replay_verdict f = None"
    using sel assms(3-6) by (simp add: replay_verdict_def Let_def f optional_binding_eq_def)
  show ?thesis by (rule replay_success [OF ok v]) (rule that [OF ok])
qed

end
