(* ===== verification/Example.thy ===== *)
theory Example
  imports Cpn_Fire_Rule
begin

text \<open>
  One concrete net, built by the constructors of the model, on which the theorems of the
  development are instantiated: a transition \<open>step\<close> consumes an integer below ten from place
  \<open>in\<close>, reads place \<open>cfg\<close>, is inhibited by any token on \<open>stop\<close>, and produces the integer with a
  caller-supplied token identity on \<open>out\<close>.
\<close>

definition ex_color :: color_id where "ex_color = ColorId ''int''"
definition ex_name :: color_id where "ex_name = ColorId ''name''"
definition ex_in :: place_id where "ex_in = PlaceId ''in''"
definition ex_cfg :: place_id where "ex_cfg = PlaceId ''cfg''"
definition ex_stop :: place_id where "ex_stop = PlaceId ''stop''"
definition ex_out :: place_id where "ex_out = PlaceId ''out''"
definition ex_step :: transition_id where "ex_step = TransitionId ''step''"
definition ex_x :: variable_id where "ex_x = VariableId ''x''"
definition ex_y :: variable_id where "ex_y = VariableId ''y''"
definition ex_w :: variable_id where "ex_w = VariableId ''w''"

lemmas ex_ids = ex_color_def ex_name_def ex_in_def ex_cfg_def ex_stop_def ex_out_def ex_step_def
  ex_x_def ex_y_def ex_w_def

definition ex_transition :: transition_definition where
  "ex_transition =
     \<lparr>td_identity = ex_step, td_inputs = [ex_x, ex_y], td_externals = [ex_w],
      td_guard = GCompare CLess (Variable ex_x) (Literal (VInt 10))\<rparr>"

definition ex_arcs :: "arc_definition list" where
  "ex_arcs =
     [\<lparr>ad_identity = ArcId ''a1'', ad_place = ex_in, ad_transition = ex_step,
       ad_inscription = InputArc \<lparr>ii_mode = Consume,
         ii_patterns = [TokenPattern \<lparr>tp_variable = ex_x, tp_colors = [ex_color]\<rparr>]\<rparr>\<rparr>,
      \<lparr>ad_identity = ArcId ''a2'', ad_place = ex_cfg, ad_transition = ex_step,
       ad_inscription = InputArc \<lparr>ii_mode = Read,
         ii_patterns = [TokenPattern \<lparr>tp_variable = ex_y, tp_colors = [ex_name]\<rparr>]\<rparr>\<rparr>,
      \<lparr>ad_identity = ArcId ''a3'', ad_place = ex_stop, ad_transition = ex_step,
       ad_inscription = InputArc \<lparr>ii_mode = Inhibit,
         ii_patterns = [InhibitorPattern \<lparr>ip_colors = [ex_color]\<rparr>]\<rparr>\<rparr>,
      \<lparr>ad_identity = ArcId ''a4'', ad_place = ex_out, ad_transition = ex_step,
       ad_inscription = OutputArc \<lparr>oi_templates =
         [\<lparr>tt_color = ex_color, tt_value = Variable ex_x, tt_identity = Some (Variable ex_w)\<rparr>]\<rparr>\<rparr>]"

definition ex_net :: net where
  "ex_net =
     \<lparr>n_identity = DefinitionId ''net'',
      n_colors = [\<lparr>cd_identity = ex_color, cd_kinds = [KInteger]\<rparr>, \<lparr>cd_identity = ex_name, cd_kinds = [KString]\<rparr>],
      n_places = [\<lparr>pd_identity = ex_cfg, pd_colors = [ex_name]\<rparr>, \<lparr>pd_identity = ex_in, pd_colors = [ex_color]\<rparr>,
        \<lparr>pd_identity = ex_out, pd_colors = [ex_color]\<rparr>, \<lparr>pd_identity = ex_stop, pd_colors = [ex_color]\<rparr>],
      n_transitions = [ex_transition], n_arcs = ex_arcs, n_priority = [ex_step],
      n_policy = DirectedAllowed\<rparr>"

definition ex_token :: "int \<Rightarrow> cpn_token" where
  "ex_token i = \<lparr>tok_color = ex_color, tok_value = VInt i, tok_identity = None\<rparr>"

definition ex_setting :: cpn_token where
  "ex_setting = \<lparr>tok_color = ex_name, tok_value = VStr ''on'', tok_identity = None\<rparr>"

definition ex_marking :: marking where
  "ex_marking =
     \<lparr>mk_identity = MarkingId ''m0'', mk_definition = DefinitionId ''net'',
      mk_places = [\<lparr>pm_place = ex_cfg, pm_tokens = [ex_setting]\<rparr>,
        \<lparr>pm_place = ex_in, pm_tokens = [ex_token 3, ex_token 7, ex_token 12]\<rparr>,
        \<lparr>pm_place = ex_out, pm_tokens = []\<rparr>, \<lparr>pm_place = ex_stop, pm_tokens = []\<rparr>]\<rparr>"

definition ex_binding :: "int \<Rightarrow> binding" where
  "ex_binding i =
     \<lparr>bind_transition = ex_step,
      bind_assignments = [\<lparr>as_variable = ex_x, as_value = VInt i\<rparr>, \<lparr>as_variable = ex_y, as_value = VStr ''on''\<rparr>]\<rparr>"

definition ex_external :: binding where
  "ex_external =
     \<lparr>bind_transition = ex_step, bind_assignments = [\<lparr>as_variable = ex_w, as_value = VStr ''id-1''\<rparr>]\<rparr>"

section \<open>The objects are well formed and valid\<close>

lemma ex_net_ok: "net_ok ex_net"
  by code_simp

lemma ex_marking_ok: "marking_ok ex_marking"
  by code_simp

lemma ex_validate_definition: "validate_definition ex_net = Inr []"
  by code_simp

lemma ex_validate_marking: "validate_marking ex_net ex_marking = Inr []"
  by code_simp

lemma ex_enumerate: "enumerate_bindings ex_net ex_marking = Inr (Inr [ex_binding 3, ex_binding 7])"
  by code_simp

lemma ex_order: "order_bindings ex_net [ex_binding 3, ex_binding 7] = Inr [ex_binding 3, ex_binding 7]"
  by code_simp


lemma ex_guards: "evaluate_guard (td_guard ex_transition) (ex_binding 3) = Inr True"
  by code_simp

lemma ex_definition_valid: "definition_valid ex_net"
  using ex_validate_definition validate_definition_Nil [OF ex_net_ok] by simp

lemma ex_marking_valid: "marking_valid ex_net ex_marking"
  using ex_validate_marking validate_marking_Nil [OF ex_net_ok ex_marking_ok] by simp

lemma ex_enabled: "binding_enabled ex_net ex_marking (ex_binding 3)"
  by (rule enumerate_bindings_Inr(1) [OF ex_net_ok ex_definition_valid ex_marking_valid ex_enumerate]) simp

section \<open>Enablement and selection\<close>

definition ex_enablement :: enablement where
  "ex_enablement =
     \<lparr>er_identity = EnablementId (digest_json (enablement_payload ex_net ex_marking evaluator_v1 ordering_v1
        enabler_v1 (Some [ex_binding 3, ex_binding 7]) None)),
      er_definition = DefinitionId ''net'', er_policy = DirectedAllowed, er_marking = MarkingId ''m0'',
      er_evaluator = evaluator_v1, er_ordering = ordering_v1, er_enabler = enabler_v1,
      er_bindings = Some [ex_binding 3, ex_binding 7], er_failure = None\<rparr>"

lemma ex_distinct: "distinct (map binding_key [ex_binding 3, ex_binding 7])"
  by code_simp

lemma ex_enable: "enable ex_net ex_marking = Inr ex_enablement"
proof -
  have "n_identity ex_net = DefinitionId ''net''" "n_policy ex_net = DirectedAllowed"
    "mk_identity ex_marking = MarkingId ''m0''"
    by (simp_all add: ex_net_def ex_marking_def)
  then show ?thesis
    using ex_distinct
    by (simp add: enable_def enable_with_def ex_validate_definition ex_validate_marking is_valid_def
        ex_enumerate ex_order enablement_identity_def mk_enablement_id_def mk_enablement_def
        ex_enablement_def)
qed

definition ex_selection :: selection where
  "ex_selection =
     \<lparr>sr_enablement = er_identity ex_enablement, sr_selector = selector_v1, sr_ordering = ordering_v1,
      sr_outcome = Selected, sr_binding = Some (ex_binding 3), sr_directive = None, sr_code = None,
      sr_identity = SelectionId (digest_json (selection_payload (er_identity ex_enablement) selector_v1
        ordering_v1 Selected (Some (ex_binding 3)) None None))\<rparr>"

lemma ex_enablement_parts:
  "er_definition ex_enablement = n_identity ex_net" "er_policy ex_enablement = n_policy ex_net"
  "er_bindings ex_enablement = Some [ex_binding 3, ex_binding 7]" "er_ordering ex_enablement = ordering_v1"
  by (simp_all add: ex_enablement_def ex_net_def)

lemma ex_select: "select ex_net ex_enablement None = Inr ex_selection"
  by (simp add: select_choice selection_choice_def ex_enablement_parts mk_selection_Inr
      selection_legal_def ex_selection_def)

section \<open>Firing\<close>

definition ex_firing :: firing_input where
  "ex_firing =
     \<lparr>fi_net = ex_net, fi_transition = ex_step, fi_marking = ex_marking, fi_enablement = ex_enablement,
      fi_selection = ex_selection, fi_binding = ex_binding 3, fi_directive = None,
      fi_external = ex_external\<rparr>"

lemma ex_firing_parts [simp]:
  "fi_net ex_firing = ex_net" "fi_transition ex_firing = ex_step" "fi_marking ex_firing = ex_marking"
  "fi_enablement ex_firing = ex_enablement" "fi_selection ex_firing = ex_selection"
  "fi_binding ex_firing = ex_binding 3" "fi_directive ex_firing = None" "fi_external ex_firing = ex_external"
  by (simp_all add: ex_firing_def)

lemma ex_firing_ok: "firing_ok ex_firing"
proof -
  have "binding_ok (ex_binding 3)" "binding_ok ex_external" by code_simp+
  then show ?thesis by (simp add: firing_ok_def ex_net_ok ex_marking_ok)
qed

definition ex_produced :: produced_token where
  "ex_produced = \<lparr>pt_arc = ArcId ''a4'', pt_place = ex_out, pt_index = 0,
     pt_token = \<lparr>tok_color = ex_color, tok_value = VInt 3, tok_identity = Some (TokenId ''id-1'')\<rparr>\<rparr>"

definition ex_consumed :: token_occurrence where
  "ex_consumed = \<lparr>oc_arc = ArcId ''a1'', oc_place = ex_in, oc_pattern = 0, oc_ordinal = 0, oc_token = ex_token 3\<rparr>"

definition ex_read :: token_occurrence where
  "ex_read = \<lparr>oc_arc = ArcId ''a2'', oc_place = ex_cfg, oc_pattern = 0, oc_ordinal = 0, oc_token = ex_setting\<rparr>"

definition ex_audited :: inhibitor_evaluation where
  "ex_audited = \<lparr>iv_arc = ArcId ''a3'', iv_place = ex_stop, iv_pattern = 0, iv_count = 0\<rparr>"

definition ex_after :: "marking_id \<Rightarrow> marking" where
  "ex_after i =
     \<lparr>mk_identity = i, mk_definition = DefinitionId ''net'',
      mk_places = [\<lparr>pm_place = ex_cfg, pm_tokens = [ex_setting]\<rparr>,
        \<lparr>pm_place = ex_in, pm_tokens = [ex_token 7, ex_token 12]\<rparr>,
        \<lparr>pm_place = ex_out, pm_tokens = [pt_token ex_produced]\<rparr>, \<lparr>pm_place = ex_stop, pm_tokens = []\<rparr>]\<rparr>"

definition ex_successor :: marking where
  "ex_successor = ex_after (MarkingId (digest_json (successor_payload ex_net ex_marking
     (mk_places (ex_after (MarkingId [])))))) "

lemma ex_reconstruct:
  "reconstruct ex_net ex_marking (ex_binding 3) = Inr (Some ([ex_consumed], [ex_read], [ex_audited]))"
  by code_simp

lemma ex_outputs:
  "output_tokens ex_net ex_transition
     \<lparr>bind_transition = ex_step, bind_assignments = bind_assignments (ex_binding 3) @ bind_assignments ex_external\<rparr> =
   Inr [ex_produced]"
  by code_simp

lemma ex_no_collision: "\<not> identity_collision (consumed_coordinates [ex_consumed]) ex_marking [ex_produced]"
  by code_simp

lemma ex_successor_places:
  "successor_places (consumed_coordinates [ex_consumed]) [ex_produced] ex_marking =
   Inr (mk_places (ex_after (MarkingId [])))"
  by code_simp

lemma ex_after_places: "mk_places (ex_after i) = mk_places (ex_after (MarkingId []))"
  by (simp add: ex_after_def)

lemma ex_successor_eq: "successor ex_net ex_marking (consumed_coordinates [ex_consumed]) [ex_produced] = Inr ex_successor"
proof -
  have "mk_marking i (n_identity ex_net) (mk_places (ex_after (MarkingId []))) = Inr (ex_after i)" for i
  proof -
    have "mk_marking (MarkingId []) (n_identity ex_net) (mk_places (ex_after (MarkingId []))) =
        Inr (ex_after (MarkingId []))"
      by code_simp
    then show ?thesis by (simp add: mk_marking_def ex_after_def split: if_splits)
  qed
  then show ?thesis
    by (simp add: successor_def ex_successor_places marking_id_digest ex_successor_def)
qed

lemma ex_validate_after: "validate_marking ex_net (ex_after i) = Inr []"
proof -
  have "validate_marking ex_net (ex_after (MarkingId [])) = Inr []" by code_simp
  moreover have "marking_findings ex_net (ex_after i) = marking_findings ex_net (ex_after (MarkingId []))"
    by (simp add: marking_findings_def place_set_difference_def ex_after_def)
  ultimately show ?thesis by (simp add: validate_marking_def)
qed

definition ex_audit :: firing_audit where
  "ex_audit = \<lparr>fa_consumed = [ex_consumed], fa_read = [ex_read], fa_inhibitors = [ex_audited],
     fa_produced = [ex_produced], fa_firer = firer_v1\<rparr>"

definition ex_fired :: firing where
  "ex_fired =
     \<lparr>fr_identity = FiringId (digest_json (success_payload ex_firing ex_successor ex_audit)),
      fr_input = ex_firing, fr_outcome = FiringSuccess, fr_successor = Some ex_successor,
      fr_audit = Some ex_audit, fr_failure = None\<rparr>"

lemma ex_find: "List.find (\<lambda>t. td_identity t = bind_transition (ex_binding 3)) (n_transitions ex_net) = Some ex_transition"
  by code_simp

lemma ex_binding_transition: "bind_transition (ex_binding 3) = ex_step"
  by (simp add: ex_binding_def)

lemma ex_combined: "mk_binding (td_identity ex_transition) (bind_assignments (ex_binding 3) @ bind_assignments ex_external) =
   Inr \<lparr>bind_transition = ex_step, bind_assignments = bind_assignments (ex_binding 3) @ bind_assignments ex_external\<rparr>"
  by code_simp

lemma ex_external_match:
  "bind_transition ex_external = td_identity ex_transition"
  "map as_variable (bind_assignments ex_external) = td_externals ex_transition"
  by code_simp+

lemma ex_fire_transition: "fire_transition ex_firing ex_transition = Inr ex_fired"
proof -
  have v: "validate_marking ex_net ex_successor = Inr []"
    unfolding ex_successor_def by (rule ex_validate_after)
  show ?thesis
    by (simp add: fire_transition_def Let_def ex_external_match ex_reconstruct ex_combined ex_outputs
        fire_successor_def ex_no_collision ex_successor_eq v is_valid_def firing_succeeded_eq
        ex_fired_def ex_audit_def)
qed

lemma ex_selection_parts:
  "sr_outcome ex_selection = Selected" "sr_binding ex_selection = Some (ex_binding 3)"
  "sr_directive ex_selection = None" "directive_identity ex_selection = None"
  by (simp_all add: ex_selection_def directive_identity_def)

lemma ex_fire: "fire ex_firing = Inr ex_fired"
  by (simp add: fire_def Let_def ex_validate_definition ex_validate_marking is_valid_def ex_enable
      ex_select ex_selection_parts optional_binding_eq_def ex_find [unfolded ex_binding_transition] ex_binding_transition
      ex_fire_transition)

end
