(* ===== verification/Firing_Theorems.thy ===== *)
theory Firing_Theorems
  imports Cpn_Audit Example
begin

text \<open>
  The properties of firing and enablement, each followed by its instance on the net of
  \<open>Example\<close>.
\<close>

section \<open>Firing\<close>

text \<open>C1: The token game.  When firing produces a successor, then at every place the successor's
  tokens together with the consumed occurrences are, as multisets, the predecessor's tokens
  together with the produced tokens; read occurrences stay.\<close>

theorem fire_token_game:
  assumes "firing_ok f" "fire f = Inr r" "fr_successor r = Some s" "fr_audit r = Some a"
  shows "mset (tokens_at s p) + mset (map oc_token (filter (\<lambda>oc. oc_place oc = p) (fa_consumed a))) =
    mset (tokens_at (fi_marking f) p) + mset (map pt_token (filter (\<lambda>x. pt_place x = p) (fa_produced a)))"
proof -
  obtain t c cs where t: "t \<in> set (n_transitions (fi_net f))" and l: "least_choice f t cs"
    and a: "a = audit_of f t cs (fa_produced a)"
    and o: "output_tokens (fi_net f) t (combined_binding f) = Inr (fa_produced a)"
    and s: "s = successor_marking (fi_net f) (fi_marking f) (consumed_coordinates (fa_consumed a)) (fa_produced a)"
    and ok: "marking_ok s" and mv: "marking_valid (fi_net f) (fi_marking f)" and dv: "definition_valid (fi_net f)"
    by (rule fire_audit [OF assms]) blast
  have con: "fa_consumed a = consumed_of (input_demands (fi_net f) t) cs"
    using arg_cong [OF a, of fa_consumed] by (simp add: audit_of_def)
  have n: "net_ok (fi_net f)" and m: "marking_ok (fi_marking f)"
    using assms(1) by (simp_all add: firing_ok_def)
  show ?thesis
    unfolding s
    using token_game [OF m ok [unfolded s] _ _ produced_place [OF n dv mv o]]
      consumed_at(1) [OF least_choice_member(1) [OF l]]
      consumed_coordinates_distinct [OF least_choice_member(2) [OF l]]
    by (simp add: con)
qed

lemma fire_token_game_witness:
  "firing_ok ex_firing \<and> fire ex_firing = Inr ex_fired \<and>
   mset (tokens_at ex_successor ex_in) + mset (map oc_token (filter (\<lambda>oc. oc_place oc = ex_in) [ex_consumed])) =
     mset (tokens_at ex_marking ex_in) + mset (map pt_token (filter (\<lambda>x. pt_place x = ex_in) [ex_produced]))"
  using fire_token_game [OF ex_firing_ok ex_fire, of ex_successor ex_audit ex_in] ex_firing_ok ex_fire
  by (simp add: ex_fired_def ex_audit_def)

text \<open>C14: Firing never raises.  For well-formed inputs, whether or not they belong together,
  \<open>execute\<close> returns a closed result, and the failure \<open>input_occurrence_reconstruction_failed\<close> is
  never reported: a binding that passed the replay can always be reconstructed.\<close>

theorem fire_total:
  assumes "firing_ok f"
  shows "\<exists>r. fire f = Inr r \<and> fr_input r = f \<and>
    (fr_successor r = None \<longleftrightarrow> fr_failure r \<noteq> None) \<and>
    (\<forall>x \<in> set_option (fr_failure r). ff_code x \<noteq> FReconstructionFailed)"
  by (rule fire_cases [OF assms]) (auto simp: fails_with_def firing_succeeded_eq)

lemma fire_total_witness:
  "firing_ok ex_firing \<and> (\<exists>r. fire ex_firing = Inr r \<and> fr_input r = ex_firing \<and>
    (fr_successor r = None \<longleftrightarrow> fr_failure r \<noteq> None) \<and>
    (\<forall>x \<in> set_option (fr_failure r). ff_code x \<noteq> FReconstructionFailed))"
  using fire_total [OF ex_firing_ok] ex_firing_ok by blast

text \<open>One step is a successful firing from the current marking, with any enablement, selection and
  external outputs the firer accepts.\<close>

inductive net_step :: "net \<Rightarrow> marking \<Rightarrow> marking \<Rightarrow> bool" for n where
  step: "firing_ok f \<Longrightarrow> fi_net f = n \<Longrightarrow> fi_marking f = m \<Longrightarrow> fire f = Inr r \<Longrightarrow>
    fr_successor r = Some m' \<Longrightarrow> net_step n m m'"

inductive reachable :: "net \<Rightarrow> marking \<Rightarrow> marking \<Rightarrow> bool" for n where
  start: "reachable n m m"
| more: "reachable n m m' \<Longrightarrow> net_step n m' m'' \<Longrightarrow> reachable n m m''"

inductive_cases net_stepE: "net_step n m m'"

lemma net_step_valid: "net_step n m m' \<Longrightarrow> marking_ok m' \<and> marking_valid n m'"
proof (erule net_stepE)
  fix f r
  assume ok: "firing_ok f" and f: "fi_net f = n" and r: "fire f = Inr r" "fr_successor r = Some m'"
  obtain t c cs ps where "fires f t cs ps" "m' = fired_marking f t cs ps"
    by (rule fire_successorE [OF ok r])
  with f show ?thesis by (simp add: fires_def)
qed

text \<open>C15: Reachability.  Every marking reached from a well-formed valid marking by successful firings
  is well formed (canonical order, unique token identities) and valid for the definition.\<close>

theorem reachable_valid:
  assumes "marking_ok m" "marking_valid n m" "reachable n m m'"
  shows "marking_ok m' \<and> marking_valid n m'"
  using assms(3,1,2) by (induction rule: reachable.induct) (auto dest: net_step_valid)

lemma ex_step_taken: "net_step ex_net ex_marking ex_successor"
  by (rule step [OF ex_firing_ok _ _ ex_fire]) (simp_all add: ex_fired_def)

lemma reachable_valid_witness:
  "reachable ex_net ex_marking ex_successor \<and> marking_ok ex_successor \<and> marking_valid ex_net ex_successor"
proof -
  have "reachable ex_net ex_marking ex_successor"
    by (rule more [OF start ex_step_taken])
  with reachable_valid [OF ex_marking_ok ex_marking_valid this] show ?thesis by simp
qed

text \<open>C16: A successor exists only for a genuine derivation.  The definition and the predecessor
  are valid, the supplied enablement and selection equal what the enabler and the selector
  recompute; the selection selected a binding, and the fired one equals it and is enabled in the
  predecessor, both up to Python equality; the external outputs assign exactly the variables that the
  fired transition declares as external, in their order.\<close>

theorem fire_requires_replay:
  assumes "firing_ok f" "fire f = Inr r" "fr_successor r = Some s"
  shows "definition_valid (fi_net f) \<and> marking_valid (fi_net f) (fi_marking f) \<and>
    (\<exists>e s'. enable (fi_net f) (fi_marking f) = Inr e \<and> enablement_eq e (fi_enablement f) \<and>
       select (fi_net f) e (sr_directive (fi_selection f)) = Inr s' \<and> selection_eq s' (fi_selection f)) \<and>
    sr_outcome (fi_selection f) = Selected \<and>
    (\<exists>b. sr_binding (fi_selection f) = Some b \<and> binding_eq b (fi_binding f)) \<and>
    (\<exists>c. binding_enabled (fi_net f) (fi_marking f) c \<and> binding_eq (fi_binding f) c) \<and>
    fi_transition f = bind_transition (fi_binding f) \<and>
    fi_directive f = directive_identity (fi_selection f) \<and>
    bind_transition (fi_external f) = fi_transition f \<and>
    (\<exists>t \<in> set (n_transitions (fi_net f)). td_identity t = fi_transition f \<and>
       map as_variable (bind_assignments (fi_external f)) = td_externals t)"
proof -
  obtain t c cs ps where v: "replay_verdict f = None"
      and dv: "definition_valid (fi_net f)" and mv: "marking_valid (fi_net f) (fi_marking f)"
      and c: "binding_enabled (fi_net f) (fi_marking f) c" "binding_eq (fi_binding f) c"
      and t: "t \<in> set (n_transitions (fi_net f))" "td_identity t = bind_transition (fi_binding f)" and f: "fires f t cs ps"
    by (rule fire_successorE [OF assms])
  obtain e where e: "enable (fi_net f) (fi_marking f) = Inr e"
    using assms(1) by (auto simp: firing_ok_def elim: enable_result)
  obtain s' where s': "select (fi_net f) e (sr_directive (fi_selection f)) = Inr s'"
    using select_total by blast
  have "enablement_eq e (fi_enablement f)" "selection_eq s' (fi_selection f)" "sr_outcome (fi_selection f) = Selected"
      "optional_binding_eq (sr_binding (fi_selection f)) (Some (fi_binding f))"
      "fi_transition f = bind_transition (fi_binding f)" "fi_directive f = directive_identity (fi_selection f)"
    using v dv mv by (simp_all add: replay_verdict_def Let_def e s' split: if_splits)
  moreover have "bind_transition (fi_external f) = bind_transition (fi_binding f)"
      "map as_variable (bind_assignments (fi_external f)) = td_externals t"
    using f t by (simp_all add: fires_def external_mismatch_def)
  ultimately show ?thesis
    using dv mv c e s' t by (auto simp: optional_binding_eq_def split: option.splits)
qed

lemma fire_requires_replay_witness:
  "fire ex_firing = Inr ex_fired \<and> (\<exists>c. binding_enabled ex_net ex_marking c \<and> binding_eq (ex_binding 3) c)"
  using fire_requires_replay [OF ex_firing_ok ex_fire, of ex_successor] ex_fire
  by (simp add: ex_fired_def)


text \<open>C17: The audit is sound.  The consumed and the read occurrences of a success are, in arc and
  pattern order, one occurrence for every consuming respectively reading pattern of the
  transition; each is a token of its place in the predecessor with an admitted color and the
  value the selected binding gives to the pattern's variable; and no token is taken twice in one mode, so that two consuming patterns, and
  also two reading patterns, name different tokens of a place.\<close>

theorem fire_audit_sound:
  assumes "firing_ok f" "fire f = Inr r" "fr_successor r = Some s" "fr_audit r = Some a"
  shows "\<exists>t \<in> set (n_transitions (fi_net f)). td_identity t = bind_transition (fi_binding f) \<and>
    list_all2 (\<lambda>d oc. occurrence_site oc = demand_site d \<and> satisfies (fi_binding f) d (oc_token oc))
      (filter demand_is_consume (input_demands (fi_net f) t)) (fa_consumed a) \<and>
    list_all2 (\<lambda>d oc. occurrence_site oc = demand_site d \<and> satisfies (fi_binding f) d (oc_token oc))
      (filter (\<lambda>d. \<not> demand_is_consume d) (input_demands (fi_net f) t)) (fa_read a) \<and>
    list_all (occurrence_at (fi_marking f)) (fa_consumed a @ fa_read a) \<and>
    distinct (map (\<lambda>oc. (oc_place oc, oc_ordinal oc)) (fa_consumed a)) \<and>
    distinct (map (\<lambda>oc. (oc_place oc, oc_ordinal oc)) (fa_read a))"
proof -
  let ?n = "fi_net f" and ?m = "fi_marking f" and ?b = "fi_binding f"
  obtain t c cs where t: "t \<in> set (n_transitions ?n)" "td_identity t = bind_transition ?b"
    and en: "binding_enabled ?n ?m c" "binding_eq ?b c"
    and l: "least_choice f t cs" and a: "a = audit_of f t cs (fa_produced a)"
    and dv: "definition_valid ?n"
    by (rule fire_audit [OF assms]) blast
  have n: "net_ok ?n" using assms(1) by (simp add: firing_ok_def)
  have con: "fa_consumed a = consumed_of (input_demands ?n t) cs" and rd: "fa_read a = read_of (input_demands ?n t) cs"
    using arg_cong [OF a, of fa_consumed] arg_cong [OF a, of fa_read] by (simp_all add: audit_of_def)
  note mem = least_choice_member [OF l]
  have vars: "binding_values ?b (demand_variable (plain_demand d)) \<noteq> None"
    if "d \<in> set (input_demands ?n t)" for d
  proof -
    obtain u where u: "u \<in> set (n_transitions ?n)" "td_identity u = bind_transition c"
        "map as_variable (bind_assignments c) = td_inputs u"
      by (rule enabled_transition [OF n en(1)])
    have "u = t"
      using u t binding_eq_transition [OF en(2)] transitions_of_Some_iff [OF n, of "td_identity t"]
      by (metis option.inject)
    then have "set (td_inputs t) = dom (binding_values ?b)"
      using u(3) binding_eq_variables [OF en(2)] by (simp add: dom_binding_values)
    moreover have "demand_variable (plain_demand d) \<in> set (td_inputs t)"
      using that demand_variables(2) [OF n dv t(1)] by (force simp flip: input_demands_plain)
    ultimately show ?thesis by auto
  qed
  have "list_all (occurrence_at ?m) (fa_consumed a @ fa_read a)"
    using consumed_at [OF mem(1)] by (auto simp: list_all_iff con rd)
  moreover have "distinct (map (\<lambda>oc. (oc_place oc, oc_ordinal oc)) (fa_consumed a))"
    using consumed_coordinates_distinct [OF mem(2)] by (simp add: con consumed_coordinates_def)
  moreover have "distinct (map (\<lambda>oc. (oc_place oc, oc_ordinal oc)) (fa_read a))"
    using read_coordinates_distinct [OF mem(2)] by (simp add: rd consumed_coordinates_def)
  ultimately show ?thesis
    using t occurrences_of_demands [OF mem(1) vars, of demand_is_consume]
      occurrences_of_demands [OF mem(1) vars, of "\<lambda>d. \<not> demand_is_consume d"]
    by (auto simp: con rd consumed_of_def read_of_def)
qed

lemma fire_audit_sound_witness:
  "fire ex_firing = Inr ex_fired \<and> list_all (occurrence_at ex_marking) ([ex_consumed] @ [ex_read])"
  using fire_audit_sound [OF ex_firing_ok ex_fire, of ex_successor ex_audit] ex_fire
  by (auto simp: ex_fired_def ex_audit_def)

text \<open>C18: The occurrence choice is canonical.  Among all assignments of token ordinals to the input
  patterns that satisfy the patterns under the selected binding and reserve no token twice, the
  one recorded by a success is the lexicographically least.\<close>

theorem fire_least_occurrences:
  assumes "firing_ok f" "fire f = Inr r" "fr_successor r = Some s" "fr_audit r = Some a"
  shows "\<exists>t cs. td_identity t = bind_transition (fi_binding f) \<and>
    a = audit_of f t cs (fa_produced a) \<and> feasible (demands_of (fi_net f) t) cs \<and>
    (\<forall>ds \<in> set (product_lists (map (input_choices (fi_marking f) (fi_binding f)) (input_demands (fi_net f) t))).
       feasible (demands_of (fi_net f) t) ds \<longrightarrow> map fst cs \<le> map fst ds)"
proof -
  obtain t c cs where "td_identity t = bind_transition (fi_binding f)" "least_choice f t cs"
      "a = audit_of f t cs (fa_produced a)"
    by (rule fire_audit [OF assms]) blast
  then show ?thesis
    using least_choice_least [of f t cs] least_choice_member(2) [of f t cs, unfolded input_demands_plain]
    by blast
qed

lemma fire_least_occurrences_witness:
  "fire ex_firing = Inr ex_fired \<and>
   (\<exists>t cs. td_identity t = bind_transition (ex_binding 3) \<and> ex_audit = audit_of ex_firing t cs [ex_produced])"
  using fire_least_occurrences [OF ex_firing_ok ex_fire, of ex_successor ex_audit] ex_fire
  by (auto simp: ex_fired_def ex_audit_def)

text \<open>Inhibitors are respected.  A success leaves no token of an inhibited color at the place
  of any inhibitor arc of the fired transition, and the audit lists every inhibitor pattern with
  a matching count of zero.\<close>

lemma fire_inhibitors:
  assumes "firing_ok f" "fire f = Inr r" "fr_successor r = Some s" "fr_audit r = Some a"
    and "arc \<in> set (n_arcs (fi_net f))" "ad_transition arc = bind_transition (fi_binding f)"
    and "arc_input arc = Some i" "ii_mode i = Inhibit" "k < length (ii_patterns i)"
  shows "(\<forall>tok \<in> set (tokens_at (fi_marking f) (ad_place arc)). tok_color tok \<notin> set (pattern_colors (ii_patterns i ! k))) \<and>
    \<lparr>iv_arc = ad_identity arc, iv_place = ad_place arc, iv_pattern = int k, iv_count = 0\<rparr> \<in> set (fa_inhibitors a)"
proof -
  let ?n = "fi_net f" and ?m = "fi_marking f"
  obtain t c cs where t: "t \<in> set (n_transitions ?n)" "td_identity t = bind_transition (fi_binding f)"
    and en: "binding_enabled ?n ?m c" "binding_eq (fi_binding f) c"
    and a: "a = audit_of f t cs (fa_produced a)"
    by (rule fire_audit [OF assms(1-4)]) blast
  have n: "net_ok ?n" using assms(1) by (simp add: firing_ok_def)
  obtain u where u: "u \<in> set (n_transitions ?n)" "td_identity u = bind_transition c" "\<not> inhibited ?n ?m u"
    using en(1) by (auto simp: binding_enabled_def binding_feasible_def)
  have "u = t"
    using u t binding_eq_transition [OF en(2)] transitions_of_Some_iff [OF n, of "td_identity t"]
    by (metis option.inject)
  with u(3) have ni: "\<not> inhibited ?n ?m t" by simp
  have arc: "arc \<in> set (transition_arcs ?n t)"
    using assms(5-7) t(2) by (simp add: transition_arcs_def del: arc_input.simps)
  have "ii_patterns i ! k \<in> set (ii_patterns i)" using assms(9) by simp
  then have "\<forall>tok \<in> set (tokens_at ?m (ad_place arc)). tok_color tok \<notin> set (pattern_colors (ii_patterns i ! k))"
    using ni arc assms(7,8) by (auto simp: inhibited_def arc_inhibited_def simp del: arc_input.simps)
  moreover have "(k, ii_patterns i ! k) \<in> set (enumerate 0 (ii_patterns i))"
    using assms(9) by (simp add: in_set_enumerate_eq)
  then have "\<lparr>iv_arc = ad_identity arc, iv_place = ad_place arc, iv_pattern = int k, iv_count = 0\<rparr> \<in> set (arc_audits arc)"
    using assms(7,8) by (force simp: arc_audits_def simp del: arc_input.simps)
  moreover have "fa_inhibitors a = concat (map arc_audits (transition_arcs ?n t))"
    using arg_cong [OF a, of fa_inhibitors] by (simp add: audit_of_def)
  ultimately show ?thesis using arc by auto
qed

lemma fire_inhibitors_witness:
  "fire ex_firing = Inr ex_fired \<and> ex_audited \<in> set (fa_inhibitors ex_audit)"
  using fire_inhibitors [OF ex_firing_ok ex_fire, of ex_successor ex_audit "ex_arcs ! 2"
      "\<lparr>ii_mode = Inhibit, ii_patterns = [InhibitorPattern \<lparr>ip_colors = [ex_color]\<rparr>]\<rparr>" 0] ex_fire
  by (simp add: ex_fired_def ex_net_def ex_arcs_def ex_audited_def ex_binding_def)

text \<open>C19: Token identities stay unique.  A success produces pairwise distinct token identities, none
  of which occurs on a token it does not consume, and the successor's identified tokens are
  pairwise distinct across all places.\<close>

theorem fire_identities_unique:
  assumes "firing_ok f" "fire f = Inr r" "fr_successor r = Some s" "fr_audit r = Some a"
  shows "distinct (produced_identities (fa_produced a)) \<and>
    set (produced_identities (fa_produced a)) \<inter>
      set (retained_identities (consumed_coordinates (fa_consumed a)) (fi_marking f)) = {} \<and>
    distinct (marking_token_identities (mk_places s))"
proof -
  have "\<not> identity_collision (consumed_coordinates (fa_consumed a)) (fi_marking f) (fa_produced a) \<and> marking_ok s"
    by (rule fire_audit [OF assms]) blast
  then show ?thesis by (auto simp: identity_collision_def list_ex_iff marking_ok_def)
qed

lemma fire_identities_unique_witness:
  "fire ex_firing = Inr ex_fired \<and> distinct (marking_token_identities (mk_places ex_successor))"
  using fire_identities_unique [OF ex_firing_ok ex_fire, of ex_successor ex_audit] ex_fire
  by (simp add: ex_fired_def)


text \<open>Frame.  A place that no consuming arc and no output arc of the fired transition touches has
  exactly the same tokens, in the same order, in the successor; in particular read and inhibited
  places are unchanged.\<close>

lemma fire_frame:
  assumes "firing_ok f" "fire f = Inr r" "fr_successor r = Some s" "fr_audit r = Some a"
    and "\<And>arc. arc \<in> set (n_arcs (fi_net f)) \<Longrightarrow> ad_transition arc = bind_transition (fi_binding f) \<Longrightarrow>
      ad_place arc = p \<Longrightarrow> \<exists>i. arc_input arc = Some i \<and> ii_mode i \<noteq> Consume"
  shows "tokens_at s p = tokens_at (fi_marking f) p"
proof -
  let ?n = "fi_net f"
  obtain t c cs where t: "td_identity t = bind_transition (fi_binding f)"
    and a: "a = audit_of f t cs (fa_produced a)"
    and o: "output_tokens ?n t (combined_binding f) = Inr (fa_produced a)"
    and s: "s = successor_marking ?n (fi_marking f) (consumed_coordinates (fa_consumed a)) (fa_produced a)"
    and ok: "marking_ok s"
    by (rule fire_audit [OF assms(1-4)]) blast
  have con: "fa_consumed a = consumed_of (input_demands ?n t) cs"
    using arg_cong [OF a, of fa_consumed] by (simp add: audit_of_def)
  have m: "marking_ok (fi_marking f)" using assms(1) by (simp add: firing_ok_def)
  have "oc_place oc \<noteq> p" if "oc \<in> set (fa_consumed a)" for oc
    by (rule consumed_arc [OF that [unfolded con]]) (use assms(5) t in fastforce)
  moreover have "pt_place x \<noteq> p" if "x \<in> set (fa_produced a)" for x
    by (rule produced_arc [OF o that]) (use assms(5) t in \<open>fastforce split: arc_inscription.splits\<close>)
  ultimately show ?thesis unfolding s by (rule untouched_place [OF m ok [unfolded s]])
qed

lemma fire_frame_witness:
  "fire ex_firing = Inr ex_fired \<and> tokens_at ex_successor ex_cfg = tokens_at ex_marking ex_cfg"
proof -
  have "\<exists>i. arc_input arc = Some i \<and> ii_mode i \<noteq> Consume"
    if "arc \<in> set (n_arcs (fi_net ex_firing))" "ad_place arc = ex_cfg" for arc
    using that by (auto simp: ex_net_def ex_arcs_def ex_ids)
  with fire_frame [OF ex_firing_ok ex_fire, of ex_successor ex_audit ex_cfg] ex_fire show ?thesis
    by (simp add: ex_fired_def)
qed

text \<open>C20: The pipeline closes.  Enabling, selecting and firing with the objects the three operations
  return always passes every replay check: the firing succeeds, or fails only because of what the
  caller supplies to the outputs (external variables, output evaluation, token identities, or
  values the definition does not admit).\<close>

theorem pipeline_fires:
  assumes "net_ok n" "marking_ok m" "enable n m = Inr e" "select n e d = Inr s"
    and "sr_outcome s = Selected" "sr_binding s = Some b" "binding_ok b" "binding_ok ext"
    and f: "f = \<lparr>fi_net = n, fi_transition = bind_transition b, fi_marking = m, fi_enablement = e,
      fi_selection = s, fi_binding = b, fi_directive = directive_identity s, fi_external = ext\<rparr>"
  shows "\<exists>r. fire f = Inr r \<and> (fr_successor r \<noteq> None \<or> (\<exists>x. fr_failure r = Some x \<and>
    ff_code x \<in> {FExternalMismatch, FOutputFailed, FIdentityCollision, FProducedInvalid}))"
  by (rule pipeline_replays [OF assms(1-8) f], rule fire_transition_cases)
    (auto simp: fails_with_def firing_succeeded_eq)

lemma pipeline_fires_witness:
  "enable ex_net ex_marking = Inr ex_enablement \<and> select ex_net ex_enablement None = Inr ex_selection \<and>
   (\<exists>r. fire ex_firing = Inr r \<and> (fr_successor r \<noteq> None \<or> (\<exists>x. fr_failure r = Some x \<and>
      ff_code x \<in> {FExternalMismatch, FOutputFailed, FIdentityCollision, FProducedInvalid})))"
proof -
  have "ex_firing = \<lparr>fi_net = ex_net, fi_transition = bind_transition (ex_binding 3), fi_marking = ex_marking,
      fi_enablement = ex_enablement, fi_selection = ex_selection, fi_binding = ex_binding 3,
      fi_directive = directive_identity ex_selection, fi_external = ex_external\<rparr>"
    by (simp add: ex_firing_def ex_selection_parts ex_binding_transition)
  moreover have "binding_ok (ex_binding 3)" "binding_ok ex_external" by code_simp+
  ultimately show ?thesis
    using pipeline_fires [OF ex_net_ok ex_marking_ok ex_enable ex_select ex_selection_parts(1,2)]
      ex_enable ex_select by blast
qed

section \<open>Enablement\<close>

text \<open>C21: The enabler is sound and complete.  On success the bindings returned are exactly, up to
  Python equality, the bindings enabled by the rule of colored nets with read and inhibitor arcs:
  an assignment of distinct tokens per place and mode to the input variables, no inhibitor, and a
  true guard; none is listed twice.\<close>

theorem enable_sound_complete:
  assumes "net_ok n" "marking_ok m" "enable n m = Inr r" "er_bindings r = Some bs"
  shows "(\<forall>b \<in> set bs. binding_enabled n m b) \<and>
    (\<forall>b. binding_enabled n m b \<longrightarrow> (\<exists>c \<in> set bs. binding_eq b c)) \<and>
    distinct (map binding_key bs)"
proof -
  obtain e where "enable n m = Inr e" "result_of n m evaluator_v1 ordering_v1 e"
    by (rule enable_result [OF assms(1,2)])
  then have r: "result_of n m evaluator_v1 ordering_v1 r" using assms(3) by simp
  then have "enablement_verdict n m evaluator_v1 ordering_v1 = None"
    using assms(4) by (auto simp: result_of_def)
  then have v: "definition_valid n" "marking_valid n m" by (simp_all add: enablement_verdict_def split: if_splits)
  obtain cs where cs: "enumerate_bindings n m = Inr (Inr cs)" "bs = sort_key (order_key n) cs"
    using r assms(4) by (auto simp: result_of_def)
  note en = enumerate_bindings_Inr [OF assms(1) v cs(1)]
  have "distinct (map binding_key bs)"
    using en(3) distinct_mset_eq [of "map binding_key bs" "map binding_key cs"] by (simp add: cs(2))
  with en(1,2) show ?thesis by (simp add: cs(2))
qed

lemma enable_sound_complete_witness:
  "enable ex_net ex_marking = Inr ex_enablement \<and> binding_enabled ex_net ex_marking (ex_binding 7)"
  using enable_sound_complete [OF ex_net_ok ex_marking_ok ex_enable, of "[ex_binding 3, ex_binding 7]"] ex_enable
  by (simp add: ex_enablement_parts)

text \<open>C22: The enabler's verdict.  For well-formed inputs the enabler never raises; it fails with the
  first of invalid definition, invalid marking, unsupported evaluator, unsupported ordering
  policy and a guard that raises on a feasible binding, and succeeds exactly when none applies.\<close>

theorem enable_verdict:
  assumes "net_ok n" "marking_ok m" "evaluator_value ev \<noteq> []" "ordering_value ord \<noteq> []"
  shows "\<exists>r. enable_with n m ev ord = Inr r \<and>
    map_option ef_code (er_failure r) = enablement_verdict n m ev ord \<and>
    (er_bindings r = None \<longleftrightarrow> er_failure r \<noteq> None)"
  using enable_with_result [OF assms] by (auto simp: result_of_def)

lemma enable_verdict_witness:
  "\<exists>r. enable_with ex_net ex_marking (EvaluatorId ''other'') ordering_v1 = Inr r \<and>
    map_option ef_code (er_failure r) = Some EUnsupportedEvaluator"
  using enable_verdict [OF ex_net_ok ex_marking_ok, of "EvaluatorId ''other''" ordering_v1]
  by (auto simp: enablement_verdict_def ex_definition_valid ex_marking_valid evaluator_v1_def ordering_v1_def)

text \<open>C23: The order of the result is canonical: strictly increasing in transition priority and then
  in the values bound, whatever order the set of enabled bindings is iterated in.\<close>

theorem enable_order:
  assumes "net_ok n" "marking_ok m" "enable n m = Inr r" "er_bindings r = Some bs"
  shows "sorted_wrt (<) (map (order_key n) bs) \<and>
    (\<forall>cs. mset cs = mset bs \<longrightarrow> order_bindings n cs = Inr bs)"
proof -
  obtain e where "enable n m = Inr e" "result_of n m evaluator_v1 ordering_v1 e"
    by (rule enable_result [OF assms(1,2)])
  then have "result_of n m evaluator_v1 ordering_v1 r" using assms(3) by simp
  then obtain cs where bs: "bs = sort_key (order_key n) cs" and d: "distinct (map binding_key cs)"
    and en: "\<And>b. b \<in> set cs \<Longrightarrow> binding_enabled n m b"
    using assms(4) by (auto simp: result_of_def)
  have "inj_on (order_key n) (set cs)"
    using order_key_binding_key [OF assms(1)] en d by (meson distinct_map inj_onD inj_onI)
  then have inj: "inj_on (order_key n) (set bs)" by (simp add: bs)
  have "distinct (map (order_key n) bs)"
    using inj d distinct_mset_eq [of bs cs] by (simp add: distinct_map bs)
  moreover have srt: "sorted (map (order_key n) bs)" by (simp add: bs)
  ultimately have "sorted_wrt (<) (map (order_key n) bs)" by (simp add: strict_sorted_iff)
  moreover have "order_bindings n ds = Inr bs" if "mset ds = mset bs" for ds
  proof -
    have "set ds = set cs" using mset_eq_setD [OF that] by (simp add: bs)
    then have "order_bindings n ds = Inr (sort_key (order_key n) ds)"
      using enabled_transition [OF assms(1) en] by (intro order_bindings_eq) blast
    moreover have "sort_key (order_key n) bs = sort_key (order_key n) ds"
      by (rule sort_key_perm [OF inj]) (simp add: that)
    ultimately show ?thesis using sort_key_id [OF srt] by simp
  qed
  ultimately show ?thesis by blast
qed

lemma enable_order_witness:
  "enable ex_net ex_marking = Inr ex_enablement \<and>
   order_bindings ex_net [ex_binding 7, ex_binding 3] = Inr [ex_binding 3, ex_binding 7]"
  using enable_order [OF ex_net_ok ex_marking_ok ex_enable, of "[ex_binding 3, ex_binding 7]"] ex_enable
  by (simp add: ex_enablement_parts)

end
