(* ===== verification/Guard_Lemmas.thy ===== *)
theory Guard_Lemmas
  imports Cpn_Audit
begin

text \<open>
  Facts about the evaluator: it cannot distinguish bindings that are equal in Python, its order
  comparisons are the canonical value order, and guards that are typed by the kinds of their
  variables never raise.
\<close>

section \<open>Equal bindings\<close>

definition value_rel :: "cpn_value result \<Rightarrow> cpn_value result \<Rightarrow> bool" where
  "value_rel x y \<longleftrightarrow>
     (case (x, y) of (Inl e, Inl d) \<Rightarrow> e = d | (Inr v, Inr w) \<Rightarrow> value_eq v w | _ \<Rightarrow> False)"

lemma evaluate_value_eq:
  assumes "binding_eq b c"
  shows "value_rel (evaluate_value e b) (evaluate_value e c)"
proof (cases e)
  case (Variable x)
  then show ?thesis
    using binding_eq_values [OF assms, of x]
    by (cases "binding_values b x"; cases "binding_values c x") (simp_all add: value_rel_def)
qed (simp add: value_rel_def)

lemma value_order_key_less:
  "kind_of v = kind_of w \<Longrightarrow> kind_of v \<in> {KInteger, KReal, KString} \<Longrightarrow>
   value_less v w \<longleftrightarrow> value_order_key v < value_order_key w"
  by (cases v; cases w) (auto simp: value_order_key_def f64_less_def)

lemma compare_values_eq:
  assumes "value_eq v v'" "value_eq w w'"
  shows "compare_values c v w = compare_values c v' w'"
proof -
  have k: "kind_of v' = kind_of v" "kind_of w' = kind_of w"
    using assms by (simp_all add: value_eq_kind [of v v'] value_eq_kind [of w w'])
  have o: "value_order_key v' = value_order_key v" "value_order_key w' = value_order_key w"
    using assms by (simp_all add: value_eq_key)
  show ?thesis
  proof (cases "kind_of v = kind_of w \<and> kind_of v \<in> {KInteger, KReal, KString}")
    case True
    then have "value_less v' w' = value_less v w" "value_less w' v' = value_less w v"
      using value_order_key_less [of v w] value_order_key_less [of v' w']
        value_order_key_less [of w v] value_order_key_less [of w' v'] by (auto simp: k o)
    then show ?thesis by (simp add: compare_values_def k value_eq_key o)
  next
    case False
    then show ?thesis by (auto simp: compare_values_def k value_eq_key o)
  qed
qed

lemma evaluate_guard_eq:
  assumes "binding_eq b c"
  shows "evaluate_guard g b = evaluate_guard g c"
proof (induction g)
  case (GCompare op l r)
  show ?case
    using evaluate_value_eq [OF assms, of l] evaluate_value_eq [OF assms, of r]
    by (cases "evaluate_value l b"; cases "evaluate_value l c"; cases "evaluate_value r b"; cases "evaluate_value r c")
      (simp_all add: value_rel_def compare_values_eq)
qed (simp_all cong: all_short_cong any_short_cong)

section \<open>Typed guards\<close>

fun expression_typed :: "(variable_id \<Rightarrow> value_kind \<Rightarrow> bool) \<Rightarrow> value_expression \<Rightarrow> value_kind \<Rightarrow> bool" where
  "expression_typed env (Literal v) k = (kind_of v = k)"
| "expression_typed env (Variable x) k = env x k"

fun guard_typed :: "(variable_id \<Rightarrow> value_kind \<Rightarrow> bool) \<Rightarrow> guard \<Rightarrow> bool" where
  "guard_typed env GTrue = True"
| "guard_typed env GFalse = True"
| "guard_typed env (GAll gs) = list_all (guard_typed env) gs"
| "guard_typed env (GAny gs) = list_all (guard_typed env) gs"
| "guard_typed env (GNot g) = guard_typed env g"
| "guard_typed env (GCompare c l r) =
     (\<exists>k \<in> {KNone, KBoolean, KInteger, KReal, KString, KStringSequence}.
        expression_typed env l k \<and> expression_typed env r k \<and>
        (c \<in> {CEqual, CNotEqual} \<or> k \<in> {KInteger, KReal, KString}))"

definition binding_typed :: "(variable_id \<Rightarrow> value_kind \<Rightarrow> bool) \<Rightarrow> binding \<Rightarrow> bool" where
  "binding_typed env b \<longleftrightarrow>
     (\<forall>x k. env x k \<longrightarrow> (\<exists>v. binding_values b x = Some v \<and> kind_of v = k))"

lemma all_short_ok: "(\<And>x. x \<in> set xs \<Longrightarrow> is_ok (f x)) \<Longrightarrow> is_ok (all_short f xs)"
proof (induction xs)
  case (Cons x xs)
  then show ?case by (cases "f x") fastforce+
qed simp

lemma any_short_ok: "(\<And>x. x \<in> set xs \<Longrightarrow> is_ok (f x)) \<Longrightarrow> is_ok (any_short f xs)"
proof (induction xs)
  case (Cons x xs)
  then show ?case by (cases "f x") fastforce+
qed simp

lemma expression_typed_value:
  "binding_typed env b \<Longrightarrow> expression_typed env e k \<Longrightarrow> \<exists>v. evaluate_value e b = Inr v \<and> kind_of v = k"
  by (cases e) (fastforce simp: binding_typed_def)+

lemma guard_typed_ok: "binding_typed env b \<Longrightarrow> guard_typed env g \<Longrightarrow> is_ok (evaluate_guard g b)"
proof (induction g)
  case (GNot g)
  then show ?case by (cases "evaluate_guard g b") simp_all
next
  case (GCompare c l r)
  then obtain k where k: "expression_typed env l k" "expression_typed env r k"
      "c \<in> {CEqual, CNotEqual} \<or> k \<in> {KInteger, KReal, KString}"
    by (simp only: guard_typed.simps) blast
  obtain v w where "evaluate_value l b = Inr v" "evaluate_value r b = Inr w" "kind_of v = k" "kind_of w = k"
    using expression_typed_value [OF GCompare.prems(1) k(1)] expression_typed_value [OF GCompare.prems(1) k(2)]
    by blast
  with k(3) show ?case by (auto simp: compare_values_def)
qed (auto simp: list_all_iff intro!: all_short_ok any_short_ok)

text \<open>The kind of a variable, when every color its pattern admits has that one kind.\<close>

definition variable_kind :: "net \<Rightarrow> transition_definition \<Rightarrow> variable_id \<Rightarrow> value_kind \<Rightarrow> bool" where
  "variable_kind n t x k \<longleftrightarrow>
     (\<exists>d \<in> set (demands_of n t). demand_variable d = x \<and>
        (\<forall>c \<in> set (demand_colors d). \<forall>cd \<in> set (n_colors n). cd_identity cd = c \<longrightarrow> cd_kinds cd = [k]))"

definition statically_typed :: "net \<Rightarrow> bool" where
  "statically_typed n \<longleftrightarrow> (\<forall>t \<in> set (n_transitions n). guard_typed (variable_kind n t) (td_guard t))"

lemma occurrence_kind:
  assumes m: "marking_ok m" and v: "marking_valid n m" and occ: "occurrence n m t b occ"
    and k: "variable_kind n t x k"
  shows "\<exists>w. binding_values b x = Some w \<and> kind_of w = k"
proof -
  obtain d where d: "d \<in> set (demands_of n t)" "demand_variable d = x"
    and kinds: "\<And>c cd. c \<in> set (demand_colors d) \<Longrightarrow> cd \<in> set (n_colors n) \<Longrightarrow> cd_identity cd = c \<Longrightarrow> cd_kinds cd = [k]"
    using k by (auto simp: variable_kind_def)
  define tok where "tok = tokens_at m (demand_place d) ! occ x"
  have at: "occ x < length (tokens_at m (demand_place d))" "tok_color tok \<in> set (demand_colors d)"
      "binding_values b x = Some (tok_value tok)"
    using occ d by (auto simp: occurrence_def Let_def tok_def)
  have tok: "tok \<in> set (tokens_at m (demand_place d))" using at(1) by (simp add: tok_def)
  then have "demand_place d \<in> set (map pm_place (mk_places m))"
    using tokens_at_unknown [of "demand_place d" m] by fastforce
  then obtain pm where pm: "pm \<in> set (mk_places m)" "pm_place pm = demand_place d" by auto
  then have "tok \<in> set (pm_tokens pm)" using tok tokens_at_place [OF m pm(1)] by simp
  then have "token_valid n (pm_place pm) tok" using v pm(1) by (simp add: marking_valid_def)
  then obtain cd where "cd \<in> set (n_colors n)" "cd_identity cd = tok_color tok" "kind_of (tok_value tok) \<in> set (cd_kinds cd)"
    by (auto simp: token_valid_def)
  then have "kind_of (tok_value tok) = k" using kinds [OF at(2)] by simp
  with at(3) show ?thesis by blast
qed

lemma statically_typed_total:
  assumes "marking_ok m" "marking_valid n m" "statically_typed n"
  shows "guards_total n m"
  unfolding guards_total_def
proof (intro ballI allI impI)
  fix t b assume t: "t \<in> set (n_transitions n)" and b: "binding_feasible n m t b"
  then obtain occ where "occurrence n m t b occ" by (auto simp: binding_feasible_def)
  then have "binding_typed (variable_kind n t) b"
    using occurrence_kind [OF assms(1,2)] unfolding binding_typed_def by blast
  then show "is_ok (evaluate_guard (td_guard t) b)"
    using assms(3) t by (intro guard_typed_ok) (auto simp: statically_typed_def)
qed

section \<open>Short circuit\<close>

lemma all_short_True: "all_short f xs = Inr True \<longleftrightarrow> (\<forall>x \<in> set xs. f x = Inr True)"
proof (induction xs)
  case (Cons x xs)
  then show ?case by (cases "f x") auto
qed simp

lemma all_short_False:
  "all_short f xs = Inr False \<longleftrightarrow> (\<exists>ys x zs. xs = ys @ x # zs \<and> (\<forall>y \<in> set ys. f y = Inr True) \<and> f x = Inr False)"
proof (induction xs)
  case (Cons a xs)
  show ?case
  proof (cases "f a = Inr True")
    case True
    have "(\<exists>ys x zs. a # xs = ys @ x # zs \<and> (\<forall>y \<in> set ys. f y = Inr True) \<and> f x = Inr False) \<longleftrightarrow>
        (\<exists>ys x zs. xs = ys @ x # zs \<and> (\<forall>y \<in> set ys. f y = Inr True) \<and> f x = Inr False)"
      (is "?L \<longleftrightarrow> ?R")
    proof
      assume ?L
      then obtain ys x zs where "a # xs = ys @ x # zs" "\<forall>y \<in> set ys. f y = Inr True" "f x = Inr False" by blast
      with True show ?R by (cases ys) auto
    next
      assume ?R
      then obtain ys x zs where "xs = ys @ x # zs" "\<forall>y \<in> set ys. f y = Inr True" "f x = Inr False" by blast
      with True have "a # xs = (a # ys) @ x # zs \<and> (\<forall>y \<in> set (a # ys). f y = Inr True) \<and> f x = Inr False" by simp
      then show ?L by blast
    qed
    then show ?thesis using True Cons by simp
  next
    case False
    have "(\<exists>ys x zs. a # xs = ys @ x # zs \<and> (\<forall>y \<in> set ys. f y = Inr True) \<and> f x = Inr False) \<longleftrightarrow> f a = Inr False"
      (is "?L \<longleftrightarrow> ?R")
    proof
      assume ?L
      then obtain ys x zs where "a # xs = ys @ x # zs" "\<forall>y \<in> set ys. f y = Inr True" "f x = Inr False" by blast
      with False show ?R by (cases ys) auto
    next
      assume ?R
      then have "a # xs = [] @ a # xs \<and> (\<forall>y \<in> set []. f y = Inr True) \<and> f a = Inr False" by simp
      then show ?L by blast
    qed
    with False show ?thesis by (cases "f a") auto
  qed
qed simp

end
