(* ===== verification/Component_Theorems.thy ===== *)
theory Component_Theorems
  imports Guard_Lemmas Example
begin

text \<open>
  The properties of the components below firing: validators, guards, selection, the content
  identities, canonical collections and tagged values, each followed by its instance.
\<close>

section \<open>Validators\<close>

text \<open>C24: The definition validator decides validity.  It never raises on a well-formed net, reports
  one issue per finding in canonical order, and reports none exactly when every place, arc,
  guard and binder of the net satisfies the declarative validity rules.\<close>

theorem validate_definition_decides:
  assumes "net_ok n"
  shows "\<exists>is. validate_definition n = Inr is \<and> (is = [] \<longleftrightarrow> definition_valid n) \<and>
    sorted (map issue_key is) \<and> length is = length (definition_findings n)"
  using validate_definition_eq [OF assms] validate_definition_Nil [OF assms]
  by (auto simp: mk_validation_result_def)

lemma validate_definition_decides_witness:
  "net_ok ex_net \<and> (\<exists>is. validate_definition ex_net = Inr is \<and> (is = [] \<longleftrightarrow> definition_valid ex_net) \<and>
     sorted (map issue_key is) \<and> length is = length (definition_findings ex_net))"
  using validate_definition_decides [OF ex_net_ok] ex_net_ok by blast

text \<open>The marking validator decides validity of a marking for a net, never raises on well-formed
  objects, and returns one issue per finding in canonical order.\<close>

lemma validate_marking_decides:
  assumes "net_ok n" "marking_ok m"
  shows "\<exists>is. validate_marking n m = Inr is \<and> (is = [] \<longleftrightarrow> marking_valid n m) \<and>
    sorted (map issue_key is) \<and> length is = length (marking_findings n m)"
  using validate_marking_eq [OF assms] validate_marking_Nil [OF assms]
  by (auto simp: mk_validation_result_def)

lemma validate_marking_decides_witness:
  "net_ok ex_net \<and> marking_ok ex_marking \<and> (\<exists>is. validate_marking ex_net ex_marking = Inr is \<and>
     (is = [] \<longleftrightarrow> marking_valid ex_net ex_marking) \<and> sorted (map issue_key is) \<and>
     length is = length (marking_findings ex_net ex_marking))"
  using validate_marking_decides [OF ex_net_ok ex_marking_ok] ex_net_ok ex_marking_ok by blast

section \<open>Guards\<close>

text \<open>C25: Static typing of guards is sound.  When every guard is typed by the single kinds that the
  colors of its input patterns admit, enablement of a valid marking succeeds: no feasible
  binding makes a guard raise.\<close>

theorem typed_net_enables:
  assumes "net_ok n" "marking_ok m" "definition_valid n" "marking_valid n m" "statically_typed n"
  shows "\<exists>r bs. enable n m = Inr r \<and> er_bindings r = Some bs \<and> er_failure r = None"
proof -
  have "guards_total n m" using assms(2,4,5) by (rule statically_typed_total)
  moreover obtain r where "enable n m = Inr r" "result_of n m evaluator_v1 ordering_v1 r"
    by (rule enable_result [OF assms(1,2)])
  ultimately show ?thesis using assms(3,4) by (auto simp: result_of_def enablement_verdict_def)
qed

lemma ex_statically_typed: "statically_typed ex_net"
proof -
  have "variable_kind ex_net ex_transition ex_x KInteger"
    unfolding variable_kind_def
    by (intro bexI [of _ "(ex_in, Consume, \<lparr>tp_variable = ex_x, tp_colors = [ex_color]\<rparr>)"]) code_simp+
  then show ?thesis by (simp add: statically_typed_def ex_net_def ex_transition_def)
qed

lemma typed_net_enables_witness:
  "statically_typed ex_net \<and> (\<exists>r bs. enable ex_net ex_marking = Inr r \<and> er_bindings r = Some bs \<and> er_failure r = None)"
  using typed_net_enables [OF ex_net_ok ex_marking_ok ex_definition_valid ex_marking_valid ex_statically_typed]
    ex_statically_typed by blast

text \<open>The evaluator cannot tell apart bindings that are equal in Python, which is what lets the
  enabler keep one representative of equal bindings.\<close>

lemma guard_respects_equality:
  assumes "binding_eq b c"
  shows "evaluate_guard g b = evaluate_guard g c"
  using assms by (rule evaluate_guard_eq)

lemma guard_respects_equality_witness:
  "evaluate_guard (GCompare CLessEq (Variable ex_x) (Literal (VReal (F64 False 0 0))))
     \<lparr>bind_transition = ex_step, bind_assignments = [\<lparr>as_variable = ex_x, as_value = VReal (F64 True 0 0)\<rparr>]\<rparr> =
   evaluate_guard (GCompare CLessEq (Variable ex_x) (Literal (VReal (F64 False 0 0))))
     \<lparr>bind_transition = ex_step, bind_assignments = [\<lparr>as_variable = ex_x, as_value = VReal (F64 False 0 0)\<rparr>]\<rparr>"
  by (rule guard_respects_equality) code_simp

text \<open>C26: A comparison raises exactly on different kinds and on an order relation over an unordered
  kind; otherwise it decides the relation of the canonical value order.\<close>

fun key_relation :: "comparison \<Rightarrow> value_key \<Rightarrow> value_key \<Rightarrow> bool" where
  "key_relation CEqual x y = (x = y)"
| "key_relation CNotEqual x y = (x \<noteq> y)"
| "key_relation CLess x y = (x < y)"
| "key_relation CLessEq x y = (x \<le> y)"
| "key_relation CGreater x y = (y < x)"
| "key_relation CGreaterEq x y = (y \<le> x)"

theorem comparison_is_value_order:
  "compare_values c v w =
     (if kind_of v \<noteq> kind_of w then Inl (TypeError ''guard comparison requires equal value kinds'')
      else if c \<in> {CEqual, CNotEqual} \<or> kind_of v \<in> {KInteger, KReal, KString}
      then Inr (key_relation c (value_order_key v) (value_order_key w))
      else Inl (TypeError ''ordering guard requires integer, real, or string values''))"
proof -
  have "value_less v w \<longleftrightarrow> value_order_key v < value_order_key w" "value_less w v \<longleftrightarrow> value_order_key w < value_order_key v"
    if "kind_of v = kind_of w" "kind_of v \<in> {KInteger, KReal, KString}"
    using value_order_key_less [of v w] value_order_key_less [of w v] that by auto
  then show ?thesis
    by (cases c) (auto simp: compare_values_def value_eq_key order.order_iff_strict)
qed

text \<open>Composite guards are evaluated left to right and stop at the first operand that decides: the
  value, or the exception, of a conjunction is that of its first operand that is not true, and
  of a disjunction that of its first operand that is not false.\<close>

lemma composite_short_circuit:
  "evaluate_guard (GAll gs) b =
     (case List.find (\<lambda>r. r \<noteq> Inr True) (map (\<lambda>g. evaluate_guard g b) gs) of None \<Rightarrow> Inr True | Some r \<Rightarrow> r) \<and>
   evaluate_guard (GAny gs) b =
     (case List.find (\<lambda>r. r \<noteq> Inr False) (map (\<lambda>g. evaluate_guard g b) gs) of None \<Rightarrow> Inr False | Some r \<Rightarrow> r)"
proof -
  have "all_short f xs = (case List.find (\<lambda>r. r \<noteq> Inr True) (map f xs) of None \<Rightarrow> Inr True | Some r \<Rightarrow> r)"
    "any_short f xs = (case List.find (\<lambda>r. r \<noteq> Inr False) (map f xs) of None \<Rightarrow> Inr False | Some r \<Rightarrow> r)"
    for f and xs :: "guard list"
    by (induction xs; case_tac "f a"; simp)+
  then show ?thesis by simp
qed


section \<open>Selection\<close>

text \<open>C27: Selection is sound and obeys the policy.  A selected binding is equal to an enabled one;
  without a directive it is the first one; a directive is obeyed only when the net's policy
  admits directed selection and the directive names this very enablement result.\<close>

theorem select_policy:
  assumes "select n r d = Inr s" "sr_outcome s = Selected"
  shows "\<exists>bs b. er_bindings r = Some bs \<and> sr_binding s = Some b \<and> (\<exists>c \<in> set bs. binding_eq b c) \<and>
    sr_directive s = d \<and>
    (case d of None \<Rightarrow> b = hd bs
     | Some x \<Rightarrow> n_policy n = DirectedAllowed \<and> sd_enablement x = er_identity r \<and> b = sd_binding x)"
proof -
  from select_Inr [OF assms(1)] assms(2)
  have "selection_choice n r d = (Selected, sr_binding s, sr_directive s, sr_code s)" by simp
  then show ?thesis
    by (auto simp: selection_choice_def list_ex_iff split: if_splits option.splits list.splits)
qed

lemma select_policy_witness:
  "select ex_net ex_enablement None = Inr ex_selection \<and>
   (\<exists>bs b. er_bindings ex_enablement = Some bs \<and> sr_binding ex_selection = Some b \<and>
      (\<exists>c \<in> set bs. binding_eq b c) \<and> b = hd bs)"
  using select_policy [OF ex_select] ex_select by (auto simp: ex_selection_def)

lemma binding_key_order_key: "binding_key b = binding_key c \<Longrightarrow> order_key n b = order_key n c"
proof -
  assume eq: "binding_key b = binding_key c"
  have "order_key n x = (the (priority_of n (fst (binding_key x))), map snd (snd (binding_key x)))" for x
    by (simp add: order_key_def value_keys_def binding_key_def assignment_key_def)
  with eq show ?thesis by simp
qed

text \<open>The default selection is minimal.  Selecting without a directive from the enablement of a
  marking takes a binding that is least, in transition priority and then in the values bound,
  among all bindings the marking enables; it reports an empty selection only when the marking
  enables none.\<close>

lemma select_default_minimal:
  assumes "net_ok n" "marking_ok m" "enable n m = Inr r" "er_bindings r = Some bs"
    and "select n r None = Inr s" "binding_enabled n m c"
  shows "\<exists>b. sr_outcome s = Selected \<and> sr_binding s = Some b \<and> binding_enabled n m b \<and>
    order_key n b \<le> order_key n c"
proof -
  obtain e where "enable n m = Inr e" "result_of n m evaluator_v1 ordering_v1 e"
    by (rule enable_result [OF assms(1,2)])
  then have r: "result_of n m evaluator_v1 ordering_v1 r" using assms(3) by simp
  then have "enablement_verdict n m evaluator_v1 ordering_v1 = None"
    using assms(4) by (auto simp: result_of_def)
  then have v: "definition_valid n" "marking_valid n m" by (simp_all add: enablement_verdict_def split: if_splits)
  obtain cs where cs: "enumerate_bindings n m = Inr (Inr cs)" "bs = sort_key (order_key n) cs"
    using r assms(4) by (auto simp: result_of_def)
  note en = enumerate_bindings_Inr [OF assms(1) v cs(1)]
  obtain c' where c': "c' \<in> set bs" "binding_eq c c'" using en(2) assms(6) by (auto simp: cs(2))
  then have key: "order_key n c' = order_key n c"
    by (metis binding_eq_key binding_key_order_key)
  obtain b bs' where bs: "bs = b # bs'" using c'(1) by (cases bs) auto
  have srt: "sorted (map (order_key n) bs)" by (simp add: cs(2))
  have "order_key n b \<le> order_key n c'" using srt c'(1) by (auto simp: bs)
  moreover have "binding_enabled n m b" using en(1) bs cs(2) by (metis list.set_intros(1) set_sort)
  moreover have "sr_outcome s = Selected \<and> sr_binding s = Some b"
    using select_Inr [OF assms(5)] r assms(4)
    by (auto simp: selection_choice_def result_of_def bs)
  ultimately show ?thesis using key by auto
qed

lemma select_default_minimal_witness:
  "binding_enabled ex_net ex_marking (ex_binding 3) \<and> sr_outcome ex_selection = Selected \<and>
   (\<exists>b. sr_binding ex_selection = Some b \<and> order_key ex_net b \<le> order_key ex_net (ex_binding 3))"
  using select_default_minimal [OF ex_net_ok ex_marking_ok ex_enable ex_enablement_parts(3) ex_select ex_enabled]
    ex_enabled by auto

section \<open>Content identities\<close>

lemma enablement_failed_bindings:
  "enablement_failed n m ev ord code phase expected observed diagnostic issues = Inr r \<Longrightarrow> er_bindings r = None"
  by (auto simp: enablement_failed_def Let_def bindr_Inr_iff mk_enablement_def split: if_splits)

lemma enable_success_identity:
  assumes "enable_with n m ev ord = Inr r" "er_bindings r = Some bs"
  shows "er_identity r = EnablementId (digest_json (enablement_payload n m ev ord enabler_v1 (Some bs) None))"
proof -
  have ne: "enablement_failed n m ev ord code phase expected observed diagnostic issues \<noteq> Inr r"
    for code phase expected observed diagnostic issues
    using enablement_failed_bindings [of n m ev ord code phase expected observed diagnostic issues r] assms(2) by auto
  have "\<exists>i. enablement_identity n m ev ord enabler_v1 (Some bs) None = Inr i \<and> er_identity r = i"
  proof (cases "enumerate_bindings n m")
    case (Inl e)
    then show ?thesis using assms(1) ne by (auto simp: enable_with_def bindr_Inr_iff split: if_splits)
  next
    case (Inr outcome)
    then show ?thesis
      using assms ne
      by (cases outcome) (auto simp: enable_with_def bindr_Inr_iff mk_enablement_def split: if_splits prod.splits)
  qed
  then obtain i where "enablement_identity n m ev ord enabler_v1 (Some bs) None = Inr i" "er_identity r = i" by blast
  then show ?thesis by (simp add: enablement_identity_def mk_enablement_id_def)
qed

text \<open>C28: An enablement identity names its computation.  Two successful enablements with equal
  identities are of the same net, marking and semantic versions and list the same bindings, or
  their canonical texts are a SHA-256 collision.\<close>

theorem enablement_identity_determines:
  assumes "enable_with n m ev ord = Inr r" "er_bindings r = Some bs"
    and "enable_with n' m' ev' ord' = Inr r'" "er_bindings r' = Some bs'"
    and "er_identity r = er_identity r'"
  shows "n = n' \<and> m = m' \<and> ev = ev' \<and> ord = ord' \<and> bs = bs' \<or>
    sha256_collision (dumps (enablement_payload n m ev ord enabler_v1 (Some bs) None))
      (dumps (enablement_payload n' m' ev' ord' enabler_v1 (Some bs') None))"
  using digest_json_eqD enablement_payload_inj enable_success_identity [OF assms(1,2)]
    enable_success_identity [OF assms(3,4)] assms(5)
  by (metis enablement_id.inject option.inject)

lemma enablement_identity_determines_witness:
  "enable_with ex_net ex_marking evaluator_v1 ordering_v1 = Inr ex_enablement \<and>
   (ex_net = ex_net \<and> [ex_binding 3, ex_binding 7] = [ex_binding 3, ex_binding 7] \<or>
    sha256_collision (dumps (enablement_payload ex_net ex_marking evaluator_v1 ordering_v1 enabler_v1
        (Some [ex_binding 3, ex_binding 7]) None))
      (dumps (enablement_payload ex_net ex_marking evaluator_v1 ordering_v1 enabler_v1
        (Some [ex_binding 3, ex_binding 7]) None)))"
  using enablement_identity_determines [OF _ ex_enablement_parts(3) _ ex_enablement_parts(3) refl,
      of ex_net ex_marking evaluator_v1 ordering_v1] ex_enable
  by (simp add: enable_def)

lemma firing_failed_identity:
  "firing_failed f code phase expected observed issues = Inr r \<Longrightarrow> fr_failure r = Some x \<Longrightarrow>
   fr_identity r = FiringId (digest_json
     (failure_payload f (ff_code x) (ff_phase x) (ff_expected x) (ff_observed x) (ff_issues x)))"
  by (auto simp: firing_failed_def bindr_Inr_iff mk_firing_id_def mk_firing_failure_def mk_firing_def
      split: if_splits)

definition failed_by :: "firing_input \<Rightarrow> firing \<Rightarrow> bool" where
  "failed_by f r \<longleftrightarrow> (\<forall>x. fr_failure r = Some x \<longrightarrow> fr_identity r = FiringId (digest_json
     (failure_payload f (ff_code x) (ff_phase x) (ff_expected x) (ff_observed x) (ff_issues x))))"

lemma failed_byI: "firing_failed f code phase expected observed issues = Inr r \<Longrightarrow> failed_by f r"
  by (simp add: failed_by_def firing_failed_identity)

lemma succeeded_byI: "firing_succeeded f s a = Inr r \<Longrightarrow> failed_by f r"
  by (auto simp: failed_by_def firing_succeeded_eq)

lemma fire_successor_by: "fire_successor f consumed rd audited produced = Inr r \<Longrightarrow> failed_by f r"
  by (auto simp: fire_successor_def Let_def bindr_Inr_iff split: if_splits intro: failed_byI succeeded_byI)

lemma output_outcome_by:
  assumes "(case res of
       Inl AssertionError \<Rightarrow> Inl AssertionError
     | Inl e \<Rightarrow> firing_failed f FOutputFailed phase expected (exn_text e) []
     | Inr produced \<Rightarrow> fire_successor f consumed rd audited produced) = Inr r"
  shows "failed_by f r"
  using assms
  by (cases res) (auto simp del: exn_text.simps split: py_exn.splits intro: failed_byI fire_successor_by)

lemma fire_transition_by: "fire_transition f t = Inr r \<Longrightarrow> failed_by f r"
  by (auto simp: fire_transition_def Let_def bindr_Inr_iff simp del: exn_text.simps
      split: if_splits option.splits intro: failed_byI output_outcome_by)

lemma fire_by:
  assumes "fire f = Inr r"
  shows "failed_by f r"
proof -
  note by_cases = failed_byI fire_transition_by
  show ?thesis
    using assms by (auto simp: fire_def Let_def bindr_Inr_iff split: if_splits option.splits intro: by_cases)
qed

lemma failure_payload_input:
  "jsort (failure_payload f code phase expected observed issues) =
   jsort (failure_payload g code' phase' expected' observed' issues') \<Longrightarrow> f = g"
  using jsort_lookup [of _ _ "''firing_input''"]
  by (fastforce simp: failure_payload_def rep_firing_input.eq_iff)

text \<open>A firing failure identity names the whole firing input.  Two failed firings with equal
  identities had the same input, or the canonical texts behind the identities are a SHA-256
  collision.\<close>

lemma firing_failure_identity_determines:
  assumes "fire f = Inr r" "fr_failure r = Some x" "fire g = Inr s" "fr_failure s = Some y"
    and "fr_identity r = fr_identity s"
  shows "f = g \<or> sha256_collision
    (dumps (failure_payload f (ff_code x) (ff_phase x) (ff_expected x) (ff_observed x) (ff_issues x)))
    (dumps (failure_payload g (ff_code y) (ff_phase y) (ff_expected y) (ff_observed y) (ff_issues y)))"
proof -
  have "fr_identity r = FiringId (digest_json
      (failure_payload f (ff_code x) (ff_phase x) (ff_expected x) (ff_observed x) (ff_issues x)))"
    using fire_by [OF assms(1)] assms(2) by (simp add: failed_by_def)
  moreover have "fr_identity s = FiringId (digest_json
      (failure_payload g (ff_code y) (ff_phase y) (ff_expected y) (ff_observed y) (ff_issues y)))"
    using fire_by [OF assms(3)] assms(4) by (simp add: failed_by_def)
  ultimately show ?thesis
    using assms(5) digest_json_eqD failure_payload_input by (metis firing_id.inject)
qed


definition ex_unarced :: firing_input where
  "ex_unarced = ex_firing\<lparr>fi_net := ex_net\<lparr>n_arcs := []\<rparr>\<rparr>"

lemma ex_unarced_fails: "\<exists>r x. fire ex_unarced = Inr r \<and> fr_failure r = Some x"
proof -
  have "case validate_definition (ex_net\<lparr>n_arcs := []\<rparr>) of Inr (i # is) \<Rightarrow> True | _ \<Rightarrow> False" by code_simp
  then obtain i "is" where "validate_definition (ex_net\<lparr>n_arcs := []\<rparr>) = Inr (i # is)"
    by (auto split: sum.splits list.splits)
  then have "fire ex_unarced = firing_failed ex_unarced FInvalidDefinition ''definition_validation''
      ''a structurally valid definition'' ''definition validation returned findings'' (i # is)"
    by (simp add: fire_def Let_def ex_unarced_def is_valid_def)
  then show ?thesis
    using firing_failed_with [of "''definition_validation''" "''a structurally valid definition''"
        "''definition validation returned findings''"] by (fastforce simp: fails_with_def)
qed

lemma firing_failure_identity_determines_witness:
  "\<exists>r x. fire ex_unarced = Inr r \<and> fr_failure r = Some x \<and> (ex_unarced = ex_unarced \<or> sha256_collision
    (dumps (failure_payload ex_unarced (ff_code x) (ff_phase x) (ff_expected x) (ff_observed x) (ff_issues x)))
    (dumps (failure_payload ex_unarced (ff_code x) (ff_phase x) (ff_expected x) (ff_observed x) (ff_issues x))))"
  using ex_unarced_fails firing_failure_identity_determines [OF _ _ _ _ refl] by meson

section \<open>Canonical collections\<close>

text \<open>A net does not depend on the order in which its colors, places, transitions and arcs are
  supplied: any permutation of accepted collections builds the same definition, in identity
  order.\<close>

lemma net_order_independent:
  assumes "mk_net i cs ps ts as pri pol = Inr n"
    and "mset cs = mset cs'" "mset ps = mset ps'" "mset ts = mset ts'" "mset as = mset as'"
  shows "mk_net i cs' ps' ts' as' pri pol = Inr n \<and>
    canonical (color_value \<circ> cd_identity) (n_colors n) \<and> canonical (place_value \<circ> pd_identity) (n_places n) \<and>
    canonical (transition_value \<circ> td_identity) (n_transitions n) \<and> canonical (arc_value \<circ> ad_identity) (n_arcs n)"
  using mk_net_perm [OF assms] assms(1)
  by (auto simp: mk_net_def bindr_Inr_iff comp.build_canonical split: if_splits)

lemma net_order_independent_witness:
  "mk_net (DefinitionId ''net'') (rev (n_colors ex_net)) (rev (n_places ex_net)) [ex_transition] (rev ex_arcs)
     [ex_step] DirectedAllowed = Inr ex_net"
proof -
  have "mk_net (DefinitionId ''net'') (n_colors ex_net) (n_places ex_net) [ex_transition] ex_arcs
     [ex_step] DirectedAllowed = Inr ex_net"
    by code_simp
  from net_order_independent [OF this, of "rev (n_colors ex_net)" "rev (n_places ex_net)" "[ex_transition]" "rev ex_arcs"]
  show ?thesis by simp
qed

text \<open>C29: The token order of a place marking is canonical only up to Python equality.  Tokens that
  carry no negative zero are stored in an order independent of the caller's, but two tokens
  whose reals are the zeros of different sign compare equal as sort keys, so a stable sort
  keeps the caller's order and permuted inputs build different place markings.\<close>

theorem place_marking_order:
  "(\<forall>p ts us. list_all plain_token ts \<and> mset ts = mset us \<longrightarrow> mk_place_marking p ts = mk_place_marking p us) \<and>
   (\<exists>p ts us. mset ts = mset us \<and> list_all token_ok ts \<and> is_ok (mk_place_marking p ts) \<and>
      mk_place_marking p ts \<noteq> mk_place_marking p us)"
proof (intro conjI allI impI)
  fix p ts us
  assume "list_all plain_token ts \<and> mset ts = mset us"
  then have plain: "\<forall>t \<in> set ts. plain_token t" and eq: "mset ts = mset us" by (simp_all add: list_all_iff)
  have "sort_key token_order_key ts = sort_key token_order_key us"
    using plain token_order_key_inj by (intro sort_key_perm [OF _ eq]) (auto simp: inj_on_def)
  then show "mk_place_marking p ts = mk_place_marking p us"
    using distinct_token_identities_perm [OF eq] by (simp add: mk_place_marking_def)
next
  let ?z = "\<lambda>s. \<lparr>tok_color = ex_color, tok_value = VReal (F64 s 0 0), tok_identity = None\<rparr>"
  have "mset [?z True, ?z False] = mset [?z False, ?z True]" by simp
  moreover have "list_all token_ok [?z True, ?z False]" by code_simp
  moreover have "is_ok (mk_place_marking ex_in [?z True, ?z False])" by code_simp
  moreover have "mk_place_marking ex_in [?z True, ?z False] \<noteq> mk_place_marking ex_in [?z False, ?z True]" by code_simp
  ultimately show "\<exists>p ts us. mset ts = mset us \<and> list_all token_ok ts \<and> is_ok (mk_place_marking p ts) \<and>
      mk_place_marking p ts \<noteq> mk_place_marking p us" by blast
qed

lemma place_marking_order_witness:
  "mk_place_marking ex_in [ex_token 7, ex_token 3] = mk_place_marking ex_in [ex_token 3, ex_token 7]"
proof -
  have "list_all plain_token [ex_token 7, ex_token 3]" by code_simp
  moreover have "mset [ex_token 7, ex_token 3] = mset [ex_token 3, ex_token 7]" by simp
  ultimately show ?thesis using place_marking_order by blast
qed

section \<open>Tagged values\<close>

text \<open>C30: The coercion of an integer to the real kind rounds correctly.  It raises on overflow exactly
  from the midpoint above the largest binary64, has a relative error of at most two to the minus
  53, and is exact up to two to the 53.\<close>

theorem real_coercion:
  "case mk_value KReal (PyInt i) of
     Inl e \<Rightarrow> e = ValueError ''real value overflows binary64'' \<and> 2 ^ 1024 - 2 ^ 970 \<le> nat \<bar>i\<bar>
   | Inr v \<Rightarrow> \<exists>x. v = VReal x \<and> f64_finite x \<and> nat \<bar>i\<bar> < 2 ^ 1024 - 2 ^ 970 \<and>
       2 ^ 53 * \<bar>f64_scaled x - i * int f64_unit\<bar> \<le> \<bar>i\<bar> * int f64_unit \<and>
       (\<bar>i\<bar> \<le> 2 ^ 53 \<longrightarrow> f64_scaled x = i * int f64_unit)"
proof (cases "float_of_int i")
  case None
  then have v: "mk_value KReal (PyInt i) = Inl (ValueError ''real value overflows binary64'')"
    by (simp add: mk_value_def)
  show ?thesis unfolding v sum.case using None float_of_int_overflow [of i] by blast
next
  case (Some x)
  then have v: "mk_value KReal (PyInt i) = Inr (VReal x)"
    using float_of_int_Some [OF Some] by (simp add: mk_value_def mk_real_def)
  have "f64_scaled x = i * int f64_unit" if "\<bar>i\<bar> \<le> 2 ^ 53"
    by (rule float_of_int_exact [OF that]) (use Some in simp)
  moreover have "nat \<bar>i\<bar> < 2 ^ 1024 - 2 ^ 970"
    using float_of_int_overflow [of i] Some by (metis linorder_not_less option.distinct(1))
  ultimately show ?thesis
    unfolding v sum.case using float_of_int_Some [OF Some] float_of_int_error [OF Some] by blast
qed

lemma real_coercion_witness:
  "case mk_value KReal (PyInt (2 ^ 53 + 1)) of Inl e \<Rightarrow> False | Inr v \<Rightarrow> True"
  using real_coercion [of "2 ^ 53 + 1"]
  by (auto split: sum.splits)

end
