(* ===== verification/Core_Identities.thy ===== *)
theory Core_Identities
  imports Cpn_Represent
begin

text \<open>
  \<open>core/identities.py\<close>: the nominal identities of the workflow core and the derivation of content
  identities.  A Python string is the list of its UTF-8 bytes, so \<open>len\<close> counts the bytes that do
  not continue a character.
\<close>

section \<open>Nominal identities\<close>

definition py_len :: "string \<Rightarrow> nat" where
  "py_len s = length (filter (\<lambda>c. of_char c div 64 \<noteq> (2 :: nat)) s)"

definition max_identity_characters :: nat where
  "max_identity_characters = 4096"

text \<open>\<open>_validate_identity\<close>, and the constructor of the class \<open>C\<close> that calls it.\<close>

definition core_identity :: "(string \<Rightarrow> 'a) \<Rightarrow> py_object \<Rightarrow> 'a result" where
  "core_identity C v =
     (case v of
        PyStr s \<Rightarrow>
          if s = [] \<or> max_identity_characters < py_len s
          then Inl (ValueError ''identity value must be nonempty and bounded'') else Inr (C s)
      | _ \<Rightarrow> Inl (TypeError ''identity value must be a string''))"

datatype workflow_id = WorkflowId (workflow_value: string)
datatype run_id = RunId (run_value: string)
datatype state_id = StateId (state_value: string)
datatype request_id = RequestId (request_value: string)
datatype outcome_id = OutcomeId (outcome_value: string)
datatype artifact_id = ArtifactId (artifact_value: string)
datatype decision_id = DecisionId (decision_value: string)
datatype authority_id = AuthorityId (authority_value: string)
datatype evidence_id = EvidenceId (evidence_value: string)
datatype failure_id = FailureId (failure_value: string)
datatype validation_id = ValidationId (validation_value: string)
datatype finding_id = FindingId (finding_value: string)
datatype audit_id = AuditId (audit_value: string)
datatype replay_id = ReplayId (replay_value: string)
datatype operation_id = OperationId (operation_value: string)
datatype subject_id = SubjectId (subject_value: string)
datatype actor_id = ActorId (actor_value: string)
datatype adapter_id = AdapterId (adapter_value: string)
datatype idempotency_id = IdempotencyId (idempotency_value: string)
datatype external_id = ExternalId (external_value: string)

definition mk_workflow_id :: "py_object \<Rightarrow> workflow_id result" where
  "mk_workflow_id = core_identity WorkflowId"

definition mk_run_id :: "py_object \<Rightarrow> run_id result" where
  "mk_run_id = core_identity RunId"

definition mk_state_id :: "py_object \<Rightarrow> state_id result" where
  "mk_state_id = core_identity StateId"

definition mk_request_id :: "py_object \<Rightarrow> request_id result" where
  "mk_request_id = core_identity RequestId"

definition mk_outcome_id :: "py_object \<Rightarrow> outcome_id result" where
  "mk_outcome_id = core_identity OutcomeId"

definition mk_artifact_id :: "py_object \<Rightarrow> artifact_id result" where
  "mk_artifact_id = core_identity ArtifactId"

definition mk_decision_id :: "py_object \<Rightarrow> decision_id result" where
  "mk_decision_id = core_identity DecisionId"

definition mk_authority_id :: "py_object \<Rightarrow> authority_id result" where
  "mk_authority_id = core_identity AuthorityId"

definition mk_evidence_id :: "py_object \<Rightarrow> evidence_id result" where
  "mk_evidence_id = core_identity EvidenceId"

definition mk_failure_id :: "py_object \<Rightarrow> failure_id result" where
  "mk_failure_id = core_identity FailureId"

definition mk_validation_id :: "py_object \<Rightarrow> validation_id result" where
  "mk_validation_id = core_identity ValidationId"

definition mk_finding_id :: "py_object \<Rightarrow> finding_id result" where
  "mk_finding_id = core_identity FindingId"

definition mk_audit_id :: "py_object \<Rightarrow> audit_id result" where
  "mk_audit_id = core_identity AuditId"

definition mk_replay_id :: "py_object \<Rightarrow> replay_id result" where
  "mk_replay_id = core_identity ReplayId"

definition mk_operation_id :: "py_object \<Rightarrow> operation_id result" where
  "mk_operation_id = core_identity OperationId"

definition mk_subject_id :: "py_object \<Rightarrow> subject_id result" where
  "mk_subject_id = core_identity SubjectId"

definition mk_actor_id :: "py_object \<Rightarrow> actor_id result" where
  "mk_actor_id = core_identity ActorId"

definition mk_adapter_id :: "py_object \<Rightarrow> adapter_id result" where
  "mk_adapter_id = core_identity AdapterId"

definition mk_idempotency_id :: "py_object \<Rightarrow> idempotency_id result" where
  "mk_idempotency_id = core_identity IdempotencyId"

definition mk_external_id :: "py_object \<Rightarrow> external_id result" where
  "mk_external_id = core_identity ExternalId"

section \<open>Identity parts\<close>

text \<open>
  \<open>_normalize\<close> of an identity names its class and its value; enumerations become their value,
  tuples become arrays, strings, integers, Booleans and \<open>None\<close> are kept.
\<close>

definition id_part :: "string \<Rightarrow> string \<Rightarrow> json" where
  "id_part c s = JObj [(''identity'', JStr c), (''value'', JStr s)]"

lemma jsort_id_part [simp]: "jsort (id_part c s) = id_part c s"
proof -
  have "(''identity'' :: string) \<le> ''value''" by code_simp
  then show ?thesis by (simp add: id_part_def del: Cons_le_Cons)
qed

lemma id_part_eq [simp]: "id_part c s = id_part d t \<longleftrightarrow> c = d \<and> s = t"
  by (simp add: id_part_def)

lemma id_part_not_null [simp]: "id_part c s \<noteq> JNull"
  by (simp add: id_part_def)

definition part_workflow :: "workflow_id \<Rightarrow> json" where
  "part_workflow i = id_part ''WorkflowDefinitionIdentity'' (workflow_value i)"

definition part_run :: "run_id \<Rightarrow> json" where
  "part_run i = id_part ''WorkflowRunIdentity'' (run_value i)"

definition part_state :: "state_id \<Rightarrow> json" where
  "part_state i = id_part ''WorkflowStateIdentity'' (state_value i)"

definition part_request :: "request_id \<Rightarrow> json" where
  "part_request i = id_part ''WorkflowTransitionRequestIdentity'' (request_value i)"

definition part_outcome :: "outcome_id \<Rightarrow> json" where
  "part_outcome i = id_part ''WorkflowTransitionOutcomeIdentity'' (outcome_value i)"

definition part_artifact :: "artifact_id \<Rightarrow> json" where
  "part_artifact i = id_part ''WorkflowArtifactReferenceIdentity'' (artifact_value i)"

definition part_decision :: "decision_id \<Rightarrow> json" where
  "part_decision i = id_part ''WorkflowDecisionReferenceIdentity'' (decision_value i)"

definition part_authority :: "authority_id \<Rightarrow> json" where
  "part_authority i = id_part ''WorkflowAuthorityReferenceIdentity'' (authority_value i)"

definition part_evidence :: "evidence_id \<Rightarrow> json" where
  "part_evidence i = id_part ''WorkflowAdapterEvidenceIdentity'' (evidence_value i)"

definition part_failure :: "failure_id \<Rightarrow> json" where
  "part_failure i = id_part ''WorkflowInfrastructureFailureIdentity'' (failure_value i)"

definition part_validation :: "validation_id \<Rightarrow> json" where
  "part_validation i = id_part ''WorkflowValidationIdentity'' (validation_value i)"

definition part_finding :: "finding_id \<Rightarrow> json" where
  "part_finding i = id_part ''WorkflowValidationFindingIdentity'' (finding_value i)"

definition part_audit :: "audit_id \<Rightarrow> json" where
  "part_audit i = id_part ''WorkflowAuditEventIdentity'' (audit_value i)"

definition part_replay :: "replay_id \<Rightarrow> json" where
  "part_replay i = id_part ''WorkflowReplayIdentity'' (replay_value i)"

definition part_operation :: "operation_id \<Rightarrow> json" where
  "part_operation i = id_part ''WorkflowOperationIdentity'' (operation_value i)"

definition part_subject :: "subject_id \<Rightarrow> json" where
  "part_subject i = id_part ''WorkflowSubjectIdentity'' (subject_value i)"

definition part_actor :: "actor_id \<Rightarrow> json" where
  "part_actor i = id_part ''WorkflowActorIdentity'' (actor_value i)"

definition part_adapter :: "adapter_id \<Rightarrow> json" where
  "part_adapter i = id_part ''WorkflowAdapterIdentity'' (adapter_value i)"

definition part_idempotency :: "idempotency_id \<Rightarrow> json" where
  "part_idempotency i = id_part ''WorkflowIdempotencyIdentity'' (idempotency_value i)"

definition part_external :: "external_id \<Rightarrow> json" where
  "part_external i = id_part ''WorkflowExternalReferenceIdentity'' (external_value i)"

lemmas part_defs =
  part_workflow_def part_run_def part_state_def part_request_def part_outcome_def
  part_artifact_def part_decision_def part_authority_def part_evidence_def part_failure_def
  part_validation_def part_finding_def part_audit_def part_replay_def part_operation_def
  part_subject_def part_actor_def part_adapter_def part_idempotency_def part_external_def

interpretation part_workflow: faithful part_workflow
  by unfold_locales (simp_all add: part_workflow_def workflow_id.expand)

interpretation part_run: faithful part_run
  by unfold_locales (simp_all add: part_run_def run_id.expand)

interpretation part_state: faithful part_state
  by unfold_locales (simp_all add: part_state_def state_id.expand)

interpretation part_request: faithful part_request
  by unfold_locales (simp_all add: part_request_def request_id.expand)

interpretation part_outcome: faithful part_outcome
  by unfold_locales (simp_all add: part_outcome_def outcome_id.expand)

interpretation part_artifact: faithful part_artifact
  by unfold_locales (simp_all add: part_artifact_def artifact_id.expand)

interpretation part_decision: faithful part_decision
  by unfold_locales (simp_all add: part_decision_def decision_id.expand)

interpretation part_authority: faithful part_authority
  by unfold_locales (simp_all add: part_authority_def authority_id.expand)

interpretation part_evidence: faithful part_evidence
  by unfold_locales (simp_all add: part_evidence_def evidence_id.expand)

interpretation part_failure: faithful part_failure
  by unfold_locales (simp_all add: part_failure_def failure_id.expand)

interpretation part_validation: faithful part_validation
  by unfold_locales (simp_all add: part_validation_def validation_id.expand)

interpretation part_finding: faithful part_finding
  by unfold_locales (simp_all add: part_finding_def finding_id.expand)

interpretation part_audit: faithful part_audit
  by unfold_locales (simp_all add: part_audit_def audit_id.expand)

interpretation part_replay: faithful part_replay
  by unfold_locales (simp_all add: part_replay_def replay_id.expand)

interpretation part_operation: faithful part_operation
  by unfold_locales (simp_all add: part_operation_def operation_id.expand)

interpretation part_subject: faithful part_subject
  by unfold_locales (simp_all add: part_subject_def subject_id.expand)

interpretation part_actor: faithful part_actor
  by unfold_locales (simp_all add: part_actor_def actor_id.expand)

interpretation part_adapter: faithful part_adapter
  by unfold_locales (simp_all add: part_adapter_def adapter_id.expand)

interpretation part_idempotency: faithful part_idempotency
  by unfold_locales (simp_all add: part_idempotency_def idempotency_id.expand)

interpretation part_external: faithful part_external
  by unfold_locales (simp_all add: part_external_def external_id.expand)

text \<open>The parts of a built-in string, of an integer and of a Boolean.\<close>

interpretation part_str: faithful JStr
  by unfold_locales simp_all

interpretation part_int: faithful JInt
  by unfold_locales simp_all

section \<open>Content identities\<close>

definition stable_text :: "string \<Rightarrow> json list \<Rightarrow> string" where
  "stable_text d ps = dumps (JObj [(''domain'', JStr d), (''parts'', JList ps)])"

definition stable_digest :: "string \<Rightarrow> json list \<Rightarrow> string" where
  "stable_digest d ps = sha256_hex (stable_text d ps)"

definition stable_identity :: "string \<Rightarrow> json list \<Rightarrow> string result" where
  "stable_identity d ps =
     (if d = [] then Inl (ValueError ''identity domain must not be empty'') else Inr (stable_digest d ps))"

lemma stable_digest_spelling [simp]: "digest_spelling (stable_digest d ps)"
  by (simp add: stable_digest_def)

text \<open>Equal content identities come from equal domains and parts, or exhibit a collision.\<close>

lemma stable_text_eqD:
  assumes "stable_text d ps = stable_text e qs"
  shows "d = e \<and> map jsort ps = map jsort qs"
proof -
  have le: "(''domain'' :: string) \<le> ''parts''" by code_simp
  have "jsort (JObj [(''domain'', JStr d), (''parts'', JList ps)]) =
      JObj [(''domain'', JStr d), (''parts'', JList (map jsort ps))]" for d ps
    using le by (simp del: Cons_le_Cons)
  then show ?thesis
    using dumps_eqD [OF assms [unfolded stable_text_def]] by simp
qed

lemma stable_digest_eqD:
  "stable_digest d ps = stable_digest e qs \<Longrightarrow>
   d = e \<and> map jsort ps = map jsort qs \<or> sha256_collision (stable_text d ps) (stable_text e qs)"
  using stable_text_eqD [of d ps e qs]
  by (cases "stable_text d ps = stable_text e qs") (simp_all add: stable_digest_def sha256_collision_def)

text \<open>A digest is an acceptable value of every identity class.\<close>

lemma digest_chars: "digest_spelling s \<Longrightarrow> s \<noteq> [] \<and> length s = 64"
  by (auto simp: digest_spelling_def)

lemma py_len_le: "py_len s \<le> length s"
  by (simp add: py_len_def)

lemma core_identity_digest [simp]: "core_identity C (PyStr (stable_digest d ps)) = Inr (C (stable_digest d ps))"
  using digest_chars [OF stable_digest_spelling [of d ps]] py_len_le [of "stable_digest d ps"]
  by (auto simp: core_identity_def max_identity_characters_def)

end
