(* ===== verification/Core_Records.thy ===== *)
theory Core_Records
  imports Core_Identities
begin

text \<open>
  \<open>core/models.py\<close>, first part: bounded strings and collections, references, definitions, state
  snapshots, runs and the run starter.  For a class \<open>C\<close> the function \<open>mk_c\<close> is its
  \<open>__post_init__\<close> on a complete record and \<open>create_c\<close> its \<open>create\<close> class method.
\<close>

section \<open>Limits and primitive checks\<close>

definition core_version :: string where "core_version = ''0.1.0''"
definition max_string_characters :: nat where "max_string_characters = 4096"
definition max_message_characters :: nat where "max_message_characters = 65536"
definition max_operations :: nat where "max_operations = 256"
definition max_state_references :: nat where "max_state_references = 4096"
definition max_input_references :: nat where "max_input_references = 4096"
definition max_artifact_references :: nat where "max_artifact_references = 4096"
definition max_decision_references :: nat where "max_decision_references = 1024"
definition max_reasons :: nat where "max_reasons = 256"
definition max_findings :: nat where "max_findings = 1024"

definition bounded :: "nat \<Rightarrow> string \<Rightarrow> bool" where
  "bounded maximum s \<longleftrightarrow> s \<noteq> [] \<and> py_len s \<le> maximum"

definition bounded_string :: "string \<Rightarrow> string \<Rightarrow> 'a result \<Rightarrow> 'a result" where
  "bounded_string name s k = require (bounded max_string_characters s) (name @ '' must be nonempty and bounded'') k"

definition sha_spelling :: "string \<Rightarrow> bool" where
  "sha_spelling s \<longleftrightarrow> py_len s = 64 \<and> list_all (\<lambda>c. c \<in> set ''0123456789abcdef'') s"

definition check_sha256 :: "string \<Rightarrow> string \<Rightarrow> 'a result \<Rightarrow> 'a result" where
  "check_sha256 name s k = require (sha_spelling s) (name @ '' must be a lowercase SHA-256 digest'') k"

definition contract_version :: "string \<Rightarrow> 'a result \<Rightarrow> 'a result" where
  "contract_version v k = require (v = core_version) ''unsupported workflow-core contract version'' k"

definition string_tuple_ok :: "bool \<Rightarrow> string list \<Rightarrow> bool" where
  "string_tuple_ok allow_empty xs \<longleftrightarrow> (allow_empty \<or> xs \<noteq> []) \<and> length xs \<le> max_state_references \<and>
     list_all (bounded max_message_characters) xs"

definition string_tuple :: "string \<Rightarrow> string list \<Rightarrow> bool \<Rightarrow> 'a result \<Rightarrow> 'a result" where
  "string_tuple name xs allow_empty k =
     require (allow_empty \<or> xs \<noteq> []) (name @ '' must not be empty'')
    (require (length xs \<le> max_state_references) (name @ '' contains too many items'')
    (require (list_all (bounded max_message_characters) xs) (name @ '' must contain bounded nonempty strings'') k))"

definition reasons_ok :: "string list \<Rightarrow> bool" where
  "reasons_ok rs \<longleftrightarrow> string_tuple_ok True rs \<and> length rs \<le> max_reasons"

definition validate_reasons :: "string list \<Rightarrow> 'a result \<Rightarrow> 'a result" where
  "validate_reasons rs k =
     string_tuple ''reasons'' rs True (require (length rs \<le> max_reasons) ''too many reasons'' k)"

lemma bounded_string_Inr: "bounded_string name s k = Inr x \<longleftrightarrow> bounded max_string_characters s \<and> k = Inr x"
  by (simp add: bounded_string_def require_Inr_iff)

lemma check_sha256_Inr: "check_sha256 name s k = Inr x \<longleftrightarrow> sha_spelling s \<and> k = Inr x"
  by (simp add: check_sha256_def require_Inr_iff)

lemma contract_version_Inr: "contract_version v k = Inr x \<longleftrightarrow> v = core_version \<and> k = Inr x"
  by (simp add: contract_version_def require_Inr_iff)

lemma string_tuple_Inr: "string_tuple name xs e k = Inr x \<longleftrightarrow> string_tuple_ok e xs \<and> k = Inr x"
  by (auto simp: string_tuple_def string_tuple_ok_def require_Inr_iff)

lemma validate_reasons_Inr: "validate_reasons rs k = Inr x \<longleftrightarrow> reasons_ok rs \<and> k = Inr x"
  by (auto simp: validate_reasons_def reasons_ok_def string_tuple_Inr require_Inr_iff)

lemmas checks_Inr = require_Inr_iff bounded_string_Inr check_sha256_Inr contract_version_Inr
  string_tuple_Inr validate_reasons_Inr bindr_Inr_iff

section \<open>Enumerations\<close>

datatype run_status = RunActive | RunBlocked | RunCompleted | RunFailed | RunCancelled

fun run_status_text :: "run_status \<Rightarrow> string" where
  "run_status_text RunActive = ''active''"
| "run_status_text RunBlocked = ''blocked''"
| "run_status_text RunCompleted = ''completed''"
| "run_status_text RunFailed = ''failed''"
| "run_status_text RunCancelled = ''cancelled''"

definition is_terminal :: "run_status \<Rightarrow> bool" where
  "is_terminal s \<longleftrightarrow> s \<in> {RunCompleted, RunFailed, RunCancelled}"

datatype artifact_disposition = ArtifactObserved | ArtifactGeneratedUnreviewed

fun artifact_disposition_text :: "artifact_disposition \<Rightarrow> string" where
  "artifact_disposition_text ArtifactObserved = ''observed''"
| "artifact_disposition_text ArtifactGeneratedUnreviewed = ''generated_unreviewed''"

definition part_status :: "run_status \<Rightarrow> json" where
  "part_status s = JStr (run_status_text s)"

definition part_artifact_disposition :: "artifact_disposition \<Rightarrow> json" where
  "part_artifact_disposition d = JStr (artifact_disposition_text d)"

interpretation part_status: faithful part_status
proof unfold_locales
  show "jsort (part_status x) = jsort (part_status y) \<Longrightarrow> x = y" for x y
    by (cases x; cases y) (simp_all add: part_status_def)
qed (simp add: part_status_def)

interpretation part_artifact_disposition: faithful part_artifact_disposition
proof unfold_locales
  show "jsort (part_artifact_disposition x) = jsort (part_artifact_disposition y) \<Longrightarrow> x = y" for x y
    by (cases x; cases y) (simp_all add: part_artifact_disposition_def)
qed (simp add: part_artifact_disposition_def)

section \<open>References\<close>

record typed_reference =
  tr_kind :: string
  tr_identity :: external_id
  tr_digest :: "string option"

definition typed_reference_ok :: "typed_reference \<Rightarrow> bool" where
  "typed_reference_ok r \<longleftrightarrow> bounded max_string_characters (tr_kind r) \<and>
     (\<forall>d \<in> set_option (tr_digest r). sha_spelling d)"

definition mk_typed_reference :: "typed_reference \<Rightarrow> typed_reference result" where
  "mk_typed_reference r =
     bounded_string ''reference kind'' (tr_kind r)
    (case tr_digest r of None \<Rightarrow> Inr r | Some d \<Rightarrow> check_sha256 ''reference digest'' d (Inr r))"

lemma mk_typed_reference_Inr: "mk_typed_reference r = Inr s \<longleftrightarrow> typed_reference_ok r \<and> s = r"
  by (auto simp: mk_typed_reference_def typed_reference_ok_def checks_Inr split: option.splits)

definition part_typed_reference :: "typed_reference \<Rightarrow> json" where
  "part_typed_reference r = JList [JStr (tr_kind r), part_external (tr_identity r), rep_optional JStr (tr_digest r)]"

interpretation part_typed_reference: faithful part_typed_reference
  by unfold_locales
    (simp_all add: part_typed_reference_def part_external.eq_iff part_str.optional_eq_iff)

record artifact =
  ar_identity :: artifact_id
  ar_artifact :: external_id
  ar_kind :: string
  ar_digest :: string
  ar_role :: string
  ar_disposition :: artifact_disposition
  ar_provenance :: external_id
  ar_version :: string

definition artifact_reference_identity :: "external_id \<Rightarrow> string \<Rightarrow> string \<Rightarrow> string \<Rightarrow>
    artifact_disposition \<Rightarrow> external_id \<Rightarrow> artifact_id" where
  "artifact_reference_identity a kind digest role disp prov =
     ArtifactId (stable_digest ''workflow-artifact-reference''
       [part_external a, JStr kind, JStr digest, JStr role, part_artifact_disposition disp,
        part_external prov, JStr core_version])"

definition mk_artifact :: "artifact \<Rightarrow> artifact result" where
  "mk_artifact a =
     contract_version (ar_version a)
    (bounded_string ''artifact kind'' (ar_kind a)
    (check_sha256 ''artifact digest'' (ar_digest a)
    (bounded_string ''artifact role'' (ar_role a)
    (require (ar_identity a = artifact_reference_identity (ar_artifact a) (ar_kind a) (ar_digest a)
        (ar_role a) (ar_disposition a) (ar_provenance a))
      ''artifact reference identity is inconsistent'' (Inr a)))))"

definition create_artifact :: "external_id \<Rightarrow> string \<Rightarrow> string \<Rightarrow> string \<Rightarrow> artifact_disposition \<Rightarrow>
    external_id \<Rightarrow> artifact result" where
  "create_artifact a kind digest role disp prov =
     mk_artifact \<lparr>ar_identity = artifact_reference_identity a kind digest role disp prov,
       ar_artifact = a, ar_kind = kind, ar_digest = digest, ar_role = role, ar_disposition = disp,
       ar_provenance = prov, ar_version = core_version\<rparr>"

definition artifact_ok :: "artifact \<Rightarrow> bool" where
  "artifact_ok a \<longleftrightarrow> ar_version a = core_version \<and> bounded max_string_characters (ar_kind a) \<and>
     sha_spelling (ar_digest a) \<and> bounded max_string_characters (ar_role a) \<and>
     ar_identity a = artifact_reference_identity (ar_artifact a) (ar_kind a) (ar_digest a)
       (ar_role a) (ar_disposition a) (ar_provenance a)"

lemma mk_artifact_Inr: "mk_artifact a = Inr b \<longleftrightarrow> artifact_ok a \<and> b = a"
  by (auto simp: mk_artifact_def artifact_ok_def checks_Inr)

definition part_artifact_record :: "artifact \<Rightarrow> json" where
  "part_artifact_record a = JList
     [part_artifact (ar_identity a), part_external (ar_artifact a), JStr (ar_kind a), JStr (ar_digest a),
      JStr (ar_role a), part_artifact_disposition (ar_disposition a), part_external (ar_provenance a)]"

record decision =
  dr_identity :: decision_id
  dr_kind :: string
  dr_scope :: string
  dr_subject :: subject_id
  dr_authority :: external_id
  dr_outcome :: string
  dr_evidence :: external_id
  dr_decision_version :: string
  dr_version :: string

definition decision_reference_identity :: "string \<Rightarrow> string \<Rightarrow> subject_id \<Rightarrow> external_id \<Rightarrow> string \<Rightarrow>
    external_id \<Rightarrow> string \<Rightarrow> decision_id" where
  "decision_reference_identity kind scope subject auth outcome ev version =
     DecisionId (stable_digest ''workflow-decision-reference''
       [JStr kind, JStr scope, part_subject subject, part_external auth, JStr outcome, part_external ev,
        JStr version, JStr core_version])"

definition mk_decision :: "decision \<Rightarrow> decision result" where
  "mk_decision d =
     contract_version (dr_version d)
    (bounded_string ''decision kind'' (dr_kind d)
    (bounded_string ''scope'' (dr_scope d)
    (bounded_string ''outcome'' (dr_outcome d)
    (bounded_string ''decision version'' (dr_decision_version d)
    (require (dr_identity d = decision_reference_identity (dr_kind d) (dr_scope d) (dr_subject d)
        (dr_authority d) (dr_outcome d) (dr_evidence d) (dr_decision_version d))
      ''decision reference identity is inconsistent'' (Inr d))))))"

definition create_decision :: "string \<Rightarrow> string \<Rightarrow> subject_id \<Rightarrow> external_id \<Rightarrow> string \<Rightarrow>
    external_id \<Rightarrow> string \<Rightarrow> decision result" where
  "create_decision kind scope subject auth outcome ev version =
     mk_decision \<lparr>dr_identity = decision_reference_identity kind scope subject auth outcome ev version,
       dr_kind = kind, dr_scope = scope, dr_subject = subject, dr_authority = auth, dr_outcome = outcome,
       dr_evidence = ev, dr_decision_version = version, dr_version = core_version\<rparr>"

definition decision_ok :: "decision \<Rightarrow> bool" where
  "decision_ok d \<longleftrightarrow> dr_version d = core_version \<and> bounded max_string_characters (dr_kind d) \<and>
     bounded max_string_characters (dr_scope d) \<and> bounded max_string_characters (dr_outcome d) \<and>
     bounded max_string_characters (dr_decision_version d) \<and>
     dr_identity d = decision_reference_identity (dr_kind d) (dr_scope d) (dr_subject d)
       (dr_authority d) (dr_outcome d) (dr_evidence d) (dr_decision_version d)"

lemma mk_decision_Inr: "mk_decision d = Inr e \<longleftrightarrow> decision_ok d \<and> e = d"
  by (auto simp: mk_decision_def decision_ok_def checks_Inr)

definition part_decision_record :: "decision \<Rightarrow> json" where
  "part_decision_record d = JList
     [part_decision (dr_identity d), JStr (dr_kind d), JStr (dr_scope d), part_subject (dr_subject d),
      part_external (dr_authority d), JStr (dr_outcome d), part_external (dr_evidence d),
      JStr (dr_decision_version d)]"

section \<open>Canonical collections\<close>

definition canonical_operations :: "string \<Rightarrow> operation_id list \<Rightarrow> nat \<Rightarrow> operation_id list result" where
  "canonical_operations name xs maximum =
     require (xs \<noteq> [] \<and> length xs \<le> maximum) (name @ '' must be nonempty and bounded'')
    (require (distinct (map operation_value xs)) (name @ '' must be unique'')
    (Inr (sort_key operation_value xs)))"

definition reference_key :: "typed_reference \<Rightarrow> string \<times> string" where
  "reference_key r = (tr_kind r, external_value (tr_identity r))"

definition canonical_references :: "typed_reference list \<Rightarrow> typed_reference list result" where
  "canonical_references xs =
     require (length xs \<le> max_state_references) ''too many state references''
    (require (distinct (map reference_key xs)) ''state references must be unique by kind and identity''
    (Inr (sort_key (\<lambda>r. (tr_kind r, external_value (tr_identity r),
        case tr_digest r of None \<Rightarrow> [] | Some d \<Rightarrow> d)) xs)))"

definition canonical_artifacts :: "artifact list \<Rightarrow> artifact list result" where
  "canonical_artifacts xs =
     require (length xs \<le> max_artifact_references) ''too many artifact references''
    (require (distinct (map ar_identity xs)) ''artifact references must be unique''
    (Inr (sort_key (artifact_value \<circ> ar_identity) xs)))"

definition canonical_decisions :: "decision list \<Rightarrow> decision list result" where
  "canonical_decisions xs =
     require (length xs \<le> max_decision_references) ''too many decision references''
    (require (distinct (map dr_identity xs)) ''decision references must be unique''
    (Inr (sort_key (decision_value \<circ> dr_identity) xs)))"

text \<open>All four obey the law of canonical collections.\<close>

lemma distinct_values:
  "distinct (map (artifact_value \<circ> ar_identity) as) \<longleftrightarrow> distinct (map ar_identity as)"
  "distinct (map (decision_value \<circ> dr_identity) ds) \<longleftrightarrow> distinct (map dr_identity ds)"
  by (simp_all add: distinct_map inj_on_def artifact_id.expand decision_id.expand)
    (auto simp: artifact_id.expand decision_id.expand)

lemma reference_order:
  fixes third :: "typed_reference \<Rightarrow> string"
  assumes "distinct (map reference_key xs)"
  shows "sort_key (\<lambda>r. (tr_kind r, external_value (tr_identity r), third r)) xs = sort_key reference_key xs"
proof -
  let ?f = "\<lambda>r. (tr_kind r, external_value (tr_identity r), third r)"
  have "distinct (map reference_key (sort_key reference_key xs))"
    using canonical_sort_key [OF assms] by (simp add: canonical_def)
  then have "sorted_wrt (<) (map reference_key (sort_key reference_key xs))"
    by (simp add: strict_sorted_iff)
  then have "sorted_wrt (\<lambda>r s. reference_key r < reference_key s) (sort_key reference_key xs)"
    by (simp add: sorted_wrt_map)
  then have "sorted_wrt (\<lambda>r s. ?f r \<le> ?f s) (sort_key reference_key xs)"
    by (rule sorted_wrt_mono_rel [rotated]) (auto simp: reference_key_def)
  then have srt: "sorted (map ?f (sort_key reference_key xs))"
    by (simp add: sorted_wrt_map)
  have "inj_on ?f (set xs)"
    using assms by (auto simp: distinct_map inj_on_def reference_key_def)
  then have "sort_key ?f xs = sort_key ?f (sort_key reference_key xs)"
    by (rule sort_key_perm) simp
  then show ?thesis using sort_key_id [OF srt] by simp
qed

interpretation references: canonical_builder reference_key
    "\<lambda>xs. length xs \<le> max_state_references" canonical_references
  by unfold_locales (auto simp: canonical_references_def checks_Inr reference_order dest: mset_eq_length)

interpretation operations: canonical_builder operation_value "\<lambda>xs. xs \<noteq> [] \<and> length xs \<le> maximum"
    "\<lambda>xs. canonical_operations name xs maximum" for name maximum
  by unfold_locales (auto simp: canonical_operations_def checks_Inr dest: mset_eq_length)

interpretation artifacts: canonical_builder "artifact_value \<circ> ar_identity"
    "\<lambda>xs. length xs \<le> max_artifact_references" canonical_artifacts
  by unfold_locales (auto simp: canonical_artifacts_def checks_Inr distinct_values dest: mset_eq_length)

interpretation decisions: canonical_builder "decision_value \<circ> dr_identity"
    "\<lambda>xs. length xs \<le> max_decision_references" canonical_decisions
  by unfold_locales (auto simp: canonical_decisions_def checks_Inr distinct_values dest: mset_eq_length)


section \<open>Authority and definition references\<close>

definition part_operations :: "operation_id list \<Rightarrow> json" where
  "part_operations = rep_tuple part_operation"

record authority =
  au_identity :: authority_id
  au_kind :: string
  au_subject :: subject_id
  au_operations :: "operation_id list"
  au_evidence :: external_id
  au_authority_version :: string
  au_version :: string

definition authority_reference_identity :: "string \<Rightarrow> subject_id \<Rightarrow> operation_id list \<Rightarrow> external_id \<Rightarrow>
    string \<Rightarrow> authority_id" where
  "authority_reference_identity kind subject ops ev version =
     AuthorityId (stable_digest ''workflow-authority-reference''
       [JStr kind, part_subject subject, part_operations ops, part_external ev, JStr version, JStr core_version])"

definition mk_authority :: "authority \<Rightarrow> authority result" where
  "mk_authority a =
     contract_version (au_version a)
    (bounded_string ''authority kind'' (au_kind a)
    (bindr (canonical_operations ''authority operations'' (au_operations a) max_operations) (\<lambda>ops.
     require (ops = au_operations a) ''authority operations must be canonically ordered''
    (bounded_string ''authority version'' (au_authority_version a)
    (require (au_identity a = authority_reference_identity (au_kind a) (au_subject a) (au_operations a)
        (au_evidence a) (au_authority_version a))
      ''authority reference identity is inconsistent'' (Inr a))))))"

definition create_authority :: "string \<Rightarrow> subject_id \<Rightarrow> operation_id list \<Rightarrow> external_id \<Rightarrow> string \<Rightarrow>
    authority result" where
  "create_authority kind subject ops ev version =
     bindr (canonical_operations ''authority operations'' ops max_operations) (\<lambda>ops'.
     mk_authority \<lparr>au_identity = authority_reference_identity kind subject ops' ev version,
       au_kind = kind, au_subject = subject, au_operations = ops', au_evidence = ev,
       au_authority_version = version, au_version = core_version\<rparr>)"

definition operations_ok :: "operation_id list \<Rightarrow> bool" where
  "operations_ok ops \<longleftrightarrow> ops \<noteq> [] \<and> length ops \<le> max_operations \<and> canonical operation_value ops"

lemma operations_fixed: "canonical_operations name xs max_operations = Inr xs \<longleftrightarrow> operations_ok xs"
  by (simp add: operations.build_fixed operations_ok_def)

definition authority_ok :: "authority \<Rightarrow> bool" where
  "authority_ok a \<longleftrightarrow> au_version a = core_version \<and> bounded max_string_characters (au_kind a) \<and>
     operations_ok (au_operations a) \<and> bounded max_string_characters (au_authority_version a) \<and>
     au_identity a = authority_reference_identity (au_kind a) (au_subject a) (au_operations a)
       (au_evidence a) (au_authority_version a)"

lemma mk_authority_Inr: "mk_authority a = Inr b \<longleftrightarrow> authority_ok a \<and> b = a"
  by (auto simp: mk_authority_def authority_ok_def operations_fixed contract_version_Inr bounded_string_Inr
      require_Inr_iff bindr_Inr_iff)

record workflow =
  wf_identity :: workflow_id
  wf_contract :: string
  wf_definition_version :: string
  wf_digest :: string
  wf_operations :: "operation_id list"
  wf_version :: string

definition workflow_reference_identity :: "string \<Rightarrow> string \<Rightarrow> string \<Rightarrow> operation_id list \<Rightarrow> workflow_id" where
  "workflow_reference_identity contract version digest ops =
     WorkflowId (stable_digest ''workflow-definition-reference''
       [JStr contract, JStr version, JStr digest, part_operations ops, JStr core_version])"

definition mk_workflow :: "workflow \<Rightarrow> workflow result" where
  "mk_workflow w =
     contract_version (wf_version w)
    (bounded_string ''definition contract ID'' (wf_contract w)
    (bounded_string ''definition version'' (wf_definition_version w)
    (check_sha256 ''definition digest'' (wf_digest w)
    (bindr (canonical_operations ''definition operations'' (wf_operations w) max_operations) (\<lambda>ops.
     require (ops = wf_operations w) ''definition operations must be canonically ordered''
    (require (wf_identity w = workflow_reference_identity (wf_contract w) (wf_definition_version w)
        (wf_digest w) (wf_operations w))
      ''definition reference identity is inconsistent'' (Inr w)))))))"

definition create_workflow :: "string \<Rightarrow> string \<Rightarrow> string \<Rightarrow> operation_id list \<Rightarrow> workflow result" where
  "create_workflow contract version digest ops =
     bindr (canonical_operations ''definition operations'' ops max_operations) (\<lambda>ops'.
     mk_workflow \<lparr>wf_identity = workflow_reference_identity contract version digest ops',
       wf_contract = contract, wf_definition_version = version, wf_digest = digest,
       wf_operations = ops', wf_version = core_version\<rparr>)"

definition workflow_ok :: "workflow \<Rightarrow> bool" where
  "workflow_ok w \<longleftrightarrow> wf_version w = core_version \<and> bounded max_string_characters (wf_contract w) \<and>
     bounded max_string_characters (wf_definition_version w) \<and> sha_spelling (wf_digest w) \<and>
     operations_ok (wf_operations w) \<and>
     wf_identity w = workflow_reference_identity (wf_contract w) (wf_definition_version w)
       (wf_digest w) (wf_operations w)"

lemma mk_workflow_Inr: "mk_workflow w = Inr v \<longleftrightarrow> workflow_ok w \<and> v = w"
  by (auto simp: mk_workflow_def workflow_ok_def operations_fixed contract_version_Inr bounded_string_Inr
      check_sha256_Inr require_Inr_iff bindr_Inr_iff)

section \<open>State snapshots\<close>

record snapshot =
  ss_identity :: state_id
  ss_run :: run_id
  ss_workflow :: workflow_id
  ss_revision :: int
  ss_status :: run_status
  ss_references :: "typed_reference list"
  ss_predecessor :: "state_id option"
  ss_version :: string

definition state_snapshot_identity :: "run_id \<Rightarrow> workflow_id \<Rightarrow> int \<Rightarrow> run_status \<Rightarrow> typed_reference list \<Rightarrow>
    state_id option \<Rightarrow> state_id" where
  "state_snapshot_identity r w rv st refs pre =
     StateId (stable_digest ''workflow-state-snapshot''
       [part_run r, part_workflow w, JInt rv, part_status st, rep_tuple part_typed_reference refs,
        rep_optional part_state pre, JStr core_version])"

definition mk_snapshot :: "snapshot \<Rightarrow> snapshot result" where
  "mk_snapshot s =
     contract_version (ss_version s)
    (require (0 \<le> ss_revision s) ''state revision must be nonnegative''
    (bindr (canonical_references (ss_references s)) (\<lambda>refs.
     require (refs = ss_references s) ''state references must be canonically ordered''
    (require (\<not> (ss_revision s = 0 \<and> ss_predecessor s \<noteq> None)) ''initial state cannot have a predecessor''
    (require (\<not> (ss_revision s > 0 \<and> ss_predecessor s = None)) ''noninitial state must have a predecessor''
    (require (ss_identity s = state_snapshot_identity (ss_run s) (ss_workflow s) (ss_revision s)
        (ss_status s) (ss_references s) (ss_predecessor s))
      ''state snapshot identity is inconsistent'' (Inr s)))))))"

definition create_snapshot :: "run_id \<Rightarrow> workflow_id \<Rightarrow> int \<Rightarrow> run_status \<Rightarrow> typed_reference list \<Rightarrow>
    state_id option \<Rightarrow> snapshot result" where
  "create_snapshot r w rv st refs pre =
     bindr (canonical_references refs) (\<lambda>refs'.
     mk_snapshot \<lparr>ss_identity = state_snapshot_identity r w rv st refs' pre, ss_run = r, ss_workflow = w,
       ss_revision = rv, ss_status = st, ss_references = refs', ss_predecessor = pre,
       ss_version = core_version\<rparr>)"

definition references_ok :: "typed_reference list \<Rightarrow> bool" where
  "references_ok rs \<longleftrightarrow> length rs \<le> max_state_references \<and> canonical reference_key rs"

lemma references_fixed: "canonical_references xs = Inr xs \<longleftrightarrow> references_ok xs"
  by (simp add: references.build_fixed references_ok_def)

definition snapshot_ok :: "snapshot \<Rightarrow> bool" where
  "snapshot_ok s \<longleftrightarrow> ss_version s = core_version \<and> 0 \<le> ss_revision s \<and> references_ok (ss_references s) \<and>
     (ss_revision s = 0 \<longleftrightarrow> ss_predecessor s = None) \<and>
     ss_identity s = state_snapshot_identity (ss_run s) (ss_workflow s) (ss_revision s)
       (ss_status s) (ss_references s) (ss_predecessor s)"

lemma mk_snapshot_Inr: "mk_snapshot s = Inr t \<longleftrightarrow> snapshot_ok s \<and> t = s"
  by (auto simp: mk_snapshot_def snapshot_ok_def references_fixed contract_version_Inr require_Inr_iff bindr_Inr_iff)

lemma create_snapshot_Inr:
  "create_snapshot r w rv st refs pre = Inr s \<longleftrightarrow>
     (\<exists>refs'. canonical_references refs = Inr refs' \<and> 0 \<le> rv \<and> (rv = 0 \<longleftrightarrow> pre = None) \<and>
       s = \<lparr>ss_identity = state_snapshot_identity r w rv st refs' pre, ss_run = r, ss_workflow = w,
         ss_revision = rv, ss_status = st, ss_references = refs', ss_predecessor = pre,
         ss_version = core_version\<rparr>)"
  by (auto simp: create_snapshot_def bindr_Inr_iff mk_snapshot_Inr snapshot_ok_def references_ok_def
      references.build_canonical references.build_Inr)

end
