(* ===== verification/Core_Requests.thy ===== *)
theory Core_Requests
  imports Core_Records
begin

text \<open>
  \<open>core/models.py\<close>, the aggregate: the workflow run, and the starter that creates a run with its
  state at revision zero.
\<close>

section \<open>Runs\<close>

record run =
  rn_identity :: run_id
  rn_key :: string
  rn_workflow :: workflow_id
  rn_subject :: subject_id
  rn_state :: state_id
  rn_revision :: int
  rn_status :: run_status
  rn_reasons :: "string list"
  rn_artifacts :: "artifact list"
  rn_decisions :: "decision list"
  rn_parent :: "run_id option"
  rn_predecessor :: "run_id option"
  rn_version :: string

definition run_digest :: "string \<Rightarrow> workflow_id \<Rightarrow> subject_id \<Rightarrow> run_id option \<Rightarrow> run_id option \<Rightarrow> run_id" where
  "run_digest key w s parent pre =
     RunId (stable_digest ''workflow-run''
       [JStr key, part_workflow w, part_subject s, rep_optional part_run parent, rep_optional part_run pre,
        JStr core_version])"

definition run_identity :: "string \<Rightarrow> workflow_id \<Rightarrow> subject_id \<Rightarrow> run_id option \<Rightarrow> run_id option \<Rightarrow>
    run_id result" where
  "run_identity key w s parent pre = bounded_string ''run key'' key (Inr (run_digest key w s parent pre))"

definition mk_run :: "run \<Rightarrow> run result" where
  "mk_run r =
     contract_version (rn_version r)
    (bounded_string ''run key'' (rn_key r)
    (require (0 \<le> rn_revision r) ''run revision must be nonnegative''
    (validate_reasons (rn_reasons r)
    (require ((rn_status r = RunActive) = (rn_reasons r = []))
      ''active status requires no reasons; nonactive status requires reasons''
    (bindr (canonical_artifacts (rn_artifacts r)) (\<lambda>as.
     require (as = rn_artifacts r) ''run artifact references must be canonical''
    (bindr (canonical_decisions (rn_decisions r)) (\<lambda>ds.
     require (ds = rn_decisions r) ''run decision references must be canonical''
    (require (\<not> list_ex (\<lambda>d. dr_subject d \<noteq> rn_subject r) (rn_decisions r))
      ''run decisions must apply to the run subject''
    (bindr (run_identity (rn_key r) (rn_workflow r) (rn_subject r) (rn_parent r) (rn_predecessor r)) (\<lambda>i.
     require (rn_identity r = i) ''workflow run identity is inconsistent'' (Inr r)))))))))))) "

definition artifacts_ok :: "artifact list \<Rightarrow> bool" where
  "artifacts_ok as \<longleftrightarrow> length as \<le> max_artifact_references \<and> canonical (artifact_value \<circ> ar_identity) as"

definition decisions_ok :: "decision list \<Rightarrow> bool" where
  "decisions_ok ds \<longleftrightarrow> length ds \<le> max_decision_references \<and> canonical (decision_value \<circ> dr_identity) ds"

lemma artifacts_fixed: "canonical_artifacts xs = Inr xs \<longleftrightarrow> artifacts_ok xs"
  by (simp add: artifacts.build_fixed artifacts_ok_def)

lemma decisions_fixed: "canonical_decisions xs = Inr xs \<longleftrightarrow> decisions_ok xs"
  by (simp add: decisions.build_fixed decisions_ok_def)

definition run_ok :: "run \<Rightarrow> bool" where
  "run_ok r \<longleftrightarrow> rn_version r = core_version \<and> bounded max_string_characters (rn_key r) \<and> 0 \<le> rn_revision r \<and>
     reasons_ok (rn_reasons r) \<and> ((rn_status r = RunActive) = (rn_reasons r = [])) \<and>
     artifacts_ok (rn_artifacts r) \<and> decisions_ok (rn_decisions r) \<and>
     (\<forall>d \<in> set (rn_decisions r). dr_subject d = rn_subject r) \<and>
     rn_identity r = run_digest (rn_key r) (rn_workflow r) (rn_subject r) (rn_parent r) (rn_predecessor r)"

lemma mk_run_Inr: "mk_run r = Inr s \<longleftrightarrow> run_ok r \<and> s = r"
  by (auto simp: mk_run_def run_ok_def artifacts_fixed decisions_fixed run_identity_def contract_version_Inr
      bounded_string_Inr require_Inr_iff validate_reasons_Inr bindr_Inr_iff list_ex_iff)

definition snapshot_parts :: "run \<Rightarrow> json" where
  "snapshot_parts r = JList
     [part_run (rn_identity r), JStr (rn_key r), part_workflow (rn_workflow r), part_subject (rn_subject r),
      part_state (rn_state r), JInt (rn_revision r), part_status (rn_status r), rep_tuple JStr (rn_reasons r),
      rep_tuple part_artifact_record (rn_artifacts r), rep_tuple part_decision_record (rn_decisions r),
      rep_optional part_run (rn_parent r), rep_optional part_run (rn_predecessor r)]"

section \<open>Starting a run\<close>

record run_start =
  st_run :: run
  st_state :: snapshot

definition run_state_agree :: "run \<Rightarrow> snapshot \<Rightarrow> bool" where
  "run_state_agree r s \<longleftrightarrow> rn_state r = ss_identity s \<and> rn_identity r = ss_run s \<and>
     rn_workflow r = ss_workflow s \<and> rn_revision r = ss_revision s \<and> rn_status r = ss_status s"

definition mk_run_start :: "run \<Rightarrow> snapshot \<Rightarrow> run_start result" where
  "mk_run_start r s =
     require (run_state_agree r s) ''started run and state must agree'' (Inr \<lparr>st_run = r, st_state = s\<rparr>)"

definition start_run :: "workflow \<Rightarrow> subject_id \<Rightarrow> string \<Rightarrow> typed_reference list \<Rightarrow> artifact list \<Rightarrow>
    decision list \<Rightarrow> run_id option \<Rightarrow> run_id option \<Rightarrow> run_start result" where
  "start_run w subject key refs arts decs parent pre =
     bounded_string ''run key'' key
    (bindr (canonical_artifacts arts) (\<lambda>as.
     bindr (canonical_decisions decs) (\<lambda>ds.
     bindr (run_identity key (wf_identity w) subject parent pre) (\<lambda>i.
     bindr (create_snapshot i (wf_identity w) 0 RunActive refs None) (\<lambda>s.
     bindr (mk_run \<lparr>rn_identity = i, rn_key = key, rn_workflow = wf_identity w, rn_subject = subject,
         rn_state = ss_identity s, rn_revision = 0, rn_status = RunActive, rn_reasons = [],
         rn_artifacts = as, rn_decisions = ds, rn_parent = parent, rn_predecessor = pre,
         rn_version = core_version\<rparr>) (\<lambda>r.
     mk_run_start r s))))))"

text \<open>
  What the starter accepts: a bounded key, unique references within their limits, and decisions on
  the subject of the run.
\<close>

definition startable :: "subject_id \<Rightarrow> string \<Rightarrow> typed_reference list \<Rightarrow> artifact list \<Rightarrow> decision list \<Rightarrow> bool" where
  "startable subject key refs arts decs \<longleftrightarrow> bounded max_string_characters key \<and>
     length refs \<le> max_state_references \<and> distinct (map reference_key refs) \<and>
     length arts \<le> max_artifact_references \<and> distinct (map ar_identity arts) \<and>
     length decs \<le> max_decision_references \<and> distinct (map dr_identity decs) \<and>
     (\<forall>d \<in> set decs. dr_subject d = subject)"

lemma reasons_ok_Nil [simp]: "reasons_ok []"
  by (simp add: reasons_ok_def string_tuple_ok_def)

lemma start_run_Inr:
  "start_run w subject key refs arts decs parent pre = Inr x \<Longrightarrow>
     startable subject key refs arts decs \<and> run_ok (st_run x) \<and> snapshot_ok (st_state x) \<and>
     run_state_agree (st_run x) (st_state x) \<and> rn_revision (st_run x) = 0 \<and> rn_status (st_run x) = RunActive \<and>
     rn_workflow (st_run x) = wf_identity w \<and> rn_subject (st_run x) = subject \<and> rn_key (st_run x) = key \<and>
     mset (ss_references (st_state x)) = mset refs \<and> mset (rn_artifacts (st_run x)) = mset arts \<and>
     mset (rn_decisions (st_run x)) = mset decs"
proof -
  assume st: "start_run w subject key refs arts decs parent pre = Inr x"
  then obtain as ds s r where k: "bounded max_string_characters key"
    and as: "canonical_artifacts arts = Inr as" and ds: "canonical_decisions decs = Inr ds"
    and s: "create_snapshot (run_digest key (wf_identity w) subject parent pre) (wf_identity w) 0 RunActive refs None = Inr s"
    and r: "run_ok r" "r = \<lparr>rn_identity = run_digest key (wf_identity w) subject parent pre, rn_key = key,
         rn_workflow = wf_identity w, rn_subject = subject,
         rn_state = ss_identity s, rn_revision = 0, rn_status = RunActive, rn_reasons = [],
         rn_artifacts = as, rn_decisions = ds, rn_parent = parent, rn_predecessor = pre,
         rn_version = core_version\<rparr>"
    and x: "x = \<lparr>st_run = r, st_state = s\<rparr>" "run_state_agree r s"
    by (auto simp: start_run_def bounded_string_Inr bindr_Inr_iff run_identity_def mk_run_Inr mk_run_start_def
        require_Inr_iff)
  obtain refs' where refs': "canonical_references refs = Inr refs'" "ss_references s = refs'"
    using s by (auto simp: create_snapshot_Inr)
  have "snapshot_ok s" using s by (auto simp: create_snapshot_def bindr_Inr_iff mk_snapshot_Inr)
  moreover have "set ds = set decs" using decisions.build_set [OF ds] .
  moreover have "\<forall>d \<in> set ds. dr_subject d = subject" using r by (simp add: run_ok_def)
  moreover have "length refs \<le> max_state_references \<and> distinct (map reference_key refs)"
    using refs'(1) by (simp add: canonical_references_def require_Inr_iff)
  moreover have "length arts \<le> max_artifact_references \<and> distinct (map ar_identity arts)"
    using as by (simp add: canonical_artifacts_def require_Inr_iff)
  moreover have "length decs \<le> max_decision_references \<and> distinct (map dr_identity decs)"
    using ds by (simp add: canonical_decisions_def require_Inr_iff)
  ultimately show ?thesis
    using k r x refs' references.build_mset [OF refs'(1)] artifacts.build_mset [OF as] decisions.build_mset [OF ds]
    by (simp add: startable_def)
qed

lemma start_run_total:
  assumes "startable subject key refs arts decs"
  obtains x where "start_run w subject key refs arts decs parent pre = Inr x"
proof -
  note a = assms [unfolded startable_def]
  obtain as where as: "canonical_artifacts arts = Inr as" using a by (simp add: canonical_artifacts_def)
  obtain ds where ds: "canonical_decisions decs = Inr ds" using a by (simp add: canonical_decisions_def)
  obtain rs where rs: "canonical_references refs = Inr rs" using a by (simp add: canonical_references_def)
  have len: "length as \<le> max_artifact_references" "length ds \<le> max_decision_references"
    using a mset_eq_length [OF artifacts.build_mset [OF as]] mset_eq_length [OF decisions.build_mset [OF ds]] by simp_all
  let ?i = "run_digest key (wf_identity w) subject parent pre"
  obtain s where s: "create_snapshot ?i (wf_identity w) 0 RunActive refs None = Inr s"
      "ss_run s = ?i" "ss_workflow s = wf_identity w" "ss_revision s = 0" "ss_status s = RunActive"
    using rs by (auto simp: create_snapshot_Inr)
  let ?r = "\<lparr>rn_identity = ?i, rn_key = key, rn_workflow = wf_identity w, rn_subject = subject,
         rn_state = ss_identity s, rn_revision = 0, rn_status = RunActive, rn_reasons = [],
         rn_artifacts = as, rn_decisions = ds, rn_parent = parent, rn_predecessor = pre,
         rn_version = core_version\<rparr>"
  have "run_ok ?r"
    using a len artifacts.build_canonical [OF as] decisions.build_canonical [OF ds] decisions.build_set [OF ds]
    by (simp add: run_ok_def artifacts_ok_def decisions_ok_def)
  then have "mk_run ?r = Inr ?r" by (simp add: mk_run_Inr)
  then show ?thesis
    using that a s as ds
    by (simp add: start_run_def bounded_string_def run_identity_def mk_run_start_def run_state_agree_def)
qed

text \<open>
  \<open>core/models.py\<close>, second part: request bounds, transition requests, adapter and infrastructure
  evidence, validation findings and results, transition outcomes and audit events.
\<close>

section \<open>Transition requests\<close>

record request_bounds =
  rb_inputs :: int
  rb_artifacts :: int
  rb_decisions :: int
  rb_successors :: int

definition bound_ok :: "nat \<Rightarrow> int \<Rightarrow> bool" where
  "bound_ok maximum v \<longleftrightarrow> 0 < v \<and> v \<le> int maximum"

definition check_bound :: "string \<Rightarrow> nat \<Rightarrow> int \<Rightarrow> 'a result \<Rightarrow> 'a result" where
  "check_bound name maximum v k =
     require (0 \<le> v) (name @ '' must be nonnegative'')
    (require (v \<noteq> 0) (name @ '' must be positive'')
    (require (v \<le> int maximum) (name @ '' exceeds its implementation maximum'') k))"

definition mk_bounds :: "request_bounds \<Rightarrow> request_bounds result" where
  "mk_bounds b =
     check_bound ''max_input_references'' max_input_references (rb_inputs b)
    (check_bound ''max_artifact_references'' max_artifact_references (rb_artifacts b)
    (check_bound ''max_decision_references'' max_decision_references (rb_decisions b)
    (check_bound ''max_successor_state_references'' max_state_references (rb_successors b) (Inr b))))"

definition default_bounds :: request_bounds where
  "default_bounds = \<lparr>rb_inputs = 256, rb_artifacts = 256, rb_decisions = 64, rb_successors = 1024\<rparr>"

definition bounds_ok :: "request_bounds \<Rightarrow> bool" where
  "bounds_ok b \<longleftrightarrow> bound_ok max_input_references (rb_inputs b) \<and> bound_ok max_artifact_references (rb_artifacts b) \<and>
     bound_ok max_decision_references (rb_decisions b) \<and> bound_ok max_state_references (rb_successors b)"

lemma check_bound_Inr: "check_bound name maximum v k = Inr x \<longleftrightarrow> bound_ok maximum v \<and> k = Inr x"
  by (auto simp: check_bound_def bound_ok_def require_Inr_iff)

lemma mk_bounds_Inr: "mk_bounds b = Inr c \<longleftrightarrow> bounds_ok b \<and> c = b"
  by (auto simp: mk_bounds_def bounds_ok_def check_bound_Inr)

definition part_bounds :: "request_bounds \<Rightarrow> json" where
  "part_bounds b = JList [JInt (rb_inputs b), JInt (rb_artifacts b), JInt (rb_decisions b), JInt (rb_successors b)]"

record request =
  rq_identity :: request_id
  rq_run :: run_id
  rq_prior :: state_id
  rq_revision :: int
  rq_operation :: operation_id
  rq_inputs :: "typed_reference list"
  rq_artifacts :: "artifact list"
  rq_decisions :: "decision list"
  rq_actor :: actor_id
  rq_authority :: authority
  rq_idempotency :: idempotency_id
  rq_bounds :: request_bounds
  rq_version :: string

definition transition_request_identity :: "run_id \<Rightarrow> state_id \<Rightarrow> int \<Rightarrow> operation_id \<Rightarrow> typed_reference list \<Rightarrow>
    artifact list \<Rightarrow> decision list \<Rightarrow> actor_id \<Rightarrow> authority \<Rightarrow> idempotency_id \<Rightarrow> request_bounds \<Rightarrow> request_id" where
  "transition_request_identity r prior rv oper ins arts decs actor auth idem b =
     RequestId (stable_digest ''workflow-transition-request''
       [part_run r, part_state prior, JInt rv, part_operation oper, rep_tuple part_typed_reference ins,
        rep_tuple part_artifact_record arts, rep_tuple part_decision_record decs, part_actor actor,
        part_authority (au_identity auth), part_idempotency idem, part_bounds b, JStr core_version])"

definition validate_request_collections :: "typed_reference list \<Rightarrow> artifact list \<Rightarrow> decision list \<Rightarrow>
    request_bounds \<Rightarrow> 'a result \<Rightarrow> 'a result" where
  "validate_request_collections ins arts decs b k =
     require (distinct (map reference_key ins)) ''input references must be unique''
    (require (int (length ins) \<le> rb_inputs b) ''input references exceed request bounds''
    (bindr (canonical_artifacts arts) (\<lambda>as.
     require (int (length arts) \<le> rb_artifacts b) ''artifact references exceed request bounds''
    (bindr (canonical_decisions decs) (\<lambda>ds.
     require (ds = decs) ''decision references must be canonical''
    (require (int (length decs) \<le> rb_decisions b) ''decision references exceed request bounds'' k))))))"

definition mk_request :: "request \<Rightarrow> request result" where
  "mk_request q =
     contract_version (rq_version q)
    (require (0 \<le> rq_revision q) ''expected revision must be nonnegative''
    (validate_request_collections (rq_inputs q) (rq_artifacts q) (rq_decisions q) (rq_bounds q)
    (require (rq_identity q = transition_request_identity (rq_run q) (rq_prior q) (rq_revision q)
        (rq_operation q) (rq_inputs q) (rq_artifacts q) (rq_decisions q) (rq_actor q) (rq_authority q)
        (rq_idempotency q) (rq_bounds q))
      ''transition request identity is inconsistent'' (Inr q))))"

text \<open>\<open>create\<close>; the argument \<open>None\<close> for the bounds selects the default ones.\<close>

definition create_request :: "run_id \<Rightarrow> state_id \<Rightarrow> int \<Rightarrow> operation_id \<Rightarrow> typed_reference list \<Rightarrow>
    artifact list \<Rightarrow> decision list \<Rightarrow> actor_id \<Rightarrow> authority \<Rightarrow> idempotency_id \<Rightarrow> request_bounds option \<Rightarrow>
    request result" where
  "create_request r prior rv oper ins arts decs actor auth idem bounds =
     (let b = (case bounds of None \<Rightarrow> default_bounds | Some c \<Rightarrow> c) in
      validate_request_collections ins arts decs b
     (mk_request \<lparr>rq_identity = transition_request_identity r prior rv oper ins arts decs actor auth idem b,
        rq_run = r, rq_prior = prior, rq_revision = rv, rq_operation = oper, rq_inputs = ins,
        rq_artifacts = arts, rq_decisions = decs, rq_actor = actor, rq_authority = auth,
        rq_idempotency = idem, rq_bounds = b, rq_version = core_version\<rparr>))"

definition request_collections_ok :: "typed_reference list \<Rightarrow> artifact list \<Rightarrow> decision list \<Rightarrow>
    request_bounds \<Rightarrow> bool" where
  "request_collections_ok ins arts decs b \<longleftrightarrow> distinct (map reference_key ins) \<and>
     int (length ins) \<le> rb_inputs b \<and> length arts \<le> max_artifact_references \<and>
     distinct (map ar_identity arts) \<and> int (length arts) \<le> rb_artifacts b \<and> decisions_ok decs \<and>
     int (length decs) \<le> rb_decisions b"

lemma canonical_artifacts_ok:
  "(\<exists>ys. canonical_artifacts xs = Inr ys) \<longleftrightarrow> length xs \<le> max_artifact_references \<and> distinct (map ar_identity xs)"
  by (auto simp: canonical_artifacts_def require_Inr_iff)

lemma validate_request_collections_Inr:
  "validate_request_collections ins arts decs b k = Inr x \<longleftrightarrow> request_collections_ok ins arts decs b \<and> k = Inr x"
  using canonical_artifacts_ok [of arts]
  by (auto simp: validate_request_collections_def request_collections_ok_def require_Inr_iff bindr_Inr_iff
      decisions_fixed)

definition request_ok :: "request \<Rightarrow> bool" where
  "request_ok q \<longleftrightarrow> rq_version q = core_version \<and> 0 \<le> rq_revision q \<and>
     request_collections_ok (rq_inputs q) (rq_artifacts q) (rq_decisions q) (rq_bounds q) \<and>
     rq_identity q = transition_request_identity (rq_run q) (rq_prior q) (rq_revision q)
        (rq_operation q) (rq_inputs q) (rq_artifacts q) (rq_decisions q) (rq_actor q) (rq_authority q)
        (rq_idempotency q) (rq_bounds q)"

lemma mk_request_Inr: "mk_request q = Inr p \<longleftrightarrow> request_ok q \<and> p = q"
  by (auto simp: mk_request_def request_ok_def contract_version_Inr require_Inr_iff validate_request_collections_Inr)

section \<open>Adapter and infrastructure evidence\<close>

datatype adapter_disposition = AdapterEnabled | AdapterNotEnabled | AdapterBlocked

fun adapter_disposition_text :: "adapter_disposition \<Rightarrow> string" where
  "adapter_disposition_text AdapterEnabled = ''enabled''"
| "adapter_disposition_text AdapterNotEnabled = ''not_enabled''"
| "adapter_disposition_text AdapterBlocked = ''blocked''"

definition part_adapter_disposition :: "adapter_disposition \<Rightarrow> json" where
  "part_adapter_disposition d = JStr (adapter_disposition_text d)"

record evidence =
  ev_identity :: evidence_id
  ev_adapter :: adapter_id
  ev_workflow :: workflow_id
  ev_request :: request_id
  ev_prior :: state_id
  ev_disposition :: adapter_disposition
  ev_references :: "typed_reference list"
  ev_status :: "run_status option"
  ev_artifacts :: "artifact list"
  ev_decisions :: "decision list"
  ev_reasons :: "string list"
  ev_version :: string

definition adapter_evidence_identity :: "adapter_id \<Rightarrow> workflow_id \<Rightarrow> request_id \<Rightarrow> state_id \<Rightarrow>
    adapter_disposition \<Rightarrow> typed_reference list \<Rightarrow> run_status option \<Rightarrow> artifact list \<Rightarrow> decision list \<Rightarrow>
    string list \<Rightarrow> evidence_id" where
  "adapter_evidence_identity a w q s d refs st arts decs reasons =
     EvidenceId (stable_digest ''workflow-adapter-evidence''
       [part_adapter a, part_workflow w, part_request q, part_state s, part_adapter_disposition d,
        rep_tuple part_typed_reference refs, rep_optional part_status st,
        rep_tuple part_artifact_record arts, rep_tuple part_decision_record decs, rep_tuple JStr reasons,
        JStr core_version])"

definition mk_evidence :: "evidence \<Rightarrow> evidence result" where
  "mk_evidence e =
     contract_version (ev_version e)
    (require (length (ev_references e) \<le> max_state_references) ''too many successor state references''
    (bindr (canonical_references (ev_references e)) (\<lambda>refs.
     require (refs = ev_references e) ''successor state references must be canonical''
    (require (length (ev_artifacts e) \<le> max_artifact_references) ''too many produced artifact references''
    (bindr (canonical_artifacts (ev_artifacts e)) (\<lambda>as.
     require (as = ev_artifacts e) ''produced artifact references must be canonical''
    (require (length (ev_decisions e) \<le> max_decision_references) ''too many recorded decision references''
    (bindr (canonical_decisions (ev_decisions e)) (\<lambda>ds.
     require (ds = ev_decisions e) ''recorded decision references must be canonical''
    (validate_reasons (ev_reasons e)
    (require ((ev_disposition e = AdapterEnabled) = (ev_status e \<noteq> None))
      ''enabled evidence alone must provide successor run status''
    (require (\<not> (ev_disposition e \<noteq> AdapterEnabled \<and>
        (ev_references e \<noteq> [] \<or> ev_artifacts e \<noteq> [] \<or> ev_decisions e \<noteq> [])))
      ''non-enabled adapter evidence cannot produce state''
    (require (\<not> (ev_disposition e \<noteq> AdapterEnabled \<and> ev_reasons e = []))
      ''non-enabled adapter evidence requires reasons''
    (require (\<not> (ev_disposition e = AdapterEnabled \<and> ev_status e \<noteq> Some RunActive \<and> ev_reasons e = []))
      ''nonactive successor status requires reasons''
    (require (ev_identity e = adapter_evidence_identity (ev_adapter e) (ev_workflow e) (ev_request e)
        (ev_prior e) (ev_disposition e) (ev_references e) (ev_status e) (ev_artifacts e) (ev_decisions e)
        (ev_reasons e))
      ''adapter evidence identity is inconsistent'' (Inr e))))))))))))))))"

definition create_evidence :: "adapter_id \<Rightarrow> workflow_id \<Rightarrow> request_id \<Rightarrow> state_id \<Rightarrow>
    adapter_disposition \<Rightarrow> typed_reference list \<Rightarrow> run_status option \<Rightarrow> artifact list \<Rightarrow> decision list \<Rightarrow>
    string list \<Rightarrow> evidence result" where
  "create_evidence a w q s d refs st arts decs reasons =
     bindr (canonical_references refs) (\<lambda>refs'.
     bindr (canonical_artifacts arts) (\<lambda>as.
     bindr (canonical_decisions decs) (\<lambda>ds.
     validate_reasons reasons
    (mk_evidence \<lparr>ev_identity = adapter_evidence_identity a w q s d refs' st as ds reasons,
       ev_adapter = a, ev_workflow = w, ev_request = q, ev_prior = s, ev_disposition = d,
       ev_references = refs', ev_status = st, ev_artifacts = as, ev_decisions = ds, ev_reasons = reasons,
       ev_version = core_version\<rparr>))))"

definition evidence_ok :: "evidence \<Rightarrow> bool" where
  "evidence_ok e \<longleftrightarrow> ev_version e = core_version \<and> references_ok (ev_references e) \<and>
     artifacts_ok (ev_artifacts e) \<and> decisions_ok (ev_decisions e) \<and> reasons_ok (ev_reasons e) \<and>
     ((ev_disposition e = AdapterEnabled) = (ev_status e \<noteq> None)) \<and>
     (ev_disposition e \<noteq> AdapterEnabled \<longrightarrow> ev_references e = [] \<and> ev_artifacts e = [] \<and> ev_decisions e = []) \<and>
     (ev_reasons e = [] \<longrightarrow> ev_disposition e = AdapterEnabled \<and> ev_status e = Some RunActive) \<and>
     ev_identity e = adapter_evidence_identity (ev_adapter e) (ev_workflow e) (ev_request e)
        (ev_prior e) (ev_disposition e) (ev_references e) (ev_status e) (ev_artifacts e) (ev_decisions e)
        (ev_reasons e)"

lemma collection_lengths:
  "references_ok rs \<Longrightarrow> length rs \<le> max_state_references"
  "artifacts_ok as \<Longrightarrow> length as \<le> max_artifact_references"
  "decisions_ok ds \<Longrightarrow> length ds \<le> max_decision_references"
  by (simp_all add: references_ok_def artifacts_ok_def decisions_ok_def)

lemma mk_evidence_Inr: "mk_evidence e = Inr d \<longleftrightarrow> evidence_ok e \<and> d = e"
  unfolding mk_evidence_def evidence_ok_def
  by (simp only: contract_version_Inr require_Inr_iff bindr_Inr_iff validate_reasons_Inr)
    (use references_fixed [of "ev_references e"] artifacts_fixed [of "ev_artifacts e"]
      decisions_fixed [of "ev_decisions e"] collection_lengths in blast)

end
