(* ===== verification/Core_Outcomes.thy ===== *)
theory Core_Outcomes
  imports Core_Requests
begin

text \<open>
  \<open>core/models.py\<close>, third part: infrastructure failures, validation findings and results, transition
  outcomes and audit events.
\<close>

section \<open>Infrastructure failures\<close>

record failure =
  if_identity :: failure_id
  if_request :: request_id
  if_phase :: string
  if_code :: string
  if_message :: string
  if_evidence :: external_id
  if_version :: string

definition infrastructure_failure_identity :: "request_id \<Rightarrow> string \<Rightarrow> string \<Rightarrow> string \<Rightarrow> external_id \<Rightarrow> failure_id" where
  "infrastructure_failure_identity q phase code message ev =
     FailureId (stable_digest ''workflow-infrastructure-failure''
       [part_request q, JStr phase, JStr code, JStr message, part_external ev, JStr core_version])"

definition mk_failure :: "failure \<Rightarrow> failure result" where
  "mk_failure f =
     contract_version (if_version f)
    (bounded_string ''operation phase'' (if_phase f)
    (bounded_string ''failure code'' (if_code f)
    (require (bounded max_message_characters (if_message f))
      ''infrastructure failure message must be nonempty and bounded''
    (require (if_identity f = infrastructure_failure_identity (if_request f) (if_phase f) (if_code f)
        (if_message f) (if_evidence f))
      ''infrastructure failure identity is inconsistent'' (Inr f)))))"

definition create_failure :: "request_id \<Rightarrow> string \<Rightarrow> string \<Rightarrow> string \<Rightarrow> external_id \<Rightarrow> failure result" where
  "create_failure q phase code message ev =
     mk_failure \<lparr>if_identity = infrastructure_failure_identity q phase code message ev, if_request = q,
       if_phase = phase, if_code = code, if_message = message, if_evidence = ev, if_version = core_version\<rparr>"

definition failure_ok :: "failure \<Rightarrow> bool" where
  "failure_ok f \<longleftrightarrow> if_version f = core_version \<and> bounded max_string_characters (if_phase f) \<and>
     bounded max_string_characters (if_code f) \<and> bounded max_message_characters (if_message f) \<and>
     if_identity f = infrastructure_failure_identity (if_request f) (if_phase f) (if_code f)
        (if_message f) (if_evidence f)"

lemma mk_failure_Inr: "mk_failure f = Inr g \<longleftrightarrow> failure_ok f \<and> g = f"
  by (auto simp: mk_failure_def failure_ok_def checks_Inr)

section \<open>Findings\<close>

datatype finding_code =
    FcDefinitionMismatch | FcRunMismatch | FcStateMismatch | FcRevisionConflict | FcTerminalRun
  | FcUnknownOperation | FcAuthoritySubjectMismatch | FcAuthorityScopeMismatch
  | FcAdapterEvidenceMismatch | FcAdapterOutputInvalid | FcInfrastructureEvidenceMismatch
  | FcDuplicateReference | FcFindingsTruncated

fun finding_code_text :: "finding_code \<Rightarrow> string" where
  "finding_code_text FcDefinitionMismatch = ''definition_mismatch''"
| "finding_code_text FcRunMismatch = ''run_mismatch''"
| "finding_code_text FcStateMismatch = ''state_mismatch''"
| "finding_code_text FcRevisionConflict = ''revision_conflict''"
| "finding_code_text FcTerminalRun = ''terminal_run''"
| "finding_code_text FcUnknownOperation = ''unknown_operation''"
| "finding_code_text FcAuthoritySubjectMismatch = ''authority_subject_mismatch''"
| "finding_code_text FcAuthorityScopeMismatch = ''authority_scope_mismatch''"
| "finding_code_text FcAdapterEvidenceMismatch = ''adapter_evidence_mismatch''"
| "finding_code_text FcAdapterOutputInvalid = ''adapter_output_invalid''"
| "finding_code_text FcInfrastructureEvidenceMismatch = ''infrastructure_evidence_mismatch''"
| "finding_code_text FcDuplicateReference = ''duplicate_reference''"
| "finding_code_text FcFindingsTruncated = ''findings_truncated''"

record wf_finding =
  wfi_identity :: finding_id
  wfi_code :: finding_code
  wfi_path :: "string list"
  wfi_related :: "string list"
  wfi_message :: string

definition validation_finding_identity :: "finding_code \<Rightarrow> string list \<Rightarrow> string list \<Rightarrow> string \<Rightarrow> finding_id" where
  "validation_finding_identity code path related message =
     FindingId (stable_digest ''workflow-validation-finding''
       [JStr (finding_code_text code), rep_tuple JStr path, rep_tuple JStr related, JStr message, JStr core_version])"

definition mk_finding :: "wf_finding \<Rightarrow> wf_finding result" where
  "mk_finding f =
     string_tuple ''finding path'' (wfi_path f) False
    (string_tuple ''related identities'' (wfi_related f) True
    (require (bounded max_message_characters (wfi_message f))
      ''validation finding message must be nonempty and bounded''
    (require (wfi_identity f = validation_finding_identity (wfi_code f) (wfi_path f) (wfi_related f) (wfi_message f))
      ''validation finding identity is inconsistent'' (Inr f))))"

definition create_finding :: "finding_code \<Rightarrow> string list \<Rightarrow> string list \<Rightarrow> string \<Rightarrow> wf_finding result" where
  "create_finding code path related message =
     mk_finding \<lparr>wfi_identity = validation_finding_identity code path related message, wfi_code = code,
       wfi_path = path, wfi_related = related, wfi_message = message\<rparr>"

definition finding_of :: "finding_code \<Rightarrow> string list \<Rightarrow> string list \<Rightarrow> string \<Rightarrow> wf_finding" where
  "finding_of code path related message =
     \<lparr>wfi_identity = validation_finding_identity code path related message, wfi_code = code,
      wfi_path = path, wfi_related = related, wfi_message = message\<rparr>"

lemma create_finding_ok:
  "string_tuple_ok False path \<Longrightarrow> string_tuple_ok True related \<Longrightarrow> bounded max_message_characters message \<Longrightarrow>
   create_finding code path related message = Inr (finding_of code path related message)"
  by (simp add: create_finding_def mk_finding_def finding_of_def string_tuple_def string_tuple_ok_def require_def)

definition part_finding_record :: "wf_finding \<Rightarrow> json" where
  "part_finding_record f = JList
     [part_finding (wfi_identity f), JStr (finding_code_text (wfi_code f)), rep_tuple JStr (wfi_path f),
      rep_tuple JStr (wfi_related f), JStr (wfi_message f)]"

record validation =
  vr_identity :: validation_id
  vr_findings :: "wf_finding list"

definition validation_result_identity :: "wf_finding list \<Rightarrow> validation_id" where
  "validation_result_identity fs =
     ValidationId (stable_digest ''workflow-validation-result''
       [rep_tuple part_finding_record fs, JStr core_version])"

definition mk_validation :: "validation \<Rightarrow> validation result" where
  "mk_validation v =
     require (length (vr_findings v) \<le> max_findings) ''too many workflow validation findings''
    (require (vr_identity v = validation_result_identity (vr_findings v))
      ''validation result identity is inconsistent'' (Inr v))"

definition create_validation :: "wf_finding list \<Rightarrow> validation result" where
  "create_validation fs =
     require (length fs \<le> max_findings) ''too many workflow validation findings''
    (mk_validation \<lparr>vr_identity = validation_result_identity fs, vr_findings = fs\<rparr>)"

definition validation_valid :: "validation \<Rightarrow> bool" where
  "validation_valid v \<longleftrightarrow> vr_findings v = []"

lemma create_validation_Inr:
  "create_validation fs = Inr v \<longleftrightarrow>
     length fs \<le> max_findings \<and> v = \<lparr>vr_identity = validation_result_identity fs, vr_findings = fs\<rparr>"
  by (auto simp: create_validation_def mk_validation_def require_Inr_iff)

section \<open>Outcomes\<close>

datatype outcome_kind =
  OutApplied | OutRejectedInvalid | OutNotEnabled | OutConflict | OutBlocked | OutInfrastructureFailure

fun outcome_kind_text :: "outcome_kind \<Rightarrow> string" where
  "outcome_kind_text OutApplied = ''applied''"
| "outcome_kind_text OutRejectedInvalid = ''rejected_invalid''"
| "outcome_kind_text OutNotEnabled = ''not_enabled''"
| "outcome_kind_text OutConflict = ''conflict''"
| "outcome_kind_text OutBlocked = ''blocked''"
| "outcome_kind_text OutInfrastructureFailure = ''infrastructure_failure''"

record transition_outcome =
  tx_identity :: outcome_id
  tx_kind :: outcome_kind
  tx_run :: run_id
  tx_request :: request_id
  tx_prior :: state_id
  tx_revision :: int
  tx_validation :: validation
  tx_evidence :: "evidence_id option"
  tx_failure :: "failure_id option"
  tx_state :: "snapshot option"
  tx_successor :: "run option"
  tx_reasons :: "string list"
  tx_version :: string

definition transition_outcome_identity :: "transition_outcome \<Rightarrow> outcome_id" where
  "transition_outcome_identity x =
     OutcomeId (stable_digest ''workflow-transition-outcome''
       [JStr (outcome_kind_text (tx_kind x)), part_run (tx_run x), part_request (tx_request x),
        part_state (tx_prior x), JInt (tx_revision x), part_validation (vr_identity (tx_validation x)),
        rep_optional part_evidence (tx_evidence x), rep_optional part_failure (tx_failure x),
        rep_optional (part_state \<circ> ss_identity) (tx_state x), rep_optional snapshot_parts (tx_successor x),
        rep_tuple JStr (tx_reasons x), JStr core_version])"

definition successor_agrees :: "transition_outcome \<Rightarrow> run \<Rightarrow> snapshot \<Rightarrow> bool" where
  "successor_agrees x r s \<longleftrightarrow>
     rn_state r = ss_identity s \<and> rn_identity r = tx_run x \<and> rn_identity r = ss_run s \<and>
     rn_workflow r = ss_workflow s \<and> rn_revision r = tx_revision x + 1 \<and> rn_revision r = ss_revision s \<and>
     rn_status r = ss_status s \<and> ss_predecessor s = Some (tx_prior x)"

definition mk_outcome :: "transition_outcome \<Rightarrow> transition_outcome result" where
  "mk_outcome x =
     (let kind = tx_kind x; valid = validation_valid (tx_validation x);
          applied = (kind = OutApplied);
          nonapplication = (kind \<in> {OutNotEnabled, OutBlocked});
          rejection = (kind \<in> {OutRejectedInvalid, OutConflict});
          infrastructure = (kind = OutInfrastructureFailure)
      in contract_version (tx_version x)
    (require (0 \<le> tx_revision x) ''prior revision must be nonnegative''
    (validate_reasons (tx_reasons x)
    (require (applied = (tx_state x \<noteq> None \<and> tx_successor x \<noteq> None)) ''only applied outcomes have a successor''
    (require (\<not> (applied \<and> tx_evidence x = None)) ''applied outcome requires adapter evidence''
    (require (\<not> (applied \<and> \<not> valid)) ''applied outcome requires valid input''
    (require (\<not> (nonapplication \<and> tx_evidence x = None)) ''adapter outcome requires adapter evidence''
    (require (\<not> (nonapplication \<and> \<not> valid)) ''adapter outcome requires valid input''
    (require (\<not> (rejection \<and> valid)) ''validation rejection requires findings''
    (require (\<not> (infrastructure \<and> tx_failure x = None)) ''infrastructure outcome requires its failure evidence''
    (require (\<not> (\<not> infrastructure \<and> tx_failure x \<noteq> None \<and> \<not> rejection))
      ''only infrastructure or validation-rejection outcomes may retain failure evidence''
    (require (\<not> (tx_failure x \<noteq> None \<and> tx_evidence x \<noteq> None))
      ''outcome cannot claim adapter and failure evidence together''
    (require (\<not> (infrastructure \<and> \<not> valid)) ''infrastructure outcome requires valid input''
    (require (case (tx_state x, tx_successor x) of (Some s, Some r) \<Rightarrow> successor_agrees x r s | _ \<Rightarrow> True)
      ''successor run and state must agree''
    (require (tx_identity x = transition_outcome_identity x)
      ''transition outcome identity is inconsistent'' (Inr x))))))))))))))))"

definition create_outcome :: "transition_outcome \<Rightarrow> transition_outcome result" where
  "create_outcome x =
     validate_reasons (tx_reasons x)
       (mk_outcome (x\<lparr>tx_identity := transition_outcome_identity x, tx_version := core_version\<rparr>))"

lemma transition_outcome_identity_update [simp]:
  "transition_outcome_identity (x\<lparr>tx_identity := i, tx_version := v\<rparr>) = transition_outcome_identity x"
  by (simp add: transition_outcome_identity_def)

section \<open>Audit events\<close>

datatype audit_reference =
    AuditRequest request_id
  | AuditOutcome outcome_id
  | AuditValidation validation_id
  | AuditEvidence evidence_id
  | AuditFailure failure_id
  | AuditArtifact artifact_id
  | AuditDecision decision_id

fun part_audit_reference :: "audit_reference \<Rightarrow> json" where
  "part_audit_reference (AuditRequest i) = JList [part_request i]"
| "part_audit_reference (AuditOutcome i) = JList [part_outcome i]"
| "part_audit_reference (AuditValidation i) = JList [part_validation i]"
| "part_audit_reference (AuditEvidence i) = JList [part_evidence i]"
| "part_audit_reference (AuditFailure i) = JList [part_failure i]"
| "part_audit_reference (AuditArtifact i) = JList [part_artifact i]"
| "part_audit_reference (AuditDecision i) = JList [part_decision i]"

record audit_event =
  ae_identity :: audit_id
  ae_run :: run_id
  ae_revision :: int
  ae_attempt :: request_id
  ae_kind :: string
  ae_subjects :: "audit_reference list"
  ae_evidence :: "audit_reference list"
  ae_version :: string

definition audit_event_identity :: "run_id \<Rightarrow> int \<Rightarrow> request_id \<Rightarrow> string \<Rightarrow> audit_reference list \<Rightarrow>
    audit_reference list \<Rightarrow> audit_id" where
  "audit_event_identity r rv q kind subjects evs =
     AuditId (stable_digest ''workflow-audit-event''
       [part_run r, JInt rv, part_request q, JStr kind, rep_tuple part_audit_reference subjects,
        rep_tuple part_audit_reference evs, JStr core_version])"

definition audit_references :: "string \<Rightarrow> audit_reference list \<Rightarrow> bool \<Rightarrow> 'a result \<Rightarrow> 'a result" where
  "audit_references name xs allow_empty k =
     require (allow_empty \<or> xs \<noteq> []) (name @ '' must not be empty'')
    (require (length xs \<le> max_state_references) (name @ '' contains too many items'') k)"

definition mk_audit :: "audit_event \<Rightarrow> audit_event result" where
  "mk_audit a =
     contract_version (ae_version a)
    (require (0 \<le> ae_revision a) ''audit sequence revision must be nonnegative''
    (bounded_string ''audit event kind'' (ae_kind a)
    (audit_references ''audit subject references'' (ae_subjects a) False
    (audit_references ''audit evidence references'' (ae_evidence a) True
    (require (ae_identity a = audit_event_identity (ae_run a) (ae_revision a) (ae_attempt a) (ae_kind a)
        (ae_subjects a) (ae_evidence a))
      ''audit event identity is inconsistent'' (Inr a))))))"

definition create_audit :: "run_id \<Rightarrow> int \<Rightarrow> request_id \<Rightarrow> string \<Rightarrow> audit_reference list \<Rightarrow>
    audit_reference list \<Rightarrow> audit_event result" where
  "create_audit r rv q kind subjects evs =
     mk_audit \<lparr>ae_identity = audit_event_identity r rv q kind subjects evs, ae_run = r, ae_revision = rv,
       ae_attempt = q, ae_kind = kind, ae_subjects = subjects, ae_evidence = evs, ae_version = core_version\<rparr>"

end
