(* ===== verification/Core_Processing.thy ===== *)
theory Core_Processing
  imports Core_Outcomes
begin

text \<open>
  \<open>core/processing.py\<close>: the structural preflight, the transition processor, its audit event and the
  replayer.  All of it is pure: adapter results and infrastructure failures are arguments.
\<close>

section \<open>Inputs\<close>

record preflight_input =
  pi_workflow :: workflow
  pi_run :: run
  pi_prior :: snapshot
  pi_request :: request

record transition_input = preflight_input +
  ti_evidence :: "evidence option"
  ti_failure :: "failure option"

definition mk_transition_input :: "transition_input \<Rightarrow> transition_input result" where
  "mk_transition_input i =
     require ((ti_evidence i = None) \<noteq> (ti_failure i = None))
       ''exactly one adapter result or infrastructure failure is required'' (Inr i)"

section \<open>Preflight findings\<close>

text \<open>The arguments of one \<open>add(...)\<close> call of the validators.\<close>

type_synonym report = "finding_code \<times> string list \<times> string list \<times> string"

definition add_finding :: "report \<Rightarrow> wf_finding result" where
  "add_finding = (\<lambda>(code, path, related, message). create_finding code path related message)"

definition preflight_reports :: "'a preflight_input_scheme \<Rightarrow> report list" where
  "preflight_reports i =
     (let w = pi_workflow i; r = pi_run i; s = pi_prior i; q = pi_request i; a = rq_authority q in
      (if rn_workflow r \<noteq> wf_identity w
       then [(FcDefinitionMismatch, [''run'', ''definition_identity''],
              [workflow_value (rn_workflow r), workflow_value (wf_identity w)],
              ''run and supplied definition do not match'')] else []) @
      (if ss_workflow s \<noteq> wf_identity w
       then [(FcDefinitionMismatch, [''prior_state'', ''definition_identity''],
              [workflow_value (ss_workflow s), workflow_value (wf_identity w)],
              ''prior state and supplied definition do not match'')] else []) @
      (if ss_run s \<noteq> rn_identity r
       then [(FcRunMismatch, [''prior_state'', ''run_identity''],
              [run_value (ss_run s), run_value (rn_identity r)],
              ''prior state and run identities do not match'')] else []) @
      (if rn_state r \<noteq> ss_identity s \<or> rn_revision r \<noteq> ss_revision s \<or> rn_status r \<noteq> ss_status s
       then [(FcStateMismatch, [''run'', ''current_state''],
              [state_value (rn_state r), state_value (ss_identity s)],
              ''run does not identify the supplied prior state exactly'')] else []) @
      (if rq_run q \<noteq> rn_identity r
       then [(FcRunMismatch, [''request'', ''run_identity''],
              [run_value (rq_run q), run_value (rn_identity r)],
              ''request and run identities do not match'')] else []) @
      (if rq_prior q \<noteq> ss_identity s
       then [(FcRevisionConflict, [''request'', ''expected_prior_state_identity''],
              [state_value (rq_prior q), state_value (ss_identity s)],
              ''request expected a different prior state'')] else []) @
      (if rq_revision q \<noteq> rn_revision r
       then [(FcRevisionConflict, [''request'', ''expected_revision''],
              [dec_int (rq_revision q), dec_int (rn_revision r)],
              ''request expected a different run revision'')] else []) @
      (if is_terminal (rn_status r)
       then [(FcTerminalRun, [''run'', ''status''], [run_status_text (rn_status r)],
              ''terminal runs cannot apply later transitions'')] else []) @
      (if rq_operation q \<notin> set (wf_operations w)
       then [(FcUnknownOperation, [''request'', ''operation_identity''], [operation_value (rq_operation q)],
              ''requested operation is absent from the workflow definition'')] else []) @
      (if au_subject a \<noteq> rn_subject r
       then [(FcAuthoritySubjectMismatch, [''request'', ''authority_reference'', ''subject_identity''],
              [subject_value (au_subject a), subject_value (rn_subject r)],
              ''authority evidence applies to a different workflow subject'')] else []) @
      (if rq_operation q \<notin> set (au_operations a)
       then [(FcAuthorityScopeMismatch, [''request'', ''authority_reference'', ''operation_identities''],
              [operation_value (rq_operation q)],
              ''authority evidence does not cover the requested operation'')] else []) @
      concat (map (\<lambda>d.
        if dr_subject d \<noteq> rn_subject r
        then [(FcStateMismatch, [''request'', ''decision_references''],
               [decision_value (dr_identity d), subject_value (dr_subject d), subject_value (rn_subject r)],
               ''request decision applies to a different workflow subject'')] else []) (rq_decisions q)))"

definition validate_preflight :: "'a preflight_input_scheme \<Rightarrow> wf_finding list result" where
  "validate_preflight i = mapr add_finding (preflight_reports i)"

section \<open>Merging references\<close>

text \<open>The dictionary \<open>by_identity\<close> as the list of its values in insertion order.\<close>

fun merge_items :: "string \<Rightarrow> ('a \<Rightarrow> string) \<Rightarrow> 'a list \<Rightarrow> 'a list \<Rightarrow> 'a list result" where
  "merge_items msg key acc [] = Inr acc"
| "merge_items msg key acc (x # xs) =
     (case List.find (\<lambda>y. key y = key x) acc of
        None \<Rightarrow> merge_items msg key (acc @ [x]) xs
      | Some y \<Rightarrow> if y \<noteq> x then Inl (ValueError msg) else merge_items msg key acc xs)"

definition merge_by :: "string \<Rightarrow> ('a \<Rightarrow> string) \<Rightarrow> 'a list list \<Rightarrow> 'a list result" where
  "merge_by msg key xss = bindr (merge_items msg key [] (concat xss)) (\<lambda>acc. Inr (sort_key key acc))"

definition merge_artifacts :: "artifact list list \<Rightarrow> artifact list result" where
  "merge_artifacts = merge_by ''artifact identity collision'' (artifact_value \<circ> ar_identity)"

definition merge_decisions :: "decision list list \<Rightarrow> decision list result" where
  "merge_decisions = merge_by ''decision identity collision'' (decision_value \<circ> dr_identity)"

section \<open>Findings about the evidence\<close>

definition evidence_report :: "evidence \<Rightarrow> string \<Rightarrow> string \<Rightarrow> string \<Rightarrow> report" where
  "evidence_report e scope field message =
     (FcAdapterOutputInvalid, [scope, field], [evidence_value (ev_identity e)], message)"

definition adapter_reports :: "transition_input \<Rightarrow> evidence \<Rightarrow> report list" where
  "adapter_reports i e =
     (let w = pi_workflow i; r = pi_run i; s = pi_prior i; q = pi_request i; b = rq_bounds q in
      (if ev_workflow e \<noteq> wf_identity w \<or> ev_request e \<noteq> rq_identity q \<or> ev_prior e \<noteq> ss_identity s
       then [(FcAdapterEvidenceMismatch, [''adapter_evidence''],
              [evidence_value (ev_identity e), request_value (rq_identity q)],
              ''adapter evidence does not bind the exact transition input'')] else []) @
      (if ev_disposition e = AdapterEnabled \<and> int (length (ev_references e)) > rb_successors b
       then [evidence_report e ''adapter_evidence'' ''successor_state_references''
              ''adapter successor state exceeds request bounds''] else []) @
      (if int (length (ev_artifacts e)) > rb_artifacts b
       then [evidence_report e ''adapter_evidence'' ''produced_artifact_references''
              ''adapter artifact output exceeds request bounds''] else []) @
      (if int (length (ev_decisions e)) > rb_decisions b
       then [evidence_report e ''adapter_evidence'' ''recorded_decision_references''
              ''adapter decision output exceeds request bounds''] else []) @
      concat (map (\<lambda>d.
        if dr_subject d \<noteq> rn_subject r
        then [(FcAdapterOutputInvalid, [''adapter_evidence'', ''recorded_decision_references''],
               [decision_value (dr_identity d)],
               ''adapter decision applies to a different workflow subject'')] else []) (ev_decisions e)))"

definition merged_artifacts :: "transition_input \<Rightarrow> evidence \<Rightarrow> artifact list result" where
  "merged_artifacts i e =
     merge_artifacts [rn_artifacts (pi_run i), rq_artifacts (pi_request i), ev_artifacts e]"

definition merged_decisions :: "transition_input \<Rightarrow> evidence \<Rightarrow> decision list result" where
  "merged_decisions i e =
     merge_decisions [rn_decisions (pi_run i), rq_decisions (pi_request i), ev_decisions e]"

definition aggregate_reports :: "transition_input \<Rightarrow> evidence \<Rightarrow> report list result" where
  "aggregate_reports i e =
     (if ev_disposition e \<noteq> AdapterEnabled then Inr [] else
      bindr (merged_artifacts i e) (\<lambda>as.
      bindr (merged_decisions i e) (\<lambda>ds. Inr (
        (if length as > max_artifact_references
         then [evidence_report e ''successor_run'' ''artifact_references''
                ''successor artifact references exceed run bounds''] else []) @
        (if length ds > max_decision_references
         then [evidence_report e ''successor_run'' ''decision_references''
                ''successor decision references exceed run bounds''] else [])))))"

definition failure_reports :: "transition_input \<Rightarrow> failure \<Rightarrow> report list" where
  "failure_reports i f =
     (if if_request f \<noteq> rq_identity (pi_request i)
      then [(FcInfrastructureEvidenceMismatch, [''infrastructure_failure'', ''request_identity''],
             [request_value (if_request f), request_value (rq_identity (pi_request i))],
             ''infrastructure failure does not bind the exact request'')] else [])"

definition validate_evidence :: "transition_input \<Rightarrow> wf_finding list result" where
  "validate_evidence i =
     bindr (case ti_evidence i of
              None \<Rightarrow> Inr []
            | Some e \<Rightarrow>
                bindr (mapr add_finding (adapter_reports i e)) (\<lambda>fs.
                bindr (aggregate_reports i e) (\<lambda>rs.
                bindr (mapr add_finding rs) (\<lambda>gs. Inr (fs @ gs))))) (\<lambda>fs.
     bindr (case ti_failure i of None \<Rightarrow> Inr [] | Some f \<Rightarrow> mapr add_finding (failure_reports i f)) (\<lambda>gs.
     Inr (fs @ gs)))"

definition validate_transition :: "transition_input \<Rightarrow> wf_finding list result" where
  "validate_transition i =
     bindr (validate_preflight i) (\<lambda>fs. bindr (validate_evidence i) (\<lambda>gs. Inr (fs @ gs)))"

section \<open>Bounded results\<close>

definition bounded_findings :: "wf_finding list \<Rightarrow> wf_finding list result" where
  "bounded_findings fs =
     (if length fs \<le> max_findings then Inr fs
      else
        let retained = take (max_findings - 1) fs;
            omitted = length fs - length retained
        in bindr (create_finding FcFindingsTruncated [''validation'', ''findings'']
                    [dec_nat (length fs), dec_nat omitted]
                    (''validation retained '' @ dec_nat (length retained) @ '' findings and omitted '' @
                     dec_nat omitted @ '' additional findings'')) (\<lambda>f. Inr (retained @ [f])))"

definition validation_reasons :: "validation \<Rightarrow> string list" where
  "validation_reasons v =
     (let messages = map wfi_message (vr_findings v) in
      if length messages \<le> max_reasons then messages
      else
        let retained = take (max_reasons - 1) messages
        in retained @ [dec_nat (length messages - length retained) @
             '' additional validation reasons retained in the validation result''])"

text \<open>\<open>WorkflowTransitionValidator\<close>: the preflight before an adapter may act.\<close>

definition preflight :: "preflight_input \<Rightarrow> validation result" where
  "preflight i =
     bindr (validate_preflight i) (\<lambda>fs. bindr (bounded_findings fs) create_validation)"

section \<open>The successor\<close>

definition wf_successor :: "transition_input \<Rightarrow> evidence \<Rightarrow> (snapshot \<times> run) result" where
  "wf_successor i e =
     (let r = pi_run i; s = pi_prior i; q = pi_request i in
      case ev_status e of
        None \<Rightarrow> Inl AssertionError
      | Some st \<Rightarrow>
          bindr (create_snapshot (rn_identity r) (rn_workflow r) (rn_revision r + 1) st (ev_references e)
                   (Some (ss_identity s))) (\<lambda>s'.
          bindr (merged_artifacts i e) (\<lambda>as.
          bindr (merged_decisions i e) (\<lambda>ds.
          bindr (mk_run
             \<lparr>rn_identity = rn_identity r, rn_key = rn_key r, rn_workflow = rn_workflow r,
              rn_subject = rn_subject r, rn_state = ss_identity s', rn_revision = rn_revision r + 1,
              rn_status = st, rn_reasons = (if st = RunActive then [] else ev_reasons e),
              rn_artifacts = as, rn_decisions = ds, rn_parent = rn_parent r,
              rn_predecessor = rn_predecessor r, rn_version = core_version\<rparr>) (\<lambda>r'.
          Inr (s', r'))))))"

section \<open>The processor\<close>

text \<open>\<open>WorkflowTransitionOutcome.create\<close> with the arguments all branches share.\<close>

definition outcome_record :: "transition_input \<Rightarrow> validation \<Rightarrow> outcome_kind \<Rightarrow> evidence_id option \<Rightarrow>
    failure_id option \<Rightarrow> (snapshot \<times> run) option \<Rightarrow> string list \<Rightarrow> transition_outcome" where
  "outcome_record i v kind ev fl succ reasons =
     \<lparr>tx_identity = OutcomeId [], tx_kind = kind, tx_run = rn_identity (pi_run i),
      tx_request = rq_identity (pi_request i), tx_prior = ss_identity (pi_prior i),
      tx_revision = rn_revision (pi_run i), tx_validation = v, tx_evidence = ev, tx_failure = fl,
      tx_state = map_option fst succ, tx_successor = map_option snd succ, tx_reasons = reasons,
      tx_version = core_version\<rparr>"

definition decide :: "transition_input \<Rightarrow> validation \<Rightarrow> transition_outcome result" where
  "decide i v =
     (let codes = map wfi_code (vr_findings v);
          ev = map_option ev_identity (ti_evidence i); fl = map_option if_identity (ti_failure i)
      in if list_ex (\<lambda>c. c \<noteq> FcRevisionConflict) codes
      then create_outcome (outcome_record i v OutRejectedInvalid ev fl None (validation_reasons v))
      else if codes \<noteq> []
      then create_outcome (outcome_record i v OutConflict ev fl None (validation_reasons v))
      else case ti_failure i of
        Some f \<Rightarrow>
          create_outcome (outcome_record i v OutInfrastructureFailure None (Some (if_identity f)) None [if_message f])
      | None \<Rightarrow>
          (case ti_evidence i of
             None \<Rightarrow> Inl AssertionError
           | Some e \<Rightarrow>
               if ev_disposition e = AdapterNotEnabled
               then create_outcome (outcome_record i v OutNotEnabled (Some (ev_identity e)) None None (ev_reasons e))
               else if ev_disposition e = AdapterBlocked
               then create_outcome (outcome_record i v OutBlocked (Some (ev_identity e)) None None (ev_reasons e))
               else bindr (wf_successor i e) (\<lambda>succ.
                 create_outcome (outcome_record i v OutApplied (Some (ev_identity e)) None (Some succ) (ev_reasons e)))))"

record execution =
  ex_outcome :: transition_outcome
  ex_event :: audit_event

definition expected_evidence :: "transition_outcome \<Rightarrow> audit_reference list" where
  "expected_evidence x =
     AuditValidation (vr_identity (tx_validation x)) #
     (case tx_evidence x of None \<Rightarrow> [] | Some e \<Rightarrow> [AuditEvidence e]) @
     (case tx_failure x of None \<Rightarrow> [] | Some f \<Rightarrow> [AuditFailure f])"

definition event_revision :: "transition_outcome \<Rightarrow> int" where
  "event_revision x = (case tx_successor x of None \<Rightarrow> tx_revision x | Some r \<Rightarrow> rn_revision r)"

definition event_kind :: "transition_outcome \<Rightarrow> string" where
  "event_kind x = ''transition.'' @ outcome_kind_text (tx_kind x)"

definition mk_execution :: "transition_outcome \<Rightarrow> audit_event \<Rightarrow> execution result" where
  "mk_execution x a =
     require (\<not> (ae_run a \<noteq> tx_run x \<or> ae_revision a \<noteq> event_revision x \<or> ae_attempt a \<noteq> tx_request x \<or>
         ae_kind a \<noteq> event_kind x \<or>
         ae_subjects a \<noteq> [AuditRequest (tx_request x), AuditOutcome (tx_identity x)] \<or>
         ae_evidence a \<noteq> expected_evidence x))
       ''audit event is inconsistent with its outcome'' (Inr \<lparr>ex_outcome = x, ex_event = a\<rparr>)"

definition evidence_identities :: "transition_input \<Rightarrow> validation \<Rightarrow> audit_reference list" where
  "evidence_identities i v =
     AuditValidation (vr_identity v) #
     (case ti_evidence i of None \<Rightarrow> [] | Some e \<Rightarrow> [AuditEvidence (ev_identity e)]) @
     (case ti_failure i of None \<Rightarrow> [] | Some f \<Rightarrow> [AuditFailure (if_identity f)])"

definition process :: "transition_input \<Rightarrow> execution result" where
  "process i =
     bindr (validate_transition i) (\<lambda>fs.
     bindr (bounded_findings fs) (\<lambda>gs.
     bindr (create_validation gs) (\<lambda>v.
     bindr (decide i v) (\<lambda>x.
     bindr (create_audit (rn_identity (pi_run i))
              (case tx_successor x of None \<Rightarrow> rn_revision (pi_run i) | Some r \<Rightarrow> rn_revision r)
              (rq_identity (pi_request i)) (event_kind x)
              [AuditRequest (rq_identity (pi_request i)), AuditOutcome (tx_identity x)]
              (evidence_identities i v)) (\<lambda>a.
     mk_execution x a)))))"

section \<open>Replay\<close>

record replay_result =
  rp_identity :: replay_id
  rp_expected_outcome :: outcome_id
  rp_replayed_outcome :: outcome_id
  rp_expected_audit :: audit_id
  rp_replayed_audit :: audit_id
  rp_matches :: bool
  rp_version :: string

definition replay_identity :: "outcome_id \<Rightarrow> outcome_id \<Rightarrow> audit_id \<Rightarrow> audit_id \<Rightarrow> bool \<Rightarrow> replay_id" where
  "replay_identity eo ro ea ra m =
     ReplayId (stable_digest ''workflow-replay-result''
       [part_outcome eo, part_outcome ro, part_audit ea, part_audit ra, JBool m, JStr core_version])"

definition mk_replay :: "replay_result \<Rightarrow> replay_result result" where
  "mk_replay p =
     contract_version (rp_version p)
    (require (rp_identity p = replay_identity (rp_expected_outcome p) (rp_replayed_outcome p)
        (rp_expected_audit p) (rp_replayed_audit p) (rp_matches p))
      ''replay result identity is inconsistent'' (Inr p))"

definition create_replay :: "execution \<Rightarrow> execution \<Rightarrow> replay_result result" where
  "create_replay expected replayed =
     (let eo = tx_identity (ex_outcome expected); ro = tx_identity (ex_outcome replayed);
          ea = ae_identity (ex_event expected); ra = ae_identity (ex_event replayed);
          m = (expected = replayed)
      in mk_replay \<lparr>rp_identity = replay_identity eo ro ea ra m, rp_expected_outcome = eo,
           rp_replayed_outcome = ro, rp_expected_audit = ea, rp_replayed_audit = ra, rp_matches = m,
           rp_version = core_version\<rparr>)"

definition wf_replay :: "transition_input \<Rightarrow> execution \<Rightarrow> replay_result result" where
  "wf_replay i expected = bindr (process i) (\<lambda>replayed. create_replay expected replayed)"

text \<open>
  Facts about the parts of the processor: merged collections are canonical unions, every report of
  the validators can be constructed, and the bounded results stay within their limits.
\<close>

section \<open>Merged collections\<close>

lemma merge_items_Inr:
  assumes "merge_items msg key acc xs = Inr ys" "distinct (map key acc)"
  shows "set ys = set acc \<union> set xs \<and> distinct (map key ys)"
  using assms
proof (induction xs arbitrary: acc)
  case (Cons x xs)
  show ?case
  proof (cases "List.find (\<lambda>y. key y = key x) acc")
    case None
    then have "key x \<notin> set (map key acc)" by (auto simp: find_None_iff)
    then show ?thesis using Cons.IH [of "acc @ [x]"] Cons.prems None by auto
  next
    case (Some y)
    then have "y \<in> set acc" by (auto simp: find_Some_iff)
    then show ?thesis using Cons.IH [of acc] Cons.prems Some by (auto split: if_splits)
  qed
qed simp

lemma merge_items_Inl:
  assumes "merge_items msg key acc xs = Inl e" "distinct (map key acc)"
  shows "e = ValueError msg \<and> (\<exists>x \<in> set acc \<union> set xs. \<exists>y \<in> set acc \<union> set xs. x \<noteq> y \<and> key x = key y)"
  using assms
proof (induction xs arbitrary: acc)
  case (Cons x xs)
  show ?case
  proof (cases "List.find (\<lambda>y. key y = key x) acc")
    case None
    then have "key x \<notin> set (map key acc)" by (auto simp: find_None_iff)
    then show ?thesis using Cons.IH [of "acc @ [x]"] Cons.prems None by auto
  next
    case (Some y)
    then have y: "y \<in> set acc" "key y = key x" by (auto simp: find_Some_iff)
    show ?thesis
    proof (cases "y = x")
      case True
      then show ?thesis using Cons.IH [of acc] Cons.prems Some by auto
    next
      case False
      then show ?thesis using y Cons.prems Some by auto
    qed
  qed
qed simp

lemma canonical_unique:
  assumes "canonical key xs" "canonical key ys" "set xs = set ys"
  shows "xs = ys"
proof -
  have "map key xs = map key ys"
    using assms by (intro sorted_distinct_set_unique) (simp_all add: canonical_def)
  moreover have "inj_on key (set xs \<union> set ys)"
    using assms by (simp add: canonical_def distinct_map)
  ultimately show ?thesis by (simp add: inj_on_map_eq_map)
qed

lemma merge_by_Inr:
  "merge_by msg key xss = Inr ys \<longleftrightarrow>
     inj_on key (set (concat xss)) \<and> canonical key ys \<and> set ys = set (concat xss)"
proof -
  have onw: "inj_on key (set (concat xss)) \<and> canonical key ys \<and> set ys = set (concat xss)"
    if "merge_by msg key xss = Inr ys" for ys
  proof -
    obtain acc where acc: "merge_items msg key [] (concat xss) = Inr acc" "ys = sort_key key acc"
      using \<open>merge_by msg key xss = Inr ys\<close> by (auto simp: merge_by_def bindr_Inr_iff)
    have s: "set acc = set (concat xss)" "distinct (map key acc)"
      using merge_items_Inr [OF acc(1)] by simp_all
    then show ?thesis using canonical_sort_key [OF s(2)] by (auto simp: acc(2) distinct_map)
  qed
  have "\<exists>zs. merge_by msg key xss = Inr zs" if "inj_on key (set (concat xss))"
  proof (cases "merge_items msg key [] (concat xss)")
    case (Inl e)
    then show ?thesis using merge_items_Inl [OF Inl] that by (auto simp: inj_on_def)
  qed (simp add: merge_by_def)
  then show ?thesis using onw canonical_unique by blast
qed

lemma merge_by_Inl:
  assumes "merge_by msg key xss = Inl e"
  shows "e = ValueError msg \<and> (\<exists>x \<in> set (concat xss). \<exists>y \<in> set (concat xss). x \<noteq> y \<and> key x = key y)"
  using assms merge_items_Inl [of msg key "[]" "concat xss" e]
  by (cases "merge_items msg key [] (concat xss)") (simp_all add: merge_by_def)

section \<open>Reports can be constructed\<close>

definition core_id :: "string \<Rightarrow> bool" where
  "core_id s \<longleftrightarrow> bounded max_identity_characters s"

lemma core_id_digest: "core_id (stable_digest d ps)"
  using digest_chars [OF stable_digest_spelling [of d ps]] py_len_le [of "stable_digest d ps"]
  by (simp add: core_id_def bounded_def max_identity_characters_def)

lemma boundedI: "s \<noteq> [] \<Longrightarrow> length s \<le> n \<Longrightarrow> bounded n s"
  using py_len_le [of s] by (simp add: bounded_def)

lemma core_id_message: "core_id s \<Longrightarrow> bounded max_message_characters s"
  by (simp add: core_id_def bounded_def max_identity_characters_def max_message_characters_def)

definition report_ok :: "report \<Rightarrow> bool" where
  "report_ok = (\<lambda>(code, path, related, message).
     string_tuple_ok False path \<and> string_tuple_ok True related \<and> bounded max_message_characters message)"

definition report_finding :: "report \<Rightarrow> wf_finding" where
  "report_finding = (\<lambda>(code, path, related, message). finding_of code path related message)"

lemma add_finding_ok: "report_ok x \<Longrightarrow> add_finding x = Inr (report_finding x)"
  by (cases x) (simp add: add_finding_def report_ok_def report_finding_def create_finding_ok)

lemma mapr_add_finding: "list_all report_ok xs \<Longrightarrow> mapr add_finding xs = Inr (map report_finding xs)"
  by (rule mapr_ok_map) (simp add: add_finding_ok list_all_iff)

lemma report_finding_fields [simp]:
  "wfi_code (report_finding x) = fst x"
  "wfi_message (report_finding x) = snd (snd (snd x))"
  by (cases x, simp add: report_finding_def finding_of_def)+

lemma report_okI:
  assumes "path \<noteq> []" "length path \<le> 4" "list_all (\<lambda>s. s \<noteq> [] \<and> length s \<le> 100) path"
    and "length related \<le> 4" "list_all (bounded max_message_characters) related"
    and "message \<noteq> []" "length message \<le> 200"
  shows "report_ok (code, path, related, message)"
proof -
  have "list_all (bounded max_message_characters) path"
    using assms(3) by (auto simp: list_all_iff max_message_characters_def intro!: boundedI)
  moreover have "bounded max_message_characters message"
    using assms by (intro boundedI) (simp_all add: max_message_characters_def)
  ultimately show ?thesis
    using assms by (simp add: report_ok_def string_tuple_ok_def max_state_references_def)
qed

lemma list_all_if: "list_all P (if b then [x] else []) \<longleftrightarrow> (b \<longrightarrow> P x)"
  by simp

lemma list_all_concat_if: "list_all P (concat (map (\<lambda>d. if q d then [f d] else []) xs)) \<longleftrightarrow> (\<forall>d \<in> set xs. q d \<longrightarrow> P (f d))"
  by (induction xs) auto

text \<open>Integers and statuses print as short strings.\<close>

lemma length_dec_nat: "length (dec_nat n) \<le> Suc n"
proof (induction n rule: dec_nat.induct)
  case (1 n)
  then show ?case
    by (subst dec_nat.simps) (auto simp: not_less intro: order_trans [OF add_right_mono])
qed

end
