(* ===== verification/Core_Reports.thy ===== *)
theory Core_Reports
  imports Core_Processing
begin

text \<open>
  The specification of the transition processor: when its records agree, which outcome each input
  has, and the proof that the processor always returns that outcome.
\<close>

section \<open>Well-formed inputs\<close>

text \<open>
  The records come from their constructors, so they carry consistent content identities; the
  remaining identities are bounded strings.  Revisions have at most 4300 digits, the limit beyond
  which Python refuses to print an integer.
\<close>

definition printable :: "int \<Rightarrow> bool" where
  "printable v \<longleftrightarrow> length (dec_int v) \<le> 4300"

definition decision_ids_ok :: "decision \<Rightarrow> bool" where
  "decision_ids_ok d \<longleftrightarrow> decision_ok d \<and> core_id (subject_value (dr_subject d))"

definition preflight_ok :: "'a preflight_input_scheme \<Rightarrow> bool" where
  "preflight_ok i \<longleftrightarrow>
     workflow_ok (pi_workflow i) \<and> run_ok (pi_run i) \<and> snapshot_ok (pi_prior i) \<and>
     request_ok (pi_request i) \<and> authority_ok (rq_authority (pi_request i)) \<and> bounds_ok (rq_bounds (pi_request i)) \<and>
     core_id (workflow_value (rn_workflow (pi_run i))) \<and> core_id (workflow_value (ss_workflow (pi_prior i))) \<and>
     core_id (run_value (ss_run (pi_prior i))) \<and> core_id (run_value (rq_run (pi_request i))) \<and>
     core_id (state_value (rn_state (pi_run i))) \<and> core_id (state_value (rq_prior (pi_request i))) \<and>
     core_id (operation_value (rq_operation (pi_request i))) \<and>
     core_id (subject_value (au_subject (rq_authority (pi_request i)))) \<and>
     core_id (subject_value (rn_subject (pi_run i))) \<and>
     printable (rq_revision (pi_request i)) \<and> printable (rn_revision (pi_run i)) \<and>
     (\<forall>a \<in> set (rn_artifacts (pi_run i)) \<union> set (rq_artifacts (pi_request i)). artifact_ok a) \<and>
     (\<forall>d \<in> set (rn_decisions (pi_run i)) \<union> set (rq_decisions (pi_request i)). decision_ids_ok d)"

definition input_ok :: "transition_input \<Rightarrow> bool" where
  "input_ok i \<longleftrightarrow> preflight_ok i \<and> (ti_evidence i = None) \<noteq> (ti_failure i = None) \<and>
     (\<forall>e. ti_evidence i = Some e \<longrightarrow> evidence_ok e \<and> (\<forall>a \<in> set (ev_artifacts e). artifact_ok a) \<and>
        (\<forall>d \<in> set (ev_decisions e). decision_ids_ok d)) \<and>
     (\<forall>f. ti_failure i = Some f \<longrightarrow> failure_ok f \<and> core_id (request_value (if_request f)))"

section \<open>Agreement\<close>

definition records_agree :: "'a preflight_input_scheme \<Rightarrow> bool" where
  "records_agree i \<longleftrightarrow>
     (let w = pi_workflow i; r = pi_run i; s = pi_prior i; q = pi_request i; a = rq_authority q in
      rn_workflow r = wf_identity w \<and> run_state_agree r s \<and> rq_run q = rn_identity r \<and>
      \<not> is_terminal (rn_status r) \<and> rq_operation q \<in> set (wf_operations w) \<and>
      au_subject a = rn_subject r \<and> rq_operation q \<in> set (au_operations a) \<and>
      (\<forall>d \<in> set (rq_decisions q). dr_subject d = rn_subject r))"

definition request_current :: "'a preflight_input_scheme \<Rightarrow> bool" where
  "request_current i \<longleftrightarrow> rq_prior (pi_request i) = ss_identity (pi_prior i) \<and>
     rq_revision (pi_request i) = rn_revision (pi_run i)"

definition all_artifacts :: "transition_input \<Rightarrow> evidence \<Rightarrow> artifact set" where
  "all_artifacts i e = set (rn_artifacts (pi_run i)) \<union> set (rq_artifacts (pi_request i)) \<union> set (ev_artifacts e)"

definition all_decisions :: "transition_input \<Rightarrow> evidence \<Rightarrow> decision set" where
  "all_decisions i e = set (rn_decisions (pi_run i)) \<union> set (rq_decisions (pi_request i)) \<union> set (ev_decisions e)"

definition evidence_agrees :: "transition_input \<Rightarrow> evidence \<Rightarrow> bool" where
  "evidence_agrees i e \<longleftrightarrow>
     (let q = pi_request i; b = rq_bounds q; enabled = (ev_disposition e = AdapterEnabled) in
      ev_workflow e = wf_identity (pi_workflow i) \<and> ev_request e = rq_identity q \<and>
      ev_prior e = ss_identity (pi_prior i) \<and>
      (enabled \<longrightarrow> int (length (ev_references e)) \<le> rb_successors b) \<and>
      int (length (ev_artifacts e)) \<le> rb_artifacts b \<and> int (length (ev_decisions e)) \<le> rb_decisions b \<and>
      (\<forall>d \<in> set (ev_decisions e). dr_subject d = rn_subject (pi_run i)) \<and>
      (enabled \<longrightarrow> card (all_artifacts i e) \<le> max_artifact_references \<and>
         card (all_decisions i e) \<le> max_decision_references))"

definition inputs_agree :: "transition_input \<Rightarrow> bool" where
  "inputs_agree i \<longleftrightarrow> records_agree i \<and>
     (\<forall>e. ti_evidence i = Some e \<longrightarrow> evidence_agrees i e) \<and>
     (\<forall>f. ti_failure i = Some f \<longrightarrow> if_request f = rq_identity (pi_request i))"

definition verdict :: "transition_input \<Rightarrow> outcome_kind" where
  "verdict i =
     (if \<not> inputs_agree i then OutRejectedInvalid
      else if \<not> request_current i then OutConflict
      else case ti_evidence i of
        None \<Rightarrow> OutInfrastructureFailure
      | Some e \<Rightarrow>
          (case ev_disposition e of
             AdapterEnabled \<Rightarrow> OutApplied
           | AdapterNotEnabled \<Rightarrow> OutNotEnabled
           | AdapterBlocked \<Rightarrow> OutBlocked))"

text \<open>
  Identities are digests of contents: two different references with one identity are a collision
  of the texts that are digested.
\<close>

definition artifact_text :: "artifact \<Rightarrow> string" where
  "artifact_text a = stable_text ''workflow-artifact-reference''
     [part_external (ar_artifact a), JStr (ar_kind a), JStr (ar_digest a), JStr (ar_role a),
      part_artifact_disposition (ar_disposition a), part_external (ar_provenance a), JStr core_version]"

definition decision_text :: "decision \<Rightarrow> string" where
  "decision_text d = stable_text ''workflow-decision-reference''
     [JStr (dr_kind d), JStr (dr_scope d), part_subject (dr_subject d), part_external (dr_authority d),
      JStr (dr_outcome d), part_external (dr_evidence d), JStr (dr_decision_version d), JStr core_version]"

definition colliding :: "transition_input \<Rightarrow> bool" where
  "colliding i \<longleftrightarrow> (\<exists>e. ti_evidence i = Some e \<and>
     ((\<exists>a \<in> all_artifacts i e. \<exists>b \<in> all_artifacts i e. sha256_collision (artifact_text a) (artifact_text b)) \<or>
      (\<exists>c \<in> all_decisions i e. \<exists>d \<in> all_decisions i e. sha256_collision (decision_text c) (decision_text d))))"

lemma artifact_text_eqD:
  "artifact_text a = artifact_text b \<Longrightarrow>
     ar_artifact a = ar_artifact b \<and> ar_kind a = ar_kind b \<and> ar_digest a = ar_digest b \<and> ar_role a = ar_role b \<and>
     ar_disposition a = ar_disposition b \<and> ar_provenance a = ar_provenance b"
  unfolding artifact_text_def
  by (drule stable_text_eqD) (simp add: part_external.eq_iff part_artifact_disposition.eq_iff)

lemma decision_text_eqD:
  "decision_text a = decision_text b \<Longrightarrow>
     dr_kind a = dr_kind b \<and> dr_scope a = dr_scope b \<and> dr_subject a = dr_subject b \<and> dr_authority a = dr_authority b \<and>
     dr_outcome a = dr_outcome b \<and> dr_evidence a = dr_evidence b \<and> dr_decision_version a = dr_decision_version b"
  unfolding decision_text_def
  by (drule stable_text_eqD) (simp add: part_external.eq_iff part_subject.eq_iff)

lemma artifact_text_digest: "artifact_ok a \<Longrightarrow> artifact_value (ar_identity a) = sha256_hex (artifact_text a)"
  by (simp add: artifact_ok_def artifact_reference_identity_def stable_digest_def artifact_text_def)

lemma decision_text_digest: "decision_ok d \<Longrightarrow> decision_value (dr_identity d) = sha256_hex (decision_text d)"
  by (simp add: decision_ok_def decision_reference_identity_def stable_digest_def decision_text_def)

lemma artifact_identity_eqD:
  assumes ok: "artifact_ok a" "artifact_ok b" and eq: "ar_identity a = ar_identity b"
  shows "a = b \<or> sha256_collision (artifact_text a) (artifact_text b)"
proof (cases "artifact_text a = artifact_text b")
  case True
  have v: "ar_version a = ar_version b" using ok by (simp add: artifact_ok_def)
  from artifact_text_eqD [OF True] have "a = b"
    by (elim conjE) (rule artifact.equality, rule eq, assumption+, rule v, simp)
  then show ?thesis ..
next
  case False
  then show ?thesis
    using artifact_text_digest [OF ok(1)] artifact_text_digest [OF ok(2)] by (simp add: sha256_collision_def eq)
qed

lemma decision_identity_eqD:
  assumes ok: "decision_ok a" "decision_ok b" and eq: "dr_identity a = dr_identity b"
  shows "a = b \<or> sha256_collision (decision_text a) (decision_text b)"
proof (cases "decision_text a = decision_text b")
  case True
  have v: "dr_version a = dr_version b" using ok by (simp add: decision_ok_def)
  from decision_text_eqD [OF True] have "a = b"
    by (elim conjE) (rule decision.equality, rule eq, assumption+, rule v, simp)
  then show ?thesis ..
next
  case False
  then show ?thesis
    using decision_text_digest [OF ok(1)] decision_text_digest [OF ok(2)] by (simp add: sha256_collision_def eq)
qed

lemma collision_free:
  assumes "input_ok i" "\<not> colliding i" "ti_evidence i = Some e"
  shows "inj_on (artifact_value \<circ> ar_identity) (all_artifacts i e)"
    "inj_on (decision_value \<circ> dr_identity) (all_decisions i e)"
proof -
  have "artifact_ok a" if "a \<in> all_artifacts i e" for a
    using assms(1,3) that by (auto simp: input_ok_def preflight_ok_def all_artifacts_def)
  then have "a = b" if "a \<in> all_artifacts i e" "b \<in> all_artifacts i e" "ar_identity a = ar_identity b" for a b
    using artifact_identity_eqD [of a b] that assms(2,3) by (auto simp: colliding_def)
  then show "inj_on (artifact_value \<circ> ar_identity) (all_artifacts i e)"
    by (intro inj_onI) (simp add: artifact_id.expand)
  have "decision_ok d" if "d \<in> all_decisions i e" for d
    using assms(1,3) that by (auto simp: input_ok_def preflight_ok_def all_decisions_def decision_ids_ok_def)
  then have "c = d" if "c \<in> all_decisions i e" "d \<in> all_decisions i e" "dr_identity c = dr_identity d" for c d
    using decision_identity_eqD [of c d] that assms(2,3) by (auto simp: colliding_def)
  then show "inj_on (decision_value \<circ> dr_identity) (all_decisions i e)"
    by (intro inj_onI) (simp add: decision_id.expand)
qed

section \<open>Reports\<close>

lemma printable_message: "printable v \<Longrightarrow> bounded max_message_characters (dec_int v)"
proof -
  assume "printable v"
  moreover have "dec_int v \<noteq> []" using dec_int_Cons [of v] by auto
  ultimately show ?thesis by (intro boundedI) (simp_all add: printable_def max_message_characters_def)
qed

lemma status_message: "bounded max_message_characters (run_status_text st)"
  by (rule boundedI) (cases st; simp add: max_message_characters_def)+

lemma preflight_reports_ok:
  assumes "preflight_ok i"
  shows "list_all report_ok (preflight_reports i)"
proof -
  have ids: "core_id (workflow_value (wf_identity (pi_workflow i)))" "core_id (run_value (rn_identity (pi_run i)))"
      "core_id (state_value (ss_identity (pi_prior i)))"
    using assms by (auto simp: preflight_ok_def workflow_ok_def workflow_reference_identity_def run_ok_def
        run_digest_def snapshot_ok_def state_snapshot_identity_def core_id_digest)
  have decs: "core_id (decision_value (dr_identity d))" "core_id (subject_value (dr_subject d))"
    if "d \<in> set (rq_decisions (pi_request i))" for d
    using assms that by (auto simp: preflight_ok_def decision_ids_ok_def decision_ok_def
        decision_reference_identity_def core_id_digest)
  have p: "core_id (workflow_value (rn_workflow (pi_run i)))" "core_id (workflow_value (ss_workflow (pi_prior i)))"
     "core_id (run_value (ss_run (pi_prior i)))" "core_id (run_value (rq_run (pi_request i)))"
     "core_id (state_value (rn_state (pi_run i)))" "core_id (state_value (rq_prior (pi_request i)))"
     "core_id (operation_value (rq_operation (pi_request i)))"
     "core_id (subject_value (au_subject (rq_authority (pi_request i))))"
     "core_id (subject_value (rn_subject (pi_run i)))"
     "printable (rq_revision (pi_request i))" "printable (rn_revision (pi_run i))"
    using assms by (simp_all add: preflight_ok_def)
  note b = ids [THEN core_id_message] p(1-9) [THEN core_id_message] p(10,11) [THEN printable_message] status_message
  show ?thesis
    unfolding preflight_reports_def Let_def list_all_append list_all_if list_all_concat_if
    by (intro conjI impI ballI report_okI) (simp_all add: b decs [THEN core_id_message])
qed

text \<open>
  What the validators report on well-formed inputs: their findings can always be constructed, one
  of them is no revision conflict exactly when the records disagree, and there is none exactly
  when the records agree and the request is current.
\<close>

section \<open>Evidence reports\<close>

lemma length_if: "length (if b then [x] else []) \<le> 1"
  by simp

lemma append_le: "length xs \<le> m \<Longrightarrow> length ys \<le> n \<Longrightarrow> length (xs @ ys) \<le> m + n"
  by simp

lemma length_concat_if: "length (concat (map (\<lambda>d. if q d then [f d] else []) xs)) \<le> length xs"
  by (induction xs) auto

lemma list_ex_if: "list_ex P (if b then [x] else []) \<longleftrightarrow> b \<and> P x"
  by simp

lemma list_ex_concat_if: "list_ex P (concat (map (\<lambda>d. if q d then [f d] else []) xs)) \<longleftrightarrow> (\<exists>d \<in> set xs. q d \<and> P (f d))"
  by (induction xs) auto

lemma concat_if_Nil: "concat (map (\<lambda>d. if q d then [f d] else []) xs) = [] \<longleftrightarrow> (\<forall>d \<in> set xs. \<not> q d)"
  by auto

lemma evidence_core_id: "evidence_ok e \<Longrightarrow> core_id (evidence_value (ev_identity e))"
  by (auto simp: evidence_ok_def adapter_evidence_identity_def core_id_digest)

lemma request_core_id: "request_ok q \<Longrightarrow> core_id (request_value (rq_identity q))"
  by (auto simp: request_ok_def transition_request_identity_def core_id_digest)

lemma adapter_reports_ok:
  assumes "input_ok i" "ti_evidence i = Some e"
  shows "list_all report_ok (adapter_reports i e)"
proof -
  have e: "evidence_ok e" and q: "request_ok (pi_request i)"
    using assms by (auto simp: input_ok_def preflight_ok_def)
  have d: "core_id (decision_value (dr_identity d))" if "d \<in> set (ev_decisions e)" for d
    using assms that by (auto simp: input_ok_def decision_ids_ok_def decision_ok_def
        decision_reference_identity_def core_id_digest)
  note b = core_id_message [OF evidence_core_id [OF e]] core_id_message [OF request_core_id [OF q]]
  show ?thesis
    unfolding adapter_reports_def Let_def list_all_append list_all_if list_all_concat_if evidence_report_def
    by (intro conjI impI ballI report_okI) (simp_all add: b d [THEN core_id_message])
qed

lemma failure_reports_ok:
  assumes "input_ok i" "ti_failure i = Some f"
  shows "list_all report_ok (failure_reports i f)"
proof -
  have f: "core_id (request_value (if_request f))" and q: "request_ok (pi_request i)"
    using assms by (auto simp: input_ok_def preflight_ok_def)
  note b = core_id_message [OF f] core_id_message [OF request_core_id [OF q]]
  show ?thesis
    unfolding failure_reports_def list_all_if by (intro impI report_okI) (simp_all add: b)
qed

lemma merged_collections:
  assumes "input_ok i" "\<not> colliding i" "ti_evidence i = Some e"
  obtains as ds where "merged_artifacts i e = Inr as" "set as = all_artifacts i e"
    "canonical (artifact_value \<circ> ar_identity) as" "length as = card (all_artifacts i e)"
    "merged_decisions i e = Inr ds" "set ds = all_decisions i e"
    "canonical (decision_value \<circ> dr_identity) ds" "length ds = card (all_decisions i e)"
proof -
  have s: "set (concat [rn_artifacts (pi_run i), rq_artifacts (pi_request i), ev_artifacts e]) = all_artifacts i e"
    "set (concat [rn_decisions (pi_run i), rq_decisions (pi_request i), ev_decisions e]) = all_decisions i e"
    by (auto simp: all_artifacts_def all_decisions_def)
  have ok: "\<exists>ys. merge_by msg key xss = Inr ys \<and> set ys = set (concat xss) \<and> canonical key ys \<and> length ys = card (set (concat xss))"
    if "inj_on key (set (concat xss))" for msg and key :: "'x \<Rightarrow> string" and xss
  proof (cases "merge_by msg key xss")
    case (Inl err)
    then show ?thesis using merge_by_Inl [OF Inl] that by (auto simp: inj_on_def)
  next
    case (Inr ys)
    then have "set ys = set (concat xss)" "canonical key ys" by (simp_all add: merge_by_Inr)
    moreover from this have "length ys = card (set (concat xss))"
      by (metis canonical_distinct distinct_card)
    ultimately show ?thesis using Inr by blast
  qed
  obtain as where "merged_artifacts i e = Inr as" "set as = all_artifacts i e"
    "canonical (artifact_value \<circ> ar_identity) as" "length as = card (all_artifacts i e)"
    using ok [OF collision_free(1) [OF assms, folded s(1)]] unfolding s merged_artifacts_def merge_artifacts_def by blast
  moreover obtain ds where "merged_decisions i e = Inr ds" "set ds = all_decisions i e"
    "canonical (decision_value \<circ> dr_identity) ds" "length ds = card (all_decisions i e)"
    using ok [OF collision_free(2) [OF assms, folded s(2)]] unfolding s merged_decisions_def merge_decisions_def by blast
  ultimately show ?thesis by (rule that)
qed

lemma aggregate_reports_result:
  assumes "input_ok i" "\<not> colliding i" "ti_evidence i = Some e"
  obtains rs where "aggregate_reports i e = Inr rs" "list_all report_ok rs" "length rs \<le> 2"
    "list_all (\<lambda>r. fst r \<noteq> FcRevisionConflict) rs"
    "rs = [] \<longleftrightarrow> (ev_disposition e = AdapterEnabled \<longrightarrow>
       card (all_artifacts i e) \<le> max_artifact_references \<and> card (all_decisions i e) \<le> max_decision_references)"
proof (cases "ev_disposition e = AdapterEnabled")
  case True
  have b: "bounded max_message_characters (evidence_value (ev_identity e))"
    using assms evidence_core_id [of e] core_id_message by (auto simp: input_ok_def)
  obtain as ds where m: "merged_artifacts i e = Inr as" "length as = card (all_artifacts i e)"
      "merged_decisions i e = Inr ds" "length ds = card (all_decisions i e)"
    by (rule merged_collections [OF assms])
  let ?rs = "(if length as > max_artifact_references
         then [evidence_report e ''successor_run'' ''artifact_references''
                ''successor artifact references exceed run bounds''] else []) @
        (if length ds > max_decision_references
         then [evidence_report e ''successor_run'' ''decision_references''
                ''successor decision references exceed run bounds''] else [])"
  have a: "aggregate_reports i e = Inr ?rs" by (simp add: aggregate_reports_def True m)
  have ok: "list_all report_ok ?rs"
    unfolding list_all_append list_all_if evidence_report_def
    by (intro conjI impI report_okI) (simp_all add: b)
  have c: "list_all (\<lambda>r. fst r \<noteq> FcRevisionConflict) ?rs" by (simp add: evidence_report_def)
  show ?thesis
    by (rule that [OF a ok _ c]) (auto simp: True m)
qed (simp add: that aggregate_reports_def)

section \<open>All reports of a transition\<close>

lemma preflight_agreement:
  "list_ex (\<lambda>x. fst x \<noteq> FcRevisionConflict) (preflight_reports i) \<longleftrightarrow> \<not> records_agree i"
  unfolding preflight_reports_def Let_def list_ex_append list_ex_if list_ex_concat_if records_agree_def
    run_state_agree_def by auto

lemma preflight_agreed:
  assumes "records_agree i"
  shows "length (preflight_reports i) \<le> 2" "preflight_reports i = [] \<longleftrightarrow> request_current i"
proof -
  note r = assms [unfolded records_agree_def run_state_agree_def Let_def]
  have c: "concat (map (\<lambda>d. if dr_subject d \<noteq> rn_subject (pi_run i) then [f d] else []) (rq_decisions (pi_request i))) = []"
    for f :: "decision \<Rightarrow> report"
    using r by (simp add: concat_if_Nil)
  show "length (preflight_reports i) \<le> 2" "preflight_reports i = [] \<longleftrightarrow> request_current i"
    using r by (auto simp: preflight_reports_def Let_def request_current_def c)
qed

lemma preflight_length: "length (preflight_reports i) \<le> 11 + length (rq_decisions (pi_request i))"
  unfolding preflight_reports_def Let_def
  by (rule order_trans, (rule append_le, rule length_if)+, rule length_concat_if, simp)

lemma adapter_agreement:
  "list_all (\<lambda>x. fst x \<noteq> FcRevisionConflict) (adapter_reports i e)"
  "adapter_reports i e = [] \<longleftrightarrow>
     ev_workflow e = wf_identity (pi_workflow i) \<and> ev_request e = rq_identity (pi_request i) \<and>
     ev_prior e = ss_identity (pi_prior i) \<and>
     (ev_disposition e = AdapterEnabled \<longrightarrow> int (length (ev_references e)) \<le> rb_successors (rq_bounds (pi_request i))) \<and>
     int (length (ev_artifacts e)) \<le> rb_artifacts (rq_bounds (pi_request i)) \<and>
     int (length (ev_decisions e)) \<le> rb_decisions (rq_bounds (pi_request i)) \<and>
     (\<forall>d \<in> set (ev_decisions e). dr_subject d = rn_subject (pi_run i))"
  unfolding adapter_reports_def Let_def by (auto simp: evidence_report_def list_all_iff)

lemma adapter_length: "length (adapter_reports i e) \<le> 4 + length (ev_decisions e)"
  unfolding adapter_reports_def Let_def
  by (rule order_trans, (rule append_le, rule length_if)+, rule length_concat_if, simp)

end
