(* ===== verification/Core_Process.thy ===== *)
theory Core_Process
  imports Core_Reports
begin

text \<open>
  The processor returns the outcome of the specification: the findings classify the input, the
  outcome record of the chosen branch passes its constructor, and so does the audit event.
\<close>

section \<open>The validation of a transition\<close>

lemma report_messages:
  "list_all report_ok rs \<Longrightarrow> list_all (bounded max_message_characters) (map wfi_message (map report_finding rs))"
  by (auto simp: list_all_iff report_ok_def)

lemma report_codes:
  "list_ex (\<lambda>f. P (wfi_code f)) (map report_finding rs) \<longleftrightarrow> list_ex (\<lambda>r. P (fst r)) rs"
  by (induction rs) simp_all

lemma validate_transition_result:
  assumes ok: "input_ok i" and nc: "\<not> colliding i"
  obtains fs where "validate_transition i = Inr fs"
    "list_all (bounded max_message_characters) (map wfi_message fs)" "length fs \<le> 3000"
    "list_ex (\<lambda>f. wfi_code f \<noteq> FcRevisionConflict) fs \<longleftrightarrow> \<not> inputs_agree i"
    "inputs_agree i \<Longrightarrow> (fs = [] \<longleftrightarrow> request_current i) \<and> length fs \<le> 2"
proof -
  note result = that
  have p: "preflight_ok i" using ok by (simp add: input_ok_def)
  have dq: "length (rq_decisions (pi_request i)) \<le> 1024"
    using p by (auto simp: preflight_ok_def request_ok_def request_collections_ok_def decisions_ok_def
        max_decision_references_def)
  have pre: "length (preflight_reports i) \<le> 1035" using preflight_length [of i] dq by simp
  note pr = preflight_reports_ok [OF p]
  have goal: thesis
    if rs: "validate_evidence i = Inr (map report_finding rs)" "list_all report_ok rs" "length rs \<le> 1900"
      "list_all (\<lambda>r. fst r \<noteq> FcRevisionConflict) rs" "rs = [] \<longleftrightarrow>
        (\<forall>e. ti_evidence i = Some e \<longrightarrow> evidence_agrees i e) \<and>
        (\<forall>f. ti_failure i = Some f \<longrightarrow> if_request f = rq_identity (pi_request i))" for rs
  proof (rule result [of "map report_finding (preflight_reports i @ rs)"])
    show "validate_transition i = Inr (map report_finding (preflight_reports i @ rs))"
      by (simp add: validate_transition_def validate_preflight_def mapr_add_finding [OF pr] rs(1))
    show "list_all (bounded max_message_characters) (map wfi_message (map report_finding (preflight_reports i @ rs)))"
      by (rule report_messages) (simp add: pr rs(2))
    show "length (map report_finding (preflight_reports i @ rs)) \<le> 3000" using pre rs(3) by simp
    have e: "list_ex (\<lambda>r. fst r \<noteq> FcRevisionConflict) rs \<longleftrightarrow> rs \<noteq> []"
      using rs(4) by (cases rs) auto
    show agree: "list_ex (\<lambda>f. wfi_code f \<noteq> FcRevisionConflict) (map report_finding (preflight_reports i @ rs)) \<longleftrightarrow>
        \<not> inputs_agree i"
      unfolding report_codes [of "\<lambda>c. c \<noteq> FcRevisionConflict"] list_ex_append preflight_agreement e rs(5) inputs_agree_def by blast
    show "(map report_finding (preflight_reports i @ rs) = [] \<longleftrightarrow> request_current i) \<and>
        length (map report_finding (preflight_reports i @ rs)) \<le> 2" if "inputs_agree i"
      using preflight_agreed [of i] rs(5) that by (auto simp: inputs_agree_def)
  qed
  show ?thesis
  proof (cases "ti_evidence i")
    case None
    then obtain f where f: "ti_failure i = Some f" using ok by (auto simp: input_ok_def)
    show ?thesis
      using None f failure_reports_ok [OF ok f]
      by (intro goal [of "failure_reports i f"])
        (auto simp: validate_evidence_def mapr_add_finding failure_reports_def)
  next
    case (Some e)
    then have nf: "ti_failure i = None" using ok by (auto simp: input_ok_def)
    obtain rs where rs: "aggregate_reports i e = Inr rs" "list_all report_ok rs" "length rs \<le> 2"
      "list_all (\<lambda>r. fst r \<noteq> FcRevisionConflict) rs"
      "rs = [] \<longleftrightarrow> (ev_disposition e = AdapterEnabled \<longrightarrow>
         card (all_artifacts i e) \<le> max_artifact_references \<and> card (all_decisions i e) \<le> max_decision_references)"
      by (rule aggregate_reports_result [OF ok nc Some])
    note ar = adapter_reports_ok [OF ok Some]
    have "length (ev_decisions e) \<le> 1024"
      using ok Some by (auto simp: input_ok_def evidence_ok_def decisions_ok_def max_decision_references_def)
    then have len: "length (adapter_reports i e @ rs) \<le> 1900" using adapter_length [of i e] rs(3) by simp
    have ve: "validate_evidence i = Inr (map report_finding (adapter_reports i e @ rs))"
      by (simp add: validate_evidence_def Some nf mapr_add_finding [OF ar] rs(1) mapr_add_finding [OF rs(2)])
    have nil: "adapter_reports i e @ rs = [] \<longleftrightarrow> evidence_agrees i e"
      using adapter_agreement(2) [of i e] rs(5) by (auto simp: evidence_agrees_def Let_def)
    show ?thesis
      using ve len nil ar rs(2,4) adapter_agreement(1) [of i e] Some nf
      by (intro goal [of "adapter_reports i e @ rs"]) simp_all
  qed
qed

section \<open>Bounded results\<close>

lemma bounded_findings_result:
  assumes "list_all (bounded max_message_characters) (map wfi_message fs)" "length fs \<le> 3000"
  obtains gs where "bounded_findings fs = Inr gs" "length gs \<le> max_findings" "gs = [] \<longleftrightarrow> fs = []"
    "list_all (bounded max_message_characters) (map wfi_message gs)"
    "length fs \<le> max_findings \<Longrightarrow> gs = fs"
    "max_findings < length fs \<Longrightarrow> list_ex (\<lambda>f. wfi_code f \<noteq> FcRevisionConflict) gs"
proof (cases "length fs \<le> max_findings")
  case True
  then show ?thesis using assms by (intro that [of fs]) (simp_all add: bounded_findings_def)
next
  case False
  let ?ret = "take (max_findings - 1) fs" and ?om = "length fs - length (take (max_findings - 1) fs)"
  let ?msg = "''validation retained '' @ dec_nat (length ?ret) @ '' findings and omitted '' @
      dec_nat ?om @ '' additional findings''"
  let ?f = "finding_of FcFindingsTruncated [''validation'', ''findings''] [dec_nat (length fs), dec_nat ?om] ?msg"
  have d: "dec_nat n \<noteq> []" for n by (subst dec_nat.simps) simp
  have n: "bounded max_message_characters (dec_nat n)" if "n \<le> 3000" for n
    using d length_dec_nat [of n] that by (intro boundedI) (simp_all add: max_message_characters_def)
  have m: "bounded max_message_characters ?msg"
    using length_dec_nat [of "length ?ret"] length_dec_nat [of ?om] assms(2)
    by (intro boundedI) (simp_all add: max_message_characters_def max_findings_def)
  have c: "create_finding FcFindingsTruncated [''validation'', ''findings''] [dec_nat (length fs), dec_nat ?om] ?msg = Inr ?f"
    using assms(2) m n by (intro create_finding_ok)
      (simp_all add: string_tuple_ok_def max_state_references_def max_message_characters_def boundedI)
  have b: "bounded_findings fs = Inr (?ret @ [?f])"
    using False c by (simp add: bounded_findings_def Let_def)
  show ?thesis
  proof (rule that [OF b])
    show "list_all (bounded max_message_characters) (map wfi_message (?ret @ [?f]))"
      using assms(1) m by (auto simp: list_all_iff finding_of_def dest: in_set_takeD)
  qed (use False in \<open>auto simp: finding_of_def max_findings_def\<close>)
qed

lemma validation_reasons_ok:
  assumes "list_all (bounded max_message_characters) (map wfi_message (vr_findings v))"
    and "length (vr_findings v) \<le> max_findings"
  shows "reasons_ok (validation_reasons v)"
proof (cases "length (vr_findings v) \<le> max_reasons")
  case True
  then show ?thesis
    using assms by (simp add: validation_reasons_def reasons_ok_def string_tuple_ok_def max_reasons_def
        max_state_references_def)
next
  case False
  let ?n = "length (vr_findings v) - length (take (max_reasons - 1) (map wfi_message (vr_findings v)))"
  have "bounded max_message_characters (dec_nat ?n @ '' additional validation reasons retained in the validation result'')"
    using length_dec_nat [of ?n] assms(2)
    by (intro boundedI) (simp_all add: max_message_characters_def max_findings_def)
  then show ?thesis
    using False assms(1)
    by (auto simp: validation_reasons_def reasons_ok_def string_tuple_ok_def max_reasons_def
        max_state_references_def list_all_iff dest!: in_set_takeD)
qed

section \<open>The successor\<close>

definition successor_of :: "transition_input \<Rightarrow> evidence \<Rightarrow> snapshot \<Rightarrow> run \<Rightarrow> bool" where
  "successor_of i e s' r' \<longleftrightarrow>
     snapshot_ok s' \<and> run_ok r' \<and> run_state_agree r' s' \<and>
     ss_predecessor s' = Some (rn_state (pi_run i)) \<and> ss_references s' = ev_references e \<and>
     ev_status e = Some (rn_status r') \<and> rn_revision r' = rn_revision (pi_run i) + 1 \<and>
     rn_identity r' = rn_identity (pi_run i) \<and> rn_key r' = rn_key (pi_run i) \<and>
     rn_workflow r' = rn_workflow (pi_run i) \<and> rn_subject r' = rn_subject (pi_run i) \<and>
     rn_parent r' = rn_parent (pi_run i) \<and> rn_predecessor r' = rn_predecessor (pi_run i) \<and>
     set (rn_artifacts r') = all_artifacts i e \<and> set (rn_decisions r') = all_decisions i e"

lemma wf_successor_result:
  assumes ok: "input_ok i" and nc: "\<not> colliding i" and agree: "inputs_agree i"
    and e: "ti_evidence i = Some e" "ev_disposition e = AdapterEnabled"
  obtains s' r' where "wf_successor i e = Inr (s', r')" "successor_of i e s' r'"
proof -
  let ?r = "pi_run i"
  have eo: "evidence_ok e" and ro: "run_ok ?r"
    using ok e by (auto simp: input_ok_def preflight_ok_def)
  have ra: "records_agree i" and ea: "evidence_agrees i e" using agree e by (simp_all add: inputs_agree_def)
  have st: "rn_state ?r = ss_identity (pi_prior i)"
    using ra by (simp add: records_agree_def run_state_agree_def Let_def)
  obtain st where status: "ev_status e = Some st" using eo e by (auto simp: evidence_ok_def)
  obtain as ds where m: "merged_artifacts i e = Inr as" "set as = all_artifacts i e"
    "canonical (artifact_value \<circ> ar_identity) as" "length as = card (all_artifacts i e)"
    "merged_decisions i e = Inr ds" "set ds = all_decisions i e"
    "canonical (decision_value \<circ> dr_identity) ds" "length ds = card (all_decisions i e)"
    by (rule merged_collections [OF ok nc e(1)])
  have len: "length as \<le> max_artifact_references" "length ds \<le> max_decision_references"
    using ea e(2) m by (simp_all add: evidence_agrees_def Let_def)
  have subj: "\<forall>d \<in> set ds. dr_subject d = rn_subject ?r"
    using ro ra ea m(6) by (auto simp: run_ok_def records_agree_def evidence_agrees_def Let_def all_decisions_def)
  have refs: "canonical_references (ev_references e) = Inr (ev_references e)"
    using eo by (simp add: references_fixed evidence_ok_def)
  have rev: "0 \<le> rn_revision ?r" using ro by (simp add: run_ok_def)
  then obtain s' where s': "create_snapshot (rn_identity ?r) (rn_workflow ?r) (rn_revision ?r + 1) st
      (ev_references e) (Some (ss_identity (pi_prior i))) = Inr s'"
    using refs by (simp add: create_snapshot_Inr)
  have s_ok: "snapshot_ok s'" using s' by (auto simp: create_snapshot_def bindr_Inr_iff mk_snapshot_Inr)
  have s_fields: "ss_run s' = rn_identity ?r" "ss_workflow s' = rn_workflow ?r" "ss_revision s' = rn_revision ?r + 1"
      "ss_status s' = st" "ss_references s' = ev_references e" "ss_predecessor s' = Some (ss_identity (pi_prior i))"
    using s' refs by (auto simp: create_snapshot_Inr)
  let ?new = "\<lparr>rn_identity = rn_identity ?r, rn_key = rn_key ?r, rn_workflow = rn_workflow ?r,
              rn_subject = rn_subject ?r, rn_state = ss_identity s', rn_revision = rn_revision ?r + 1,
              rn_status = st, rn_reasons = (if st = RunActive then [] else ev_reasons e),
              rn_artifacts = as, rn_decisions = ds, rn_parent = rn_parent ?r,
              rn_predecessor = rn_predecessor ?r, rn_version = core_version\<rparr>"
  have new: "run_ok ?new"
    using ro eo m len subj rev status by (auto simp: run_ok_def evidence_ok_def artifacts_ok_def decisions_ok_def)
  have "wf_successor i e = Inr (s', ?new)"
    using new status s' m by (simp add: wf_successor_def Let_def mk_run_Inr [THEN iffD2])
  moreover have "successor_of i e s' ?new"
    using s_ok new s_fields status m st by (simp add: successor_of_def run_state_agree_def)
  ultimately show ?thesis by (rule that)
qed

section \<open>The outcome\<close>

definition outcome_base :: "transition_input \<Rightarrow> validation \<Rightarrow> transition_outcome \<Rightarrow> bool" where
  "outcome_base i v x \<longleftrightarrow>
     tx_run x = rn_identity (pi_run i) \<and> tx_request x = rq_identity (pi_request i) \<and>
     tx_prior x = ss_identity (pi_prior i) \<and> tx_revision x = rn_revision (pi_run i) \<and> tx_validation x = v \<and>
     tx_evidence x = map_option ev_identity (ti_evidence i) \<and> tx_failure x = map_option if_identity (ti_failure i)"

text \<open>The outcome carries a successor exactly when it is applied.\<close>

definition outcome_effect :: "transition_input \<Rightarrow> transition_outcome \<Rightarrow> bool" where
  "outcome_effect i x \<longleftrightarrow>
     (if tx_kind x = OutApplied
      then \<exists>e s' r'. ti_evidence i = Some e \<and> tx_state x = Some s' \<and> tx_successor x = Some r' \<and> successor_of i e s' r'
      else tx_state x = None \<and> tx_successor x = None)"

lemma create_outcome_quiet:
  assumes "reasons_ok (tx_reasons x)" "0 \<le> tx_revision x" "tx_state x = None" "tx_successor x = None"
    and "tx_failure x = None \<or> tx_evidence x = None"
    and "case tx_kind x of
           OutApplied \<Rightarrow> False
         | OutNotEnabled \<Rightarrow> tx_evidence x \<noteq> None \<and> validation_valid (tx_validation x)
         | OutBlocked \<Rightarrow> tx_evidence x \<noteq> None \<and> validation_valid (tx_validation x)
         | OutInfrastructureFailure \<Rightarrow> tx_failure x \<noteq> None \<and> validation_valid (tx_validation x)
         | _ \<Rightarrow> \<not> validation_valid (tx_validation x)"
  shows "create_outcome x = Inr (x\<lparr>tx_identity := transition_outcome_identity x, tx_version := core_version\<rparr>)"
  using assms
  by (cases "tx_kind x") (auto simp: create_outcome_def mk_outcome_def validate_reasons_Inr contract_version_Inr
      require_Inr_iff)

lemma create_outcome_applied:
  assumes "reasons_ok (tx_reasons x)" "0 \<le> tx_revision x" "tx_kind x = OutApplied" "tx_state x = Some s"
    "tx_successor x = Some r" "tx_failure x = None" "tx_evidence x \<noteq> None" "validation_valid (tx_validation x)"
    "successor_agrees x r s"
  shows "create_outcome x = Inr (x\<lparr>tx_identity := transition_outcome_identity x, tx_version := core_version\<rparr>)"
  using assms
  by (auto simp: create_outcome_def mk_outcome_def validate_reasons_Inr contract_version_Inr
      require_Inr_iff successor_agrees_def)

lemma successor_agreesI:
  assumes "successor_of i e s' r'" "records_agree i"
    and "tx_run x = rn_identity (pi_run i)" "tx_prior x = ss_identity (pi_prior i)" "tx_revision x = rn_revision (pi_run i)"
  shows "successor_agrees x r' s'"
  using assms by (auto simp: successor_agrees_def successor_of_def run_state_agree_def records_agree_def Let_def)

lemma decide_result:
  assumes ok: "input_ok i" and nc: "\<not> colliding i"
    and len: "length (vr_findings v) \<le> max_findings"
    and msgs: "list_all (bounded max_message_characters) (map wfi_message (vr_findings v))"
    and agree: "list_ex (\<lambda>f. wfi_code f \<noteq> FcRevisionConflict) (vr_findings v) \<longleftrightarrow> \<not> inputs_agree i"
    and current: "inputs_agree i \<Longrightarrow> vr_findings v = [] \<longleftrightarrow> request_current i"
  obtains x where "decide i v = Inr x" "tx_kind x = verdict i" "outcome_base i v x" "outcome_effect i x"
    "tx_version x = core_version" "tx_identity x = transition_outcome_identity x"
proof -
  note result = that
  have rev: "0 \<le> rn_revision (pi_run i)" using ok by (simp add: input_ok_def preflight_ok_def run_ok_def)
  have one: "ti_failure i = None \<or> ti_evidence i = None" using ok by (auto simp: input_ok_def)
  note reasons = validation_reasons_ok [OF msgs len]
  have codes: "list_ex (\<lambda>c. c \<noteq> FcRevisionConflict) (map wfi_code (vr_findings v)) \<longleftrightarrow> \<not> inputs_agree i"
    unfolding agree [symmetric] by (induction "vr_findings v") (simp_all add: list_ex_iff)
  have quiet: thesis
    if "decide i v = create_outcome y" "create_outcome y = Inr (y\<lparr>tx_identity := transition_outcome_identity y,
        tx_version := core_version\<rparr>)" "tx_kind y = verdict i" "outcome_base i v y" "outcome_effect i y" for y
    by (rule result [of "y\<lparr>tx_identity := transition_outcome_identity y, tx_version := core_version\<rparr>"])
      (use that in \<open>auto simp: outcome_base_def outcome_effect_def\<close>)
  let ?ev = "map_option ev_identity (ti_evidence i)" and ?fl = "map_option if_identity (ti_failure i)"
  note defs = decide_def Let_def codes verdict_def outcome_record_def outcome_base_def outcome_effect_def
  consider "\<not> inputs_agree i" | "inputs_agree i" "\<not> request_current i"
    | f where "inputs_agree i" "request_current i" "ti_failure i = Some f" "ti_evidence i = None"
    | e where "inputs_agree i" "request_current i" "ti_failure i = None" "ti_evidence i = Some e"
    using ok by (auto simp: input_ok_def)
  then show ?thesis
  proof cases
    case 1
    then have "vr_findings v \<noteq> []" using agree by auto
    then show ?thesis
      using 1 rev one reasons
      by (intro quiet [of "outcome_record i v OutRejectedInvalid ?ev ?fl None (validation_reasons v)"]
          create_outcome_quiet) (auto simp: defs validation_valid_def)
  next
    case 2
    then have "vr_findings v \<noteq> []" using current by auto
    then show ?thesis
      using 2 rev one reasons
      by (intro quiet [of "outcome_record i v OutConflict ?ev ?fl None (validation_reasons v)"]
          create_outcome_quiet) (auto simp: defs validation_valid_def)
  next
    case 3
    then have v: "vr_findings v = []" using current by simp
    have r: "reasons_ok [if_message f]"
      using ok 3 by (simp add: input_ok_def failure_ok_def reasons_ok_def string_tuple_ok_def max_reasons_def
          max_state_references_def)
    show ?thesis
      using 3 v r rev
      by (intro quiet [of "outcome_record i v OutInfrastructureFailure None ?fl None [if_message f]"]
          create_outcome_quiet) (simp_all add: defs validation_valid_def)
  next
    case 4
    then have v: "vr_findings v = []" using current by simp
    have r: "reasons_ok (ev_reasons e)" using ok 4 by (simp add: input_ok_def evidence_ok_def)
    show ?thesis
    proof (cases "ev_disposition e")
      case AdapterEnabled
      obtain s' r' where s: "wf_successor i e = Inr (s', r')" "successor_of i e s' r'"
        by (rule wf_successor_result [OF ok nc 4(1,4) AdapterEnabled])
      have ra: "records_agree i" using 4 by (simp add: inputs_agree_def)
      show ?thesis
        using 4 v r rev s AdapterEnabled ra
        by (intro quiet [of "outcome_record i v OutApplied ?ev None (Some (s', r')) (ev_reasons e)"]
            create_outcome_applied [where s = s' and r = r'] successor_agreesI [OF s(2) ra])
          (simp_all add: defs validation_valid_def)
    next
      case AdapterNotEnabled
      then show ?thesis
        using 4 v r rev
        by (intro quiet [of "outcome_record i v OutNotEnabled ?ev None None (ev_reasons e)"]
            create_outcome_quiet) (simp_all add: defs validation_valid_def)
    next
      case AdapterBlocked
      then show ?thesis
        using 4 v r rev
        by (intro quiet [of "outcome_record i v OutBlocked ?ev None None (ev_reasons e)"]
            create_outcome_quiet) (simp_all add: defs validation_valid_def)
    qed
  qed
qed

section \<open>The execution\<close>

text \<open>What an execution of the processor promises.\<close>

definition execution_of :: "transition_input \<Rightarrow> execution \<Rightarrow> bool" where
  "execution_of i e \<longleftrightarrow>
     (let x = ex_outcome e; a = ex_event e; v = tx_validation x in
      tx_kind x = verdict i \<and> outcome_base i v x \<and> outcome_effect i x \<and>
      tx_identity x = transition_outcome_identity x \<and>
      (validation_valid v \<longleftrightarrow> inputs_agree i \<and> request_current i) \<and>
      length (vr_findings v) \<le> max_findings \<and> vr_identity v = validation_result_identity (vr_findings v) \<and>
      ae_run a = rn_identity (pi_run i) \<and> ae_attempt a = rq_identity (pi_request i) \<and>
      ae_revision a = event_revision x \<and> ae_kind a = event_kind x \<and>
      ae_subjects a = [AuditRequest (rq_identity (pi_request i)), AuditOutcome (tx_identity x)] \<and>
      ae_evidence a = expected_evidence x)"

lemma event_kind_bounded: "bounded max_string_characters (event_kind x)"
  by (rule boundedI) (cases "tx_kind x"; simp add: event_kind_def max_string_characters_def)+

lemma expected_evidence_length: "length (expected_evidence x) \<le> 3"
  by (simp add: expected_evidence_def split: option.splits)

lemma process_result:
  assumes ok: "input_ok i" and nc: "\<not> colliding i"
  obtains e where "process i = Inr e" "execution_of i e"
proof -
  obtain fs where fs: "validate_transition i = Inr fs"
    "list_all (bounded max_message_characters) (map wfi_message fs)" "length fs \<le> 3000"
    "list_ex (\<lambda>f. wfi_code f \<noteq> FcRevisionConflict) fs \<longleftrightarrow> \<not> inputs_agree i"
    "inputs_agree i \<Longrightarrow> (fs = [] \<longleftrightarrow> request_current i) \<and> length fs \<le> 2"
    by (rule validate_transition_result [OF ok nc]) blast
  obtain gs where gs: "bounded_findings fs = Inr gs" "length gs \<le> max_findings" "gs = [] \<longleftrightarrow> fs = []"
    "list_all (bounded max_message_characters) (map wfi_message gs)"
    "length fs \<le> max_findings \<Longrightarrow> gs = fs"
    "max_findings < length fs \<Longrightarrow> list_ex (\<lambda>f. wfi_code f \<noteq> FcRevisionConflict) gs"
    by (rule bounded_findings_result [OF fs(2,3)]) blast
  have short: "inputs_agree i \<Longrightarrow> length fs \<le> max_findings" using fs(5) by (simp add: max_findings_def)
  have agree: "list_ex (\<lambda>f. wfi_code f \<noteq> FcRevisionConflict) gs \<longleftrightarrow> \<not> inputs_agree i"
    using gs(5,6) fs(4) short by (cases "length fs \<le> max_findings") auto
  let ?v = "\<lparr>vr_identity = validation_result_identity gs, vr_findings = gs\<rparr>"
  have v: "create_validation gs = Inr ?v" using gs(2) by (simp add: create_validation_Inr)
  have nil: "gs = [] \<longleftrightarrow> inputs_agree i \<and> request_current i"
    using gs(3) fs(4,5) by (cases fs) auto
  obtain x where x: "decide i ?v = Inr x" "tx_kind x = verdict i" "outcome_base i ?v x" "outcome_effect i x"
    "tx_version x = core_version" "tx_identity x = transition_outcome_identity x"
  proof (rule decide_result [OF ok nc, of ?v])
    show "vr_findings ?v = [] \<longleftrightarrow> request_current i" if "inputs_agree i" using nil that by simp
  qed (use gs agree in simp_all)
  have tv: "tx_validation x = ?v" using x(3) by (simp add: outcome_base_def)
  have rev: "0 \<le> event_revision x" "(case tx_successor x of None \<Rightarrow> rn_revision (pi_run i) | Some r \<Rightarrow> rn_revision r) = event_revision x"
    using x(3,4) ok by (auto simp: event_revision_def outcome_base_def outcome_effect_def successor_of_def
        run_ok_def input_ok_def preflight_ok_def split: option.splits if_splits)
  have evs: "evidence_identities i ?v = expected_evidence x"
    using x(3) by (simp add: evidence_identities_def expected_evidence_def outcome_base_def split: option.splits)
  let ?subj = "[AuditRequest (rq_identity (pi_request i)), AuditOutcome (tx_identity x)]"
  let ?a = "\<lparr>ae_identity = audit_event_identity (rn_identity (pi_run i)) (event_revision x) (rq_identity (pi_request i))
      (event_kind x) ?subj (expected_evidence x), ae_run = rn_identity (pi_run i), ae_revision = event_revision x,
      ae_attempt = rq_identity (pi_request i), ae_kind = event_kind x, ae_subjects = ?subj,
      ae_evidence = expected_evidence x, ae_version = core_version\<rparr>"
  have a: "create_audit (rn_identity (pi_run i)) (event_revision x) (rq_identity (pi_request i)) (event_kind x)
      ?subj (expected_evidence x) = Inr ?a"
    using rev(1) event_kind_bounded [of x] expected_evidence_length [of x]
    by (simp add: create_audit_def mk_audit_def contract_version_Inr bounded_string_Inr require_Inr_iff
        audit_references_def max_state_references_def)
  have "mk_execution x ?a = Inr \<lparr>ex_outcome = x, ex_event = ?a\<rparr>"
    using x(3) by (simp add: mk_execution_def outcome_base_def)
  then have "process i = Inr \<lparr>ex_outcome = x, ex_event = ?a\<rparr>"
    using fs gs v x a by (simp add: process_def rev(2) evs)
  moreover have "execution_of i \<lparr>ex_outcome = x, ex_event = ?a\<rparr>"
    unfolding execution_of_def Let_def using x tv gs nil by (simp add: validation_valid_def)
  ultimately show ?thesis by (rule that)
qed

end
