(* ===== verification/Core_Lifecycle.thy ===== *)
theory Core_Lifecycle
  imports Core_Process
begin

text \<open>
  Runs over time: what every applied outcome implies about its input, the histories that starting a
  run and applying transitions produce, and the facts every history satisfies.
\<close>

section \<open>Applied outcomes\<close>

lemma mapr_Nil_iff: "mapr f xs = Inr [] \<longleftrightarrow> xs = []"
  by (cases xs) (auto simp: bindr_Inr_iff)

lemma validate_preflight_Nil:
  "validate_preflight i = Inr [] \<longleftrightarrow> records_agree i \<and> request_current i"
proof -
  have "preflight_reports i = [] \<longleftrightarrow> records_agree i \<and> request_current i"
    using preflight_agreement [of i] preflight_agreed [of i] by (cases "records_agree i") auto
  then show ?thesis by (simp add: validate_preflight_def mapr_Nil_iff)
qed

lemma merged_sets:
  "merged_artifacts i e = Inr as \<Longrightarrow> set as = all_artifacts i e \<and> length as = card (all_artifacts i e)"
  "merged_decisions i e = Inr ds \<Longrightarrow> set ds = all_decisions i e \<and> length ds = card (all_decisions i e)"
proof -
  have *: "set ys = set (concat xss) \<and> length ys = card (set (concat xss))" if "merge_by msg key xss = Inr ys"
    for msg and key :: "'x \<Rightarrow> string" and xss ys
    using that distinct_card [OF canonical_distinct, of key ys] by (simp add: merge_by_Inr)
  show "merged_artifacts i e = Inr as \<Longrightarrow> set as = all_artifacts i e \<and> length as = card (all_artifacts i e)"
    using * by (fastforce simp: merged_artifacts_def merge_artifacts_def all_artifacts_def Un_assoc)
  show "merged_decisions i e = Inr ds \<Longrightarrow> set ds = all_decisions i e \<and> length ds = card (all_decisions i e)"
    using * by (fastforce simp: merged_decisions_def merge_decisions_def all_decisions_def Un_assoc)
qed

lemma aggregate_reports_Nil:
  assumes "aggregate_reports i e = Inr []" "ev_disposition e = AdapterEnabled"
  shows "card (all_artifacts i e) \<le> max_artifact_references \<and> card (all_decisions i e) \<le> max_decision_references"
  using assms merged_sets [of i e]
  by (auto simp: aggregate_reports_def bindr_Inr_iff split: if_splits)

lemma validate_evidence_Nil:
  assumes "validate_evidence i = Inr []"
  shows "\<forall>e. ti_evidence i = Some e \<longrightarrow> evidence_agrees i e"
proof (intro allI impI)
  fix e assume e: "ti_evidence i = Some e"
  then have "adapter_reports i e = []" "aggregate_reports i e = Inr []"
    using assms by (auto simp: validate_evidence_def bindr_Inr_iff mapr_Nil_iff)
  then show "evidence_agrees i e"
    using adapter_agreement(2) [of i e] aggregate_reports_Nil [of i e] by (simp add: evidence_agrees_def Let_def)
qed

lemma validate_transition_Nil:
  assumes "validate_transition i = Inr []"
  shows "records_agree i" "request_current i" "\<And>e. ti_evidence i = Some e \<Longrightarrow> evidence_agrees i e"
  using assms validate_evidence_Nil [of i]
  by (auto simp: validate_transition_def bindr_Inr_iff validate_preflight_Nil)

lemma bounded_findings_Nil: "bounded_findings fs = Inr [] \<longleftrightarrow> fs = []"
  by (auto simp: bounded_findings_def Let_def bindr_Inr_iff max_findings_def)

lemma mk_outcome_InrD:
  assumes "mk_outcome x = Inr y"
  shows "y = x" "(tx_kind x = OutApplied) = (tx_state x \<noteq> None \<and> tx_successor x \<noteq> None)"
    "\<not> (tx_kind x = OutApplied \<and> \<not> validation_valid (tx_validation x))"
  using assms unfolding mk_outcome_def Let_def validate_reasons_Inr contract_version_Inr require_Inr_iff
  by (elim conjE, simp only: sum.inject)+

lemma create_outcome_InrD:
  assumes "create_outcome x = Inr y"
  shows "y = x\<lparr>tx_identity := transition_outcome_identity x, tx_version := core_version\<rparr>"
    "(tx_kind x = OutApplied) = (tx_state x \<noteq> None \<and> tx_successor x \<noteq> None)"
    "tx_kind x = OutApplied \<Longrightarrow> validation_valid (tx_validation x)"
proof -
  have "mk_outcome (x\<lparr>tx_identity := transition_outcome_identity x, tx_version := core_version\<rparr>) = Inr y"
    using assms by (simp add: create_outcome_def validate_reasons_Inr)
  from mk_outcome_InrD [OF this]
  show "y = x\<lparr>tx_identity := transition_outcome_identity x, tx_version := core_version\<rparr>"
    "(tx_kind x = OutApplied) = (tx_state x \<noteq> None \<and> tx_successor x \<noteq> None)"
    "tx_kind x = OutApplied \<Longrightarrow> validation_valid (tx_validation x)" by simp_all
qed

lemma wf_successor_InrD:
  assumes "wf_successor i e = Inr (s', r')" "records_agree i" "references_ok (ev_references e)"
  shows "successor_of i e s' r'"
proof -
  let ?r = "pi_run i"
  obtain st as ds where st: "ev_status e = Some st" and
    s: "create_snapshot (rn_identity ?r) (rn_workflow ?r) (rn_revision ?r + 1) st (ev_references e)
      (Some (ss_identity (pi_prior i))) = Inr s'" and m: "merged_artifacts i e = Inr as" "merged_decisions i e = Inr ds"
    and r: "run_ok r'" "r' = \<lparr>rn_identity = rn_identity ?r, rn_key = rn_key ?r, rn_workflow = rn_workflow ?r,
              rn_subject = rn_subject ?r, rn_state = ss_identity s', rn_revision = rn_revision ?r + 1,
              rn_status = st, rn_reasons = (if st = RunActive then [] else ev_reasons e),
              rn_artifacts = as, rn_decisions = ds, rn_parent = rn_parent ?r,
              rn_predecessor = rn_predecessor ?r, rn_version = core_version\<rparr>"
    using assms(1) by (auto simp: wf_successor_def Let_def bindr_Inr_iff mk_run_Inr split: option.splits)
  have refs: "canonical_references (ev_references e) = Inr (ev_references e)"
    using assms(3) by (simp add: references_fixed)
  have "snapshot_ok s'" using s by (auto simp: create_snapshot_def bindr_Inr_iff mk_snapshot_Inr)
  then show ?thesis
    using st s r merged_sets(1) [OF m(1)] merged_sets(2) [OF m(2)] assms(2) refs
    by (auto simp: successor_of_def run_state_agree_def create_snapshot_Inr records_agree_def Let_def)
qed


text \<open>An applied outcome needs a well-formed evidence only; no other input is assumed valid.\<close>

lemma process_applied:
  assumes p: "process i = Inr x" and r: "tx_successor (ex_outcome x) = Some r'"
    and ok: "\<And>e. ti_evidence i = Some e \<Longrightarrow> evidence_ok e"
  obtains e s' where "ti_evidence i = Some e" "ti_failure i = None" "ev_disposition e = AdapterEnabled"
    "records_agree i" "request_current i" "evidence_agrees i e" "tx_state (ex_outcome x) = Some s'"
    "successor_of i e s' r'"
proof -
  note result = that
  obtain fs gs v where v: "validate_transition i = Inr fs" "bounded_findings fs = Inr gs"
    "v = \<lparr>vr_identity = validation_result_identity gs, vr_findings = gs\<rparr>" and d: "decide i v = Inr (ex_outcome x)"
    using p by (auto simp: process_def bindr_Inr_iff create_validation_Inr mk_execution_def require_Inr_iff)
  have nil: "gs = []"
  proof (rule ccontr)
    assume "gs \<noteq> []"
    then obtain y k where y: "create_outcome y = Inr (ex_outcome x)" "y = outcome_record i v k
        (map_option ev_identity (ti_evidence i)) (map_option if_identity (ti_failure i)) None (validation_reasons v)"
      using d v(3) by (auto simp: decide_def Let_def split: if_splits)
    show False using create_outcome_InrD(1) [OF y(1)] y(2) r by (simp add: outcome_record_def)
  qed
  then have vt: "validate_transition i = Inr []" using v by (simp add: bounded_findings_Nil)
  have none: "ti_failure i = None"
  proof (rule ccontr)
    assume "ti_failure i \<noteq> None"
    then obtain f where "ti_failure i = Some f" by blast
    then have y: "create_outcome (outcome_record i v OutInfrastructureFailure None (Some (if_identity f)) None
        [if_message f]) = Inr (ex_outcome x)"
      using d nil v(3) by (auto simp: decide_def Let_def)
    show False using create_outcome_InrD(1) [OF y] r by (simp add: outcome_record_def)
  qed
  obtain e where e: "ti_evidence i = Some e"
    using d nil none v(3) by (auto simp: decide_def Let_def split: option.splits)
  have en: "ev_disposition e = AdapterEnabled"
  proof (rule ccontr)
    assume "ev_disposition e \<noteq> AdapterEnabled"
    then obtain k where y: "create_outcome (outcome_record i v k (Some (ev_identity e)) None None (ev_reasons e)) =
        Inr (ex_outcome x)"
      using d nil none e v(3) by (cases "ev_disposition e") (auto simp: decide_def Let_def)
    show False using create_outcome_InrD(1) [OF y] r by (simp add: outcome_record_def)
  qed
  obtain s r2 where s: "wf_successor i e = Inr (s, r2)" and y: "create_outcome (outcome_record i v OutApplied
      (Some (ev_identity e)) None (Some (s, r2)) (ev_reasons e)) = Inr (ex_outcome x)"
    using d nil none e en v(3) by (auto simp: decide_def Let_def bindr_Inr_iff)
  have f: "tx_state (ex_outcome x) = Some s" "r' = r2"
    using create_outcome_InrD(1) [OF y] r by (auto simp: outcome_record_def)
  have "references_ok (ev_references e)" using ok [OF e] by (simp add: evidence_ok_def)
  then show ?thesis
    using result [OF e none en validate_transition_Nil(1,2) [OF vt] validate_transition_Nil(3) [OF vt e] f(1)]
      wf_successor_InrD [OF s validate_transition_Nil(1) [OF vt]] f(2) by simp
qed

section \<open>Histories\<close>

text \<open>
  The runs and states of one workflow run, latest first: a start, then one entry for each applied
  transition.  The records of an input come from their constructors.
\<close>

inductive run_history :: "workflow \<Rightarrow> subject_id \<Rightarrow> (run \<times> snapshot) list \<Rightarrow> bool" for w subject where
  history_start:
    "start_run w subject key refs arts decs parent pre = Inr x \<Longrightarrow> run_history w subject [(st_run x, st_state x)]"
| history_apply:
    "run_history w subject ((r, s) # h) \<Longrightarrow> pi_workflow i = w \<Longrightarrow> pi_run i = r \<Longrightarrow> pi_prior i = s \<Longrightarrow>
     (\<And>e. ti_evidence i = Some e \<Longrightarrow> evidence_ok e) \<Longrightarrow> process i = Inr x \<Longrightarrow>
     tx_successor (ex_outcome x) = Some r' \<Longrightarrow> tx_state (ex_outcome x) = Some s' \<Longrightarrow>
     run_history w subject ((r', s') # (r, s) # h)"

inductive_cases run_history_NilE: "run_history w subject []"

lemma run_history_nonempty: "run_history w subject h \<Longrightarrow> h \<noteq> []"
  by (cases rule: run_history.cases) auto

text \<open>The link between two consecutive entries.\<close>

definition extends_run :: "run \<times> snapshot \<Rightarrow> run \<times> snapshot \<Rightarrow> bool" where
  "extends_run = (\<lambda>(r, s) (r', s').
     \<not> is_terminal (rn_status r) \<and> rn_revision r' = rn_revision r + 1 \<and> ss_predecessor s' = Some (ss_identity s) \<and>
     rn_identity r' = rn_identity r \<and> rn_key r' = rn_key r \<and> rn_workflow r' = rn_workflow r \<and>
     rn_subject r' = rn_subject r \<and> rn_parent r' = rn_parent r \<and> rn_predecessor r' = rn_predecessor r \<and>
     set (rn_artifacts r) \<subseteq> set (rn_artifacts r') \<and> set (rn_decisions r) \<subseteq> set (rn_decisions r'))"

definition entry_ok :: "workflow \<Rightarrow> subject_id \<Rightarrow> run \<times> snapshot \<Rightarrow> bool" where
  "entry_ok w subject = (\<lambda>(r, s). run_ok r \<and> snapshot_ok s \<and> run_state_agree r s \<and>
     rn_workflow r = wf_identity w \<and> rn_subject r = subject)"

lemma run_history_apply_step:
  assumes "process i = Inr x" "tx_successor (ex_outcome x) = Some r'" "tx_state (ex_outcome x) = Some s'"
    and "\<And>e. ti_evidence i = Some e \<Longrightarrow> evidence_ok e" "entry_ok w subject (pi_run i, pi_prior i)"
  shows "extends_run (pi_run i, pi_prior i) (r', s')" "entry_ok w subject (r', s')"
proof -
  obtain e t where e: "records_agree i" "tx_state (ex_outcome x) = Some t" "successor_of i e t r'"
    by (rule process_applied [OF assms(1,2,4)]) blast
  then have s: "successor_of i e s' r'" using assms(3) by simp
  show "extends_run (pi_run i, pi_prior i) (r', s')"
    using e(1) s by (auto simp: extends_run_def successor_of_def records_agree_def run_state_agree_def Let_def
        all_artifacts_def all_decisions_def)
  show "entry_ok w subject (r', s')"
    using s assms(5) by (simp add: entry_ok_def successor_of_def)
qed

lemma run_history_invariant:
  assumes "run_history w subject h"
  shows "(\<forall>x \<in> set h. entry_ok w subject x) \<and> (\<forall>k < length h. rn_revision (fst (h ! k)) = int (length h - 1 - k)) \<and>
     (\<forall>k. Suc k < length h \<longrightarrow> extends_run (h ! Suc k) (h ! k))"
  using assms
proof induction
  case (history_start key refs arts decs parent pre x)
  then show ?case using start_run_Inr [OF history_start] by (simp add: entry_ok_def)
next
  case (history_apply r s h i x r' s')
  have step: "extends_run (r, s) (r', s')" "entry_ok w subject (r', s')"
    using run_history_apply_step [OF history_apply.hyps(6-8,5), of w subject] history_apply by auto
  have rev: "rn_revision r = int (length h)" using history_apply.IH by force
  show ?case
  proof (intro conjI allI impI)
    show "\<forall>x \<in> set ((r', s') # (r, s) # h). entry_ok w subject x" using step history_apply.IH by auto
    show "rn_revision (fst (((r', s') # (r, s) # h) ! k)) = int (length ((r', s') # (r, s) # h) - 1 - k)"
      if "k < length ((r', s') # (r, s) # h)" for k
      using that step(1) rev history_apply.IH by (cases k) (auto simp: extends_run_def)
    show "extends_run (((r', s') # (r, s) # h) ! Suc k) (((r', s') # (r, s) # h) ! k)"
      if "Suc k < length ((r', s') # (r, s) # h)" for k
      using that step(1) history_apply.IH by (cases k) auto
  qed
qed

end
