(* ===== verification/Core_Example.thy ===== *)
theory Core_Example
  imports Core_Lifecycle
begin

text \<open>
  A small course review: a run is started, an operation is requested under an authority that covers
  it, and the adapter completes the run with one artifact and one decision.  No digest is evaluated.
\<close>

definition review_operation :: operation_id where
  "review_operation = OperationId ''review.approve''"

definition review_subject :: subject_id where
  "review_subject = SubjectId ''course-7''"

definition review_workflow :: workflow where
  "review_workflow =
     (let digest = replicate 64 CHR ''a'' in
      \<lparr>wf_identity = workflow_reference_identity ''course-review'' ''1'' digest [review_operation],
       wf_contract = ''course-review'', wf_definition_version = ''1'', wf_digest = digest,
       wf_operations = [review_operation], wf_version = core_version\<rparr>)"

definition review_run_id :: run_id where
  "review_run_id = run_digest ''run-1'' (wf_identity review_workflow) review_subject None None"

definition review_state :: snapshot where
  "review_state =
     \<lparr>ss_identity = state_snapshot_identity review_run_id (wf_identity review_workflow) 0 RunActive [] None,
      ss_run = review_run_id, ss_workflow = wf_identity review_workflow, ss_revision = 0, ss_status = RunActive,
      ss_references = [], ss_predecessor = None, ss_version = core_version\<rparr>"

definition review_run :: run where
  "review_run =
     \<lparr>rn_identity = review_run_id, rn_key = ''run-1'', rn_workflow = wf_identity review_workflow,
      rn_subject = review_subject, rn_state = ss_identity review_state, rn_revision = 0, rn_status = RunActive,
      rn_reasons = [], rn_artifacts = [], rn_decisions = [], rn_parent = None, rn_predecessor = None,
      rn_version = core_version\<rparr>"

definition review_authority :: authority where
  "review_authority =
     \<lparr>au_identity = authority_reference_identity ''role'' review_subject [review_operation] (ExternalId ''grant'') ''1'',
      au_kind = ''role'', au_subject = review_subject, au_operations = [review_operation],
      au_evidence = ExternalId ''grant'', au_authority_version = ''1'', au_version = core_version\<rparr>"

definition review_request_at :: "int \<Rightarrow> request" where
  "review_request_at rv =
     \<lparr>rq_identity = transition_request_identity review_run_id (ss_identity review_state) rv review_operation [] [] []
        (ActorId ''reviewer'') review_authority (IdempotencyId ''once'') default_bounds,
      rq_run = review_run_id, rq_prior = ss_identity review_state, rq_revision = rv,
      rq_operation = review_operation, rq_inputs = [], rq_artifacts = [], rq_decisions = [],
      rq_actor = ActorId ''reviewer'', rq_authority = review_authority, rq_idempotency = IdempotencyId ''once'',
      rq_bounds = default_bounds, rq_version = core_version\<rparr>"

definition review_artifact :: artifact where
  "review_artifact =
     (let digest = replicate 64 CHR ''b'' in
      \<lparr>ar_identity = artifact_reference_identity (ExternalId ''report'') ''report'' digest ''output''
         ArtifactObserved (ExternalId ''adapter''),
       ar_artifact = ExternalId ''report'', ar_kind = ''report'', ar_digest = digest, ar_role = ''output'',
       ar_disposition = ArtifactObserved, ar_provenance = ExternalId ''adapter'', ar_version = core_version\<rparr>)"

definition review_decision :: decision where
  "review_decision =
     \<lparr>dr_identity = decision_reference_identity ''approval'' ''course'' review_subject (ExternalId ''board'')
        ''approved'' (ExternalId ''minutes'') ''1'',
      dr_kind = ''approval'', dr_scope = ''course'', dr_subject = review_subject, dr_authority = ExternalId ''board'',
      dr_outcome = ''approved'', dr_evidence = ExternalId ''minutes'', dr_decision_version = ''1'',
      dr_version = core_version\<rparr>"

definition review_evidence :: evidence where
  "review_evidence =
     \<lparr>ev_identity = adapter_evidence_identity (AdapterId ''cpn'') (wf_identity review_workflow)
        (rq_identity (review_request_at 0)) (ss_identity review_state) AdapterEnabled [] (Some RunCompleted)
        [review_artifact] [review_decision] [''approved by the board''],
      ev_adapter = AdapterId ''cpn'', ev_workflow = wf_identity review_workflow,
      ev_request = rq_identity (review_request_at 0), ev_prior = ss_identity review_state,
      ev_disposition = AdapterEnabled, ev_references = [], ev_status = Some RunCompleted,
      ev_artifacts = [review_artifact], ev_decisions = [review_decision],
      ev_reasons = [''approved by the board''], ev_version = core_version\<rparr>"

definition review_failure :: failure where
  "review_failure =
     \<lparr>if_identity = infrastructure_failure_identity (rq_identity (review_request_at 1)) ''adapter'' ''timeout''
        ''no answer'' (ExternalId ''log''),
      if_request = rq_identity (review_request_at 1), if_phase = ''adapter'', if_code = ''timeout'',
      if_message = ''no answer'', if_evidence = ExternalId ''log'', if_version = core_version\<rparr>"

definition review_input :: transition_input where
  "review_input =
     \<lparr>pi_workflow = review_workflow, pi_run = review_run, pi_prior = review_state,
      pi_request = review_request_at 0, ti_evidence = Some review_evidence, ti_failure = None\<rparr>"

text \<open>The same run with a request for a revision that does not exist yet.\<close>

definition stale_input :: transition_input where
  "stale_input =
     \<lparr>pi_workflow = review_workflow, pi_run = review_run, pi_prior = review_state,
      pi_request = review_request_at 1, ti_evidence = None, ti_failure = Some review_failure\<rparr>"

section \<open>Its records are well formed\<close>

lemmas review_ids = review_operation_def review_subject_def review_run_id_def

lemma review_short:
  "s \<noteq> [] \<Longrightarrow> length s \<le> 64 \<Longrightarrow> bounded max_string_characters s"
  "s \<noteq> [] \<Longrightarrow> length s \<le> 64 \<Longrightarrow> bounded max_message_characters s"
  "s \<noteq> [] \<Longrightarrow> length s \<le> 64 \<Longrightarrow> core_id s"
  using py_len_le [of s]
  by (simp_all add: bounded_def core_id_def max_string_characters_def max_message_characters_def
      max_identity_characters_def)

lemma sha_repeat: "sha_spelling (replicate 64 CHR ''a'')" "sha_spelling (replicate 64 CHR ''b'')"
  by code_simp+

lemma review_workflow_ok: "workflow_ok review_workflow"
  using sha_repeat by (simp add: workflow_ok_def review_workflow_def Let_def review_short operations_ok_def
      canonical_def max_operations_def)

lemma review_state_ok: "snapshot_ok review_state"
  by (simp add: snapshot_ok_def review_state_def references_ok_def canonical_def)

lemma review_run_ok: "run_ok review_run"
  by (simp add: run_ok_def review_run_def review_run_id_def review_short artifacts_ok_def decisions_ok_def canonical_def)

lemma review_authority_ok: "authority_ok review_authority"
  by (simp add: authority_ok_def review_authority_def review_short operations_ok_def canonical_def max_operations_def)

lemma review_request_ok: "0 \<le> rv \<Longrightarrow> request_ok (review_request_at rv)"
  by (simp add: request_ok_def review_request_at_def request_collections_ok_def decisions_ok_def canonical_def
      default_bounds_def)

lemma review_artifact_ok: "artifact_ok review_artifact"
  using sha_repeat by (simp add: artifact_ok_def review_artifact_def Let_def review_short)

lemma review_decision_ok: "decision_ids_ok review_decision"
  by (simp add: decision_ids_ok_def decision_ok_def review_decision_def review_short review_subject_def)

lemma review_evidence_ok: "evidence_ok review_evidence"
  by (simp add: evidence_ok_def review_evidence_def references_ok_def artifacts_ok_def decisions_ok_def canonical_def
      max_artifact_references_def max_decision_references_def reasons_ok_def string_tuple_ok_def max_reasons_def
      max_state_references_def review_short)

lemma review_failure_ok: "failure_ok review_failure"
  by (simp add: failure_ok_def review_failure_def review_short)

section \<open>Its inputs are well formed\<close>

lemma review_values [simp]:
  "pi_workflow review_input = review_workflow" "pi_run review_input = review_run"
  "pi_prior review_input = review_state" "pi_request review_input = review_request_at 0"
  "ti_evidence review_input = Some review_evidence" "ti_failure review_input = None"
  "pi_workflow stale_input = review_workflow" "pi_run stale_input = review_run"
  "pi_prior stale_input = review_state" "pi_request stale_input = review_request_at 1"
  "ti_evidence stale_input = None" "ti_failure stale_input = Some review_failure"
  by (simp_all add: review_input_def stale_input_def)

lemma review_core_ids:
  "core_id (workflow_value (wf_identity review_workflow))" "core_id (run_value review_run_id)"
  "core_id (state_value (ss_identity review_state))" "core_id (operation_value review_operation)"
  "core_id (subject_value review_subject)" "core_id (request_value (rq_identity (review_request_at rv)))"
  by (simp_all add: review_workflow_def Let_def workflow_reference_identity_def core_id_digest review_run_id_def
      run_digest_def review_state_def state_snapshot_identity_def review_operation_def review_subject_def review_short
      review_request_at_def transition_request_identity_def)

lemma review_preflight_ok: "preflight_ok stale_input" "preflight_ok review_input"
  using review_workflow_ok review_run_ok review_state_ok review_request_ok review_authority_ok review_core_ids
  by (simp_all add: preflight_ok_def)
    (simp_all add: review_request_at_def review_run_def review_state_def review_authority_def default_bounds_def
      bounds_ok_def bound_ok_def max_input_references_def max_artifact_references_def max_decision_references_def
      max_state_references_def printable_def dec_int_def dec_nat.simps)

lemma review_input_ok: "input_ok review_input" "input_ok stale_input"
  using review_preflight_ok review_evidence_ok review_artifact_ok review_decision_ok review_failure_ok review_core_ids
  by (simp_all add: input_ok_def) (simp_all add: review_evidence_def review_failure_def)

lemma review_collections:
  "all_artifacts review_input review_evidence = {review_artifact}"
  "all_decisions review_input review_evidence = {review_decision}"
  by (simp_all add: all_artifacts_def all_decisions_def review_run_def review_request_at_def review_evidence_def)

lemma review_not_colliding: "\<not> colliding review_input" "\<not> colliding stale_input"
  by (auto simp: colliding_def review_collections sha256_collision_def)

lemma review_agrees: "inputs_agree review_input" "request_current review_input" "inputs_agree stale_input"
    "\<not> request_current stale_input"
  by (simp_all add: inputs_agree_def records_agree_def evidence_agrees_def request_current_def Let_def review_collections)
    (simp_all add: run_state_agree_def review_run_def review_state_def review_request_at_def review_authority_def
      review_workflow_def review_evidence_def review_decision_def review_failure_def default_bounds_def is_terminal_def
      max_artifact_references_def max_decision_references_def Let_def)

lemma review_verdict: "verdict review_input = OutApplied" "verdict stale_input = OutConflict"
  by (simp_all add: verdict_def review_agrees) (simp add: review_evidence_def)

end
