(* ===== verification/Core_Theorems.thy ===== *)
theory Core_Theorems
  imports Core_Example
begin

text \<open>
  The properties of the workflow core: the transition processor, the life of a run, merged
  references, replay and request identities, each followed by its instance.
\<close>

section \<open>The processor\<close>

text \<open>C2: The transition processor always answers.  On every well-formed input without an identity
  collision it returns an execution whose outcome kind is the verdict of the specification
  (invalid before conflict before infrastructure failure before the adapter disposition),
  whose successor is present exactly when the kind is applied and then extends the run, and whose
  audit event names exactly this outcome and its evidence.\<close>

theorem process_returns_verdict:
  assumes "input_ok i" "\<not> colliding i"
  shows "\<exists>e. process i = Inr e \<and> execution_of i e"
  using process_result [OF assms] by metis

lemma process_returns_verdict_witness:
  "(\<exists>e. process review_input = Inr e \<and> tx_kind (ex_outcome e) = OutApplied) \<and>
   (\<exists>e. process stale_input = Inr e \<and> tx_kind (ex_outcome e) = OutConflict)"
  using process_returns_verdict [OF review_input_ok(1) review_not_colliding(1)]
    process_returns_verdict [OF review_input_ok(2) review_not_colliding(2)]
  by (auto simp: execution_of_def Let_def review_verdict)

text \<open>C5: Nothing is applied by mistake.  Whenever the processor returns a successor run, whatever
  its input, the adapter enabled the transition, no failure was reported, all records agree (one
  definition, run and state, a live run, an operation of the workflow that the authority covers for
  this subject), the request is current, the evidence binds this request within its bounds, and
  the successor is the run extended by exactly that evidence.\<close>

theorem applied_only_when_agreed:
  assumes "process i = Inr x" "tx_successor (ex_outcome x) = Some r'"
    and "\<And>e. ti_evidence i = Some e \<Longrightarrow> evidence_ok e"
  shows "\<exists>e s'. ti_evidence i = Some e \<and> ti_failure i = None \<and> ev_disposition e = AdapterEnabled \<and>
    records_agree i \<and> request_current i \<and> evidence_agrees i e \<and> tx_state (ex_outcome x) = Some s' \<and>
    successor_of i e s' r'"
  by (rule process_applied [OF assms]) blast+

lemma review_applied:
  obtains x r' s' where "process review_input = Inr x" "tx_successor (ex_outcome x) = Some r'"
    "tx_state (ex_outcome x) = Some s'" "successor_of review_input review_evidence s' r'"
proof -
  obtain x where x: "process review_input = Inr x" "execution_of review_input x"
    by (rule process_result [OF review_input_ok(1) review_not_colliding(1)])
  then have "outcome_effect review_input (ex_outcome x)" "tx_kind (ex_outcome x) = OutApplied"
    by (simp_all add: execution_of_def Let_def review_verdict)
  then show ?thesis using that x(1) by (auto simp: outcome_effect_def)
qed

lemma applied_only_when_agreed_witness:
  "\<exists>x r' s'. process review_input = Inr x \<and> tx_successor (ex_outcome x) = Some r' \<and>
     successor_of review_input review_evidence s' r'"
proof -
  obtain x r' where x: "process review_input = Inr x" "tx_successor (ex_outcome x) = Some r'"
    by (rule review_applied)
  have "evidence_ok e" if "ti_evidence review_input = Some e" for e
    using that review_evidence_ok by simp
  from applied_only_when_agreed [OF x this] show ?thesis using x by auto
qed

section \<open>The life of a run\<close>

text \<open>C6: Every history of a run, from its start through applied transitions, is a chain: the n-th
  entry has revision n, names the previous state as its predecessor, keeps the identity, key,
  workflow, subject and lineage of the run, keeps every artifact and decision recorded so far, and
  only the last entry may be terminal; every entry is well formed with run and state in agreement.\<close>

theorem history_is_chain:
  assumes "run_history w subject h"
  shows "(\<forall>x \<in> set h. entry_ok w subject x) \<and>
    (\<forall>k < length h. rn_revision (fst (h ! k)) = int (length h - 1 - k)) \<and>
    (\<forall>k. Suc k < length h \<longrightarrow> extends_run (h ! Suc k) (h ! k))"
  using assms by (rule run_history_invariant)

lemma review_start:
  "start_run review_workflow review_subject ''run-1'' [] [] [] None None =
     Inr \<lparr>st_run = review_run, st_state = review_state\<rparr>"
proof -
  have s: "create_snapshot review_run_id (wf_identity review_workflow) 0 RunActive [] None = Inr review_state"
    by (simp add: create_snapshot_Inr canonical_references_def review_state_def require_def)
  have r: "mk_run review_run = Inr review_run" using review_run_ok by (simp add: mk_run_Inr)
  show ?thesis
    using r by (simp add: start_run_def bounded_string_def review_short canonical_artifacts_def canonical_decisions_def
        run_identity_def review_run_id_def [symmetric] s mk_run_start_def require_def)
      (simp add: review_run_def review_state_def run_state_agree_def)
qed

lemma history_is_chain_witness:
  "\<exists>r s. run_history review_workflow review_subject [(r, s), (review_run, review_state)] \<and>
     rn_revision r = 1 \<and> extends_run (review_run, review_state) (r, s)"
proof -
  obtain x r s where x: "process review_input = Inr x" "tx_successor (ex_outcome x) = Some r"
    "tx_state (ex_outcome x) = Some s"
    by (rule review_applied)
  have "run_history review_workflow review_subject [(review_run, review_state)]"
    using history_start [OF review_start] by simp
  then have h: "run_history review_workflow review_subject [(r, s), (review_run, review_state)]"
    using history_apply [of review_workflow review_subject review_run review_state "[]" review_input x r s] x
      review_evidence_ok by simp
  then show ?thesis using history_is_chain [OF h] by force
qed

text \<open>The starter accepts exactly the bounded keys, the unique and bounded references and the
  decisions on the subject of the run; everything else it refuses.\<close>

lemma start_run_accepts:
  "(\<exists>x. start_run w subject key refs arts decs parent pre = Inr x) \<longleftrightarrow> startable subject key refs arts decs"
  using start_run_total [of subject key refs arts decs w parent pre]
    start_run_Inr [of w subject key refs arts decs parent pre] by blast

section \<open>Merged references\<close>

text \<open>Merging reference collections succeeds exactly when no two different references share an
  identity, and then returns the strictly identity-ordered list of their union: the result does
  not depend on the order or the repetition of its arguments.\<close>

lemma merge_is_canonical_union:
  "merge_artifacts xss = Inr ys \<longleftrightarrow>
     inj_on (artifact_value \<circ> ar_identity) (\<Union> (set ` set xss)) \<and>
     canonical (artifact_value \<circ> ar_identity) ys \<and> set ys = \<Union> (set ` set xss)"
  unfolding merge_artifacts_def merge_by_Inr by simp

section \<open>Replay\<close>

text \<open>A replay matches exactly when processing the input again gives the expected execution, and
  it fails only when the processing does.\<close>

lemma replay_matches_iff:
  "((\<exists>p. wf_replay i e = Inr p \<and> rp_matches p) \<longleftrightarrow> process i = Inr e) \<and>
   (\<forall>x. wf_replay i e = Inl x \<longleftrightarrow> process i = Inl x)"
proof (cases "process i")
  case (Inl x)
  then show ?thesis by (simp add: wf_replay_def)
next
  case (Inr f)
  then show ?thesis
    by (auto simp: wf_replay_def create_replay_def mk_replay_def Let_def contract_version_def require_def)
qed

section \<open>Request identities\<close>

definition request_text :: "request \<Rightarrow> string" where
  "request_text q = stable_text ''workflow-transition-request''
     [part_run (rq_run q), part_state (rq_prior q), JInt (rq_revision q), part_operation (rq_operation q),
      rep_tuple part_typed_reference (rq_inputs q), rep_tuple part_artifact_record (rq_artifacts q),
      rep_tuple part_decision_record (rq_decisions q), part_actor (rq_actor q),
      part_authority (au_identity (rq_authority q)), part_idempotency (rq_idempotency q),
      part_bounds (rq_bounds q), JStr core_version]"

definition authority_text :: "authority \<Rightarrow> string" where
  "authority_text a = stable_text ''workflow-authority-reference''
     [JStr (au_kind a), part_subject (au_subject a), part_operations (au_operations a), part_external (au_evidence a),
      JStr (au_authority_version a), JStr core_version]"

lemma part_artifact_record_eq:
  "jsort (part_artifact_record a) = jsort (part_artifact_record b) \<Longrightarrow> artifact_ok a \<Longrightarrow> artifact_ok b \<Longrightarrow> a = b"
  by (auto intro!: artifact.equality simp: part_artifact_record_def part_artifact.eq_iff part_external.eq_iff
      part_artifact_disposition.eq_iff artifact_ok_def)

lemma part_decision_record_eq:
  "jsort (part_decision_record a) = jsort (part_decision_record b) \<Longrightarrow> decision_ok a \<Longrightarrow> decision_ok b \<Longrightarrow> a = b"
  by (auto intro!: decision.equality simp: part_decision_record_def part_decision.eq_iff part_external.eq_iff
      part_subject.eq_iff decision_ok_def)

lemma rep_tuple_eq_on:
  assumes "jsort (rep_tuple f xs) = jsort (rep_tuple f ys)"
    and "\<And>x y. x \<in> set xs \<Longrightarrow> y \<in> set ys \<Longrightarrow> jsort (f x) = jsort (f y) \<Longrightarrow> x = y"
  shows "xs = ys"
proof -
  have "map (jsort \<circ> f) xs = map (jsort \<circ> f) ys" using assms(1) by (simp add: rep_tuple_def)
  then show ?thesis using assms(2) by (intro list.inj_map_strong [of xs ys]) simp_all
qed

lemma authority_identity_eqD:
  assumes ok: "authority_ok a" "authority_ok b" and eq: "au_identity a = au_identity b"
  shows "a = b \<or> sha256_collision (authority_text a) (authority_text b)"
proof (cases "authority_text a = authority_text b")
  case True
  have "au_version a = au_version b" using ok by (simp add: authority_ok_def)
  then have "a = b"
    using stable_text_eqD [OF True [unfolded authority_text_def]] eq
    by (auto intro!: authority.equality simp: part_external.eq_iff part_subject.eq_iff part_operations_def
        part_operation.tuple_eq_iff)
  then show ?thesis ..
next
  case False
  then show ?thesis
    using ok eq by (simp add: authority_ok_def authority_reference_identity_def sha256_collision_def
        stable_digest_def authority_text_def)
qed

text \<open>C31: A transition request identity determines the request: two accepted requests with one
  identity are the same request, under the same authority, or exhibit a SHA-256 collision.\<close>

theorem request_identity_determines:
  assumes "request_ok q" "request_ok p" "authority_ok (rq_authority q)" "authority_ok (rq_authority p)"
    and "\<forall>a \<in> set (rq_artifacts q) \<union> set (rq_artifacts p). artifact_ok a"
    and "\<forall>d \<in> set (rq_decisions q) \<union> set (rq_decisions p). decision_ok d"
    and same: "rq_identity q = rq_identity p"
  shows "q = p \<or> sha256_collision (request_text q) (request_text p) \<or>
    sha256_collision (authority_text (rq_authority q)) (authority_text (rq_authority p))"
proof (cases "request_text q = request_text p")
  case True
  note t = stable_text_eqD [OF True [unfolded request_text_def]]
  have "jsort (rep_tuple part_artifact_record (rq_artifacts q)) = jsort (rep_tuple part_artifact_record (rq_artifacts p))"
    "jsort (rep_tuple part_decision_record (rq_decisions q)) = jsort (rep_tuple part_decision_record (rq_decisions p))"
    using t by (simp_all del: jsort.simps)
  then have l: "rq_artifacts q = rq_artifacts p" "rq_decisions q = rq_decisions p"
    using assms(5,6) by (auto elim!: rep_tuple_eq_on intro: part_artifact_record_eq part_decision_record_eq)
  have v: "rq_version q = rq_version p" using assms(1,2) by (simp add: request_ok_def)
  have b: "rq_bounds q = rq_bounds p"
    using t by (auto intro!: request_bounds.equality simp: part_bounds_def)
  have "au_identity (rq_authority q) = au_identity (rq_authority p)" using t by (simp add: part_authority.eq_iff)
  then consider "rq_authority q = rq_authority p"
    | "sha256_collision (authority_text (rq_authority q)) (authority_text (rq_authority p))"
    using authority_identity_eqD [OF assms(3,4)] by blast
  then show ?thesis
  proof cases
    case 1
    then have "q = p"
      using t l v b same
      by (intro request.equality) (simp_all add: part_run.eq_iff part_state.eq_iff part_operation.eq_iff
          part_typed_reference.tuple_eq_iff part_actor.eq_iff part_idempotency.eq_iff)
    then show ?thesis ..
  qed simp
next
  case False
  then show ?thesis
    using assms(1,2) same by (simp add: request_ok_def transition_request_identity_def sha256_collision_def
        stable_digest_def request_text_def)
qed

lemma request_identity_determines_witness:
  "request_ok (review_request_at 0) \<and> (review_request_at 0 = review_request_at 0 \<or>
     sha256_collision (request_text (review_request_at 0)) (request_text (review_request_at 0)) \<or>
     sha256_collision (authority_text review_authority) (authority_text review_authority))"
  using request_identity_determines [of "review_request_at 0" "review_request_at 0"] review_request_ok [of 0]
    review_authority_ok by (simp add: review_request_at_def)

end
