(* ===== verification/Py_Json.thy ===== *)
theory Py_Json
  imports Py_Text
begin

text \<open>
  \<open>json.loads(text, object_pairs_hook=hook)\<close> and the strict decoding of UTF-8, as the serializers use
  them.  The main results are that the scanner always has enough fuel and that it reads back what
  \<open>json.dumps\<close> prints.
\<close>

section \<open>UTF-8\<close>

text \<open>The strict decoder: no overlong forms, no surrogates, nothing above U+10FFFF.\<close>

definition continues :: "nat \<Rightarrow> bool" where
  "continues b \<longleftrightarrow> 128 \<le> b \<and> b < 192"

fun utf8_bytes :: "nat list \<Rightarrow> bool" where
  "utf8_bytes [] = True"
| "utf8_bytes (a # r) =
     (if a < 128 then utf8_bytes r
      else if 194 \<le> a \<and> a < 224
      then (case r of b # r' \<Rightarrow> continues b \<and> utf8_bytes r' | _ \<Rightarrow> False)
      else if 224 \<le> a \<and> a < 240
      then (case r of b # c # r' \<Rightarrow> continues b \<and> continues c \<and> (a = 224 \<longrightarrow> 160 \<le> b) \<and>
              (a = 237 \<longrightarrow> b < 160) \<and> utf8_bytes r' | _ \<Rightarrow> False)
      else if 240 \<le> a \<and> a < 245
      then (case r of b # c # d # r' \<Rightarrow> continues b \<and> continues c \<and> continues d \<and> (a = 240 \<longrightarrow> 144 \<le> b) \<and>
              (a = 244 \<longrightarrow> b < 144) \<and> utf8_bytes r' | _ \<Rightarrow> False)
      else False)"

definition utf8_ok :: "string \<Rightarrow> bool" where
  "utf8_ok s \<longleftrightarrow> utf8_bytes (map of_char s)"

definition utf8_char :: "nat \<Rightarrow> string" where
  "utf8_char n =
     map char_of (if n < 128 then [n]
       else if n < 2048 then [192 + n div 64, 128 + n mod 64]
       else if n < 65536 then [224 + n div 4096, 128 + n div 64 mod 64, 128 + n mod 64]
       else [240 + n div 262144, 128 + n div 4096 mod 64, 128 + n div 64 mod 64, 128 + n mod 64 :: nat])"

section \<open>Scanning\<close>

datatype loaded =
    LNull
  | LBool bool
  | LInt int
  | LReal
  | LStr string
  | LList "loaded list"
  | LObj "(string \<times> loaded) list"

text \<open>A syntax error, an exception of the hook or of \<open>int\<close>, or a scanner out of fuel.\<close>

datatype json_error = Malformed | Raised py_exn | NoFuel

type_synonym 'a scan = "json_error + 'a"

fun bind_scan :: "'a scan \<Rightarrow> ('a \<Rightarrow> 'b scan) \<Rightarrow> 'b scan" where
  "bind_scan (Inl e) f = Inl e"
| "bind_scan (Inr x) f = f x"

lemma bind_scan_cong [fundef_cong]:
  "r = r' \<Longrightarrow> (\<And>x. r' = Inr x \<Longrightarrow> f x = g x) \<Longrightarrow> bind_scan r f = bind_scan r' g"
  by (cases r') auto

lemma bind_scan_Inr: "bind_scan r f = Inr y \<longleftrightarrow> (\<exists>x. r = Inr x \<and> f x = Inr y)"
  by (cases r) auto

lemma bind_scan_Inl: "bind_scan r f = Inl e \<longleftrightarrow> r = Inl e \<or> (\<exists>x. r = Inr x \<and> f x = Inl e)"
  by (cases r) auto

text \<open>
  The hooks of the caller: \<open>object_pairs_hook\<close> for the members of an object, and \<open>parse_float\<close> and
  \<open>parse_constant\<close> for the text of a number that is not an integer.
\<close>

record json_hooks =
  on_object :: "(string \<times> loaded) list \<Rightarrow> loaded result"
  on_real :: "string \<Rightarrow> loaded result"

definition object_hooks :: "((string \<times> loaded) list \<Rightarrow> loaded result) \<Rightarrow> json_hooks" where
  "object_hooks f = \<lparr>on_object = f, on_real = \<lambda>_. Inr LReal\<rparr>"

definition hooked :: "loaded result \<Rightarrow> string \<Rightarrow> (loaded \<times> string) scan" where
  "hooked v r = (case v of Inl e \<Rightarrow> Inl (Raised e) | Inr x \<Rightarrow> Inr (x, r))"

lemma hooked_simps [simp]:
  "hooked (Inr x) r = Inr (x, r)" "hooked (Inl e) r = Inl (Raised e)" "hooked v r \<noteq> Inl NoFuel"
  "hooked v r = Inr (y, r') \<longleftrightarrow> v = Inr y \<and> r' = r"
  by (auto simp: hooked_def split: sum.splits)

definition json_space :: "char \<Rightarrow> bool" where
  "json_space c \<longleftrightarrow> c \<in> {CHR '' '', CHR 0x09, CHR 0x0A, CHR 0x0D}"

definition skip_space :: "string \<Rightarrow> string" where
  "skip_space = dropWhile json_space"

definition json_digit :: "char \<Rightarrow> bool" where
  "json_digit c \<longleftrightarrow> of_char c \<in> {48..57::nat}"

definition hex_digit :: "char \<Rightarrow> bool" where
  "hex_digit c \<longleftrightarrow> of_char c \<in> {48..57::nat} \<union> {65..70} \<union> {97..102}"

definition hex_value :: "char \<Rightarrow> nat" where
  "hex_value c = (let n = of_char c in if n < 58 then n - 48 else if n < 71 then n - 55 else n - 87)"

definition scan_hex4 :: "string \<Rightarrow> (nat \<times> string) scan" where
  "scan_hex4 s =
     (case s of
        a # b # c # d # r \<Rightarrow>
          if list_all hex_digit [a, b, c, d]
          then Inr (foldl (\<lambda>v x. 16 * v + hex_value x) 0 [a, b, c, d], r) else Inl Malformed
      | _ \<Rightarrow> Inl Malformed)"

text \<open>
  One escape after the backslash.  A surrogate pair is one character; a lone surrogate would be a
  string without UTF-8 bytes, which every user of the scanner refuses to encode again.
\<close>

definition scan_escape :: "string \<Rightarrow> (string \<times> string) scan" where
  "scan_escape s =
     (case s of
        [] \<Rightarrow> Inl Malformed
      | c # r \<Rightarrow>
          if c = CHR ''u'' then
            bind_scan (scan_hex4 r) (\<lambda>(n, r').
              if 55296 \<le> n \<and> n < 56320
              then (case r' of
                  x # y # r'' \<Rightarrow>
                    if x = CHR 0x5C \<and> y = CHR ''u''
                    then bind_scan (scan_hex4 r'') (\<lambda>(m, t).
                      if 56320 \<le> m \<and> m < 57344
                      then Inr (utf8_char (65536 + (n - 55296) * 1024 + (m - 56320)), t)
                      else Inl (Raised (ValueError ''surrogates not allowed'')))
                    else Inl (Raised (ValueError ''surrogates not allowed''))
                | _ \<Rightarrow> Inl (Raised (ValueError ''surrogates not allowed'')))
              else if 56320 \<le> n \<and> n < 57344 then Inl (Raised (ValueError ''surrogates not allowed''))
              else Inr (utf8_char n, r'))
          else if c = CHR ''n'' then Inr ([CHR 0x0A], r)
          else if c = CHR ''r'' then Inr ([CHR 0x0D], r)
          else if c = CHR ''t'' then Inr ([CHR 0x09], r)
          else if c = CHR ''f'' then Inr ([CHR 0x0C], r)
          else if c = CHR ''b'' then Inr ([CHR 0x08], r)
          else if c \<in> {CHR 0x22, CHR 0x5C, CHR ''/''} then Inr ([c], r)
          else Inl Malformed)"

text \<open>The characters of a string after its opening quote; each step consumes at least one.\<close>

fun scan_string :: "nat \<Rightarrow> string \<Rightarrow> string \<Rightarrow> (string \<times> string) scan" where
  "scan_string 0 acc s = Inl NoFuel"
| "scan_string (Suc n) acc [] = Inl Malformed"
| "scan_string (Suc n) acc (c # r) =
     (if c = CHR 0x22 then Inr (acc, r)
      else if c = CHR 0x5C then bind_scan (scan_escape r) (\<lambda>(x, r'). scan_string n (acc @ x) r')
      else if of_char c < (32::nat) then Inl Malformed
      else scan_string n (acc @ [c]) r)"

text \<open>\<open>int\<close> refuses texts of more than 4300 digits.\<close>

definition int_digit_limit :: nat where "int_digit_limit = 4300"

definition scan_int :: "bool \<Rightarrow> string \<Rightarrow> int scan" where
  "scan_int neg ds =
     (if int_digit_limit < length ds
      then Inl (Raised (ValueError (''Exceeds the limit (4300 digits) for integer string conversion: value has '' @
        dec_nat (length ds) @ '' digits; use sys.set_int_max_str_digits() to increase the limit'')))
      else Inr (if neg then - int (undec ds) else int (undec ds)))"

definition scan_fraction :: "string \<Rightarrow> string option" where
  "scan_fraction s =
     (case s of
        c # d # r \<Rightarrow> if c = CHR ''.'' \<and> json_digit d then Some (dropWhile json_digit r) else None
      | _ \<Rightarrow> None)"

definition scan_exponent :: "string \<Rightarrow> string option" where
  "scan_exponent s =
     (case s of
        c # r \<Rightarrow>
          if c \<in> {CHR ''e'', CHR ''E''} then
            (let t = (case r of x # u \<Rightarrow> if x \<in> {CHR ''-'', CHR ''+''} then u else r | [] \<Rightarrow> r)
             in case t of d # u \<Rightarrow> if json_digit d then Some (dropWhile json_digit u) else None | [] \<Rightarrow> None)
          else None
      | [] \<Rightarrow> None)"

definition number_tail :: "string \<Rightarrow> string" where
  "number_tail r =
     (let f = (case scan_fraction r of None \<Rightarrow> r | Some r' \<Rightarrow> r')
      in case scan_exponent f of None \<Rightarrow> f | Some r' \<Rightarrow> r')"

definition scan_number :: "(string \<Rightarrow> loaded result) \<Rightarrow> string \<Rightarrow> (loaded \<times> string) scan" where
  "scan_number real s =
     (let neg = (s \<noteq> [] \<and> hd s = CHR ''-''); t = (if neg then tl s else s) in
      case t of
        [] \<Rightarrow> Inl Malformed
      | d # u \<Rightarrow>
          if \<not> json_digit d then Inl Malformed
          else
            let ds = (if d = CHR ''0'' then [d] else d # takeWhile json_digit u);
                r = (if d = CHR ''0'' then u else dropWhile json_digit u)
            in if number_tail r = r then bind_scan (scan_int neg ds) (\<lambda>i. Inr (LInt i, r))
               else hooked (real (take (length s - length (number_tail r)) s)) (number_tail r))"

definition scan_word :: "string \<Rightarrow> loaded result \<Rightarrow> string \<Rightarrow> (loaded \<times> string) scan \<Rightarrow> (loaded \<times> string) scan" where
  "scan_word w v s k = (if take (length w) s = w then hooked v (drop (length w) s) else k)"

definition scan_constant :: "(string \<Rightarrow> loaded result) \<Rightarrow> string \<Rightarrow> (loaded \<times> string) scan" where
  "scan_constant real s =
     scan_word ''null'' (Inr LNull) s (scan_word ''true'' (Inr (LBool True)) s (scan_word ''false'' (Inr (LBool False)) s
    (scan_word ''NaN'' (real ''NaN'') s (scan_word ''Infinity'' (real ''Infinity'') s
    (scan_word ''-Infinity'' (real ''-Infinity'') s (scan_number real s))))))"

fun scan_value :: "json_hooks \<Rightarrow> nat \<Rightarrow> string \<Rightarrow> (loaded \<times> string) scan"
and scan_items :: "json_hooks \<Rightarrow> nat \<Rightarrow> loaded list \<Rightarrow> string \<Rightarrow> (loaded \<times> string) scan"
and scan_members :: "json_hooks \<Rightarrow> nat \<Rightarrow> (string \<times> loaded) list \<Rightarrow> string \<Rightarrow>
  (loaded \<times> string) scan"
where
  "scan_value hook 0 s = Inl NoFuel"
| "scan_value hook (Suc n) s =
     (case s of
        [] \<Rightarrow> Inl Malformed
      | c # r \<Rightarrow>
          if c = CHR 0x22 then bind_scan (scan_string (Suc (length r)) [] r) (\<lambda>(x, r'). Inr (LStr x, r'))
          else if c = CHR ''['' then
            (case skip_space r of
               [] \<Rightarrow> Inl Malformed
             | d # r' \<Rightarrow> if d = CHR '']'' then Inr (LList [], r') else scan_items hook n [] (d # r'))
          else if c = CHR ''{'' then
            (case skip_space r of
               [] \<Rightarrow> Inl Malformed
             | d # r' \<Rightarrow>
                 if d = CHR ''}''
                 then hooked (on_object hook []) r'
                 else scan_members hook n [] (d # r'))
          else scan_constant (on_real hook) (c # r))"
| "scan_items hook 0 acc s = Inl NoFuel"
| "scan_items hook (Suc n) acc s =
     bind_scan (scan_value hook n s) (\<lambda>(v, r).
       case skip_space r of
         [] \<Rightarrow> Inl Malformed
       | c # r' \<Rightarrow>
           if c = CHR '']'' then Inr (LList (acc @ [v]), r')
           else if c = CHR '','' then scan_items hook n (acc @ [v]) (skip_space r')
           else Inl Malformed)"
| "scan_members hook 0 acc s = Inl NoFuel"
| "scan_members hook (Suc n) acc s =
     (case s of
        [] \<Rightarrow> Inl Malformed
      | q # t \<Rightarrow>
          if q \<noteq> CHR 0x22 then Inl Malformed
          else bind_scan (scan_string (Suc (length t)) [] t) (\<lambda>(k, r).
            case skip_space r of
              [] \<Rightarrow> Inl Malformed
            | c # r' \<Rightarrow>
                if c \<noteq> CHR '':'' then Inl Malformed
                else bind_scan (scan_value hook n (skip_space r')) (\<lambda>(v, u).
                  case skip_space u of
                    [] \<Rightarrow> Inl Malformed
                  | d # u' \<Rightarrow>
                      if d = CHR ''}''
                      then hooked (on_object hook (acc @ [(k, v)])) u'
                      else if d = CHR '','' then scan_members hook n (acc @ [(k, v)]) (skip_space u')
                      else Inl Malformed)))"

definition json_loads :: "json_hooks \<Rightarrow> string \<Rightarrow> loaded scan" where
  "json_loads hook s =
     bind_scan (scan_value hook (2 * length s + 2) (skip_space s)) (\<lambda>(v, r).
       if skip_space r = [] then Inr v else Inl Malformed)"

section \<open>The scanner terminates\<close>

lemma skip_space_length: "length (skip_space s) \<le> length s"
  by (simp add: skip_space_def length_dropWhile_le)

lemma skip_space_less: "skip_space s = c # r \<Longrightarrow> length r < length s"
  using skip_space_length [of s] by simp

lemma scan_hex4_length: "scan_hex4 s = Inr (n, r) \<Longrightarrow> length r < length s"
  by (auto simp: scan_hex4_def split: list.splits if_splits)

lemma scan_hex4_fuel: "scan_hex4 s \<noteq> Inl NoFuel"
  by (auto simp: scan_hex4_def split: list.splits)

lemma scan_escape_length: "scan_escape s = Inr (x, r) \<Longrightarrow> length r < length s"
  by (cases s) (auto simp: scan_escape_def bind_scan_Inr split: if_splits list.splits prod.splits dest!: scan_hex4_length)

lemma scan_escape_fuel: "scan_escape s \<noteq> Inl NoFuel"
  using scan_hex4_fuel
  by (cases s) (auto simp: scan_escape_def bind_scan_Inl split: if_splits list.splits prod.splits)

lemma scan_string_length: "scan_string n acc s = Inr (x, r) \<Longrightarrow> length r < length s"
proof (induction n arbitrary: acc s)
  case (Suc n)
  then obtain c t where s: "s = c # t" by (cases s) auto
  consider "c = CHR 0x22" | "c \<noteq> CHR 0x22" "c = CHR 0x5C" | "c \<noteq> CHR 0x22" "c \<noteq> CHR 0x5C" by blast
  then show ?case
  proof cases
    case 2
    then obtain y t' where "scan_escape t = Inr (y, t')" "scan_string n (acc @ y) t' = Inr (x, r)"
      using Suc.prems s by (auto simp: bind_scan_Inr)
    then show ?thesis using Suc.IH [of "acc @ y" t'] scan_escape_length [of t y t'] s by simp
  next
    case 3
    then show ?thesis using Suc.prems Suc.IH [of "acc @ [c]" t] s by (auto split: if_splits)
  qed (use Suc.prems s in auto)
qed simp

lemma scan_string_fuel: "length s < n \<Longrightarrow> scan_string n acc s \<noteq> Inl NoFuel"
proof (induction n arbitrary: acc s)
  case (Suc n)
  show ?case
  proof (cases s)
    case (Cons c t)
    have "scan_string n (acc @ x) r \<noteq> Inl NoFuel" if "scan_escape t = Inr (x, r)" for x r
      using Suc.IH [of r] Suc.prems scan_escape_length [OF that] Cons by simp
    then show ?thesis
      using Suc Cons scan_escape_fuel [of t] by (auto simp: bind_scan_Inl)
  qed simp
qed simp

lemma scan_fraction_length: "scan_fraction s = Some r \<Longrightarrow> length r < length s"
  by (auto simp: scan_fraction_def split: list.splits if_splits intro: le_less_trans [OF length_dropWhile_le])

lemma scan_exponent_length: "scan_exponent s = Some r \<Longrightarrow> length r < length s"
  by (auto simp: scan_exponent_def Let_def split: list.splits if_splits intro: le_less_trans [OF length_dropWhile_le])

lemma number_tail_length: "length (number_tail r) \<le> length r"
proof -
  let ?f = "case scan_fraction r of None \<Rightarrow> r | Some r' \<Rightarrow> r'"
  have "length ?f \<le> length r" using scan_fraction_length [of r] by (cases "scan_fraction r") auto
  moreover have "length (number_tail r) \<le> length ?f"
    using scan_exponent_length [of ?f] by (cases "scan_exponent ?f") (auto simp: number_tail_def)
  ultimately show ?thesis by simp
qed

lemma scan_number_length:
  assumes "scan_number real s = Inr (v, r)"
  shows "length r < length s"
proof -
  define t where "t = (if s \<noteq> [] \<and> hd s = CHR ''-'' then tl s else s)"
  have ts: "length t \<le> length s" by (simp add: t_def)
  obtain d u where du: "t = d # u"
    using assms by (cases t) (auto simp: scan_number_def t_def [symmetric] Let_def)
  define r' where "r' = (if d = CHR ''0'' then u else dropWhile json_digit u)"
  have "length r' \<le> length u" by (simp add: r'_def length_dropWhile_le)
  moreover have "r = r' \<or> r = number_tail r'"
    using assms by (auto simp: scan_number_def t_def [symmetric] du r'_def [symmetric] Let_def bind_scan_Inr
        split: if_splits)
  ultimately show ?thesis using number_tail_length [of r'] du ts by auto
qed

lemma scan_number_fuel: "scan_number real s \<noteq> Inl NoFuel"
  by (auto simp: scan_number_def Let_def bind_scan_Inl scan_int_def split: list.splits if_splits)

lemma scan_word_length:
  "scan_word w v s k = Inr (x, r) \<Longrightarrow> w \<noteq> [] \<Longrightarrow> (k = Inr (x, r) \<Longrightarrow> length r < length s) \<Longrightarrow> length r < length s"
  by (cases s) (auto simp: scan_word_def split: if_splits)

lemma scan_constant_length: "scan_constant real s = Inr (v, r) \<Longrightarrow> length r < length s"
  unfolding scan_constant_def by (elim scan_word_length scan_number_length) simp_all

lemma scan_constant_fuel: "scan_constant real s \<noteq> Inl NoFuel"
  using scan_number_fuel [of real s] by (simp add: scan_constant_def scan_word_def)

lemma scan_lengths:
  "(\<forall>s v r. scan_value hook n s = Inr (v, r) \<longrightarrow> length r < length s) \<and>
   (\<forall>acc s v r. scan_items hook n acc s = Inr (v, r) \<longrightarrow> length r < length s) \<and>
   (\<forall>acc s v r. scan_members hook n acc s = Inr (v, r) \<longrightarrow> length r < length s)"
proof (induction n)
  case (Suc n)
  then have V: "scan_value hook n s = Inr (v, r) \<Longrightarrow> length r < length s"
    and I: "scan_items hook n acc s = Inr (v, r) \<Longrightarrow> length r < length s"
    and M: "scan_members hook n ms s = Inr (v, r) \<Longrightarrow> length r < length s" for s v r acc ms by blast+
  have v: "length r < length s" if "scan_value hook (Suc n) s = Inr (v, r)" for s v r
    using that
    by (auto simp: bind_scan_Inr split: list.splits if_splits sum.splits
        dest!: scan_string_length I M skip_space_less scan_constant_length)
  have i: "length r < length s" if h: "scan_items hook (Suc n) acc s = Inr (v, r)" for acc s v r
  proof -
    obtain x u where xu: "scan_value hook n s = Inr (x, u)"
      using h by (auto simp: bind_scan_Inr)
    with h obtain c t where "skip_space u = c # t"
      by (cases "skip_space u") auto
    with h xu have x: "scan_value hook n s = Inr (x, u)" "skip_space u = c # t"
      "r = t \<or> scan_items hook n (acc @ [x]) (skip_space t) = Inr (v, r)"
      by (auto split: if_splits)
    have "length u < length s" using V [OF x(1)] .
    moreover have "length t < length u" using skip_space_less [OF x(2)] .
    moreover have "length r \<le> length t" using x(3) I [of "acc @ [x]" "skip_space t"] skip_space_length [of t] by auto
    ultimately show ?thesis by simp
  qed
  have m: "length r < length s" if h: "scan_members hook (Suc n) acc s = Inr (v, r)" for acc s v r
  proof -
    obtain t where s: "s = CHR 0x22 # t" using h by (cases s) (auto split: if_splits)
    from h s obtain k u where ku: "scan_string (Suc (length t)) [] t = Inr (k, u)" by (auto simp: bind_scan_Inr)
    from h s ku obtain w where w: "skip_space u = CHR '':'' # w" by (cases "skip_space u") (auto split: if_splits)
    from h s ku w obtain x y where xy: "scan_value hook n (skip_space w) = Inr (x, y)" by (auto simp: bind_scan_Inr)
    from h s ku w xy obtain d z where dz: "skip_space y = d # z" by (cases "skip_space y") auto
    from h s ku w xy dz have "r = z \<or> scan_members hook n (acc @ [(k, x)]) (skip_space z) = Inr (v, r)"
      by (auto split: if_splits sum.splits)
    note x = s ku w xy dz this
    have "length u < length t" "length w < length u" "length z < length y"
      using scan_string_length [OF x(2)] skip_space_less [OF x(3)] skip_space_less [OF x(5)] by simp_all
    moreover have "length y < length w" using V [OF x(4)] skip_space_length [of w] by simp
    moreover have "length r \<le> length z" using x(6) M [of "acc @ [(k, x)]" "skip_space z"] skip_space_length [of z] by auto
    ultimately show ?thesis using x(1) by simp
  qed
  show ?case using v i m by blast
qed simp

lemma scan_fuel:
  "(\<forall>s. 2 * length s < n \<longrightarrow> scan_value hook n s \<noteq> Inl NoFuel) \<and>
   (\<forall>acc s. 2 * length s + 1 < n \<longrightarrow> scan_items hook n acc s \<noteq> Inl NoFuel) \<and>
   (\<forall>acc s. 2 * length s + 1 < n \<longrightarrow> scan_members hook n acc s \<noteq> Inl NoFuel)"
proof (induction n)
  case (Suc n)
  then have V: "2 * length s < n \<Longrightarrow> scan_value hook n s \<noteq> Inl NoFuel"
    and I: "2 * length s + 1 < n \<Longrightarrow> scan_items hook n acc s \<noteq> Inl NoFuel"
    and M: "2 * length s + 1 < n \<Longrightarrow> scan_members hook n ms s \<noteq> Inl NoFuel" for s acc ms by blast+
  have L: "scan_value hook n s = Inr (v, r) \<Longrightarrow> length r < length s" for s v r using scan_lengths by blast
  have v: "scan_value hook (Suc n) s \<noteq> Inl NoFuel" if "2 * length s < Suc n" for s
  proof (cases s)
    case (Cons c t)
    have "scan_items hook n [] (d # u) \<noteq> Inl NoFuel" "scan_members hook n [] (d # u) \<noteq> Inl NoFuel"
      if "skip_space t = d # u" for d u
      using I [of "d # u"] M [of "d # u"] skip_space_less [OF that] \<open>2 * length s < Suc n\<close> Cons by simp_all
    then show ?thesis
      using Cons scan_string_fuel [of t "Suc (length t)"] scan_constant_fuel [of "on_real hook" s]
      by (auto simp: bind_scan_Inl split: list.splits sum.splits)
  qed simp
  have i: "scan_items hook (Suc n) acc s \<noteq> Inl NoFuel" if len: "2 * length s + 1 < Suc n" for acc s
  proof -
    have "scan_items hook n (acc @ [x]) (skip_space t) \<noteq> Inl NoFuel"
      if "scan_value hook n s = Inr (x, u)" "skip_space u = c # t" for x u c t
      using I [of "skip_space t"] L [OF that(1)] skip_space_less [OF that(2)] skip_space_length [of t] len by simp
    then show ?thesis using V [of s] len by (auto simp: bind_scan_Inl split: list.splits)
  qed
  have m: "scan_members hook (Suc n) acc s \<noteq> Inl NoFuel" if len: "2 * length s + 1 < Suc n" for acc s
  proof (cases s)
    case (Cons q t)
    have "scan_value hook n (skip_space w) \<noteq> Inl NoFuel"
      "scan_value hook n (skip_space w) = Inr (x, y) \<Longrightarrow> skip_space y = d # z \<Longrightarrow>
         scan_members hook n (acc @ [(k, x)]) (skip_space z) \<noteq> Inl NoFuel"
      if "scan_string (Suc (length t)) [] t = Inr (k, u)" "skip_space u = c # w" for k u c w x y d z
    proof -
      have l: "length w < length t"
        using scan_string_length [OF that(1)] skip_space_less [OF that(2)] by simp
      then show "scan_value hook n (skip_space w) \<noteq> Inl NoFuel"
        using V [of "skip_space w"] skip_space_length [of w] len Cons by simp
      show "scan_members hook n (acc @ [(k, x)]) (skip_space z) \<noteq> Inl NoFuel"
        if "scan_value hook n (skip_space w) = Inr (x, y)" "skip_space y = d # z"
        using M [of "skip_space z"] L [OF that(1)] skip_space_less [OF that(2)] skip_space_length [of z]
          skip_space_length [of w] l len Cons by simp
    qed
    then show ?thesis
      using Cons scan_string_fuel [of t "Suc (length t)"]
      by (auto simp: bind_scan_Inl split: list.splits sum.splits)
  qed simp
  show ?case using v i m by blast
qed simp

lemma json_loads_terminates: "json_loads hook s \<noteq> Inl NoFuel"
  using scan_fuel [of "2 * length s + 2" hook] skip_space_length [of s]
  by (auto simp: json_loads_def bind_scan_Inl split: if_splits)

section \<open>The scanner reads back printed values\<close>

lemma hex_value_hexd: "d < 16 \<Longrightarrow> hex_value (hexd d) = d \<and> hex_digit (hexd d)"
  by (drule less_16_cases) (auto simp: hexd_def hex_value_def hex_digit_def)

lemma hex_value_hexv: "d < 16 \<Longrightarrow> hex_value (hexd d) = hexv (hexd d)"
  by (simp add: hex_value_hexd)

lemma length_four: "length xs = 4 \<Longrightarrow> \<exists>a b c d. xs = [a, b, c, d]"
  by (simp add: eval_nat_numeral length_Suc_conv, blast)

lemma scan_hex4_fixed: "n < 65536 \<Longrightarrow> scan_hex4 (hex_fixed 4 n @ r) = Inr (n, r)"
proof -
  assume "n < 65536"
  then have n: "unhex (hex_fixed 4 n) = n" by (intro unhex_hex_fixed) simp
  obtain a b c d where h: "hex_fixed 4 n = [a, b, c, d]"
    using length_four [OF length_hex_fixed] by metis
  have "\<exists>k < 16. x = hexd k" if "x \<in> {a, b, c, d}" for x
    using hex_fixed_chars [of x 4 n] that h by auto
  then have "hex_value x = hexv x \<and> hex_digit x" if "x \<in> {a, b, c, d}" for x
    using that hex_value_hexd by fastforce
  then show ?thesis using n by (simp add: h scan_hex4_def unhex_def)
qed

lemma scan_escape_printed:
  assumes "escape_char c = CHR 0x5C # e"
  shows "scan_escape (e @ r) = Inr ([c], r)"
proof (cases "c \<in> {CHR 0x22, CHR 0x5C, CHR 0x0A, CHR 0x0D, CHR 0x09, CHR 0x0C, CHR 0x08}")
  case True
  then show ?thesis using assms by (auto simp: escape_char_def scan_escape_def)
next
  case False
  then have n: "of_char c < (32 :: nat)" and e: "e = CHR ''u'' # hex_fixed 4 (of_char c)"
    using assms by (auto simp: escape_char_def split: if_splits)
  then show ?thesis
    by (simp add: scan_escape_def scan_hex4_fixed utf8_char_def del: hex_fixed.simps)
qed

lemma escape_char_cases:
  obtains e where "escape_char c = CHR 0x5C # e"
  | "escape_char c = [c]" "c \<noteq> CHR 0x22" "c \<noteq> CHR 0x5C" "\<not> of_char c < (32 :: nat)"
  by (cases "escape_char c = [c] \<and> c \<noteq> CHR 0x22 \<and> c \<noteq> CHR 0x5C \<and> \<not> of_char c < (32 :: nat)")
    (auto simp: escape_char_def split: if_splits)

lemma scan_string_printed:
  "length (concat (map escape_char s)) < n \<Longrightarrow>
   scan_string n acc (concat (map escape_char s) @ CHR 0x22 # r) = Inr (acc @ s, r)"
proof (induction s arbitrary: n acc)
  case Nil
  then show ?case by (cases n) auto
next
  case (Cons c s)
  then obtain m where n: "n = Suc m" by (cases n) auto
  show ?case
  proof (cases c rule: escape_char_cases)
    case (1 e)
    then show ?thesis
      using Cons.IH [of m "acc @ [c]"] Cons.prems n
        scan_escape_printed [OF 1, of "concat (map escape_char s) @ CHR 0x22 # r"] by simp
  next
    case 2
    then show ?thesis using Cons.IH [of m "acc @ [c]"] Cons.prems n by simp
  qed
qed

lemma json_string_scanned:
  "json_string s @ r = CHR 0x22 # t \<Longrightarrow> scan_string (Suc (length t)) [] t = Inr (s, r)"
  using scan_string_printed [of s "Suc (length t)" "[]" r] by (auto simp: json_string_def)

lemma dec_nat_digits: "c \<in> set (dec_nat n) \<Longrightarrow> json_digit c"
  using dec_nat_digit by (simp add: json_digit_def)

lemma dec_nat_zero: "dec_nat n = CHR ''0'' # u \<Longrightarrow> n = 0 \<and> u = []"
proof (induction n arbitrary: u rule: dec_nat.induct)
  case (1 n)
  show ?case
  proof (cases "n < 10")
    case True
    then have "hexd n = hexd 0" "u = []" using "1.prems" by (simp_all add: dec_nat.simps hexd_def)
    then show ?thesis using True hexd_inj [of n 0] by simp
  next
    case False
    then obtain w where "dec_nat (n div 10) = CHR ''0'' # w"
      using "1.prems" by (subst (asm) dec_nat.simps) (cases "dec_nat (n div 10)"; auto)
    then have "n div 10 = 0" using "1.IH" False by blast
    then show ?thesis using False by simp
  qed
qed

lemma follow_no_number: "follow r \<Longrightarrow> number_tail r = r \<and> takeWhile json_digit r = [] \<and> dropWhile json_digit r = r"
  by (cases r) (auto simp: follow_def number_tail_def scan_fraction_def scan_exponent_def json_digit_def split: list.splits)

lemma scan_int_text: "length (dec_nat n) \<le> int_digit_limit \<Longrightarrow> scan_int neg (dec_nat n) = Inr (if neg then - int n else int n)"
  by (simp add: scan_int_def undec_dec_nat)

definition printable_int :: "int \<Rightarrow> bool" where
  "printable_int i \<longleftrightarrow> length (dec_nat (nat \<bar>i\<bar>)) \<le> int_digit_limit"

lemma scan_number_printed:
  assumes "printable_int i" "follow r"
  shows "scan_number real (dec_int i @ r) = Inr (LInt i, r)"
proof -
  let ?n = "nat \<bar>i\<bar>"
  obtain d u where du: "dec_nat ?n = d # u" by (cases "dec_nat ?n") auto
  have shape: "dec_int i = (if i < 0 then CHR ''-'' # d # u else d # u)"
    using du by (auto simp: dec_int_def)
  have digits: "json_digit d" "\<forall>c \<in> set u. json_digit c" using dec_nat_digits [of _ ?n] du by auto
  have dm: "d \<noteq> CHR ''-''" using digits by (auto simp: json_digit_def)
  have zero: "d = CHR ''0'' \<Longrightarrow> u = []" using dec_nat_zero [of ?n u] du by simp
  have "takeWhile json_digit (u @ r) = u" "dropWhile json_digit (u @ r) = r"
    using digits follow_no_number [OF assms(2)] by (simp_all add: takeWhile_append2 dropWhile_append2)
  moreover have "scan_int neg (d # u) = Inr (if neg then - int ?n else int ?n)" for neg
    using scan_int_text [of ?n neg] assms(1) du by (simp add: printable_int_def)
  ultimately show ?thesis
    using digits dm zero shape follow_no_number [OF assms(2)]
    by (cases "d = CHR ''0''") (auto simp: scan_number_def Let_def)
qed

text \<open>The value that is loaded from the text of a value: object members are in key order.\<close>

fun loaded_of :: "json \<Rightarrow> loaded" where
  "loaded_of JNull = LNull"
| "loaded_of (JBool b) = LBool b"
| "loaded_of (JInt i) = LInt i"
| "loaded_of (JStr s) = LStr s"
| "loaded_of (JList xs) = LList (map loaded_of xs)"
| "loaded_of (JObj kvs) = LObj (sort_key fst (map (\<lambda>(k, v). (k, loaded_of v)) kvs))"

fun loadable :: "json \<Rightarrow> bool" where
  "loadable (JInt i) = printable_int i"
| "loadable (JList xs) = list_all loadable xs"
| "loadable (JObj kvs) = (distinct (map fst kvs) \<and> list_all (\<lambda>(k, v). loadable v) kvs)"
| "loadable _ = True"

lemma dumps_start: "\<exists>c w. dumps j = c # w \<and> \<not> json_space c \<and> c \<notin> {CHR '','', CHR '']'', CHR ''}''}"
proof (cases j)
  case (JInt i)
  obtain c w where "dec_int i = c # w" "num_char c" by (rule dec_int_Cons)
  with JInt show ?thesis by (auto simp: num_char_def json_space_def)
qed (auto simp: json_string_def json_space_def)

lemma skip_space_dumps [simp]: "skip_space (dumps j @ r) = dumps j @ r"
  using dumps_start [of j] by (auto simp: skip_space_def)

lemma skip_space_token [simp]: "\<not> json_space c \<Longrightarrow> skip_space (c # r) = c # r"
  by (simp add: skip_space_def)

lemma not_space [simp]:
  "\<not> json_space (CHR '','')" "\<not> json_space (CHR '']'')" "\<not> json_space (CHR ''}'')" "\<not> json_space (CHR '':'')"
  "\<not> json_space (CHR 0x22)"
  by (simp_all add: json_space_def)

text \<open>A hook that keeps distinct members, and what scanning a text with enough fuel returns.\<close>

definition keeps_members :: "json_hooks \<Rightarrow> bool" where
  "keeps_members hook \<longleftrightarrow> (\<forall>ps. distinct (map fst ps) \<longrightarrow> on_object hook ps = Inr (LObj ps))"

definition scanned :: "json_hooks \<Rightarrow> json \<Rightarrow> bool" where
  "scanned hook j \<longleftrightarrow> (\<forall>n r. 2 * length (dumps j) \<le> n \<longrightarrow> follow r \<longrightarrow>
     scan_value hook n (dumps j @ r) = Inr (loaded_of j, r))"

lemma scanned_items:
  assumes "\<And>j. j \<in> set js \<Longrightarrow> scanned hook j" "js \<noteq> []" "2 * length (join_comma (map dumps js) @ [CHR '']'']) \<le> n"
  shows "scan_items hook n acc (join_comma (map dumps js) @ CHR '']'' # r) = Inr (LList (acc @ map loaded_of js), r)"
  using assms
proof (induction js arbitrary: n acc)
  case (Cons j js)
  then obtain m where n: "n = Suc m" by (cases n) auto
  have sj: "scan_value hook m (dumps j @ x) = Inr (loaded_of j, x)" if "follow x" for x
  proof -
    have "2 * length (dumps j) \<le> m" using Cons.prems(3) n by (cases js) auto
    then show ?thesis using Cons.prems(1) [of j] that by (simp add: scanned_def)
  qed
  show ?case
  proof (cases js)
    case Nil
    then show ?thesis using sj [of "CHR '']'' # r"] n by (simp add: follow_def)
  next
    case (Cons k ks)
    have "scan_items hook m (acc @ [loaded_of j]) (join_comma (map dumps js) @ CHR '']'' # r) =
        Inr (LList ((acc @ [loaded_of j]) @ map loaded_of js), r)"
      using Cons.IH [of m "acc @ [loaded_of j]"] Cons.prems n \<open>js = k # ks\<close> by simp
    moreover have "skip_space (join_comma (map dumps js) @ CHR '']'' # r) = join_comma (map dumps js) @ CHR '']'' # r"
      using skip_space_dumps [of k] Cons by (cases ks) simp_all
    ultimately show ?thesis
      using sj [of "CHR '','' # join_comma (map dumps js) @ CHR '']'' # r"] n Cons by (simp add: follow_def)
  qed
qed simp

definition member_of :: "string \<times> json \<Rightarrow> string" where
  "member_of = (\<lambda>(k, j). json_string k @ CHR '':'' # dumps j)"

lemma member_of_start: "\<exists>t. member_of m = CHR 0x22 # t"
  by (cases m) (simp add: member_of_def json_string_def)

lemma scanned_member:
  assumes "scanned hook j" "2 * length (member_of (k, j)) \<le> n" "follow x" "member_of (k, j) @ x = CHR 0x22 # t"
  shows "\<exists>u. scan_string (Suc (length t)) [] t = Inr (k, CHR '':'' # u) \<and> skip_space u = u \<and>
    scan_value hook (n - 1) u = Inr (loaded_of j, x)"
proof (intro exI conjI)
  have "json_string k @ CHR '':'' # dumps j @ x = CHR 0x22 # t" using assms(4) by (simp add: member_of_def)
  then show "scan_string (Suc (length t)) [] t = Inr (k, CHR '':'' # dumps j @ x)" by (rule json_string_scanned)
  have "2 * length (dumps j) \<le> n - 1" using assms(2) by (simp add: member_of_def)
  then show "scan_value hook (n - 1) (dumps j @ x) = Inr (loaded_of j, x)"
    using assms(1,3) by (simp add: scanned_def)
qed simp

lemma scanned_members:
  assumes "\<And>m. m \<in> set ms \<Longrightarrow> scanned hook (snd m)" "ms \<noteq> []"
    "2 * length (join_comma (map member_of ms) @ [CHR ''}'']) \<le> n"
    "on_object hook (acc @ map (\<lambda>(k, j). (k, loaded_of j)) ms) = Inr w"
  shows "scan_members hook n acc (join_comma (map member_of ms) @ CHR ''}'' # r) = Inr (w, r)"
  using assms
proof (induction ms arbitrary: n acc)
  case (Cons m ms)
  obtain k j where m: "m = (k, j)" by fastforce
  obtain n' where n: "n = Suc n'" using Cons.prems(3) by (cases n) auto
  have len: "2 * length (member_of (k, j)) \<le> n" using Cons.prems(3) m by (cases ms) auto
  obtain t0 where t0: "member_of (k, j) = CHR 0x22 # t0" using member_of_start by blast
  have sj: "scanned hook j" using Cons.prems(1) [of m] m by simp
  have step: "\<exists>u. scan_string (Suc (length (t0 @ x))) [] (t0 @ x) = Inr (k, CHR '':'' # u) \<and> skip_space u = u \<and>
      scan_value hook n' u = Inr (loaded_of j, x)" if "follow x" for x
    using scanned_member [OF sj len that, of "t0 @ x"] t0 n by simp
  show ?case
  proof (cases ms)
    case Nil
    obtain u where "scan_string (Suc (length (t0 @ CHR ''}'' # r))) [] (t0 @ CHR ''}'' # r) = Inr (k, CHR '':'' # u)"
      "skip_space u = u" "scan_value hook n' u = Inr (loaded_of j, CHR ''}'' # r)"
      using step [of "CHR ''}'' # r"] by (auto simp: follow_def)
    then show ?thesis using Nil n m t0 Cons.prems(4) by simp
  next
    case (Cons m2 ms2)
    let ?rest = "join_comma (map member_of ms) @ CHR ''}'' # r"
    obtain u where u: "scan_string (Suc (length (t0 @ CHR '','' # ?rest))) [] (t0 @ CHR '','' # ?rest) = Inr (k, CHR '':'' # u)"
      "skip_space u = u" "scan_value hook n' u = Inr (loaded_of j, CHR '','' # ?rest)"
      using step [of "CHR '','' # ?rest"] by (auto simp: follow_def)
    have ih: "scan_members hook n' (acc @ [(k, loaded_of j)]) ?rest = Inr (w, r)"
      using Cons.IH [of n' "acc @ [(k, loaded_of j)]"] Cons.prems n m \<open>ms = m2 # ms2\<close> by simp
    have sp: "skip_space ?rest = ?rest"
      using member_of_start [of m2] Cons by (cases ms2) auto
    have "join_comma (map member_of (m # ms)) @ CHR ''}'' # r = CHR 0x22 # t0 @ CHR '','' # ?rest"
      using Cons m t0 by simp
    then show ?thesis using u ih sp n by simp
  qed
qed simp

lemma scan_value_constant:
  "0 < n \<Longrightarrow> c \<notin> {CHR 0x22, CHR ''['', CHR ''{''} \<Longrightarrow> scan_value hook n (c # r) = scan_constant (on_real hook) (c # r)"
  by (cases n) simp_all

lemma scan_printed:
  assumes "keeps_members hook" "loadable j"
  shows "scanned hook j"
  using assms(2)
proof (induction j)
  case JNull
  then show ?case by (auto simp: scanned_def scan_value_constant scan_constant_def scan_word_def)
next
  case (JBool b)
  then show ?case by (auto simp: scanned_def scan_value_constant scan_constant_def scan_word_def)
next
  case (JInt i)
  obtain c w where cw: "dec_int i = c # w" "num_char c" by (rule dec_int_Cons)
  have ninf: "take (length ''-Infinity'') (dec_int i @ r) \<noteq> ''-Infinity''" for r
  proof -
    obtain d u where d: "dec_nat (nat (- i)) = d # u" "json_digit d"
      using dec_nat_digits [of _ "nat (- i)"] by (cases "dec_nat (nat (- i))") auto
    have "c = CHR ''-'' \<Longrightarrow> w = d # u"
      using cw d minus_notin_dec_nat [of "nat i"] by (auto simp: dec_int_def split: if_splits)
    then show ?thesis using cw d by (auto simp: json_digit_def)
  qed
  have ne: "c \<notin> {CHR 0x22, CHR ''['', CHR ''{'', CHR ''n'', CHR ''t'', CHR ''f'', CHR ''N'', CHR ''I''}"
    using cw(2) by (auto simp: num_char_def)
  show ?case
    unfolding scanned_def
  proof (intro allI impI)
    fix n r assume "2 * length (dumps (JInt i)) \<le> n" and f: "follow r"
    then obtain m where "n = Suc m" using cw by (cases n) auto
    then show "scan_value hook n (dumps (JInt i) @ r) = Inr (loaded_of (JInt i), r)"
      using scan_number_printed [OF _ f, of i] JInt cw ne ninf [of r]
      by (auto simp: scan_constant_def scan_word_def)
  qed
next
  case (JStr s)
  show ?case
    unfolding scanned_def
  proof (intro allI impI)
    fix n r assume "2 * length (dumps (JStr s)) \<le> n"
    then obtain m where n: "n = Suc m" by (cases n) (auto simp: json_string_def)
    obtain t where t: "json_string s @ r = CHR 0x22 # t" by (auto simp: json_string_def)
    show "scan_value hook n (dumps (JStr s) @ r) = Inr (loaded_of (JStr s), r)"
      using json_string_scanned [OF t] t n by simp
  qed
next
  case (JList xs)
  then have sc: "scanned hook x" if "x \<in> set xs" for x using that by (auto simp: list_all_iff)
  show ?case
    unfolding scanned_def
  proof (intro allI impI)
    fix n r assume len: "2 * length (dumps (JList xs)) \<le> n"
    then obtain m where n: "n = Suc m" by (cases n) auto
    show "scan_value hook n (dumps (JList xs) @ r) = Inr (loaded_of (JList xs), r)"
    proof (cases xs)
      case (Cons y ys)
      have "scan_items hook m [] (join_comma (map dumps xs) @ CHR '']'' # r) = Inr (LList (map loaded_of xs), r)"
        using scanned_items [of xs hook m "[]" r] sc len n Cons by simp
      moreover obtain c w where "dumps y = c # w" "\<not> json_space c" "c \<noteq> CHR '']''" using dumps_start [of y] by auto
      moreover from this obtain w' where "join_comma (map dumps xs) @ CHR '']'' # r = c # w'"
        using Cons by (cases ys) auto
      ultimately show ?thesis using n by simp
    qed (simp add: n)
  qed
next
  case (JObj kvs)
  let ?ms = "sort_key fst kvs"
  have sc: "scanned hook (snd m)" if "m \<in> set ?ms" for m
    using JObj that by (cases m) (auto simp: list_all_iff)
  have d: "distinct (map fst ?ms)" using JObj.prems by (simp add: distinct_map)
  have lo: "loaded_of (JObj kvs) = LObj (map (\<lambda>(k, v). (k, loaded_of v)) ?ms)"
    by (simp add: sort_key_fst_map)
  have du: "dumps (JObj kvs) = CHR ''{'' # join_comma (map member_of ?ms) @ [CHR ''}'']"
    by (simp only: dumps.simps sort_key_fst_map) (simp add: member_of_def comp_def case_prod_unfold)
  have hk: "on_object hook (map (\<lambda>(k, v). (k, loaded_of v)) ?ms) = Inr (loaded_of (JObj kvs))"
    using assms(1) d unfolding keeps_members_def lo by (simp add: comp_def split_beta)
  show ?case
    unfolding scanned_def
  proof (intro allI impI)
    fix n r assume len: "2 * length (dumps (JObj kvs)) \<le> n"
    then obtain m where n: "n = Suc m" using du by (cases n) auto
    show "scan_value hook n (dumps (JObj kvs) @ r) = Inr (loaded_of (JObj kvs), r)"
    proof (cases "?ms")
      case Nil
      then show ?thesis using hk n du by (simp del: loaded_of.simps dumps.simps)
    next
      case (Cons y ys)
      have "scan_members hook m [] (join_comma (map member_of ?ms) @ CHR ''}'' # r) = Inr (loaded_of (JObj kvs), r)"
        using scanned_members [of ?ms hook m "[]" "loaded_of (JObj kvs)" r] sc hk len n du Cons by simp
      moreover obtain w where "join_comma (map member_of ?ms) @ CHR ''}'' # r = CHR 0x22 # w"
        using member_of_start [of y] Cons by (cases ys) auto
      ultimately show ?thesis using n du by (simp del: loaded_of.simps dumps.simps)
    qed
  qed
qed

text \<open>\<open>json.loads(json.dumps(value))\<close>.\<close>

lemma json_loads_dumps:
  assumes "keeps_members hook" "loadable j"
  shows "json_loads hook (dumps j) = Inr (loaded_of j)"
proof -
  have "scan_value hook (2 * length (dumps j) + 2) (dumps j @ []) = Inr (loaded_of j, [])"
    by (rule scan_printed [OF assms, unfolded scanned_def, rule_format]) (simp_all add: follow_def)
  moreover have "skip_space (dumps j) = dumps j" using skip_space_dumps [of j "[]"] by simp
  ultimately show ?thesis by (simp add: json_loads_def skip_space_def)
qed

end
