(* ===== verification/Py_Utf8.thy ===== *)
theory Py_Utf8
  imports Py_Json
begin

text \<open>
  \<open>json.dumps\<close> of values whose strings are UTF-8 is UTF-8: the escapes only replace ASCII characters.
\<close>

text \<open>The shapes of a character.\<close>

lemma utf8_bytes_cases:
  assumes "utf8_bytes (a # r)"
  obtains "a < 128" "utf8_bytes r"
  | b r' where "194 \<le> a" "a < 224" "r = b # r'" "continues b" "utf8_bytes r'"
  | b c r' where "224 \<le> a" "a < 240" "r = b # c # r'" "continues b" "continues c" "a = 224 \<longrightarrow> 160 \<le> b"
      "a = 237 \<longrightarrow> b < 160" "utf8_bytes r'"
  | b c d r' where "240 \<le> a" "a < 245" "r = b # c # d # r'" "continues b" "continues c" "continues d"
      "a = 240 \<longrightarrow> 144 \<le> b" "a = 244 \<longrightarrow> b < 144" "utf8_bytes r'"
proof -
  consider "a < 128" | "194 \<le> a \<and> a < 224" | "224 \<le> a \<and> a < 240" | "240 \<le> a \<and> a < 245"
    using assms by (auto split: if_splits)
  then show thesis
  proof cases
    case 1
    then show ?thesis using assms that(1) by simp
  next
    case 2
    then show ?thesis using assms that(2) by (cases r) auto
  next
    case 3
    then show ?thesis using assms that(3) by (auto split: list.splits)
  next
    case 4
    then show ?thesis using assms that(4) by (auto split: list.splits)
  qed
qed

lemma utf8_bytes_append: "utf8_bytes a \<Longrightarrow> utf8_bytes (a @ b) = utf8_bytes b"
proof (induction a rule: length_induct)
  case (1 a)
  show ?case
  proof (cases a)
    case (Cons x r)
    show ?thesis using 1(2) unfolding Cons by (rule utf8_bytes_cases) (use 1(1) Cons in simp_all)
  qed simp
qed

lemma utf8_append: "utf8_ok s \<Longrightarrow> utf8_ok (s @ t) = utf8_ok t"
  by (simp add: utf8_ok_def utf8_bytes_append)

definition ascii :: "string \<Rightarrow> bool" where
  "ascii s \<longleftrightarrow> list_all (\<lambda>c. of_char c < (128 :: nat)) s"

lemma ascii_utf8: "ascii s \<Longrightarrow> utf8_ok s"
  by (induction s) (auto simp: ascii_def utf8_ok_def)

lemma utf8_Cons: "of_char c < (128 :: nat) \<Longrightarrow> utf8_ok (c # s) = utf8_ok s"
  by (simp add: utf8_ok_def)

lemma utf8_snoc: "utf8_ok s \<Longrightarrow> of_char c < (128 :: nat) \<Longrightarrow> utf8_ok (s @ [c])"
  by (simp add: utf8_append) (simp add: utf8_ok_def)

lemma utf8_concat: "list_all utf8_ok ss \<Longrightarrow> utf8_ok (concat ss)"
proof (induction ss)
  case Nil
  show ?case by (simp add: utf8_ok_def)
qed (simp add: utf8_append)

lemma hexd_ascii: "d < 16 \<Longrightarrow> of_char (hexd d) < (128 :: nat)"
  by (auto simp: of_char_hexd)

lemma escape_ascii: "of_char c < (128 :: nat) \<Longrightarrow> ascii (escape_char c)"
  using hex_fixed_chars hexd_ascii by (fastforce simp: ascii_def escape_char_def list_all_iff)

lemma escape_high:
  assumes "(128 :: nat) \<le> of_char c"
  shows "escape_char c = [c]"
proof -
  have "c \<noteq> CHR 0x22" "c \<noteq> CHR 0x5C" "c \<noteq> CHR 0x0A" "c \<noteq> CHR 0x0D" "c \<noteq> CHR 0x09" "c \<noteq> CHR 0x0C" "c \<noteq> CHR 0x08"
    using assms by auto
  then show ?thesis using assms by (simp add: escape_char_def)
qed

lemma high_bytes:
  "continues (of_char c) \<Longrightarrow> escape_char c = [c]" "194 \<le> (of_char c :: nat) \<Longrightarrow> escape_char c = [c]"
  by (simp_all add: escape_high continues_def)

lemma escaped_utf8: "utf8_ok s \<Longrightarrow> utf8_ok (concat (map escape_char s))"
proof (induction s rule: length_induct)
  case (1 s)
  have IH: "utf8_bytes (map of_char (concat (map escape_char t)))" if "length t < length s" "utf8_bytes (map of_char t)" for t
    using 1(1) that by (simp add: utf8_ok_def)
  show ?case
  proof (cases s)
    case (Cons c t)
    have "utf8_bytes (of_char c # map of_char t)" using 1(2) by (simp add: Cons utf8_ok_def)
    then show ?thesis
    proof (rule utf8_bytes_cases)
      assume "of_char c < (128 :: nat)" "utf8_bytes (map of_char t)"
      then show ?thesis
        using IH [of t] ascii_utf8 [OF escape_ascii] by (simp add: Cons utf8_append) (simp add: utf8_ok_def)
    qed (use IH in \<open>auto simp: Cons utf8_ok_def high_bytes\<close>)
  qed (simp add: utf8_ok_def)
qed

lemma utf8_json_string: "utf8_ok s \<Longrightarrow> utf8_ok (json_string s)"
  using escaped_utf8 [of s] by (simp add: json_string_def utf8_Cons utf8_snoc)

lemma dec_int_ascii: "ascii (dec_int i)"
  using dec_int_chars by (fastforce simp: ascii_def list_all_iff)

lemma utf8_join: "list_all utf8_ok ss \<Longrightarrow> utf8_ok (join_comma ss)"
  by (induction ss rule: join_comma.induct) (simp_all add: utf8_append utf8_Cons, simp add: utf8_ok_def)

fun json_utf8 :: "json \<Rightarrow> bool" where
  "json_utf8 (JStr s) = utf8_ok s"
| "json_utf8 (JList xs) = list_all json_utf8 xs"
| "json_utf8 (JObj kvs) = list_all (\<lambda>(k, v). utf8_ok k \<and> json_utf8 v) kvs"
| "json_utf8 j = True"

lemma utf8_dumps: "json_utf8 j \<Longrightarrow> utf8_ok (dumps j)"
proof (induction j)
  case (JList xs)
  then show ?case
    by (auto simp: utf8_Cons list_all_iff intro!: utf8_join utf8_snoc)
next
  case (JObj kvs)
  have "list_all utf8_ok (map (\<lambda>(k, t). json_string k @ CHR '':'' # t) (sort_key fst (map (\<lambda>(k, v). (k, dumps v)) kvs)))"
    using JObj by (fastforce simp: list_all_iff utf8_append utf8_Cons utf8_json_string)
  from utf8_join [OF this] show ?case
    by (simp add: utf8_Cons utf8_snoc)
qed (simp_all add: utf8_json_string ascii_utf8 dec_int_ascii ascii_utf8 [unfolded ascii_def])

text \<open>
  What the serializers share: prefixes, the UTF-8 byte order mark, and the members of a loaded object.
\<close>

definition starts :: "string \<Rightarrow> string \<Rightarrow> bool" where
  "starts p s \<longleftrightarrow> take (length p) s = p"

definition ends :: "string \<Rightarrow> string \<Rightarrow> bool" where
  "ends p s \<longleftrightarrow> length p \<le> length s \<and> drop (length s - length p) s = p"

definition utf8_bom :: string where "utf8_bom = [CHR 0xEF, CHR 0xBB, CHR 0xBF]"

lemma starts_brace: "\<not> starts utf8_bom (CHR ''{'' # s)"
  by (simp add: starts_def utf8_bom_def)

definition member :: "string \<Rightarrow> (string \<times> loaded) list \<Rightarrow> loaded" where
  "member k ps = (case map_of ps k of None \<Rightarrow> LNull | Some v \<Rightarrow> v)"

lemma member_sorted:
  assumes "distinct (map fst kvs)" "(k, v) \<in> set kvs"
  shows "member k (sort_key fst (map (\<lambda>(k, v). (k, loaded_of v)) kvs)) = loaded_of v"
proof -
  have "distinct (map fst (map (\<lambda>(k, v). (k, loaded_of v)) kvs))"
    using assms(1) by (simp add: comp_def case_prod_beta)
  from canonical_sort_key [OF this]
  have "distinct (map fst (sort_key fst (map (\<lambda>(k, v). (k, loaded_of v)) kvs)))"
    unfolding canonical_def by blast
  moreover have "(k, loaded_of v) \<in> set (sort_key fst (map (\<lambda>(k, v). (k, loaded_of v)) kvs))"
    using assms(2) by force
  ultimately show ?thesis by (simp add: member_def)
qed

text \<open>The members of a printed object, read back.\<close>

definition members :: "(string \<times> json) list \<Rightarrow> (string \<times> loaded) list" where
  "members kvs = sort_key fst (map (\<lambda>(k, v). (k, loaded_of v)) kvs)"

lemma loaded_of_members: "loaded_of (JObj kvs) = LObj (members kvs)"
  by (simp add: members_def)

lemma members_keys: "set (map fst (members kvs)) = set (map fst kvs)"
  unfolding members_def set_map set_sort image_image by (simp add: case_prod_beta)

lemma member_members: "distinct (map fst kvs) \<Longrightarrow> (k, v) \<in> set kvs \<Longrightarrow> member k (members kvs) = loaded_of v"
  unfolding members_def by (rule member_sorted)

end
