(* ===== verification/Py_Pattern.thy ===== *)
theory Py_Pattern
  imports Core_Identities
begin

text \<open>
  The regular expressions of the records, each as the test that \<open>fullmatch\<close> makes.  Every character
  they accept is ASCII, so bytes and characters agree on accepted strings.
\<close>

definition alnum :: "char \<Rightarrow> bool" where
  "alnum c \<longleftrightarrow> of_char c \<in> {48..57::nat} \<union> {65..90} \<union> {97..122}"

text \<open>\<open>[A-Za-z0-9][A-Za-z0-9._:-]{0,511}\<close>.\<close>

definition identity_grammar :: "string \<Rightarrow> bool" where
  "identity_grammar s \<longleftrightarrow> s \<noteq> [] \<and> alnum (hd s) \<and> length (tl s) \<le> 511 \<and>
     list_all (\<lambda>c. alnum c \<or> c \<in> {CHR ''.'', CHR ''_'', CHR '':'', CHR ''-''}) (tl s)"

text \<open>\<open>[0-9a-f]{64}\<close>.\<close>

definition hex64 :: "string \<Rightarrow> bool" where
  "hex64 s \<longleftrightarrow> length s = 64 \<and> list_all (\<lambda>c. of_char c \<in> {48..57::nat} \<union> {97..102}) s"

text \<open>A fixed prefix followed by \<open>[0-9a-f]{64}\<close>; the digest is the rest of the string.\<close>

definition prefixed_digest :: "string \<Rightarrow> string \<Rightarrow> bool" where
  "prefixed_digest p s \<longleftrightarrow> take (length p) s = p \<and> hex64 (drop (length p) s)"

text \<open>\<open>[A-Za-z0-9][A-Za-z0-9!#$&^_.+-]*/[A-Za-z0-9!#$&^_.+-]+\<close>: the slash is in neither class.\<close>

definition media_char :: "char \<Rightarrow> bool" where
  "media_char c \<longleftrightarrow> alnum c \<or> c \<in> set ''!#$&^_.+-''"

definition media_grammar :: "string \<Rightarrow> bool" where
  "media_grammar s \<longleftrightarrow>
     (let kind = takeWhile (\<lambda>c. c \<noteq> CHR ''/'') s; rest = dropWhile (\<lambda>c. c \<noteq> CHR ''/'') s in
      kind \<noteq> [] \<and> alnum (hd kind) \<and> list_all media_char (tl kind) \<and>
      rest \<noteq> [] \<and> tl rest \<noteq> [] \<and> list_all media_char (tl rest))"

section \<open>What they accept\<close>

lemma hex64_sha256: "hex64 (sha256_hex s)"
proof -
  have "of_char c \<in> {48..57::nat} \<union> {97..102}" if "c \<in> set (sha256_hex s)" for c
    using sha256_hex_chars [OF that] by (auto simp: of_char_hexd split: if_splits)
  then show ?thesis using digest_chars [OF digest_spelling_sha256 [of s]] by (auto simp: hex64_def list_all_iff)
qed

lemma prefixed_digestE:
  assumes "prefixed_digest p s"
  obtains d where "s = p @ d" "hex64 d"
proof -
  have "s = p @ drop (length p) s"
    using assms append_take_drop_id [of "length p" s] by (simp add: prefixed_digest_def)
  then show ?thesis using assms that by (simp add: prefixed_digest_def)
qed

lemma prefixed_digestI: "hex64 d \<Longrightarrow> prefixed_digest p (p @ d)"
  by (simp add: prefixed_digest_def)

lemma prefixed_digest_length: "prefixed_digest p s \<Longrightarrow> length s = length p + 64"
  by (erule prefixed_digestE) (simp add: hex64_def)

lemma identity_grammar_length: "identity_grammar s \<Longrightarrow> s \<noteq> [] \<and> length s \<le> 512"
  by (cases s) (auto simp: identity_grammar_def)

end
