(* ===== verification/Runtime_Records.thy ===== *)
theory Runtime_Records
  imports Core_Lifecycle Py_Utf8 Py_Pattern
begin

text \<open>
  \<open>runtime/records.py\<close>: the identities, evidence references and events of the local runtime.  The
  constructor of an event also receives values that were just loaded from JSON, so the two integers
  and the reason codes arrive as loaded values.
\<close>

section \<open>Identities\<close>

definition runtime_version :: string where "runtime_version = ''0.1.0''"
definition runtime_implementation :: string where
  "runtime_implementation = ''projectkoios-workflow.local-runtime:0.1.0''"
definition max_runtime_references :: nat where "max_runtime_references = 256"
definition max_runtime_reasons :: nat where "max_runtime_reasons = 64"
definition max_runtime_text :: nat where "max_runtime_text = 512"

definition check_identity :: "loaded \<Rightarrow> string \<Rightarrow> 'a result \<Rightarrow> 'a result" where
  "check_identity v field k =
     (case v of
        LStr s \<Rightarrow> require (identity_grammar s) (field @ '' has an invalid identity grammar'') k
      | _ \<Rightarrow> Inl (TypeError (field @ '' must be a built-in str'')))"

definition content_identity :: "string \<Rightarrow> json list \<Rightarrow> string" where
  "content_identity domain parts =
     sha256_hex (dumps (JObj [(''domain'', JStr domain), (''parts'', JList parts)]))"

lemma content_identity_stable: "content_identity d ps = stable_digest d ps"
  by (simp add: content_identity_def stable_digest_def stable_text_def)

datatype event_id = EventId (event_value: string)
datatype occurrence_id = OccurrenceId (occurrence_value: string)

definition mk_event_id :: "loaded \<Rightarrow> event_id result" where
  "mk_event_id v =
     (case v of
        LStr s \<Rightarrow> require (hex64 s) ''runtime event identity must be 64 lowercase hex'' (Inr (EventId s))
      | _ \<Rightarrow> Inl (ValueError ''runtime event identity must be 64 lowercase hex''))"

definition mk_occurrence_id :: "loaded \<Rightarrow> occurrence_id result" where
  "mk_occurrence_id v =
     (case v of
        LStr s \<Rightarrow> require (hex64 s) ''occurrence identity must be 64 lowercase hex'' (Inr (OccurrenceId s))
      | _ \<Rightarrow> Inl (ValueError ''occurrence identity must be 64 lowercase hex''))"

definition occurrence_digest :: "run_id \<Rightarrow> state_id \<Rightarrow> int \<Rightarrow> request_id \<Rightarrow> string" where
  "occurrence_digest r s rv q =
     content_identity ''workflow-occurrence:1''
       [JStr (run_value r), JStr (state_value s), JInt rv, JStr (request_value q), JStr runtime_version]"

definition create_occurrence :: "run_id \<Rightarrow> state_id \<Rightarrow> int \<Rightarrow> request_id \<Rightarrow> occurrence_id result" where
  "create_occurrence r s rv q =
     require (0 \<le> rv) ''revision must be a nonnegative built-in int''
       (mk_occurrence_id (LStr (occurrence_digest r s rv q)))"

lemma create_occurrence_Inr:
  "create_occurrence r s rv q = Inr o' \<longleftrightarrow> 0 \<le> rv \<and> o' = OccurrenceId (occurrence_digest r s rv q)"
  by (auto simp: create_occurrence_def require_Inr_iff mk_occurrence_id_def occurrence_digest_def
      content_identity_def hex64_sha256)

section \<open>Evidence references\<close>

record evidence_reference =
  er_kind :: string
  er_identity :: string

definition machine_path :: "string \<Rightarrow> bool" where
  "machine_path s \<longleftrightarrow> list_ex (\<lambda>p. starts p s) [''/'', ''~/'', [CHR 0x5C], ''file:''] \<or>
     (case s of
        d # c # x # _ \<Rightarrow> of_char d \<in> {65..90::nat} \<union> {97..122} \<and> c = CHR '':'' \<and> x \<in> {CHR 0x5C, CHR ''/''}
      | _ \<Rightarrow> False)"

definition mk_evidence_reference :: "loaded \<Rightarrow> loaded \<Rightarrow> evidence_reference result" where
  "mk_evidence_reference kind identity =
     check_identity kind ''reference_kind''
     (case identity of
        LStr s \<Rightarrow>
          require (bounded max_runtime_text s) ''reference_identity must be nonempty and bounded''
         (require (\<not> list_ex (\<lambda>c. of_char c < (32::nat) \<or> of_char c = (127::nat)) s)
           ''reference_identity must exclude control characters''
         (require (\<not> machine_path s) ''reference_identity must exclude machine paths''
           (Inr \<lparr>er_kind = (case kind of LStr k \<Rightarrow> k | _ \<Rightarrow> []), er_identity = s\<rparr>)))
      | _ \<Rightarrow> Inl (TypeError ''reference_identity must be a built-in str''))"

definition runtime_reference :: "string \<Rightarrow> string \<Rightarrow> evidence_reference result" where
  "runtime_reference kind identity = mk_evidence_reference (LStr kind) (LStr identity)"

definition evidence_reference_ok :: "evidence_reference \<Rightarrow> bool" where
  "evidence_reference_ok e \<longleftrightarrow> identity_grammar (er_kind e) \<and> bounded max_runtime_text (er_identity e) \<and>
     list_all (\<lambda>c. \<not> (of_char c < (32::nat) \<or> of_char c = (127::nat))) (er_identity e) \<and> \<not> machine_path (er_identity e)"

lemma runtime_reference_Inr:
  "runtime_reference k i = Inr e \<longleftrightarrow> e = \<lparr>er_kind = k, er_identity = i\<rparr> \<and> evidence_reference_ok e"
  by (auto simp: runtime_reference_def mk_evidence_reference_def check_identity_def evidence_reference_ok_def
      require_Inr_iff list_ex_iff list_all_iff)

lemma mk_evidence_reference_Inr:
  "mk_evidence_reference k i = Inr e \<longleftrightarrow> k = LStr (er_kind e) \<and> i = LStr (er_identity e) \<and> evidence_reference_ok e"
proof
  assume h: "mk_evidence_reference k i = Inr e"
  then obtain s t where "k = LStr s" "i = LStr t"
    by (cases k; cases i) (auto simp: mk_evidence_reference_def check_identity_def require_Inr_iff)
  then show "k = LStr (er_kind e) \<and> i = LStr (er_identity e) \<and> evidence_reference_ok e"
    using h runtime_reference_Inr [of s t e] by (auto simp: runtime_reference_def)
next
  assume "k = LStr (er_kind e) \<and> i = LStr (er_identity e) \<and> evidence_reference_ok e"
  then show "mk_evidence_reference k i = Inr e"
    using runtime_reference_Inr [of "er_kind e" "er_identity e" e] by (simp add: runtime_reference_def)
qed

section \<open>Events\<close>

datatype runtime_kind =
    RunStarted | RequestRetained | RequestConflictRecorded | PreflightRejected | PlanRecorded
  | PlanDisabled | PlanRejected | TransitionRecorded | TerminalFailureRecorded

fun event_kind_text :: "runtime_kind \<Rightarrow> string" where
  "event_kind_text RunStarted = ''run_started''"
| "event_kind_text RequestRetained = ''request_retained''"
| "event_kind_text RequestConflictRecorded = ''request_conflict_recorded''"
| "event_kind_text PreflightRejected = ''preflight_rejected''"
| "event_kind_text PlanRecorded = ''plan_recorded''"
| "event_kind_text PlanDisabled = ''plan_disabled''"
| "event_kind_text PlanRejected = ''plan_rejected''"
| "event_kind_text TransitionRecorded = ''transition_recorded''"
| "event_kind_text TerminalFailureRecorded = ''terminal_failure_recorded''"

record event =
  en_identity :: event_id
  en_kind :: runtime_kind
  en_run :: run_id
  en_ordinal :: int
  en_predecessor :: "event_id option"
  en_revision :: int
  en_state :: state_id
  en_occurrence :: "occurrence_id option"
  en_request :: "request_id option"
  en_operation :: "operation_id option"
  en_evidence :: "evidence_reference list"
  en_reasons :: "string list"
  en_version :: string
  en_producer :: string

definition evidence_key :: "evidence_reference \<Rightarrow> string \<times> string" where
  "evidence_key e = (er_kind e, er_identity e)"

definition runtime_evidence :: "evidence_reference list \<Rightarrow> evidence_reference list result" where
  "runtime_evidence es =
     require (length es \<le> max_runtime_references) ''evidence_references exceed their bound''
       (Inr (sort_key evidence_key (remdups es)))"

text \<open>The reason codes arrive untyped: each is checked in turn.\<close>

fun check_reasons :: "loaded list \<Rightarrow> 'a result \<Rightarrow> 'a result" where
  "check_reasons [] k = k"
| "check_reasons (v # vs) k = check_identity v ''reason_code'' (check_reasons vs k)"

definition loaded_text :: "loaded \<Rightarrow> string" where
  "loaded_text v = (case v of LStr s \<Rightarrow> s | _ \<Rightarrow> [])"

definition runtime_reasons :: "loaded list \<Rightarrow> string list result" where
  "runtime_reasons vs =
     require (length vs \<le> max_runtime_reasons) ''reason_codes exceed their bound''
    (check_reasons vs (Inr (sort (remdups (map loaded_text vs)))))"

definition event_parts :: "event \<Rightarrow> json list" where
  "event_parts e =
     [JStr (event_kind_text (en_kind e)), JStr (run_value (en_run e)), JInt (en_ordinal e),
      rep_optional (JStr \<circ> event_value) (en_predecessor e), JInt (en_revision e), JStr (state_value (en_state e)),
      rep_optional (JStr \<circ> occurrence_value) (en_occurrence e), rep_optional (JStr \<circ> request_value) (en_request e),
      rep_optional (JStr \<circ> operation_value) (en_operation e),
      JList (map (\<lambda>r. JList [JStr (er_kind r), JStr (er_identity r)]) (en_evidence e)),
      JList (map JStr (en_reasons e)), JStr runtime_version, JStr runtime_implementation]"

definition event_identity :: "event \<Rightarrow> string" where
  "event_identity e = content_identity ''workflow-runtime-event:1'' (event_parts e)"

definition check_natural :: "string \<Rightarrow> loaded \<Rightarrow> (int \<Rightarrow> 'a result) \<Rightarrow> 'a result" where
  "check_natural name v k =
     (case v of
        LInt i \<Rightarrow> require (0 \<le> i) (name @ '' must be a nonnegative built-in int'') (k i)
      | _ \<Rightarrow> Inl (ValueError (name @ '' must be a nonnegative built-in int'')))"

text \<open>\<open>__post_init__\<close> of an event whose integers and reason codes are still untyped.\<close>

definition construct_event :: "event \<Rightarrow> loaded \<Rightarrow> loaded \<Rightarrow> loaded list \<Rightarrow> event result" where
  "construct_event e0 ordinal revision reasons =
     check_natural ''ordinal'' ordinal (\<lambda>n.
     check_natural ''core_revision'' revision (\<lambda>v.
     let e = e0\<lparr>en_ordinal := n, en_revision := v, en_reasons := map loaded_text reasons\<rparr> in
     require (\<not> (n = 0 \<and> en_predecessor e \<noteq> None)) ''genesis event cannot have a predecessor''
    (require (\<not> (n = 0 \<and> en_kind e \<noteq> RunStarted)) ''genesis event must be run_started''
    (require (\<not> (n \<noteq> 0 \<and> en_predecessor e = None)) ''non-genesis event requires a predecessor''
    (bindr (runtime_evidence (en_evidence e)) (\<lambda>evs.
     require (evs = en_evidence e) ''evidence references must be canonical''
    (bindr (runtime_reasons reasons) (\<lambda>rs.
     require (rs = en_reasons e) ''reason codes must be canonical''
    (require (en_version e = runtime_version) ''unsupported workflow runtime contract version''
    (require (en_producer e = runtime_implementation) ''unsupported runtime producer implementation''
    (require (en_identity e = EventId (event_identity e)) ''runtime event identity is inconsistent''
      (Inr e))))))))))))"

definition mk_event :: "event \<Rightarrow> event result" where
  "mk_event e = construct_event e (LInt (en_ordinal e)) (LInt (en_revision e)) (map LStr (en_reasons e))"

definition create_event :: "runtime_kind \<Rightarrow> run_id \<Rightarrow> int \<Rightarrow> event_id option \<Rightarrow> int \<Rightarrow> state_id \<Rightarrow>
    occurrence_id option \<Rightarrow> request_id option \<Rightarrow> operation_id option \<Rightarrow> evidence_reference list \<Rightarrow>
    string list \<Rightarrow> event result" where
  "create_event kind r ordinal pre rv s occ q oper evs reasons =
     bindr (runtime_evidence evs) (\<lambda>evs'.
     bindr (runtime_reasons (map LStr reasons)) (\<lambda>rs.
     let e = \<lparr>en_identity = EventId [], en_kind = kind, en_run = r, en_ordinal = ordinal, en_predecessor = pre,
        en_revision = rv, en_state = s, en_occurrence = occ, en_request = q, en_operation = oper,
        en_evidence = evs', en_reasons = rs, en_version = runtime_version, en_producer = runtime_implementation\<rparr>
     in mk_event (e\<lparr>en_identity := EventId (event_identity e)\<rparr>)))"

section \<open>What the constructors accept\<close>

lemma evidence_key_inj: "evidence_key x = evidence_key y \<longleftrightarrow> x = y"
  by (auto simp: evidence_key_def)

lemma evidence_distinct: "distinct (map evidence_key es) \<longleftrightarrow> distinct es"
  by (auto simp: distinct_map inj_on_def evidence_key_inj)

lemma runtime_evidence_fixed:
  "runtime_evidence es = Inr es \<longleftrightarrow> length es \<le> max_runtime_references \<and> canonical evidence_key es"
proof -
  have "sort_key evidence_key (remdups es) = es \<longleftrightarrow> canonical evidence_key es"
  proof
    assume h: "sort_key evidence_key (remdups es) = es"
    then have "sorted (map evidence_key es)" by (metis sorted_sort_key)
    moreover have "distinct es" using h by (metis distinct_remdups distinct_sort)
    ultimately show "canonical evidence_key es" by (simp add: canonical_def evidence_distinct)
  next
    assume "canonical evidence_key es"
    then show "sort_key evidence_key (remdups es) = es"
      by (simp add: canonical_def evidence_distinct remdups_id_iff_distinct [THEN iffD2] sort_key_id)
  qed
  then show ?thesis by (auto simp: runtime_evidence_def require_Inr_iff)
qed

lemma runtime_evidence_result:
  "runtime_evidence es = Inr fs \<Longrightarrow> runtime_evidence fs = Inr fs \<and> set fs = set es"
proof -
  assume h: "runtime_evidence es = Inr fs"
  then have fs: "fs = sort_key evidence_key (remdups es)" "length es \<le> max_runtime_references"
    by (simp_all add: runtime_evidence_def require_Inr_iff)
  have "distinct (map evidence_key fs)" by (simp add: fs(1) evidence_distinct)
  moreover have "length fs \<le> max_runtime_references"
    using fs(2) le_trans [OF length_remdups_leq] by (simp add: fs(1))
  ultimately show ?thesis by (simp add: runtime_evidence_fixed canonical_def fs(1))
qed

lemma check_reasons_Inr:
  "check_reasons vs k = Inr x \<longleftrightarrow> (\<exists>ss. vs = map LStr ss \<and> list_all identity_grammar ss) \<and> k = Inr x"
proof (induction vs)
  case (Cons v vs)
  show ?case
  proof (cases v)
    case (LStr s)
    then show ?thesis
      using Cons.IH by (auto simp: check_identity_def require_Inr_iff Cons_eq_map_conv)
  qed (auto simp: check_identity_def Cons_eq_map_conv)
qed simp

lemma loaded_text_LStr [simp]: "loaded_text (LStr s) = s" "loaded_text \<circ> LStr = id"
  by (auto simp: loaded_text_def)

definition reasons_fine :: "string list \<Rightarrow> bool" where
  "reasons_fine rs \<longleftrightarrow> length rs \<le> max_runtime_reasons \<and> list_all identity_grammar rs"

lemma runtime_reasons_Inr:
  "runtime_reasons vs = Inr rs \<longleftrightarrow> (\<exists>ss. vs = map LStr ss \<and> reasons_fine ss \<and> rs = sort (remdups ss))"
  by (auto simp: runtime_reasons_def require_Inr_iff check_reasons_Inr reasons_fine_def)

definition event_ok :: "event \<Rightarrow> bool" where
  "event_ok e \<longleftrightarrow> 0 \<le> en_ordinal e \<and> 0 \<le> en_revision e \<and> (en_ordinal e = 0 \<longleftrightarrow> en_predecessor e = None) \<and>
     (en_ordinal e = 0 \<longrightarrow> en_kind e = RunStarted) \<and>
     length (en_evidence e) \<le> max_runtime_references \<and> canonical evidence_key (en_evidence e) \<and>
     reasons_fine (en_reasons e) \<and> sorted (en_reasons e) \<and> distinct (en_reasons e) \<and>
     en_version e = runtime_version \<and> en_producer e = runtime_implementation \<and>
     en_identity e = EventId (event_identity e)"

lemma sort_remdups_fixed: "sort (remdups xs) = (xs :: 'a :: linorder list) \<longleftrightarrow> sorted xs \<and> distinct xs"
  by (metis distinct_remdups distinct_remdups_id distinct_sort sorted_sort sorted_sort_id)

lemma event_eta: "e\<lparr>en_ordinal := en_ordinal e, en_revision := en_revision e, en_reasons := en_reasons e\<rparr> = e"
  by (cases e) simp

lemma construct_event_Inr:
  "construct_event e0 ordinal revision reasons = Inr e \<longleftrightarrow>
     ordinal = LInt (en_ordinal e) \<and> revision = LInt (en_revision e) \<and> reasons = map LStr (en_reasons e) \<and>
     e = e0\<lparr>en_ordinal := en_ordinal e, en_revision := en_revision e, en_reasons := en_reasons e\<rparr> \<and> event_ok e"
  (is "?l \<longleftrightarrow> ?r")
proof
  assume l: ?l
  then obtain n v where nv: "ordinal = LInt n" "revision = LInt v"
    by (cases ordinal; cases revision) (auto simp: check_natural_def construct_event_def require_Inr_iff)
  define e1 where "e1 = e0\<lparr>en_ordinal := n, en_revision := v, en_reasons := map loaded_text reasons\<rparr>"
  have l1: "0 \<le> n \<and> 0 \<le> v \<and> \<not> (n = 0 \<and> en_predecessor e1 \<noteq> None) \<and> \<not> (n = 0 \<and> en_kind e1 \<noteq> RunStarted) \<and>
      \<not> (n \<noteq> 0 \<and> en_predecessor e1 = None) \<and> (\<exists>evs. runtime_evidence (en_evidence e1) = Inr evs \<and>
      evs = en_evidence e1 \<and> (\<exists>rs. runtime_reasons reasons = Inr rs \<and> rs = en_reasons e1 \<and>
      en_version e1 = runtime_version \<and> en_producer e1 = runtime_implementation \<and>
      en_identity e1 = EventId (event_identity e1) \<and> e1 = e))"
    using l unfolding nv construct_event_def check_natural_def loaded.case Let_def require_Inr_iff bindr_Inr_iff
      e1_def [symmetric] sum.inject .
  have f: "en_ordinal e1 = n" "en_revision e1 = v" "en_reasons e1 = map loaded_text reasons"
    "e1 = e0\<lparr>en_ordinal := n, en_revision := v, en_reasons := map loaded_text reasons\<rparr>"
    by (simp_all add: e1_def)
  obtain ss where ss: "reasons = map LStr ss" "reasons_fine ss" "en_reasons e1 = sort (remdups ss)"
    using l1 by (auto simp: runtime_reasons_Inr)
  then have "ss = en_reasons e1" using f by simp
  then have r: "reasons = map LStr (en_reasons e1)" "reasons_fine (en_reasons e1)" "sorted (en_reasons e1)"
      "distinct (en_reasons e1)"
    using ss sort_remdups_fixed [of ss] by simp_all
  have ev: "length (en_evidence e1) \<le> max_runtime_references \<and> canonical evidence_key (en_evidence e1)"
    using l1 runtime_evidence_fixed [of "en_evidence e1"] by blast
  have e: "e1 = e" using l1 by blast
  have "event_ok e1"
    unfolding event_ok_def f(1,2) using l1 r ev by blast
  moreover have "e = e0\<lparr>en_ordinal := en_ordinal e, en_revision := en_revision e, en_reasons := en_reasons e\<rparr>"
    unfolding e [symmetric] f(1-3) by (rule f(4))
  ultimately show ?r
    using nv r(1) f(1,2) e by blast
next
  assume r: ?r
  have raw: "ordinal = LInt (en_ordinal e)" "revision = LInt (en_revision e)" "reasons = map LStr (en_reasons e)"
    and ok: "event_ok e" using r by blast+
  have "map loaded_text reasons = en_reasons e" using raw by simp
  then have e: "e0\<lparr>en_ordinal := en_ordinal e, en_revision := en_revision e, en_reasons := map loaded_text reasons\<rparr> = e"
    using r by simp
  have rs: "runtime_reasons reasons = Inr (en_reasons e)"
    using raw(3) ok sort_remdups_fixed [of "en_reasons e"] by (auto simp: runtime_reasons_Inr event_ok_def)
  have evs: "runtime_evidence (en_evidence e) = Inr (en_evidence e)"
    using ok by (simp add: runtime_evidence_fixed event_ok_def)
  show ?l
    unfolding construct_event_def check_natural_def raw(1,2) loaded.case Let_def e rs evs require_Inr_iff bindr.simps
    using ok unfolding event_ok_def by (intro conjI refl) auto
qed

lemma mk_event_Inr: "mk_event e = Inr f \<longleftrightarrow> event_ok e \<and> f = e"
  unfolding mk_event_def construct_event_Inr by (auto simp: event_eta inj_map_eq_map inj_def) (metis event_eta)+

lemma event_identity_update [simp]: "event_identity (e\<lparr>en_identity := i\<rparr>) = event_identity e"
  by (simp add: event_identity_def event_parts_def)

lemma create_event_Inr:
  assumes "create_event kind r ordinal pre rv s occ q oper evs reasons = Inr e"
  shows "event_ok e \<and> en_kind e = kind \<and> en_run e = r \<and> en_ordinal e = ordinal \<and> en_predecessor e = pre \<and>
     en_revision e = rv \<and> en_state e = s \<and> en_occurrence e = occ \<and> en_request e = q \<and> en_operation e = oper \<and>
     set (en_evidence e) = set evs \<and> set (en_reasons e) = set reasons"
proof -
  obtain evs' rs where evs': "runtime_evidence evs = Inr evs'" and rs: "runtime_reasons (map LStr reasons) = Inr rs"
    and e: "mk_event (\<lparr>en_identity = EventId [], en_kind = kind, en_run = r, en_ordinal = ordinal, en_predecessor = pre,
        en_revision = rv, en_state = s, en_occurrence = occ, en_request = q, en_operation = oper,
        en_evidence = evs', en_reasons = rs, en_version = runtime_version, en_producer = runtime_implementation\<rparr>
        \<lparr>en_identity := EventId (event_identity \<lparr>en_identity = EventId [], en_kind = kind, en_run = r,
        en_ordinal = ordinal, en_predecessor = pre, en_revision = rv, en_state = s, en_occurrence = occ,
        en_request = q, en_operation = oper, en_evidence = evs', en_reasons = rs, en_version = runtime_version,
        en_producer = runtime_implementation\<rparr>)\<rparr>) = Inr e"
    using assms unfolding create_event_def bindr_Inr_iff Let_def by blast
  have "set rs = set reasons"
    using rs by (auto simp: runtime_reasons_Inr inj_map_eq_map inj_def)
  moreover have "set evs' = set evs" using runtime_evidence_result [OF evs'] by simp
  ultimately show ?thesis using e unfolding mk_event_Inr by auto
qed

end
