(* ===== verification/Runtime_Serialization.thy ===== *)
theory Runtime_Serialization
  imports Runtime_Records
begin

text \<open>
  \<open>runtime/serialization.py\<close>: the canonical bytes of a runtime event and their strict decoder.
\<close>

section \<open>Encoding\<close>

definition event_schema :: string where "event_schema = ''projectkoios.workflow.runtime-event:1''"

definition event_keys :: "string list" where
  "event_keys =
     [''schema'', ''identity'', ''kind'', ''run_identity'', ''ordinal'', ''predecessor_event_identity'', ''core_revision'',
      ''core_state_identity'', ''occurrence_identity'', ''request_identity'', ''operation_identity'',
      ''evidence_references'', ''reason_codes'', ''contract_version'', ''producer_implementation'']"

definition reference_json :: "evidence_reference \<Rightarrow> json" where
  "reference_json r = JObj [(''kind'', JStr (er_kind r)), (''identity'', JStr (er_identity r))]"

definition event_values :: "event \<Rightarrow> json list" where
  "event_values e =
     [JStr event_schema, JStr (event_value (en_identity e)), JStr (event_kind_text (en_kind e)),
      JStr (run_value (en_run e)), JInt (en_ordinal e), rep_optional (JStr \<circ> event_value) (en_predecessor e),
      JInt (en_revision e), JStr (state_value (en_state e)), rep_optional (JStr \<circ> occurrence_value) (en_occurrence e),
      rep_optional (JStr \<circ> request_value) (en_request e), rep_optional (JStr \<circ> operation_value) (en_operation e),
      JList (map reference_json (en_evidence e)), JList (map JStr (en_reasons e)), JStr (en_version e),
      JStr (en_producer e)]"

definition event_json :: "event \<Rightarrow> json" where
  "event_json e = JObj (zip event_keys (event_values e))"

definition encode_event :: "event \<Rightarrow> string" where
  "encode_event e = dumps (event_json e)"

section \<open>Decoding\<close>

text \<open>The hook \<open>pairs\<close>: a dictionary without duplicate keys.\<close>

fun object_pairs :: "(string \<times> loaded) list \<Rightarrow> (string \<times> loaded) list \<Rightarrow> loaded result" where
  "object_pairs acc [] = Inr (LObj acc)"
| "object_pairs acc ((k, v) # ps) =
     (if k \<in> set (map fst acc) then Inl (ValueError (''duplicate JSON key '' @ k)) else object_pairs (acc @ [(k, v)]) ps)"

definition object_of :: "loaded \<Rightarrow> py_object" where
  "object_of v = (case v of LNull \<Rightarrow> PyNone | LBool b \<Rightarrow> PyBool b | LInt i \<Rightarrow> PyInt i | LStr s \<Rightarrow> PyStr s | _ \<Rightarrow> PyOther)"

definition optional_member :: "(loaded \<Rightarrow> 'a result) \<Rightarrow> loaded \<Rightarrow> 'a option result" where
  "optional_member f v = (if v = LNull then Inr None else bindr (f v) (\<lambda>x. Inr (Some x)))"

text \<open>The message of a failed enumeration lookup shows the value; for texts it is their \<open>repr\<close>.\<close>

definition mk_event_kind :: "loaded \<Rightarrow> runtime_kind result" where
  "mk_event_kind v =
     (case List.find (\<lambda>k. v = LStr (event_kind_text k)) [RunStarted, RequestRetained, RequestConflictRecorded,
         PreflightRejected, PlanRecorded, PlanDisabled, PlanRejected, TransitionRecorded, TerminalFailureRecorded] of
        Some k \<Rightarrow> Inr k
      | None \<Rightarrow> Inl (ValueError (py_repr (loaded_text v) @ '' is not a valid WorkflowRuntimeEventKind'')))"

definition load_reference :: "loaded \<Rightarrow> evidence_reference result" where
  "load_reference v =
     (case v of
        LObj ps \<Rightarrow>
          require (set (map fst ps) = {''kind'', ''identity''}) ''evidence reference is invalid''
            (mk_evidence_reference (member ''kind'' ps) (member ''identity'' ps))
      | _ \<Rightarrow> Inl (ValueError ''evidence reference is invalid''))"

definition check_keys :: "string list \<Rightarrow> string list \<Rightarrow> 'a result \<Rightarrow> 'a result" where
  "check_keys expected found k =
     (case sort (filter (\<lambda>x. x \<notin> set found) expected) of
        m # _ \<Rightarrow> Inl (ValueError (''missing field '' @ m))
      | [] \<Rightarrow>
          (case sort (filter (\<lambda>x. x \<notin> set expected) found) of
             u # _ \<Rightarrow> Inl (ValueError (''unknown field '' @ u))
           | [] \<Rightarrow> k))"

definition decode_fields :: "(string \<times> loaded) list \<Rightarrow> event result" where
  "decode_fields ps =
     (let f = (\<lambda>k. member k ps) in
      check_keys event_keys (map fst ps)
     (require (f ''schema'' = LStr event_schema) ''unsupported runtime event schema''
     (require (f ''contract_version'' = LStr runtime_version) ''unsupported runtime contract version''
     (require (f ''producer_implementation'' = LStr runtime_implementation)
       ''unsupported runtime producer implementation''
     (case (f ''evidence_references'', f ''reason_codes'') of
        (LList evs, LList reasons) \<Rightarrow>
          bindr (mapr load_reference evs) (\<lambda>refs.
          bindr (mk_event_id (f ''identity'')) (\<lambda>i.
          bindr (mk_event_kind (f ''kind'')) (\<lambda>kind.
          bindr (mk_run_id (object_of (f ''run_identity''))) (\<lambda>r.
          bindr (optional_member mk_event_id (f ''predecessor_event_identity'')) (\<lambda>pre.
          bindr (mk_state_id (object_of (f ''core_state_identity''))) (\<lambda>s.
          bindr (optional_member mk_occurrence_id (f ''occurrence_identity'')) (\<lambda>occ.
          bindr (optional_member (mk_request_id \<circ> object_of) (f ''request_identity'')) (\<lambda>q.
          bindr (optional_member (mk_operation_id \<circ> object_of) (f ''operation_identity'')) (\<lambda>oper.
          construct_event
            \<lparr>en_identity = i, en_kind = kind, en_run = r, en_ordinal = 0, en_predecessor = pre, en_revision = 0,
             en_state = s, en_occurrence = occ, en_request = q, en_operation = oper, en_evidence = refs,
             en_reasons = [], en_version = runtime_version, en_producer = runtime_implementation\<rparr>
            (f ''ordinal'') (f ''core_revision'') reasons)))))))))
      | _ \<Rightarrow> Inl (TypeError ''event collections must be arrays''))))))"

definition decode_event :: "string \<Rightarrow> event result" where
  "decode_event payload =
     require (\<not> starts utf8_bom payload) ''payload must not contain a UTF-8 BOM''
    (require (utf8_ok payload) ''payload must be one UTF-8 JSON object''
    (case json_loads (object_hooks (object_pairs [])) payload of
       Inl (Raised x) \<Rightarrow> Inl x
     | Inl _ \<Rightarrow> Inl (ValueError ''payload must be one UTF-8 JSON object'')
     | Inr (LObj ps) \<Rightarrow>
         bindr (decode_fields ps) (\<lambda>e.
           require (encode_event e = payload) ''runtime event bytes are noncanonical'' (Inr e))
     | Inr _ \<Rightarrow> Inl (TypeError ''payload must represent an object'')))"

section \<open>Round trip\<close>

text \<open>
  The fields come from their constructors, the strings are UTF-8, and the integers are short enough
  for Python to print and read.
\<close>

definition event_wf :: "event \<Rightarrow> bool" where
  "event_wf e \<longleftrightarrow> event_ok e \<and> list_all evidence_reference_ok (en_evidence e) \<and>
     core_id (run_value (en_run e)) \<and> core_id (state_value (en_state e)) \<and>
     (\<forall>p \<in> set_option (en_predecessor e). hex64 (event_value p)) \<and>
     (\<forall>p \<in> set_option (en_occurrence e). hex64 (occurrence_value p)) \<and>
     (\<forall>p \<in> set_option (en_request e). core_id (request_value p)) \<and>
     (\<forall>p \<in> set_option (en_operation e). core_id (operation_value p)) \<and>
     printable_int (en_ordinal e) \<and> printable_int (en_revision e) \<and> utf8_ok (encode_event e)"

lemma object_pairs_distinct:
  "distinct (map fst (acc @ ps)) \<Longrightarrow> object_pairs acc ps = Inr (LObj (acc @ ps))"
proof (induction ps arbitrary: acc)
  case (Cons p ps)
  then show ?case using Cons.IH [of "acc @ [p]"] by (cases p) auto
qed simp

lemma object_pairs_keeps: "keeps_members (object_hooks (object_pairs []))"
  using object_pairs_distinct [of "[]"] by (simp add: keeps_members_def object_hooks_def)

lemma event_keys_distinct: "distinct event_keys"
  by code_simp

lemma event_values_length: "length (event_values e) = length event_keys"
  by (simp add: event_values_def event_keys_def)

lemma loadable_optional [simp]: "(\<And>x. loadable (f x)) \<Longrightarrow> loadable (rep_optional f v)"
  by (cases v) simp_all

lemma loadable_event: "printable_int (en_ordinal e) \<Longrightarrow> printable_int (en_revision e) \<Longrightarrow> loadable (event_json e)"
proof -
  assume p: "printable_int (en_ordinal e)" "printable_int (en_revision e)"
  have "loadable (reference_json r)" for r by (simp add: reference_json_def)
  then have "list_all loadable (event_values e)"
    using p by (simp add: event_values_def list_all_iff)
  moreover have "map fst (zip event_keys (event_values e)) = event_keys"
    using event_values_length by simp
  moreover have "list_all (\<lambda>(k, v). loadable v) (zip event_keys (event_values e))" if "list_all loadable (event_values e)"
    using that by (auto simp: list_all_iff dest: set_zip_rightD)
  ultimately show ?thesis using event_keys_distinct by (simp add: event_json_def)
qed

lemma load_reference_json:
  "evidence_reference_ok r \<Longrightarrow> load_reference (loaded_of (reference_json r)) = Inr r"
proof -
  have "(''identity'' :: string) < ''kind''" by code_simp
  then show "evidence_reference_ok r \<Longrightarrow> load_reference (loaded_of (reference_json r)) = Inr r"
    by (auto simp: reference_json_def load_reference_def member_def mk_evidence_reference_Inr require_Inr_iff)
qed

lemma mk_event_kind_text: "mk_event_kind (LStr (event_kind_text k)) = Inr k"
  by (cases k) (simp_all add: mk_event_kind_def)

lemma loaded_of_optional: "loaded_of (rep_optional (JStr \<circ> f) v) = (case v of None \<Rightarrow> LNull | Some x \<Rightarrow> LStr (f x))"
  by (cases v) simp_all

lemma core_identity_text: "core_id s \<Longrightarrow> core_identity C (object_of (LStr s)) = Inr (C s)"
  by (auto simp: core_identity_def object_of_def core_id_def bounded_def)

text \<open>The members of a loaded event.\<close>

definition event_members :: "event \<Rightarrow> (string \<times> loaded) list" where
  "event_members e = sort_key fst (map (\<lambda>(k, v). (k, loaded_of v)) (zip event_keys (event_values e)))"

lemma event_zip_keys: "map fst (zip event_keys (event_values e)) = event_keys"
  using event_values_length by simp

lemma event_members_keys: "set (map fst (event_members e)) = set event_keys"
proof -
  have "set (map fst (event_members e)) = set (map fst (zip event_keys (event_values e)))"
    unfolding event_members_def set_map set_sort image_image by (simp add: case_prod_beta)
  then show ?thesis unfolding event_zip_keys .
qed

lemma event_member:
  "(k, v) \<in> set (zip event_keys (event_values e)) \<Longrightarrow> member k (event_members e) = loaded_of v"
  unfolding event_members_def by (rule member_sorted) (simp_all add: event_zip_keys event_keys_distinct)

lemma event_member_nth: "i < length event_keys \<Longrightarrow> member (event_keys ! i) (event_members e) = loaded_of (event_values e ! i)"
  by (rule event_member) (auto simp: in_set_zip event_values_length)

lemma event_member_values:
  "member ''schema'' (event_members e) = LStr event_schema"
  "member ''identity'' (event_members e) = LStr (event_value (en_identity e))"
  "member ''kind'' (event_members e) = LStr (event_kind_text (en_kind e))"
  "member ''run_identity'' (event_members e) = LStr (run_value (en_run e))"
  "member ''ordinal'' (event_members e) = LInt (en_ordinal e)"
  "member ''predecessor_event_identity'' (event_members e) = loaded_of (rep_optional (JStr \<circ> event_value) (en_predecessor e))"
  "member ''core_revision'' (event_members e) = LInt (en_revision e)"
  "member ''core_state_identity'' (event_members e) = LStr (state_value (en_state e))"
  "member ''occurrence_identity'' (event_members e) = loaded_of (rep_optional (JStr \<circ> occurrence_value) (en_occurrence e))"
  "member ''request_identity'' (event_members e) = loaded_of (rep_optional (JStr \<circ> request_value) (en_request e))"
  "member ''operation_identity'' (event_members e) = loaded_of (rep_optional (JStr \<circ> operation_value) (en_operation e))"
  "member ''evidence_references'' (event_members e) = LList (map (loaded_of \<circ> reference_json) (en_evidence e))"
  "member ''reason_codes'' (event_members e) = LList (map LStr (en_reasons e))"
  "member ''contract_version'' (event_members e) = LStr (en_version e)"
  "member ''producer_implementation'' (event_members e) = LStr (en_producer e)"
  by (use event_member_nth [of 0 e] event_member_nth [of 1 e] event_member_nth [of 2 e] event_member_nth [of 3 e]
    event_member_nth [of 4 e] event_member_nth [of 5 e] event_member_nth [of 6 e] event_member_nth [of 7 e]
    event_member_nth [of 8 e] event_member_nth [of 9 e] event_member_nth [of 10 e] event_member_nth [of 11 e]
    event_member_nth [of 12 e] event_member_nth [of 13 e] event_member_nth [of 14 e]
    in \<open>simp_all add: event_keys_def event_values_def comp_def\<close>)

lemma decode_fields_members:
  assumes "event_wf e"
  shows "decode_fields (event_members e) = Inr e"
proof -
  note wf = assms [unfolded event_wf_def]
  have vs: "en_version e = runtime_version" "en_producer e = runtime_implementation" "event_ok e"
    using wf by (simp_all add: event_ok_def)
  have keys: "check_keys event_keys (map fst (event_members e)) k = k" for k :: "event result"
  proof -
    have "filter (\<lambda>x. x \<notin> set (map fst (event_members e))) event_keys = []"
      "filter (\<lambda>x. x \<notin> set event_keys) (map fst (event_members e)) = []"
      unfolding event_members_keys using event_members_keys [of e] by (auto simp: filter_empty_conv)
    then show ?thesis by (simp add: check_keys_def)
  qed
  have refs: "mapr load_reference (map (loaded_of \<circ> reference_json) (en_evidence e)) = Inr (en_evidence e)"
    using wf by (induction "en_evidence e") (auto simp: mapr_Inr_iff list_all2_map1 list_all2_same list_all_iff load_reference_json)
  have ids: "mk_event_id (LStr (event_value (en_identity e))) = Inr (en_identity e)"
    "mk_run_id (object_of (LStr (run_value (en_run e)))) = Inr (en_run e)"
    "mk_state_id (object_of (LStr (state_value (en_state e)))) = Inr (en_state e)"
    using wf hex64_sha256
    by (simp_all add: mk_event_id_def event_ok_def event_identity_def content_identity_def mk_run_id_def
        mk_state_id_def core_identity_text)
  have opts: "optional_member mk_event_id (loaded_of (rep_optional (JStr \<circ> event_value) (en_predecessor e))) = Inr (en_predecessor e)"
    "optional_member mk_occurrence_id (loaded_of (rep_optional (JStr \<circ> occurrence_value) (en_occurrence e))) = Inr (en_occurrence e)"
    "optional_member (mk_request_id \<circ> object_of) (loaded_of (rep_optional (JStr \<circ> request_value) (en_request e))) = Inr (en_request e)"
    "optional_member (mk_operation_id \<circ> object_of) (loaded_of (rep_optional (JStr \<circ> operation_value) (en_operation e))) = Inr (en_operation e)"
    using wf unfolding loaded_of_optional
    by (auto simp: optional_member_def mk_event_id_def mk_occurrence_id_def mk_request_id_def mk_operation_id_def
        core_identity_text split: option.splits)
  let ?e0 = "\<lparr>en_identity = en_identity e, en_kind = en_kind e, en_run = en_run e, en_ordinal = 0,
      en_predecessor = en_predecessor e, en_revision = 0, en_state = en_state e, en_occurrence = en_occurrence e,
      en_request = en_request e, en_operation = en_operation e, en_evidence = en_evidence e, en_reasons = [],
      en_version = runtime_version, en_producer = runtime_implementation\<rparr>"
  have "construct_event ?e0 (LInt (en_ordinal e)) (LInt (en_revision e)) (map LStr (en_reasons e)) = Inr e"
    unfolding construct_event_Inr using vs by (cases e) simp
  then show ?thesis
    unfolding decode_fields_def Let_def event_member_values keys vs(1,2)
    by (simp only: simp_thms require_True prod.case loaded.case refs ids opts mk_event_kind_text bindr.simps)
qed

lemma decode_encode:
  assumes "event_wf e"
  shows "decode_event (encode_event e) = Inr e"
proof -
  have p: "printable_int (en_ordinal e)" "printable_int (en_revision e)" "utf8_ok (encode_event e)"
    using assms by (simp_all add: event_wf_def)
  have "json_loads (object_hooks (object_pairs [])) (encode_event e) = Inr (LObj (event_members e))"
    using json_loads_dumps [OF object_pairs_keeps loadable_event [OF p(1,2)]]
    by (simp add: encode_event_def event_json_def event_members_def)
  moreover have "\<not> starts utf8_bom (encode_event e)"
    by (simp add: encode_event_def event_json_def starts_brace)
  ultimately show ?thesis
    using p(3) decode_fields_members [OF assms] by (simp add: decode_event_def)
qed

text \<open>Conversely, only canonical bytes of an accepted event are decoded.\<close>

lemma decode_event_Inr:
  assumes "decode_event p = Inr e"
  shows "encode_event e = p \<and> event_ok e \<and> utf8_ok p"
proof -
  obtain ps where ps: "decode_fields ps = Inr e" "encode_event e = p" "utf8_ok p"
    using assms by (auto simp: decode_event_def require_Inr_iff bindr_Inr_iff split: sum.splits json_error.splits loaded.splits)
  obtain e0 a b c where "construct_event e0 a b c = Inr e"
    using ps(1) by (auto simp: decode_fields_def Let_def check_keys_def require_Inr_iff bindr_Inr_iff
        split: list.splits loaded.splits)
  then show ?thesis using ps by (simp add: construct_event_Inr)
qed

text \<open>The canonical bytes determine the event.\<close>

lemma jsort_optional: "jsort (rep_optional (JStr \<circ> f) v) = rep_optional (JStr \<circ> f) v"
  by (cases v) simp_all

lemma rep_optional_inj:
  "rep_optional (JStr \<circ> f) v = rep_optional (JStr \<circ> f) w \<Longrightarrow> (\<And>x y. f x = f y \<Longrightarrow> x = y) \<Longrightarrow> v = w"
  by (cases v; cases w) auto

lemma event_kind_text_inj: "event_kind_text k = event_kind_text l \<Longrightarrow> k = l"
  by (cases k; cases l) simp_all

lemma event_json_nth:
  assumes "encode_event e = encode_event f" "i < length event_keys"
  shows "jsort (event_values e ! i) = jsort (event_values f ! i)"
proof -
  have at: "map_of (zip event_keys (event_values x)) (event_keys ! i) = Some (event_values x ! i)" for x
    using assms(2) event_keys_distinct event_values_length by (metis map_of_zip_nth)
  have "jsort (event_json e) = jsort (event_json f)"
    using assms(1) by (auto simp: encode_event_def dest: dumps_eqD)
  from jsort_lookup [OF this [unfolded event_json_def], of "event_keys ! i"] show ?thesis
    by (simp add: at event_zip_keys event_keys_distinct)
qed

lemma reference_json_inj: "jsort (reference_json r) = jsort (reference_json s) \<Longrightarrow> r = s"
  using jsort_lookup [of _ _ "''kind''"] jsort_lookup [of _ _ "''identity''"]
  by (fastforce simp: reference_json_def)

lemma encode_event_inj:
  assumes eq: "encode_event e = encode_event f" and ok: "event_ok e" "event_ok f"
  shows "e = f"
proof -
  note l = event_json_nth [OF eq]
  have v: "event_value (en_identity e) = event_value (en_identity f)"
    "event_kind_text (en_kind e) = event_kind_text (en_kind f)" "run_value (en_run e) = run_value (en_run f)"
    "en_ordinal e = en_ordinal f" "en_revision e = en_revision f" "state_value (en_state e) = state_value (en_state f)"
    using l [of 1] l [of 2] l [of 3] l [of 4] l [of 6] l [of 7]
    by (simp_all add: event_keys_def event_values_def)
  have o': "en_predecessor e = en_predecessor f" "en_occurrence e = en_occurrence f" "en_request e = en_request f"
    "en_operation e = en_operation f"
    using l [of 5] l [of 8] l [of 9] l [of 10]
    by (simp_all add: event_keys_def event_values_def jsort_optional)
      (rule rep_optional_inj, assumption, simp add: event_id.expand occurrence_id.expand request_id.expand operation_id.expand)+
  have "map (jsort \<circ> reference_json) (en_evidence e) = map (jsort \<circ> reference_json) (en_evidence f)"
    using l [of 11] by (simp add: event_keys_def event_values_def)
  then have "en_evidence e = en_evidence f" by (rule map_inj_set) (simp add: reference_json_inj)
  moreover have "map (jsort \<circ> JStr) (en_reasons e) = map (jsort \<circ> JStr) (en_reasons f)"
    using l [of 12] by (simp add: event_keys_def event_values_def)
  then have "en_reasons e = en_reasons f" by (rule map_inj_set) simp
  ultimately show ?thesis
    using v o' ok event_kind_text_inj
    by (intro event.equality) (simp_all add: event_ok_def event_id.expand run_id.expand state_id.expand)
qed

end
