(* ===== verification/Store_Sqlite.thy ===== *)
theory Store_Sqlite
  imports Core_Records
begin

text \<open>
  \<open>persistence/store.py\<close>: opaque revisions of streams, the requests and results of reading and of
  comparing and appending, and the contract that the runtime repository relies on.
\<close>

section \<open>Revisions\<close>

definition max_identifier_characters :: nat where "max_identifier_characters = 4096"
definition max_diagnostics :: nat where "max_diagnostics = 32"
definition max_diagnostic_characters :: nat where "max_diagnostic_characters = 1024"

abbreviation identifier_ok :: "string \<Rightarrow> bool" where
  "identifier_ok \<equiv> bounded max_identifier_characters"

definition check_identifier :: "string \<Rightarrow> string \<Rightarrow> 'a result \<Rightarrow> 'a result" where
  "check_identifier value field k = require (identifier_ok value) (field @ '' must be nonempty and bounded'') k"

definition optional_identifier :: "string option \<Rightarrow> string \<Rightarrow> 'a result \<Rightarrow> 'a result" where
  "optional_identifier value field k = (case value of None \<Rightarrow> k | Some v \<Rightarrow> check_identifier v field k)"

definition store_diagnostics_ok :: "string list \<Rightarrow> bool" where
  "store_diagnostics_ok ds \<longleftrightarrow> length ds \<le> max_diagnostics \<and> list_all (bounded max_diagnostic_characters) ds"

definition store_diagnostics :: "string list \<Rightarrow> 'a result \<Rightarrow> 'a result" where
  "store_diagnostics ds k =
     require (length ds \<le> max_diagnostics) ''diagnostics exceed their bound''
    (require (list_all (bounded max_diagnostic_characters) ds) ''diagnostics must be nonempty and bounded'' k)"

record revision =
  rv_stream :: string
  rv_identity :: string
  rv_predecessor :: "string option"
  rv_schema :: string
  rv_content :: string
  rv_payload :: string

definition mk_revision :: "revision \<Rightarrow> revision result" where
  "mk_revision r =
     check_identifier (rv_stream r) ''stream_identity''
    (check_identifier (rv_identity r) ''revision_identity''
    (optional_identifier (rv_predecessor r) ''predecessor_revision_identity''
    (check_identifier (rv_schema r) ''schema_identity''
    (check_identifier (rv_content r) ''content_identity''
    (require (rv_predecessor r \<noteq> Some (rv_identity r)) ''a revision cannot name itself as predecessor''
      (Inr r))))))"

definition revision_ok :: "revision \<Rightarrow> bool" where
  "revision_ok r \<longleftrightarrow> identifier_ok (rv_stream r) \<and> identifier_ok (rv_identity r) \<and>
     (\<forall>p \<in> set_option (rv_predecessor r). identifier_ok p) \<and> identifier_ok (rv_schema r) \<and>
     identifier_ok (rv_content r) \<and> rv_predecessor r \<noteq> Some (rv_identity r)"

lemma identifier_Inr: "check_identifier v f k = Inr x \<longleftrightarrow> identifier_ok v \<and> k = Inr x"
  by (simp add: check_identifier_def require_Inr_iff)

lemma optional_identifier_Inr:
  "optional_identifier v f k = Inr x \<longleftrightarrow> (\<forall>p \<in> set_option v. identifier_ok p) \<and> k = Inr x"
  by (cases v) (simp_all add: optional_identifier_def identifier_Inr)

lemma store_diagnostics_Inr: "store_diagnostics ds k = Inr x \<longleftrightarrow> store_diagnostics_ok ds \<and> k = Inr x"
  by (auto simp: store_diagnostics_def store_diagnostics_ok_def require_Inr_iff)

lemmas store_checks_Inr = require_Inr_iff identifier_Inr optional_identifier_Inr store_diagnostics_Inr

lemma mk_revision_Inr: "mk_revision r = Inr s \<longleftrightarrow> revision_ok r \<and> s = r"
  by (auto simp: mk_revision_def revision_ok_def store_checks_Inr)

section \<open>Reading\<close>

datatype revision_selector = SelectLatest | SelectExplicit

datatype read_status = ReadFound | ReadAbsent | ReadIncompatible | ReadCorrupt | ReadIndeterminate | ReadError

record read_request =
  rd_request :: string
  rd_stream :: string
  rd_selector :: revision_selector
  rd_revision :: "string option"

definition mk_read_request :: "read_request \<Rightarrow> read_request result" where
  "mk_read_request q =
     check_identifier (rd_request q) ''request_identity''
    (check_identifier (rd_stream q) ''stream_identity''
    (optional_identifier (rd_revision q) ''revision_identity''
    (case rd_selector q of
       SelectLatest \<Rightarrow>
         require (rd_revision q = None) ''latest selection prohibits revision_identity'' (Inr q)
     | SelectExplicit \<Rightarrow>
         require (rd_revision q \<noteq> None) ''explicit selection requires revision_identity'' (Inr q))))"

definition read_request_ok :: "read_request \<Rightarrow> bool" where
  "read_request_ok q \<longleftrightarrow> identifier_ok (rd_request q) \<and> identifier_ok (rd_stream q) \<and>
     (\<forall>p \<in> set_option (rd_revision q). identifier_ok p) \<and> (rd_selector q = SelectLatest \<longleftrightarrow> rd_revision q = None)"

lemma mk_read_request_Inr: "mk_read_request q = Inr p \<longleftrightarrow> read_request_ok q \<and> p = q"
  by (auto simp: mk_read_request_def read_request_ok_def store_checks_Inr split: revision_selector.splits)

record read_result =
  rr_status :: read_status
  rr_request :: string
  rr_stream :: string
  rr_diagnostics :: "string list"
  rr_revision :: "revision option"

definition mk_read_result :: "read_result \<Rightarrow> read_result result" where
  "mk_read_result r =
     check_identifier (rr_request r) ''request_identity''
    (check_identifier (rr_stream r) ''stream_identity''
    (store_diagnostics (rr_diagnostics r)
    (case rr_revision r of
       None \<Rightarrow> require (rr_status r \<noteq> ReadFound) ''found requires a revision'' (Inr r)
     | Some v \<Rightarrow>
         if rr_status r = ReadFound
         then require (rv_stream v = rr_stream r) ''found revision belongs to another stream'' (Inr r)
         else Inl (ValueError ''non-found results prohibit a revision''))))"

section \<open>Committing\<close>

datatype commit_status = CommitCommitted | CommitIdempotent | CommitConflict | CommitIndeterminate | CommitError

record commit =
  cm_expected :: "string option"
  cm_candidate :: revision
  cm_idempotency :: string

definition mk_commit :: "commit \<Rightarrow> commit result" where
  "mk_commit c =
     optional_identifier (cm_expected c) ''expected_revision_identity''
    (check_identifier (cm_idempotency c) ''idempotency_identity''
    (require (rv_predecessor (cm_candidate c) = cm_expected c)
      ''candidate predecessor must equal expected revision'' (Inr c)))"

definition commit_ok :: "commit \<Rightarrow> bool" where
  "commit_ok c \<longleftrightarrow> revision_ok (cm_candidate c) \<and> (\<forall>p \<in> set_option (cm_expected c). identifier_ok p) \<and>
     identifier_ok (cm_idempotency c) \<and> rv_predecessor (cm_candidate c) = cm_expected c"

lemma mk_commit_Inr: "revision_ok (cm_candidate c) \<Longrightarrow> mk_commit c = Inr d \<longleftrightarrow> commit_ok c \<and> d = c"
  by (auto simp: mk_commit_def commit_ok_def store_checks_Inr)

record commit_result =
  cr_status :: commit_status
  cr_stream :: string
  cr_idempotency :: string
  cr_diagnostics :: "string list"
  cr_revision :: "revision option"
  cr_observed :: "string option"

definition mk_commit_result :: "commit_result \<Rightarrow> commit_result result" where
  "mk_commit_result r =
     check_identifier (cr_stream r) ''stream_identity''
    (check_identifier (cr_idempotency r) ''idempotency_identity''
    (store_diagnostics (cr_diagnostics r)
    (optional_identifier (cr_observed r) ''observed_revision_identity''
    (if cr_status r \<in> {CommitCommitted, CommitIdempotent}
     then require (cr_revision r \<noteq> None) ''successful commit result requires a revision''
         (require (cr_observed r = None) ''successful commit result prohibits conflict state'' (Inr r))
     else if cr_status r = CommitConflict
     then require (cr_revision r = None) ''conflict prohibits a revision'' (Inr r)
     else require (cr_revision r = None \<and> cr_observed r = None)
         ''indeterminate and error prohibit revision-presence claims'' (Inr r)))))"

section \<open>The abstract store\<close>

text \<open>
  What the interface promises is stated over one list: all committed revisions with their
  idempotency keys, in the order of their commits.
\<close>

type_synonym store_log = "(revision \<times> string) list"

definition stream_log :: "store_log \<Rightarrow> string \<Rightarrow> revision list" where
  "stream_log es s = filter (\<lambda>r. rv_stream r = s) (map fst es)"

definition stream_head :: "store_log \<Rightarrow> string \<Rightarrow> revision option" where
  "stream_head es s = (case stream_log es s of [] \<Rightarrow> None | r # rs \<Rightarrow> Some (last (r # rs)))"

definition head_identity :: "store_log \<Rightarrow> string \<Rightarrow> string option" where
  "head_identity es s = map_option rv_identity (stream_head es s)"

definition find_revision :: "store_log \<Rightarrow> string \<Rightarrow> string \<Rightarrow> revision option" where
  "find_revision es s i = List.find (\<lambda>r. rv_stream r = s \<and> rv_identity r = i) (map fst es)"

definition spec_read :: "read_request \<Rightarrow> store_log \<Rightarrow> revision option" where
  "spec_read q es =
     (case rd_revision q of None \<Rightarrow> stream_head es (rd_stream q) | Some i \<Rightarrow> find_revision es (rd_stream q) i)"

datatype spec_answer = Appended | Repeated | KeyReused | HeadMoved "string option" | IdentityReused "string option"

definition spec_commit :: "commit \<Rightarrow> store_log \<Rightarrow> spec_answer \<times> store_log" where
  "spec_commit c es =
     (let v = cm_candidate c; h = head_identity es (rv_stream v) in
      case map_of (map (\<lambda>(r, k). (k, r)) es) (cm_idempotency c) of
        Some r \<Rightarrow> (if r = v then Repeated else KeyReused, es)
      | None \<Rightarrow>
          if h \<noteq> cm_expected c then (HeadMoved h, es)
          else if find_revision es (rv_stream v) (rv_identity v) \<noteq> None then (IdentityReused h, es)
          else (Appended, es @ [(v, cm_idempotency c)]))"

text \<open>
  A log is well formed when keys and stream positions are unique and every stream is a chain: its
  first revision has no predecessor and each later one names the one before.
\<close>

fun chained_from :: "string option \<Rightarrow> revision list \<Rightarrow> bool" where
  "chained_from p [] = True"
| "chained_from p (r # rs) = (rv_predecessor r = p \<and> chained_from (Some (rv_identity r)) rs)"

abbreviation chained :: "revision list \<Rightarrow> bool" where
  "chained \<equiv> chained_from None"

definition log_ok :: "store_log \<Rightarrow> bool" where
  "log_ok es \<longleftrightarrow> distinct (map snd es) \<and> distinct (map (\<lambda>(r, k). (rv_stream r, rv_identity r)) es) \<and>
     (\<forall>(r, k) \<in> set es. revision_ok r \<and> identifier_ok k) \<and> (\<forall>s. chained (stream_log es s))"

lemma stream_log_append: "stream_log (es @ fs) s = stream_log es s @ stream_log fs s"
  by (simp add: stream_log_def)

lemma chained_from_snoc:
  "chained_from p (rs @ [r]) \<longleftrightarrow> chained_from p rs \<and>
     rv_predecessor r = (if rs = [] then p else Some (rv_identity (last rs)))"
  by (induction rs arbitrary: p) auto

lemma head_identity_log: "head_identity es s = (if stream_log es s = [] then None else Some (rv_identity (last (stream_log es s))))"
  by (simp add: head_identity_def stream_head_def split: list.splits)

lemma find_revision_None:
  "find_revision es s i = None \<longleftrightarrow> (s, i) \<notin> set (map (\<lambda>(r, k). (rv_stream r, rv_identity r)) es)"
  by (force simp: find_revision_def find_None_iff)

lemma spec_commit_ok:
  assumes "log_ok es" "commit_ok c"
  shows "log_ok (snd (spec_commit c es))"
proof -
  let ?v = "cm_candidate c" and ?k = "cm_idempotency c"
  have "log_ok (es @ [(?v, ?k)])"
    if "map_of (map (\<lambda>(r, k). (k, r)) es) ?k = None" "head_identity es (rv_stream ?v) = cm_expected c"
      "find_revision es (rv_stream ?v) (rv_identity ?v) = None"
  proof -
    have "?k \<notin> snd ` set es"
      using that(1) by (force simp: map_of_eq_None_iff)
    moreover have "chained (stream_log (es @ [(?v, ?k)]) s)" for s
    proof (cases "rv_stream ?v = s")
      case True
      then show ?thesis
        using assms that(2) by (auto simp: stream_log_append chained_from_snoc log_ok_def commit_ok_def head_identity_log
            stream_log_def [of "[(?v, ?k)]"] split: if_splits)
    next
      case False
      then show ?thesis using assms by (simp add: stream_log_append stream_log_def [of "[(?v, ?k)]"] log_ok_def)
    qed
    ultimately show ?thesis
      using assms that(3) by (auto simp: log_ok_def commit_ok_def find_revision_None)
  qed
  then show ?thesis using assms(1) by (auto simp: spec_commit_def Let_def split: option.splits)
qed

text \<open>
  \<open>persistence/sqlite.py\<close> and the schema check of \<open>persistence/_sqlite_private.py\<close>.  A database is the
  content of its tables; the engine executes one statement on it at a time, and an environment says
  which of its steps fail.  Cells are dynamically typed, as in SQLite, so a database that something
  else has written to is an input like any other.
\<close>

section \<open>The envelope digest\<close>

text \<open>\<open>digest()\<close>: the bytes whose hexadecimal text is \<open>hexdigest()\<close>.\<close>

fun bytes_of_hex :: "string \<Rightarrow> string" where
  "bytes_of_hex (a # b # r) = char_of (16 * hexv a + hexv b) # bytes_of_hex r"
| "bytes_of_hex r = []"

definition sha256_bytes :: "string \<Rightarrow> string" where
  "sha256_bytes s = bytes_of_hex (sha256_hex s)"

text \<open>\<open>len(value).to_bytes(8, "big")\<close>.\<close>

definition be64 :: "nat \<Rightarrow> string" where
  "be64 n = map (\<lambda>i. char_of (n div 256 ^ i)) (rev [0..<8])"

definition store_frame :: "string option \<Rightarrow> string" where
  "store_frame v = (case v of None \<Rightarrow> [CHR 0x00] | Some s \<Rightarrow> CHR 0x01 # be64 (length s) @ s)"

definition envelope_text :: "revision \<Rightarrow> string \<Rightarrow> string" where
  "envelope_text r key =
     ''projectkoios.workflow.revision-envelope:1'' @ [CHR 0x00] @
     concat (map store_frame [Some (rv_stream r), Some (rv_identity r), rv_predecessor r, Some (rv_schema r),
       Some (rv_content r), Some key, Some (rv_payload r)])"

definition envelope_digest :: "revision \<Rightarrow> string \<Rightarrow> string" where
  "envelope_digest r key = sha256_bytes (envelope_text r key)"

section \<open>Tables\<close>

datatype cell = CellNull | CellInt int | CellText string | CellBlob string

record database =
  db_tables :: "(string \<times> string) list"
  db_format :: "(string \<times> int) list"
  db_extras :: bool
  db_revisions :: "cell list list"
  db_heads :: "(cell \<times> cell) list"

definition store_format :: string where "store_format = ''projectkoios.workflow.revision-store''"

text \<open>The three statements of \<open>_SCHEMA\<close> with the names of their tables, in the order of the names.\<close>

definition store_tables :: "(string \<times> string) list" where
  "store_tables =
     [(''heads'',
       ''CREATE TABLE heads (stream_identity TEXT PRIMARY KEY NOT NULL, revision_identity TEXT NOT NULL, '' @
       ''FOREIGN KEY (stream_identity, revision_identity) REFERENCES revisions (stream_identity, revision_identity))''),
      (''revisions'',
       ''CREATE TABLE revisions (stream_identity TEXT NOT NULL, revision_identity TEXT NOT NULL, '' @
       ''predecessor_revision_identity TEXT, schema_identity TEXT NOT NULL, '' @
       ''content_identity TEXT NOT NULL, payload BLOB NOT NULL, '' @
       ''idempotency_identity TEXT NOT NULL UNIQUE, envelope_digest BLOB NOT NULL, '' @
       ''PRIMARY KEY (stream_identity, revision_identity), '' @
       ''FOREIGN KEY (stream_identity, predecessor_revision_identity) '' @
       ''REFERENCES revisions (stream_identity, revision_identity))''),
      (''store_format'',
       ''CREATE TABLE store_format (identity TEXT NOT NULL, version INTEGER NOT NULL)'')]"

text \<open>A fault code of \<open>SQLiteStoreFault\<close>, or an error of the engine or the operating system.\<close>

datatype store_exn = StoreFault string | EngineError

type_synonym 'a engine = "store_exn + 'a"

fun bind_engine :: "'a engine \<Rightarrow> ('a \<Rightarrow> 'b engine) \<Rightarrow> 'b engine" where
  "bind_engine (Inl e) f = Inl e"
| "bind_engine (Inr x) f = f x"

definition prepare_store_schema :: "database \<Rightarrow> database engine" where
  "prepare_store_schema d =
     (if db_tables d = []
      then Inr (d\<lparr>db_tables := store_tables, db_format := [(store_format, 1)], db_revisions := [], db_heads := []\<rparr>)
      else if map fst (db_tables d) \<noteq> map fst store_tables then Inl (StoreFault ''unrecognized_store_schema'')
      else if db_tables d \<noteq> store_tables then Inl (StoreFault ''unrecognized_store_schema'')
      else if db_format d \<noteq> [(store_format, 1)] then Inl (StoreFault ''unsupported_store_version'')
      else if db_extras d then Inl (StoreFault ''unrecognized_store_objects'')
      else Inr d)"

definition nonempty_text :: "cell \<Rightarrow> bool" where
  "nonempty_text c = (case c of CellText s \<Rightarrow> s \<noteq> [] | _ \<Rightarrow> False)"

definition the_text :: "cell \<Rightarrow> string" where
  "the_text c = (case c of CellText s \<Rightarrow> s | _ \<Rightarrow> [])"

definition optional_text :: "cell \<Rightarrow> string option" where
  "optional_text c = (case c of CellText s \<Rightarrow> Some s | _ \<Rightarrow> None)"

definition revision_from_row :: "cell list \<Rightarrow> nat \<Rightarrow> (revision \<times> string) engine" where
  "revision_from_row row maximum =
     (case row of
        [stream, identity, predecessor, schema, content, payload, key, digest] \<Rightarrow>
          if \<not> list_all nonempty_text [stream, identity, schema, content, key]
          then Inl (StoreFault ''invalid_revision_identity'')
          else if predecessor \<noteq> CellNull \<and> \<not> nonempty_text predecessor
          then Inl (StoreFault ''invalid_predecessor_identity'')
          else
            (case (payload, digest) of
               (CellBlob p, CellBlob dg) \<Rightarrow>
                 if maximum < length p then Inl (StoreFault ''payload_limit'')
                 else
                   (case mk_revision \<lparr>rv_stream = the_text stream, rv_identity = the_text identity,
                           rv_predecessor = optional_text predecessor, rv_schema = the_text schema,
                           rv_content = the_text content, rv_payload = p\<rparr> of
                      Inl e \<Rightarrow> Inl (StoreFault ''invalid_revision'')
                    | Inr r \<Rightarrow>
                        if dg \<noteq> envelope_digest r (the_text key)
                        then Inl (StoreFault ''envelope_digest_mismatch'')
                        else Inr (r, the_text key))
             | _ \<Rightarrow> Inl (StoreFault ''invalid_revision_payload''))
      | _ \<Rightarrow> Inl (StoreFault ''invalid_revision_shape''))"

text \<open>The row that is inserted for a revision.\<close>

definition row_of :: "revision \<times> string \<Rightarrow> cell list" where
  "row_of = (\<lambda>(r, key).
     [CellText (rv_stream r), CellText (rv_identity r),
      (case rv_predecessor r of None \<Rightarrow> CellNull | Some p \<Rightarrow> CellText p), CellText (rv_schema r),
      CellText (rv_content r), CellBlob (rv_payload r), CellText key, CellBlob (envelope_digest r key)])"

section \<open>Statements\<close>

definition select_head :: "database \<Rightarrow> string \<Rightarrow> cell option" where
  "select_head d stream = map_option snd (List.find (\<lambda>h. fst h = CellText stream) (db_heads d))"

definition select_revision :: "database \<Rightarrow> string \<Rightarrow> string \<Rightarrow> cell list option" where
  "select_revision d stream identity =
     List.find (\<lambda>row. take 2 row = [CellText stream, CellText identity]) (db_revisions d)"

definition select_key :: "database \<Rightarrow> string \<Rightarrow> cell list option" where
  "select_key d key = List.find (\<lambda>row. 6 < length row \<and> row ! 6 = CellText key) (db_revisions d)"

text \<open>
  The insertion fails when it breaks the unique key, the primary key, or the foreign key of the
  predecessor within the stream.
\<close>

definition insert_revision :: "revision \<Rightarrow> string \<Rightarrow> database \<Rightarrow> database engine" where
  "insert_revision r key d =
     (if select_key d key \<noteq> None \<or> select_revision d (rv_stream r) (rv_identity r) \<noteq> None \<or>
         (\<exists>p \<in> set_option (rv_predecessor r). select_revision d (rv_stream r) p = None)
      then Inl EngineError
      else Inr (d\<lparr>db_revisions := db_revisions d @ [row_of (r, key)]\<rparr>))"

fun upsert_head :: "string \<Rightarrow> string \<Rightarrow> (cell \<times> cell) list \<Rightarrow> (cell \<times> cell) list" where
  "upsert_head stream identity [] = [(CellText stream, CellText identity)]"
| "upsert_head stream identity (h # hs) =
     (if fst h = CellText stream then (fst h, CellText identity) # hs else h # upsert_head stream identity hs)"

section \<open>Operations\<close>

text \<open>
  What the engine does to one call: the file may be refused or unavailable (\<open>en_open\<close>); preparing,
  observing and comparing may fail; and the final \<open>COMMIT\<close> may fail, after the transaction became
  durable or not.
\<close>

datatype ack = AckWorks | AckLost bool

record environment =
  en_open :: "store_exn option"
  en_prepare :: ack
  en_observe :: bool
  en_ack :: ack

definition works :: environment where
  "works = \<lparr>en_open = None, en_prepare = AckWorks, en_observe = True, en_ack = AckWorks\<rparr>"

text \<open>\<open>_connect\<close> and \<open>_prepare\<close>: the prepared database, or the exception with its phase.\<close>

definition open_store :: "environment \<Rightarrow> database \<Rightarrow> (store_exn \<times> string + database) \<times> database" where
  "open_store en d =
     (case en_open en of
        Some x \<Rightarrow> (Inl (x, ''open''), d)
      | None \<Rightarrow>
          (case prepare_store_schema d of
             Inl x \<Rightarrow> (Inl (x, ''prepare''), d)
           | Inr d' \<Rightarrow>
               (case en_prepare en of
                  AckWorks \<Rightarrow> (Inr d', d')
                | AckLost durable \<Rightarrow> (Inl (EngineError, ''prepare''), if durable then d' else d))))"

definition phase_failure :: "string \<Rightarrow> string" where
  "phase_failure phase = ''sqlite_'' @ phase @ ''_failed''"

definition observe_revision :: "read_request \<Rightarrow> nat \<Rightarrow> database \<Rightarrow> revision option engine" where
  "observe_revision q maximum d =
     (case rd_revision q of
        None \<Rightarrow>
          (case select_head d (rd_stream q) of
             None \<Rightarrow> Inr None
           | Some (CellText i) \<Rightarrow>
               (case select_revision d (rd_stream q) i of
                  None \<Rightarrow> Inr None
                | Some row \<Rightarrow> bind_engine (revision_from_row row maximum) (\<lambda>x. Inr (Some (fst x))))
           | Some _ \<Rightarrow> Inl (StoreFault ''invalid_head''))
      | Some i \<Rightarrow>
          (case select_revision d (rd_stream q) i of
             None \<Rightarrow> Inr None
           | Some row \<Rightarrow> bind_engine (revision_from_row row maximum) (\<lambda>x. Inr (Some (fst x)))))"

definition read_fault_status :: "string \<Rightarrow> read_status" where
  "read_fault_status code =
     (if code \<in> {''unrecognized_store_objects'', ''unrecognized_store_schema'', ''unsupported_store_version''}
      then ReadIncompatible
      else if code \<in> {''envelope_digest_mismatch'', ''invalid_head'', ''invalid_predecessor_identity'',
        ''invalid_revision'', ''invalid_revision_identity'', ''invalid_revision_payload'', ''payload_limit''}
      then ReadCorrupt else ReadError)"

definition read_result_of :: "read_request \<Rightarrow> read_status \<Rightarrow> string list \<Rightarrow> revision option \<Rightarrow> read_result result" where
  "read_result_of q st ds v =
     mk_read_result \<lparr>rr_status = st, rr_request = rd_request q, rr_stream = rd_stream q,
       rr_diagnostics = ds, rr_revision = v\<rparr>"

definition read_failed :: "read_request \<Rightarrow> store_exn \<Rightarrow> string \<Rightarrow> read_result result" where
  "read_failed q x phase =
     (case x of
        StoreFault code \<Rightarrow> read_result_of q (read_fault_status code) [code] None
      | EngineError \<Rightarrow>
          read_result_of q (if phase = ''observe'' then ReadIndeterminate else ReadError) [phase_failure phase] None)"

definition sqlite_read :: "environment \<Rightarrow> nat \<Rightarrow> read_request \<Rightarrow> database \<Rightarrow> read_result result \<times> database" where
  "sqlite_read en maximum q d =
     (case open_store en d of
        (Inl (x, phase), d') \<Rightarrow> (read_failed q x phase, d')
      | (Inr _, d') \<Rightarrow>
          if \<not> en_observe en then (read_failed q EngineError ''observe'', d')
          else
            (case observe_revision q maximum d' of
               Inl x \<Rightarrow> (read_failed q x ''observe'', d')
             | Inr None \<Rightarrow> (read_result_of q ReadAbsent [] None, d')
             | Inr (Some v) \<Rightarrow> (read_result_of q ReadFound [] (Some v), d')))"

definition commit_result_of :: "commit \<Rightarrow> commit_status \<Rightarrow> string list \<Rightarrow> revision option \<Rightarrow> string option \<Rightarrow>
    commit_result result" where
  "commit_result_of c st ds v observed =
     mk_commit_result \<lparr>cr_status = st, cr_stream = rv_stream (cm_candidate c), cr_idempotency = cm_idempotency c,
       cr_diagnostics = ds, cr_revision = v, cr_observed = observed\<rparr>"

definition commit_failed :: "commit \<Rightarrow> store_exn \<Rightarrow> string \<Rightarrow> commit_result result" where
  "commit_failed c x phase =
     (case x of
        StoreFault code \<Rightarrow> commit_result_of c CommitError [code] None None
      | EngineError \<Rightarrow>
          commit_result_of c (if phase = ''acknowledge'' then CommitIndeterminate else CommitError)
            [phase_failure phase] None None)"

text \<open>
  The transaction between \<open>BEGIN IMMEDIATE\<close> and \<open>COMMIT\<close>: the result that it returns after a rollback,
  or the database that it asks the engine to commit.
\<close>

definition compare_and_append :: "nat \<Rightarrow> commit \<Rightarrow> database \<Rightarrow> (commit_result result + database) engine" where
  "compare_and_append maximum c d =
     (let v = cm_candidate c; key = cm_idempotency c in
      case select_key d key of
        Some row \<Rightarrow>
          bind_engine (revision_from_row row maximum) (\<lambda>(original, original_key).
            if original = v \<and> original_key = key
            then Inr (Inl (commit_result_of c CommitIdempotent [] (Some original) None))
            else Inr (Inl (commit_result_of c CommitConflict [''idempotency_collision''] None None)))
      | None \<Rightarrow>
          bind_engine (case select_head d (rv_stream v) of
                         None \<Rightarrow> Inr None
                       | Some (CellText h) \<Rightarrow> Inr (Some h)
                       | Some CellNull \<Rightarrow> Inr None
                       | Some _ \<Rightarrow> Inl (StoreFault ''invalid_head'')) (\<lambda>h.
            if h \<noteq> cm_expected c
            then Inr (Inl (commit_result_of c CommitConflict [''compare_and_append_conflict''] None h))
            else if select_revision d (rv_stream v) (rv_identity v) \<noteq> None
            then Inr (Inl (commit_result_of c CommitConflict [''revision_collision''] None h))
            else bind_engine (insert_revision v key d) (\<lambda>d'.
              Inr (Inr (d'\<lparr>db_heads := upsert_head (rv_stream v) (rv_identity v) (db_heads d')\<rparr>)))))"

definition sqlite_commit :: "environment \<Rightarrow> nat \<Rightarrow> commit \<Rightarrow> database \<Rightarrow> commit_result result \<times> database" where
  "sqlite_commit en maximum c d =
     (if maximum < length (rv_payload (cm_candidate c))
      then (commit_result_of c CommitError [''payload_limit''] None None, d)
      else
        (case open_store en d of
           (Inl (x, phase), d') \<Rightarrow> (commit_failed c x phase, d')
         | (Inr _, d') \<Rightarrow>
             if \<not> en_observe en then (commit_failed c EngineError ''compare'', d')
             else
               (case compare_and_append maximum c d' of
                  Inl x \<Rightarrow> (commit_failed c x ''compare'', d')
                | Inr (Inl answer) \<Rightarrow> (answer, d')
                | Inr (Inr d'') \<Rightarrow>
                    (case en_ack en of
                       AckWorks \<Rightarrow> (commit_result_of c CommitCommitted [] (Some (cm_candidate c)) None, d'')
                     | AckLost durable \<Rightarrow>
                         (commit_failed c EngineError ''acknowledge'', if durable then d'' else d')))))"

section \<open>The settings of a store\<close>

text \<open>The numbers that the constructor accepts; the path is left to the file system.\<close>

definition max_sqlite_integer :: int where "max_sqlite_integer = 2147483647"

definition validate_busy_timeout :: "int \<Rightarrow> 'a result \<Rightarrow> 'a result" where
  "validate_busy_timeout value k =
     require (0 \<le> value \<and> value \<le> max_sqlite_integer) ''busy_timeout_ms is outside its bound'' k"

definition mk_store :: "int \<Rightarrow> int \<Rightarrow> nat result" where
  "mk_store busy_timeout max_payload =
     validate_busy_timeout busy_timeout
    (require (1 \<le> max_payload \<and> max_payload \<le> 2147483647) ''max_payload_bytes is outside its bound''
      (Inr (nat max_payload)))"

end
