(* ===== verification/Store_Refinement.thy ===== *)
theory Store_Refinement
  imports Store_Sqlite
begin

text \<open>
  The SQLite store implements the abstract store: when nothing fails, reading and committing return
  the answers of the specification, and whatever fails, a commit appends its candidate whole or
  changes nothing.
\<close>

section \<open>Rows\<close>

lemma bounded_nonempty: "bounded n s \<Longrightarrow> s \<noteq> []"
  by (simp add: bounded_def)

lemma row_round_trip:
  assumes "revision_ok r" "identifier_ok k" "length (rv_payload r) \<le> maximum"
  shows "revision_from_row (row_of (r, k)) maximum = Inr (r, k)"
proof -
  let ?c = "case rv_predecessor r of None \<Rightarrow> CellNull | Some p \<Rightarrow> CellText p"
  have ne: "rv_stream r \<noteq> []" "rv_identity r \<noteq> []" "rv_schema r \<noteq> []" "rv_content r \<noteq> []" "k \<noteq> []"
    using assms by (auto simp: revision_ok_def bounded_def)
  have pre: "?c = CellNull \<or> nonempty_text ?c" "optional_text ?c = rv_predecessor r"
    using assms(1) by (auto simp: nonempty_text_def optional_text_def revision_ok_def bounded_def split: option.splits)
  have "mk_revision \<lparr>rv_stream = rv_stream r, rv_identity = rv_identity r, rv_predecessor = rv_predecessor r,
      rv_schema = rv_schema r, rv_content = rv_content r, rv_payload = rv_payload r\<rparr> = Inr r"
    using assms(1) by (cases r) (simp add: mk_revision_Inr)
  then show ?thesis
    using ne pre assms(3) by (simp add: row_of_def revision_from_row_def nonempty_text_def [of "CellText _"] the_text_def)
qed

text \<open>A row that is accepted carries the digest of what it is read as.\<close>

lemma revision_from_row_sound:
  assumes "revision_from_row row maximum = Inr (r, k)"
  shows "row = row_of (r, k)" "revision_ok r" "length (rv_payload r) \<le> maximum" "k \<noteq> []"
proof -
  have "row = row_of (r, k) \<and> revision_ok r \<and> length (rv_payload r) \<le> maximum \<and> k \<noteq> []"
    using assms
    by (auto simp: revision_from_row_def row_of_def mk_revision_Inr nonempty_text_def the_text_def optional_text_def
        split: list.splits if_splits cell.splits prod.splits sum.splits)
  then show "row = row_of (r, k)" "revision_ok r" "length (rv_payload r) \<le> maximum" "k \<noteq> []" by simp_all
qed

section \<open>The representation\<close>

definition prepared :: "database \<Rightarrow> bool" where
  "prepared d \<longleftrightarrow> db_tables d = store_tables \<and> db_format d = [(store_format, 1)] \<and> \<not> db_extras d"

definition represents :: "nat \<Rightarrow> database \<Rightarrow> store_log \<Rightarrow> bool" where
  "represents maximum d es \<longleftrightarrow> prepared d \<and> db_revisions d = map row_of es \<and>
     (\<forall>s. select_head d s = map_option CellText (head_identity es s)) \<and> log_ok es \<and>
     (\<forall>e \<in> set es. length (rv_payload (fst e)) \<le> maximum)"

text \<open>A database that opens as a representation: prepared already, or still without tables.\<close>

definition stores :: "nat \<Rightarrow> database \<Rightarrow> store_log \<Rightarrow> bool" where
  "stores maximum d es \<longleftrightarrow> (\<exists>d'. prepare_store_schema d = Inr d' \<and> represents maximum d' es)"

lemma store_tables_nonempty: "store_tables \<noteq> []"
  by (simp add: store_tables_def)

lemma prepared_opens: "prepared d \<Longrightarrow> prepare_store_schema d = Inr d"
  using store_tables_nonempty by (simp add: prepare_store_schema_def prepared_def)

lemma represents_stores: "represents maximum d es \<Longrightarrow> stores maximum d es"
  by (auto simp: stores_def represents_def prepared_opens)

lemma fresh_stores: "db_tables d = [] \<Longrightarrow> \<not> db_extras d \<Longrightarrow> stores maximum d []"
  by (simp add: stores_def prepare_store_schema_def represents_def prepared_def select_head_def log_ok_def
      head_identity_log stream_log_def)

lemma find_map: "List.find P (map f xs) = map_option f (List.find (\<lambda>x. P (f x)) xs)"
  by (induction xs) auto

lemma represents_revision:
  assumes "represents maximum d es"
  shows "select_revision d s i =
    map_option row_of (List.find (\<lambda>e. rv_stream (fst e) = s \<and> rv_identity (fst e) = i) es)"
proof -
  have "(\<lambda>e. take 2 (row_of e) = [CellText s, CellText i]) = (\<lambda>e. rv_stream (fst e) = s \<and> rv_identity (fst e) = i)"
    by (auto simp: row_of_def split_beta)
  then show ?thesis using assms by (simp add: select_revision_def represents_def find_map)
qed

lemma represents_key:
  assumes "represents maximum d es"
  shows "select_key d k = map_option row_of (List.find (\<lambda>e. snd e = k) es)"
proof -
  have "(\<lambda>e. 6 < length (row_of e) \<and> row_of e ! 6 = CellText k) = (\<lambda>e. snd e = k)"
    by (auto simp: row_of_def split_beta)
  then show ?thesis using assms by (simp add: select_key_def represents_def find_map)
qed

lemma find_entry:
  "find_revision es s i = map_option fst (List.find (\<lambda>e. rv_stream (fst e) = s \<and> rv_identity (fst e) = i) es)"
  by (simp add: find_revision_def find_map)

lemma find_key: "map_of (map (\<lambda>(r, k). (k, r)) es) k = map_option fst (List.find (\<lambda>e. snd e = k) es)"
  by (induction es) auto

lemma represents_row:
  assumes "represents maximum d es" "e \<in> set es"
  shows "revision_from_row (row_of e) maximum = Inr e"
proof -
  have "revision_ok (fst e)" "identifier_ok (snd e)" "length (rv_payload (fst e)) \<le> maximum"
    using assms by (auto simp: represents_def log_ok_def)
  from row_round_trip [OF this] show ?thesis by simp
qed

lemma find_member: "List.find P xs = Some x \<Longrightarrow> x \<in> set xs \<and> P x"
  by (auto simp: find_Some_iff)

section \<open>Reading\<close>

definition spec_read_result :: "read_request \<Rightarrow> store_log \<Rightarrow> read_result" where
  "spec_read_result q es =
     \<lparr>rr_status = (if spec_read q es = None then ReadAbsent else ReadFound), rr_request = rd_request q,
      rr_stream = rd_stream q, rr_diagnostics = [], rr_revision = spec_read q es\<rparr>"

lemma stream_head_entry:
  assumes "log_ok es" "stream_head es s = Some r"
  shows "\<exists>k. List.find (\<lambda>e. rv_stream (fst e) = s \<and> rv_identity (fst e) = rv_identity r) es = Some (r, k)"
proof -
  have "r \<in> set (stream_log es s)"
    using assms(2) last_in_set [of "stream_log es s"] by (auto simp: stream_head_def split: list.splits)
  then obtain k where rk: "(r, k) \<in> set es" "rv_stream r = s" by (auto simp: stream_log_def)
  then have "List.find (\<lambda>e. rv_stream (fst e) = s \<and> rv_identity (fst e) = rv_identity r) es \<noteq> None"
    by (auto simp: find_None_iff)
  then obtain e where e: "List.find (\<lambda>e. rv_stream (fst e) = s \<and> rv_identity (fst e) = rv_identity r) es = Some e"
    by blast
  have "inj_on (\<lambda>(r, k). (rv_stream r, rv_identity r)) (set es)" using assms(1) by (simp add: log_ok_def distinct_map)
  moreover have "(\<lambda>(r, k). (rv_stream r, rv_identity r)) e = (\<lambda>(r, k). (rv_stream r, rv_identity r)) (r, k)"
    using find_member [OF e] rk by (simp add: split_beta)
  ultimately have "e = (r, k)" using find_member [OF e] rk by (blast dest: inj_onD)
  then show ?thesis using e by blast
qed

lemma observe_revision_spec:
  assumes r: "represents maximum d es" and q: "read_request_ok q"
  shows "observe_revision q maximum d = Inr (spec_read q es)"
proof (cases "rd_revision q")
  case None
  show ?thesis
  proof (cases "stream_head es (rd_stream q)")
    case None
    then show ?thesis
      using r \<open>rd_revision q = None\<close>
      by (simp add: observe_revision_def spec_read_def represents_def head_identity_def)
  next
    case (Some v)
    obtain k where f: "List.find (\<lambda>e. rv_stream (fst e) = rd_stream q \<and> rv_identity (fst e) = rv_identity v) es = Some (v, k)"
      using stream_head_entry [OF _ Some] r by (auto simp: represents_def)
    then have "revision_from_row (row_of (v, k)) maximum = Inr (v, k)"
      using represents_row [OF r] find_member [OF f] by simp
    moreover have "select_head d (rd_stream q) = Some (CellText (rv_identity v))"
      using r Some by (simp add: represents_def head_identity_def)
    moreover have "select_revision d (rd_stream q) (rv_identity v) = Some (row_of (v, k))"
      using represents_revision [OF r] f by simp
    ultimately show ?thesis
      using \<open>rd_revision q = None\<close> Some by (simp add: observe_revision_def spec_read_def)
  qed
next
  case (Some i)
  show ?thesis
  proof (cases "List.find (\<lambda>e. rv_stream (fst e) = rd_stream q \<and> rv_identity (fst e) = i) es")
    case None
    then show ?thesis
      using represents_revision [OF r, of "rd_stream q" i] Some
      by (simp add: observe_revision_def spec_read_def find_entry)
  next
    case (Some e)
    then have "revision_from_row (row_of e) maximum = Inr e"
      using represents_row [OF r] find_member [OF Some] by simp
    then show ?thesis
      using represents_revision [OF r, of "rd_stream q" i] Some \<open>rd_revision q = Some i\<close>
      by (simp add: observe_revision_def spec_read_def find_entry)
  qed
qed

lemma spec_read_stream: "spec_read q es = Some v \<Longrightarrow> rv_stream v = rd_stream q"
  using last_in_set [of "stream_log es (rd_stream q)"]
  by (auto simp: spec_read_def stream_head_def find_revision_def stream_log_def find_Some_iff split: option.splits list.splits)

lemma sqlite_read_refines:
  assumes "stores maximum d es" "read_request_ok q"
  shows "\<exists>d'. sqlite_read works maximum q d = (Inr (spec_read_result q es), d') \<and> stores maximum d' es"
proof -
  obtain d' where d': "prepare_store_schema d = Inr d'" "represents maximum d' es" using assms(1) by (auto simp: stores_def)
  have "read_result_of q (if spec_read q es = None then ReadAbsent else ReadFound) [] (spec_read q es) =
      Inr (spec_read_result q es)"
    using assms(2) spec_read_stream [of q es]
    by (auto simp: read_result_of_def mk_read_result_def spec_read_result_def read_request_ok_def check_identifier_def
        store_diagnostics_def require_def split: option.splits)
  then have "sqlite_read works maximum q d = (Inr (spec_read_result q es), d')"
    using d' observe_revision_spec [OF d'(2) assms(2)]
    by (cases "spec_read q es") (simp_all add: sqlite_read_def open_store_def works_def)
  then show ?thesis using represents_stores [OF d'(2)] by blast
qed

section \<open>Committing\<close>

definition spec_commit_result :: "commit \<Rightarrow> spec_answer \<Rightarrow> commit_result" where
  "spec_commit_result c a =
     (let base = \<lparr>cr_status = CommitConflict, cr_stream = rv_stream (cm_candidate c),
            cr_idempotency = cm_idempotency c, cr_diagnostics = [], cr_revision = None, cr_observed = None\<rparr> in
      case a of
        Appended \<Rightarrow> base\<lparr>cr_status := CommitCommitted, cr_revision := Some (cm_candidate c)\<rparr>
      | Repeated \<Rightarrow> base\<lparr>cr_status := CommitIdempotent, cr_revision := Some (cm_candidate c)\<rparr>
      | KeyReused \<Rightarrow> base\<lparr>cr_diagnostics := [''idempotency_collision'']\<rparr>
      | HeadMoved h \<Rightarrow> base\<lparr>cr_diagnostics := [''compare_and_append_conflict''], cr_observed := h\<rparr>
      | IdentityReused h \<Rightarrow> base\<lparr>cr_diagnostics := [''revision_collision''], cr_observed := h\<rparr>)"

lemma short_diagnostics:
  "store_diagnostics_ok []" "store_diagnostics_ok [''idempotency_collision'']"
  "store_diagnostics_ok [''compare_and_append_conflict'']" "store_diagnostics_ok [''revision_collision'']"
  by (simp_all add: store_diagnostics_ok_def max_diagnostics_def)
    (simp_all add: bounded_def py_len_def max_diagnostic_characters_def)

lemma commit_result_of_Inr:
  assumes "commit_ok c" "store_diagnostics_ok ds" "\<forall>h \<in> set_option obs. identifier_ok h"
    and "case st of CommitConflict \<Rightarrow> v = None | CommitCommitted \<Rightarrow> v \<noteq> None \<and> obs = None
         | CommitIdempotent \<Rightarrow> v \<noteq> None \<and> obs = None | _ \<Rightarrow> v = None \<and> obs = None"
  shows "commit_result_of c st ds v obs =
    Inr \<lparr>cr_status = st, cr_stream = rv_stream (cm_candidate c), cr_idempotency = cm_idempotency c,
      cr_diagnostics = ds, cr_revision = v, cr_observed = obs\<rparr>"
  using assms
  by (cases st) (auto simp: commit_result_of_def mk_commit_result_def store_checks_Inr commit_ok_def revision_ok_def)

lemma upsert_head_find:
  "map_option snd (List.find (\<lambda>h. fst h = CellText s) (upsert_head t i hs)) =
     (if s = t then Some (CellText i) else map_option snd (List.find (\<lambda>h. fst h = CellText s) hs))"
  by (induction hs) auto

lemma head_identity_append:
  "head_identity (es @ [(r, k)]) s = (if rv_stream r = s then Some (rv_identity r) else head_identity es s)"
  by (simp add: head_identity_log stream_log_append stream_log_def [of "[(r, k)]"])

lemma head_identity_ok: "log_ok es \<Longrightarrow> head_identity es s = Some h \<Longrightarrow> identifier_ok h"
  using last_in_set [of "stream_log es s"]
  by (fastforce simp: head_identity_log log_ok_def revision_ok_def stream_log_def split: if_splits)

lemma head_identity_find:
  assumes "log_ok es" "head_identity es s = Some h"
  shows "find_revision es s h \<noteq> None"
proof -
  obtain r where r: "stream_head es s = Some r" "rv_identity r = h" using assms(2) by (auto simp: head_identity_def)
  show ?thesis using stream_head_entry [OF assms(1) r(1)] r(2) by (auto simp: find_entry)
qed

lemma represents_append:
  assumes r: "represents maximum d es" and c: "commit_ok c"
    and k: "map_of (map (\<lambda>(r, k). (k, r)) es) (cm_idempotency c) = None"
    and h: "head_identity es (rv_stream (cm_candidate c)) = cm_expected c"
    and n: "find_revision es (rv_stream (cm_candidate c)) (rv_identity (cm_candidate c)) = None"
    and len: "length (rv_payload (cm_candidate c)) \<le> maximum"
  shows "\<exists>d'. insert_revision (cm_candidate c) (cm_idempotency c) d = Inr d' \<and>
    represents maximum (d'\<lparr>db_heads := upsert_head (rv_stream (cm_candidate c)) (rv_identity (cm_candidate c)) (db_heads d')\<rparr>)
      (es @ [(cm_candidate c, cm_idempotency c)])"
proof -
  let ?v = "cm_candidate c" and ?k = "cm_idempotency c"
  let ?d = "d\<lparr>db_revisions := db_revisions d @ [row_of (?v, ?k)]\<rparr>"
  have l: "log_ok es" using r by (simp add: represents_def)
  have "select_key d ?k = None" using represents_key [OF r] k by (simp add: find_key)
  moreover have "select_revision d (rv_stream ?v) (rv_identity ?v) = None"
    using represents_revision [OF r] n by (simp add: find_entry)
  moreover have "select_revision d (rv_stream ?v) p \<noteq> None" if "rv_predecessor ?v = Some p" for p
  proof -
    have "head_identity es (rv_stream ?v) = Some p" using h c that by (simp add: commit_ok_def)
    from head_identity_find [OF l this] show ?thesis
      using represents_revision [OF r] by (simp add: find_entry)
  qed
  ultimately have i: "insert_revision ?v ?k d = Inr ?d" by (auto simp: insert_revision_def)
  have "spec_commit c es = (Appended, es @ [(?v, ?k)])" using k h n by (simp add: spec_commit_def Let_def)
  then have "log_ok (es @ [(?v, ?k)])" using spec_commit_ok [OF l c] by simp
  moreover have "select_head (?d\<lparr>db_heads := upsert_head (rv_stream ?v) (rv_identity ?v) (db_heads ?d)\<rparr>) s =
      map_option CellText (head_identity (es @ [(?v, ?k)]) s)" for s
    using r by (simp add: represents_def select_head_def upsert_head_find head_identity_append)
  ultimately show ?thesis
    using r i len by (auto simp: represents_def prepared_def)
qed

text \<open>The transaction on a representation follows the specification.\<close>

lemma compare_and_append_spec:
  assumes r: "represents maximum d es" and c: "commit_ok c"
    and len: "length (rv_payload (cm_candidate c)) \<le> maximum"
  shows "case spec_commit c es of
      (Appended, es') \<Rightarrow> \<exists>d'. compare_and_append maximum c d = Inr (Inr d') \<and> represents maximum d' es'
    | (a, es') \<Rightarrow> compare_and_append maximum c d = Inr (Inl (Inr (spec_commit_result c a))) \<and> es' = es"
proof -
  let ?v = "cm_candidate c" and ?k = "cm_idempotency c"
  have l: "log_ok es" using r by (simp add: represents_def)
  show ?thesis
  proof (cases "List.find (\<lambda>e. snd e = ?k) es")
    case (Some e)
    then have e: "revision_from_row (row_of e) maximum = Inr e" "snd e = ?k"
      using represents_row [OF r] find_member [OF Some] by simp_all
    have s: "select_key d ?k = Some (row_of e)" using represents_key [OF r] Some by simp
    show ?thesis
      using e s Some c
      by (cases e) (auto simp: compare_and_append_def spec_commit_def Let_def find_key commit_result_of_Inr
          short_diagnostics spec_commit_result_def)
  next
    case None
    then have s: "select_key d ?k = None" using represents_key [OF r] by simp
    let ?h = "head_identity es (rv_stream ?v)"
    have ho: "\<forall>h \<in> set_option ?h. identifier_ok h" using head_identity_ok [OF l] by auto
    have sh: "(case select_head d (rv_stream ?v) of
           None \<Rightarrow> Inr None | Some (CellText h) \<Rightarrow> Inr (Some h) | Some CellNull \<Rightarrow> Inr None
         | Some _ \<Rightarrow> Inl (StoreFault ''invalid_head'')) = Inr ?h"
      using r by (cases ?h) (simp_all add: represents_def)
    consider "?h \<noteq> cm_expected c"
      | "?h = cm_expected c" "find_revision es (rv_stream ?v) (rv_identity ?v) \<noteq> None"
      | "?h = cm_expected c" "find_revision es (rv_stream ?v) (rv_identity ?v) = None" by blast
    then show ?thesis
    proof cases
      case 1
      then show ?thesis
        using s sh None c ho
        by (simp add: compare_and_append_def spec_commit_def Let_def find_key commit_result_of_Inr
            short_diagnostics spec_commit_result_def)
    next
      case 2
      then have "select_revision d (rv_stream ?v) (rv_identity ?v) \<noteq> None"
        using represents_revision [OF r] by (simp add: find_entry)
      then show ?thesis
        using 2 s sh None c ho
        by (auto simp: compare_and_append_def spec_commit_def Let_def find_key commit_result_of_Inr
            short_diagnostics spec_commit_result_def)
    next
      case 3
      then have "select_revision d (rv_stream ?v) (rv_identity ?v) = None"
        using represents_revision [OF r] by (simp add: find_entry)
      moreover obtain d' where "insert_revision ?v ?k d = Inr d'" "represents maximum
          (d'\<lparr>db_heads := upsert_head (rv_stream ?v) (rv_identity ?v) (db_heads d')\<rparr>) (es @ [(?v, ?k)])"
        using represents_append [OF r c _ 3 len] None by (auto simp: find_key)
      ultimately show ?thesis
        using 3 s sh None by (auto simp: compare_and_append_def spec_commit_def Let_def find_key)
    qed
  qed
qed

lemma sqlite_commit_refines:
  assumes "stores maximum d es" "commit_ok c" "length (rv_payload (cm_candidate c)) \<le> maximum"
    and s: "spec_commit c es = (a, es')"
  shows "\<exists>d'. sqlite_commit works maximum c d = (Inr (spec_commit_result c a), d') \<and> stores maximum d' es'"
proof -
  obtain d0 where d0: "prepare_store_schema d = Inr d0" "represents maximum d0 es" using assms(1) by (auto simp: stores_def)
  have o: "open_store works d = (Inr d0, d0)" using d0 by (simp add: open_store_def works_def)
  note t = compare_and_append_spec [OF d0(2) assms(2,3), unfolded s prod.case]
  show ?thesis
  proof (cases "a = Appended")
    case True
    then obtain d' where "compare_and_append maximum c d0 = Inr (Inr d')" "represents maximum d' es'" using t by auto
    then show ?thesis
      using o assms(2,3) True represents_stores
      by (auto simp: sqlite_commit_def works_def commit_result_of_Inr short_diagnostics spec_commit_result_def)
  next
    case False
    then have "compare_and_append maximum c d0 = Inr (Inl (Inr (spec_commit_result c a)))" "es' = es"
      using t by (cases a; simp)+
    then show ?thesis
      using o assms(3) represents_stores [OF d0(2)] by (auto simp: sqlite_commit_def works_def)
  qed
qed

text \<open>Whatever fails, the database still represents a log: the old one, or the one with the candidate.\<close>

lemma commit_failed_status:
  "commit_failed c x phase = Inr r \<Longrightarrow> cr_status r = CommitError \<or> (cr_status r = CommitIndeterminate \<and> phase = ''acknowledge'')"
  by (auto simp: commit_failed_def commit_result_of_def mk_commit_result_def store_checks_Inr
      split: store_exn.splits if_splits)

lemma commit_unacknowledged: "commit_failed c EngineError ''acknowledge'' = Inr r \<Longrightarrow> cr_status r = CommitIndeterminate"
  by (auto simp: commit_failed_def commit_result_of_def mk_commit_result_def store_checks_Inr)

lemma open_store_stores:
  assumes "stores maximum d es" "open_store en d = (x, d')"
  shows "stores maximum d' es \<and> (\<forall>y. x = Inr y \<longrightarrow> y = d' \<and> represents maximum d' es)"
  using assms represents_stores
  by (auto simp: open_store_def stores_def prepared_opens represents_def split: option.splits ack.splits if_splits)

lemma sqlite_commit_atomic:
  assumes st: "stores maximum d es" and c: "commit_ok c"
    and r: "sqlite_commit en maximum c d = (Inr r, d')"
  shows "(stores maximum d' es \<and> cr_status r \<noteq> CommitCommitted) \<or>
    (stores maximum d' (es @ [(cm_candidate c, cm_idempotency c)]) \<and> cr_status r \<in> {CommitCommitted, CommitIndeterminate})"
proof (cases "maximum < length (rv_payload (cm_candidate c))")
  case True
  then show ?thesis
    using r st by (auto simp: sqlite_commit_def commit_result_of_def mk_commit_result_def store_checks_Inr)
next
  case False
  obtain x d0 where o: "open_store en d = (x, d0)" by fastforce
  note os = open_store_stores [OF st o]
  show ?thesis
  proof (cases x)
    case (Inl y)
    then show ?thesis
      using r os o False by (cases y) (auto simp: sqlite_commit_def dest: commit_failed_status)
  next
    case (Inr y)
    then have rep: "represents maximum d0 es" using os by simp
    obtain a es' where s: "spec_commit c es = (a, es')" by fastforce
    note t = compare_and_append_spec [OF rep c, unfolded s prod.case]
    show ?thesis
    proof (cases "en_observe en")
      case False
      then show ?thesis
        using r os o Inr \<open>\<not> maximum < _\<close> by (auto simp: sqlite_commit_def dest: commit_failed_status)
    next
      case obs: True
      show ?thesis
      proof (cases "a = Appended")
        case True
        then have es': "es' = es @ [(cm_candidate c, cm_idempotency c)]"
          using s by (auto simp: spec_commit_def Let_def split: option.splits if_splits)
        obtain d1 where "compare_and_append maximum c d0 = Inr (Inr d1)" "represents maximum d1 es'"
          using t True False by auto
        then show ?thesis
          using r os o Inr False obs es' represents_stores c
          by (auto simp: sqlite_commit_def commit_result_of_Inr short_diagnostics
              dest: commit_unacknowledged split: ack.splits if_splits)
      next
        case na: False
        then have "compare_and_append maximum c d0 = Inr (Inl (Inr (spec_commit_result c a)))"
          using t False by (cases a; simp)
        moreover have "cr_status (spec_commit_result c a) \<noteq> CommitCommitted"
          using na by (cases a) (simp_all add: spec_commit_result_def)
        ultimately show ?thesis
          using r os o Inr False obs by (auto simp: sqlite_commit_def)
      qed
    qed
  qed
qed

text \<open>
  The envelope digest binds a stored row to its content: framing is injective, so two revisions with
  the same digest are the same revision under the same key, or exhibit a SHA-256 collision.
\<close>

section \<open>Digest bytes\<close>

definition hex_of_bytes :: "string \<Rightarrow> string" where
  "hex_of_bytes s = concat (map (\<lambda>c. [hexd (of_char c div 16), hexd (of_char c mod 16)]) s)"

lemma hex_round_trip:
  "list_all (\<lambda>c. \<exists>d < 16. c = hexd d) s \<Longrightarrow> even (length s) \<Longrightarrow> hex_of_bytes (bytes_of_hex s) = s"
proof (induction s rule: bytes_of_hex.induct)
  case (1 a b r)
  then obtain x y where "x < 16" "y < 16" "a = hexd x" "b = hexd y" by auto
  then have "of_char (char_of (16 * hexv a + hexv b) :: char) = (16 * x + y :: nat)" by simp
  with 1 \<open>x < 16\<close> \<open>y < 16\<close> \<open>a = hexd x\<close> \<open>b = hexd y\<close> show ?case by (simp add: hex_of_bytes_def)
qed (simp_all add: hex_of_bytes_def)

lemma sha256_bytes_eqD: "sha256_bytes s = sha256_bytes t \<Longrightarrow> s = t \<or> sha256_collision s t"
proof -
  assume eq: "sha256_bytes s = sha256_bytes t"
  have "hex_of_bytes (sha256_bytes u) = sha256_hex u" for u
    using digest_chars [OF digest_spelling_sha256 [of u]]
    unfolding sha256_bytes_def by (intro hex_round_trip) (auto simp: list_all_iff dest: sha256_hex_chars)
  then have "sha256_hex s = sha256_hex t" using eq by metis
  then show ?thesis by (auto simp: sha256_collision_def)
qed

section \<open>Frames\<close>

definition from_be64 :: "string \<Rightarrow> nat" where
  "from_be64 s = foldl (\<lambda>a c. 256 * a + of_char c) 0 s"

lemma length_be64 [simp]: "length (be64 n) = 8"
  by (simp add: be64_def)

lemma be64_digits: "foldl (\<lambda>a c. 256 * a + of_char c) 0 (map (\<lambda>i. char_of (n div 256 ^ i)) (rev [0..<k])) = (n :: nat) mod 256 ^ k"
proof (induction k arbitrary: n)
  case (Suc k)
  have "map (\<lambda>i. char_of (n div 256 ^ i)) (rev [0..<Suc k]) =
      map (\<lambda>i. char_of (n div 256 div 256 ^ i)) (rev [0..<k]) @ [char_of n :: char]"
    by (simp add: upt_conv_Cons map_Suc_upt [symmetric] rev_map div_mult2_eq del: upt_Suc)
  then show ?case using Suc.IH [of "n div 256"] by (simp add: mod_mult2_eq)
qed simp

lemma be64_inj: "m < 2 ^ 64 \<Longrightarrow> n < 2 ^ 64 \<Longrightarrow> be64 m = be64 n \<longleftrightarrow> m = n"
proof
  assume less: "m < 2 ^ 64" "n < 2 ^ 64" and eq: "be64 m = be64 n"
  have "from_be64 (be64 k) = k mod 256 ^ 8" for k
    unfolding from_be64_def be64_def by (rule be64_digits)
  then have "m mod 256 ^ 8 = n mod 256 ^ 8" using eq by metis
  moreover have "(256 :: nat) ^ 8 = 2 ^ 64" by simp
  ultimately show "m = n" using less by (simp only: mod_less)
qed simp

definition frameable :: "string option \<Rightarrow> bool" where
  "frameable v \<longleftrightarrow> (\<forall>s \<in> set_option v. length s < 2 ^ 64)"

lemma store_frame_prefix:
  assumes "store_frame v @ x = store_frame w @ y" "frameable v" "frameable w"
  shows "v = w \<and> x = y"
proof (cases v)
  case None
  then show ?thesis using assms by (cases w) (auto simp: store_frame_def)
next
  case (Some s)
  then obtain t where t: "w = Some t" using assms by (cases w) (auto simp: store_frame_def)
  then have eq: "be64 (length s) @ s @ x = be64 (length t) @ t @ y"
    using assms(1) Some by (simp add: store_frame_def)
  then have "be64 (length s) = be64 (length t)" "s @ x = t @ y" by auto
  then have "length s = length t" using be64_inj assms Some t by (simp add: frameable_def)
  then show ?thesis using \<open>s @ x = t @ y\<close> Some t by simp
qed

lemma store_frames_inj:
  "concat (map store_frame vs) = concat (map store_frame ws) \<Longrightarrow> length vs = length ws \<Longrightarrow>
   list_all frameable vs \<Longrightarrow> list_all frameable ws \<Longrightarrow> vs = ws"
proof (induction vs arbitrary: ws)
  case (Cons v vs)
  then obtain w ws' where ws: "ws = w # ws'" by (cases ws) auto
  then have "store_frame v @ concat (map store_frame vs) = store_frame w @ concat (map store_frame ws')"
    using Cons.prems by simp
  then show ?case using store_frame_prefix [of v _ w] Cons ws by auto
qed simp

section \<open>Envelopes\<close>

text \<open>Texts whose length fits the eight bytes of a frame.\<close>

definition envelope_small :: "revision \<Rightarrow> string \<Rightarrow> bool" where
  "envelope_small r k \<longleftrightarrow> list_all frameable [Some (rv_stream r), Some (rv_identity r), rv_predecessor r,
     Some (rv_schema r), Some (rv_content r), Some k, Some (rv_payload r)]"

lemma envelope_text_inj:
  assumes "envelope_text r k = envelope_text q l" "envelope_small r k" "envelope_small q l"
  shows "r = q \<and> k = l"
proof -
  let ?fs = "\<lambda>r k. [Some (rv_stream r), Some (rv_identity r), rv_predecessor r, Some (rv_schema r),
       Some (rv_content r), Some k, Some (rv_payload r)]"
  have "concat (map store_frame (?fs r k)) = concat (map store_frame (?fs q l))"
    using assms(1) unfolding envelope_text_def by (simp only: append_same_eq same_append_eq)
  then have "?fs r k = ?fs q l"
    by (rule store_frames_inj) (use assms(2,3) in \<open>simp_all only: envelope_small_def, simp\<close>)
  then show ?thesis by (auto intro: revision.equality)
qed

lemma envelope_digest_eqD:
  assumes "envelope_digest r k = envelope_digest q l" "envelope_small r k" "envelope_small q l"
  shows "(r = q \<and> k = l) \<or> sha256_collision (envelope_text r k) (envelope_text q l)"
  using sha256_bytes_eqD [OF assms(1) [unfolded envelope_digest_def]] envelope_text_inj [OF _ assms(2,3)] by blast

text \<open>
  A changed row that keeps its digest cell is never read as another revision, short of a collision.
\<close>

lemma tampered_row_refused:
  assumes "revision_from_row row maximum = Inr (q, l)" "last row = CellBlob (envelope_digest r k)"
    and "envelope_small r k" "envelope_small q l"
  shows "(q, l) = (r, k) \<or> sha256_collision (envelope_text q l) (envelope_text r k)"
proof -
  have "envelope_digest q l = envelope_digest r k"
    using revision_from_row_sound(1) [OF assms(1)] assms(2) by (simp add: row_of_def)
  from envelope_digest_eqD [OF this assms(4,3)] show ?thesis by simp
qed

end
