(* ===== verification/Runtime_Repository.thy ===== *)
theory Runtime_Repository
  imports Runtime_Serialization Store_Refinement
begin

text \<open>
  \<open>runtime/repository.py\<close>: runtime events as revisions of a store.  The store is a parameter: its
  \<open>read\<close> and \<open>commit\<close> are functions on some state, as the protocol \<open>AtomicRevisionStore\<close> has them.
\<close>

section \<open>Calls that change the store\<close>

type_synonym ('s, 'a) action = "'s \<Rightarrow> 'a result \<times> 's"
type_synonym 's reader = "read_request \<Rightarrow> ('s, read_result) action"
type_synonym 's committer = "commit \<Rightarrow> ('s, commit_result) action"

definition give :: "'a result \<Rightarrow> ('s, 'a) action" where
  "give r s = (r, s)"

definition bindio :: "('s, 'a) action \<Rightarrow> ('a \<Rightarrow> ('s, 'b) action) \<Rightarrow> ('s, 'b) action" where
  "bindio m f s = (case m s of (Inl x, s') \<Rightarrow> (Inl x, s') | (Inr a, s') \<Rightarrow> f a s')"

lemma bindio_cong [fundef_cong]:
  "m s = m' s \<Longrightarrow> (\<And>a s'. m' s = (Inr a, s') \<Longrightarrow> f a s' = g a s') \<Longrightarrow> bindio m f s = bindio m' g s"
  by (auto simp: bindio_def split: prod.splits sum.splits)

lemma bindio_give [simp]: "bindio (give (Inr a)) f = f a" "bindio (give (Inl x)) f = give (Inl x)"
  by (auto simp: bindio_def give_def)

lemma bindio_step: "m s = (Inr a, s') \<Longrightarrow> bindio m f s = f a s'"
  by (simp add: bindio_def)

lemma give_eq [simp]: "give r s = (x, s') \<longleftrightarrow> x = r \<and> s' = s"
  by (auto simp: give_def)

lemma bindio_Inr_iff: "bindio m f s = (Inr b, s') \<longleftrightarrow> (\<exists>a s1. m s = (Inr a, s1) \<and> f a s1 = (Inr b, s'))"
  by (auto simp: bindio_def split: prod.splits sum.splits)

section \<open>Histories and results\<close>

datatype load_status = HistoryLoaded | HistoryAbsent | HistoryIncompatible | HistoryCorrupt | HistoryIndeterminate | HistoryError

datatype append_status = EventAppended | EventIdempotent | EventConflict | EventIndeterminate | EventError

definition max_history_events :: nat where "max_history_events = 10000"

record history =
  hs_stream :: string
  hs_events :: "event list"

definition event_links :: "event list \<Rightarrow> nat \<Rightarrow> bool" where
  "event_links es n \<longleftrightarrow> en_ordinal (es ! n) = int n \<and> en_run (es ! n) = en_run (es ! 0) \<and>
     en_predecessor (es ! n) = (if n = 0 then None else Some (en_identity (es ! (n - 1))))"

definition mk_history :: "history \<Rightarrow> history result" where
  "mk_history h =
     require (hs_stream h \<noteq> []) ''stream_identity must be a nonempty built-in str''
    (require (hs_events h \<noteq> []) ''events must be a nonempty tuple''
    (require (length (hs_events h) \<le> max_history_events) ''events exceed their history bound''
    (require (list_all (event_links (hs_events h)) [0..<length (hs_events h)]) ''runtime event chain is inconsistent''
    (require (hs_stream h = run_value (en_run (hs_events h ! 0))) ''history stream must equal its run identity''
      (Inr h)))))"

definition history_head :: "history \<Rightarrow> event" where
  "history_head h = last (hs_events h)"

definition history_ok :: "history \<Rightarrow> bool" where
  "history_ok h \<longleftrightarrow> hs_stream h \<noteq> [] \<and> hs_events h \<noteq> [] \<and> length (hs_events h) \<le> max_history_events \<and>
     (\<forall>n < length (hs_events h). event_links (hs_events h) n) \<and> hs_stream h = run_value (en_run (hs_events h ! 0))"

lemma mk_history_Inr: "mk_history h = Inr k \<longleftrightarrow> history_ok h \<and> k = h"
  by (auto simp: mk_history_def history_ok_def require_Inr_iff list_all_iff)

definition check_texts :: "string list \<Rightarrow> 'a result \<Rightarrow> 'a result" where
  "check_texts ds k =
     (if list_all (\<lambda>d. d \<noteq> []) ds then k else Inl (TypeError ''diagnostics must contain nonempty strings''))"

record load_result =
  ld_status :: load_status
  ld_stream :: string
  ld_diagnostics :: "string list"
  ld_history :: "history option"

definition mk_load_result :: "load_result \<Rightarrow> load_result result" where
  "mk_load_result r =
     require (ld_stream r \<noteq> []) ''stream_identity must be nonempty''
    (check_texts (ld_diagnostics r)
    (if ld_status r = HistoryLoaded then require (ld_history r \<noteq> None) ''loaded requires history'' (Inr r)
     else require (ld_history r = None) ''non-loaded result prohibits history'' (Inr r)))"

record append_result =
  ap_status :: append_status
  ap_event :: event
  ap_diagnostics :: "string list"

definition mk_append_result :: "append_result \<Rightarrow> append_result result" where
  "mk_append_result r = check_texts (ap_diagnostics r) (Inr r)"

lemma check_texts_Inr: "check_texts ds k = Inr x \<longleftrightarrow> list_all (\<lambda>d. d \<noteq> []) ds \<and> k = Inr x"
  by (simp add: check_texts_def)

section \<open>Appending\<close>

definition append_status_of :: "commit_status \<Rightarrow> append_status" where
  "append_status_of st =
     (case st of CommitCommitted \<Rightarrow> EventAppended | CommitIdempotent \<Rightarrow> EventIdempotent
      | CommitConflict \<Rightarrow> EventConflict | CommitIndeterminate \<Rightarrow> EventIndeterminate | CommitError \<Rightarrow> EventError)"

definition event_as_revision :: "event \<Rightarrow> event_id option \<Rightarrow> revision" where
  "event_as_revision e expected =
     \<lparr>rv_stream = run_value (en_run e), rv_identity = event_value (en_identity e),
      rv_predecessor = map_option event_value expected, rv_schema = event_schema,
      rv_content = sha256_hex (encode_event e), rv_payload = encode_event e\<rparr>"

definition append_event :: "'s committer \<Rightarrow> event \<Rightarrow> event_id option \<Rightarrow> string \<Rightarrow> ('s, append_result) action" where
  "append_event commit e expected idempotency =
     bindio (give
       (require (en_predecessor e = expected) ''event predecessor must equal expected event''
       (require (idempotency \<noteq> []) ''idempotency_identity must be nonempty''
       (bindr (mk_revision (event_as_revision e expected)) (\<lambda>v.
         mk_commit \<lparr>cm_expected = rv_predecessor v, cm_candidate = v, cm_idempotency = idempotency\<rparr>))))) (\<lambda>c.
     bindio (commit c) (\<lambda>r.
     give (mk_append_result
       \<lparr>ap_status = append_status_of (cr_status r), ap_event = e, ap_diagnostics = cr_diagnostics r\<rparr>)))"

section \<open>Loading\<close>

definition history_read_identity :: "string \<Rightarrow> string \<Rightarrow> string" where
  "history_read_identity stream selector =
     sha256_hex (''workflow-history-read:1'' @ [CHR 0x00] @ stream @ [CHR 0x00] @ selector)"

definition load_failure :: "read_status \<Rightarrow> load_status option" where
  "load_failure st =
     (case st of ReadFound \<Rightarrow> None | ReadAbsent \<Rightarrow> Some HistoryCorrupt | ReadIncompatible \<Rightarrow> Some HistoryIncompatible
      | ReadCorrupt \<Rightarrow> Some HistoryCorrupt | ReadIndeterminate \<Rightarrow> Some HistoryIndeterminate
      | ReadError \<Rightarrow> Some HistoryError)"

definition load_answer :: "string \<Rightarrow> load_status \<Rightarrow> string list \<Rightarrow> history option \<Rightarrow> load_result result" where
  "load_answer stream st ds h =
     mk_load_result \<lparr>ld_status = st, ld_stream = stream, ld_diagnostics = ds, ld_history = h\<rparr>"

text \<open>
  One turn of the loop up to the next read: the status and the diagnostic of an early return, or the
  event of the revision.
\<close>

definition check_revision :: "string \<Rightarrow> event list \<Rightarrow> string list \<Rightarrow> revision \<Rightarrow>
    (load_status \<times> string + event) result" where
  "check_revision stream events visited v =
     (if rv_identity v \<in> set visited then Inr (Inl (HistoryCorrupt, ''runtime_event_cycle''))
      else if max_history_events \<le> length events then Inr (Inl (HistoryCorrupt, ''runtime_history_limit''))
      else if rv_schema v \<noteq> event_schema then Inr (Inl (HistoryIncompatible, ''runtime_event_schema''))
      else if sha256_hex (rv_payload v) \<noteq> rv_content v then Inr (Inl (HistoryCorrupt, ''runtime_event_content''))
      else
        (case decode_event (rv_payload v) of
           Inl (TypeError _) \<Rightarrow> Inr (Inl (HistoryCorrupt, ''runtime_event_decode''))
         | Inl (ValueError _) \<Rightarrow> Inr (Inl (HistoryCorrupt, ''runtime_event_decode''))
         | Inl x \<Rightarrow> Inl x
         | Inr e \<Rightarrow>
             if event_value (en_identity e) \<noteq> rv_identity v \<or> run_value (en_run e) \<noteq> stream \<or>
                map_option event_value (en_predecessor e) \<noteq> rv_predecessor v
             then Inr (Inl (HistoryCorrupt, ''runtime_event_binding'')) else Inr (Inr e)))"

definition finish_load :: "string \<Rightarrow> event list \<Rightarrow> load_result result" where
  "finish_load stream events =
     (case mk_history \<lparr>hs_stream = stream, hs_events = rev events\<rparr> of
        Inr h \<Rightarrow> load_answer stream HistoryLoaded [] (Some h)
      | Inl (TypeError _) \<Rightarrow> load_answer stream HistoryCorrupt [''runtime_history_invalid''] None
      | Inl (ValueError _) \<Rightarrow> load_answer stream HistoryCorrupt [''runtime_history_invalid''] None
      | Inl x \<Rightarrow> Inl x)"

definition explicit_request :: "string \<Rightarrow> string \<Rightarrow> read_request result" where
  "explicit_request stream p =
     mk_read_request \<lparr>rd_request = history_read_identity stream p, rd_stream = stream,
       rd_selector = SelectExplicit, rd_revision = Some p\<rparr>"

definition latest_request :: "string \<Rightarrow> read_request result" where
  "latest_request stream =
     mk_read_request \<lparr>rd_request = history_read_identity stream ''latest'', rd_stream = stream,
       rd_selector = SelectLatest, rd_revision = None\<rparr>"

definition or_else :: "string list \<Rightarrow> string list \<Rightarrow> string list" where
  "or_else ds es = (if ds = [] then es else ds)"

text \<open>The events are collected from the head backwards.\<close>

function load_loop :: "'s reader \<Rightarrow> string \<Rightarrow> event list \<Rightarrow> string list \<Rightarrow> revision \<Rightarrow> ('s, load_result) action" where
  "load_loop read stream events visited v s =
     (case check_revision stream events visited v of
        Inl x \<Rightarrow> (Inl x, s)
      | Inr (Inl (st, d)) \<Rightarrow> (load_answer stream st [d] None, s)
      | Inr (Inr e) \<Rightarrow>
          (case rv_predecessor v of
             None \<Rightarrow> (finish_load stream (events @ [e]), s)
           | Some p \<Rightarrow>
               bindio (give (explicit_request stream p)) (\<lambda>q.
               bindio (read q) (\<lambda>prior s'.
                 case (load_failure (rr_status prior), rr_revision prior) of
                   (None, Some w) \<Rightarrow> load_loop read stream (events @ [e]) (rv_identity v # visited) w s'
                 | (f, _) \<Rightarrow>
                     (load_answer stream (case f of None \<Rightarrow> HistoryCorrupt | Some st \<Rightarrow> st)
                        (or_else (rr_diagnostics prior) [''runtime_predecessor_missing'']) None, s'))) s))"
  by pat_completeness auto
termination
  by (relation "measure (\<lambda>(read, stream, events, visited, v, s). max_history_events - length events)")
    (auto simp: check_revision_def split: if_splits)

declare load_loop.simps [simp del]

definition load_history :: "'s reader \<Rightarrow> string \<Rightarrow> ('s, load_result) action" where
  "load_history read stream =
     bindio (give (require (stream \<noteq> []) ''stream_identity must be nonempty'' (latest_request stream))) (\<lambda>q.
     bindio (read q) (\<lambda>latest.
       if rr_status latest = ReadAbsent
       then give (load_answer stream HistoryAbsent (rr_diagnostics latest) None)
       else
         (case load_failure (rr_status latest) of
            Some st \<Rightarrow> give (load_answer stream st (rr_diagnostics latest) None)
          | None \<Rightarrow>
              (case rr_revision latest of
                 None \<Rightarrow> give (Inl AssertionError)
               | Some v \<Rightarrow> load_loop read stream [] [] v))))"

end
