(* ===== verification/Runtime_Service.thy ===== *)
theory Runtime_Service
  imports Runtime_Repository
begin

text \<open>
  \<open>runtime/service.py\<close>: the local runtime records the start of a run, reserves one request per core
  revision and records the transition of a reserved request.  Every operation loads the history,
  decides, and appends at most one event behind the head that it has seen.
\<close>

section \<open>Results\<close>

datatype action_status = ActionRecorded | ActionIdempotent | ActionRejected | ActionConflict | ActionIndeterminate | ActionError

fun action_status_text :: "action_status \<Rightarrow> string" where
  "action_status_text ActionRecorded = ''recorded''"
| "action_status_text ActionIdempotent = ''idempotent''"
| "action_status_text ActionRejected = ''rejected''"
| "action_status_text ActionConflict = ''conflict''"
| "action_status_text ActionIndeterminate = ''indeterminate''"
| "action_status_text ActionError = ''error''"

record action_result =
  ac_status :: action_status
  ac_event :: "event option"
  ac_diagnostics :: "string list"
  ac_validation :: "validation option"
  ac_transition :: "execution option"

definition mk_action_result :: "action_result \<Rightarrow> action_result result" where
  "mk_action_result r =
     check_texts (ac_diagnostics r)
    (require (\<not> (ac_status r \<in> {ActionRecorded, ActionIdempotent, ActionRejected} \<and> ac_event r = None))
      (action_status_text (ac_status r) @ '' requires an event'') (Inr r))"

definition action_answer :: "action_status \<Rightarrow> event option \<Rightarrow> string list \<Rightarrow> action_result result" where
  "action_answer st e ds =
     mk_action_result \<lparr>ac_status = st, ac_event = e, ac_diagnostics = ds, ac_validation = None, ac_transition = None\<rparr>"

definition append_action_status :: "append_status \<Rightarrow> action_status" where
  "append_action_status st =
     (case st of EventAppended \<Rightarrow> ActionRecorded | EventIdempotent \<Rightarrow> ActionIdempotent
      | EventConflict \<Rightarrow> ActionConflict | EventIndeterminate \<Rightarrow> ActionIndeterminate | EventError \<Rightarrow> ActionError)"

definition append_answer :: "validation option \<Rightarrow> execution option \<Rightarrow> append_result \<Rightarrow> action_result result" where
  "append_answer v x r =
     mk_action_result
       \<lparr>ac_status = append_action_status (ap_status r),
        ac_event = (if ap_status r \<in> {EventAppended, EventIdempotent} then Some (ap_event r) else None),
        ac_diagnostics = ap_diagnostics r, ac_validation = v, ac_transition = x\<rparr>"

definition load_failure_result :: "load_status \<Rightarrow> string list \<Rightarrow> action_result result" where
  "load_failure_result st ds =
     (case st of
        HistoryLoaded \<Rightarrow> Inl (ValueError ''loaded is not a failure'')
      | HistoryAbsent \<Rightarrow> action_answer ActionConflict None (or_else ds [''runtime_history_unavailable''])
      | HistoryIndeterminate \<Rightarrow> action_answer ActionIndeterminate None (or_else ds [''runtime_history_unavailable''])
      | _ \<Rightarrow> action_answer ActionError None (or_else ds [''runtime_history_unavailable'']))"

text \<open>A recorded event that stands for a refusal.\<close>

definition relabel :: "action_status \<Rightarrow> validation option \<Rightarrow> action_result \<Rightarrow> action_result result" where
  "relabel st v r =
     (if ac_status r = ActionRecorded
      then mk_action_result \<lparr>ac_status = st, ac_event = ac_event r, ac_diagnostics = ac_diagnostics r,
        ac_validation = v, ac_transition = None\<rparr>
      else Inr r)"

section \<open>Looking into a history\<close>

definition next_event :: "history \<Rightarrow> runtime_kind \<Rightarrow> int \<Rightarrow> state_id \<Rightarrow> occurrence_id option \<Rightarrow> request_id option \<Rightarrow>
    operation_id option \<Rightarrow> evidence_reference list \<Rightarrow> string list \<Rightarrow> event result" where
  "next_event h kind rv s occ q oper evs reasons =
     create_event kind (en_run (history_head h)) (en_ordinal (history_head h) + 1)
       (Some (en_identity (history_head h))) rv s occ q oper evs reasons"

definition names_request :: "string \<Rightarrow> event \<Rightarrow> bool" where
  "names_request q e \<longleftrightarrow> map_option request_value (en_request e) = Some q"

definition request_event :: "history \<Rightarrow> string \<Rightarrow> event option" where
  "request_event h q =
     List.find (\<lambda>e. names_request q e \<and> en_kind e \<in> {RequestRetained, RequestConflictRecorded, PreflightRejected})
       (hs_events h)"

definition idempotency_owner :: "history \<Rightarrow> string \<Rightarrow> event option" where
  "idempotency_owner h k =
     List.find (\<lambda>e. en_kind e \<in> {RequestRetained, PreflightRejected} \<and>
         list_ex (\<lambda>r. er_kind r = ''request-idempotency'' \<and> er_identity r = k) (en_evidence e))
       (hs_events h)"

definition completed :: "event list \<Rightarrow> event \<Rightarrow> bool" where
  "completed es e \<longleftrightarrow>
     list_ex (\<lambda>l. en_kind l = TransitionRecorded \<and> en_occurrence l = en_occurrence e) (drop (nat (en_ordinal e + 1)) es)"

fun active_among :: "event list \<Rightarrow> event list \<Rightarrow> event option result" where
  "active_among es [] = Inr None"
| "active_among es (e # candidates) =
     (if en_occurrence e = None then Inl AssertionError
      else if completed es e then active_among es candidates
      else Inr (Some e))"

definition active_occurrence :: "history \<Rightarrow> int \<Rightarrow> event option result" where
  "active_occurrence h rv =
     active_among (hs_events h)
       (rev (filter (\<lambda>e. en_kind e = RequestRetained \<and> en_revision e = rv) (hs_events h)))"

definition retained_occurrence :: "history \<Rightarrow> string \<Rightarrow> event option" where
  "retained_occurrence h q = List.find (\<lambda>e. en_kind e = RequestRetained \<and> names_request q e) (hs_events h)"

definition transition_event :: "history \<Rightarrow> string \<Rightarrow> event option" where
  "transition_event h q = List.find (\<lambda>e. en_kind e = TransitionRecorded \<and> names_request q e) (hs_events h)"

section \<open>Starting\<close>

definition references :: "(string \<times> string) list \<Rightarrow> evidence_reference list result" where
  "references = mapr (\<lambda>(k, i). runtime_reference k i)"

definition start_references :: "run \<Rightarrow> (string \<times> string) list" where
  "start_references r =
     [(''workflow-definition'', workflow_value (rn_workflow r)), (''workflow-subject'', subject_value (rn_subject r))] @
     map (\<lambda>a. (''artifact-reference'', artifact_value (ar_identity a))) (rn_artifacts r) @
     map (\<lambda>d. (''decision-reference'', decision_value (dr_identity d))) (rn_decisions r) @
     (case rn_parent r of None \<Rightarrow> [] | Some p \<Rightarrow> [(''parent-run'', run_value p)]) @
     (case rn_predecessor r of None \<Rightarrow> [] | Some p \<Rightarrow> [(''predecessor-run'', run_value p)])"

definition genesis_event :: "run_start \<Rightarrow> event result" where
  "genesis_event st =
     bindr (references (start_references (st_run st))) (\<lambda>evs.
       create_event RunStarted (rn_identity (st_run st)) 0 None (rn_revision (st_run st)) (ss_identity (st_state st))
         None None None evs [])"

text \<open>Every operation is split where its history is known: the rest decides and appends.\<close>

definition start_loaded :: "'s committer \<Rightarrow> event \<Rightarrow> load_result \<Rightarrow> ('s, action_result) action" where
  "start_loaded commit e loaded =
     (if ld_status loaded = HistoryLoaded
      then
        (case ld_history loaded of
           None \<Rightarrow> give (Inl AssertionError)
         | Some h \<Rightarrow>
             give (if hs_events h ! 0 = e then action_answer ActionIdempotent (Some (hs_events h ! 0)) []
                   else action_answer ActionConflict None [''run_identity_collision'']))
      else if ld_status loaded \<noteq> HistoryAbsent
      then give (load_failure_result (ld_status loaded) (ld_diagnostics loaded))
      else
        bindio (append_event commit e None (''runtime-start:'' @ event_value (en_identity e))) (\<lambda>r.
          give (append_answer None None r)))"

definition runtime_start :: "'s reader \<Rightarrow> 's committer \<Rightarrow> run_start \<Rightarrow> ('s, action_result) action" where
  "runtime_start read commit st =
     bindio (give (genesis_event st)) (\<lambda>e.
     bindio (load_history read (run_value (rn_identity (st_run st)))) (start_loaded commit e))"

section \<open>Reserving\<close>

definition with_history :: "'s reader \<Rightarrow> run \<Rightarrow> (history \<Rightarrow> ('s, action_result) action) \<Rightarrow> ('s, action_result) action" where
  "with_history read r k =
     bindio (load_history read (run_value (rn_identity r))) (\<lambda>loaded.
       if ld_status loaded \<noteq> HistoryLoaded
       then give (load_failure_result (ld_status loaded) (ld_diagnostics loaded))
       else (case ld_history loaded of None \<Rightarrow> give (Inl AssertionError) | Some h \<Rightarrow> k h))"

definition at_head :: "history \<Rightarrow> run \<Rightarrow> snapshot \<Rightarrow> bool" where
  "at_head h r s \<longleftrightarrow> en_revision (history_head h) = rn_revision r \<and> en_state (history_head h) = ss_identity s"

definition request_occurrence :: "preflight_input \<Rightarrow> occurrence_id result" where
  "request_occurrence p =
     create_occurrence (rn_identity (pi_run p)) (ss_identity (pi_prior p)) (rn_revision (pi_run p))
       (rq_identity (pi_request p))"

text \<open>The event of a request with the given kind, evidence and reasons, and its append behind the head.\<close>

definition preflight_event :: "history \<Rightarrow> preflight_input \<Rightarrow> runtime_kind \<Rightarrow> occurrence_id \<Rightarrow> (string \<times> string) list \<Rightarrow>
    string list \<Rightarrow> event result" where
  "preflight_event h p kind occ refs reasons =
     bindr (references refs) (\<lambda>evs.
       next_event h kind (rn_revision (pi_run p)) (ss_identity (pi_prior p)) (Some occ)
         (Some (rq_identity (pi_request p))) (Some (rq_operation (pi_request p))) evs reasons)"

definition append_next :: "'s committer \<Rightarrow> history \<Rightarrow> string \<Rightarrow> validation option \<Rightarrow> execution option \<Rightarrow> event \<Rightarrow>
    ('s, action_result) action" where
  "append_next commit h label v x e =
     bindio (append_event commit e (Some (en_identity (history_head h))) (label @ event_value (en_identity e))) (\<lambda>r.
       give (append_answer v x r))"

definition reserve_request :: "'s committer \<Rightarrow> history \<Rightarrow> preflight_input \<Rightarrow> ('s, action_result) action" where
  "reserve_request commit h p =
     (let q = pi_request p; key = idempotency_value (rq_idempotency q) in
      bindio (give (request_occurrence p)) (\<lambda>occ.
      bindio (give (active_occurrence h (rn_revision (pi_run p)))) (\<lambda>active.
        case active of
          Some a \<Rightarrow>
            (case (en_occurrence a, en_request a) of
               (Some o', Some q') \<Rightarrow>
                 bindio (give (preflight_event h p RequestConflictRecorded occ
                    [(''active-occurrence'', occurrence_value o'), (''active-request'', request_value q')]
                    [''revision_reserved''])) (\<lambda>e.
                 bindio (append_next commit h ''runtime-conflict:'' None None e) (\<lambda>r.
                   give (relabel ActionConflict None r)))
             | _ \<Rightarrow> give (Inl AssertionError))
        | None \<Rightarrow>
            bindio (give (preflight p)) (\<lambda>v.
              if vr_findings v \<noteq> []
              then
                bindio (give (preflight_event h p PreflightRejected occ
                   [(''request-idempotency'', key), (''workflow-validation'', validation_value (vr_identity v))]
                   (map (finding_code_text \<circ> wfi_code) (vr_findings v)))) (\<lambda>e.
                bindio (append_next commit h ''runtime-preflight:'' (Some v) None e) (\<lambda>r.
                  give (relabel ActionRejected (Some v) r)))
              else
                bindio (give (preflight_event h p RequestRetained occ
                   [(''authority-reference'', authority_value (au_identity (rq_authority q))),
                    (''request-idempotency'', key), (''workflow-validation'', validation_value (vr_identity v))] [])) (\<lambda>e.
                append_next commit h ''runtime-request:'' (Some v) None e)))))"

definition retain_loaded :: "'s committer \<Rightarrow> preflight_input \<Rightarrow> history \<Rightarrow> ('s, action_result) action" where
  "retain_loaded commit p h =
      (let q = pi_request p; key = idempotency_value (rq_idempotency q) in
       if \<not> at_head h (pi_run p) (pi_prior p)
       then give (action_answer ActionConflict None [''runtime_head_core_mismatch''])
       else
         (case request_event h (request_value (rq_identity q)) of
            Some e \<Rightarrow>
              give (action_answer
                (if en_kind e = PreflightRejected then ActionRejected
                 else if en_kind e = RequestConflictRecorded then ActionConflict else ActionIdempotent) (Some e) [])
          | None \<Rightarrow>
              (case idempotency_owner h key of
                 Some owner \<Rightarrow>
                   (case en_request owner of
                      None \<Rightarrow> give (Inl AssertionError)
                    | Some q' \<Rightarrow>
                        bindio (give (bindr (request_occurrence p) (\<lambda>occ.
                          preflight_event h p RequestConflictRecorded occ
                            [(''idempotency-owner-request'', request_value q'), (''request-idempotency'', key)]
                            [''idempotency_collision'']))) (\<lambda>e.
                        bindio (append_next commit h ''runtime-idempotency-conflict:'' None None e) (\<lambda>r.
                          give (relabel ActionConflict None r))))
               | None \<Rightarrow> reserve_request commit h p)))"

definition runtime_retain :: "'s reader \<Rightarrow> 's committer \<Rightarrow> preflight_input \<Rightarrow> ('s, action_result) action" where
  "runtime_retain read commit p = with_history read (pi_run p) (retain_loaded commit p)"

section \<open>Recording transitions\<close>

definition transition_references :: "transition_outcome \<Rightarrow> audit_event \<Rightarrow> (string \<times> string) list" where
  "transition_references x a =
     [(''transition-outcome'', outcome_value (tx_identity x)), (''transition-audit'', audit_value (ae_identity a)),
      (''workflow-validation'', validation_value (vr_identity (tx_validation x)))] @
     (case tx_evidence x of None \<Rightarrow> [] | Some e \<Rightarrow> [(''adapter-evidence'', evidence_value e)]) @
     (case tx_failure x of None \<Rightarrow> [] | Some f \<Rightarrow> [(''infrastructure-failure'', failure_value f)])"

definition transition_recorded :: "history \<Rightarrow> transition_input \<Rightarrow> event \<Rightarrow> execution \<Rightarrow> event result" where
  "transition_recorded h i retained x =
     (let out = ex_outcome x in
      bindr (references (transition_references out (ex_event x))) (\<lambda>evs.
        next_event h TransitionRecorded
          (case tx_successor out of None \<Rightarrow> rn_revision (pi_run i) | Some r \<Rightarrow> rn_revision r)
          (case tx_state out of None \<Rightarrow> ss_identity (pi_prior i) | Some s \<Rightarrow> ss_identity s)
          (en_occurrence retained) (Some (rq_identity (pi_request i))) (Some (rq_operation (pi_request i))) evs
          [outcome_kind_text (tx_kind out)]))"

definition record_loaded :: "'s committer \<Rightarrow> transition_input \<Rightarrow> history \<Rightarrow> ('s, action_result) action" where
  "record_loaded commit i h =
      (let q = request_value (rq_identity (pi_request i)) in
       case retained_occurrence h q of
         None \<Rightarrow> give (action_answer ActionConflict None [''request_not_reserved''])
       | Some retained \<Rightarrow>
           (case transition_event h q of
              Some e \<Rightarrow> give (action_answer ActionIdempotent (Some e) [])
            | None \<Rightarrow>
                if \<not> at_head h (pi_run i) (pi_prior i)
                then give (action_answer ActionConflict None [''runtime_head_core_mismatch''])
                else
                  bindio (give (process i)) (\<lambda>x.
                  bindio (give (transition_recorded h i retained x)) (\<lambda>e.
                    append_next commit h ''runtime-transition:'' (Some (tx_validation (ex_outcome x))) (Some x) e))))"

definition runtime_record :: "'s reader \<Rightarrow> 's committer \<Rightarrow> transition_input \<Rightarrow> ('s, action_result) action" where
  "runtime_record read commit i = with_history read (pi_run i) (record_loaded commit i)"

end
