(* ===== verification/Runtime_Store.thy ===== *)
theory Runtime_Store
  imports Runtime_Service "HOL-Library.Sublist"
begin

text \<open>
  What the runtime repository relies on: a locale for a store whose calls may fail but never lie or
  tear a commit, and its extension by a store that answers every call.  The facts about loading and
  appending are proved from these laws; the SQLite store is shown to satisfy them.
\<close>

section \<open>Events as revisions\<close>

definition own_revision :: "event \<Rightarrow> revision" where
  "own_revision e = event_as_revision e (en_predecessor e)"

lemma own_revision_inj:
  "own_revision e = own_revision f \<Longrightarrow> event_ok e \<Longrightarrow> event_ok f \<Longrightarrow> e = f"
  by (rule encode_event_inj) (simp_all add: own_revision_def event_as_revision_def)

lemma own_revisions_inj:
  "map own_revision es = map own_revision fs \<Longrightarrow> list_all event_ok es \<Longrightarrow> list_all event_ok fs \<Longrightarrow> es = fs"
proof (induction es arbitrary: fs)
  case (Cons e es)
  then show ?case by (cases fs) (auto dest: own_revision_inj)
qed simp

lemma own_revision_fields [simp]:
  "rv_stream (own_revision e) = run_value (en_run e)" "rv_identity (own_revision e) = event_value (en_identity e)"
  "rv_predecessor (own_revision e) = map_option event_value (en_predecessor e)"
  by (simp_all add: own_revision_def event_as_revision_def)

lemma check_revision_Inr:
  assumes "check_revision stream events visited v = Inr (Inr e)" "rv_stream v = stream"
  shows "event_ok e" "v = own_revision e"
proof -
  have d: "decode_event (rv_payload v) = Inr e" "rv_schema v = event_schema" "sha256_hex (rv_payload v) = rv_content v"
    "event_value (en_identity e) = rv_identity v" "run_value (en_run e) = stream"
    "map_option event_value (en_predecessor e) = rv_predecessor v"
    using assms by (auto simp: check_revision_def split: if_splits sum.splits py_exn.splits)
  from decode_event_Inr [OF d(1)] have "encode_event e = rv_payload v" "event_ok e" by auto
  then show "event_ok e" "v = own_revision e"
    using d assms(2) by (cases v; auto simp: own_revision_def event_as_revision_def)+
qed

lemma load_answer_Inr:
  "load_answer stream st ds h = Inr r \<Longrightarrow> ld_status r = st \<and> ld_history r = h \<and> ld_stream r = stream"
  by (auto simp: load_answer_def mk_load_result_def check_texts_Inr require_Inr_iff split: if_splits)

lemma finish_load_sound:
  assumes "finish_load stream events = Inr r"
  shows "ld_status r \<noteq> HistoryAbsent \<and> (ld_status r = HistoryLoaded \<longrightarrow>
    (\<exists>h. ld_history r = Some h \<and> history_ok h \<and> h = \<lparr>hs_stream = stream, hs_events = rev events\<rparr>))"
  using assms load_answer_Inr [of stream _ _ _ r]
  by (auto simp: finish_load_def mk_history_Inr split: sum.splits py_exn.splits)

lemma check_revision_report:
  "check_revision stream events visited v = Inr (Inl (st, d)) \<Longrightarrow> st \<noteq> HistoryLoaded \<and> st \<noteq> HistoryAbsent"
  by (auto simp: check_revision_def split: if_splits sum.splits py_exn.splits)

lemma stream_log_member: "v \<in> set (stream_log es s) \<Longrightarrow> rv_stream v = s"
  by (auto simp: stream_log_def)

lemma chained_from_at:
  "chained_from p (xs @ y # ys) \<Longrightarrow> rv_predecessor y = (if xs = [] then p else Some (rv_identity (last xs)))"
  by (induction xs arbitrary: p) auto

text \<open>The loop body in two steps: a turn, and the read of the predecessor.\<close>

definition load_prior :: "'s reader \<Rightarrow> string \<Rightarrow> event list \<Rightarrow> string list \<Rightarrow> string \<Rightarrow> ('s, load_result) action" where
  "load_prior read stream events visited p =
     bindio (give (explicit_request stream p)) (\<lambda>q.
     bindio (read q) (\<lambda>prior s.
       case (load_failure (rr_status prior), rr_revision prior) of
         (None, Some w) \<Rightarrow> load_loop read stream events visited w s
       | (f, _) \<Rightarrow>
           (load_answer stream (case f of None \<Rightarrow> HistoryCorrupt | Some st \<Rightarrow> st)
              (or_else (rr_diagnostics prior) [''runtime_predecessor_missing'']) None, s)))"

lemma load_loop_turn:
  "load_loop read stream events visited v s =
     (case check_revision stream events visited v of
        Inl x \<Rightarrow> (Inl x, s)
      | Inr (Inl (st, d)) \<Rightarrow> (load_answer stream st [d] None, s)
      | Inr (Inr e) \<Rightarrow>
          (case rv_predecessor v of
             None \<Rightarrow> (finish_load stream (events @ [e]), s)
           | Some p \<Rightarrow> load_prior read stream (events @ [e]) (rv_identity v # visited) p s))"
  unfolding load_prior_def by (subst load_loop.simps) (rule refl)

lemma find_distinct: "distinct (map f xs) \<Longrightarrow> v \<in> set xs \<Longrightarrow> List.find (\<lambda>r. f r = f v) xs = Some v"
  by (induction xs) auto

lemma find_revision_stream:
  assumes "log_ok es" "v \<in> set (stream_log es s)"
  shows "find_revision es s (rv_identity v) = Some v"
proof -
  have "distinct (map (\<lambda>r. (rv_stream r, rv_identity r)) (map fst es))"
    using assms(1) by (auto simp: log_ok_def comp_def case_prod_beta')
  from find_distinct [OF this, of v] show ?thesis
    using assms(2) by (auto simp: find_revision_def stream_log_def)
qed

definition loaded_right :: "store_log \<Rightarrow> string \<Rightarrow> load_result \<Rightarrow> bool" where
  "loaded_right es stream r \<longleftrightarrow>
     (ld_status r = HistoryLoaded \<longrightarrow> (\<exists>h. ld_history r = Some h \<and> history_ok h \<and> hs_stream h = stream \<and>
        list_all event_ok (hs_events h) \<and> stream_log es stream = map own_revision (hs_events h))) \<and>
     (ld_status r = HistoryAbsent \<longrightarrow> stream_log es stream = [])"

section \<open>The laws\<close>

locale atomic_store =
  fixes read :: "'s reader" and commit :: "'s committer" and holds :: "'s \<Rightarrow> store_log \<Rightarrow> bool"
  assumes read_sound: "holds s es \<Longrightarrow> read_request_ok q \<Longrightarrow> read q s = (x, s') \<Longrightarrow>
      holds s' es \<and> (\<forall>r. x = Inr r \<longrightarrow>
        (rr_status r = ReadFound \<longrightarrow> rr_revision r = spec_read q es) \<and>
        (rr_status r = ReadAbsent \<longrightarrow> spec_read q es = None))"
    and commit_atomic: "holds s es \<Longrightarrow> commit_ok c \<Longrightarrow> commit c s = (y, s') \<Longrightarrow>
      holds s' es \<or> (fst (spec_commit c es) = Appended \<and> holds s' (snd (spec_commit c es)))"
    and holds_log: "holds s es \<Longrightarrow> log_ok es"
begin

lemma prior_sound:
  assumes "load_prior read stream events visited p s = (x, s')" "holds s es" "find_revision es stream p = Some w"
    and onward: "\<And>x s1 s'. load_loop read stream events visited w s1 = (x, s') \<Longrightarrow> holds s1 es \<Longrightarrow>
      holds s' es \<and> (\<forall>r. x = Inr r \<longrightarrow> loaded_right es stream r)"
  shows "holds s' es \<and> (\<forall>r. x = Inr r \<longrightarrow> loaded_right es stream r)"
proof (cases "explicit_request stream p")
  case (Inl z)
  then show ?thesis using assms(1,2) by (auto simp: load_prior_def)
next
  case (Inr q)
  then have q: "read_request_ok q" "spec_read q es = Some w"
    using assms(3) by (auto simp: explicit_request_def mk_read_request_Inr spec_read_def)
  obtain y s1 where y: "read q s = (y, s1)" by fastforce
  note sound = read_sound [OF assms(2) q(1) y]
  show ?thesis
  proof (cases y)
    case (Inl z)
    then show ?thesis using assms(1) Inr y sound by (auto simp: load_prior_def bindio_def)
  next
    case r: (Inr r)
    show ?thesis
    proof (cases "rr_status r = ReadFound")
      case True
      then have "load_loop read stream events visited w s1 = (x, s')"
        using assms(1) Inr y r sound q(2) by (simp add: load_prior_def bindio_step load_failure_def)
      from onward [OF this] show ?thesis using sound by blast
    next
      case False
      then obtain st ds where "(load_answer stream st ds None, s1) = (x, s')" "st \<noteq> HistoryLoaded" "st \<noteq> HistoryAbsent"
        using assms(1) Inr y r by (cases "rr_status r") (auto simp: load_prior_def bindio_step load_failure_def)
      then show ?thesis using sound load_answer_Inr [of stream st ds None] by (auto simp: loaded_right_def)
    qed
  qed
qed

lemma loop_sound:
  assumes "load_loop read stream events visited v s = (x, s')" "holds s es"
    and "stream_log es stream = pre @ v # map own_revision (rev events)" "list_all event_ok events"
  shows "holds s' es \<and> (\<forall>r. x = Inr r \<longrightarrow> loaded_right es stream r)"
  using assms
proof (induction "max_history_events - length events" arbitrary: events visited v s x s' pre rule: less_induct)
  case less
  note log = less.prems(3)
  have l: "(case check_revision stream events visited v of
        Inl x \<Rightarrow> (Inl x, s)
      | Inr (Inl (st, d)) \<Rightarrow> (load_answer stream st [d] None, s)
      | Inr (Inr e) \<Rightarrow>
          (case rv_predecessor v of
             None \<Rightarrow> (finish_load stream (events @ [e]), s)
           | Some p \<Rightarrow> load_prior read stream (events @ [e]) (rv_identity v # visited) p s)) = (x, s')"
    using less.prems(1) load_loop_turn [of read stream events visited v s] by simp
  have ok: "log_ok es" by (rule holds_log [OF less.prems(2)])
  then have "chained (pre @ v # map own_revision (rev events))" by (simp add: log_ok_def flip: log)
  note before = chained_from_at [OF this]
  have v: "rv_stream v = stream" using log by (metis in_set_conv_decomp stream_log_member)
  show ?case
  proof (cases "check_revision stream events visited v")
    case (Inl z)
    then show ?thesis using l less.prems(2) by auto
  next
    case (Inr c)
    note check = this
    show ?thesis
    proof (cases c)
      case (Inl a)
      then show ?thesis
        using l less.prems(2) check check_revision_report [of stream events visited v "fst a" "snd a"]
          load_answer_Inr [of stream "fst a" "[snd a]" None]
        by (cases a) (auto simp: loaded_right_def)
    next
      case (Inr e)
      note e = check_revision_Inr [OF check [unfolded Inr] v]
      have log': "stream_log es stream = pre @ map own_revision (rev (events @ [e]))" using log e(2) by simp
      have evs: "list_all event_ok (events @ [e])" using less.prems(4) e(1) by simp
      show ?thesis
      proof (cases "rv_predecessor v")
        case None
        then have "pre = []" using before by (simp split: if_splits)
        then show ?thesis
          using l check Inr None less.prems(2) log' evs finish_load_sound [of stream "events @ [e]"]
          by (auto simp: loaded_right_def)
      next
        case (Some p)
        then obtain pre' w where pre: "pre = pre' @ [w]" "rv_identity w = p"
          using before by (cases pre rule: rev_cases) simp_all
        have find: "find_revision es stream p = Some w"
          using find_revision_stream [OF ok, of w stream] by (simp add: log pre)
        have room: "max_history_events - length (events @ [e]) < max_history_events - length events"
          using check Inr by (auto simp: check_revision_def split: if_splits)
        have log2: "stream_log es stream = pre' @ w # map own_revision (rev (events @ [e]))" using log' pre by simp
        from l check Inr Some
        have p: "load_prior read stream (events @ [e]) (rv_identity v # visited) p s = (x, s')" by simp
        show ?thesis
        proof (rule prior_sound [OF p less.prems(2) find])
          show "holds t' es \<and> (\<forall>r. y = Inr r \<longrightarrow> loaded_right es stream r)"
            if "load_loop read stream (events @ [e]) (rv_identity v # visited) w t = (y, t')" "holds t es" for y t t'
            using less.hyps [OF room that log2 evs] .
        qed
      qed
    qed
  qed
qed

lemma load_sound:
  assumes "load_history read stream s = (x, s')" "holds s es"
  shows "holds s' es \<and> (\<forall>r. x = Inr r \<longrightarrow> loaded_right es stream r)"
proof (cases "require (stream \<noteq> []) ''stream_identity must be nonempty'' (latest_request stream)")
  case (Inl z)
  then show ?thesis using assms by (auto simp: load_history_def)
next
  case (Inr q)
  then have q: "read_request_ok q" "spec_read q es = stream_head es stream"
    by (auto simp: latest_request_def mk_read_request_Inr require_Inr_iff spec_read_def)
  obtain y s1 where y: "read q s = (y, s1)" by fastforce
  note sound = read_sound [OF assms(2) q(1) y]
  show ?thesis
  proof (cases y)
    case (Inl z)
    then show ?thesis using assms(1) Inr y sound by (auto simp: load_history_def bindio_def)
  next
    case r: (Inr r)
    have l: "(if rr_status r = ReadAbsent then give (load_answer stream HistoryAbsent (rr_diagnostics r) None)
       else (case load_failure (rr_status r) of
            Some st \<Rightarrow> give (load_answer stream st (rr_diagnostics r) None)
          | None \<Rightarrow> (case rr_revision r of None \<Rightarrow> give (Inl AssertionError)
                     | Some v \<Rightarrow> load_loop read stream [] [] v))) s1 = (x, s')"
      using assms(1) Inr y r by (simp add: load_history_def bindio_step)
    consider "rr_status r = ReadAbsent" | "rr_status r = ReadFound" | "rr_status r \<notin> {ReadAbsent, ReadFound}" by blast
    then show ?thesis
    proof cases
      case 1
      then have "stream_log es stream = []"
        using sound r q(2) by (simp add: stream_head_def split: list.splits)
      then show ?thesis
        using l 1 sound load_answer_Inr [of stream HistoryAbsent] by (auto simp: loaded_right_def)
    next
      case 2
      show ?thesis
      proof (cases "rr_revision r")
        case None
        then show ?thesis using l 2 sound by (auto simp: load_failure_def)
      next
        case (Some v)
        then have "stream_head es stream = Some v" using sound r 2 q(2) by auto
        then have "stream_log es stream \<noteq> []" "last (stream_log es stream) = v"
          by (auto simp: stream_head_def split: list.splits)
        then have "stream_log es stream = butlast (stream_log es stream) @ v # map own_revision (rev [])"
          using append_butlast_last_id by fastforce
        from loop_sound [OF _ _ this] show ?thesis
          using l 2 Some sound by (simp add: load_failure_def)
      qed
    next
      case 3
      then obtain st where "load_failure (rr_status r) = Some st" "st \<noteq> HistoryLoaded" "st \<noteq> HistoryAbsent"
        by (cases "rr_status r") (auto simp: load_failure_def)
      then show ?thesis
        using l 3 sound load_answer_Inr [of stream st] by (auto simp: loaded_right_def)
    qed
  qed
qed

text \<open>An append leaves the log alone or puts the event behind the head that it names.\<close>

lemma append_sound:
  assumes "append_event commit e expected key s = (x, s')" "holds s es"
  shows "holds s' es \<or> (holds s' (es @ [(own_revision e, key)]) \<and> en_predecessor e = expected \<and>
    head_identity es (run_value (en_run e)) = map_option event_value expected)"
proof (cases "require (en_predecessor e = expected) ''event predecessor must equal expected event''
       (require (key \<noteq> []) ''idempotency_identity must be nonempty''
       (bindr (mk_revision (event_as_revision e expected)) (\<lambda>v.
         mk_commit \<lparr>cm_expected = rv_predecessor v, cm_candidate = v, cm_idempotency = key\<rparr>)))")
  case (Inl z)
  then show ?thesis using assms by (auto simp: append_event_def)
next
  case (Inr c)
  then have c: "en_predecessor e = expected" "commit_ok c"
    "c = \<lparr>cm_expected = map_option event_value expected, cm_candidate = own_revision e, cm_idempotency = key\<rparr>"
    by (auto simp: require_Inr_iff bindr_Inr_iff mk_revision_Inr mk_commit_Inr own_revision_def event_as_revision_def)
  obtain y s1 where y: "commit c s = (y, s1)" by fastforce
  have "s' = s1" using assms(1) Inr y by (cases y) (auto simp: append_event_def bindio_def)
  then have "holds s' es \<or> (fst (spec_commit c es) = Appended \<and> holds s' (snd (spec_commit c es)))"
    using commit_atomic [OF assms(2) c(2) y] by blast
  then show ?thesis
    using c(1,3) by (auto simp: spec_commit_def Let_def split: option.splits if_splits)
qed

end

section \<open>The SQLite store\<close>

text \<open>Each call meets the next environment of a schedule; when the schedule is exhausted everything works.\<close>

type_synonym served = "database \<times> environment list"

definition serve :: "(environment \<Rightarrow> database \<Rightarrow> 'a result \<times> database) \<Rightarrow> (served, 'a) action" where
  "serve f = (\<lambda>(d, schedule).
     let en = (case schedule of [] \<Rightarrow> works | en # _ \<Rightarrow> en); (x, d') = f en d
     in (x, (d', tl schedule)))"

definition served_read :: "nat \<Rightarrow> served reader" where
  "served_read maximum q = serve (\<lambda>en. sqlite_read en maximum q)"

definition served_commit :: "nat \<Rightarrow> served committer" where
  "served_commit maximum c = serve (\<lambda>en. sqlite_commit en maximum c)"

definition served_holds :: "nat \<Rightarrow> served \<Rightarrow> store_log \<Rightarrow> bool" where
  "served_holds maximum s es \<longleftrightarrow> stores maximum (fst s) es"

lemma read_result_of_Inr: "read_result_of q st ds v = Inr r \<Longrightarrow> rr_status r = st \<and> rr_revision r = v"
  by (auto simp: read_result_of_def mk_read_result_def store_checks_Inr split: option.splits if_splits)

lemma read_failed_status:
  assumes "read_failed q x phase = Inr r"
  shows "rr_status r \<noteq> ReadFound \<and> rr_status r \<noteq> ReadAbsent"
proof (cases x)
  case (StoreFault code)
  then have "rr_status r = read_fault_status code"
    using assms read_result_of_Inr by (simp add: read_failed_def)
  then show ?thesis by (simp add: read_fault_status_def)
next
  case EngineError
  then show ?thesis
    using assms read_result_of_Inr [of q "if phase = ''observe'' then ReadIndeterminate else ReadError" "[phase_failure phase]" None r]
    by (simp add: read_failed_def)
qed

lemma sqlite_read_sound:
  assumes "stores maximum d es" "read_request_ok q" "sqlite_read en maximum q d = (x, d')"
  shows "stores maximum d' es \<and> (\<forall>r. x = Inr r \<longrightarrow>
    (rr_status r = ReadFound \<longrightarrow> rr_revision r = spec_read q es) \<and>
    (rr_status r = ReadAbsent \<longrightarrow> spec_read q es = None))"
proof -
  obtain y d0 where o: "open_store en d = (y, d0)" by fastforce
  note os = open_store_stores [OF assms(1) o]
  show ?thesis
  proof (cases y)
    case (Inl z)
    then show ?thesis
      using assms(3) o os by (cases z) (auto simp: sqlite_read_def dest: read_failed_status)
  next
    case (Inr z)
    then have "observe_revision q maximum d0 = Inr (spec_read q es)"
      using os by (intro observe_revision_spec [OF _ assms(2)]) simp
    then show ?thesis
      using assms(3) o os Inr
      by (cases "spec_read q es") (auto simp: sqlite_read_def dest: read_failed_status read_result_of_Inr split: if_splits)
  qed
qed

lemma sqlite_commit_appends:
  assumes "stores maximum d es" "commit_ok c" "sqlite_commit en maximum c d = (x, d')"
  shows "stores maximum d' es \<or> (fst (spec_commit c es) = Appended \<and> stores maximum d' (snd (spec_commit c es)))"
proof (cases "maximum < length (rv_payload (cm_candidate c))")
  case True
  then show ?thesis using assms by (simp add: sqlite_commit_def)
next
  case False
  obtain y d0 where o: "open_store en d = (y, d0)" by fastforce
  note os = open_store_stores [OF assms(1) o]
  show ?thesis
  proof (cases y)
    case (Inl z)
    then show ?thesis using assms(3) o os False by (cases z) (auto simp: sqlite_commit_def)
  next
    case (Inr z)
    then have rep: "represents maximum d0 es" using os by simp
    obtain a es' where s: "spec_commit c es = (a, es')" by fastforce
    note t = compare_and_append_spec [OF rep assms(2), unfolded s prod.case]
    have n: "length (rv_payload (cm_candidate c)) \<le> maximum" using False by simp
    show ?thesis
    proof (cases "a = Appended")
      case True
      then obtain d1 where "compare_and_append maximum c d0 = Inr (Inr d1)" "represents maximum d1 es'"
        using t n by auto
      then show ?thesis
        using assms(3) o os Inr False True s represents_stores
        by (auto simp: sqlite_commit_def split: if_splits ack.splits)
    next
      case na: False
      then have "compare_and_append maximum c d0 = Inr (Inl (Inr (spec_commit_result c a)))"
        using t n by (cases a; simp)
      then show ?thesis
        using assms(3) o os Inr False by (auto simp: sqlite_commit_def split: if_splits)
    qed
  qed
qed

lemma serve_environment: "serve f s = (x, s') \<Longrightarrow> \<exists>en. f en (fst s) = (x, fst s')"
  by (cases s) (auto simp: serve_def Let_def split: prod.splits)

interpretation served: atomic_store "served_read maximum" "served_commit maximum" "served_holds maximum"
proof
  fix s es s' and q :: read_request and x
  assume "served_holds maximum s es" "read_request_ok q" "served_read maximum q s = (x, s')"
  then show "served_holds maximum s' es \<and> (\<forall>r. x = Inr r \<longrightarrow>
      (rr_status r = ReadFound \<longrightarrow> rr_revision r = spec_read q es) \<and>
      (rr_status r = ReadAbsent \<longrightarrow> spec_read q es = None))"
    using sqlite_read_sound by (auto simp: served_holds_def served_read_def dest!: serve_environment)
next
  fix s es s' and c :: commit and y
  assume "served_holds maximum s es" "commit_ok c" "served_commit maximum c s = (y, s')"
  then show "served_holds maximum s' es \<or>
      (fst (spec_commit c es) = Appended \<and> served_holds maximum s' (snd (spec_commit c es)))"
    using sqlite_commit_appends by (fastforce simp: served_holds_def served_commit_def dest!: serve_environment)
next
  fix s es
  show "served_holds maximum s es \<Longrightarrow> log_ok es"
    by (auto simp: served_holds_def stores_def represents_def)
qed

end
