(* ===== verification/Runtime_Reservation.thy ===== *)
theory Runtime_Reservation
  imports Runtime_Store
begin

text \<open>
  Which event the runtime may put behind a history, and the invariant of all histories under
  interleaved runtimes, failing calls and lost acknowledgements.
\<close>

section \<open>What may follow a history\<close>

definition claims_key :: "string \<Rightarrow> event \<Rightarrow> bool" where
  "claims_key key e \<longleftrightarrow> en_kind e \<in> {RequestRetained, PreflightRejected} \<and>
     \<lparr>er_kind = ''request-idempotency'', er_identity = key\<rparr> \<in> set (en_evidence e)"

definition unmoved :: "event list \<Rightarrow> event \<Rightarrow> bool" where
  "unmoved past e \<longleftrightarrow> en_revision e = en_revision (last past) \<and> en_state e = en_state (last past)"

text \<open>
  The event records what the processor made of an input at the head: an applied outcome puts the successor
  in place, any other one leaves revision and state.
\<close>

definition records_outcome :: "event list \<Rightarrow> event \<Rightarrow> bool" where
  "records_outcome past e \<longleftrightarrow> (\<exists>i x. process i = Inr x \<and> en_request e = Some (rq_identity (pi_request i)) \<and>
     rn_revision (pi_run i) = en_revision (last past) \<and> ss_identity (pi_prior i) = en_state (last past) \<and>
     en_reasons e = [outcome_kind_text (tx_kind (ex_outcome x))] \<and>
     (if tx_kind (ex_outcome x) = OutApplied
      then \<exists>r s. tx_successor (ex_outcome x) = Some r \<and> tx_state (ex_outcome x) = Some s \<and>
        en_revision e = rn_revision r \<and> rn_revision r = en_revision (last past) + 1 \<and>
        en_state e = ss_identity s \<and> ss_predecessor s = Some (en_state (last past))
      else unmoved past e))"

definition permitted :: "event list \<Rightarrow> event \<Rightarrow> bool" where
  "permitted past e \<longleftrightarrow>
     (case en_kind e of
        RunStarted \<Rightarrow> past = []
      | RequestRetained \<Rightarrow> past \<noteq> [] \<and> unmoved past e \<and> en_request e \<noteq> None \<and> en_occurrence e \<noteq> None \<and>
          (\<forall>r \<in> set past. en_kind r = RequestRetained \<longrightarrow>
             en_request r \<noteq> en_request e \<and> (en_revision r = en_revision e \<longrightarrow> completed past r)) \<and>
          (\<forall>key. claims_key key e \<longrightarrow> (\<forall>r \<in> set past. \<not> claims_key key r))
      | PreflightRejected \<Rightarrow> past \<noteq> [] \<and> unmoved past e \<and>
          (\<forall>key. claims_key key e \<longrightarrow> (\<forall>r \<in> set past. \<not> claims_key key r))
      | RequestConflictRecorded \<Rightarrow> past \<noteq> [] \<and> unmoved past e
      | TransitionRecorded \<Rightarrow> past \<noteq> [] \<and>
          (\<exists>r \<in> set past. en_kind r = RequestRetained \<and> en_request r = en_request e \<and> en_occurrence r = en_occurrence e) \<and>
          (\<forall>t \<in> set past. en_kind t = TransitionRecorded \<longrightarrow> en_request t \<noteq> en_request e) \<and>
          records_outcome past e
      | _ \<Rightarrow> False)"

definition reserved :: "event list \<Rightarrow> bool" where
  "reserved es \<longleftrightarrow> (\<forall>n < length es. permitted (take n es) (es ! n))"

lemma reserved_snoc: "reserved (es @ [e]) \<longleftrightarrow> reserved es \<and> permitted es e"
  by (auto simp: reserved_def less_Suc_eq nth_append)

lemma reserved_Nil [simp]: "reserved []"
  by (simp add: reserved_def)

section \<open>What each operation appends\<close>

definition adds :: "('s \<Rightarrow> store_log \<Rightarrow> bool) \<Rightarrow> (event \<Rightarrow> bool) \<Rightarrow> ('s, 'a) action \<Rightarrow> bool" where
  "adds holds P m \<longleftrightarrow> (\<forall>s es x s'. holds s es \<longrightarrow> m s = (x, s') \<longrightarrow> holds s' es \<or>
     (\<exists>e key. P e \<and> holds s' (es @ [(own_revision e, key)]) \<and>
        head_identity es (run_value (en_run e)) = map_option event_value (en_predecessor e)))"

lemma adds_give: "adds holds P (give r)"
  by (auto simp: adds_def)

lemma adds_bind: "(\<And>a. r = Inr a \<Longrightarrow> adds holds P (f a)) \<Longrightarrow> adds holds P (bindio (give r) f)"
  by (cases r) (simp_all add: adds_give)

lemma adds_then: "adds holds P m \<Longrightarrow> adds holds P (bindio m (\<lambda>r. give (g r)))"
  by (fastforce simp: adds_def bindio_def split: prod.splits sum.splits)

lemmas adds_rules = adds_give adds_bind adds_then

lemma references_Inr: "references refs = Inr evs \<Longrightarrow> evs = map (\<lambda>(k, i). \<lparr>er_kind = k, er_identity = i\<rparr>) refs"
proof (induction refs arbitrary: evs)
  case (Cons r refs)
  then show ?case by (cases r) (auto simp: references_def bindr_Inr_iff runtime_reference_Inr)
qed (simp add: references_def)

definition follows :: "history \<Rightarrow> event \<Rightarrow> bool" where
  "follows h e \<longleftrightarrow> event_ok e \<and> en_run e = en_run (history_head h) \<and>
     en_predecessor e = Some (en_identity (history_head h))"

lemma next_event_Inr:
  assumes "next_event h kind rv s occ q oper evs reasons = Inr e"
  shows "follows h e" "en_kind e = kind" "en_revision e = rv" "en_state e = s" "en_occurrence e = occ" "en_request e = q"
    "set (en_evidence e) = set evs" "set (en_reasons e) = set reasons"
  using create_event_Inr [OF assms [unfolded next_event_def]] by (simp_all add: follows_def)

lemma preflight_event_Inr:
  assumes "preflight_event h p kind occ refs reasons = Inr e"
  shows "follows h e" "en_kind e = kind" "en_revision e = rn_revision (pi_run p)" "en_state e = ss_identity (pi_prior p)"
    "en_occurrence e = Some occ" "en_request e = Some (rq_identity (pi_request p))"
    "set (en_evidence e) = (\<lambda>(k, i). \<lparr>er_kind = k, er_identity = i\<rparr>) ` set refs"
proof -
  obtain evs where "references refs = Inr evs" and e: "next_event h kind (rn_revision (pi_run p))
      (ss_identity (pi_prior p)) (Some occ) (Some (rq_identity (pi_request p))) (Some (rq_operation (pi_request p)))
      evs reasons = Inr e"
    using assms by (auto simp: preflight_event_def bindr_Inr_iff)
  then show "follows h e" "en_kind e = kind" "en_revision e = rn_revision (pi_run p)" "en_state e = ss_identity (pi_prior p)"
    "en_occurrence e = Some occ" "en_request e = Some (rq_identity (pi_request p))"
    "set (en_evidence e) = (\<lambda>(k, i). \<lparr>er_kind = k, er_identity = i\<rparr>) ` set refs"
    using next_event_Inr [OF e] references_Inr [of refs evs] by simp_all
qed

lemma idempotency_owner_None:
  "idempotency_owner h key = None \<Longrightarrow> r \<in> set (hs_events h) \<Longrightarrow> \<not> claims_key key r"
  by (force simp: idempotency_owner_def find_None_iff claims_key_def list_ex_iff)

lemma active_among_None:
  "active_among es cs = Inr None \<Longrightarrow> r \<in> set cs \<Longrightarrow> completed es r"
  by (induction cs) (auto split: if_splits)

lemma names_request_iff: "names_request (request_value q) e \<longleftrightarrow> en_request e = Some q"
  by (auto simp: names_request_def request_id.expand)

lemma permitted_retained:
  assumes "request_event h (request_value q) = None" "idempotency_owner h key = None"
    and "active_occurrence h rv = Inr None" "hs_events h \<noteq> []" "unmoved (hs_events h) e"
    and "en_kind e = RequestRetained" "en_revision e = rv" "en_request e = Some q" "en_occurrence e \<noteq> None"
    and keys: "\<And>k. claims_key k e \<Longrightarrow> k = key"
  shows "permitted (hs_events h) e"
proof -
  have "en_request r \<noteq> Some q \<and> (en_revision r = rv \<longrightarrow> completed (hs_events h) r)"
    if "r \<in> set (hs_events h)" "en_kind r = RequestRetained" for r
  proof
    show "en_request r \<noteq> Some q"
      using assms(1) that by (auto simp: request_event_def find_None_iff names_request_iff)
    show "en_revision r = rv \<longrightarrow> completed (hs_events h) r"
      using active_among_None [OF assms(3) [unfolded active_occurrence_def], of r] that by simp
  qed
  then show ?thesis
    using assms idempotency_owner_None [OF assms(2)] by (auto simp: permitted_def)
qed

lemma decide_successor:
  assumes "decide i v = Inr y"
  shows "(tx_state y = None) = (tx_successor y = None)"
proof -
  obtain kind ev fl succ reasons where "create_outcome (outcome_record i v kind ev fl succ reasons) = Inr y"
    using assms by (auto simp: decide_def Let_def bindr_Inr_iff split: if_splits option.splits)
  from create_outcome_InrD(1) [OF this] show ?thesis by (cases succ) (simp_all add: outcome_record_def)
qed

lemma process_moves:
  assumes p: "process i = Inr x" and ok: "\<And>e. ti_evidence i = Some e \<Longrightarrow> evidence_ok e"
  shows "if tx_kind (ex_outcome x) = OutApplied
    then \<exists>r s. tx_successor (ex_outcome x) = Some r \<and> tx_state (ex_outcome x) = Some s \<and>
      rn_revision r = rn_revision (pi_run i) + 1 \<and> ss_predecessor s = Some (ss_identity (pi_prior i))
    else tx_state (ex_outcome x) = None \<and> tx_successor (ex_outcome x) = None"
proof -
  obtain v where d: "decide i v = Inr (ex_outcome x)"
    using p by (auto simp: process_def bindr_Inr_iff mk_execution_def require_Inr_iff)
  obtain kind ev fl succ reasons where o: "create_outcome (outcome_record i v kind ev fl succ reasons) = Inr (ex_outcome x)"
    using d by (auto simp: decide_def Let_def bindr_Inr_iff split: if_splits option.splits)
  have k: "(tx_kind (ex_outcome x) = OutApplied) = (succ \<noteq> None)"
    and s: "tx_state (ex_outcome x) = map_option fst succ" "tx_successor (ex_outcome x) = map_option snd succ"
    using create_outcome_InrD(1,2) [OF o] by (auto simp: outcome_record_def)
  show ?thesis
  proof (cases succ)
    case None
    then show ?thesis using k s by simp
  next
    case (Some y)
    then have "tx_successor (ex_outcome x) = Some (snd y)" using s by simp
    then obtain e s' where "records_agree i" "tx_state (ex_outcome x) = Some s'" "successor_of i e s' (snd y)"
      by (rule process_applied [OF p _ ok]) blast+
    then show ?thesis using k s Some by (auto simp: successor_of_def records_agree_def run_state_agree_def Let_def)
  qed
qed

lemma transition_recorded_Inr:
  assumes "transition_recorded h i r x = Inr e"
  shows "follows h e" "en_kind e = TransitionRecorded" "en_occurrence e = en_occurrence r"
    "en_request e = Some (rq_identity (pi_request i))"
    "en_revision e = (case tx_successor (ex_outcome x) of None \<Rightarrow> rn_revision (pi_run i) | Some r \<Rightarrow> rn_revision r)"
    "en_state e = (case tx_state (ex_outcome x) of None \<Rightarrow> ss_identity (pi_prior i) | Some s \<Rightarrow> ss_identity s)"
    "set (en_reasons e) = {outcome_kind_text (tx_kind (ex_outcome x))}"
  using assms by (auto simp: transition_recorded_def Let_def bindr_Inr_iff dest: next_event_Inr)

lemma single_element: "distinct xs \<Longrightarrow> set xs = {x} \<Longrightarrow> xs = [x]"
  by (cases xs; cases "tl xs") auto

lemma single_reason: "event_ok e \<Longrightarrow> set (en_reasons e) = {x} \<Longrightarrow> en_reasons e = [x]"
  unfolding event_ok_def by (blast intro: single_element)

section \<open>The operations on an atomic store\<close>

context atomic_store
begin

lemma append_next_adds: "follows h e \<Longrightarrow> P e \<Longrightarrow> adds holds P (append_next commit h label v x e)"
proof -
  assume e: "follows h e" "P e"
  have "adds holds P (append_event commit e (Some (en_identity (history_head h))) (label @ event_value (en_identity e)))"
    using append_sound e by (fastforce simp: adds_def follows_def)
  then show ?thesis unfolding append_next_def by (rule adds_then)
qed

lemma conflict_adds:
  assumes "hs_events h \<noteq> []" "at_head h (pi_run p) (pi_prior p)"
    and e: "preflight_event h p RequestConflictRecorded occ refs reasons = Inr e"
  shows "adds holds (\<lambda>e. follows h e \<and> permitted (hs_events h) e) (append_next commit h label v x e)"
  using preflight_event_Inr [OF e] assms(1,2)
  by (intro append_next_adds) (auto simp: permitted_def unmoved_def at_head_def history_head_def)

lemma reserve_request_adds:
  assumes ne: "hs_events h \<noteq> []" and head: "at_head h (pi_run p) (pi_prior p)"
    and new: "request_event h (request_value (rq_identity (pi_request p))) = None"
      "idempotency_owner h (idempotency_value (rq_idempotency (pi_request p))) = None"
  shows "adds holds (\<lambda>e. follows h e \<and> permitted (hs_events h) e) (reserve_request commit h p)"
  unfolding reserve_request_def Let_def
proof (intro adds_bind)
  fix occ active
  assume act: "active_occurrence h (rn_revision (pi_run p)) = Inr active"
  let ?key = "idempotency_value (rq_idempotency (pi_request p))"
  have keys: "k = ?key" if e: "preflight_event h p kind occ refs reasons = Inr e" "claims_key k e"
      "\<And>i. (''request-idempotency'', i) \<in> set refs \<Longrightarrow> i = ?key" for kind refs reasons e k
    using preflight_event_Inr(7) [OF e(1)] e(2,3) by (auto simp: claims_key_def)
  have un: "unmoved (hs_events h) e" if "preflight_event h p kind occ refs reasons = Inr e" for kind refs reasons e
    using preflight_event_Inr [OF that] head by (simp add: unmoved_def at_head_def history_head_def)
  have rejected: "adds holds (\<lambda>e. follows h e \<and> permitted (hs_events h) e) (append_next commit h label v x e)"
    if e: "preflight_event h p PreflightRejected occ [(''request-idempotency'', ?key), (''workflow-validation'', w)] reasons = Inr e"
    for w reasons label v x e
    using keys [OF e] un [OF e] preflight_event_Inr [OF e] ne idempotency_owner_None [OF new(2)]
    by (intro append_next_adds) (auto simp: permitted_def)
  have retained: "adds holds (\<lambda>e. follows h e \<and> permitted (hs_events h) e) (append_next commit h label v x e)"
    if e: "preflight_event h p RequestRetained occ
        [(''authority-reference'', a), (''request-idempotency'', ?key), (''workflow-validation'', w)] reasons = Inr e"
      and none: "active = None" for a w reasons label v x e
    using keys [OF e] un [OF e] preflight_event_Inr [OF e] ne new act none
    by (intro append_next_adds permitted_retained [OF new, of "rn_revision (pi_run p)"] conjI) auto
  show "adds holds (\<lambda>e. follows h e \<and> permitted (hs_events h) e) (case active of
      Some a \<Rightarrow>
        (case (en_occurrence a, en_request a) of
           (Some o', Some q') \<Rightarrow>
             bindio (give (preflight_event h p RequestConflictRecorded occ
                [(''active-occurrence'', occurrence_value o'), (''active-request'', request_value q')]
                [''revision_reserved''])) (\<lambda>e.
             bindio (append_next commit h ''runtime-conflict:'' None None e) (\<lambda>r.
               give (relabel ActionConflict None r)))
         | _ \<Rightarrow> give (Inl AssertionError))
    | None \<Rightarrow>
        bindio (give (preflight p)) (\<lambda>v.
          if vr_findings v \<noteq> []
          then
            bindio (give (preflight_event h p PreflightRejected occ
               [(''request-idempotency'', ?key), (''workflow-validation'', validation_value (vr_identity v))]
               (map (finding_code_text \<circ> wfi_code) (vr_findings v)))) (\<lambda>e.
            bindio (append_next commit h ''runtime-preflight:'' (Some v) None e) (\<lambda>r.
              give (relabel ActionRejected (Some v) r)))
          else
            bindio (give (preflight_event h p RequestRetained occ
               [(''authority-reference'', authority_value (au_identity (rq_authority (pi_request p)))),
                (''request-idempotency'', ?key), (''workflow-validation'', validation_value (vr_identity v))] [])) (\<lambda>e.
            append_next commit h ''runtime-request:'' (Some v) None e)))"
    using conflict_adds [OF ne head] rejected retained
    by (auto split: option.splits intro!: adds_rules)
qed

lemma retain_adds:
  assumes "hs_events h \<noteq> []"
  shows "adds holds (\<lambda>e. follows h e \<and> permitted (hs_events h) e) (retain_loaded commit p h)"
  using reserve_request_adds [OF assms] conflict_adds [OF assms]
  by (auto simp: retain_loaded_def Let_def bindr_Inr_iff intro!: adds_rules split: option.splits)

lemma record_adds:
  assumes ne: "hs_events h \<noteq> []" and ok: "\<And>e. ti_evidence i = Some e \<Longrightarrow> evidence_ok e"
  shows "adds holds (\<lambda>e. follows h e \<and> permitted (hs_events h) e) (record_loaded commit i h)"
proof -
  let ?q = "rq_identity (pi_request i)"
  have step: "adds holds (\<lambda>e. follows h e \<and> permitted (hs_events h) e) (append_next commit h label v z e)"
    if r: "retained_occurrence h (request_value ?q) = Some r" and t: "transition_event h (request_value ?q) = None"
      and head: "at_head h (pi_run i) (pi_prior i)" and x: "process i = Inr x"
      and e: "transition_recorded h i r x = Inr e" for r x e label v z
  proof (intro append_next_adds conjI)
    note e' = transition_recorded_Inr [OF e]
    show "follows h e" "follows h e" by (rule e'(1))+
    have "r \<in> set (hs_events h)" "en_kind r = RequestRetained" "en_request r = Some ?q"
      using r by (auto simp: retained_occurrence_def names_request_iff dest!: find_member)
    moreover have "en_request u \<noteq> Some ?q" if "u \<in> set (hs_events h)" "en_kind u = TransitionRecorded" for u
      using t that by (auto simp: transition_event_def find_None_iff names_request_iff)
    moreover have "records_outcome (hs_events h) e"
    proof -
      have "event_ok e" using e'(1) by (simp add: follows_def)
      then have r: "en_reasons e = [outcome_kind_text (tx_kind (ex_outcome x))]" using e'(7) by (rule single_reason)
      have l: "rn_revision (pi_run i) = en_revision (last (hs_events h))" "ss_identity (pi_prior i) = en_state (last (hs_events h))"
        using head by (simp_all add: at_head_def history_head_def)
      have "if tx_kind (ex_outcome x) = OutApplied
        then \<exists>r s. tx_successor (ex_outcome x) = Some r \<and> tx_state (ex_outcome x) = Some s \<and>
          en_revision e = rn_revision r \<and> rn_revision r = en_revision (last (hs_events h)) + 1 \<and>
          en_state e = ss_identity s \<and> ss_predecessor s = Some (en_state (last (hs_events h)))
        else unmoved (hs_events h) e"
        using process_moves [OF x ok, simplified] e'(5,6) l by (auto simp: unmoved_def split: if_splits)
      then show ?thesis unfolding records_outcome_def using x e'(4) r l by blast
    qed
    ultimately show "permitted (hs_events h) e" using e' ne by (auto simp: permitted_def)
  qed
  show ?thesis
    unfolding record_loaded_def Let_def
    by (auto split: option.splits intro!: adds_rules step)
qed

lemma start_adds:
  assumes "genesis_event st = Inr e"
  shows "adds holds (\<lambda>e'. e' = e \<and> event_ok e \<and> en_predecessor e = None \<and> permitted [] e) (start_loaded commit e loaded)"
proof -
  have e: "event_ok e" "en_kind e = RunStarted" "en_predecessor e = None"
    using assms by (auto simp: genesis_event_def bindr_Inr_iff dest!: create_event_Inr)
  have "adds holds (\<lambda>e'. e' = e \<and> event_ok e \<and> en_predecessor e = None \<and> permitted [] e)
      (append_event commit e None (''runtime-start:'' @ event_value (en_identity e)))"
    unfolding adds_def
  proof (intro allI impI)
    fix s es x s'
    assume "holds s es" and a: "append_event commit e None (''runtime-start:'' @ event_value (en_identity e)) s = (x, s')"
    from append_sound [OF a this(1)]
    show "holds s' es \<or> (\<exists>e' key. (e' = e \<and> event_ok e \<and> en_predecessor e = None \<and> permitted [] e) \<and>
        holds s' (es @ [(own_revision e', key)]) \<and>
        head_identity es (run_value (en_run e')) = map_option event_value (en_predecessor e'))"
      using e by (auto simp: permitted_def)
  qed
  then show ?thesis
    unfolding start_loaded_def by (auto split: option.splits intro!: adds_give adds_then)
qed

end

section \<open>Interleaved runtimes\<close>

text \<open>
  Several runtimes share one database.  A runtime loads a history and later acts on it; between the
  two, others may load, act or crash.  Each load and each act meets its own schedule of failures.
\<close>

datatype pending =
    PendingStart event load_result
  | PendingRetain preflight_input history
  | PendingRecord transition_input history

fun act :: "'s committer \<Rightarrow> pending \<Rightarrow> ('s, action_result) action" where
  "act commit (PendingStart e l) = start_loaded commit e l"
| "act commit (PendingRetain p h) = retain_loaded commit p h"
| "act commit (PendingRecord i h) = record_loaded commit i h"

definition loaded_history :: "load_result result \<Rightarrow> history option" where
  "loaded_history x = (case x of Inl _ \<Rightarrow> None | Inr l \<Rightarrow> if ld_status l = HistoryLoaded then ld_history l else None)"

definition load_run :: "nat \<Rightarrow> run \<Rightarrow> (served, load_result) action" where
  "load_run maximum r = load_history (served_read maximum) (run_value (rn_identity r))"

inductive runtimes :: "nat \<Rightarrow> database \<Rightarrow> (nat \<Rightarrow> pending option) \<Rightarrow> bool" for maximum where
  runtimes_fresh: "db_tables d = [] \<Longrightarrow> \<not> db_extras d \<Longrightarrow> runtimes maximum d (\<lambda>_. None)"
| runtimes_start: "runtimes maximum d ps \<Longrightarrow> genesis_event st = Inr e \<Longrightarrow>
    load_run maximum (st_run st) (d, schedule) = (x, (d', schedule')) \<Longrightarrow>
    runtimes maximum d' (ps(n := case x of Inl _ \<Rightarrow> None | Inr l \<Rightarrow> Some (PendingStart e l)))"
| runtimes_retain: "runtimes maximum d ps \<Longrightarrow> load_run maximum (pi_run p) (d, schedule) = (x, (d', schedule')) \<Longrightarrow>
    runtimes maximum d' (ps(n := map_option (PendingRetain p) (loaded_history x)))"
| runtimes_record: "runtimes maximum d ps \<Longrightarrow> (\<And>e. ti_evidence i = Some e \<Longrightarrow> evidence_ok e) \<Longrightarrow>
    load_run maximum (pi_run i) (d, schedule) = (x, (d', schedule')) \<Longrightarrow>
    runtimes maximum d' (ps(n := map_option (PendingRecord i) (loaded_history x)))"
| runtimes_act: "runtimes maximum d ps \<Longrightarrow> ps n = Some a \<Longrightarrow>
    act (served_commit maximum) a (d, schedule) = (x, (d', schedule')) \<Longrightarrow> runtimes maximum d' (ps(n := None))"
| runtimes_crash: "runtimes maximum d ps \<Longrightarrow> runtimes maximum d (ps(n := None))"

text \<open>An uninterrupted call is a load and an act.\<close>

lemma runtimes_retain_call:
  assumes "runtimes maximum d ps" "ps n = None"
    and "runtime_retain (served_read maximum) (served_commit maximum) p (d, schedule) = (x, (d', schedule'))"
  shows "runtimes maximum d' ps"
proof -
  obtain y d1 s1 where l: "load_run maximum (pi_run p) (d, schedule) = (y, (d1, s1))" by (metis prod_cases3)
  have r: "runtimes maximum d1 (ps(n := map_option (PendingRetain p) (loaded_history y)))"
    by (rule runtimes_retain [OF assms(1) l])
  have same: "ps(n := None) = ps" using assms(2) by auto
  show ?thesis
  proof (cases "loaded_history y")
    case None
    then have "d' = d1"
      using assms(3) l
      by (auto simp: runtime_retain_def with_history_def load_run_def bindio_def loaded_history_def
          split: sum.splits if_splits option.splits)
    then show ?thesis using r None same by simp
  next
    case (Some h)
    then have "act (served_commit maximum) (PendingRetain p h) (d1, s1) = (x, (d', schedule'))"
      using assms(3) l
      by (auto simp: runtime_retain_def with_history_def load_run_def bindio_def loaded_history_def
          split: sum.splits if_splits)
    from runtimes_act [OF r _ this, of n] show ?thesis using Some same by simp
  qed
qed

lemma runtimes_start_call:
  assumes "runtimes maximum d ps" "ps n = None"
    and "runtime_start (served_read maximum) (served_commit maximum) g (d, schedule) = (x, (d', schedule'))"
  shows "runtimes maximum d' ps"
proof (cases "genesis_event g")
  case (Inl z)
  then show ?thesis using assms(1,3) by (simp add: runtime_start_def)
next
  case (Inr e)
  obtain y d1 s1 where l: "load_run maximum (st_run g) (d, schedule) = (y, (d1, s1))" by (metis prod_cases3)
  note r = runtimes_start [OF assms(1) Inr l]
  have same: "ps(n := None) = ps" using assms(2) by auto
  show ?thesis
  proof (cases y)
    case (Inl z)
    then have "d' = d1" using assms(3) l \<open>genesis_event g = Inr e\<close> by (simp add: runtime_start_def load_run_def bindio_def)
    then show ?thesis using r [of n] Inl same by simp
  next
    case (Inr k)
    then have "act (served_commit maximum) (PendingStart e k) (d1, s1) = (x, (d', schedule'))"
      using assms(3) l \<open>genesis_event g = Inr e\<close> by (simp add: runtime_start_def load_run_def bindio_def)
    from runtimes_act [OF r [of n] _ this, of n] show ?thesis using Inr same by simp
  qed
qed

lemma runtimes_record_call:
  assumes "runtimes maximum d ps" "ps n = None" "\<And>e. ti_evidence i = Some e \<Longrightarrow> evidence_ok e"
    and "runtime_record (served_read maximum) (served_commit maximum) i (d, schedule) = (x, (d', schedule'))"
  shows "runtimes maximum d' ps"
proof -
  obtain y d1 s1 where l: "load_run maximum (pi_run i) (d, schedule) = (y, (d1, s1))" by (metis prod_cases3)
  note r = runtimes_record [OF assms(1,3) l]
  have same: "ps(n := None) = ps" using assms(2) by auto
  show ?thesis
  proof (cases "loaded_history y")
    case None
    then have "d' = d1"
      using assms(4) l
      by (auto simp: runtime_record_def with_history_def load_run_def bindio_def loaded_history_def
          split: sum.splits if_splits option.splits)
    then show ?thesis using r [of n] None same by simp
  next
    case (Some h)
    then have "act (served_commit maximum) (PendingRecord i h) (d1, s1) = (x, (d', schedule'))"
      using assms(4) l
      by (auto simp: runtime_record_def with_history_def load_run_def bindio_def loaded_history_def
          split: sum.splits if_splits)
    from runtimes_act [OF r [of n] _ this, of n] show ?thesis using Some same by simp
  qed
qed

section \<open>The invariant\<close>

definition log_reserved :: "store_log \<Rightarrow> bool" where
  "log_reserved es \<longleftrightarrow>
     (\<forall>s evs. stream_log es s = map own_revision evs \<longrightarrow> list_all event_ok evs \<longrightarrow> reserved evs)"

definition seen :: "store_log \<Rightarrow> history \<Rightarrow> bool" where
  "seen es h \<longleftrightarrow> history_ok h \<and> list_all event_ok (hs_events h) \<and>
     prefix (map own_revision (hs_events h)) (stream_log es (hs_stream h))"

fun pending_ok :: "store_log \<Rightarrow> pending \<Rightarrow> bool" where
  "pending_ok es (PendingStart e l) = (\<exists>st. genesis_event st = Inr e)"
| "pending_ok es (PendingRetain p h) = seen es h"
| "pending_ok es (PendingRecord i h) = (seen es h \<and> (\<forall>e. ti_evidence i = Some e \<longrightarrow> evidence_ok e))"

lemma seen_grows: "seen es h \<Longrightarrow> seen (es @ fs) h"
  by (simp add: seen_def stream_log_append)

lemma pending_grows: "pending_ok es a \<Longrightarrow> pending_ok (es @ fs) a"
  by (cases a) (simp_all add: seen_grows)

lemma history_head_run: "history_ok h \<Longrightarrow> hs_stream h = run_value (en_run (history_head h))"
proof -
  assume h: "history_ok h"
  then have "event_links (hs_events h) (length (hs_events h) - 1)" by (simp add: history_ok_def)
  then have "en_run (last (hs_events h)) = en_run (hs_events h ! 0)"
    unfolding event_links_def using h by (simp add: last_conv_nth history_ok_def)
  then show ?thesis using h by (simp add: history_ok_def history_head_def)
qed

lemma stream_identities: "log_ok es \<Longrightarrow> distinct (map rv_identity (stream_log es s))"
proof -
  assume "log_ok es"
  then have "distinct (map (\<lambda>r. (rv_stream r, rv_identity r)) (map fst es))"
    by (auto simp: log_ok_def comp_def case_prod_beta')
  then have d: "distinct (map fst es)" "inj_on (\<lambda>r. (rv_stream r, rv_identity r)) (set (map fst es))"
    unfolding distinct_map by simp_all
  have "inj_on rv_identity (set (stream_log es s))"
  proof (rule inj_onI)
    fix x y assume "x \<in> set (stream_log es s)" "y \<in> set (stream_log es s)" and eq: "rv_identity x = rv_identity y"
    then have "x \<in> set (map fst es)" "y \<in> set (map fst es)" "rv_stream x = rv_stream y"
      unfolding stream_log_def by simp_all
    then show "x = y" using inj_onD [OF d(2), of x y] eq by simp
  qed
  then show ?thesis using d(1) by (simp add: distinct_map stream_log_def)
qed

lemma seen_head:
  assumes "log_ok es" "seen es h" "head_identity es (hs_stream h) = Some (event_value (en_identity (history_head h)))"
  shows "stream_log es (hs_stream h) = map own_revision (hs_events h)"
proof -
  obtain more where more: "stream_log es (hs_stream h) = map own_revision (hs_events h) @ more"
    using assms(2) by (auto simp: seen_def prefix_def)
  have ne: "hs_events h \<noteq> []" using assms(2) by (simp add: seen_def history_ok_def)
  have "more = []"
  proof (rule ccontr)
    assume m: "more \<noteq> []"
    then have "rv_identity (last more) = rv_identity (own_revision (last (hs_events h)))"
      using assms(3) more by (simp add: head_identity_log history_head_def)
    moreover have "rv_identity (last more) \<in> rv_identity ` set more" using m by simp
    moreover have "rv_identity (own_revision (last (hs_events h))) \<in> rv_identity ` set (map own_revision (hs_events h))"
      using ne by (intro imageI) simp
    ultimately show False
      using stream_identities [OF assms(1), of "hs_stream h"] unfolding more map_append distinct_append set_map
      by (metis disjoint_iff)
  qed
  then show ?thesis using more by simp
qed

lemma log_reserved_append:
  assumes "log_ok es" "log_reserved es"
    and "stream_log es (run_value (en_run e)) = map own_revision past" "list_all event_ok past" "event_ok e"
    and "permitted past e"
  shows "log_reserved (es @ [(own_revision e, key)])"
  unfolding log_reserved_def
proof (intro allI impI)
  fix s evs
  assume log: "stream_log (es @ [(own_revision e, key)]) s = map own_revision evs" and ok: "list_all event_ok evs"
  show "reserved evs"
  proof (cases "run_value (en_run e) = s")
    case True
    then have "map own_revision evs = map own_revision (past @ [e])"
      using log assms(3) by (simp add: stream_log_append stream_log_def [of "[_]"])
    then have "evs = past @ [e]" by (rule own_revisions_inj) (use ok assms in simp_all)
    then show ?thesis using assms(2-4,6) by (auto simp: reserved_snoc log_reserved_def)
  next
    case False
    then have "stream_log es s = map own_revision evs" using log by (simp add: stream_log_append stream_log_def [of "[_]"])
    then show ?thesis using assms(2) ok by (simp add: log_reserved_def)
  qed
qed

lemma act_reserved:
  assumes st: "served_holds maximum s es" and log: "log_reserved es" and a: "pending_ok es a"
    and "act (served_commit maximum) a s = (x, s')"
  shows "\<exists>es'. served_holds maximum s' es' \<and> log_reserved es' \<and> prefix es es'"
proof -
  have ok: "log_ok es" by (rule served.holds_log [OF st])
  have append: "\<exists>es'. served_holds maximum s' es' \<and> log_reserved es' \<and> prefix es es'"
    if "adds (served_holds maximum) P (act (served_commit maximum) a)"
      and P: "\<And>e. P e \<Longrightarrow> head_identity es (run_value (en_run e)) = map_option event_value (en_predecessor e) \<Longrightarrow>
        \<exists>past. stream_log es (run_value (en_run e)) = map own_revision past \<and> list_all event_ok past \<and> event_ok e \<and>
          permitted past e" for P
    using that(1) st assms(4) P log_reserved_append [OF ok log] log unfolding adds_def by (metis prefix_def prefix_order.refl)
  have next_ok: "\<exists>past. stream_log es (run_value (en_run e)) = map own_revision past \<and> list_all event_ok past \<and>
      event_ok e \<and> permitted past e"
    if "seen es h" "follows h e \<and> permitted (hs_events h) e"
      "head_identity es (run_value (en_run e)) = map_option event_value (en_predecessor e)" for h e
    using that seen_head [OF ok that(1)] history_head_run [of h] by (auto simp: seen_def follows_def)
  show ?thesis
  proof (cases a)
    case (PendingStart e l)
    then obtain st where "genesis_event st = Inr e" using a by auto
    from append [where P = "\<lambda>e'. e' = e \<and> event_ok e \<and> en_predecessor e = None \<and> permitted [] e"]
      served.start_adds [OF this] show ?thesis
      using PendingStart by (force simp: head_identity_log split: if_splits)
  next
    case (PendingRetain p h)
    then have h: "seen es h" using a by simp
    show ?thesis
      by (rule append [OF _ next_ok [OF h]]) (use h served.retain_adds PendingRetain in \<open>simp_all add: seen_def history_ok_def\<close>)
  next
    case (PendingRecord i h)
    then have h: "seen es h" using a by simp
    show ?thesis
      by (rule append [OF _ next_ok [OF h]])
        (use h a served.record_adds PendingRecord in \<open>simp_all add: seen_def history_ok_def\<close>)
  qed
qed

lemma load_seen:
  assumes "load_run maximum r s = (x, s')" "served_holds maximum s es"
  shows "served_holds maximum s' es \<and> (\<forall>h. loaded_history x = Some h \<longrightarrow>
    seen es h \<and> stream_log es (hs_stream h) = map own_revision (hs_events h))"
  using served.load_sound [OF assms [unfolded load_run_def]]
  by (auto simp: loaded_history_def loaded_right_def seen_def split: sum.splits if_splits)

lemma runtimes_invariant:
  assumes "runtimes maximum d ps"
  shows "\<exists>es. stores maximum d es \<and> log_reserved es \<and> (\<forall>n a. ps n = Some a \<longrightarrow> pending_ok es a)"
  using assms
proof induction
  case (runtimes_fresh d)
  then show ?case using fresh_stores by (fastforce simp: log_reserved_def stream_log_def)
next
  case (runtimes_start d ps st e schedule x d' schedule' n)
  then obtain es where es: "served_holds maximum (d, schedule) es" "log_reserved es" "\<forall>n a. ps n = Some a \<longrightarrow> pending_ok es a"
    by (auto simp: served_holds_def)
  show ?case
    using load_seen [OF runtimes_start.hyps(3) es(1)] es runtimes_start.hyps(2)
    by (auto simp: served_holds_def split: sum.splits)
next
  case (runtimes_retain d ps p schedule x d' schedule' n)
  then obtain es where es: "served_holds maximum (d, schedule) es" "log_reserved es" "\<forall>n a. ps n = Some a \<longrightarrow> pending_ok es a"
    by (auto simp: served_holds_def)
  show ?case
    using load_seen [OF runtimes_retain.hyps(2) es(1)] es by (auto simp: served_holds_def)
next
  case (runtimes_record d ps i schedule x d' schedule' n)
  then obtain es where es: "served_holds maximum (d, schedule) es" "log_reserved es" "\<forall>n a. ps n = Some a \<longrightarrow> pending_ok es a"
    by (auto simp: served_holds_def)
  show ?case
    using load_seen [OF runtimes_record.hyps(3) es(1)] es runtimes_record.hyps(2) by (auto simp: served_holds_def)
next
  case (runtimes_act d ps n a schedule x d' schedule')
  then obtain es where es: "served_holds maximum (d, schedule) es" "log_reserved es" "\<forall>n a. ps n = Some a \<longrightarrow> pending_ok es a"
    by (auto simp: served_holds_def)
  then obtain es' where "served_holds maximum (d', schedule') es'" "log_reserved es'" "prefix es es'"
    using act_reserved [OF es(1,2) _ runtimes_act.hyps(3)] runtimes_act.hyps(2) by blast
  then show ?case using es(3) pending_grows by (auto simp: served_holds_def prefix_def)
next
  case (runtimes_crash d ps n)
  then show ?case by auto
qed

end
