(* ===== verification/Runtime_Starting.thy ===== *)
theory Runtime_Starting
  imports Runtime_Reservation Py_Utf8
begin

text \<open>
  A store that answers every call: what was appended is loaded back, and starting a run is durable
  and idempotent.
\<close>

section \<open>Well-formed events\<close>

lemma alnum_ascii: "alnum c \<Longrightarrow> of_char c < (128 :: nat)"
  by (auto simp: alnum_def)

lemma identity_grammar_ascii: "identity_grammar s \<Longrightarrow> ascii s"
proof -
  assume g: "identity_grammar s"
  have "of_char c < (128 :: nat)" if "alnum c \<or> c \<in> {CHR ''.'', CHR ''_'', CHR '':'', CHR ''-''}" for c
    using that alnum_ascii by auto
  moreover obtain c t where "s = c # t" using g by (cases s) (auto simp: identity_grammar_def)
  ultimately show ?thesis using g alnum_ascii by (auto simp: identity_grammar_def ascii_def list_all_iff)
qed

lemma hex64_ascii: "hex64 s \<Longrightarrow> ascii s"
  by (auto simp: hex64_def ascii_def list_all_iff)

text \<open>Texts from outside: UTF-8, and identities as the core builds them.\<close>

definition outside_ok :: "event \<Rightarrow> bool" where
  "outside_ok e \<longleftrightarrow> core_id (run_value (en_run e)) \<and> core_id (state_value (en_state e)) \<and>
     (\<forall>p \<in> set_option (en_request e). core_id (request_value p) \<and> utf8_ok (request_value p)) \<and>
     (\<forall>p \<in> set_option (en_operation e). core_id (operation_value p) \<and> utf8_ok (operation_value p)) \<and>
     utf8_ok (run_value (en_run e)) \<and> utf8_ok (state_value (en_state e)) \<and>
     (\<forall>r \<in> set (en_evidence e). evidence_reference_ok r \<and> utf8_ok (er_identity r)) \<and>
     printable_int (en_ordinal e) \<and> printable_int (en_revision e)"

definition links_ok :: "event \<Rightarrow> bool" where
  "links_ok e \<longleftrightarrow> (\<forall>p \<in> set_option (en_predecessor e). hex64 (event_value p)) \<and>
     (\<forall>p \<in> set_option (en_occurrence e). hex64 (occurrence_value p))"

lemma utf8_optional: "(\<And>x. x \<in> set_option v \<Longrightarrow> utf8_ok (f x)) \<Longrightarrow> json_utf8 (rep_optional (JStr \<circ> f) v)"
  by (cases v) simp_all

lemma event_wfI:
  assumes "event_ok e" "outside_ok e" "links_ok e"
  shows "event_wf e"
proof -
  have kind: "ascii (event_kind_text k)" for k by (cases k) (simp_all add: ascii_def)
  have const: "utf8_ok event_schema" "utf8_ok runtime_version" "utf8_ok runtime_implementation" "list_all utf8_ok event_keys"
    by (rule ascii_utf8, simp add: ascii_def event_schema_def runtime_version_def runtime_implementation_def)+
      (simp add: event_keys_def, intro conjI ascii_utf8, simp_all add: ascii_def)
  have evid: "json_utf8 (reference_json r)" if "r \<in> set (en_evidence e)" for r
    using assms(2) that ascii_utf8 [OF identity_grammar_ascii, of "er_kind r"] const(4)
    by (auto simp: outside_ok_def evidence_reference_ok_def reference_json_def event_keys_def)
  have hex: "utf8_ok (event_value (en_identity e))"
    using assms(1) ascii_utf8 [OF hex64_ascii [OF hex64_sha256]] by (simp add: event_ok_def event_identity_def content_identity_def)
  have reasons: "utf8_ok r" if "r \<in> set (en_reasons e)" for r
    using assms(1) that ascii_utf8 [OF identity_grammar_ascii] by (auto simp: event_ok_def reasons_fine_def list_all_iff)
  have opts: "json_utf8 (rep_optional (JStr \<circ> event_value) (en_predecessor e))"
    "json_utf8 (rep_optional (JStr \<circ> occurrence_value) (en_occurrence e))"
    "json_utf8 (rep_optional (JStr \<circ> request_value) (en_request e))"
    "json_utf8 (rep_optional (JStr \<circ> operation_value) (en_operation e))"
    using assms(2,3) unfolding outside_ok_def links_ok_def by (blast intro: utf8_optional ascii_utf8 hex64_ascii)+
  have ids: "utf8_ok (run_value (en_run e))" "utf8_ok (state_value (en_state e))"
    "en_version e = runtime_version" "en_producer e = runtime_implementation"
    using assms(1,2) by (simp_all add: event_ok_def outside_ok_def)
  have "list_all json_utf8 (event_values e)"
    using opts const(1-3) ids hex ascii_utf8 [OF kind] evid reasons
    by (simp add: event_values_def list_all_iff del: rep_optional.simps)
  moreover have "k \<in> set event_keys \<Longrightarrow> utf8_ok k" for k using const(4) by (simp add: list_all_iff)
  ultimately have "json_utf8 (event_json e)"
    by (auto simp: event_json_def list_all_iff dest: set_zip_leftD set_zip_rightD)
  then have "utf8_ok (encode_event e)" unfolding encode_event_def by (rule utf8_dumps)
  then show ?thesis
    using assms by (auto simp: event_wf_def outside_ok_def links_ok_def list_all_iff)
qed

section \<open>Loading what was appended\<close>

definition loaded_result :: "history \<Rightarrow> load_result" where
  "loaded_result h = \<lparr>ld_status = HistoryLoaded, ld_stream = hs_stream h, ld_diagnostics = [], ld_history = Some h\<rparr>"

lemma finish_load_complete: "history_ok h \<Longrightarrow> hs_events h = rev events \<Longrightarrow> finish_load (hs_stream h) events = Inr (loaded_result h)"
proof -
  assume h: "history_ok h" "hs_events h = rev events"
  then have eta: "\<lparr>hs_stream = hs_stream h, hs_events = rev events\<rparr> = h" by (cases h) simp
  have mk: "mk_history h = Inr h" using h(1) by (simp add: mk_history_Inr)
  have ne: "hs_stream h \<noteq> []" using h(1) unfolding history_ok_def by blast
  show ?thesis
    using ne unfolding finish_load_def eta mk
    by (simp only: sum.case load_answer_def mk_load_result_def check_texts_def loaded_result_def load_result.select_convs
        list.pred_inject require_True simp_thms if_True option.distinct)
qed

lemma history_member:
  assumes "history_ok h" "n < length (hs_events h)"
  shows "run_value (en_run (hs_events h ! n)) = hs_stream h"
    "en_predecessor (hs_events h ! n) = (if n = 0 then None else Some (en_identity (hs_events h ! (n - 1))))"
proof -
  have l: "event_links (hs_events h) n" using assms by (simp add: history_ok_def)
  then have "en_run (hs_events h ! n) = en_run (hs_events h ! 0)" unfolding event_links_def by blast
  then show "run_value (en_run (hs_events h ! n)) = hs_stream h" using assms(1) by (simp add: history_ok_def)
  show "en_predecessor (hs_events h ! n) = (if n = 0 then None else Some (en_identity (hs_events h ! (n - 1))))"
    using l by (simp add: event_links_def)
qed

lemma own_revision_checks:
  assumes "event_wf e" "length events < max_history_events" "event_value (en_identity e) \<notin> set visited"
  shows "check_revision (run_value (en_run e)) events visited (own_revision e) = Inr (Inr e)"
  using assms decode_encode [OF assms(1)]
  by (simp add: check_revision_def own_revision_def event_as_revision_def)

lemma hex64_identifier: "hex64 s \<Longrightarrow> identifier_ok s"
proof -
  assume h: "hex64 s"
  then have "s \<noteq> []" by (auto simp: hex64_def)
  moreover have "py_len s \<le> length s" by (simp add: py_len_def)
  ultimately show ?thesis using h by (simp add: hex64_def bounded_def max_identifier_characters_def)
qed

lemma core_id_identifier: "core_id s \<Longrightarrow> identifier_ok s"
  by (auto simp: core_id_def bounded_def max_identifier_characters_def max_identity_characters_def)

locale reliable_store = atomic_store read commit holds
  for read :: "'s reader" and commit :: "'s committer" and holds :: "'s \<Rightarrow> store_log \<Rightarrow> bool" +
  fixes capacity :: nat
  assumes read_answers: "holds s es \<Longrightarrow> read_request_ok q \<Longrightarrow>
      \<exists>s'. read q s = (Inr (spec_read_result q es), s') \<and> holds s' es"
    and commit_answers: "holds s es \<Longrightarrow> commit_ok c \<Longrightarrow> length (rv_payload (cm_candidate c)) \<le> capacity \<Longrightarrow>
      \<exists>s'. commit c s = (Inr (spec_commit_result c (fst (spec_commit c es))), s') \<and> holds s' (snd (spec_commit c es))"
begin

lemma loop_check:
  assumes h: "history_ok h" "list_all event_wf (hs_events h)" "hs_events h = pre @ e # rev events"
    and log: "stream_log es (hs_stream h) = map own_revision (hs_events h)"
    and vis: "set visited = (event_value \<circ> en_identity) ` set events" and st: "holds s es"
  shows "check_revision (hs_stream h) events visited (own_revision e) = Inr (Inr e)"
proof -
  have "distinct (map (event_value \<circ> en_identity) (pre @ e # rev events))"
    using stream_identities [OF holds_log [OF st], of "hs_stream h"] unfolding log h(3) by (simp add: comp_def)
  then have "event_value (en_identity e) \<notin> set visited" by (auto simp: vis)
  moreover have "length events < max_history_events" using h(1,3) by (simp add: history_ok_def)
  moreover have "run_value (en_run e) = hs_stream h" using history_member(1) [OF h(1), of "length pre"] h(3) by simp
  ultimately show ?thesis using own_revision_checks [of e events visited] h(2,3) by simp
qed

lemma loop_complete:
  assumes h: "history_ok h" "list_all event_wf (hs_events h)" "hs_events h = pre @ e # rev events"
    and log: "stream_log es (hs_stream h) = map own_revision (hs_events h)"
    and vis: "set visited = (event_value \<circ> en_identity) ` set events" and st: "holds s es"
  shows "\<exists>s'. load_loop read (hs_stream h) events visited (own_revision e) s = (Inr (loaded_result h), s') \<and> holds s' es"
  using h(3) vis st
proof (induction pre arbitrary: e events visited s rule: rev_induct)
  case Nil
  have "en_predecessor e = None" using history_member(2) [OF h(1), of 0] Nil(1) by simp
  then show ?case
    using loop_check [OF h(1,2) Nil(1) log Nil(2,3)] finish_load_complete [OF h(1), of "events @ [e]"] Nil
    by (simp add: load_loop_turn [of read _ events])
next
  case (snoc f pre)
  have e: "event_wf e" using h(2) snoc.prems(1) by simp
  have pred: "en_predecessor e = Some (en_identity f)"
    using history_member(2) [OF h(1), of "Suc (length pre)"] snoc.prems(1) by (simp add: nth_append)
  let ?p = "event_value (en_identity f)"
  have ids: "core_id (hs_stream h)" "hex64 ?p"
    using e pred history_member(1) [OF h(1), of "Suc (length pre)"] snoc.prems(1)
    by (simp_all add: event_wf_def nth_append)
  let ?q = "\<lparr>rd_request = history_read_identity (hs_stream h) ?p, rd_stream = hs_stream h,
    rd_selector = SelectExplicit, rd_revision = Some ?p\<rparr>"
  have q: "explicit_request (hs_stream h) ?p = Inr ?q" "read_request_ok ?q"
    using ids
    by (simp_all add: explicit_request_def mk_read_request_Inr read_request_ok_def hex64_identifier hex64_sha256
        core_id_identifier history_read_identity_def)
  have "own_revision f \<in> set (stream_log es (hs_stream h))" unfolding log snoc.prems(1) by simp
  from find_revision_stream [OF holds_log [OF snoc.prems(3)] this]
  have "spec_read ?q es = Some (own_revision f)" by (simp add: spec_read_def)
  then obtain s1 where r: "read ?q s = (Inr (spec_read_result ?q es), s1)" "holds s1 es"
      "rr_status (spec_read_result ?q es) = ReadFound" "rr_revision (spec_read_result ?q es) = Some (own_revision f)"
    using read_answers [OF snoc.prems(3) q(2)] by (auto simp: spec_read_result_def)
  obtain s' where s': "load_loop read (hs_stream h) (events @ [e]) (event_value (en_identity e) # visited) (own_revision f) s1 =
      (Inr (loaded_result h), s')" "holds s' es"
    using snoc.IH [of f "events @ [e]" "event_value (en_identity e) # visited" s1] snoc.prems(1,2) r(2) by auto
  have "load_loop read (hs_stream h) events visited (own_revision e) s =
      load_prior read (hs_stream h) (events @ [e]) (event_value (en_identity e) # visited) ?p s"
    using loop_check [OF h(1,2) _ log snoc.prems(2,3), of "pre @ [f]" e] snoc.prems(1) pred
    by (simp add: load_loop_turn [of read _ events])
  also have "\<dots> = (Inr (loaded_result h), s')"
    using q(1) r s'(1) by (simp add: load_prior_def bindio_step load_failure_def)
  finally show ?case using s'(2) by blast
qed

lemma latest_request_ok: "core_id stream \<Longrightarrow> \<exists>q. latest_request stream = Inr q \<and> read_request_ok q \<and> rd_revision q = None \<and>
    rd_stream q = stream \<and> stream \<noteq> []"
proof -
  assume c: "core_id stream"
  then have "stream \<noteq> []" by (auto simp: core_id_def bounded_def)
  then show ?thesis
    using hex64_identifier [OF hex64_sha256] core_id_identifier [OF c]
    by (simp add: latest_request_def mk_read_request_Inr read_request_ok_def history_read_identity_def)
qed

lemma load_complete:
  assumes h: "history_ok h" "list_all event_wf (hs_events h)"
    and log: "stream_log es (hs_stream h) = map own_revision (hs_events h)" and st: "holds s es"
  shows "\<exists>s'. load_history read (hs_stream h) s = (Inr (loaded_result h), s') \<and> holds s' es"
proof -
  have ne: "hs_events h \<noteq> []" using h(1) by (simp add: history_ok_def)
  then obtain pre e where e: "hs_events h = pre @ [e]" by (metis rev_exhaust)
  have "core_id (hs_stream h)"
    using h(2) history_member(1) [OF h(1), of "length pre"] e by (simp add: event_wf_def)
  then obtain q where q: "latest_request (hs_stream h) = Inr q" "read_request_ok q" "rd_revision q = None"
      "rd_stream q = hs_stream h" "hs_stream h \<noteq> []"
    using latest_request_ok by blast
  have "spec_read q es = Some (own_revision e)"
    using q(3,4) log e by (simp add: spec_read_def stream_head_def split: list.splits) (metis last.simps last_snoc snoc_eq_iff_butlast)
  then obtain s1 where r: "read q s = (Inr (spec_read_result q es), s1)" "holds s1 es"
      "rr_status (spec_read_result q es) = ReadFound" "rr_revision (spec_read_result q es) = Some (own_revision e)"
    using read_answers [OF st q(2)] by (auto simp: spec_read_result_def)
  then show ?thesis
    using loop_complete [OF h _ log _ r(2), of pre e "[]" "[]"] e q
    by (simp add: load_history_def bindio_step load_failure_def)
qed

lemma load_absent:
  assumes "core_id stream" "stream_log es stream = []" "holds s es"
  shows "\<exists>s'. load_history read stream s = (Inr \<lparr>ld_status = HistoryAbsent, ld_stream = stream, ld_diagnostics = [],
    ld_history = None\<rparr>, s') \<and> holds s' es"
proof -
  obtain q where q: "latest_request stream = Inr q" "read_request_ok q" "rd_revision q = None" "rd_stream q = stream"
      "stream \<noteq> []"
    using latest_request_ok [OF assms(1)] by blast
  have "spec_read q es = None" using q(3,4) assms(2) by (simp add: spec_read_def stream_head_def)
  then obtain s1 where r: "read q s = (Inr (spec_read_result q es), s1)" "holds s1 es"
      "rr_status (spec_read_result q es) = ReadAbsent" "rr_diagnostics (spec_read_result q es) = []"
    using read_answers [OF assms(3) q(2)] by (auto simp: spec_read_result_def)
  then show ?thesis
    using q by (simp add: load_history_def bindio_step load_answer_def mk_load_result_def check_texts_def)
qed

lemma append_complete:
  assumes wf: "event_wf e" and key: "identifier_ok key" "key \<notin> snd ` set es"
    and head: "head_identity es (run_value (en_run e)) = map_option event_value (en_predecessor e)"
    and new: "find_revision es (run_value (en_run e)) (event_value (en_identity e)) = None"
    and fits: "length (encode_event e) \<le> capacity" and self: "en_predecessor e \<noteq> Some (en_identity e)"
    and st: "holds s es"
  shows "\<exists>s'. append_event commit e (en_predecessor e) key s =
      (Inr \<lparr>ap_status = EventAppended, ap_event = e, ap_diagnostics = []\<rparr>, s') \<and> holds s' (es @ [(own_revision e, key)])"
proof -
  let ?v = "own_revision e"
  let ?c = "\<lparr>cm_expected = rv_predecessor ?v, cm_candidate = ?v, cm_idempotency = key\<rparr>"
  have "identifier_ok event_schema"
    by (simp add: bounded_def py_len_def max_identifier_characters_def event_schema_def)
  moreover have "hex64 (event_value (en_identity e))"
    using wf hex64_sha256 by (simp add: event_wf_def event_ok_def event_identity_def content_identity_def)
  ultimately have v: "revision_ok ?v"
    using wf self hex64_identifier [OF hex64_sha256] core_id_identifier hex64_identifier
    by (auto simp: revision_ok_def own_revision_def event_as_revision_def event_wf_def event_id.expand)
  then have c: "commit_ok ?c" using key(1) by (auto simp: commit_ok_def revision_ok_def)
  have "map_of (map (\<lambda>(r, k). (k, r)) es) key = None" using key(2) by (force simp: map_of_eq_None_iff)
  then have spec: "spec_commit ?c es = (Appended, es @ [(?v, key)])"
    using head new by (simp add: spec_commit_def Let_def)
  have "length (rv_payload (cm_candidate ?c)) \<le> capacity" using fits by (simp add: own_revision_def event_as_revision_def)
  from commit_answers [OF st c this] obtain s' where s': "commit ?c s = (Inr (spec_commit_result ?c Appended), s')"
      "holds s' (es @ [(?v, key)])"
    unfolding spec by auto
  have "bindr (mk_revision (event_as_revision e (en_predecessor e))) (\<lambda>v.
      mk_commit \<lparr>cm_expected = rv_predecessor v, cm_candidate = v, cm_idempotency = key\<rparr>) = Inr ?c"
    using v c mk_commit_Inr [of ?c ?c] by (simp add: mk_revision_Inr bindr_Inr_iff flip: own_revision_def)
  moreover have "key \<noteq> []" using key(1) by (simp add: bounded_def)
  ultimately show ?thesis
    using s' by (simp add: append_event_def bindio_step spec_commit_result_def append_status_of_def mk_append_result_def
        check_texts_def)
qed

end

text \<open>
  The operations of the runtime on a store that answers every call, and the SQLite store without
  failures as such a store.
\<close>

definition retained_references :: "preflight_input \<Rightarrow> (string \<times> string) list" where
  "retained_references p =
     [(''authority-reference'', authority_value (au_identity (rq_authority (pi_request p)))),
      (''request-idempotency'', idempotency_value (rq_idempotency (pi_request p))),
      (''workflow-validation'', validation_value (validation_result_identity []))]"

context reliable_store
begin

lemma start_complete:
  assumes st: "holds s es" and e: "genesis_event g = Inr e" "event_wf e" "length (encode_event e) \<le> capacity"
    and fresh: "stream_log es (run_value (rn_identity (st_run g))) = []"
      "''runtime-start:'' @ event_value (en_identity e) \<notin> snd ` set es"
  shows "\<exists>s'. runtime_start read commit g s = (Inr \<lparr>ac_status = ActionRecorded, ac_event = Some e, ac_diagnostics = [],
      ac_validation = None, ac_transition = None\<rparr>, s') \<and> holds s' (es @ [(own_revision e, ''runtime-start:'' @ event_value (en_identity e))])"
proof -
  let ?r = "run_value (rn_identity (st_run g))" and ?key = "''runtime-start:'' @ event_value (en_identity e)"
  have ev: "en_run e = rn_identity (st_run g)" "en_predecessor e = None" "event_ok e"
    using e(1) by (auto simp: genesis_event_def bindr_Inr_iff dest: create_event_Inr)
  have "core_id ?r" using e(2) ev(1) by (simp add: event_wf_def)
  from load_absent [OF this fresh(1) st] obtain s1 where l: "load_history read ?r s = (Inr \<lparr>ld_status = HistoryAbsent,
      ld_stream = ?r, ld_diagnostics = [], ld_history = None\<rparr>, s1)" "holds s1 es"
    by blast
  have "hex64 (event_value (en_identity e))"
    using ev(3) hex64_sha256 by (simp add: event_ok_def event_identity_def content_identity_def)
  then have "length (event_value (en_identity e)) = 64" by (simp add: hex64_def)
  moreover have "py_len ?key \<le> length ?key" unfolding py_len_def by (rule length_filter_le)
  ultimately have key: "identifier_ok ?key" by (simp add: bounded_def max_identifier_characters_def)
  have "find_revision es (run_value (en_run e)) (event_value (en_identity e)) = None"
    using fresh(1) ev(1) by (force simp: find_revision_def find_None_iff stream_log_def filter_empty_conv)
  with append_complete [OF e(2) key fresh(2) _ _ e(3) _ l(2)] ev fresh(1)
  obtain s' where "append_event commit e None ?key s1 =
      (Inr \<lparr>ap_status = EventAppended, ap_event = e, ap_diagnostics = []\<rparr>, s')" "holds s' (es @ [(own_revision e, ?key)])"
    by (auto simp: head_identity_log)
  then show ?thesis
    using l(1) e(1)
    by (auto simp: runtime_start_def bindio_step start_loaded_def append_answer_def append_action_status_def
        mk_action_result_def check_texts_def)
qed

lemma started_history:
  assumes "event_ok e" "en_predecessor e = None" "core_id (run_value (en_run e))"
  shows "history_ok \<lparr>hs_stream = run_value (en_run e), hs_events = [e]\<rparr>"
  using assms by (auto simp: history_ok_def event_links_def event_ok_def max_history_events_def core_id_def bounded_def)

lemma start_loaded_back:
  assumes "holds s es" "stream_log es (run_value (en_run e)) = [own_revision e]" "event_wf e" "en_predecessor e = None"
  shows "\<exists>s'. load_history read (run_value (en_run e)) s =
      (Inr (loaded_result \<lparr>hs_stream = run_value (en_run e), hs_events = [e]\<rparr>), s') \<and> holds s' es"
  using load_complete [OF started_history [of e]] assms by (simp add: event_wf_def)

lemma start_again:
  assumes "holds s es" "stream_log es (run_value (en_run e)) = [own_revision e]" "event_wf e"
    and g: "genesis_event g = Inr e"
  shows "\<exists>s'. runtime_start read commit g s = (Inr \<lparr>ac_status = ActionIdempotent, ac_event = Some e, ac_diagnostics = [],
      ac_validation = None, ac_transition = None\<rparr>, s') \<and> holds s' es"
proof -
  have ev: "en_run e = rn_identity (st_run g)" "en_predecessor e = None"
    using g by (auto simp: genesis_event_def bindr_Inr_iff dest: create_event_Inr)
  from start_loaded_back [OF assms(1-3) ev(2)] obtain s' where
    "load_history read (run_value (en_run e)) s = (Inr (loaded_result \<lparr>hs_stream = run_value (en_run e), hs_events = [e]\<rparr>), s')"
    "holds s' es" by blast
  then show ?thesis
    using g ev(1) by (auto simp: runtime_start_def bindio_step start_loaded_def loaded_result_def action_answer_def
        mk_action_result_def check_texts_def)
qed

text \<open>An event behind the head whose identity and key are new is appended.\<close>

lemma next_complete:
  assumes st: "holds s es" and h: "history_ok h" "stream_log es (hs_stream h) = map own_revision (hs_events h)"
    and e: "follows h e" "event_wf e" "length (encode_event e) \<le> capacity"
    and fresh: "en_identity e \<notin> en_identity ` set (hs_events h)" "label @ event_value (en_identity e) \<notin> snd ` set es"
    and label: "length label \<le> 64"
  shows "\<exists>s'. append_next commit h label v x e s = (Inr \<lparr>ac_status = ActionRecorded, ac_event = Some e,
      ac_diagnostics = [], ac_validation = v, ac_transition = x\<rparr>, s') \<and>
    holds s' (es @ [(own_revision e, label @ event_value (en_identity e))])"
proof -
  let ?key = "label @ event_value (en_identity e)"
  have ne: "hs_events h \<noteq> []" using h(1) by (simp add: history_ok_def)
  have run: "run_value (en_run e) = hs_stream h" using e(1) history_head_run [OF h(1)] by (simp add: follows_def)
  have pred: "en_predecessor e = Some (en_identity (history_head h))" using e(1) by (simp add: follows_def)
  then have self: "en_predecessor e \<noteq> Some (en_identity e)"
    using fresh(1) imageI [OF last_in_set [OF ne], of en_identity] by (auto simp: history_head_def)
  have "hex64 (event_value (en_identity e))"
    using e(1) hex64_sha256 by (simp add: follows_def event_ok_def event_identity_def content_identity_def)
  then have "length (event_value (en_identity e)) = 64" by (simp add: hex64_def)
  moreover have "py_len ?key \<le> length ?key" unfolding py_len_def by (rule length_filter_le)
  ultimately have key: "identifier_ok ?key" using label by (auto simp: bounded_def max_identifier_characters_def)
  have find: "find_revision es (run_value (en_run e)) (event_value (en_identity e)) = None"
  proof (rule ccontr)
    assume "find_revision es (run_value (en_run e)) (event_value (en_identity e)) \<noteq> None"
    then obtain w where "w \<in> set (stream_log es (hs_stream h))" "rv_identity w = event_value (en_identity e)"
      unfolding run by (auto simp: find_revision_def stream_log_def dest!: find_member)
    then obtain x where "x \<in> set (hs_events h)" "event_value (en_identity x) = event_value (en_identity e)"
      unfolding h(2) by auto
    moreover from this(2) have "en_identity x = en_identity e" by (rule event_id.expand)
    ultimately show False using fresh(1) by (metis imageI)
  qed
  have "head_identity es (run_value (en_run e)) = map_option event_value (en_predecessor e)"
    using ne pred by (simp add: run head_identity_log h(2) last_map history_head_def)
  from append_complete [OF e(2) key fresh(2) this find e(3) self st] show ?thesis
    unfolding pred by (auto simp: append_next_def bindio_step append_answer_def append_action_status_def
        mk_action_result_def check_texts_def)
qed

text \<open>A valid request at the head, whose revision is free and whose identities are new, is retained.\<close>

lemma retain_complete:
  assumes st: "holds s es" and l: "load_history read (run_value (rn_identity (pi_run p))) s = (Inr l, s1)"
      "ld_status l = HistoryLoaded" "ld_history l = Some h"
    and head: "at_head h (pi_run p) (pi_prior p)" and valid: "records_agree p" "request_current p"
    and new: "request_event h (request_value (rq_identity (pi_request p))) = None"
      "idempotency_owner h (idempotency_value (rq_idempotency (pi_request p))) = None"
    and free: "active_occurrence h (rn_revision (pi_run p)) = Inr None"
    and e: "request_occurrence p = Inr occ" "preflight_event h p RequestRetained occ (retained_references p) [] = Inr e"
      "event_wf e" "length (encode_event e) \<le> capacity"
    and fresh: "en_identity e \<notin> en_identity ` set (hs_events h)"
      "''runtime-request:'' @ event_value (en_identity e) \<notin> snd ` set es"
  shows "\<exists>s'. runtime_retain read commit p s = (Inr \<lparr>ac_status = ActionRecorded, ac_event = Some e, ac_diagnostics = [],
      ac_validation = Some \<lparr>vr_identity = validation_result_identity [], vr_findings = []\<rparr>, ac_transition = None\<rparr>, s') \<and>
    holds s' (es @ [(own_revision e, ''runtime-request:'' @ event_value (en_identity e))])"
proof -
  have h: "holds s1 es" "history_ok h" "stream_log es (hs_stream h) = map own_revision (hs_events h)"
    using load_sound [OF l(1) st] l(2,3) by (auto simp: loaded_right_def)
  have v: "preflight p = Inr \<lparr>vr_identity = validation_result_identity [], vr_findings = []\<rparr>"
    using valid validate_preflight_Nil [of p] bounded_findings_Nil [of "[]"]
    by (simp add: preflight_def create_validation_Inr max_findings_def)
  have "length ''runtime-request:'' \<le> 64" by simp
  from next_complete [OF h preflight_event_Inr(1) [OF e(2)] e(3,4) fresh this]
  obtain s' where s': "append_next commit h ''runtime-request:''
      (Some \<lparr>vr_identity = validation_result_identity [], vr_findings = []\<rparr>)
      None e s1 = (Inr \<lparr>ac_status = ActionRecorded, ac_event = Some e, ac_diagnostics = [],
      ac_validation = Some \<lparr>vr_identity = validation_result_identity [], vr_findings = []\<rparr>, ac_transition = None\<rparr>, s')"
      "holds s' (es @ [(own_revision e, ''runtime-request:'' @ event_value (en_identity e))])" by blast
  then have "runtime_retain read commit p s = (Inr \<lparr>ac_status = ActionRecorded, ac_event = Some e, ac_diagnostics = [],
      ac_validation = Some \<lparr>vr_identity = validation_result_identity [], vr_findings = []\<rparr>, ac_transition = None\<rparr>, s')"
    using l head new free e(1,2) [unfolded retained_references_def] v
    by (simp add: runtime_retain_def with_history_def bindio_step retain_loaded_def reserve_request_def Let_def)
  then show ?thesis using s'(2) by blast
qed

text \<open>The transition of a reserved request at the head is recorded with the result of the processor.\<close>

lemma record_complete:
  assumes st: "holds s es" and l: "load_history read (run_value (rn_identity (pi_run i))) s = (Inr l, s1)"
      "ld_status l = HistoryLoaded" "ld_history l = Some h"
    and head: "at_head h (pi_run i) (pi_prior i)"
    and q: "retained_occurrence h (request_value (rq_identity (pi_request i))) = Some r"
      "transition_event h (request_value (rq_identity (pi_request i))) = None"
    and e: "process i = Inr x" "transition_recorded h i r x = Inr e" "event_wf e" "length (encode_event e) \<le> capacity"
    and fresh: "en_identity e \<notin> en_identity ` set (hs_events h)"
      "''runtime-transition:'' @ event_value (en_identity e) \<notin> snd ` set es"
  shows "\<exists>s'. runtime_record read commit i s = (Inr \<lparr>ac_status = ActionRecorded, ac_event = Some e, ac_diagnostics = [],
      ac_validation = Some (tx_validation (ex_outcome x)), ac_transition = Some x\<rparr>, s') \<and>
    holds s' (es @ [(own_revision e, ''runtime-transition:'' @ event_value (en_identity e))])"
proof -
  have h: "holds s1 es" "history_ok h" "stream_log es (hs_stream h) = map own_revision (hs_events h)"
    using load_sound [OF l(1) st] l(2,3) by (auto simp: loaded_right_def)
  have "length ''runtime-transition:'' \<le> 64" by simp
  from next_complete [OF h transition_recorded_Inr(1) [OF e(2)] e(3,4) fresh this]
  obtain s' where "append_next commit h ''runtime-transition:'' (Some (tx_validation (ex_outcome x))) (Some x) e s1 =
      (Inr \<lparr>ac_status = ActionRecorded, ac_event = Some e, ac_diagnostics = [],
       ac_validation = Some (tx_validation (ex_outcome x)), ac_transition = Some x\<rparr>, s')"
      "holds s' (es @ [(own_revision e, ''runtime-transition:'' @ event_value (en_identity e))])" by blast
  then show ?thesis
    using l head q e(1,2)
    by (simp add: runtime_record_def with_history_def bindio_step record_loaded_def Let_def)
qed

end

text \<open>The SQLite store while nothing fails.\<close>

definition quiet :: "nat \<Rightarrow> served \<Rightarrow> store_log \<Rightarrow> bool" where
  "quiet maximum s es \<longleftrightarrow> served_holds maximum s es \<and> snd s = []"

lemma serve_quiet: "snd s = [] \<Longrightarrow> serve f s = (x, s') \<longleftrightarrow> f works (fst s) = (x, fst s') \<and> snd s' = []"
  by (cases s; cases s') (auto simp: serve_def split: prod.splits)

interpretation quiet: reliable_store "served_read maximum" "served_commit maximum" "quiet maximum" maximum
proof
  fix s es s' and q :: read_request and x
  assume s: "quiet maximum s es" "read_request_ok q" "served_read maximum q s = (x, s')"
  then have "served_holds maximum s es" "snd s' = []" by (simp_all add: quiet_def served_read_def serve_quiet)
  from served.read_sound [OF this(1) s(2,3)] this(2)
  show "quiet maximum s' es \<and> (\<forall>r. x = Inr r \<longrightarrow> (rr_status r = ReadFound \<longrightarrow> rr_revision r = spec_read q es) \<and>
      (rr_status r = ReadAbsent \<longrightarrow> spec_read q es = None))"
    by (simp add: quiet_def)
next
  fix s es s' and c :: commit and y
  assume s: "quiet maximum s es" "commit_ok c" "served_commit maximum c s = (y, s')"
  then have "served_holds maximum s es" "snd s' = []" by (simp_all add: quiet_def served_commit_def serve_quiet)
  from served.commit_atomic [OF this(1) s(2,3)] this(2)
  show "quiet maximum s' es \<or> (fst (spec_commit c es) = Appended \<and> quiet maximum s' (snd (spec_commit c es)))"
    by (auto simp: quiet_def)
next
  fix s es
  show "quiet maximum s es \<Longrightarrow> log_ok es" by (auto simp: quiet_def served_holds_def stores_def represents_def)
next
  fix s es and q :: read_request
  assume "quiet maximum s es" "read_request_ok q"
  then show "\<exists>s'. served_read maximum q s = (Inr (spec_read_result q es), s') \<and> quiet maximum s' es"
    using sqlite_read_refines [of maximum "fst s" es q]
    by (auto simp: quiet_def served_holds_def served_read_def serve_quiet)
next
  fix s es and c :: commit
  assume "quiet maximum s es" "commit_ok c" "length (rv_payload (cm_candidate c)) \<le> maximum"
  then show "\<exists>s'. served_commit maximum c s = (Inr (spec_commit_result c (fst (spec_commit c es))), s') \<and>
      quiet maximum s' (snd (spec_commit c es))"
    using sqlite_commit_refines [of maximum "fst s" es c "fst (spec_commit c es)" "snd (spec_commit c es)"]
    by (auto simp: quiet_def served_holds_def served_commit_def serve_quiet)
qed

end
