(* ===== verification/Runtime_Example.thy ===== *)
theory Runtime_Example
  imports Runtime_Starting Core_Example
begin

text \<open>
  The course review of the core on the runtime: its events exist and are well formed.
\<close>

section \<open>Creating events\<close>

lemma create_event_total:
  assumes "length evs \<le> max_runtime_references" "reasons_fine reasons" "0 \<le> ordinal" "0 \<le> rv"
    and "ordinal = 0 \<longleftrightarrow> pre = None" "ordinal = 0 \<longrightarrow> kind = RunStarted"
  shows "\<exists>e. create_event kind r ordinal pre rv s occ q oper evs reasons = Inr e"
proof -
  obtain evs' where evs': "runtime_evidence evs = Inr evs'" using assms(1) by (simp add: runtime_evidence_def)
  then have evs2: "length evs' \<le> max_runtime_references \<and> canonical evidence_key evs'"
    using runtime_evidence_result runtime_evidence_fixed by blast
  obtain rs where rs: "runtime_reasons (map LStr reasons) = Inr rs" "rs = sort (remdups reasons)"
    using assms(2) by (auto simp: runtime_reasons_Inr)
  have "length rs \<le> length reasons" using rs(2) length_remdups_leq by simp
  then have "reasons_fine rs \<and> sorted rs \<and> distinct rs"
    using assms(2) rs(2) le_trans [OF length_remdups_leq] by (auto simp: reasons_fine_def list_all_iff)
  then show ?thesis
    using assms evs2 unfolding create_event_def evs' rs(1) bindr.simps Let_def mk_event_Inr
    by (auto simp: event_ok_def event_identity_def event_parts_def)
qed

lemma references_total:
  "list_all (\<lambda>(k, i). evidence_reference_ok \<lparr>er_kind = k, er_identity = i\<rparr>) refs \<Longrightarrow>
   references refs = Inr (map (\<lambda>(k, i). \<lparr>er_kind = k, er_identity = i\<rparr>) refs)"
  unfolding references_def by (rule mapr_ok_map) (auto simp: runtime_reference_Inr list_all_iff)

lemma hex64_reference:
  assumes "hex64 s" "identity_grammar k"
  shows "evidence_reference_ok \<lparr>er_kind = k, er_identity = s\<rparr>"
proof -
  obtain a b c t where s: "s = a # b # c # t"
    using assms(1) by (auto simp: hex64_def numeral_eq_Suc length_Suc_conv)
  have h: "of_char x \<in> {48..57::nat} \<union> {97..102}" if "x \<in> set s" for x using assms(1) that by (simp add: hex64_def list_all_iff)
  have "\<not> machine_path s"
    using h [of a] h [of b] by (auto simp: s machine_path_def starts_def)
  moreover have "py_len s \<le> length s" unfolding py_len_def by (rule length_filter_le)
  then have "bounded max_runtime_text s" using assms(1) by (simp add: bounded_def max_runtime_text_def hex64_def s)
  moreover have "\<not> (of_char x < (32::nat) \<or> of_char x = (127::nat))" if "x \<in> set s" for x using h [OF that] by auto
  ultimately show ?thesis using assms(2) by (auto simp: evidence_reference_ok_def list_all_iff)
qed

section \<open>The start of the review\<close>

definition review_start :: run_start where
  "review_start = \<lparr>st_run = review_run, st_state = review_state\<rparr>"

lemma review_hex:
  "hex64 (workflow_value (wf_identity review_workflow))" "hex64 (run_value review_run_id)"
  "hex64 (state_value (ss_identity review_state))" "hex64 (authority_value (au_identity review_authority))"
  "hex64 (request_value (rq_identity (review_request_at rv)))" "hex64 (validation_value (validation_result_identity []))"
  by (simp_all add: review_workflow_def Let_def workflow_reference_identity_def review_run_id_def run_digest_def
      review_state_def state_snapshot_identity_def review_authority_def authority_reference_identity_def
      review_request_at_def transition_request_identity_def validation_result_identity_def stable_digest_def hex64_sha256)

lemma review_texts:
  "identity_grammar ''workflow-definition''" "identity_grammar ''workflow-subject''"
  "identity_grammar ''authority-reference''" "identity_grammar ''request-idempotency''"
  "identity_grammar ''workflow-validation''"
  "evidence_reference_ok \<lparr>er_kind = ''workflow-subject'', er_identity = ''course-7''\<rparr>"
  "evidence_reference_ok \<lparr>er_kind = ''request-idempotency'', er_identity = ''once''\<rparr>"
  "ascii ''course-7''" "ascii ''once''" "ascii ''review.approve''"
  by (simp_all add: identity_grammar_def alnum_def evidence_reference_ok_def bounded_def py_len_def max_runtime_text_def
      machine_path_def starts_def ascii_def)

lemma review_genesis:
  obtains e where "genesis_event review_start = Inr e" "event_wf e" "en_run e = review_run_id" "en_kind e = RunStarted"
    "en_ordinal e = 0" "en_predecessor e = None" "en_revision e = 0" "en_state e = ss_identity review_state"
    "en_request e = None" "en_occurrence e = None"
proof -
  define refs where "refs = [(''workflow-definition'', workflow_value (wf_identity review_workflow)), (''workflow-subject'', ''course-7'')]"
  have refs: "start_references review_run = refs"
    by (simp add: start_references_def refs_def review_run_def review_subject_def)
  have "list_all (\<lambda>(k, i). evidence_reference_ok \<lparr>er_kind = k, er_identity = i\<rparr>) refs"
    using hex64_reference review_hex review_texts by (simp add: refs_def)
  note total = references_total [OF this]
  define evs where "evs = map (\<lambda>(k, i). \<lparr>er_kind = k, er_identity = i\<rparr>) refs"
  have "length evs \<le> max_runtime_references" "reasons_fine []"
    by (simp_all add: evs_def refs_def max_runtime_references_def reasons_fine_def)
  then obtain e where c: "create_event RunStarted review_run_id 0 None 0 (ss_identity review_state) None None None evs [] = Inr e"
    using create_event_total [of evs "[]" 0 0 None RunStarted review_run_id "ss_identity review_state" None None None]
    by auto
  note e = create_event_Inr [OF c]
  have g: "genesis_event review_start = Inr e"
    using c total refs by (simp add: genesis_event_def review_start_def evs_def) (simp add: review_run_def)
  have "set (en_evidence e) = {\<lparr>er_kind = ''workflow-definition'', er_identity = workflow_value (wf_identity review_workflow)\<rparr>,
      \<lparr>er_kind = ''workflow-subject'', er_identity = ''course-7''\<rparr>}"
    using e by (simp add: evs_def refs_def)
  then have "event_wf e"
    using e review_hex review_texts hex64_reference review_core_ids ascii_utf8 hex64_ascii
    by (intro event_wfI) (auto simp: outside_ok_def links_ok_def printable_int_def dec_int_def dec_nat.simps int_digit_limit_def)
  then show ?thesis using that g e by blast
qed

section \<open>Its first request\<close>

definition review_preflight :: preflight_input where
  "review_preflight =
     \<lparr>pi_workflow = review_workflow, pi_run = review_run, pi_prior = review_state, pi_request = review_request_at 0\<rparr>"

lemma review_preflight_agrees: "records_agree review_preflight" "request_current review_preflight"
  using review_agrees(1,2)
  by (simp_all add: inputs_agree_def records_agree_def request_current_def review_preflight_def)

lemma review_retained:
  assumes e: "event_wf e" "en_run e = review_run_id" "en_ordinal e = 0"
  obtains occ f where "request_occurrence review_preflight = Inr occ" "event_wf f"
    "preflight_event \<lparr>hs_stream = run_value review_run_id, hs_events = [e]\<rparr> review_preflight RequestRetained occ
       (retained_references review_preflight) [] = Inr f"
proof -
  let ?h = "\<lparr>hs_stream = run_value review_run_id, hs_events = [e]\<rparr>" and ?q = "review_request_at 0"
  define occ where "occ = OccurrenceId (occurrence_digest review_run_id (ss_identity review_state) 0 (rq_identity ?q))"
  have occ: "request_occurrence review_preflight = Inr occ"
    by (simp add: request_occurrence_def create_occurrence_Inr review_preflight_def occ_def) (simp add: review_run_def)
  define refs where "refs = retained_references review_preflight"
  have refs: "refs = [(''authority-reference'', authority_value (au_identity review_authority)),
      (''request-idempotency'', ''once''), (''workflow-validation'', validation_value (validation_result_identity []))]"
    by (simp add: refs_def retained_references_def review_preflight_def) (simp add: review_request_at_def)
  have "list_all (\<lambda>(k, i). evidence_reference_ok \<lparr>er_kind = k, er_identity = i\<rparr>) refs"
    using hex64_reference review_hex review_texts by (simp add: refs)
  note total = references_total [OF this]
  define evs where "evs = map (\<lambda>(k, i). \<lparr>er_kind = k, er_identity = i\<rparr>) refs"
  have "length evs \<le> max_runtime_references" "reasons_fine []"
    by (simp_all add: evs_def refs max_runtime_references_def reasons_fine_def)
  then obtain f where c: "create_event RequestRetained review_run_id 1 (Some (en_identity e)) 0 (ss_identity review_state)
      (Some occ) (Some (rq_identity ?q)) (Some review_operation) evs [] = Inr f"
    using create_event_total [of evs "[]" 1 0 "Some (en_identity e)" RequestRetained review_run_id "ss_identity review_state"
        "Some occ" "Some (rq_identity ?q)" "Some review_operation"] by auto
  note f = create_event_Inr [OF c]
  have "rq_operation ?q = review_operation" by (simp add: review_request_at_def)
  then have "preflight_event ?h review_preflight RequestRetained occ (retained_references review_preflight) [] = Inr f"
    using c total e by (simp add: preflight_event_def next_event_def history_head_def evs_def refs_def review_preflight_def)
      (simp add: review_run_def)
  moreover have "set (en_evidence f) = {\<lparr>er_kind = ''authority-reference'', er_identity = authority_value (au_identity review_authority)\<rparr>,
      \<lparr>er_kind = ''request-idempotency'', er_identity = ''once''\<rparr>,
      \<lparr>er_kind = ''workflow-validation'', er_identity = validation_value (validation_result_identity [])\<rparr>}"
    using f by (simp add: evs_def refs)
  moreover have "hex64 (event_value (en_identity e))" "hex64 (occurrence_value occ)"
    using e(1) hex64_sha256 by (simp_all add: event_wf_def event_ok_def event_identity_def content_identity_def occ_def
        occurrence_digest_def)
  ultimately show ?thesis
    using that occ f review_hex review_texts hex64_reference review_core_ids ascii_utf8 hex64_ascii
    by (intro that [of occ f] event_wfI)
      (auto simp: outside_ok_def links_ok_def printable_int_def dec_int_def dec_nat.simps int_digit_limit_def review_operation_def)
qed

section \<open>Its transition\<close>

lemma process_audit:
  "process i = Inr x \<Longrightarrow> ae_identity (ex_event x) =
    audit_event_identity (ae_run (ex_event x)) (ae_revision (ex_event x)) (ae_attempt (ex_event x)) (ae_kind (ex_event x))
      (ae_subjects (ex_event x)) (ae_evidence (ex_event x))"
  by (auto simp: process_def bindr_Inr_iff mk_execution_def require_Inr_iff create_audit_def mk_audit_def
      contract_version_Inr bounded_string_Inr audit_references_def)

lemma review_recorded:
  assumes f: "event_wf f" "en_run f = review_run_id" "en_ordinal f = 1"
  obtains x g where "process review_input = Inr x" "tx_kind (ex_outcome x) = OutApplied" "event_wf g"
    "transition_recorded \<lparr>hs_stream = run_value review_run_id, hs_events = [e, f]\<rparr> review_input f x = Inr g" "en_ordinal g = 2"
proof -
  let ?h = "\<lparr>hs_stream = run_value review_run_id, hs_events = [e, f]\<rparr>"
  obtain x where x: "process review_input = Inr x" "execution_of review_input x"
    by (rule process_result [OF review_input_ok(1) review_not_colliding(1)])
  let ?y = "ex_outcome x"
  have k: "tx_kind ?y = OutApplied" using x(2) by (simp add: execution_of_def Let_def review_verdict)
  then obtain s r where s: "tx_state ?y = Some s" "tx_successor ?y = Some r" "successor_of review_input review_evidence s r"
    using x(2) by (auto simp: execution_of_def Let_def outcome_effect_def)
  have ev: "tx_evidence ?y = Some (ev_identity review_evidence)" "tx_failure ?y = None"
    using x(2) by (simp_all add: execution_of_def Let_def outcome_base_def)
  have rev: "rn_revision r = 1" using s(3) by (simp add: successor_of_def review_run_def)
  have hex: "hex64 (outcome_value (tx_identity ?y))" "hex64 (audit_value (ae_identity (ex_event x)))"
      "hex64 (validation_value (vr_identity (tx_validation ?y)))" "hex64 (evidence_value (ev_identity review_evidence))"
      "hex64 (state_value (ss_identity s))"
    using x(2) process_audit [OF x(1)] s(3)
    by (simp_all add: execution_of_def Let_def transition_outcome_identity_def audit_event_identity_def
        validation_result_identity_def review_evidence_def adapter_evidence_identity_def successor_of_def snapshot_ok_def
        state_snapshot_identity_def stable_digest_def hex64_sha256)
  have cs: "core_id (state_value (ss_identity s))"
    using s(3) by (simp add: successor_of_def snapshot_ok_def state_snapshot_identity_def core_id_digest)
  define refs where "refs = transition_references ?y (ex_event x)"
  have refs: "refs = [(''transition-outcome'', outcome_value (tx_identity ?y)), (''transition-audit'', audit_value (ae_identity (ex_event x))),
      (''workflow-validation'', validation_value (vr_identity (tx_validation ?y))),
      (''adapter-evidence'', evidence_value (ev_identity review_evidence))]"
    by (simp add: refs_def transition_references_def ev)
  have grammar: "identity_grammar ''transition-outcome''" "identity_grammar ''transition-audit''" "identity_grammar ''adapter-evidence''"
      "identity_grammar ''applied''"
    by (simp_all add: identity_grammar_def alnum_def)
  have "list_all (\<lambda>(k, i). evidence_reference_ok \<lparr>er_kind = k, er_identity = i\<rparr>) refs"
    using hex64_reference [OF hex(1) grammar(1)] hex64_reference [OF hex(2) grammar(2)] hex64_reference [OF hex(3) review_texts(5)]
      hex64_reference [OF hex(4) grammar(3)] by (simp add: refs)
  note total = references_total [OF this]
  define evs where "evs = map (\<lambda>(k, i). \<lparr>er_kind = k, er_identity = i\<rparr>) refs"
  have short: "length evs \<le> max_runtime_references" "reasons_fine [''applied'']"
    using grammar(4) by (simp_all add: evs_def refs max_runtime_references_def reasons_fine_def max_runtime_reasons_def)
  have op: "rq_operation (review_request_at 0) = review_operation" by (simp add: review_request_at_def)
  obtain g where c: "create_event TransitionRecorded review_run_id 2 (Some (en_identity f)) 1 (ss_identity s) (en_occurrence f)
      (Some (rq_identity (review_request_at 0))) (Some review_operation) evs [''applied''] = Inr g"
    using create_event_total [of evs "[''applied'']" 2 1 "Some (en_identity f)" TransitionRecorded review_run_id "ss_identity s"
        "en_occurrence f" "Some (rq_identity (review_request_at 0))" "Some review_operation"] short by auto
  note g = create_event_Inr [OF c]
  have t: "transition_recorded ?h review_input f x = Inr g"
    using c total f(2,3) s(1,2) k rev
    by (simp add: transition_recorded_def Let_def next_event_def history_head_def evs_def refs_def op)
  have "set (en_evidence g) = {\<lparr>er_kind = ''transition-outcome'', er_identity = outcome_value (tx_identity ?y)\<rparr>,
      \<lparr>er_kind = ''transition-audit'', er_identity = audit_value (ae_identity (ex_event x))\<rparr>,
      \<lparr>er_kind = ''workflow-validation'', er_identity = validation_value (vr_identity (tx_validation ?y))\<rparr>,
      \<lparr>er_kind = ''adapter-evidence'', er_identity = evidence_value (ev_identity review_evidence)\<rparr>}"
    using g by (simp add: evs_def refs)
  moreover have "hex64 (event_value (en_identity f))" "\<forall>p \<in> set_option (en_occurrence f). hex64 (occurrence_value p)"
    using f(1) hex64_sha256 by (simp_all add: event_wf_def event_ok_def event_identity_def content_identity_def)
  ultimately have "event_wf g"
    using g hex cs review_hex review_texts grammar hex64_reference review_core_ids ascii_utf8 hex64_ascii
    by (intro event_wfI)
      (auto simp: outside_ok_def links_ok_def printable_int_def dec_int_def dec_nat.simps int_digit_limit_def review_operation_def)
  then show ?thesis using that x(1) k t g by blast
qed

text \<open>A history with one more event.\<close>

lemma history_grows:
  assumes "history_ok h" "follows h e" "en_ordinal e = en_ordinal (history_head h) + 1" "length (hs_events h) < max_history_events"
  shows "history_ok \<lparr>hs_stream = hs_stream h, hs_events = hs_events h @ [e]\<rparr>"
proof -
  let ?n = "length (hs_events h) - 1"
  have ne: "hs_events h \<noteq> []" using assms(1) by (simp add: history_ok_def)
  then have n: "?n < length (hs_events h)" "history_head h = hs_events h ! ?n" by (simp_all add: history_head_def last_conv_nth)
  have "event_links (hs_events h) ?n" using assms(1) n(1) unfolding history_ok_def by blast
  then have "event_links (hs_events h @ [e]) (length (hs_events h))"
    using assms(2,3) ne n by (simp add: event_links_def follows_def nth_append)
  moreover have "event_links (hs_events h @ [e]) m" if "m < length (hs_events h)" for m
  proof -
    have "event_links (hs_events h) m" using assms(1) that unfolding history_ok_def by blast
    then show ?thesis using that ne by (simp add: event_links_def nth_append less_imp_diff_less)
  qed
  moreover have "hs_stream h \<noteq> []" "hs_stream h = run_value (en_run ((hs_events h @ [e]) ! 0))"
    using assms(1) ne unfolding history_ok_def nth_append by auto
  moreover have "length (hs_events h @ [e]) \<le> max_history_events" using assms(4) by simp
  ultimately show ?thesis unfolding history_ok_def history.simps by (auto simp only: less_Suc_eq length_append_singleton)
qed

end
