(* ===== verification/Runtime_Theorems.thy ===== *)
theory Runtime_Theorems
  imports Runtime_Example
begin

text \<open>
  The properties of the local runtime over the SQLite store.
\<close>

section \<open>Reserved histories\<close>

lemma reserved_at: "reserved es \<Longrightarrow> n < length es \<Longrightarrow> permitted (take n es) (es ! n)"
  by (simp add: reserved_def)

lemma permitted_member:
  assumes "i < j" "j < length es"
  shows "es ! i \<in> set (take j es)"
  using assms by (metis in_set_conv_nth length_take min_less_iff_conj nth_take order.strict_trans)

lemma permitted_keys:
  assumes p: "permitted past e" and r: "r \<in> set past"
  shows "\<not> (claims_key key r \<and> claims_key key e)"
proof
  assume c: "claims_key key r \<and> claims_key key e"
  then have "en_kind e = RequestRetained \<or> en_kind e = PreflightRejected" by (simp add: claims_key_def)
  then show False
    using p c r by (elim disjE) (simp_all add: permitted_def, blast+)
qed

lemma completed_between:
  assumes "completed (take j es) (es ! i)" "en_ordinal (es ! i) = int i" "i < j" "j < length es"
  shows "\<exists>k. i < k \<and> k < j \<and> en_kind (es ! k) = TransitionRecorded \<and> en_occurrence (es ! k) = en_occurrence (es ! i)"
proof -
  obtain l where l: "l \<in> set (drop (Suc i) (take j es))" "en_kind l = TransitionRecorded" "en_occurrence l = en_occurrence (es ! i)"
    using assms(1,2) by (auto simp: completed_def list_ex_iff nat_add_distrib)
  then obtain n where "n < length (drop (Suc i) (take j es))" "l = drop (Suc i) (take j es) ! n"
    by (auto simp: in_set_conv_nth)
  then have "Suc i + n < j" "l = es ! (Suc i + n)" using assms(3,4) by simp_all
  then show ?thesis using l by (intro exI [of _ "Suc i + n"]) simp
qed

text \<open>The history that a runtime loads is reserved.\<close>

lemma loaded_reserved:
  assumes "runtimes maximum d ps" "load_run maximum r (d, schedule) = (Inr l, s')" "ld_status l = HistoryLoaded"
    "ld_history l = Some h"
  shows "history_ok h" "reserved (hs_events h)"
proof -
  obtain es where es: "stores maximum d es" "log_reserved es" using runtimes_invariant [OF assms(1)] by blast
  have "loaded_history (Inr l) = Some h" using assms(3,4) by (simp add: loaded_history_def)
  then have "seen es h" "stream_log es (hs_stream h) = map own_revision (hs_events h)"
    using load_seen [OF assms(2)] es(1) by (auto simp: served_holds_def)
  then show "history_ok h" "reserved (hs_events h)" using es(2) by (auto simp: seen_def log_reserved_def)
qed

text \<open>A runtime that has started the review and loads it again.\<close>

lemma review_loaded:
  obtains maximum d d' l h where "runtimes maximum d (\<lambda>_. None)"
    "load_run maximum review_run (d, []) = (Inr l, (d', []))" "ld_status l = HistoryLoaded" "ld_history l = Some h"
    "length (hs_events h) = 1"
proof -
  obtain e where e: "genesis_event review_start = Inr e" "event_wf e" "en_run e = review_run_id" "en_predecessor e = None"
    by (rule review_genesis)
  define maximum where "maximum = length (encode_event e)"
  define d0 where "d0 = \<lparr>db_tables = [], db_format = [], db_extras = False, db_revisions = [], db_heads = []\<rparr>"
  have fresh: "quiet maximum (d0, []) []" "runtimes maximum d0 (\<lambda>_. None)"
    using fresh_stores [of d0] runtimes_fresh [of d0] by (simp_all add: d0_def quiet_def served_holds_def)
  have "stream_log [] (run_value (rn_identity (st_run review_start))) = []" by (simp add: stream_log_def)
  note none = this
  define key where "key = ''runtime-start:'' @ event_value (en_identity e)"
  from none quiet.start_complete [OF fresh(1) e(1,2)]
  obtain s1 where s1: "runtime_start (served_read maximum) (served_commit maximum) review_start (d0, []) =
      (Inr \<lparr>ac_status = ActionRecorded, ac_event = Some e, ac_diagnostics = [], ac_validation = None,
        ac_transition = None\<rparr>, s1)" "quiet maximum s1 [(own_revision e, key)]"
    by (auto simp: maximum_def key_def)
  then obtain d1 where d1: "s1 = (d1, [])" by (cases s1) (simp add: quiet_def)
  have run: "runtimes maximum d1 (\<lambda>_. None)"
    using runtimes_start_call [OF fresh(2) refl s1(1) [unfolded d1]] .
  have "stream_log [(own_revision e, key)] (run_value (en_run e)) = [own_revision e]" by (simp add: stream_log_def)
  from quiet.start_loaded_back [OF s1(2) this e(2,4)]
  obtain s2 where s2: "load_history (served_read maximum) (run_value (en_run e)) s1 =
      (Inr (loaded_result \<lparr>hs_stream = run_value (en_run e), hs_events = [e]\<rparr>), s2)" "quiet maximum s2 [(own_revision e, key)]"
    by blast
  then obtain d2 where "s2 = (d2, [])" by (cases s2) (simp add: quiet_def)
  then show ?thesis
    using that [OF run, of "loaded_result \<lparr>hs_stream = run_value (en_run e), hs_events = [e]\<rparr>" d2
        "\<lparr>hs_stream = run_value (en_run e), hs_events = [e]\<rparr>"] s2(1) e(3)
    by (simp add: load_run_def d1 loaded_result_def review_run_def)
qed

section \<open>Reservations\<close>

text \<open>C3: Requests are reserved one at a time.  In every history that a runtime loads, however runtimes
  interleaved and whatever failed, two retained requests differ, a second one for the same core
  revision comes only after the recorded transition of the first, and no two events of accepted or
  rejected requests carry one idempotency identity.\<close>

theorem runtime_requests_exclusive:
  assumes "runtimes maximum d ps" "load_run maximum r (d, schedule) = (Inr l, s')" "ld_status l = HistoryLoaded"
    "ld_history l = Some h"
  shows "let es = hs_events h in \<forall>i j. i < j \<longrightarrow> j < length es \<longrightarrow>
    (en_kind (es ! i) = RequestRetained \<and> en_kind (es ! j) = RequestRetained \<longrightarrow>
       en_request (es ! i) \<noteq> en_request (es ! j) \<and>
       (en_revision (es ! i) = en_revision (es ! j) \<longrightarrow>
         (\<exists>k. i < k \<and> k < j \<and> en_kind (es ! k) = TransitionRecorded \<and> en_occurrence (es ! k) = en_occurrence (es ! i)))) \<and>
    (\<forall>key. \<not> (claims_key key (es ! i) \<and> claims_key key (es ! j)))"
  unfolding Let_def
proof (intro allI impI conjI)
  fix i j :: nat
  assume ij: "i < j" "j < length (hs_events h)"
  note res = loaded_reserved [OF assms]
  have p: "permitted (take j (hs_events h)) (hs_events h ! j)" by (rule reserved_at [OF res(2) ij(2)])
  have m: "hs_events h ! i \<in> set (take j (hs_events h))" by (rule permitted_member [OF ij])
  have ord: "en_ordinal (hs_events h ! i) = int i" using res(1) ij by (simp add: history_ok_def event_links_def)
  show "en_request (hs_events h ! i) \<noteq> en_request (hs_events h ! j)"
    if "en_kind (hs_events h ! i) = RequestRetained \<and> en_kind (hs_events h ! j) = RequestRetained"
    using p m that by (auto simp: permitted_def)
  show "\<exists>k. i < k \<and> k < j \<and> en_kind (hs_events h ! k) = TransitionRecorded \<and>
      en_occurrence (hs_events h ! k) = en_occurrence (hs_events h ! i)"
    if "en_kind (hs_events h ! i) = RequestRetained \<and> en_kind (hs_events h ! j) = RequestRetained"
      "en_revision (hs_events h ! i) = en_revision (hs_events h ! j)"
  proof (rule completed_between [OF _ ord ij])
    show "completed (take j (hs_events h)) (hs_events h ! i)" using p m that by (auto simp: permitted_def)
  qed
  show "\<not> (claims_key key (hs_events h ! i) \<and> claims_key key (hs_events h ! j))" for key
    using permitted_keys [OF p m] by blast
qed

lemma runtime_requests_exclusive_witness:
  "\<exists>maximum d d' l h. runtimes maximum d (\<lambda>_. None) \<and> load_run maximum review_run (d, []) = (Inr l, (d', [])) \<and>
    ld_history l = Some h \<and> length (hs_events h) = 1 \<and>
    (\<forall>key i j. i < j \<longrightarrow> j < length (hs_events h) \<longrightarrow>
      \<not> (claims_key key (hs_events h ! i) \<and> claims_key key (hs_events h ! j)))"
proof -
  obtain maximum d d' l h where *: "runtimes maximum d (\<lambda>_. None)"
    "load_run maximum review_run (d, []) = (Inr l, (d', []))" "ld_status l = HistoryLoaded" "ld_history l = Some h"
    "length (hs_events h) = 1" by (rule review_loaded)
  have "\<forall>key i j. i < j \<longrightarrow> j < length (hs_events h) \<longrightarrow>
      \<not> (claims_key key (hs_events h ! i) \<and> claims_key key (hs_events h ! j))"
    using runtime_requests_exclusive [OF *(1-4)] by (auto simp: Let_def)
  then show ?thesis using * by blast
qed




definition empty_database :: database where
  "empty_database = \<lparr>db_tables = [], db_format = [], db_extras = False, db_revisions = [], db_heads = []\<rparr>"

lemma empty_quiet: "quiet maximum (empty_database, []) []"
  using fresh_stores [of empty_database] by (simp add: empty_database_def quiet_def served_holds_def)





section \<open>Progress\<close>

lemma fresh_genesis: "genesis_event g = Inr e \<Longrightarrow> en_run e = rn_identity (st_run g) \<and> en_predecessor e = None"
  by (auto simp: genesis_event_def bindr_Inr_iff dest: create_event_Inr)

text \<open>C32: Starting a run is durable and idempotent.  While the store answers, the first start records
  exactly the genesis event, loading the run afterwards returns the history of that one event, and
  starting it again answers with the same event and records nothing.\<close>

theorem start_is_durable:
  assumes "quiet maximum s es" "stream_log es (run_value (rn_identity (st_run g))) = []"
    and "genesis_event g = Inr e" "event_wf e" "length (encode_event e) \<le> maximum"
    and "''runtime-start:'' @ event_value (en_identity e) \<notin> snd ` set es"
  shows "\<exists>s1 s2 s3 log.
    runtime_start (served_read maximum) (served_commit maximum) g s =
      (Inr \<lparr>ac_status = ActionRecorded, ac_event = Some e, ac_diagnostics = [], ac_validation = None, ac_transition = None\<rparr>, s1) \<and>
    load_run maximum (st_run g) s1 = (Inr (loaded_result \<lparr>hs_stream = run_value (rn_identity (st_run g)), hs_events = [e]\<rparr>), s2) \<and>
    runtime_start (served_read maximum) (served_commit maximum) g s2 =
      (Inr \<lparr>ac_status = ActionIdempotent, ac_event = Some e, ac_diagnostics = [], ac_validation = None, ac_transition = None\<rparr>, s3) \<and>
    quiet maximum s1 log \<and> quiet maximum s3 log"
proof -
  note e = fresh_genesis [OF assms(3)]
  define key where "key = ''runtime-start:'' @ event_value (en_identity e)"
  obtain s1 where s1: "runtime_start (served_read maximum) (served_commit maximum) g s =
      (Inr \<lparr>ac_status = ActionRecorded, ac_event = Some e, ac_diagnostics = [], ac_validation = None, ac_transition = None\<rparr>, s1)"
      "quiet maximum s1 (es @ [(own_revision e, key)])"
    using quiet.start_complete [OF assms(1,3-5,2,6)] unfolding key_def by blast
  have log: "stream_log (es @ [(own_revision e, key)]) (run_value (en_run e)) = [own_revision e]"
    using assms(2) e by (simp add: stream_log_append stream_log_def [of "[_]"])
  obtain s2 where s2: "load_history (served_read maximum) (run_value (en_run e)) s1 =
      (Inr (loaded_result \<lparr>hs_stream = run_value (en_run e), hs_events = [e]\<rparr>), s2)" "quiet maximum s2 (es @ [(own_revision e, key)])"
    using quiet.start_loaded_back [OF s1(2) log assms(4) conjunct2 [OF e]] by blast
  obtain s3 where "runtime_start (served_read maximum) (served_commit maximum) g s2 =
      (Inr \<lparr>ac_status = ActionIdempotent, ac_event = Some e, ac_diagnostics = [], ac_validation = None, ac_transition = None\<rparr>, s3)"
      "quiet maximum s3 (es @ [(own_revision e, key)])"
    using quiet.start_again [OF s2(2) log assms(4,3)] by blast
  moreover have "load_run maximum (st_run g) s1 =
      (Inr (loaded_result \<lparr>hs_stream = run_value (rn_identity (st_run g)), hs_events = [e]\<rparr>), s2)"
    using s2(1) e by (simp add: load_run_def)
  ultimately show ?thesis using s1 by blast
qed

lemma start_is_durable_witness:
  "\<exists>maximum e s1 s2. genesis_event review_start = Inr e \<and>
    runtime_start (served_read maximum) (served_commit maximum) review_start (empty_database, []) =
      (Inr \<lparr>ac_status = ActionRecorded, ac_event = Some e, ac_diagnostics = [], ac_validation = None, ac_transition = None\<rparr>, s1) \<and>
    load_run maximum review_run s1 = (Inr (loaded_result \<lparr>hs_stream = run_value review_run_id, hs_events = [e]\<rparr>), s2)"
proof -
  obtain e where e: "genesis_event review_start = Inr e" "event_wf e" by (rule review_genesis)
  have "stream_log [] (run_value (rn_identity (st_run review_start))) = []" by (simp add: stream_log_def)
  from start_is_durable [OF empty_quiet this e order.refl] e(1)
  show ?thesis by (auto simp: review_start_def) (simp add: review_run_def, blast)
qed



section \<open>Stores that lie\<close>

text \<open>A store that counts its reads.\<close>

definition counting :: "'s reader \<Rightarrow> (nat \<times> 's) reader" where
  "counting read q = (\<lambda>(n, s). case read q s of (x, s') \<Rightarrow> (x, (Suc n, s')))"

lemma load_loop_counts:
  "\<exists>k \<le> max_history_events - length events. load_loop (counting read) stream events visited v (n, s) =
     (case load_loop read stream events visited v s of (x, s') \<Rightarrow> (x, (n + k, s')))"
proof (induction read stream events visited v s arbitrary: n rule: load_loop.induct)
  case (1 read stream events visited v s)
  note step = load_loop.simps [of "counting read" stream events visited v] load_loop.simps [of read stream events visited v]
  consider x where "check_revision stream events visited v = Inl x"
    | st d where "check_revision stream events visited v = Inr (Inl (st, d))"
    | e where "check_revision stream events visited v = Inr (Inr e)" "rv_predecessor v = None"
    | e p x where "check_revision stream events visited v = Inr (Inr e)" "rv_predecessor v = Some p" "explicit_request stream p = Inl x"
    | e p q where "check_revision stream events visited v = Inr (Inr e)" "rv_predecessor v = Some p" "explicit_request stream p = Inr q"
    by (metis sum.exhaust option.exhaust surj_pair)
  then show ?case
  proof cases
    case (5 e p q)
    note c = 5
    have lt: "length events < max_history_events" using c(1) by (auto simp: check_revision_def split: if_splits)
    obtain y s1 where y: "read q s = (y, s1)" by (cases "read q s")
    then have y': "counting read q (n, s) = (y, (Suc n, s1))" for n by (simp add: counting_def)
    show ?thesis
    proof (cases "\<exists>prior w. y = Inr prior \<and> load_failure (rr_status prior) = None \<and> rr_revision prior = Some w")
      case True
      then obtain prior w where w: "y = Inr prior" "load_failure (rr_status prior) = None" "rr_revision prior = Some w" by blast
      obtain k where "k \<le> max_history_events - length (events @ [e])"
        "load_loop (counting read) stream (events @ [e]) (rv_identity v # visited) w (Suc n, s1) =
          (case load_loop read stream (events @ [e]) (rv_identity v # visited) w s1 of (x, s') \<Rightarrow> (x, (Suc n + k, s')))"
        using "1.IH" [OF c(1) refl c(2), of q s prior s1 _ _ w "Suc n"] y w c(3) by auto
      then show ?thesis
        using lt by (intro exI [of _ "Suc k"]) (simp add: step c bindio_def y y' w split: prod.splits)
    next
      case False
      then show ?thesis
        using lt by (intro exI [of _ 1]) (auto simp: step c bindio_def y y' split: sum.splits option.splits prod.splits)
    qed
  qed (intro exI [of _ 0], simp add: step give_def)+
qed

lemma load_loop_sound:
  assumes "load_loop read stream events visited v s = (Inr l, s')" "list_all event_ok events"
    and "ld_status l = HistoryLoaded"
  shows "\<exists>h. ld_history l = Some h \<and> history_ok h \<and> hs_stream h = stream \<and> list_all event_ok (hs_events h)"
  using assms(1,2)
proof (induction read stream events visited v s rule: load_loop.induct)
  case (1 read stream events visited v s)
  have lf: "load_failure st \<noteq> Some HistoryLoaded" for st by (cases st) (simp_all add: load_failure_def)
  note l = "1.prems"(1) [unfolded load_loop.simps [of read stream events]]
  show ?case
  proof (cases "check_revision stream events visited v")
    case (Inr y)
    show ?thesis
    proof (cases y)
      case (Inl a)
      then show ?thesis
        using l Inr assms(3) check_revision_report [of stream events visited v "fst a" "snd a"]
        by (cases a) (auto dest!: load_answer_Inr)
    next
      case (Inr e)
      note c = \<open>check_revision stream events visited v = Inr y\<close> [unfolded Inr]
      have e: "list_all event_ok (events @ [e])"
        using "1.prems"(2) c by (auto simp: check_revision_def split: if_splits sum.splits py_exn.splits dest: decode_event_Inr)
      show ?thesis
      proof (cases "rv_predecessor v")
        case None
        then show ?thesis
          using l c e assms(3) finish_load_sound [of stream "events @ [e]" l] by (auto simp: list_all_iff)
      next
        case (Some p)
        then obtain q prior s1 where q: "explicit_request stream p = Inr q" "read q s = (Inr prior, s1)"
          "(case (load_failure (rr_status prior), rr_revision prior) of
              (None, Some w) \<Rightarrow> load_loop read stream (events @ [e]) (rv_identity v # visited) w s1
            | (f, _) \<Rightarrow> (load_answer stream (case f of None \<Rightarrow> HistoryCorrupt | Some st \<Rightarrow> st)
                (or_else (rr_diagnostics prior) [''runtime_predecessor_missing'']) None, s1)) = (Inr l, s')"
          using l c by (auto simp: bindio_Inr_iff dest: sym)
        show ?thesis
        proof (cases "load_failure (rr_status prior) = None \<and> rr_revision prior \<noteq> None")
          case True
          then obtain w where w: "load_failure (rr_status prior) = None" "rr_revision prior = Some w" by blast
          have "load_loop read stream (events @ [e]) (rv_identity v # visited) w s1 = (Inr l, s')" using q(3) w by simp
          then show ?thesis using "1.IH" [OF c refl Some, of q s prior s1 _ _ w] q(1,2) w e by simp
        next
          case False
          then show ?thesis
            using q(3) lf [of "rr_status prior"] assms(3) by (auto dest!: load_answer_Inr split: option.splits)
        qed
      qed
    qed
  qed (use l in simp)
qed

text \<open>C34: Loading is safe on any store.  Whatever the reads of a store answer, and however its state changes with
  them, loading a stream makes at most one read more than the event limit; and a LOADED answer holds a
  history of that stream: at most 10000 events that pass every check of their constructor, in one chain
  of ordinals and predecessors that starts at the genesis.\<close>

theorem load_any_store:
  fixes read :: "'s reader"
  assumes "load_history (counting read) stream (0, s) = (x, (n, s'))"
  shows "n \<le> max_history_events + 1 \<and> load_history read stream s = (x, s') \<and>
    (\<forall>l. x = Inr l \<and> ld_status l = HistoryLoaded \<longrightarrow>
      (\<exists>h. ld_history l = Some h \<and> hs_stream h = stream \<and> list_all event_ok (hs_events h) \<and>
         0 < length (hs_events h) \<and> length (hs_events h) \<le> max_history_events \<and>
         (\<forall>k < length (hs_events h). event_links (hs_events h) k)))"
proof -
  let ?first = "\<lambda>latest. rr_status latest \<noteq> ReadAbsent \<and> load_failure (rr_status latest) = None"
  have lf: "load_failure st \<noteq> Some HistoryLoaded" for st by (cases st) (simp_all add: load_failure_def)
  have loop: "load_loop (counting read) stream [] [] v (n0, s0) = (x, (n, s')) \<Longrightarrow>
      n \<le> n0 + max_history_events \<and> load_loop read stream [] [] v s0 = (x, s')" for v n0 s0
    using load_loop_counts [of "[]" read stream "[]" v n0 s0] by (cases "load_loop read stream [] [] v s0") auto
  have loaded: "load_loop read stream [] [] v s0 = (Inr l, s') \<Longrightarrow> ld_status l = HistoryLoaded \<Longrightarrow>
      \<exists>h. ld_history l = Some h \<and> history_ok h \<and> hs_stream h = stream \<and> list_all event_ok (hs_events h)" for v s0 l
    using load_loop_sound [of read stream "[]" "[]" v s0] by simp
  have "n \<le> max_history_events + 1 \<and> load_history read stream s = (x, s') \<and>
      (\<forall>l. x = Inr l \<and> ld_status l = HistoryLoaded \<longrightarrow>
        (\<exists>h. ld_history l = Some h \<and> history_ok h \<and> hs_stream h = stream \<and> list_all event_ok (hs_events h)))"
  proof (cases "require (stream \<noteq> []) ''stream_identity must be nonempty'' (latest_request stream)")
    case (Inl y)
    then show ?thesis using assms by (simp add: load_history_def)
  next
    case (Inr q)
    obtain y s1 where y: "read q s = (y, s1)" by (cases "read q s")
    then have y': "counting read q (0, s) = (y, (Suc 0, s1))" by (simp add: counting_def)
    show ?thesis
    proof (cases "\<exists>latest v. y = Inr latest \<and> ?first latest \<and> rr_revision latest = Some v")
      case True
      then obtain latest v where v: "y = Inr latest" "?first latest" "rr_revision latest = Some v" by blast
      have "load_loop (counting read) stream [] [] v (Suc 0, s1) = (x, (n, s'))"
        using assms v by (simp add: load_history_def Inr bindio_def y')
      then have l: "n \<le> Suc 0 + max_history_events" "load_loop read stream [] [] v s1 = (x, s')" using loop by blast+
      have "load_history read stream s = (x, s')" using v l(2) by (simp add: load_history_def Inr bindio_def y)
      then show ?thesis using l loaded by auto
    next
      case False
      then show ?thesis
        using assms lf
        by (auto simp: load_history_def Inr bindio_def y y' dest!: load_answer_Inr split: sum.splits if_splits option.splits)
    qed
  qed
  then show ?thesis by (force simp: history_ok_def)
qed

lemma load_any_store_witness:
  "\<exists>maximum d n s' l h. load_history (counting (served_read maximum)) (run_value review_run_id) (0, (d, [])) = (Inr l, (n, s')) \<and>
     ld_history l = Some h \<and> n \<le> max_history_events + 1 \<and> event_links (hs_events h) 0"
proof -
  obtain maximum d d' l h where *: "runtimes maximum d (\<lambda>_. None)"
    "load_run maximum review_run (d, []) = (Inr l, (d', []))" "ld_status l = HistoryLoaded" "ld_history l = Some h"
    "length (hs_events h) = 1" by (rule review_loaded)
  obtain x n s' where x: "load_history (counting (served_read maximum)) (run_value review_run_id) (0, (d, [])) = (x, (n, s'))"
    by (metis surj_pair)
  note a = load_any_store [OF x]
  then have "x = Inr l" using *(2) by (simp add: load_run_def review_run_def)
  then show ?thesis using a x *(3,4) by fastforce
qed

end
