(* ===== verification/Store_Theorems.thy ===== *)
theory Store_Theorems
  imports Store_Refinement Runtime_Example
begin

text \<open>
  The properties of the revision store, of its row envelopes, and of the texts that the serializers
  write and read.
\<close>

section \<open>The revision store\<close>

text \<open>C4: The SQLite store implements compare-and-append.  On a database that holds a log, a commit leaves
  the log or appends its candidate whole, whatever fails on the way; it reports a commit only when
  the candidate is in the log; and when nothing fails its answer and the new log are those of the
  specification: the same key repeats or is refused, a moved head or a used identity conflicts, and
  otherwise the candidate becomes the head of its stream.\<close>

theorem sqlite_implements_log:
  assumes "stores maximum d es" "commit_ok c" "sqlite_commit en maximum c d = (x, d')"
  shows "(stores maximum d' es \<or> (fst (spec_commit c es) = Appended \<and> stores maximum d' (snd (spec_commit c es)))) \<and>
    (\<forall>r. x = Inr r \<and> cr_status r = CommitCommitted \<longrightarrow>
       stores maximum d' (es @ [(cm_candidate c, cm_idempotency c)])) \<and>
    (en = works \<and> length (rv_payload (cm_candidate c)) \<le> maximum \<longrightarrow>
       x = Inr (spec_commit_result c (fst (spec_commit c es))) \<and> stores maximum d' (snd (spec_commit c es)))"
proof (intro conjI allI impI)
  show "stores maximum d' es \<or> (fst (spec_commit c es) = Appended \<and> stores maximum d' (snd (spec_commit c es)))"
    by (rule sqlite_commit_appends [OF assms])
  show "stores maximum d' (es @ [(cm_candidate c, cm_idempotency c)])" if "x = Inr r \<and> cr_status r = CommitCommitted" for r
    using sqlite_commit_atomic [OF assms(1,2), of en r d'] assms(3) that by auto
  assume "en = works \<and> length (rv_payload (cm_candidate c)) \<le> maximum"
  with sqlite_commit_refines [OF assms(1,2), of "fst (spec_commit c es)" "snd (spec_commit c es)"] assms(3)
  show "x = Inr (spec_commit_result c (fst (spec_commit c es)))" "stores maximum d' (snd (spec_commit c es))"
    by auto
qed

definition blank_database :: database where
  "blank_database = \<lparr>db_tables = [], db_format = [], db_extras = False, db_revisions = [], db_heads = []\<rparr>"

definition first_revision :: revision where
  "first_revision = \<lparr>rv_stream = ''run'', rv_identity = ''one'', rv_predecessor = None, rv_schema = ''event'',
     rv_content = ''digest'', rv_payload = ''{}''\<rparr>"

definition first_commit :: commit where
  "first_commit = \<lparr>cm_expected = None, cm_candidate = first_revision, cm_idempotency = ''start''\<rparr>"

lemma first_ok: "revision_ok first_revision" "commit_ok first_commit"
  by (simp_all add: revision_ok_def commit_ok_def first_commit_def first_revision_def bounded_def py_len_def
      max_identifier_characters_def)

lemma sqlite_implements_log_witness:
  "\<exists>d'. sqlite_commit works 100 first_commit blank_database =
     (Inr (spec_commit_result first_commit Appended), d') \<and> stores 100 d' [(first_revision, ''start'')]"
proof -
  have st: "stores 100 blank_database []" by (rule fresh_stores) (simp_all add: blank_database_def)
  obtain x d' where x: "sqlite_commit works 100 first_commit blank_database = (x, d')" by fastforce
  have "spec_commit first_commit [] = (Appended, [(first_revision, ''start'')])"
    by (simp add: spec_commit_def first_commit_def first_revision_def head_identity_log stream_log_def find_revision_def)
  moreover have "length (rv_payload (cm_candidate first_commit)) \<le> 100" by (simp add: first_commit_def first_revision_def)
  ultimately show ?thesis using sqlite_implements_log [OF st first_ok(2) x] x by simp
qed

text \<open>A row is what was written.  A row of the revisions table that keeps the envelope digest of a
  written revision is read as that revision with its key or refused: reading it as anything else
  exhibits a SHA-256 collision of two envelopes.\<close>

lemma tampered_revision_refused:
  assumes "revision_from_row row maximum = Inr (q, l)" "last row = CellBlob (envelope_digest r k)"
    and "envelope_small r k" "envelope_small q l"
  shows "(q, l) = (r, k) \<or> sha256_collision (envelope_text q l) (envelope_text r k)"
  by (rule tampered_row_refused [OF assms])

lemma tampered_revision_refused_witness:
  "\<exists>row. revision_from_row row 100 = Inr (first_revision, ''start'') \<and>
     last row = CellBlob (envelope_digest first_revision ''start'') \<and>
     ((first_revision, ''start'') = (first_revision, ''start'') \<or>
      sha256_collision (envelope_text first_revision ''start'') (envelope_text first_revision ''start''))"
proof -
  have "identifier_ok ''start''" by (simp add: bounded_def py_len_def max_identifier_characters_def)
  with row_round_trip [OF first_ok(1)]
  have row: "revision_from_row (row_of (first_revision, ''start'')) 100 = Inr (first_revision, ''start'')"
    by (simp add: first_revision_def)
  have last: "last (row_of (first_revision, ''start'')) = CellBlob (envelope_digest first_revision ''start'')"
    by (simp add: row_of_def)
  have small: "envelope_small first_revision ''start''"
    by (simp add: envelope_small_def first_revision_def frameable_def)
  from tampered_revision_refused [OF row last small small] row last show ?thesis by blast
qed

section \<open>Texts\<close>

text \<open>C9: Events and their bytes correspond.  A well-formed event is decoded from the bytes it is encoded
  as; bytes are decoded only when they are UTF-8 and exactly the encoding of the event they yield,
  which satisfies every check of the constructor; and two valid events with equal bytes are equal.\<close>

theorem event_bytes_correspond:
  "(event_wf e \<longrightarrow> decode_event (encode_event e) = Inr e) \<and>
   (decode_event payload = Inr f \<longrightarrow> encode_event f = payload \<and> event_ok f \<and> utf8_ok payload) \<and>
   (event_ok e \<and> event_ok f \<and> encode_event e = encode_event f \<longrightarrow> e = f)"
  using decode_encode decode_event_Inr encode_event_inj by blast

lemma event_bytes_correspond_witness:
  "\<exists>e. genesis_event review_start = Inr e \<and> decode_event (encode_event e) = Inr e"
proof -
  obtain e where "genesis_event review_start = Inr e" "event_wf e" by (rule review_genesis)
  then show ?thesis using event_bytes_correspond [of e] by blast
qed

end
