(* ===== verification/Review_Steps.thy ===== *)
theory Review_Steps
  imports Core_Lifecycle Py_Pattern
begin

text \<open>
  What the two review workflows share.  Their adapters end alike: a transition request under the given
  authority, enabling evidence for it, and the transition input of both.  The locale states what one
  such step needs of its fixed parts; its lemmas say that the step is always built and what the
  transition processor then answers.
\<close>

section \<open>Lengths\<close>

lemma hex_char:
  fixes c :: char
  assumes "of_char c \<in> {48..57::nat} \<union> {97..102}"
  shows "c \<in> set ''0123456789abcdef''"
proof -
  define d :: nat where "d = (if of_char c < (58 :: nat) then of_char c - 48 else of_char c - 87)"
  have d: "d < 16" "of_char c = (if d < 10 then 48 + d else 87 + d)"
    using assms by (auto simp: d_def)
  then have "(of_char c :: nat) = of_char (hexd d)" by (simp add: of_char_hexd)
  then have "c = hexd d" by simp
  then show ?thesis using hexd_cases [OF d(1)] by simp
qed

lemma hex64_sha: "hex64 s \<Longrightarrow> sha_spelling s"
proof -
  have a: "of_char c \<in> {48..57::nat} \<union> {97..102} \<Longrightarrow> of_char c div 64 \<noteq> (2 :: nat)" for c :: char by auto
  assume h: "hex64 s"
  then have "filter (\<lambda>c. of_char c div 64 \<noteq> (2 :: nat)) s = s"
    unfolding filter_id_conv using a by (auto simp: hex64_def list_all_iff)
  then show ?thesis using h hex_char by (auto simp: sha_spelling_def py_len_def hex64_def list_all_iff)
qed

lemma identity_text [simp]:
  "s \<noteq> [] \<Longrightarrow> length s \<le> 4096 \<Longrightarrow> core_identity C (PyStr s) = Inr (C s)"
  using py_len_le [of s] by (simp add: core_identity_def max_identity_characters_def)

lemma core_id_text: "s \<noteq> [] \<Longrightarrow> length s \<le> 4096 \<Longrightarrow> core_id s"
  using py_len_le [of s] by (simp add: core_id_def bounded_def max_identity_characters_def)

lemma hex64_length: "hex64 s \<Longrightarrow> s \<noteq> [] \<and> length s = 64"
  by (auto simp: hex64_def)

section \<open>References\<close>

text \<open>A typed reference to a value, as the adapters build them.\<close>

definition value_reference :: "string \<Rightarrow> string \<Rightarrow> string option \<Rightarrow> typed_reference result" where
  "value_reference kind s digest =
     bindr (mk_external_id (PyStr s)) (\<lambda>i.
     mk_typed_reference \<lparr>tr_kind = kind, tr_identity = i, tr_digest = digest\<rparr>)"

definition plain_reference :: "string \<Rightarrow> string \<Rightarrow> string option \<Rightarrow> typed_reference" where
  "plain_reference kind s digest = \<lparr>tr_kind = kind, tr_identity = ExternalId s, tr_digest = digest\<rparr>"

lemma plain_reference_simps [simp]:
  "tr_kind (plain_reference k s d) = k" "tr_identity (plain_reference k s d) = ExternalId s"
  "tr_digest (plain_reference k s d) = d" "reference_key (plain_reference k s d) = (k, s)"
  "plain_reference k s d = plain_reference k' s' d' \<longleftrightarrow> k = k' \<and> s = s' \<and> d = d'"
  by (auto simp: plain_reference_def reference_key_def)

lemma value_reference_plain [simp]:
  assumes "s \<noteq> []" "length s \<le> 4096" "k \<noteq> []" "length k \<le> 64" "\<forall>x \<in> set_option d. hex64 x"
  shows "value_reference k s d = Inr (plain_reference k s d)"
proof -
  have "mk_typed_reference (plain_reference k s d) = Inr (plain_reference k s d)"
    using assms hex64_sha py_len_le [of k]
    by (auto simp: mk_typed_reference_Inr typed_reference_ok_def bounded_def max_string_characters_def)
  then show ?thesis using assms(1,2) by (simp add: value_reference_def mk_external_id_def plain_reference_def)
qed

section \<open>One step\<close>

definition offer :: "workflow \<Rightarrow> run \<Rightarrow> snapshot \<Rightarrow> operation_id \<Rightarrow> typed_reference list \<Rightarrow> decision list \<Rightarrow>
    adapter_id \<Rightarrow> typed_reference list \<Rightarrow> run_status \<Rightarrow> string list \<Rightarrow> actor_id \<Rightarrow> authority \<Rightarrow> idempotency_id \<Rightarrow>
    transition_input result" where
  "offer w r s oper ins ds adapter refs st reasons actor auth idem =
     bindr (create_request (rn_identity r) (ss_identity s) (rn_revision r) oper ins [] ds actor auth idem None) (\<lambda>q.
     bindr (create_evidence adapter (wf_identity w) (rq_identity q) (ss_identity s) AdapterEnabled refs (Some st)
       [] [] reasons) (\<lambda>e.
     mk_transition_input \<lparr>pi_workflow = w, pi_run = r, pi_prior = s, pi_request = q, ti_evidence = Some e,
       ti_failure = None\<rparr>))"

text \<open>A run that is still open, in agreement with its state, with bounded identities.\<close>

definition open_run :: "workflow \<Rightarrow> run \<Rightarrow> snapshot \<Rightarrow> bool" where
  "open_run w r s \<longleftrightarrow> run_ok r \<and> snapshot_ok s \<and> run_state_agree r s \<and> rn_workflow r = wf_identity w \<and>
     \<not> is_terminal (rn_status r) \<and> core_id (subject_value (rn_subject r)) \<and> printable (rn_revision r) \<and>
     rn_artifacts r = [] \<and> rn_decisions r = []"

text \<open>An authority reference of the core, and whether it covers a step.\<close>

definition authority_wf :: "authority \<Rightarrow> bool" where
  "authority_wf a \<longleftrightarrow> authority_ok a \<and> core_id (subject_value (au_subject a))"

definition covers :: "authority \<Rightarrow> subject_id \<Rightarrow> operation_id \<Rightarrow> bool" where
  "covers a subject oper \<longleftrightarrow> au_subject a = subject \<and> oper \<in> set (au_operations a)"

locale review_step =
  fixes w :: workflow and oper :: operation_id and ins :: "'p \<Rightarrow> typed_reference list"
    and refs :: "'p \<Rightarrow> typed_reference list"
  assumes definition_ok: "workflow_ok w" "core_id (workflow_value (wf_identity w))"
    and operation: "oper \<in> set (wf_operations w)" "core_id (operation_value oper)"
    and inputs: "distinct (map reference_key (ins p))" "length (ins p) \<le> 256"
    and successors: "canonical reference_key (refs p)" "length (refs p) \<le> 1024"
begin

lemma offer_result:
  assumes "0 \<le> rn_revision r" "length ds \<le> 1" "reasons_ok reasons" "reasons \<noteq> []"
  obtains q e where "offer w r s oper (ins p) ds adapter (refs p) st reasons actor auth idem =
      Inr \<lparr>pi_workflow = w, pi_run = r, pi_prior = s, pi_request = q, ti_evidence = Some e, ti_failure = None\<rparr>"
    "request_ok q" "evidence_ok e" "rq_run q = rn_identity r" "rq_prior q = ss_identity s" "rq_revision q = rn_revision r"
    "rq_operation q = oper" "rq_artifacts q = []" "rq_decisions q = ds" "rq_authority q = auth" "rq_bounds q = default_bounds"
    "ev_workflow e = wf_identity w" "ev_request e = rq_identity q" "ev_prior e = ss_identity s"
    "ev_disposition e = AdapterEnabled" "ev_references e = refs p" "ev_status e = Some st" "ev_artifacts e = []"
    "ev_decisions e = []" "ev_reasons e = reasons" "rq_inputs q = ins p" "rq_actor q = actor" "rq_idempotency q = idem"
proof -
  define q where "q = \<lparr>rq_identity = transition_request_identity (rn_identity r) (ss_identity s) (rn_revision r) oper (ins p) [] ds
      actor auth idem default_bounds, rq_run = rn_identity r, rq_prior = ss_identity s, rq_revision = rn_revision r,
      rq_operation = oper, rq_inputs = ins p, rq_artifacts = [], rq_decisions = ds, rq_actor = actor, rq_authority = auth,
      rq_idempotency = idem, rq_bounds = default_bounds, rq_version = core_version\<rparr>"
  have ds: "decisions_ok ds" using assms(2)
    by (cases ds) (auto simp: decisions_ok_def max_decision_references_def canonical_def)
  then have c: "request_collections_ok (ins p) [] ds default_bounds"
    using inputs [of p] assms(2) by (simp add: request_collections_ok_def default_bounds_def)
  have q: "request_ok q" using c assms(1) by (simp add: request_ok_def q_def)
  have cq: "create_request (rn_identity r) (ss_identity s) (rn_revision r) oper (ins p) [] ds actor auth idem None = Inr q"
    unfolding create_request_def Let_def option.case validate_request_collections_Inr mk_request_Inr q_def [symmetric]
    using c q by simp
  define e where "e = \<lparr>ev_identity = adapter_evidence_identity adapter (wf_identity w) (rq_identity q) (ss_identity s)
      AdapterEnabled (refs p) (Some st) [] [] reasons, ev_adapter = adapter, ev_workflow = wf_identity w,
      ev_request = rq_identity q, ev_prior = ss_identity s, ev_disposition = AdapterEnabled, ev_references = refs p,
      ev_status = Some st, ev_artifacts = [], ev_decisions = [], ev_reasons = reasons, ev_version = core_version\<rparr>"
  have ro: "references_ok (refs p)" using successors [of p] by (simp add: references_ok_def max_state_references_def)
  have e: "evidence_ok e"
    using ro assms(3,4) by (simp add: e_def evidence_ok_def artifacts_ok_def decisions_ok_def canonical_def)
  have ce: "create_evidence adapter (wf_identity w) (rq_identity q) (ss_identity s) AdapterEnabled (refs p) (Some st)
      [] [] reasons = Inr e"
    unfolding create_evidence_def
    using references_fixed [THEN iffD2, OF ro] artifacts_fixed [of "[]"] decisions_fixed [of "[]"] assms(3)
      mk_evidence_Inr [of e e] e
    by (simp add: e_def artifacts_ok_def decisions_ok_def canonical_def validate_reasons_Inr)
  show ?thesis
    by (rule that [of q e])
      (use q e cq ce in \<open>simp_all add: offer_def mk_transition_input_def\<close>, simp_all add: q_def e_def)
qed

text \<open>
  The processor applies the step exactly under an authority that covers it; otherwise it rejects the
  request.  At most one decision accompanies a step, so no identities can collide.
\<close>

lemma offer_processed:
  assumes r: "open_run w r s" and ds: "length ds \<le> 1" "\<forall>d \<in> set ds. decision_ids_ok d \<and> dr_subject d = rn_subject r"
    and rs: "reasons_ok reasons" "reasons \<noteq> []" and auth: "authority_wf auth"
  obtains i x where "offer w r s oper (ins p) ds adapter (refs p) st reasons actor auth idem = Inr i"
    "process i = Inr x" "execution_of i x" "pi_workflow i = w" "pi_run i = r" "pi_prior i = s"
    "\<And>e. ti_evidence i = Some e \<Longrightarrow> evidence_ok e"
    "tx_kind (ex_outcome x) = (if covers auth (rn_subject r) oper then OutApplied else OutRejectedInvalid)"
    "covers auth (rn_subject r) oper \<Longrightarrow> \<exists>s' r'. tx_state (ex_outcome x) = Some s' \<and> tx_successor (ex_outcome x) = Some r' \<and>
      snapshot_ok s' \<and> run_ok r' \<and> run_state_agree r' s' \<and> ss_references s' = refs p \<and> rn_status r' = st \<and>
      rn_revision r' = rn_revision r + 1 \<and> rn_subject r' = rn_subject r \<and> rn_workflow r' = wf_identity w \<and>
      rn_artifacts r' = [] \<and> rn_decisions r' = ds"
proof -
  have r0: "0 \<le> rn_revision r" using r by (simp add: open_run_def run_ok_def)
  obtain q e where b: "offer w r s oper (ins p) ds adapter (refs p) st reasons actor auth idem =
      Inr \<lparr>pi_workflow = w, pi_run = r, pi_prior = s, pi_request = q, ti_evidence = Some e, ti_failure = None\<rparr>"
    and q: "request_ok q" "rq_run q = rn_identity r" "rq_prior q = ss_identity s" "rq_revision q = rn_revision r"
    "rq_operation q = oper" "rq_artifacts q = []" "rq_decisions q = ds" "rq_authority q = auth" "rq_bounds q = default_bounds"
    and e: "evidence_ok e" "ev_workflow e = wf_identity w" "ev_request e = rq_identity q" "ev_prior e = ss_identity s"
    "ev_disposition e = AdapterEnabled" "ev_references e = refs p" "ev_status e = Some st" "ev_artifacts e = []"
    "ev_decisions e = []"
    by (rule offer_result [OF r0 ds(1) rs]) blast
  define i where "i = \<lparr>pi_workflow = w, pi_run = r, pi_prior = s, pi_request = q, ti_evidence = Some e, ti_failure = None\<rparr>"
  have i [simp]: "pi_workflow i = w" "pi_run i = r" "pi_prior i = s" "pi_request i = q" "ti_evidence i = Some e" "ti_failure i = None"
    by (simp_all add: i_def)
  have r_ids: "core_id (run_value (rn_identity r))" "core_id (state_value (ss_identity s))"
    using r by (auto simp: open_run_def run_ok_def run_digest_def snapshot_ok_def state_snapshot_identity_def core_id_digest)
  have agree: "run_state_agree r s" "rn_workflow r = wf_identity w" using r by (simp_all add: open_run_def)
  have bounds: "bounds_ok default_bounds"
    by (simp add: bounds_ok_def bound_ok_def default_bounds_def max_input_references_def max_artifact_references_def
        max_decision_references_def max_state_references_def)
  have ok: "input_ok i"
    using r agree r_ids q e(1,8,9) ds definition_ok operation auth bounds
    by (auto simp: input_ok_def preflight_ok_def open_run_def authority_wf_def run_state_agree_def)
  have arts: "all_artifacts i e = {}" "all_decisions i e = set ds"
    using r q e by (simp_all add: all_artifacts_def all_decisions_def open_run_def)
  have "c = d" if "c \<in> set ds" "d \<in> set ds" for c d using that ds(1) by (cases ds) auto
  then have nc: "\<not> colliding i" using arts by (auto simp: colliding_def sha256_collision_def)
  obtain x where x: "process i = Inr x" "execution_of i x" by (rule process_result [OF ok nc])
  have ra: "records_agree i \<longleftrightarrow> covers auth (rn_subject r) oper"
    using r agree q ds operation by (auto simp: records_agree_def Let_def covers_def open_run_def run_state_agree_def)
  have ea: "evidence_agrees i e"
    using e q successors [of p] arts ds(1) card_length [of ds]
    by (simp add: evidence_agrees_def Let_def default_bounds_def max_artifact_references_def max_decision_references_def)
  have v: "verdict i = (if covers auth (rn_subject r) oper then OutApplied else OutRejectedInvalid)"
    using ra ea q e(5) by (simp add: verdict_def inputs_agree_def request_current_def)
  then have k: "tx_kind (ex_outcome x) = (if covers auth (rn_subject r) oper then OutApplied else OutRejectedInvalid)"
    using x(2) by (simp add: execution_of_def Let_def)
  have "\<exists>s' r'. tx_state (ex_outcome x) = Some s' \<and> tx_successor (ex_outcome x) = Some r' \<and>
      snapshot_ok s' \<and> run_ok r' \<and> run_state_agree r' s' \<and> ss_references s' = refs p \<and> rn_status r' = st \<and>
      rn_revision r' = rn_revision r + 1 \<and> rn_subject r' = rn_subject r \<and> rn_workflow r' = wf_identity w \<and>
      rn_artifacts r' = [] \<and> rn_decisions r' = ds" if c: "covers auth (rn_subject r) oper"
  proof -
    obtain s' r' where s: "tx_state (ex_outcome x) = Some s'" "tx_successor (ex_outcome x) = Some r'" "successor_of i e s' r'"
      using x(2) k c by (auto simp: execution_of_def Let_def outcome_effect_def)
    have "distinct (rn_decisions r')" "set (rn_decisions r') = set ds" "set (rn_artifacts r') = {}"
      using s(3) arts by (auto simp: successor_of_def run_ok_def decisions_ok_def canonical_def distinct_map)
    then have "rn_decisions r' = ds \<and> rn_artifacts r' = []"
      using ds(1) by (cases ds; cases "rn_decisions r'"; cases "tl (rn_decisions r')") auto
    then show ?thesis using s agree e(6,7) by (simp add: successor_of_def)
  qed
  then show ?thesis using that [of i x] b x k e(1) by (simp add: i_def [symmetric])
qed

end

end
