(* ===== verification/Course_Review.thy ===== *)
theory Course_Review
  imports Review_Steps
begin

text \<open>
  \<open>course_review/models.py\<close> and \<open>course_review/workflow.py\<close>: the organizer's proposal of a course, the
  run that reviews it, and the adapter that records the course identity as a candidate.  A field that
  the code checks to be a string is a string here.
\<close>

section \<open>Stages and proposals\<close>

datatype course_stage =
  ProposalObserved | CourseIdentityCandidate | SanitizationEvidenceRequired | CourseManualReviewRequired
  | CourseRetained | CourseExcluded

fun course_stage_text :: "course_stage \<Rightarrow> string" where
  "course_stage_text ProposalObserved = ''proposal_observed''"
| "course_stage_text CourseIdentityCandidate = ''course_identity_candidate''"
| "course_stage_text SanitizationEvidenceRequired = ''sanitization_evidence_required''"
| "course_stage_text CourseManualReviewRequired = ''manual_review_required''"
| "course_stage_text CourseRetained = ''reviewed_retained''"
| "course_stage_text CourseExcluded = ''reviewed_excluded''"

definition course_stages :: "course_stage list" where
  "course_stages = [ProposalObserved, CourseIdentityCandidate, SanitizationEvidenceRequired,
     CourseManualReviewRequired, CourseRetained, CourseExcluded]"

definition safe_reference :: "string \<Rightarrow> string \<Rightarrow> 'a result \<Rightarrow> 'a result" where
  "safe_reference s field k = require (identity_grammar s) (field @ '' must be a compact non-path identity'') k"

datatype teaching_id = TeachingId (teaching_value: string)

definition mk_teaching_id :: "string \<Rightarrow> teaching_id result" where
  "mk_teaching_id s = require (hex64 s) ''proposal identity must be 64 lowercase hex'' (Inr (TeachingId s))"

record teaching_proposal =
  tp_id :: teaching_id
  tp_proposal :: string
  tp_proposal_set :: string
  tp_model :: string
  tp_catalog :: string
  tp_course :: string
  tp_metadata :: string
  tp_domain :: string

text \<open>\<open>json.dumps\<close> escapes characters beyond ASCII here; the accepted parts have none.\<close>

definition proposal_identity :: "string list \<Rightarrow> teaching_id result" where
  "proposal_identity parts = mk_teaching_id (sha256_hex (dumps (JObj
     [(''domain'', JStr ''organizer-teaching-proposal:1''),
      (''parts'', JList (map JStr (parts @ [''teaching''])))])))"

definition mk_teaching_proposal :: "teaching_proposal \<Rightarrow> teaching_proposal result" where
  "mk_teaching_proposal p =
     safe_reference (tp_proposal p) ''proposal_identity''
    (safe_reference (tp_proposal_set p) ''proposal_set_identity''
    (safe_reference (tp_model p) ''model_identity''
    (safe_reference (tp_catalog p) ''catalog_revision''
    (safe_reference (tp_course p) ''course_identity''
    (require (hex64 (tp_metadata p)) ''source_metadata_sha256 must be 64 lowercase hex''
    (require (tp_domain p = ''teaching'') ''organizer proposal life_domain must be teaching''
    (bindr (proposal_identity
        [tp_proposal p, tp_proposal_set p, tp_model p, tp_catalog p, tp_course p, tp_metadata p]) (\<lambda>expected.
     require (tp_id p = expected) ''organizer proposal identity is inconsistent'' (Inr p)))))))))"

definition create_teaching_proposal :: "string \<Rightarrow> string \<Rightarrow> string \<Rightarrow> string \<Rightarrow> string \<Rightarrow> string \<Rightarrow>
    teaching_proposal result" where
  "create_teaching_proposal proposal proposal_set model catalog course metadata =
     safe_reference proposal ''proposal_identity''
    (safe_reference proposal_set ''proposal_set_identity''
    (safe_reference model ''model_identity''
    (safe_reference catalog ''catalog_revision''
    (safe_reference course ''course_identity''
    (require (hex64 metadata) ''source_metadata_sha256 must be 64 lowercase hex''
    (bindr (proposal_identity [proposal, proposal_set, model, catalog, course, metadata]) (\<lambda>identity.
     mk_teaching_proposal \<lparr>tp_id = identity, tp_proposal = proposal, tp_proposal_set = proposal_set,
       tp_model = model, tp_catalog = catalog, tp_course = course, tp_metadata = metadata,
       tp_domain = ''teaching''\<rparr>)))))))"

section \<open>The workflow definition\<close>

definition course_contract :: string where "course_contract = ''projectkoios.course-review''"
definition course_contract_version :: string where "course_contract_version = ''0.1.0''"

definition candidate_operation :: operation_id where
  "candidate_operation = OperationId ''record-course-identity-candidate''"

definition course_operations :: "operation_id list" where
  "course_operations = [candidate_operation]"

definition course_definition_digest :: string where
  "course_definition_digest = sha256_hex (dumps (JObj
     [(''contract_id'', JStr course_contract),
      (''contract_version'', JStr course_contract_version),
      (''stages'', JList (map (JStr \<circ> course_stage_text) course_stages)),
      (''operations'', JList (map (JStr \<circ> operation_value) course_operations)),
      (''publication_operation'', JNull)]))"

definition course_definition :: "workflow result" where
  "course_definition =
     create_workflow course_contract course_contract_version course_definition_digest course_operations"

definition course_stage_reference :: "course_stage \<Rightarrow> typed_reference result" where
  "course_stage_reference stage =
     value_reference ''course-review-stage'' (course_stage_text stage) None"

definition proposal_reference :: "teaching_proposal \<Rightarrow> typed_reference result" where
  "proposal_reference p =
     value_reference ''organizer-teaching-proposal'' (teaching_value (tp_id p)) None"

section \<open>Starting a review\<close>

definition course_start :: "teaching_proposal \<Rightarrow> run_start result" where
  "course_start p =
     bindr course_definition (\<lambda>w.
     bindr (mk_subject_id (PyStr (''course:'' @ tp_course p))) (\<lambda>subject.
     bindr (course_stage_reference ProposalObserved) (\<lambda>stage.
     bindr (proposal_reference p) (\<lambda>proposal.
     start_run w subject (''course-review:'' @ tp_course p) [stage, proposal] [] [] None None))))"

section \<open>The candidate adapter\<close>

definition course_inputs :: "teaching_proposal \<Rightarrow> typed_reference list result" where
  "course_inputs p = mapr id
     [value_reference ''course-catalog-revision'' (tp_catalog p) None,
      value_reference ''organizer-model'' (tp_model p) None,
      value_reference ''organizer-proposal-set'' (tp_proposal_set p) None,
      proposal_reference p,
      value_reference ''source-metadata'' (''sha256:'' @ tp_metadata p) (Some (tp_metadata p))]"

definition course_transition_input :: "run_start \<Rightarrow> teaching_proposal \<Rightarrow> actor_id \<Rightarrow> authority \<Rightarrow> idempotency_id \<Rightarrow>
    transition_input result" where
  "course_transition_input started p actor auth idem =
     (let r = st_run started; s = st_state started in
      bindr course_definition (\<lambda>w.
      require (rn_workflow r = wf_identity w) ''run belongs to another workflow definition''
     (bindr (mk_subject_id (PyStr (''course:'' @ tp_course p))) (\<lambda>subject.
      require (rn_subject r = subject) ''proposal course does not match the run subject''
     (bindr (course_stage_reference ProposalObserved) (\<lambda>observed.
      bindr (proposal_reference p) (\<lambda>proposal.
      require (ss_references s = [observed, proposal]) ''run is not at the exact proposal-observed state''
     (bindr (course_inputs p) (\<lambda>inputs.
      bindr (create_request (rn_identity r) (ss_identity s) (rn_revision r) candidate_operation inputs [] []
        actor auth idem None) (\<lambda>q.
      bindr (mk_adapter_id (PyStr ''organizer-course-candidate:0.1.0'')) (\<lambda>adapter.
      bindr (course_stage_reference CourseIdentityCandidate) (\<lambda>candidate.
      bindr (create_evidence adapter (wf_identity w) (rq_identity q) (ss_identity s) AdapterEnabled
        [candidate, proposal] (Some (rn_status r)) [] []
        [''organizer metadata retained as non-authorizing input'']) (\<lambda>e.
      mk_transition_input \<lparr>pi_workflow = w, pi_run = r, pi_prior = s, pi_request = q, ti_evidence = Some e,
        ti_failure = None\<rparr>))))))))))))) "

text \<open>
  The course review at work: its records and its definition are always built, a review starts from
  every valid proposal, and the adapter accepts exactly the run of that proposal.
\<close>

section \<open>Proposals\<close>

definition proposal_text :: "teaching_proposal \<Rightarrow> string" where
  "proposal_text p = stable_text ''organizer-teaching-proposal:1'' (map JStr
     [tp_proposal p, tp_proposal_set p, tp_model p, tp_catalog p, tp_course p, tp_metadata p, ''teaching''])"

definition teaching_proposal_ok :: "teaching_proposal \<Rightarrow> bool" where
  "teaching_proposal_ok p \<longleftrightarrow> identity_grammar (tp_proposal p) \<and> identity_grammar (tp_proposal_set p) \<and>
     identity_grammar (tp_model p) \<and> identity_grammar (tp_catalog p) \<and> identity_grammar (tp_course p) \<and>
     hex64 (tp_metadata p) \<and> tp_domain p = ''teaching'' \<and> tp_id p = TeachingId (sha256_hex (proposal_text p))"

lemma proposal_identity_total:
  "proposal_identity [tp_proposal p, tp_proposal_set p, tp_model p, tp_catalog p, tp_course p, tp_metadata p] =
     Inr (TeachingId (sha256_hex (proposal_text p)))"
  by (simp add: proposal_identity_def mk_teaching_id_def hex64_sha256 proposal_text_def stable_text_def)

lemma mk_teaching_proposal_Inr: "mk_teaching_proposal p = Inr q \<longleftrightarrow> teaching_proposal_ok p \<and> q = p"
  by (auto simp: mk_teaching_proposal_def safe_reference_def teaching_proposal_ok_def proposal_identity_total
      require_Inr_iff)

lemma create_teaching_proposal_Inr:
  "create_teaching_proposal a b c d e f = Inr p \<longleftrightarrow>
     teaching_proposal_ok p \<and> tp_proposal p = a \<and> tp_proposal_set p = b \<and> tp_model p = c \<and> tp_catalog p = d \<and>
     tp_course p = e \<and> tp_metadata p = f" (is "?l \<longleftrightarrow> ?r")
proof -
  let ?p = "\<lambda>i. \<lparr>tp_id = i, tp_proposal = a, tp_proposal_set = b, tp_model = c, tp_catalog = d, tp_course = e,
       tp_metadata = f, tp_domain = ''teaching''\<rparr>"
  have id: "proposal_identity [a, b, c, d, e, f] = Inr (TeachingId (sha256_hex (proposal_text (?p i))))" for i
    using proposal_identity_total [of "?p i"] by simp
  have t: "proposal_text (?p i) = proposal_text (?p j)" for i j by (simp add: proposal_text_def)
  show ?thesis
  proof
    assume ?l
    then show ?r
      by (auto simp: create_teaching_proposal_def safe_reference_def require_Inr_iff bindr_Inr_iff mk_teaching_proposal_Inr)
  next
    assume r: ?r
    then have p: "p = ?p (tp_id p)" by (simp add: teaching_proposal_ok_def)
    have "tp_id p = TeachingId (sha256_hex (proposal_text p))" using r by (simp add: teaching_proposal_ok_def)
    then have i: "proposal_identity [a, b, c, d, e, f] = Inr (tp_id p)" using id [of "tp_id p"] p by metis
    have m: "mk_teaching_proposal (?p (tp_id p)) = Inr p" using r p mk_teaching_proposal_Inr [of p p] by simp
    have "identity_grammar a \<and> identity_grammar b \<and> identity_grammar c \<and> identity_grammar d \<and> identity_grammar e \<and> hex64 f"
      using r by (auto simp: teaching_proposal_ok_def)
    then show ?l by (simp add: create_teaching_proposal_def safe_reference_def i m)
  qed
qed

lemma proposal_id_inj:
  assumes "teaching_proposal_ok p" "teaching_proposal_ok q" "tp_id p = tp_id q"
  shows "p = q \<or> sha256_collision (proposal_text p) (proposal_text q)"
proof (cases "proposal_text p = proposal_text q")
  case True
  then have "p = q"
    using stable_text_eqD [OF True [unfolded proposal_text_def]] assms by (simp add: teaching_proposal_ok_def)
  then show ?thesis ..
next
  case False
  then show ?thesis using assms by (simp add: teaching_proposal_ok_def sha256_collision_def)
qed

section \<open>The definition\<close>

definition course_workflow :: workflow where
  "course_workflow =
     \<lparr>wf_identity = workflow_reference_identity course_contract course_contract_version course_definition_digest
        course_operations,
      wf_contract = course_contract, wf_definition_version = course_contract_version,
      wf_digest = course_definition_digest, wf_operations = course_operations, wf_version = core_version\<rparr>"

lemma course_workflow_ok: "workflow_ok course_workflow"
  by (auto simp: workflow_ok_def course_workflow_def course_contract_def course_contract_version_def
      course_definition_digest_def hex64_sha hex64_sha256 operations_ok_def course_operations_def canonical_def
      max_operations_def bounded_def max_string_characters_def py_len_def)

lemma course_definition_total [simp]: "course_definition = Inr course_workflow"
proof -
  have "canonical_operations ''definition operations'' course_operations max_operations = Inr course_operations"
    unfolding operations_fixed using course_workflow_ok by (simp add: workflow_ok_def course_workflow_def)
  then show ?thesis
    using mk_workflow_Inr [of course_workflow course_workflow] course_workflow_ok
    by (simp add: course_definition_def create_workflow_def course_workflow_def [symmetric])
qed

section \<open>The states of a review\<close>

definition course_subject :: "teaching_proposal \<Rightarrow> subject_id" where
  "course_subject p = SubjectId (''course:'' @ tp_course p)"

definition course_state :: "course_stage \<Rightarrow> teaching_proposal \<Rightarrow> typed_reference list" where
  "course_state stage p =
     [plain_reference ''course-review-stage'' (course_stage_text stage) None,
      plain_reference ''organizer-teaching-proposal'' (teaching_value (tp_id p)) None]"

definition course_input_refs :: "teaching_proposal \<Rightarrow> typed_reference list" where
  "course_input_refs p =
     [plain_reference ''course-catalog-revision'' (tp_catalog p) None,
      plain_reference ''organizer-model'' (tp_model p) None,
      plain_reference ''organizer-proposal-set'' (tp_proposal_set p) None,
      plain_reference ''organizer-teaching-proposal'' (teaching_value (tp_id p)) None,
      plain_reference ''source-metadata'' (''sha256:'' @ tp_metadata p) (Some (tp_metadata p))]"

lemma kind_order: "(''course-review-stage'' :: string) \<le> ''organizer-teaching-proposal''" by code_simp

interpretation course_candidate: review_step course_workflow candidate_operation course_input_refs
    "course_state CourseIdentityCandidate"
proof unfold_locales
  show "workflow_ok course_workflow" by (rule course_workflow_ok)
  show "core_id (workflow_value (wf_identity course_workflow))"
    by (simp add: course_workflow_def workflow_reference_identity_def core_id_digest)
  show "core_id (operation_value candidate_operation)" by (simp add: candidate_operation_def core_id_text)
  show "canonical reference_key (course_state CourseIdentityCandidate p)" for p
    using kind_order by (simp add: canonical_def course_state_def del: Cons_le_Cons)
qed (simp_all add: course_workflow_def course_operations_def course_input_refs_def course_state_def)

lemma stage_reference_total [simp]:
  "course_stage_reference stage = Inr (plain_reference ''course-review-stage'' (course_stage_text stage) None)"
  by (cases stage) (simp_all add: course_stage_reference_def)

lemma proposal_parts:
  assumes "teaching_proposal_ok p"
  shows "proposal_reference p = Inr (plain_reference ''organizer-teaching-proposal'' (teaching_value (tp_id p)) None)"
    "mk_subject_id (PyStr (''course:'' @ tp_course p)) = Inr (course_subject p)"
    "course_inputs p = Inr (course_input_refs p)" "core_id (subject_value (course_subject p))"
proof -
  have l: "s \<noteq> [] \<and> length s \<le> 512" if "s \<in> {tp_catalog p, tp_model p, tp_proposal_set p, tp_course p}" for s
    using assms identity_grammar_length that by (auto simp: teaching_proposal_ok_def)
  have i: "hex64 (teaching_value (tp_id p))" using assms by (simp add: teaching_proposal_ok_def hex64_sha256)
  have m: "hex64 (tp_metadata p)" using assms by (simp add: teaching_proposal_ok_def)
  show *: "proposal_reference p = Inr (plain_reference ''organizer-teaching-proposal'' (teaching_value (tp_id p)) None)"
    using hex64_length [OF i] by (simp add: proposal_reference_def)
  show "mk_subject_id (PyStr (''course:'' @ tp_course p)) = Inr (course_subject p)"
    using l [of "tp_course p"] by (simp add: mk_subject_id_def course_subject_def)
  show "course_inputs p = Inr (course_input_refs p)"
    using l [of "tp_catalog p"] l [of "tp_model p"] l [of "tp_proposal_set p"] hex64_length [OF m] m
    by (simp add: course_inputs_def * course_input_refs_def)
  show "core_id (subject_value (course_subject p))"
    using l [of "tp_course p"] by (simp add: course_subject_def core_id_text)
qed

section \<open>Starting\<close>

lemma course_start_total:
  assumes "teaching_proposal_ok p"
  obtains x where "course_start p = Inr x" "open_run course_workflow (st_run x) (st_state x)"
    "ss_references (st_state x) = course_state ProposalObserved p" "rn_subject (st_run x) = course_subject p"
    "rn_revision (st_run x) = 0" "rn_status (st_run x) = RunActive" "rn_key (st_run x) = ''course-review:'' @ tp_course p"
proof -
  have l: "tp_course p \<noteq> [] \<and> length (tp_course p) \<le> 512"
    using assms identity_grammar_length by (simp add: teaching_proposal_ok_def)
  let ?key = "''course-review:'' @ tp_course p" and ?refs = "course_state ProposalObserved p"
  have c: "canonical reference_key ?refs"
    using kind_order by (simp add: canonical_def course_state_def del: Cons_le_Cons)
  have "startable (course_subject p) ?key ?refs [] []"
    using l py_len_le [of ?key] c by (simp add: startable_def bounded_def max_string_characters_def course_state_def
        max_state_references_def canonical_def)
  then obtain x where x: "start_run course_workflow (course_subject p) ?key ?refs [] [] None None = Inr x"
    by (rule start_run_total)
  have s: "course_start p = Inr x"
    using x by (simp add: course_start_def proposal_parts [OF assms] proposal_parts(2) [OF assms, simplified]
        course_state_def)
  note st = start_run_Inr [OF x]
  have "ss_references (st_state x) = ?refs"
    using st c canonical_unique [of reference_key "ss_references (st_state x)" ?refs] mset_eq_setD
    by (simp add: snapshot_ok_def references_ok_def) blast
  moreover have "open_run course_workflow (st_run x) (st_state x)"
    using st proposal_parts(4) [OF assms] by (simp add: open_run_def is_terminal_def printable_def dec_int_def dec_nat.simps)
  ultimately show ?thesis using that s st by simp
qed

section \<open>The candidate step\<close>

definition at_proposal :: "run_start \<Rightarrow> teaching_proposal \<Rightarrow> bool" where
  "at_proposal x p \<longleftrightarrow> rn_workflow (st_run x) = wf_identity course_workflow \<and> rn_subject (st_run x) = course_subject p \<and>
     ss_references (st_state x) = course_state ProposalObserved p"

definition candidate_offer :: "run_start \<Rightarrow> teaching_proposal \<Rightarrow> actor_id \<Rightarrow> authority \<Rightarrow> idempotency_id \<Rightarrow>
    transition_input result" where
  "candidate_offer x p = offer course_workflow (st_run x) (st_state x) candidate_operation (course_input_refs p) []
     (AdapterId ''organizer-course-candidate:0.1.0'') (course_state CourseIdentityCandidate p) (rn_status (st_run x))
     [''organizer metadata retained as non-authorizing input'']"

lemma course_transition_input_offer:
  assumes "teaching_proposal_ok p"
  shows "course_transition_input x p actor auth idem =
    require (rn_workflow (st_run x) = wf_identity course_workflow) ''run belongs to another workflow definition''
   (require (rn_subject (st_run x) = course_subject p) ''proposal course does not match the run subject''
   (require (ss_references (st_state x) = course_state ProposalObserved p) ''run is not at the exact proposal-observed state''
     (candidate_offer x p actor auth idem)))"
  unfolding course_transition_input_def Let_def candidate_offer_def offer_def
  by (simp add: proposal_parts [OF assms] proposal_parts(2) [OF assms, simplified] mk_adapter_id_def)
    (simp add: course_state_def)

lemma candidate_reasons: "reasons_ok [''organizer metadata retained as non-authorizing input'']"
  by (simp add: reasons_ok_def string_tuple_ok_def max_state_references_def max_reasons_def bounded_def
      max_message_characters_def py_len_def)

lemma course_transition_accepts:
  assumes "teaching_proposal_ok p" "0 \<le> rn_revision (st_run x)"
  shows "(\<exists>i. course_transition_input x p actor auth idem = Inr i) \<longleftrightarrow> at_proposal x p"
proof -
  obtain i where "candidate_offer x p actor auth idem = Inr i"
    unfolding candidate_offer_def by (rule course_candidate.offer_result [OF assms(2) _ candidate_reasons]) auto
  then show ?thesis
    by (auto simp: course_transition_input_offer [OF assms(1)] at_proposal_def require_Inr_iff)
qed

lemma course_transition_InrD:
  assumes "course_transition_input x p actor auth idem = Inr i" "teaching_proposal_ok p" "0 \<le> rn_revision (st_run x)"
  obtains e where "at_proposal x p" "pi_workflow i = course_workflow" "pi_run i = st_run x" "pi_prior i = st_state x"
    "ti_evidence i = Some e" "evidence_ok e" "ev_references e = course_state CourseIdentityCandidate p"
    "ev_status e = Some (rn_status (st_run x))"
proof -
  have a: "at_proposal x p" using course_transition_accepts [OF assms(2,3)] assms(1) by blast
  have o: "candidate_offer x p actor auth idem = Inr i"
    using assms(1) by (simp add: course_transition_input_offer [OF assms(2)] require_Inr_iff)
  show ?thesis
    by (rule course_candidate.offer_result [OF assms(3), of "[]" "[''organizer metadata retained as non-authorizing input'']"
          "st_state x" p "AdapterId ''organizer-course-candidate:0.1.0''" "rn_status (st_run x)" actor auth idem])
      (use o a that candidate_reasons in \<open>auto simp: candidate_offer_def\<close>)
qed

section \<open>Histories\<close>

text \<open>The runs and states that the starter, the adapter and the processor produce, latest first.\<close>

inductive course_history :: "teaching_proposal \<Rightarrow> (run \<times> snapshot) list \<Rightarrow> bool" for p where
  course_started: "course_start p = Inr x \<Longrightarrow> course_history p [(st_run x, st_state x)]"
| course_stepped:
    "course_history p ((r, s) # h) \<Longrightarrow> mk_run_start r s = Inr x \<Longrightarrow> teaching_proposal_ok q \<Longrightarrow>
     course_transition_input x q actor auth idem = Inr i \<Longrightarrow> process i = Inr e \<Longrightarrow>
     tx_successor (ex_outcome e) = Some r' \<Longrightarrow> tx_state (ex_outcome e) = Some s' \<Longrightarrow>
     course_history p ((r', s') # (r, s) # h)"

lemma course_state_eq: "course_state a p = course_state b q \<longleftrightarrow> a = b \<and> tp_id p = tp_id q"
  by (cases a; cases b) (auto simp: course_state_def intro: teaching_id.expand)

lemma course_history_shape:
  assumes "course_history p h" "teaching_proposal_ok p"
  shows "run_history course_workflow (course_subject p) h \<and> length h \<le> 2 \<and> (\<forall>x \<in> set h. rn_status (fst x) = RunActive) \<and>
    map (ss_references \<circ> snd) h = rev (take (length h) [course_state ProposalObserved p, course_state CourseIdentityCandidate p])"
  using assms(1)
proof induction
  case (course_started x)
  obtain y where y: "course_start p = Inr y" "ss_references (st_state y) = course_state ProposalObserved p"
      "rn_status (st_run y) = RunActive"
    by (rule course_start_total [OF assms(2)])
  have "start_run course_workflow (course_subject p) (''course-review:'' @ tp_course p) (course_state ProposalObserved p)
      [] [] None None = Inr x"
    using course_started by (simp add: course_start_def proposal_parts [OF assms(2)]
        proposal_parts(2) [OF assms(2), simplified] course_state_def)
  from history_start [OF this] show ?case using y course_started by simp
next
  case (course_stepped r s h x q actor auth idem i e r' s')
  have x: "st_run x = r" "st_state x = s" using course_stepped.hyps by (auto simp: mk_run_start_def require_Inr_iff)
  have rh: "run_history course_workflow (course_subject p) ((r, s) # h)" using course_stepped.IH by blast
  have r0: "0 \<le> rn_revision (st_run x)"
    using run_history_invariant [OF rh] x by (auto simp: entry_ok_def run_ok_def)
  obtain ev where ev: "at_proposal x q" "pi_workflow i = course_workflow" "pi_run i = r" "pi_prior i = s"
    "ti_evidence i = Some ev" "evidence_ok ev" "ev_references ev = course_state CourseIdentityCandidate q"
    "ev_status ev = Some (rn_status r)"
    using course_transition_InrD [OF course_stepped.hyps(4,3) r0] x by metis
  have h: "h = []" "tp_id q = tp_id p"
  proof -
    have s: "ss_references s = course_state ProposalObserved q" using ev(1) x by (simp add: at_proposal_def)
    have "h = [] \<or> (\<exists>y. h = [y] \<and> ss_references s = course_state CourseIdentityCandidate p)"
      using course_stepped.IH by (cases h; cases "tl h") auto
    then show "h = []" using s by (auto simp: course_state_eq)
    then have "ss_references s = course_state ProposalObserved p" using course_stepped.IH by simp
    then show "tp_id q = tp_id p" using s by (simp add: course_state_eq)
  qed
  obtain f t where f: "ti_evidence i = Some f" "tx_state (ex_outcome e) = Some t" "successor_of i f t r'"
    by (rule process_applied [OF course_stepped.hyps(5,6)]) (use ev in auto)
  have "course_state CourseIdentityCandidate q = course_state CourseIdentityCandidate p"
    using h(2) by (simp add: course_state_eq)
  then have s': "ss_references s' = course_state CourseIdentityCandidate p" "rn_status r' = RunActive"
    using f ev course_stepped.hyps(7) course_stepped.IH by (auto simp: successor_of_def)
  moreover have "run_history course_workflow (course_subject p) ((r', s') # (r, s) # h)"
    by (rule history_apply [OF rh ev(2-4) _ course_stepped.hyps(5-7)]) (use ev in auto)
  ultimately show ?case using course_stepped.IH h by simp
qed

section \<open>The candidate is reached\<close>

lemma course_candidate_step:
  assumes p: "teaching_proposal_ok p" and auth: "authority_wf auth"
  obtains x i e where "course_start p = Inr x" "course_transition_input x p actor auth idem = Inr i" "process i = Inr e"
    "if covers auth (course_subject p) candidate_operation
     then \<exists>s r. tx_kind (ex_outcome e) = OutApplied \<and> tx_state (ex_outcome e) = Some s \<and> tx_successor (ex_outcome e) = Some r \<and>
       ss_references s = course_state CourseIdentityCandidate p \<and> rn_status r = RunActive \<and> rn_revision r = 1
     else tx_kind (ex_outcome e) = OutRejectedInvalid \<and> tx_successor (ex_outcome e) = None"
proof -
  obtain x where x: "course_start p = Inr x" "open_run course_workflow (st_run x) (st_state x)"
    "ss_references (st_state x) = course_state ProposalObserved p" "rn_subject (st_run x) = course_subject p"
    "rn_revision (st_run x) = 0" "rn_status (st_run x) = RunActive"
    by (rule course_start_total [OF p])
  let ?reasons = "[''organizer metadata retained as non-authorizing input'']"
  obtain i e where i: "candidate_offer x p actor auth idem = Inr i" "process i = Inr e" "execution_of i e"
    "tx_kind (ex_outcome e) = (if covers auth (rn_subject (st_run x)) candidate_operation then OutApplied else OutRejectedInvalid)"
    "covers auth (rn_subject (st_run x)) candidate_operation \<Longrightarrow> \<exists>s' r'. tx_state (ex_outcome e) = Some s' \<and>
      tx_successor (ex_outcome e) = Some r' \<and> snapshot_ok s' \<and> run_ok r' \<and> run_state_agree r' s' \<and>
      ss_references s' = course_state CourseIdentityCandidate p \<and> rn_status r' = rn_status (st_run x) \<and>
      rn_revision r' = rn_revision (st_run x) + 1 \<and> rn_subject r' = rn_subject (st_run x) \<and>
      rn_workflow r' = wf_identity course_workflow \<and> rn_artifacts r' = [] \<and> rn_decisions r' = []"
    unfolding candidate_offer_def
    by (rule course_candidate.offer_processed [OF x(2), of "[]" ?reasons auth]) (use candidate_reasons auth in auto)
  have wf: "rn_workflow (st_run x) = wf_identity course_workflow" using x(2) by (simp add: open_run_def)
  have ti: "course_transition_input x p actor auth idem = Inr i"
    using i(1) x wf by (simp add: course_transition_input_offer [OF p])
  have none: "tx_kind (ex_outcome e) = OutRejectedInvalid \<Longrightarrow> tx_successor (ex_outcome e) = None"
    using i(3) by (simp add: execution_of_def Let_def outcome_effect_def)
  show ?thesis
    by (rule that [OF x(1) ti i(2)]) (use i(4,5) x(4-6) none in auto)
qed

end
