(* ===== verification/Reference_Review.thy ===== *)
theory Reference_Review
  imports Review_Steps
begin

text \<open>
  \<open>reference_review/models.py\<close>: references to the evidence and to the claim candidates that the
  ingestion service owns.  The integers are Python integers; a field that the code checks to be a
  string or a tuple of strings is one here.
\<close>

section \<open>Contracts and limits\<close>

definition evidence_contract :: string where
  "evidence_contract = ''projectkoios.ingestion.reference-evidence''"
definition evidence_contract_version :: string where "evidence_contract_version = ''0.1.0''"
definition candidate_contract :: string where
  "candidate_contract = ''projectkoios.ingestion.reference-claim-candidate''"
definition candidate_contract_version :: string where "candidate_contract_version = ''0.1.0''"
definition max_source_bytes :: int where "max_source_bytes = 128000000"
definition max_page_bytes :: int where "max_page_bytes = 8000000"
definition max_anchors :: nat where "max_anchors = 32"

definition candidate_limitations :: "string list" where
  "candidate_limitations =
     [''automated_unreviewed'', ''citation_candidate_only'', ''manual_claim_review_required'',
      ''not_claim_support'', ''not_human_proofread'', ''not_publication_suitable'',
      ''not_scientifically_validated'']"

definition record_prefix :: string where "record_prefix = ''reference-evidence-record:sha256:''"
definition blob_prefix :: string where "blob_prefix = ''blob:sha256:''"
definition candidate_prefix :: string where "candidate_prefix = ''reference-claim-candidate:sha256:''"
definition claim_prefix :: string where "claim_prefix = ''research-claim:sha256:''"
definition locator_prefix :: string where "locator_prefix = ''reference-page-locator-result:sha256:''"
definition transcript_prefix :: string where "transcript_prefix = ''clean-transcript-artifact:sha256:''"
definition page_prefix :: string where "page_prefix = ''clean-transcript-page:sha256:''"
definition anchor_prefix :: string where "anchor_prefix = ''reference-topic-anchor:sha256:''"

definition require_sha256 :: "string \<Rightarrow> string \<Rightarrow> 'a result \<Rightarrow> 'a result" where
  "require_sha256 s field k = require (hex64 s) (field @ '' must be 64 lowercase hex'') k"

text \<open>\<open>match is None or match.group(1) != digest\<close>, negated.\<close>

definition blob_binds :: "string \<Rightarrow> string \<Rightarrow> bool" where
  "blob_binds blob digest \<longleftrightarrow> prefixed_digest blob_prefix blob \<and> drop (length blob_prefix) blob = digest"

section \<open>Stages and identities\<close>

datatype reference_stage = EvidenceObserved | ManualClaimReview | ClaimRetained | ClaimExcluded

fun reference_stage_text :: "reference_stage \<Rightarrow> string" where
  "reference_stage_text EvidenceObserved = ''reference_evidence_observed''"
| "reference_stage_text ManualClaimReview = ''manual_claim_review_required''"
| "reference_stage_text ClaimRetained = ''reviewed_retained''"
| "reference_stage_text ClaimExcluded = ''reviewed_excluded''"

definition reference_stages :: "reference_stage list" where
  "reference_stages = [EvidenceObserved, ManualClaimReview, ClaimRetained, ClaimExcluded]"

datatype ingestion_id = IngestionId (ingestion_value: string)
datatype claim_candidate_id = ClaimCandidateId (claim_candidate_value: string)

definition mk_ingestion_id :: "string \<Rightarrow> ingestion_id result" where
  "mk_ingestion_id s = require_sha256 s ''ingestion evidence identity'' (Inr (IngestionId s))"

definition mk_claim_candidate_id :: "string \<Rightarrow> claim_candidate_id result" where
  "mk_claim_candidate_id s = require_sha256 s ''ingestion claim candidate identity'' (Inr (ClaimCandidateId s))"

section \<open>Ingestion evidence\<close>

record ingestion_evidence =
  ie_identity :: ingestion_id
  ie_record :: string
  ie_blob :: string
  ie_source :: string
  ie_length :: int
  ie_media :: string
  ie_extraction :: string
  ie_transcript :: string
  ie_audit :: string
  ie_contract :: string
  ie_version :: string
  ie_completeness :: string
  ie_status :: string

definition evidence_parts :: "string \<Rightarrow> string \<Rightarrow> string \<Rightarrow> int \<Rightarrow> string \<Rightarrow> string \<Rightarrow> string \<Rightarrow> string \<Rightarrow>
    json list result" where
  "evidence_parts record_id blob source len media extraction transcript audit =
     require (prefixed_digest record_prefix record_id) ''record_identity has an invalid identity grammar''
    (require_sha256 source ''source_sha256''
    (require (blob_binds blob source) ''source blob identity must bind source_sha256''
    (require (\<not> (len < 0 \<or> len > max_source_bytes)) ''source_byte_length is outside its bound''
    (require (media_grammar media) ''source_media_type is invalid''
    (require_sha256 extraction ''extraction_artifact_sha256''
    (require_sha256 transcript ''transcript_artifact_sha256''
    (require_sha256 audit ''audit_artifact_sha256''
    (Inr [JStr record_id, JStr blob, JStr source, JInt len, JStr media, JStr extraction, JStr transcript, JStr audit,
       JStr evidence_contract, JStr evidence_contract_version, JStr ''complete'', JStr ''automated_unreviewed'']))))))))"

definition ingestion_digest :: "string \<Rightarrow> json list \<Rightarrow> string" where
  "ingestion_digest domain parts = sha256_hex (dumps (JObj [(''domain'', JStr domain), (''parts'', JList parts)]))"

definition mk_ingestion_evidence :: "ingestion_evidence \<Rightarrow> ingestion_evidence result" where
  "mk_ingestion_evidence v =
     require (ie_contract v = evidence_contract) ''unsupported ingestion evidence contract ID''
    (require (ie_version v = evidence_contract_version) ''unsupported ingestion evidence contract version''
    (require (ie_completeness v = ''complete'') ''only complete ingestion evidence is reviewable''
    (require (ie_status v = ''automated_unreviewed'') ''ingestion transcript must remain automated_unreviewed''
    (bindr (evidence_parts (ie_record v) (ie_blob v) (ie_source v) (ie_length v) (ie_media v) (ie_extraction v)
        (ie_transcript v) (ie_audit v)) (\<lambda>parts.
     require (ingestion_value (ie_identity v) = ingestion_digest ''ingestion-reference-evidence-input:1'' parts)
       ''ingestion evidence identity is inconsistent'' (Inr v))))))"

definition create_ingestion_evidence :: "string \<Rightarrow> string \<Rightarrow> string \<Rightarrow> int \<Rightarrow> string \<Rightarrow> string \<Rightarrow> string \<Rightarrow> string \<Rightarrow>
    ingestion_evidence result" where
  "create_ingestion_evidence record_id blob source len media extraction transcript audit =
     bindr (evidence_parts record_id blob source len media extraction transcript audit) (\<lambda>parts.
     bindr (mk_ingestion_id (ingestion_digest ''ingestion-reference-evidence-input:1'' parts)) (\<lambda>identity.
     mk_ingestion_evidence
       \<lparr>ie_identity = identity, ie_record = record_id, ie_blob = blob, ie_source = source, ie_length = len,
        ie_media = media, ie_extraction = extraction, ie_transcript = transcript, ie_audit = audit,
        ie_contract = evidence_contract, ie_version = evidence_contract_version, ie_completeness = ''complete'',
        ie_status = ''automated_unreviewed''\<rparr>))"

section \<open>Claim candidates\<close>

record claim_candidate =
  cc_identity :: claim_candidate_id
  cc_candidate :: string
  cc_claim :: string
  cc_record :: string
  cc_locator :: string
  cc_blob :: string
  cc_source :: string
  cc_transcript :: string
  cc_page :: string
  cc_page_index :: int
  cc_page_digest :: string
  cc_page_length :: int
  cc_anchors :: "string list"
  cc_contract :: string
  cc_version :: string
  cc_status :: string
  cc_limitations :: "string list"

definition anchors_bounded :: "string list \<Rightarrow> bool" where
  "anchors_bounded anchors \<longleftrightarrow>
     \<not> (anchors = [] \<or> anchors \<noteq> sort anchors \<or> \<not> distinct anchors \<or> length anchors > max_anchors \<or>
        list_ex (\<lambda>a. \<not> prefixed_digest anchor_prefix a) anchors)"

definition candidate_parts :: "string \<Rightarrow> string \<Rightarrow> string \<Rightarrow> string \<Rightarrow> string \<Rightarrow> string \<Rightarrow> string \<Rightarrow> string \<Rightarrow>
    int \<Rightarrow> string \<Rightarrow> int \<Rightarrow> string list \<Rightarrow> json list result" where
  "candidate_parts candidate claim record_id locator blob source transcript page index page_digest page_len anchors =
     require (prefixed_digest candidate_prefix candidate) ''candidate_identity has an invalid identity grammar''
    (require (prefixed_digest claim_prefix claim) ''claim_identity has an invalid identity grammar''
    (require (prefixed_digest record_prefix record_id)
      ''reference_evidence_record_identity has an invalid identity grammar''
    (require (prefixed_digest locator_prefix locator) ''locator_result_identity has an invalid identity grammar''
    (require (prefixed_digest transcript_prefix transcript) ''transcript_identity has an invalid identity grammar''
    (require (prefixed_digest page_prefix page) ''page_identity has an invalid identity grammar''
    (require_sha256 source ''source_sha256''
    (require (blob_binds blob source) ''source blob identity must bind source_sha256''
    (require (\<not> index < 0) ''page_index must be a nonnegative built-in int''
    (require_sha256 page_digest ''page_text_sha256''
    (require (\<not> (page_len < 0 \<or> page_len > max_page_bytes)) ''page text byte length is outside its bound''
    (require (anchors_bounded anchors) ''matched topic anchors must be a bounded identity tuple''
    (Inr [JStr candidate, JStr claim, JStr record_id, JStr locator, JStr blob, JStr source, JStr transcript, JStr page,
       JInt index, JStr page_digest, JInt page_len, JList (map JStr anchors), JStr candidate_contract,
       JStr candidate_contract_version, JStr ''manual_review_required'',
       JList (map JStr candidate_limitations)]))))))))))))"

text \<open>
  The digest of a candidate.  The page index is the one integer without an upper bound, and Python
  prints no integer of more than 4300 digits.
\<close>

definition candidate_digest :: "int \<Rightarrow> json list \<Rightarrow> string result" where
  "candidate_digest index parts =
     require (printable index) ''Exceeds the limit (4300 digits) for integer string conversion''
       (Inr (ingestion_digest ''ingestion-reference-claim-candidate-input:1'' parts))"

definition mk_claim_candidate :: "claim_candidate \<Rightarrow> claim_candidate result" where
  "mk_claim_candidate c =
     require (cc_contract c = candidate_contract) ''unsupported ingestion candidate contract ID''
    (require (cc_version c = candidate_contract_version) ''unsupported ingestion candidate contract version''
    (require (cc_status c = ''manual_review_required'') ''ingestion candidate must require manual review''
    (require (cc_limitations c = candidate_limitations) ''ingestion candidate limitations are incomplete''
    (bindr (candidate_parts (cc_candidate c) (cc_claim c) (cc_record c) (cc_locator c) (cc_blob c) (cc_source c)
        (cc_transcript c) (cc_page c) (cc_page_index c) (cc_page_digest c) (cc_page_length c) (cc_anchors c)) (\<lambda>parts.
     bindr (candidate_digest (cc_page_index c) parts) (\<lambda>expected.
     require (claim_candidate_value (cc_identity c) = expected)
       ''ingestion candidate identity is inconsistent'' (Inr c)))))))"

definition create_claim_candidate :: "string \<Rightarrow> string \<Rightarrow> string \<Rightarrow> string \<Rightarrow> string \<Rightarrow> string \<Rightarrow> string \<Rightarrow> string \<Rightarrow>
    int \<Rightarrow> string \<Rightarrow> int \<Rightarrow> string list \<Rightarrow> claim_candidate result" where
  "create_claim_candidate candidate claim record_id locator blob source transcript page index page_digest page_len anchors =
     bindr (candidate_parts candidate claim record_id locator blob source transcript page index page_digest page_len
       anchors) (\<lambda>parts.
     bindr (candidate_digest index parts) (\<lambda>digest.
     bindr (mk_claim_candidate_id digest) (\<lambda>identity.
     mk_claim_candidate
       \<lparr>cc_identity = identity, cc_candidate = candidate, cc_claim = claim, cc_record = record_id, cc_locator = locator,
        cc_blob = blob, cc_source = source, cc_transcript = transcript, cc_page = page, cc_page_index = index,
        cc_page_digest = page_digest, cc_page_length = page_len, cc_anchors = anchors, cc_contract = candidate_contract,
        cc_version = candidate_contract_version, cc_status = ''manual_review_required'',
        cc_limitations = candidate_limitations\<rparr>)))"

text \<open>
  \<open>reference_review/workflow.py\<close>: the review of one claim candidate against ingestion evidence, from
  the observed evidence over the required manual review to a human decision.
\<close>

section \<open>The workflow definition\<close>

definition reference_contract :: string where "reference_contract = ''projectkoios.reference-review''"
definition reference_contract_version :: string where "reference_contract_version = ''0.2.0''"

definition exclude_operation :: operation_id where
  "exclude_operation = OperationId ''exclude-reviewed-claim''"
definition manual_operation :: operation_id where
  "manual_operation = OperationId ''require-manual-claim-review''"
definition retain_operation :: operation_id where
  "retain_operation = OperationId ''retain-reviewed-claim''"

definition reference_operations :: "operation_id list" where
  "reference_operations = [exclude_operation, manual_operation, retain_operation]"

definition claim_decision_kind :: string where "claim_decision_kind = ''manual-reference-claim-review''"
definition claim_decision_version :: string where "claim_decision_version = ''1''"

definition reference_definition_digest :: string where
  "reference_definition_digest = sha256_hex (dumps (JObj
     [(''contract_id'', JStr reference_contract),
      (''contract_version'', JStr reference_contract_version),
      (''stages'', JList (map (JStr \<circ> reference_stage_text) reference_stages)),
      (''operations'', JList (map (JStr \<circ> operation_value) reference_operations)),
      (''decision_kind'', JStr claim_decision_kind),
      (''decision_version'', JStr claim_decision_version),
      (''claim_support_operation'', JNull),
      (''publication_operation'', JNull)]))"

definition reference_definition :: "workflow result" where
  "reference_definition =
     create_workflow reference_contract reference_contract_version reference_definition_digest reference_operations"

section \<open>References\<close>

definition reference_stage_reference :: "reference_stage \<Rightarrow> typed_reference result" where
  "reference_stage_reference stage = value_reference ''reference-review-stage'' (reference_stage_text stage) None"

definition ingestion_reference :: "ingestion_evidence \<Rightarrow> typed_reference result" where
  "ingestion_reference v = value_reference ''ingestion-reference-evidence'' (ingestion_value (ie_identity v)) None"

definition candidate_reference :: "claim_candidate \<Rightarrow> typed_reference result" where
  "candidate_reference c =
     value_reference ''ingestion-reference-claim-candidate'' (claim_candidate_value (cc_identity c)) None"

definition reference_subject :: "ingestion_evidence \<Rightarrow> subject_id result" where
  "reference_subject v = mk_subject_id (PyStr (''research-source:'' @ ie_source v))"

definition candidate_lineage :: "ingestion_evidence \<Rightarrow> claim_candidate \<Rightarrow> 'a result \<Rightarrow> 'a result" where
  "candidate_lineage v c k =
     require (\<not> (cc_record c \<noteq> ie_record v \<or> cc_blob c \<noteq> ie_blob v \<or> cc_source c \<noteq> ie_source v))
       ''claim candidate does not match ingestion evidence'' k"

definition manual_references :: "ingestion_evidence \<Rightarrow> claim_candidate \<Rightarrow> typed_reference list result" where
  "manual_references v c = mapr id
     [candidate_reference c, ingestion_reference v, reference_stage_reference ManualClaimReview]"

section \<open>Starting a review\<close>

definition reference_start :: "ingestion_evidence \<Rightarrow> run_start result" where
  "reference_start v =
     bindr reference_definition (\<lambda>w.
     bindr (reference_subject v) (\<lambda>subject.
     bindr (ingestion_reference v) (\<lambda>evidence.
     bindr (reference_stage_reference EvidenceObserved) (\<lambda>stage.
     start_run w subject (''reference-review:'' @ ie_record v) [evidence, stage] [] [] None None))))"

section \<open>Requiring the manual review\<close>

definition reference_inputs :: "ingestion_evidence \<Rightarrow> claim_candidate \<Rightarrow> typed_reference list result" where
  "reference_inputs v c = mapr id
     [value_reference ''ingestion-audit-artifact'' (ie_audit v) (Some (ie_audit v)),
      candidate_reference c,
      ingestion_reference v,
      value_reference ''ingestion-extraction-artifact'' (ie_extraction v) (Some (ie_extraction v)),
      value_reference ''ingestion-reference-claim'' (cc_claim c) None,
      value_reference ''ingestion-reference-evidence-record'' (ie_record v) None,
      value_reference ''ingestion-reference-page-locator-result'' (cc_locator c) None,
      value_reference ''ingestion-reference-page'' (cc_page c) (Some (cc_page_digest c)),
      value_reference ''ingestion-source-blob'' (ie_blob v) (Some (ie_source v)),
      value_reference ''ingestion-transcript-artifact'' (ie_transcript v) (Some (ie_transcript v))]"

definition reference_transition_input :: "run_start \<Rightarrow> ingestion_evidence \<Rightarrow> claim_candidate \<Rightarrow> actor_id \<Rightarrow>
    authority \<Rightarrow> idempotency_id \<Rightarrow> transition_input result" where
  "reference_transition_input started v c actor auth idem =
     (let r = st_run started; s = st_state started in
      candidate_lineage v c
     (bindr reference_definition (\<lambda>w.
      require (rn_workflow r = wf_identity w) ''run belongs to another workflow definition''
     (bindr (reference_subject v) (\<lambda>subject.
      require (rn_subject r = subject) ''evidence source does not match the run subject''
     (bindr (ingestion_reference v) (\<lambda>evidence.
      bindr (reference_stage_reference EvidenceObserved) (\<lambda>observed.
      require (ss_references s = [evidence, observed]) ''run is not at the exact evidence-observed state''
     (bindr (reference_inputs v c) (\<lambda>inputs.
      bindr (create_request (rn_identity r) (ss_identity s) (rn_revision r) manual_operation inputs [] []
        actor auth idem None) (\<lambda>q.
      bindr (mk_adapter_id (PyStr ''ingestion-evidence-review:0.2.0'')) (\<lambda>adapter.
      bindr (manual_references v c) (\<lambda>manual.
      bindr (create_evidence adapter (wf_identity w) (rq_identity q) (ss_identity s) AdapterEnabled manual
        (Some (rn_status r)) [] [] [''automated ingestion candidate requires manual claim review'']) (\<lambda>e.
      mk_transition_input \<lparr>pi_workflow = w, pi_run = r, pi_prior = s, pi_request = q, ti_evidence = Some e,
        ti_failure = None\<rparr>))))))))))))))"

section \<open>Recording the decision\<close>

definition claim_outcome :: "string \<Rightarrow> (operation_id \<times> reference_stage) option" where
  "claim_outcome s = map_of
     [(reference_stage_text ClaimExcluded, (exclude_operation, ClaimExcluded)),
      (reference_stage_text ClaimRetained, (retain_operation, ClaimRetained))] s"

definition decision_transition_input :: "run \<Rightarrow> snapshot \<Rightarrow> ingestion_evidence \<Rightarrow> claim_candidate \<Rightarrow> decision \<Rightarrow>
    actor_id \<Rightarrow> authority \<Rightarrow> idempotency_id \<Rightarrow> transition_input result" where
  "decision_transition_input r s v c d actor auth idem =
     candidate_lineage v c
    (bindr reference_definition (\<lambda>w.
     bindr (reference_subject v) (\<lambda>subject.
     require (\<not> (rn_workflow r \<noteq> wf_identity w \<or> ss_workflow s \<noteq> wf_identity w))
       ''run belongs to another workflow definition''
    (require (\<not> (rn_subject r \<noteq> subject \<or> dr_subject d \<noteq> subject)) ''decision does not match the run subject''
    (require (\<not> (rn_state r \<noteq> ss_identity s \<or> rn_revision r \<noteq> ss_revision s \<or> rn_status r \<noteq> ss_status s))
       ''run and state do not identify one revision''
    (bindr (manual_references v c) (\<lambda>manual.
     require (ss_references s = manual) ''run is not at the exact manual-review state''
    (require (\<not> (dr_kind d \<noteq> claim_decision_kind \<or> dr_scope d \<noteq> cc_candidate c \<or>
         dr_decision_version d \<noteq> claim_decision_version))
       ''decision does not satisfy the review contract''
    (case claim_outcome (dr_outcome d) of
       None \<Rightarrow> Inl (ValueError ''decision outcome is not retained or excluded'')
     | Some (oper, stage) \<Rightarrow>
         bindr (candidate_reference c) (\<lambda>candidate.
         bindr (ingestion_reference v) (\<lambda>evidence.
         bindr (create_request (rn_identity r) (ss_identity s) (rn_revision r) oper [candidate, evidence] [] [d]
           actor auth idem None) (\<lambda>q.
         bindr (mk_adapter_id (PyStr ''ingestion-evidence-review:0.2.0'')) (\<lambda>adapter.
         bindr (reference_stage_reference stage) (\<lambda>successor.
         bindr (create_evidence adapter (wf_identity w) (rq_identity q) (ss_identity s) AdapterEnabled
           [candidate, evidence, successor] (Some RunCompleted) [] []
           [''human claim review recorded '' @ dr_outcome d]) (\<lambda>e.
         mk_transition_input \<lparr>pi_workflow = w, pi_run = r, pi_prior = s, pi_request = q, ti_evidence = Some e,
           ti_failure = None\<rparr>)))))))))))))))"

end
