(* ===== verification/Reference_Process.thy ===== *)
theory Reference_Process
  imports Reference_Review
begin

text \<open>
  The reference review at work: its records, its definition and its three steps, and the histories
  they produce.
\<close>

section \<open>Ingestion records\<close>

definition evidence_fields :: "ingestion_evidence \<Rightarrow> json list" where
  "evidence_fields v =
     [JStr (ie_record v), JStr (ie_blob v), JStr (ie_source v), JInt (ie_length v), JStr (ie_media v),
      JStr (ie_extraction v), JStr (ie_transcript v), JStr (ie_audit v), JStr evidence_contract,
      JStr evidence_contract_version, JStr ''complete'', JStr ''automated_unreviewed'']"

definition evidence_fields_ok :: "ingestion_evidence \<Rightarrow> bool" where
  "evidence_fields_ok v \<longleftrightarrow> prefixed_digest record_prefix (ie_record v) \<and> hex64 (ie_source v) \<and>
     blob_binds (ie_blob v) (ie_source v) \<and> 0 \<le> ie_length v \<and> ie_length v \<le> max_source_bytes \<and>
     media_grammar (ie_media v) \<and> hex64 (ie_extraction v) \<and> hex64 (ie_transcript v) \<and> hex64 (ie_audit v)"

definition ingestion_ok :: "ingestion_evidence \<Rightarrow> bool" where
  "ingestion_ok v \<longleftrightarrow> ie_contract v = evidence_contract \<and> ie_version v = evidence_contract_version \<and>
     ie_completeness v = ''complete'' \<and> ie_status v = ''automated_unreviewed'' \<and> evidence_fields_ok v \<and>
     ingestion_value (ie_identity v) = ingestion_digest ''ingestion-reference-evidence-input:1'' (evidence_fields v)"

lemma evidence_parts_Inr:
  "evidence_parts (ie_record v) (ie_blob v) (ie_source v) (ie_length v) (ie_media v) (ie_extraction v)
     (ie_transcript v) (ie_audit v) = Inr ps \<longleftrightarrow> evidence_fields_ok v \<and> ps = evidence_fields v"
  by (auto simp: evidence_parts_def evidence_fields_ok_def evidence_fields_def require_sha256_def require_Inr_iff)

lemma mk_ingestion_evidence_Inr: "mk_ingestion_evidence v = Inr u \<longleftrightarrow> ingestion_ok v \<and> u = v"
  by (auto simp: mk_ingestion_evidence_def ingestion_ok_def require_Inr_iff bindr_Inr_iff evidence_parts_Inr)

lemma create_ingestion_evidence_Inr:
  "create_ingestion_evidence a b c d e f g h = Inr v \<Longrightarrow> ingestion_ok v \<and> ie_record v = a \<and> ie_blob v = b \<and>
     ie_source v = c \<and> ie_length v = d \<and> ie_media v = e \<and> ie_extraction v = f \<and> ie_transcript v = g \<and> ie_audit v = h"
  by (auto simp: create_ingestion_evidence_def bindr_Inr_iff mk_ingestion_evidence_Inr)

definition candidate_fields :: "claim_candidate \<Rightarrow> json list" where
  "candidate_fields c =
     [JStr (cc_candidate c), JStr (cc_claim c), JStr (cc_record c), JStr (cc_locator c), JStr (cc_blob c),
      JStr (cc_source c), JStr (cc_transcript c), JStr (cc_page c), JInt (cc_page_index c), JStr (cc_page_digest c),
      JInt (cc_page_length c), JList (map JStr (cc_anchors c)), JStr candidate_contract,
      JStr candidate_contract_version, JStr ''manual_review_required'', JList (map JStr candidate_limitations)]"

definition candidate_fields_ok :: "claim_candidate \<Rightarrow> bool" where
  "candidate_fields_ok c \<longleftrightarrow> prefixed_digest candidate_prefix (cc_candidate c) \<and>
     prefixed_digest claim_prefix (cc_claim c) \<and> prefixed_digest record_prefix (cc_record c) \<and>
     prefixed_digest locator_prefix (cc_locator c) \<and> prefixed_digest transcript_prefix (cc_transcript c) \<and>
     prefixed_digest page_prefix (cc_page c) \<and> hex64 (cc_source c) \<and> blob_binds (cc_blob c) (cc_source c) \<and>
     0 \<le> cc_page_index c \<and> hex64 (cc_page_digest c) \<and> 0 \<le> cc_page_length c \<and> cc_page_length c \<le> max_page_bytes \<and>
     cc_anchors c \<noteq> [] \<and> canonical id (cc_anchors c) \<and> length (cc_anchors c) \<le> max_anchors \<and>
     list_all (prefixed_digest anchor_prefix) (cc_anchors c)"

definition candidate_ok :: "claim_candidate \<Rightarrow> bool" where
  "candidate_ok c \<longleftrightarrow> cc_contract c = candidate_contract \<and> cc_version c = candidate_contract_version \<and>
     cc_status c = ''manual_review_required'' \<and> cc_limitations c = candidate_limitations \<and> candidate_fields_ok c \<and>
     printable (cc_page_index c) \<and> claim_candidate_value (cc_identity c) =
       ingestion_digest ''ingestion-reference-claim-candidate-input:1'' (candidate_fields c)"

lemma anchors_bounded_iff:
  "anchors_bounded xs \<longleftrightarrow> xs \<noteq> [] \<and> canonical id xs \<and> length xs \<le> max_anchors \<and> list_all (prefixed_digest anchor_prefix) xs"
proof -
  have "xs = sort xs \<longleftrightarrow> sorted xs" by (metis sorted_sort sorted_sort_id)
  then show ?thesis by (auto simp: anchors_bounded_def canonical_def list_all_iff list_ex_iff)
qed

lemma candidate_parts_Inr:
  "candidate_parts (cc_candidate c) (cc_claim c) (cc_record c) (cc_locator c) (cc_blob c) (cc_source c)
     (cc_transcript c) (cc_page c) (cc_page_index c) (cc_page_digest c) (cc_page_length c) (cc_anchors c) = Inr ps \<longleftrightarrow>
   candidate_fields_ok c \<and> ps = candidate_fields c"
  unfolding candidate_parts_def require_sha256_def require_Inr_iff anchors_bounded_iff candidate_fields_ok_def
    candidate_fields_def
  by auto

lemma mk_claim_candidate_Inr: "mk_claim_candidate c = Inr d \<longleftrightarrow> candidate_ok c \<and> d = c"
  by (auto simp: mk_claim_candidate_def candidate_ok_def candidate_digest_def require_Inr_iff bindr_Inr_iff
      candidate_parts_Inr)

lemma create_claim_candidate_Inr:
  "create_claim_candidate a b c d e f g h i j k l = Inr x \<Longrightarrow> candidate_ok x \<and> cc_candidate x = a \<and> cc_claim x = b \<and>
     cc_record x = c \<and> cc_locator x = d \<and> cc_blob x = e \<and> cc_source x = f \<and> cc_transcript x = g \<and> cc_page x = h \<and>
     cc_page_index x = i \<and> cc_page_digest x = j \<and> cc_page_length x = k \<and> cc_anchors x = l"
  by (auto simp: create_claim_candidate_def bindr_Inr_iff mk_claim_candidate_Inr)

text \<open>A content identity determines the record, short of a collision.\<close>

definition ingestion_text :: "ingestion_evidence \<Rightarrow> string" where
  "ingestion_text v = stable_text ''ingestion-reference-evidence-input:1'' (evidence_fields v)"

definition candidate_text :: "claim_candidate \<Rightarrow> string" where
  "candidate_text c = stable_text ''ingestion-reference-claim-candidate-input:1'' (candidate_fields c)"

lemma ingestion_id_inj:
  assumes "ingestion_ok v" "ingestion_ok u" "ie_identity v = ie_identity u"
  shows "v = u \<or> sha256_collision (ingestion_text v) (ingestion_text u)"
proof (cases "ingestion_text v = ingestion_text u")
  case True
  then have "v = u"
    using stable_text_eqD [OF True [unfolded ingestion_text_def]] assms
    by (simp add: ingestion_ok_def evidence_fields_def)
  then show ?thesis ..
next
  case False
  then show ?thesis
    using assms by (simp add: ingestion_ok_def sha256_collision_def ingestion_digest_def ingestion_text_def stable_text_def)
qed

lemma candidate_id_inj:
  assumes "candidate_ok c" "candidate_ok d" "cc_identity c = cc_identity d"
  shows "c = d \<or> sha256_collision (candidate_text c) (candidate_text d)"
proof (cases "candidate_text c = candidate_text d")
  case True
  have inj: "map (jsort \<circ> JStr) xs = map (jsort \<circ> JStr) ys \<longleftrightarrow> xs = ys" for xs ys
    by (intro inj_map_eq_map) (simp add: inj_def)
  have "c = d"
    using stable_text_eqD [OF True [unfolded candidate_text_def]] assms
    by (simp add: candidate_ok_def candidate_fields_def inj)
  then show ?thesis ..
next
  case False
  then show ?thesis
    using assms by (simp add: candidate_ok_def sha256_collision_def ingestion_digest_def candidate_text_def stable_text_def)
qed

section \<open>The definition\<close>

definition reference_workflow :: workflow where
  "reference_workflow =
     \<lparr>wf_identity = workflow_reference_identity reference_contract reference_contract_version
        reference_definition_digest reference_operations,
      wf_contract = reference_contract, wf_definition_version = reference_contract_version,
      wf_digest = reference_definition_digest, wf_operations = reference_operations, wf_version = core_version\<rparr>"

lemma operation_order:
  "(''exclude-reviewed-claim'' :: string) < ''require-manual-claim-review''"
  "(''require-manual-claim-review'' :: string) < ''retain-reviewed-claim''"
  by code_simp+

lemmas operation_defs = exclude_operation_def manual_operation_def retain_operation_def

lemma reference_operations_ok: "operations_ok reference_operations"
  using operation_order
  by (simp add: operations_ok_def reference_operations_def operation_defs canonical_def max_operations_def
      less_imp_le del: Cons_le_Cons Cons_less_Cons)

lemma reference_workflow_ok: "workflow_ok reference_workflow"
  using reference_operations_ok
  by (simp add: workflow_ok_def reference_workflow_def reference_contract_def reference_contract_version_def
      reference_definition_digest_def hex64_sha hex64_sha256 bounded_def max_string_characters_def py_len_def)

lemma reference_definition_total [simp]: "reference_definition = Inr reference_workflow"
proof -
  have "canonical_operations ''definition operations'' reference_operations max_operations = Inr reference_operations"
    unfolding operations_fixed by (rule reference_operations_ok)
  then show ?thesis
    using mk_workflow_Inr [of reference_workflow reference_workflow] reference_workflow_ok
    by (simp add: reference_definition_def create_workflow_def reference_workflow_def [symmetric])
qed

section \<open>The states of a review\<close>

definition source_subject :: "ingestion_evidence \<Rightarrow> subject_id" where
  "source_subject v = SubjectId (''research-source:'' @ ie_source v)"

definition stage_ref :: "reference_stage \<Rightarrow> typed_reference" where
  "stage_ref stage = plain_reference ''reference-review-stage'' (reference_stage_text stage) None"

definition evidence_ref :: "ingestion_evidence \<Rightarrow> typed_reference" where
  "evidence_ref v = plain_reference ''ingestion-reference-evidence'' (ingestion_value (ie_identity v)) None"

definition candidate_ref :: "claim_candidate \<Rightarrow> typed_reference" where
  "candidate_ref c = plain_reference ''ingestion-reference-claim-candidate'' (claim_candidate_value (cc_identity c)) None"

definition observed_state :: "ingestion_evidence \<Rightarrow> typed_reference list" where
  "observed_state v = [evidence_ref v, stage_ref EvidenceObserved]"

definition claim_state :: "reference_stage \<Rightarrow> ingestion_evidence \<times> claim_candidate \<Rightarrow> typed_reference list" where
  "claim_state stage vc = [candidate_ref (snd vc), evidence_ref (fst vc), stage_ref stage]"

definition reference_input_refs :: "ingestion_evidence \<times> claim_candidate \<Rightarrow> typed_reference list" where
  "reference_input_refs vc = (case vc of (v, c) \<Rightarrow>
     [plain_reference ''ingestion-audit-artifact'' (ie_audit v) (Some (ie_audit v)),
      candidate_ref c,
      evidence_ref v,
      plain_reference ''ingestion-extraction-artifact'' (ie_extraction v) (Some (ie_extraction v)),
      plain_reference ''ingestion-reference-claim'' (cc_claim c) None,
      plain_reference ''ingestion-reference-evidence-record'' (ie_record v) None,
      plain_reference ''ingestion-reference-page-locator-result'' (cc_locator c) None,
      plain_reference ''ingestion-reference-page'' (cc_page c) (Some (cc_page_digest c)),
      plain_reference ''ingestion-source-blob'' (ie_blob v) (Some (ie_source v)),
      plain_reference ''ingestion-transcript-artifact'' (ie_transcript v) (Some (ie_transcript v))])"

definition decided_refs :: "ingestion_evidence \<times> claim_candidate \<Rightarrow> typed_reference list" where
  "decided_refs vc = [candidate_ref (snd vc), evidence_ref (fst vc)]"

lemma reference_kind_order:
  "(''ingestion-reference-claim-candidate'' :: string) \<le> ''ingestion-reference-evidence''"
  "(''ingestion-reference-claim-candidate'' :: string) \<le> ''reference-review-stage''"
  "(''ingestion-reference-evidence'' :: string) \<le> ''reference-review-stage''"
  by code_simp+

lemma claim_state_canonical: "canonical reference_key (claim_state stage vc)"
  using reference_kind_order
  by (simp add: canonical_def claim_state_def candidate_ref_def evidence_ref_def stage_ref_def del: Cons_le_Cons)

lemma observed_state_canonical: "canonical reference_key (observed_state v)"
  using reference_kind_order
  by (simp add: canonical_def observed_state_def evidence_ref_def stage_ref_def del: Cons_le_Cons)

lemma reference_workflow_id: "core_id (workflow_value (wf_identity reference_workflow))"
  by (simp add: reference_workflow_def workflow_reference_identity_def core_id_digest)

lemma reference_operation_ids:
  "oper \<in> {exclude_operation, manual_operation, retain_operation} \<Longrightarrow>
   oper \<in> set (wf_operations reference_workflow) \<and> core_id (operation_value oper)"
  by (auto simp: reference_workflow_def reference_operations_def operation_defs core_id_text)

lemma reference_inputs_distinct:
  "distinct (map reference_key (reference_input_refs vc))" "length (reference_input_refs vc) \<le> 256"
  by (cases vc; simp add: reference_input_refs_def candidate_ref_def evidence_ref_def)+

lemma decided_refs_distinct:
  "distinct (map reference_key (decided_refs vc))" "length (decided_refs vc) \<le> 256"
  by (simp_all add: decided_refs_def candidate_ref_def evidence_ref_def)

lemma claim_state_length: "length (claim_state stage vc) \<le> 1024"
  by (simp add: claim_state_def)

lemmas reference_step_laws = reference_workflow_ok reference_workflow_id reference_operation_ids
  reference_inputs_distinct decided_refs_distinct claim_state_canonical claim_state_length

interpretation manual: review_step reference_workflow manual_operation reference_input_refs "claim_state ManualClaimReview"
  by unfold_locales (simp_all add: reference_step_laws)

interpretation excluding: review_step reference_workflow exclude_operation decided_refs "claim_state ClaimExcluded"
  by unfold_locales (simp_all add: reference_step_laws)

interpretation retaining: review_step reference_workflow retain_operation decided_refs "claim_state ClaimRetained"
  by unfold_locales (simp_all add: reference_step_laws)

section \<open>References are built\<close>

lemma reference_stage_total [simp]: "reference_stage_reference stage = Inr (stage_ref stage)"
  by (cases stage) (simp_all add: reference_stage_reference_def stage_ref_def)

lemma blob_length: "blob_binds b s \<Longrightarrow> b \<noteq> [] \<and> length b \<le> 4096"
  using prefixed_digest_length [of blob_prefix b] by (auto simp: blob_binds_def blob_prefix_def)

lemma prefixed_text: "prefixed_digest p s \<Longrightarrow> length p \<le> 100 \<Longrightarrow> s \<noteq> [] \<and> length s \<le> 4096"
  using prefixed_digest_length [of p s] by auto

lemma evidence_reference_total [simp]: "ingestion_ok v \<Longrightarrow> ingestion_reference v = Inr (evidence_ref v)"
  using hex64_length [OF hex64_sha256]
  by (simp add: ingestion_reference_def evidence_ref_def ingestion_ok_def ingestion_digest_def)

lemma candidate_reference_total [simp]: "candidate_ok c \<Longrightarrow> candidate_reference c = Inr (candidate_ref c)"
  using hex64_length [OF hex64_sha256]
  by (simp add: candidate_reference_def candidate_ref_def candidate_ok_def ingestion_digest_def)

lemma reference_subject_total [simp]: "ingestion_ok v \<Longrightarrow> reference_subject v = Inr (source_subject v)"
  using hex64_length [of "ie_source v"]
  by (simp add: reference_subject_def source_subject_def mk_subject_id_def ingestion_ok_def evidence_fields_ok_def)

lemma source_subject_id: "ingestion_ok v \<Longrightarrow> core_id (subject_value (source_subject v))"
  using hex64_length [of "ie_source v"]
  by (simp add: source_subject_def ingestion_ok_def evidence_fields_ok_def core_id_text)

lemma manual_references_total [simp]:
  "ingestion_ok v \<Longrightarrow> candidate_ok c \<Longrightarrow> manual_references v c = Inr (claim_state ManualClaimReview (v, c))"
  by (simp add: manual_references_def claim_state_def)

lemma reference_inputs_total [simp]:
  assumes "ingestion_ok v" "candidate_ok c"
  shows "reference_inputs v c = Inr (reference_input_refs (v, c))"
proof -
  have "hex64 (ie_audit v)" "hex64 (ie_extraction v)" "hex64 (ie_transcript v)" "hex64 (ie_source v)" "hex64 (cc_page_digest c)"
    using assms by (simp_all add: ingestion_ok_def evidence_fields_ok_def candidate_ok_def candidate_fields_ok_def)
  moreover have "cc_claim c \<noteq> [] \<and> length (cc_claim c) \<le> 4096" "ie_record v \<noteq> [] \<and> length (ie_record v) \<le> 4096"
    "cc_locator c \<noteq> [] \<and> length (cc_locator c) \<le> 4096" "cc_page c \<noteq> [] \<and> length (cc_page c) \<le> 4096"
    using assms prefixed_text [of claim_prefix "cc_claim c"] prefixed_text [of record_prefix "ie_record v"]
      prefixed_text [of locator_prefix "cc_locator c"] prefixed_text [of page_prefix "cc_page c"]
    by (simp_all add: ingestion_ok_def evidence_fields_ok_def candidate_ok_def candidate_fields_ok_def claim_prefix_def
        record_prefix_def locator_prefix_def page_prefix_def)
  moreover have "ie_blob v \<noteq> [] \<and> length (ie_blob v) \<le> 4096"
    using assms blob_length [of "ie_blob v" "ie_source v"] by (simp add: ingestion_ok_def evidence_fields_ok_def)
  ultimately show ?thesis
    using assms hex64_length [of "ie_audit v"] hex64_length [of "ie_extraction v"] hex64_length [of "ie_transcript v"]
    by (simp add: reference_inputs_def reference_input_refs_def)
qed

end
