(* ===== verification/Reference_History.thy ===== *)
theory Reference_History
  imports Reference_Process
begin

text \<open>
  The three steps of a reference review, each with what it accepts and what the processor answers,
  and the histories that the starter, the adapter and the processor produce.
\<close>

section \<open>Starting\<close>

lemma reference_start_run:
  assumes "ingestion_ok v"
  shows "reference_start v = start_run reference_workflow (source_subject v) (''reference-review:'' @ ie_record v)
    (observed_state v) [] [] None None"
  using assms by (simp add: reference_start_def observed_state_def)

lemma reference_start_total:
  assumes "ingestion_ok v"
  obtains x where "reference_start v = Inr x" "open_run reference_workflow (st_run x) (st_state x)"
    "ss_references (st_state x) = observed_state v" "rn_subject (st_run x) = source_subject v"
    "rn_revision (st_run x) = 0" "rn_status (st_run x) = RunActive"
proof -
  let ?key = "''reference-review:'' @ ie_record v" and ?refs = "observed_state v"
  have l: "length (ie_record v) = length record_prefix + 64"
    using assms prefixed_digest_length by (simp add: ingestion_ok_def evidence_fields_ok_def)
  have "bounded max_string_characters ?key"
    using l py_len_le [of ?key] by (simp add: bounded_def max_string_characters_def record_prefix_def)
  moreover have "distinct (map reference_key ?refs)" using observed_state_canonical [of v] by (simp add: canonical_def)
  ultimately have "startable (source_subject v) ?key ?refs [] []"
    by (simp add: startable_def observed_state_def max_state_references_def)
  then obtain x where x: "start_run reference_workflow (source_subject v) ?key ?refs [] [] None None = Inr x"
    by (rule start_run_total)
  note st = start_run_Inr [OF x]
  have "ss_references (st_state x) = ?refs"
    using st observed_state_canonical [of v] canonical_unique [of reference_key "ss_references (st_state x)" ?refs] mset_eq_setD
    by (simp add: snapshot_ok_def references_ok_def) blast
  moreover have "open_run reference_workflow (st_run x) (st_state x)"
    using st source_subject_id [OF assms]
    by (simp add: open_run_def is_terminal_def printable_def dec_int_def dec_nat.simps)
  ultimately show ?thesis using that st x by (simp add: reference_start_run [OF assms])
qed

section \<open>Requiring the manual review\<close>

definition review_adapter :: adapter_id where
  "review_adapter = AdapterId ''ingestion-evidence-review:0.2.0''"

definition manual_reason :: string where
  "manual_reason = ''automated ingestion candidate requires manual claim review''"

definition same_lineage :: "ingestion_evidence \<Rightarrow> claim_candidate \<Rightarrow> bool" where
  "same_lineage v c \<longleftrightarrow> cc_record c = ie_record v \<and> cc_blob c = ie_blob v \<and> cc_source c = ie_source v"

lemma candidate_lineage_Inr: "candidate_lineage v c k = Inr x \<longleftrightarrow> same_lineage v c \<and> k = Inr x"
  by (auto simp: candidate_lineage_def same_lineage_def require_Inr_iff)

definition manual_offer :: "run_start \<Rightarrow> ingestion_evidence \<times> claim_candidate \<Rightarrow> actor_id \<Rightarrow> authority \<Rightarrow>
    idempotency_id \<Rightarrow> transition_input result" where
  "manual_offer x vc = offer reference_workflow (st_run x) (st_state x) manual_operation (reference_input_refs vc) []
     review_adapter (claim_state ManualClaimReview vc) (rn_status (st_run x)) [manual_reason]"

definition at_observed :: "run_start \<Rightarrow> ingestion_evidence \<Rightarrow> bool" where
  "at_observed x v \<longleftrightarrow> rn_workflow (st_run x) = wf_identity reference_workflow \<and>
     rn_subject (st_run x) = source_subject v \<and> ss_references (st_state x) = observed_state v"

lemma reference_transition_input_offer:
  assumes "ingestion_ok v" "candidate_ok c"
  shows "reference_transition_input x v c actor auth idem = candidate_lineage v c
    (require (rn_workflow (st_run x) = wf_identity reference_workflow) ''run belongs to another workflow definition''
    (require (rn_subject (st_run x) = source_subject v) ''evidence source does not match the run subject''
    (require (ss_references (st_state x) = observed_state v) ''run is not at the exact evidence-observed state''
      (manual_offer x (v, c) actor auth idem))))"
  unfolding reference_transition_input_def Let_def manual_offer_def offer_def review_adapter_def manual_reason_def
  using assms by (simp add: observed_state_def mk_adapter_id_def)

lemma short_reason: "s \<noteq> [] \<Longrightarrow> length s \<le> 65536 \<Longrightarrow> reasons_ok [s]"
  using py_len_le [of s]
  by (simp add: reasons_ok_def string_tuple_ok_def max_state_references_def max_reasons_def bounded_def
      max_message_characters_def)

lemma manual_reason_ok: "reasons_ok [manual_reason]"
  by (rule short_reason) (simp_all add: manual_reason_def)

lemma reference_transition_accepts:
  assumes "ingestion_ok v" "candidate_ok c" "0 \<le> rn_revision (st_run x)"
  shows "(\<exists>i. reference_transition_input x v c actor auth idem = Inr i) \<longleftrightarrow> same_lineage v c \<and> at_observed x v"
proof -
  obtain i where "manual_offer x (v, c) actor auth idem = Inr i"
    unfolding manual_offer_def by (rule manual.offer_result [OF assms(3) _ manual_reason_ok]) auto
  then show ?thesis
    by (auto simp: reference_transition_input_offer [OF assms(1,2)] candidate_lineage_Inr at_observed_def require_Inr_iff)
qed

lemma reference_transition_InrD:
  assumes "reference_transition_input x v c actor auth idem = Inr i" "ingestion_ok v" "candidate_ok c"
    "0 \<le> rn_revision (st_run x)"
  obtains q e where "same_lineage v c" "at_observed x v" "pi_workflow i = reference_workflow" "pi_run i = st_run x"
    "pi_prior i = st_state x" "pi_request i = q" "rq_artifacts q = []" "rq_decisions q = []"
    "ti_evidence i = Some e" "evidence_ok e" "ev_references e = claim_state ManualClaimReview (v, c)"
    "ev_status e = Some (rn_status (st_run x))" "ev_decisions e = []"
proof -
  have a: "same_lineage v c" "at_observed x v"
    using reference_transition_accepts [OF assms(2-4)] assms(1) by blast+
  have o: "manual_offer x (v, c) actor auth idem = Inr i"
    using assms(1) by (simp add: reference_transition_input_offer [OF assms(2,3)] candidate_lineage_Inr require_Inr_iff)
  show ?thesis
    by (rule manual.offer_result [OF assms(4), of "[]" "[manual_reason]" "st_state x" "(v, c)" review_adapter
          "rn_status (st_run x)" actor auth idem])
      (use o a that manual_reason_ok in \<open>auto simp: manual_offer_def\<close>)
qed

section \<open>Recording the decision\<close>

lemma claim_outcome_Some:
  "claim_outcome s = Some (oper, stage) \<longleftrightarrow>
     s = reference_stage_text stage \<and> (oper, stage) \<in> {(exclude_operation, ClaimExcluded), (retain_operation, ClaimRetained)}"
  by (auto simp: claim_outcome_def)

definition decision_meets :: "decision \<Rightarrow> claim_candidate \<Rightarrow> bool" where
  "decision_meets d c \<longleftrightarrow> dr_kind d = claim_decision_kind \<and> dr_scope d = cc_candidate c \<and>
     dr_decision_version d = claim_decision_version"

definition decision_offer :: "run \<Rightarrow> snapshot \<Rightarrow> ingestion_evidence \<times> claim_candidate \<Rightarrow> decision \<Rightarrow> operation_id \<Rightarrow>
    reference_stage \<Rightarrow> actor_id \<Rightarrow> authority \<Rightarrow> idempotency_id \<Rightarrow> transition_input result" where
  "decision_offer r s vc d oper stage = offer reference_workflow r s oper (decided_refs vc) [d] review_adapter
     (claim_state stage vc) RunCompleted [''human claim review recorded '' @ dr_outcome d]"

definition at_manual :: "run \<Rightarrow> snapshot \<Rightarrow> ingestion_evidence \<Rightarrow> claim_candidate \<Rightarrow> bool" where
  "at_manual r s v c \<longleftrightarrow> rn_workflow r = wf_identity reference_workflow \<and> ss_workflow s = wf_identity reference_workflow \<and>
     rn_subject r = source_subject v \<and> rn_state r = ss_identity s \<and> rn_revision r = ss_revision s \<and>
     rn_status r = ss_status s \<and> ss_references s = claim_state ManualClaimReview (v, c)"

lemma decision_transition_Inr:
  assumes "ingestion_ok v" "candidate_ok c"
  shows "decision_transition_input r s v c d actor auth idem = Inr i \<longleftrightarrow>
    same_lineage v c \<and> at_manual r s v c \<and> dr_subject d = source_subject v \<and> decision_meets d c \<and>
    (\<exists>oper stage. claim_outcome (dr_outcome d) = Some (oper, stage) \<and>
      decision_offer r s (v, c) d oper stage actor auth idem = Inr i)"
proof -
  have o: "(bindr (candidate_reference c) (\<lambda>candidate. bindr (ingestion_reference v) (\<lambda>evidence.
         bindr (create_request (rn_identity r) (ss_identity s) (rn_revision r) oper [candidate, evidence] [] [d]
           actor auth idem None) (\<lambda>q.
         bindr (mk_adapter_id (PyStr ''ingestion-evidence-review:0.2.0'')) (\<lambda>adapter.
         bindr (reference_stage_reference stage) (\<lambda>successor.
         bindr (create_evidence adapter (wf_identity reference_workflow) (rq_identity q) (ss_identity s) AdapterEnabled
           [candidate, evidence, successor] (Some RunCompleted) [] [] [''human claim review recorded '' @ dr_outcome d]) (\<lambda>e.
         mk_transition_input \<lparr>pi_workflow = reference_workflow, pi_run = r, pi_prior = s, pi_request = q,
           ti_evidence = Some e, ti_failure = None\<rparr>)))))))
     = decision_offer r s (v, c) d oper stage actor auth idem" for oper stage
    using assms by (simp add: decision_offer_def offer_def decided_refs_def claim_state_def review_adapter_def mk_adapter_id_def)
  show ?thesis
    unfolding decision_transition_input_def candidate_lineage_Inr reference_definition_total bindr.simps
      reference_subject_total [OF assms(1)] manual_references_total [OF assms] require_Inr_iff o
    by (auto simp: at_manual_def decision_meets_def split: option.splits prod.splits)
qed

lemma decision_reason_ok:
  "claim_outcome (dr_outcome d) = Some (oper, stage) \<Longrightarrow> reasons_ok [''human claim review recorded '' @ dr_outcome d]"
  by (rule short_reason) (auto simp: claim_outcome_Some)

text \<open>Both decisions are steps of the shared form.\<close>

lemma decision_step:
  assumes "claim_outcome (dr_outcome d) = Some (oper, stage)"
  shows "review_step reference_workflow oper decided_refs (claim_state stage)"
  using assms excluding.review_step_axioms retaining.review_step_axioms by (auto simp: claim_outcome_Some)

lemma decision_transition_InrD:
  assumes "decision_transition_input r s v c d actor auth idem = Inr i" "ingestion_ok v" "candidate_ok c" "0 \<le> rn_revision r"
  obtains q e oper stage where "same_lineage v c" "at_manual r s v c" "dr_subject d = source_subject v" "decision_meets d c"
    "claim_outcome (dr_outcome d) = Some (oper, stage)" "pi_workflow i = reference_workflow" "pi_run i = r" "pi_prior i = s"
    "pi_request i = q" "rq_operation q = oper" "rq_artifacts q = []" "rq_decisions q = [d]" "rq_authority q = auth"
    "ti_evidence i = Some e" "evidence_ok e" "ev_references e = claim_state stage (v, c)" "ev_status e = Some RunCompleted"
    "ev_decisions e = []"
proof -
  obtain oper stage where a: "same_lineage v c" "at_manual r s v c" "dr_subject d = source_subject v" "decision_meets d c"
    "claim_outcome (dr_outcome d) = Some (oper, stage)" "decision_offer r s (v, c) d oper stage actor auth idem = Inr i"
    using assms(1) unfolding decision_transition_Inr [OF assms(2,3)] by blast
  show ?thesis
    by (rule review_step.offer_result [OF decision_step [OF a(5)] assms(4), of "[d]"
          "[''human claim review recorded '' @ dr_outcome d]" s "(v, c)" review_adapter RunCompleted actor auth idem])
      (use a that decision_reason_ok [OF a(5)] in \<open>auto simp: decision_offer_def\<close>)
qed

section \<open>Histories\<close>

text \<open>The runs and states of a review, latest first.  Every record comes from its constructor.\<close>

inductive reference_history :: "ingestion_evidence \<Rightarrow> (run \<times> snapshot) list \<Rightarrow> bool" for v where
  reference_started: "reference_start v = Inr x \<Longrightarrow> reference_history v [(st_run x, st_state x)]"
| reference_required:
    "reference_history v ((r, s) # h) \<Longrightarrow> mk_run_start r s = Inr x \<Longrightarrow> ingestion_ok u \<Longrightarrow> candidate_ok c \<Longrightarrow>
     reference_transition_input x u c actor auth idem = Inr i \<Longrightarrow> process i = Inr e \<Longrightarrow>
     tx_successor (ex_outcome e) = Some r' \<Longrightarrow> tx_state (ex_outcome e) = Some s' \<Longrightarrow>
     reference_history v ((r', s') # (r, s) # h)"
| reference_decided:
    "reference_history v ((r, s) # h) \<Longrightarrow> ingestion_ok u \<Longrightarrow> candidate_ok c \<Longrightarrow>
     decision_transition_input r s u c d actor auth idem = Inr i \<Longrightarrow> process i = Inr e \<Longrightarrow>
     tx_successor (ex_outcome e) = Some r' \<Longrightarrow> tx_state (ex_outcome e) = Some s' \<Longrightarrow>
     reference_history v ((r', s') # (r, s) # h)"

definition reviewed :: "ingestion_evidence \<Rightarrow> ingestion_evidence \<Rightarrow> claim_candidate \<Rightarrow> bool" where
  "reviewed v u c \<longleftrightarrow> ingestion_ok u \<and> ie_identity u = ie_identity v \<and> candidate_ok c \<and> same_lineage u c"

text \<open>What an entry of a history is, by its revision.\<close>

definition review_entry :: "ingestion_evidence \<Rightarrow> run \<times> snapshot \<Rightarrow> bool" where
  "review_entry v = (\<lambda>(r, s).
     (rn_revision r = 0 \<and> ss_references s = observed_state v \<and> rn_status r = RunActive \<and> rn_decisions r = []) \<or>
     (rn_revision r = 1 \<and> rn_status r = RunActive \<and> rn_decisions r = [] \<and>
        (\<exists>u c. reviewed v u c \<and> ss_references s = claim_state ManualClaimReview (u, c))) \<or>
     (rn_revision r = 2 \<and> rn_status r = RunCompleted \<and>
        (\<exists>u c d stage. reviewed v u c \<and> ss_references s = claim_state stage (u, c) \<and> rn_decisions r = [d] \<and>
           dr_subject d = rn_subject r \<and> decision_meets d c \<and> stage \<in> {ClaimRetained, ClaimExcluded} \<and>
           dr_outcome d = reference_stage_text stage)))"

lemma stage_ref_eq: "stage_ref a = stage_ref b \<longleftrightarrow> a = b"
  by (cases a; cases b) (simp_all add: stage_ref_def)

lemma state_shapes:
  "claim_state a (u, c) = claim_state b (v, d) \<longleftrightarrow> a = b \<and> ie_identity u = ie_identity v \<and> cc_identity c = cc_identity d"
  "observed_state u = observed_state v \<longleftrightarrow> ie_identity u = ie_identity v"
  "claim_state a (u, c) \<noteq> observed_state v" "observed_state v \<noteq> claim_state a (u, c)"
  by (auto simp: claim_state_def observed_state_def stage_ref_eq evidence_ref_def candidate_ref_def
      ingestion_id.expand claim_candidate_id.expand)

lemma reference_history_shape:
  assumes "reference_history v h" "ingestion_ok v"
  shows "run_history reference_workflow (source_subject v) h \<and> list_all (review_entry v) h \<and>
    (\<forall>y z. h = y # z # tl (tl h) \<and> tl (tl h) \<noteq> [] \<longrightarrow>
       butlast (ss_references (snd y)) = butlast (ss_references (snd z)))"
  using assms(1)
proof induction
  case (reference_started x)
  obtain y where y: "reference_start v = Inr y" "ss_references (st_state y) = observed_state v"
      "rn_status (st_run y) = RunActive" "rn_revision (st_run y) = 0" "open_run reference_workflow (st_run y) (st_state y)"
    by (rule reference_start_total [OF assms(2)])
  have "start_run reference_workflow (source_subject v) (''reference-review:'' @ ie_record v) (observed_state v)
      [] [] None None = Inr x"
    using reference_started by (simp only: reference_start_run [OF assms(2)])
  from history_start [OF this] show ?case
    using y reference_started by (simp add: review_entry_def open_run_def)
next
  case (reference_required r s h x u c actor auth idem i e r' s')
  have x: "st_run x = r" "st_state x = s" using reference_required.hyps by (auto simp: mk_run_start_def require_Inr_iff)
  have rh: "run_history reference_workflow (source_subject v) ((r, s) # h)" using reference_required.IH by blast
  have r0: "0 \<le> rn_revision (st_run x)" using run_history_invariant [OF rh] x by (auto simp: entry_ok_def run_ok_def)
  obtain q ev where ev: "same_lineage u c" "at_observed x u" "pi_workflow i = reference_workflow" "pi_run i = r" "pi_prior i = s"
    "pi_request i = q" "rq_artifacts q = []" "rq_decisions q = []" "ti_evidence i = Some ev" "evidence_ok ev"
    "ev_references ev = claim_state ManualClaimReview (u, c)" "ev_status ev = Some (rn_status r)" "ev_decisions ev = []"
    using reference_transition_InrD [OF reference_required.hyps(5,3,4) r0] x by metis
  have s: "ss_references s = observed_state u" using ev(2) x by (simp add: at_observed_def)
  have "review_entry v (r, s)" using reference_required.IH by simp
  then have e0: "rn_revision r = 0" "ie_identity u = ie_identity v" "rn_status r = RunActive" "rn_decisions r = []"
    using s by (auto simp: review_entry_def state_shapes)
  have len: "h = []"
  proof -
    have "rn_revision r = int (length h)" using run_history_invariant [OF rh] by force
    then show ?thesis using e0 by simp
  qed
  obtain f t where f: "ti_evidence i = Some f" "tx_state (ex_outcome e) = Some t" "successor_of i f t r'"
    by (rule process_applied [OF reference_required.hyps(6,7)]) (use ev in auto)
  have "run_history reference_workflow (source_subject v) ((r', s') # (r, s) # h)"
    by (rule history_apply [OF rh ev(3-5) _ reference_required.hyps(6-8)]) (use ev in auto)
  moreover have "review_entry v (r', s')"
    using f ev e0 reference_required.hyps(3,4,8)
    by (auto simp: review_entry_def successor_of_def reviewed_def all_decisions_def)
  ultimately show ?case using reference_required.IH len by simp
next
  case (reference_decided r s h u c d actor auth idem i e r' s')
  have rh: "run_history reference_workflow (source_subject v) ((r, s) # h)" using reference_decided.IH by blast
  have r0: "0 \<le> rn_revision r" using run_history_invariant [OF rh] by (auto simp: entry_ok_def run_ok_def)
  obtain q ev oper stage where ev: "same_lineage u c" "at_manual r s u c" "dr_subject d = source_subject u" "decision_meets d c"
    "claim_outcome (dr_outcome d) = Some (oper, stage)" "pi_workflow i = reference_workflow" "pi_run i = r" "pi_prior i = s"
    "pi_request i = q" "rq_artifacts q = []" "rq_decisions q = [d]"
    "ti_evidence i = Some ev" "evidence_ok ev" "ev_references ev = claim_state stage (u, c)" "ev_status ev = Some RunCompleted"
    "ev_decisions ev = []"
    by (rule decision_transition_InrD [OF reference_decided.hyps(4,2,3) r0]) blast
  have s: "ss_references s = claim_state ManualClaimReview (u, c)" using ev(2) by (simp add: at_manual_def)
  have "review_entry v (r, s)" using reference_decided.IH by simp
  then have e1: "rn_revision r = 1" "ie_identity u = ie_identity v" "rn_decisions r = []"
    using s by (auto simp: review_entry_def state_shapes reviewed_def claim_outcome_Some)
  have len: "length h = 1"
  proof -
    have "rn_revision r = int (length h)" using run_history_invariant [OF rh] by force
    then show ?thesis using e1 by simp
  qed
  obtain f t where f: "ti_evidence i = Some f" "tx_state (ex_outcome e) = Some t" "successor_of i f t r'"
    by (rule process_applied [OF reference_decided.hyps(5,6)]) (use ev in auto)
  have su: "rn_subject r' = source_subject u" using f ev(2,7) by (simp add: successor_of_def at_manual_def)
  have ds: "set (rn_decisions r') = {d}" "distinct (rn_decisions r')"
    using f ev e1 by (auto simp: successor_of_def all_decisions_def run_ok_def decisions_ok_def canonical_def distinct_map)
  then have dec: "rn_decisions r' = [d]" by (cases "rn_decisions r'"; cases "tl (rn_decisions r')") auto
  have "run_history reference_workflow (source_subject v) ((r', s') # (r, s) # h)"
    by (rule history_apply [OF rh ev(6-8) _ reference_decided.hyps(5-7)]) (use ev in auto)
  moreover have "review_entry v (r', s')"
    using f ev e1 dec su reference_decided.hyps(2,3,7)
    by (auto simp: review_entry_def successor_of_def reviewed_def claim_outcome_Some)
  moreover have "butlast (ss_references s') = butlast (ss_references s)"
    using f ev s reference_decided.hyps(7) by (auto simp: successor_of_def claim_state_def)
  ultimately show ?case using reference_decided.IH by simp
qed

section \<open>A review can be completed\<close>

lemma covered_step:
  assumes "review_step w oper ins refs" "open_run w r s" "length ds \<le> 1"
    "\<forall>d \<in> set ds. decision_ids_ok d \<and> dr_subject d = rn_subject r" "reasons_ok reasons" "reasons \<noteq> []"
    "authority_wf auth" "covers auth (rn_subject r) oper"
  obtains i x s' r' where "offer w r s oper (ins p) ds adapter (refs p) st reasons actor auth idem = Inr i"
    "process i = Inr x" "tx_state (ex_outcome x) = Some s'" "tx_successor (ex_outcome x) = Some r'"
    "snapshot_ok s'" "run_ok r'" "run_state_agree r' s'" "ss_references s' = refs p" "rn_status r' = st"
    "rn_revision r' = rn_revision r + 1" "rn_subject r' = rn_subject r" "rn_workflow r' = wf_identity w"
    "rn_artifacts r' = []" "rn_decisions r' = ds"
  by (rule review_step.offer_processed [OF assms(1-7), of p adapter st actor idem]) (use assms(8) that in blast)

lemma reference_completes:
  assumes v: "ingestion_ok v" and c: "candidate_ok c" "same_lineage v c"
    and a: "authority_wf a" "covers a (source_subject v) manual_operation"
    and d: "decision_ids_ok d" "dr_subject d = source_subject v" "decision_meets d c"
    and o: "claim_outcome (dr_outcome d) = Some (oper, stage)"
    and b: "authority_wf b" "covers b (source_subject v) oper"
  obtains x i e r s j f r' s' where "reference_start v = Inr x" "reference_transition_input x v c actor a idem = Inr i"
    "process i = Inr e" "tx_successor (ex_outcome e) = Some r" "tx_state (ex_outcome e) = Some s"
    "ss_references s = claim_state ManualClaimReview (v, c)" "rn_status r = RunActive"
    "decision_transition_input r s v c d reviewer b key = Inr j" "process j = Inr f"
    "tx_successor (ex_outcome f) = Some r'" "tx_state (ex_outcome f) = Some s'"
    "ss_references s' = claim_state stage (v, c)" "rn_status r' = RunCompleted" "rn_decisions r' = [d]"
proof -
  obtain x where x: "reference_start v = Inr x" "open_run reference_workflow (st_run x) (st_state x)"
    "ss_references (st_state x) = observed_state v" "rn_subject (st_run x) = source_subject v"
    "rn_revision (st_run x) = 0" "rn_status (st_run x) = RunActive"
    by (rule reference_start_total [OF v])
  have obs: "at_observed x v" using x by (simp add: at_observed_def open_run_def)
  obtain i e s r where m: "manual_offer x (v, c) actor a idem = Inr i" "process i = Inr e"
    "tx_state (ex_outcome e) = Some s" "tx_successor (ex_outcome e) = Some r" "snapshot_ok s" "run_ok r"
    "run_state_agree r s" "ss_references s = claim_state ManualClaimReview (v, c)" "rn_status r = rn_status (st_run x)"
    "rn_revision r = rn_revision (st_run x) + 1" "rn_subject r = rn_subject (st_run x)"
    "rn_workflow r = wf_identity reference_workflow" "rn_artifacts r = []" "rn_decisions r = []"
    unfolding manual_offer_def
    by (rule covered_step [OF manual.review_step_axioms x(2), of "[]" "[manual_reason]" a])
      (use a x(4) manual_reason_ok in auto)
  have ti: "reference_transition_input x v c actor a idem = Inr i"
    using m(1) c obs by (simp add: reference_transition_input_offer [OF v c(1)] candidate_lineage_Inr at_observed_def)
  have op: "open_run reference_workflow r s"
    using m x source_subject_id [OF v]
    by (simp add: open_run_def is_terminal_def printable_def dec_int_def dec_nat.simps)
  obtain j f s' r' where n: "decision_offer r s (v, c) d oper stage reviewer b key = Inr j" "process j = Inr f"
    "tx_state (ex_outcome f) = Some s'" "tx_successor (ex_outcome f) = Some r'"
    "ss_references s' = claim_state stage (v, c)" "rn_status r' = RunCompleted" "rn_decisions r' = [d]"
    unfolding decision_offer_def
    by (rule covered_step [OF decision_step [OF o] op, of "[d]" "[''human claim review recorded '' @ dr_outcome d]" b])
      (use b d m(11) x(4) decision_reason_ok [OF o] in auto)
  have am: "at_manual r s v c"
    using m x(4) by (simp add: at_manual_def run_state_agree_def)
  have tj: "decision_transition_input r s v c d reviewer b key = Inr j"
    unfolding decision_transition_Inr [OF v c(1)] using c am d o n(1) by blast
  have act: "rn_status r = RunActive" using m(9) x(6) by simp
  show ?thesis by (rule that [OF x(1) ti m(2,4,3,8) act tj n(2,4,3,5-7)])
qed

end
