(* ===== verification/Review_Theorems.thy ===== *)
theory Review_Theorems
  imports Course_Review Reference_History Core_Example
begin

text \<open>
  The properties of the two review workflows, with a proposal, a piece of evidence and a claim
  candidate that satisfy their hypotheses.
\<close>

section \<open>Sample records\<close>

definition sample_digest :: string where "sample_digest = replicate 64 CHR ''a''"

definition sample_proposal :: teaching_proposal where
  "sample_proposal =
     (let p = \<lparr>tp_id = TeachingId [], tp_proposal = ''proposal-1'', tp_proposal_set = ''set-1'', tp_model = ''model:2'',
        tp_catalog = ''2026.1'', tp_course = ''math-7'', tp_metadata = sample_digest, tp_domain = ''teaching''\<rparr>
      in p\<lparr>tp_id := TeachingId (sha256_hex (proposal_text p))\<rparr>)"

definition sample_evidence :: ingestion_evidence where
  "sample_evidence =
     (let v = \<lparr>ie_identity = IngestionId [], ie_record = record_prefix @ sample_digest, ie_blob = blob_prefix @ sample_digest,
        ie_source = sample_digest, ie_length = 1024, ie_media = ''application/pdf'', ie_extraction = sample_digest,
        ie_transcript = sample_digest, ie_audit = sample_digest, ie_contract = evidence_contract,
        ie_version = evidence_contract_version, ie_completeness = ''complete'', ie_status = ''automated_unreviewed''\<rparr>
      in v\<lparr>ie_identity := IngestionId (ingestion_digest ''ingestion-reference-evidence-input:1'' (evidence_fields v))\<rparr>)"

definition sample_candidate :: claim_candidate where
  "sample_candidate =
     (let c = \<lparr>cc_identity = ClaimCandidateId [], cc_candidate = candidate_prefix @ sample_digest,
        cc_claim = claim_prefix @ sample_digest, cc_record = record_prefix @ sample_digest,
        cc_locator = locator_prefix @ sample_digest, cc_blob = blob_prefix @ sample_digest, cc_source = sample_digest,
        cc_transcript = transcript_prefix @ sample_digest, cc_page = page_prefix @ sample_digest, cc_page_index = 0,
        cc_page_digest = sample_digest, cc_page_length = 512, cc_anchors = [anchor_prefix @ sample_digest],
        cc_contract = candidate_contract, cc_version = candidate_contract_version,
        cc_status = ''manual_review_required'', cc_limitations = candidate_limitations\<rparr>
      in c\<lparr>cc_identity := ClaimCandidateId
        (ingestion_digest ''ingestion-reference-claim-candidate-input:1'' (candidate_fields c))\<rparr>)"

definition sample_decision :: decision where
  "sample_decision =
     \<lparr>dr_identity = decision_reference_identity claim_decision_kind (cc_candidate sample_candidate)
        (source_subject sample_evidence) (ExternalId ''board'') ''reviewed_retained'' (ExternalId ''minutes'')
        claim_decision_version,
      dr_kind = claim_decision_kind, dr_scope = cc_candidate sample_candidate, dr_subject = source_subject sample_evidence,
      dr_authority = ExternalId ''board'', dr_outcome = ''reviewed_retained'', dr_evidence = ExternalId ''minutes'',
      dr_decision_version = claim_decision_version, dr_version = core_version\<rparr>"

text \<open>An authority over one operation on one subject.\<close>

definition sample_authority :: "subject_id \<Rightarrow> operation_id \<Rightarrow> authority" where
  "sample_authority subject oper =
     \<lparr>au_identity = authority_reference_identity ''role'' subject [oper] (ExternalId ''grant'') ''1'',
      au_kind = ''role'', au_subject = subject, au_operations = [oper], au_evidence = ExternalId ''grant'',
      au_authority_version = ''1'', au_version = core_version\<rparr>"

lemma sample_hex: "hex64 sample_digest" by (simp add: hex64_def sample_digest_def list_all_iff)

lemma sample_fields [simp]:
  "tp_course sample_proposal = ''math-7''" "ie_source sample_evidence = sample_digest"
  "cc_candidate sample_candidate = candidate_prefix @ sample_digest"
  by (simp_all add: sample_proposal_def sample_evidence_def sample_candidate_def Let_def)

lemma sample_proposal_ok: "teaching_proposal_ok sample_proposal"
  using sample_hex
  by (simp add: teaching_proposal_ok_def sample_proposal_def Let_def proposal_text_def identity_grammar_def alnum_def)

lemma sample_evidence_ok: "ingestion_ok sample_evidence"
proof -
  have "media_grammar ''application/pdf''" by code_simp
  then show ?thesis
    using sample_hex prefixed_digestI [OF sample_hex]
    by (simp add: ingestion_ok_def evidence_fields_ok_def sample_evidence_def Let_def evidence_fields_def blob_binds_def
        max_source_bytes_def)
qed

lemma sample_candidate_ok: "candidate_ok sample_candidate"
  using sample_hex prefixed_digestI [OF sample_hex]
  by (simp add: candidate_ok_def candidate_fields_ok_def sample_candidate_def Let_def candidate_fields_def blob_binds_def
      max_page_bytes_def max_anchors_def canonical_def printable_def dec_int_def dec_nat.simps)

lemma sample_lineage: "same_lineage sample_evidence sample_candidate"
  by (simp add: same_lineage_def sample_evidence_def sample_candidate_def Let_def)

lemma sample_decision_ok:
  "decision_ids_ok sample_decision" "dr_subject sample_decision = source_subject sample_evidence"
  "decision_meets sample_decision sample_candidate"
  "claim_outcome (dr_outcome sample_decision) = Some (retain_operation, ClaimRetained)"
proof -
  have "bounded max_string_characters (candidate_prefix @ sample_digest)"
    by (rule boundedI) (simp_all add: candidate_prefix_def sample_digest_def max_string_characters_def)
  then show "decision_ids_ok sample_decision"
    using source_subject_id [OF sample_evidence_ok]
    by (simp add: decision_ids_ok_def decision_ok_def sample_decision_def review_short claim_decision_kind_def
        claim_decision_version_def)
qed (simp_all add: sample_decision_def decision_meets_def claim_outcome_Some)

lemma sample_authority_ok:
  "core_id (subject_value subject) \<Longrightarrow> authority_wf (sample_authority subject oper)"
  "covers (sample_authority subject oper) subject oper'  \<longleftrightarrow> oper' = oper"
  by (auto simp: authority_wf_def authority_ok_def sample_authority_def review_short operations_ok_def canonical_def
      max_operations_def covers_def)

section \<open>Course review\<close>

text \<open>C36: The course review goes exactly one step.  Every history of runs and states that the starter, the
  adapter (for any valid proposals and any arguments) and the processor produce is a history of the
  core for the proposal's course: it has at most two entries, proposal observed and then course
  identity candidate of the same proposal, and no run ever leaves the active status, so no review
  stage is reached and nothing is published.\<close>

theorem course_review_bounded:
  assumes "course_history p h" "teaching_proposal_ok p"
  shows "run_history course_workflow (course_subject p) h \<and> length h \<le> 2 \<and> (\<forall>x \<in> set h. rn_status (fst x) = RunActive) \<and>
    map (ss_references \<circ> snd) h =
      rev (take (length h) [course_state ProposalObserved p, course_state CourseIdentityCandidate p])"
  using assms by (rule course_history_shape)

lemma course_history_two: "\<exists>a b. course_history sample_proposal [a, b]"
proof -
  let ?a = "sample_authority (course_subject sample_proposal) candidate_operation"
  have a: "authority_wf ?a" using sample_authority_ok(1) proposal_parts(4) [OF sample_proposal_ok] by simp
  obtain x i e where x: "course_start sample_proposal = Inr x"
    "course_transition_input x sample_proposal (ActorId ''a'') ?a (IdempotencyId ''k'') = Inr i" "process i = Inr e"
    "if covers ?a (course_subject sample_proposal) candidate_operation
     then \<exists>s r. tx_kind (ex_outcome e) = OutApplied \<and> tx_state (ex_outcome e) = Some s \<and> tx_successor (ex_outcome e) = Some r \<and>
       ss_references s = course_state CourseIdentityCandidate sample_proposal \<and> rn_status r = RunActive \<and> rn_revision r = 1
     else tx_kind (ex_outcome e) = OutRejectedInvalid \<and> tx_successor (ex_outcome e) = None"
    by (rule course_candidate_step [OF sample_proposal_ok a])
  obtain s r where s: "tx_state (ex_outcome e) = Some s" "tx_successor (ex_outcome e) = Some r"
    using x(4) by (auto simp: sample_authority_ok(2))
  obtain y where y: "course_start sample_proposal = Inr y" "open_run course_workflow (st_run y) (st_state y)"
    by (rule course_start_total [OF sample_proposal_ok])
  have "mk_run_start (st_run x) (st_state x) = Inr x"
    using x(1) y by (cases x) (simp add: mk_run_start_def open_run_def)
  from course_stepped [OF course_started [OF x(1)] this sample_proposal_ok x(2,3) s(2,1)] show ?thesis by blast
qed

lemma course_review_bounded_witness:
  "\<exists>h. course_history sample_proposal h \<and> map (ss_references \<circ> snd) h =
     [course_state CourseIdentityCandidate sample_proposal, course_state ProposalObserved sample_proposal]"
proof -
  obtain a b where h: "course_history sample_proposal [a, b]" using course_history_two by blast
  show ?thesis using course_review_bounded [OF h sample_proposal_ok] h by (intro exI [of _ "[a, b]"]) simp
qed

text \<open>From every valid proposal the review starts, the adapter answers, and the processor records the
  course identity candidate as revision one exactly when the authority covers the course and the
  operation; otherwise it rejects the request and no run changes.\<close>

lemma course_candidate_recorded:
  assumes "teaching_proposal_ok p" "authority_wf auth"
  shows "\<exists>x i e. course_start p = Inr x \<and> course_transition_input x p actor auth idem = Inr i \<and> process i = Inr e \<and>
    (if covers auth (course_subject p) candidate_operation
     then \<exists>s r. tx_kind (ex_outcome e) = OutApplied \<and> tx_state (ex_outcome e) = Some s \<and> tx_successor (ex_outcome e) = Some r \<and>
       ss_references s = course_state CourseIdentityCandidate p \<and> rn_status r = RunActive \<and> rn_revision r = 1
     else tx_kind (ex_outcome e) = OutRejectedInvalid \<and> tx_successor (ex_outcome e) = None)"
  by (rule course_candidate_step [OF assms, of actor idem]) blast

lemma course_candidate_recorded_witness:
  "\<exists>x i e s. course_start sample_proposal = Inr x \<and>
     course_transition_input x sample_proposal (ActorId ''a'')
       (sample_authority (course_subject sample_proposal) candidate_operation) (IdempotencyId ''k'') = Inr i \<and>
     process i = Inr e \<and> tx_state (ex_outcome e) = Some s \<and>
     ss_references s = course_state CourseIdentityCandidate sample_proposal"
proof -
  have "core_id (subject_value (course_subject sample_proposal))" by (rule proposal_parts(4) [OF sample_proposal_ok])
  from course_candidate_recorded [OF sample_proposal_ok sample_authority_ok(1) [OF this], of "ActorId ''a''" candidate_operation
      "IdempotencyId ''k''"]
  show ?thesis by (auto simp: sample_authority_ok(2))
qed

section \<open>Reference review\<close>

text \<open>C8: A claim is reviewed by a human or not at all.  In every history of runs and states that the starter,
  the adapter (for any records and arguments) and the processor produce, a run is observed, then
  waits for the manual review of a candidate of this evidence, then is completed; it is completed
  only as retained or excluded, exactly as its single recorded decision says, a decision of the
  required kind and version on this candidate and this source; and the decided candidate is the one
  under review.\<close>

theorem reference_review_decided:
  assumes "reference_history v h" "ingestion_ok v"
  shows "run_history reference_workflow (source_subject v) h \<and> list_all (review_entry v) h \<and>
    (\<forall>y z. h = y # z # tl (tl h) \<and> tl (tl h) \<noteq> [] \<longrightarrow>
       butlast (ss_references (snd y)) = butlast (ss_references (snd z)))"
  using assms by (rule reference_history_shape)

lemma sample_covers:
  "authority_wf (sample_authority (source_subject sample_evidence) oper)"
  "covers (sample_authority (source_subject sample_evidence) oper) (source_subject sample_evidence) oper"
  using sample_authority_ok source_subject_id [OF sample_evidence_ok] by blast+

lemma reference_history_three: "\<exists>a b c. reference_history sample_evidence [a, b, c] \<and> rn_status (fst a) = RunCompleted"
proof -
  obtain x i e r s j f r' s' where x: "reference_start sample_evidence = Inr x"
    "reference_transition_input x sample_evidence sample_candidate (ActorId ''a'')
       (sample_authority (source_subject sample_evidence) manual_operation) (IdempotencyId ''k'') = Inr i"
    "process i = Inr e" "tx_successor (ex_outcome e) = Some r" "tx_state (ex_outcome e) = Some s"
    "decision_transition_input r s sample_evidence sample_candidate sample_decision (ActorId ''b'')
       (sample_authority (source_subject sample_evidence) retain_operation) (IdempotencyId ''l'') = Inr j" "process j = Inr f"
    "tx_successor (ex_outcome f) = Some r'" "tx_state (ex_outcome f) = Some s'" "rn_status r' = RunCompleted"
    by (rule reference_completes [OF sample_evidence_ok sample_candidate_ok sample_lineage sample_covers sample_decision_ok
          sample_covers])
  obtain y where y: "reference_start sample_evidence = Inr y" "open_run reference_workflow (st_run y) (st_state y)"
    by (rule reference_start_total [OF sample_evidence_ok])
  have "mk_run_start (st_run x) (st_state x) = Inr x"
    using x(1) y by (cases x) (simp add: mk_run_start_def open_run_def)
  from reference_required [OF reference_started [OF x(1)] this sample_evidence_ok sample_candidate_ok x(2,3,4,5)]
  have "reference_history sample_evidence [(r, s), (st_run x, st_state x)]" .
  from reference_decided [OF this sample_evidence_ok sample_candidate_ok x(6-9)] x(10) show ?thesis by (metis fst_conv)
qed

lemma reference_review_decided_witness:
  "\<exists>r s h d stage. reference_history sample_evidence ((r, s) # h) \<and> rn_decisions r = [d] \<and>
     stage \<in> {ClaimRetained, ClaimExcluded} \<and> dr_outcome d = reference_stage_text stage"
proof -
  obtain a b c where h: "reference_history sample_evidence [a, b, c]" "rn_status (fst a) = RunCompleted"
    using reference_history_three by blast
  have "review_entry sample_evidence a" using reference_review_decided [OF h(1) sample_evidence_ok] by simp
  then show ?thesis
    using h by (cases a) (auto simp: review_entry_def intro!: exI [of _ "fst a"] exI [of _ "snd a"] exI [of _ "[b, c]"])
qed

text \<open>C35: Every review can be completed: from valid evidence and a candidate of it, an authority for the
  manual review, a decision that meets the review contract with one of the two outcomes, and an
  authority for its operation, the three calls succeed, the processor applies both requests, and
  the run is completed in the decided stage with that decision recorded.\<close>

theorem reference_review_completes:
  assumes "ingestion_ok v" "candidate_ok c" "same_lineage v c"
    and "authority_wf a" "covers a (source_subject v) manual_operation"
    and "decision_ids_ok d" "dr_subject d = source_subject v" "decision_meets d c"
    and "claim_outcome (dr_outcome d) = Some (oper, stage)" "authority_wf b" "covers b (source_subject v) oper"
  shows "\<exists>x i e r s j f r' s'. reference_start v = Inr x \<and> reference_transition_input x v c actor a idem = Inr i \<and>
    process i = Inr e \<and> tx_successor (ex_outcome e) = Some r \<and> tx_state (ex_outcome e) = Some s \<and>
    ss_references s = claim_state ManualClaimReview (v, c) \<and> rn_status r = RunActive \<and>
    decision_transition_input r s v c d reviewer b key = Inr j \<and> process j = Inr f \<and>
    tx_successor (ex_outcome f) = Some r' \<and> tx_state (ex_outcome f) = Some s' \<and>
    ss_references s' = claim_state stage (v, c) \<and> rn_status r' = RunCompleted \<and> rn_decisions r' = [d]"
  by (rule reference_completes [OF assms, of actor idem reviewer key]) blast

lemma reference_review_completes_witness:
  "\<exists>x i. reference_start sample_evidence = Inr x \<and>
     reference_transition_input x sample_evidence sample_candidate (ActorId ''a'')
       (sample_authority (source_subject sample_evidence) manual_operation) (IdempotencyId ''k'') = Inr i"
  using reference_review_completes [OF sample_evidence_ok sample_candidate_ok sample_lineage sample_covers sample_decision_ok
      sample_covers, of "ActorId ''a''" "IdempotencyId ''k''" "ActorId ''b''" "IdempotencyId ''l''"] by blast

end
