(* ===== verification/Sdk_Validation.thy ===== *)
theory Sdk_Validation
  imports Py_Utf8 Py_Pattern
begin

text \<open>
  \<open>workflow_sdk/_validation.py\<close>: the bounded validation of texts, identities and numbers, the semantic
  digest, and the shape checks of loaded documents.  Every validator of the source returns its
  argument, so here it takes the rest of the computation.  Texts that pass are printable ASCII, where
  \<open>ensure_ascii=True\<close> and UTF-8 agree; \<open>repr\<close> in a message keeps every non-ASCII character.
\<close>

section \<open>Limits\<close>

definition sdk_max_identity :: nat where "sdk_max_identity = 512"
definition sdk_max_role :: nat where "sdk_max_role = 128"
definition sdk_max_text :: nat where "sdk_max_text = 512"
definition sdk_max_media :: nat where "sdk_max_media = 255"
definition sdk_max_contracts :: nat where "sdk_max_contracts = 64"
definition sdk_max_payloads :: nat where "sdk_max_payloads = 64"
definition sdk_max_inline :: nat where "sdk_max_inline = 4 * 1024 * 1024"
definition sdk_max_total :: nat where "sdk_max_total = 16 * 1024 * 1024"
definition sdk_max_reasons :: nat where "sdk_max_reasons = 64"
definition sdk_max_document :: nat where "sdk_max_document = 32 * 1024 * 1024"
definition sdk_max_depth :: nat where "sdk_max_depth = 16"
definition sdk_max_signed :: int where "sdk_max_signed = 2 ^ 63 - 1"

lemmas sdk_limits =
  sdk_max_identity_def sdk_max_role_def sdk_max_text_def sdk_max_media_def sdk_max_contracts_def
  sdk_max_payloads_def sdk_max_inline_def sdk_max_total_def sdk_max_reasons_def sdk_max_document_def
  sdk_max_depth_def sdk_max_signed_def

section \<open>Texts\<close>

text \<open>The characters that \<open>str.strip\<close> removes, as code points.\<close>

definition white_points :: "nat list" where
  "white_points =
     [9, 10, 11, 12, 13, 28, 29, 30, 31, 32, 0x85, 0xA0, 0x1680, 0x2000, 0x2001, 0x2002, 0x2003, 0x2004, 0x2005,
      0x2006, 0x2007, 0x2008, 0x2009, 0x200A, 0x2028, 0x2029, 0x202F, 0x205F, 0x3000]"

definition stripped :: "string \<Rightarrow> bool" where
  "stripped s \<longleftrightarrow> \<not> list_ex (\<lambda>n. starts (utf8_char n) s \<or> ends (utf8_char n) s) white_points"

definition control_char :: "char \<Rightarrow> bool" where
  "control_char c \<longleftrightarrow> of_char c < (32 :: nat) \<or> of_char c = (127 :: nat)"

definition sdk_text :: "string \<Rightarrow> nat \<Rightarrow> string \<Rightarrow> 'a result \<Rightarrow> 'a result" where
  "sdk_text label maximum s k =
     require (s \<noteq> [] \<and> stripped s) (label @ '' must be nonempty and stripped'')
    (require (ascii s) (label @ '' must contain ASCII only'')
    (require (length s \<le> maximum) (label @ '' exceeds '' @ dec_nat maximum @ '' ASCII bytes'')
    (require (\<not> list_ex control_char s) (label @ '' must not contain controls or DEL'') k)))"

definition sdk_machine_path :: "string \<Rightarrow> bool" where
  "sdk_machine_path s \<longleftrightarrow>
     list_ex (\<lambda>p. starts p s) [''/'', ''~'', [CHR 0x5C], ''./'', ''../''] \<or> s \<in> {''.'', ''..''} \<or>
     CHR 0x5C \<in> set s \<or> starts ''file:'' (map lower_char s) \<or>
     (case s of
        c # d # _ \<Rightarrow> of_char c \<in> {65..90::nat} \<union> {97..122} \<and> d = CHR '':''
      | _ \<Rightarrow> False) \<or>
     CHR ''/'' \<in> set s"

definition sdk_identity :: "string \<Rightarrow> string \<Rightarrow> 'a result \<Rightarrow> 'a result" where
  "sdk_identity label s k =
     sdk_text label sdk_max_identity s (require (\<not> sdk_machine_path s) (label @ '' must not be a machine path'') k)"

definition sdk_sha256 :: "string \<Rightarrow> string \<Rightarrow> 'a result \<Rightarrow> 'a result" where
  "sdk_sha256 label s k = require (hex64 s) (label @ '' must be lowercase SHA-256'') k"

text \<open>\<open>[A-Za-z0-9][A-Za-z0-9._:-]*\<close> and \<open>[A-Za-z0-9][A-Za-z0-9!#$&^_.+-]*/[A-Za-z0-9][A-Za-z0-9!#$&^_.+-]*\<close>.\<close>

definition token_grammar :: "string \<Rightarrow> bool" where
  "token_grammar s \<longleftrightarrow> s \<noteq> [] \<and> alnum (hd s) \<and>
     list_all (\<lambda>c. alnum c \<or> c \<in> {CHR ''.'', CHR ''_'', CHR '':'', CHR ''-''}) (tl s)"

definition media_type_grammar :: "string \<Rightarrow> bool" where
  "media_type_grammar s \<longleftrightarrow>
     (let kind = takeWhile (\<lambda>c. c \<noteq> CHR ''/'') s; rest = dropWhile (\<lambda>c. c \<noteq> CHR ''/'') s in
      kind \<noteq> [] \<and> alnum (hd kind) \<and> list_all media_char (tl kind) \<and>
      rest \<noteq> [] \<and> tl rest \<noteq> [] \<and> alnum (hd (tl rest)) \<and> list_all media_char (tl (tl rest)))"

definition sdk_token :: "string \<Rightarrow> string \<Rightarrow> 'a result \<Rightarrow> 'a result" where
  "sdk_token label s k =
     sdk_text label sdk_max_role s (require (token_grammar s) (label @ '' has an invalid token grammar'') k)"

definition sdk_media_type :: "string \<Rightarrow> 'a result \<Rightarrow> 'a result" where
  "sdk_media_type s k =
     sdk_text ''media_type'' sdk_max_media s
       (require (s = map lower_char s \<and> media_type_grammar s) ''media_type must be one lowercase type/subtype'' k)"

section \<open>Numbers, versions, uniqueness\<close>

definition sdk_nonnegative :: "string \<Rightarrow> int \<Rightarrow> 'a result \<Rightarrow> 'a result" where
  "sdk_nonnegative label i k =
     require (0 \<le> i \<and> i \<le> sdk_max_signed) (label @ '' must be a nonnegative signed-64 integer'') k"

definition sdk_positive :: "string \<Rightarrow> nat \<Rightarrow> int \<Rightarrow> 'a result \<Rightarrow> 'a result" where
  "sdk_positive label maximum i k =
     require (1 \<le> i \<and> i \<le> int maximum) (label @ '' must be in 1..'' @ dec_nat maximum) k"

definition sdk_version_is :: "string \<Rightarrow> string \<Rightarrow> 'a result \<Rightarrow> 'a result" where
  "sdk_version_is expected v k = require (v = expected) ''unsupported SDK contract version'' k"

definition sdk_unique :: "string \<Rightarrow> string list \<Rightarrow> 'a result \<Rightarrow> 'a result" where
  "sdk_unique label xs k = require (distinct xs) (label @ '' must be unique'') k"

definition semantic_text :: "string \<Rightarrow> json \<Rightarrow> string" where
  "semantic_text domain v = dumps (JObj [(''domain'', JStr domain), (''value'', v)])"

definition semantic_sha256 :: "string \<Rightarrow> json \<Rightarrow> string" where
  "semantic_sha256 domain v = sha256_hex (semantic_text domain v)"

section \<open>Loaded documents\<close>

fun repr_items :: "string list \<Rightarrow> string" where
  "repr_items [] = []"
| "repr_items [x] = py_repr x"
| "repr_items (x # y # xs) = py_repr x @ '', '' @ repr_items (y # xs)"

definition closed_keys :: "string list \<Rightarrow> string \<Rightarrow> (string \<times> loaded) list \<Rightarrow> 'a result \<Rightarrow> 'a result" where
  "closed_keys expected label ps k =
     (let found = map fst ps;
          missing = sort (filter (\<lambda>x. x \<notin> set found) expected);
          extra = sort (filter (\<lambda>x. x \<notin> set expected) found)
      in require (set found = set expected)
           (label @ '' keys differ; missing=['' @ repr_items missing @ ''], extra=['' @ repr_items extra @ '']'') k)"

text \<open>Whether no value lies deeper than the bound; the violation has one message.\<close>

fun within_depth :: "nat \<Rightarrow> loaded \<Rightarrow> bool" where
  "within_depth d (LObj ps) = (d \<le> sdk_max_depth \<and> list_all (\<lambda>(k, v). within_depth (Suc d) v) ps)"
| "within_depth d (LList vs) = (d \<le> sdk_max_depth \<and> list_all (within_depth (Suc d)) vs)"
| "within_depth d v = (d \<le> sdk_max_depth)"

definition sdk_mapping :: "string \<Rightarrow> loaded \<Rightarrow> (string \<times> loaded) list result" where
  "sdk_mapping label v = (case v of LObj ps \<Rightarrow> Inr ps | _ \<Rightarrow> Inl (TypeError (label @ '' must be an object'')))"

definition sdk_array :: "string \<Rightarrow> loaded \<Rightarrow> loaded list result" where
  "sdk_array label v = (case v of LList vs \<Rightarrow> Inr vs | _ \<Rightarrow> Inl (TypeError (label @ '' must be an array'')))"

definition sdk_string :: "string \<Rightarrow> loaded \<Rightarrow> string result" where
  "sdk_string label v = (case v of LStr s \<Rightarrow> Inr s | _ \<Rightarrow> Inl (TypeError (label @ '' must be a string'')))"

definition sdk_integer :: "string \<Rightarrow> loaded \<Rightarrow> int result" where
  "sdk_integer label v = (case v of LInt i \<Rightarrow> Inr i | _ \<Rightarrow> Inl (TypeError (label @ '' must be an integer'')))"

section \<open>What is accepted\<close>

definition text_ok :: "nat \<Rightarrow> string \<Rightarrow> bool" where
  "text_ok maximum s \<longleftrightarrow> s \<noteq> [] \<and> stripped s \<and> ascii s \<and> length s \<le> maximum \<and> \<not> list_ex control_char s"

definition lexical_ok :: "string \<Rightarrow> bool" where
  "lexical_ok s \<longleftrightarrow> text_ok sdk_max_identity s \<and> \<not> sdk_machine_path s"

definition token_text_ok :: "string \<Rightarrow> bool" where
  "token_text_ok s \<longleftrightarrow> text_ok sdk_max_role s \<and> token_grammar s"

definition media_ok :: "string \<Rightarrow> bool" where
  "media_ok s \<longleftrightarrow> text_ok sdk_max_media s \<and> s = map lower_char s \<and> media_type_grammar s"

lemma sdk_text_Inr: "sdk_text l m s k = Inr x \<longleftrightarrow> text_ok m s \<and> k = Inr x"
  unfolding sdk_text_def text_ok_def require_Inr_iff by blast

lemma sdk_identity_Inr: "sdk_identity l s k = Inr x \<longleftrightarrow> lexical_ok s \<and> k = Inr x"
  unfolding sdk_identity_def lexical_ok_def sdk_text_Inr require_Inr_iff by blast

lemma sdk_sha256_Inr: "sdk_sha256 l s k = Inr x \<longleftrightarrow> hex64 s \<and> k = Inr x"
  by (simp add: sdk_sha256_def require_Inr_iff)

lemma sdk_token_Inr: "sdk_token l s k = Inr x \<longleftrightarrow> token_text_ok s \<and> k = Inr x"
  unfolding sdk_token_def token_text_ok_def sdk_text_Inr require_Inr_iff by blast

lemma sdk_media_type_Inr: "sdk_media_type s k = Inr x \<longleftrightarrow> media_ok s \<and> k = Inr x"
  unfolding sdk_media_type_def media_ok_def sdk_text_Inr require_Inr_iff by blast

lemma sdk_nonnegative_Inr: "sdk_nonnegative l i k = Inr x \<longleftrightarrow> 0 \<le> i \<and> i \<le> sdk_max_signed \<and> k = Inr x"
  by (simp add: sdk_nonnegative_def require_Inr_iff)

lemma sdk_positive_Inr: "sdk_positive l m i k = Inr x \<longleftrightarrow> 1 \<le> i \<and> i \<le> int m \<and> k = Inr x"
  by (simp add: sdk_positive_def require_Inr_iff)

lemma sdk_version_Inr: "sdk_version_is e v k = Inr x \<longleftrightarrow> v = e \<and> k = Inr x"
  by (simp add: sdk_version_is_def require_Inr_iff)

lemma sdk_unique_Inr: "sdk_unique l xs k = Inr x \<longleftrightarrow> distinct xs \<and> k = Inr x"
  by (simp add: sdk_unique_def require_Inr_iff)

lemma closed_keys_Inr: "closed_keys e l ps k = Inr x \<longleftrightarrow> set (map fst ps) = set e \<and> k = Inr x"
  unfolding closed_keys_def Let_def require_Inr_iff by blast

lemma sdk_field_Inr:
  "sdk_mapping l v = Inr ps \<longleftrightarrow> v = LObj ps"
  "sdk_array l v = Inr vs \<longleftrightarrow> v = LList vs"
  "sdk_string l v = Inr s \<longleftrightarrow> v = LStr s"
  "sdk_integer l v = Inr i \<longleftrightarrow> v = LInt i"
  by (auto simp: sdk_mapping_def sdk_array_def sdk_string_def sdk_integer_def split: loaded.splits)

lemmas sdk_check_Inr =
  sdk_text_Inr sdk_identity_Inr sdk_sha256_Inr sdk_token_Inr sdk_media_type_Inr sdk_nonnegative_Inr
  sdk_positive_Inr sdk_version_Inr sdk_unique_Inr closed_keys_Inr require_Inr_iff bindr_Inr_iff sdk_field_Inr

text \<open>What passes is short and prints as it is.\<close>

lemma text_okD: "text_ok m s \<Longrightarrow> ascii s \<and> length s \<le> m \<and> (\<forall>c \<in> set s. \<not> control_char c)"
  by (simp add: text_ok_def list_ex_iff)

lemma lexical_okD: "lexical_ok s \<Longrightarrow> text_ok sdk_max_identity s"
  by (simp add: lexical_ok_def)

lemma token_text_okD: "token_text_ok s \<Longrightarrow> text_ok sdk_max_role s"
  by (simp add: token_text_ok_def)

lemma media_okD: "media_ok s \<Longrightarrow> text_ok sdk_max_media s"
  by (simp add: media_ok_def)

text \<open>Equal digests of a domain come from equal values, up to a collision.\<close>

lemma semantic_sha256_eqD:
  assumes "semantic_sha256 d v = semantic_sha256 d w"
  shows "jsort v = jsort w \<or> sha256_collision (semantic_text d v) (semantic_text d w)"
proof (cases "semantic_text d v = semantic_text d w")
  case True
  from dumps_eqD [OF this [unfolded semantic_text_def]]
  show ?thesis using jsort_lookup [of _ _ "''value''"] by fastforce
qed (use assms in \<open>simp add: semantic_sha256_def sha256_collision_def\<close>)

lemma hex64_semantic: "hex64 (semantic_sha256 d v)"
  by (simp add: semantic_sha256_def hex64_sha256)

text \<open>
  When an ASCII text is stripped: no code point that \<open>str.strip\<close> removes starts or ends it.
\<close>

lemma starts_hd: "starts w s \<Longrightarrow> w \<noteq> [] \<Longrightarrow> s \<noteq> [] \<and> hd s = hd w"
  by (cases w; cases s) (auto simp: starts_def)

lemma ends_last: "ends w s \<Longrightarrow> w \<noteq> [] \<Longrightarrow> s \<noteq> [] \<and> last s = last w"
proof -
  assume e: "ends w s" and w: "w \<noteq> []"
  then have "s = take (length s - length w) s @ w" unfolding ends_def by (metis append_take_drop_id)
  then show ?thesis using w by (metis append_is_Nil_conv last_appendR)
qed

lemma white_texts:
  "list_all (\<lambda>n. utf8_char n \<noteq> [] \<and>
     (of_char (hd (utf8_char n)) \<in> {9..13::nat} \<union> {28..32} \<or> (128 :: nat) \<le> of_char (hd (utf8_char n))) \<and>
     (of_char (last (utf8_char n)) \<in> {9..13::nat} \<union> {28..32} \<or> (128 :: nat) \<le> of_char (last (utf8_char n)))) white_points"
  by (simp add: white_points_def utf8_char_def)

text \<open>An ASCII text is stripped when no white space begins or ends it.\<close>

lemma ascii_stripped:
  assumes "ascii s" "of_char (hd s) \<notin> {9..13::nat} \<union> {28..32}" "of_char (last s) \<notin> {9..13::nat} \<union> {28..32}"
  shows "stripped s"
proof -
  have "\<not> (starts (utf8_char n) s \<or> ends (utf8_char n) s)" if n: "n \<in> set white_points" for n
  proof
    assume "starts (utf8_char n) s \<or> ends (utf8_char n) s"
    then have "s \<noteq> [] \<and> (hd s = hd (utf8_char n) \<or> last s = last (utf8_char n))"
      using n white_texts starts_hd ends_last unfolding list_all_iff by metis
    moreover from this have "of_char (hd s) < (128 :: nat)" "of_char (last s) < (128 :: nat)"
      using assms(1) by (simp_all add: ascii_def list_all_iff)
    ultimately show False using n white_texts assms(2,3) unfolding list_all_iff by fastforce
  qed
  then show ?thesis by (simp add: stripped_def list_ex_iff)
qed

text \<open>
  \<open>workflow_sdk/identities.py\<close>: the nominal identities of the pure-firing boundary.  A lexical identity
  is one bounded text that names no path; a content identity is a digest.  A refused value is reported
  under the name of its class.
\<close>

definition lexical_identity :: "(string \<Rightarrow> 'a) \<Rightarrow> string \<Rightarrow> string \<Rightarrow> 'a result" where
  "lexical_identity C label s = sdk_identity label s (Inr (C s))"

definition digest_identity_of :: "(string \<Rightarrow> 'a) \<Rightarrow> string \<Rightarrow> string \<Rightarrow> 'a result" where
  "digest_identity_of C label s = sdk_sha256 label s (Inr (C s))"

lemma lexical_identity_Inr: "lexical_identity C l s = Inr x \<longleftrightarrow> lexical_ok s \<and> x = C s"
  by (auto simp: lexical_identity_def sdk_identity_Inr)

lemma digest_identity_of_Inr: "digest_identity_of C l s = Inr x \<longleftrightarrow> hex64 s \<and> x = C s"
  by (auto simp: digest_identity_of_def sdk_sha256_Inr)

datatype sdk_firer_id = SdkFirer (sdk_firer_value: string)
datatype sdk_implementation_id = SdkImplementation (sdk_implementation_value: string)
datatype sdk_binding_id = SdkBinding (sdk_binding_value: string)
datatype sdk_definition_id = SdkDefinition (sdk_definition_value: string)
datatype sdk_instance_id = SdkInstance (sdk_instance_value: string)
datatype sdk_transition_id = SdkTransition (sdk_transition_value: string)
datatype sdk_marking_id = SdkMarking (sdk_marking_value: string)
datatype sdk_occurrence_id = SdkOccurrence (sdk_occurrence_value: string)
datatype sdk_attempt_id = SdkAttempt (sdk_attempt_value: string)
datatype sdk_request_id = SdkRequest (sdk_request_value: string)
datatype sdk_result_id = SdkResult (sdk_result_value: string)
datatype sdk_integration_id = SdkIntegration (sdk_integration_value: string)
datatype sdk_manifest_id = SdkManifest (sdk_manifest_value: string)
datatype sdk_owner_id = SdkOwner (sdk_owner_value: string)
datatype sdk_type_id = SdkType (sdk_type_value: string)
datatype sdk_schema_id = SdkSchema (sdk_schema_value: string)
datatype sdk_codec_id = SdkCodec (sdk_codec_value: string)
datatype sdk_representation_id = SdkRepresentation (sdk_representation_value: string)

definition mk_sdk_firer :: "string \<Rightarrow> sdk_firer_id result" where
  "mk_sdk_firer = lexical_identity SdkFirer ''WorkflowFirerIdentity''"

definition mk_sdk_implementation :: "string \<Rightarrow> sdk_implementation_id result" where
  "mk_sdk_implementation = lexical_identity SdkImplementation ''WorkflowFirerImplementationIdentity''"

definition mk_sdk_binding :: "string \<Rightarrow> sdk_binding_id result" where
  "mk_sdk_binding = digest_identity_of SdkBinding ''WorkflowTransitionBindingIdentity''"

definition mk_sdk_definition :: "string \<Rightarrow> sdk_definition_id result" where
  "mk_sdk_definition = lexical_identity SdkDefinition ''WorkflowDefinitionIdentity''"

definition mk_sdk_instance :: "string \<Rightarrow> sdk_instance_id result" where
  "mk_sdk_instance = lexical_identity SdkInstance ''WorkflowNetInstanceIdentity''"

definition mk_sdk_transition :: "string \<Rightarrow> sdk_transition_id result" where
  "mk_sdk_transition = lexical_identity SdkTransition ''WorkflowTransitionIdentity''"

definition mk_sdk_marking :: "string \<Rightarrow> sdk_marking_id result" where
  "mk_sdk_marking = lexical_identity SdkMarking ''WorkflowMarkingIdentity''"

definition mk_sdk_occurrence :: "string \<Rightarrow> sdk_occurrence_id result" where
  "mk_sdk_occurrence = lexical_identity SdkOccurrence ''WorkflowOccurrenceIdentity''"

definition mk_sdk_attempt :: "string \<Rightarrow> sdk_attempt_id result" where
  "mk_sdk_attempt = lexical_identity SdkAttempt ''WorkflowAttemptIdentity''"

definition mk_sdk_request :: "string \<Rightarrow> sdk_request_id result" where
  "mk_sdk_request = digest_identity_of SdkRequest ''WorkflowFiringRequestIdentity''"

definition mk_sdk_result :: "string \<Rightarrow> sdk_result_id result" where
  "mk_sdk_result = digest_identity_of SdkResult ''WorkflowFiringResultIdentity''"

definition mk_sdk_integration :: "string \<Rightarrow> sdk_integration_id result" where
  "mk_sdk_integration = lexical_identity SdkIntegration ''WorkflowIntegrationIdentity''"

definition mk_sdk_manifest :: "string \<Rightarrow> sdk_manifest_id result" where
  "mk_sdk_manifest = digest_identity_of SdkManifest ''WorkflowIntegrationManifestIdentity''"

definition mk_sdk_owner :: "string \<Rightarrow> sdk_owner_id result" where
  "mk_sdk_owner = lexical_identity SdkOwner ''WorkflowPayloadOwnerIdentity''"

definition mk_sdk_type :: "string \<Rightarrow> sdk_type_id result" where
  "mk_sdk_type = lexical_identity SdkType ''WorkflowPayloadTypeIdentity''"

definition mk_sdk_schema :: "string \<Rightarrow> sdk_schema_id result" where
  "mk_sdk_schema = lexical_identity SdkSchema ''WorkflowPayloadSchemaIdentity''"

definition mk_sdk_codec :: "string \<Rightarrow> sdk_codec_id result" where
  "mk_sdk_codec = lexical_identity SdkCodec ''WorkflowPayloadCodecIdentity''"

definition mk_sdk_representation :: "string \<Rightarrow> sdk_representation_id result" where
  "mk_sdk_representation = lexical_identity SdkRepresentation ''WorkflowPayloadRepresentationIdentity''"

lemmas sdk_id_defs =
  mk_sdk_firer_def mk_sdk_implementation_def mk_sdk_binding_def mk_sdk_definition_def
  mk_sdk_instance_def mk_sdk_transition_def mk_sdk_marking_def mk_sdk_occurrence_def
  mk_sdk_attempt_def mk_sdk_request_def mk_sdk_result_def mk_sdk_integration_def
  mk_sdk_manifest_def mk_sdk_owner_def mk_sdk_type_def mk_sdk_schema_def
  mk_sdk_codec_def mk_sdk_representation_def

lemmas sdk_id_Inr = lexical_identity_Inr digest_identity_of_Inr

text \<open>An identity is its value.\<close>

lemmas sdk_id_expand =
  sdk_firer_id.expand sdk_implementation_id.expand sdk_binding_id.expand sdk_definition_id.expand
  sdk_instance_id.expand sdk_transition_id.expand sdk_marking_id.expand sdk_occurrence_id.expand
  sdk_attempt_id.expand sdk_request_id.expand sdk_result_id.expand sdk_integration_id.expand
  sdk_manifest_id.expand sdk_owner_id.expand sdk_type_id.expand sdk_schema_id.expand
  sdk_codec_id.expand sdk_representation_id.expand

lemma sdk_id_total [simp]:
  "lexical_ok (sdk_firer_value i1) \<Longrightarrow> mk_sdk_firer (sdk_firer_value i1) = Inr i1"
  "lexical_ok (sdk_implementation_value i2) \<Longrightarrow> mk_sdk_implementation (sdk_implementation_value i2) = Inr i2"
  "hex64 (sdk_binding_value i3) \<Longrightarrow> mk_sdk_binding (sdk_binding_value i3) = Inr i3"
  "lexical_ok (sdk_definition_value i4) \<Longrightarrow> mk_sdk_definition (sdk_definition_value i4) = Inr i4"
  "lexical_ok (sdk_instance_value i5) \<Longrightarrow> mk_sdk_instance (sdk_instance_value i5) = Inr i5"
  "lexical_ok (sdk_transition_value i6) \<Longrightarrow> mk_sdk_transition (sdk_transition_value i6) = Inr i6"
  "lexical_ok (sdk_marking_value i7) \<Longrightarrow> mk_sdk_marking (sdk_marking_value i7) = Inr i7"
  "lexical_ok (sdk_occurrence_value i8) \<Longrightarrow> mk_sdk_occurrence (sdk_occurrence_value i8) = Inr i8"
  "lexical_ok (sdk_attempt_value i9) \<Longrightarrow> mk_sdk_attempt (sdk_attempt_value i9) = Inr i9"
  "hex64 (sdk_request_value i10) \<Longrightarrow> mk_sdk_request (sdk_request_value i10) = Inr i10"
  "hex64 (sdk_result_value i11) \<Longrightarrow> mk_sdk_result (sdk_result_value i11) = Inr i11"
  "lexical_ok (sdk_integration_value i12) \<Longrightarrow> mk_sdk_integration (sdk_integration_value i12) = Inr i12"
  "hex64 (sdk_manifest_value i13) \<Longrightarrow> mk_sdk_manifest (sdk_manifest_value i13) = Inr i13"
  "lexical_ok (sdk_owner_value i14) \<Longrightarrow> mk_sdk_owner (sdk_owner_value i14) = Inr i14"
  "lexical_ok (sdk_type_value i15) \<Longrightarrow> mk_sdk_type (sdk_type_value i15) = Inr i15"
  "lexical_ok (sdk_schema_value i16) \<Longrightarrow> mk_sdk_schema (sdk_schema_value i16) = Inr i16"
  "lexical_ok (sdk_codec_value i17) \<Longrightarrow> mk_sdk_codec (sdk_codec_value i17) = Inr i17"
  "lexical_ok (sdk_representation_value i18) \<Longrightarrow> mk_sdk_representation (sdk_representation_value i18) = Inr i18"
  by (simp_all add: sdk_id_defs sdk_id_Inr)

lemma sdk_digest_total [simp]:
  "hex64 s \<Longrightarrow> mk_sdk_binding s = Inr (SdkBinding s)" "hex64 s \<Longrightarrow> mk_sdk_request s = Inr (SdkRequest s)"
  "hex64 s \<Longrightarrow> mk_sdk_result s = Inr (SdkResult s)" "hex64 s \<Longrightarrow> mk_sdk_manifest s = Inr (SdkManifest s)"
  by (simp_all add: sdk_id_defs sdk_id_Inr)

end
