(* ===== verification/Sdk_Firing.thy ===== *)
theory Sdk_Firing
  imports Sdk_Validation
begin

text \<open>
  \<open>workflow_sdk/payloads.py\<close>: payload contracts and inline payloads.  The seven fields that both classes
  begin with are one record that both extend; the bytes of a payload are a list of 8-bit characters.
\<close>

record payload_meta =
  pm_role :: string
  pm_owner :: sdk_owner_id
  pm_type :: sdk_type_id
  pm_schema :: sdk_schema_id
  pm_codec :: sdk_codec_id
  pm_representation :: sdk_representation_id
  pm_media :: string

record payload_contract = payload_meta +
  pc_maximum :: int

record inline_payload = payload_meta +
  ip_payload :: string
  ip_length :: int
  ip_sha256 :: string

definition mk_payload_contract :: "payload_contract \<Rightarrow> payload_contract result" where
  "mk_payload_contract c =
     sdk_token ''role'' (pm_role c)
    (sdk_media_type (pm_media c)
    (sdk_positive ''maximum_byte_length'' sdk_max_inline (pc_maximum c) (Inr c)))"

definition mk_inline_payload :: "inline_payload \<Rightarrow> inline_payload result" where
  "mk_inline_payload p =
     sdk_token ''role'' (pm_role p)
    (sdk_media_type (pm_media p)
    (require (ip_payload p \<noteq> [] \<and> length (ip_payload p) \<le> sdk_max_inline)
       (''payload must contain 1..'' @ dec_nat sdk_max_inline @ '' bytes'')
    (require (ip_length p = int (length (ip_payload p))) ''byte_length differs from payload''
    (sdk_sha256 ''payload_sha256'' (ip_sha256 p)
    (require (ip_sha256 p = sha256_hex (ip_payload p)) ''payload_sha256 differs from payload'' (Inr p))))))"

definition payload_meta_state :: "'a payload_meta_scheme \<Rightarrow> json list" where
  "payload_meta_state c =
     [JStr (pm_role c), JStr (sdk_owner_value (pm_owner c)), JStr (sdk_type_value (pm_type c)),
      JStr (sdk_schema_value (pm_schema c)), JStr (sdk_codec_value (pm_codec c)),
      JStr (sdk_representation_value (pm_representation c)), JStr (pm_media c)]"

definition payload_contract_state :: "payload_contract \<Rightarrow> json" where
  "payload_contract_state c = JList (payload_meta_state c @ [JInt (pc_maximum c)])"

definition payload_state :: "inline_payload \<Rightarrow> json" where
  "payload_state p = JList (payload_meta_state p @ [JInt (ip_length p), JStr (ip_sha256 p)])"

section \<open>What is accepted\<close>

text \<open>The identities of a record have passed their constructors.\<close>

definition meta_ids_ok :: "'a payload_meta_scheme \<Rightarrow> bool" where
  "meta_ids_ok c \<longleftrightarrow> lexical_ok (sdk_owner_value (pm_owner c)) \<and> lexical_ok (sdk_type_value (pm_type c)) \<and>
     lexical_ok (sdk_schema_value (pm_schema c)) \<and> lexical_ok (sdk_codec_value (pm_codec c)) \<and>
     lexical_ok (sdk_representation_value (pm_representation c))"

definition meta_ok :: "'a payload_meta_scheme \<Rightarrow> bool" where
  "meta_ok c \<longleftrightarrow> meta_ids_ok c \<and> token_text_ok (pm_role c) \<and> media_ok (pm_media c)"

definition contract_ok :: "payload_contract \<Rightarrow> bool" where
  "contract_ok c \<longleftrightarrow> meta_ok c \<and> 1 \<le> pc_maximum c \<and> pc_maximum c \<le> int sdk_max_inline"

definition payload_ok :: "inline_payload \<Rightarrow> bool" where
  "payload_ok p \<longleftrightarrow> meta_ok p \<and> ip_payload p \<noteq> [] \<and> length (ip_payload p) \<le> sdk_max_inline \<and>
     ip_length p = int (length (ip_payload p)) \<and> ip_sha256 p = sha256_hex (ip_payload p)"

lemma mk_payload_contract_Inr:
  "meta_ids_ok c \<Longrightarrow> mk_payload_contract c = Inr d \<longleftrightarrow> contract_ok c \<and> d = c"
  unfolding mk_payload_contract_def contract_ok_def meta_ok_def sdk_check_Inr by auto

lemma mk_inline_payload_Inr:
  "meta_ids_ok p \<Longrightarrow> mk_inline_payload p = Inr q \<longleftrightarrow> payload_ok p \<and> q = p"
  unfolding mk_inline_payload_def payload_ok_def meta_ok_def sdk_check_Inr by (auto simp: hex64_sha256)

lemma payload_okD: "payload_ok p \<Longrightarrow> meta_ok p \<and> 1 \<le> ip_length p \<and> ip_length p = int (length (ip_payload p))"
  by (cases "ip_payload p") (auto simp: payload_ok_def)

section \<open>The state determines the record\<close>

lemma payload_meta_state_length: "length (payload_meta_state c) = 7"
  by (simp add: payload_meta_state_def)

text \<open>The metadata of both classes, compared field by field.\<close>

definition same_meta :: "'a payload_meta_scheme \<Rightarrow> 'b payload_meta_scheme \<Rightarrow> bool" where
  "same_meta p c \<longleftrightarrow> pm_role p = pm_role c \<and> pm_owner p = pm_owner c \<and> pm_type p = pm_type c \<and>
     pm_schema p = pm_schema c \<and> pm_codec p = pm_codec c \<and> pm_representation p = pm_representation c \<and>
     pm_media p = pm_media c"

lemma payload_meta_state_eq: "payload_meta_state p = payload_meta_state c \<longleftrightarrow> same_meta p c"
  by (auto simp: payload_meta_state_def same_meta_def sdk_id_expand)

lemma payload_contract_state_inj: "payload_contract_state c = payload_contract_state d \<Longrightarrow> c = d"
  using payload_meta_state_eq [of c d]
  by (auto simp: payload_contract_state_def same_meta_def intro: payload_contract.equality)

lemma payload_state_eqD:
  assumes "payload_state p = payload_state q"
  shows "same_meta p q \<and> ip_length p = ip_length q \<and> ip_sha256 p = ip_sha256 q"
  using assms payload_meta_state_eq [of p q] by (simp add: payload_state_def)

lemma payload_state_inj:
  assumes "payload_state p = payload_state q" "payload_ok p" "payload_ok q"
  shows "p = q \<or> sha256_collision (ip_payload p) (ip_payload q)"
proof (cases "ip_payload p = ip_payload q")
  case True
  then show ?thesis
    using payload_state_eqD [OF assms(1)] by (auto simp: same_meta_def intro: inline_payload.equality)
next
  case False
  then show ?thesis using assms(2,3) payload_state_eqD [OF assms(1)] by (simp add: payload_ok_def sha256_collision_def)
qed

lemma jsort_payload_states [simp]:
  "jsort (payload_contract_state c) = payload_contract_state c" "jsort (payload_state p) = payload_state p"
  by (simp_all add: payload_contract_state_def payload_state_def payload_meta_state_def)

text \<open>
  The records of \<open>workflow_sdk/firing.py\<close>.  A record with a derived identity (\<open>field(init=False)\<close>) is
  built from a record whose identity field is not read.  The three result classes share their fields;
  \<open>fr_body\<close> holds what differs.
\<close>

definition sdk_version :: string where "sdk_version = ''0.1.0a1''"

section \<open>Bounds\<close>

record firing_bounds =
  fb_inputs :: int
  fb_outputs :: int
  fb_evidence :: int
  fb_input_bytes :: int
  fb_output_bytes :: int
  fb_total_bytes :: int
  fb_reasons :: int

definition bounds_fields :: "firing_bounds \<Rightarrow> (string \<times> int \<times> nat) list" where
  "bounds_fields b =
     [(''maximum_input_count'', fb_inputs b, sdk_max_payloads),
      (''maximum_output_count'', fb_outputs b, sdk_max_payloads),
      (''maximum_evidence_count'', fb_evidence b, sdk_max_payloads),
      (''maximum_input_bytes'', fb_input_bytes b, sdk_max_total),
      (''maximum_output_bytes'', fb_output_bytes b, sdk_max_total),
      (''maximum_total_bytes'', fb_total_bytes b, sdk_max_total),
      (''maximum_reason_count'', fb_reasons b, sdk_max_reasons)]"

definition sdk_check_bound :: "string \<times> int \<times> nat \<Rightarrow> 'a result \<Rightarrow> 'a result" where
  "sdk_check_bound f k =
     (case f of (name, v, maximum) \<Rightarrow>
        sdk_nonnegative name v (require (v \<le> int maximum) (name @ '' exceeds SDK hard limit '' @ dec_nat maximum) k))"

definition mk_firing_bounds :: "firing_bounds \<Rightarrow> firing_bounds result" where
  "mk_firing_bounds b =
     foldr sdk_check_bound (bounds_fields b)
       (require (max (fb_input_bytes b) (fb_output_bytes b) \<le> fb_total_bytes b)
         ''maximum_total_bytes must admit input and output byte bounds'' (Inr b))"

section \<open>Descriptors\<close>

record firer_descriptor =
  fd_identity :: sdk_firer_id
  fd_implementation :: sdk_implementation_id
  fd_inputs :: "payload_contract list"
  fd_outputs :: "payload_contract list"
  fd_evidence :: "payload_contract list"
  fd_bounds :: firing_bounds
  fd_version :: string

definition exact_tuple :: "string \<Rightarrow> nat \<Rightarrow> 'x list \<Rightarrow> 'a result \<Rightarrow> 'a result" where
  "exact_tuple label maximum xs k = require (length xs \<le> maximum) (label @ '' exceeds '' @ dec_nat maximum @ '' entries'') k"

definition check_contracts :: "string \<Rightarrow> payload_contract list \<Rightarrow> 'a result \<Rightarrow> 'a result" where
  "check_contracts name cs k =
     exact_tuple name sdk_max_contracts cs (sdk_unique (name @ '' roles'') (map pm_role cs) k)"

definition contract_bytes :: "payload_contract list \<Rightarrow> int" where
  "contract_bytes cs = sum_list (map pc_maximum cs)"

definition mk_firer_descriptor :: "firer_descriptor \<Rightarrow> firer_descriptor result" where
  "mk_firer_descriptor d =
     (let b = fd_bounds d; ins = fd_inputs d; outs = fd_outputs d; evs = fd_evidence d in
      check_contracts ''input_contracts'' ins
     (check_contracts ''output_contracts'' outs
     (check_contracts ''evidence_contracts'' evs
     (sdk_version_is sdk_version (fd_version d)
     (require (int (length ins) \<le> fb_inputs b) ''input contracts exceed descriptor bounds''
     (require (int (length outs) \<le> fb_outputs b) ''output contracts exceed descriptor bounds''
     (require (int (length evs) \<le> fb_evidence b) ''evidence contracts exceed descriptor bounds''
     (require (contract_bytes ins \<le> fb_input_bytes b) ''input contract bytes exceed descriptor bounds''
     (require (contract_bytes outs \<le> fb_output_bytes b) ''output contract bytes exceed descriptor bounds''
     (require (max (contract_bytes ins) (contract_bytes outs + contract_bytes evs) \<le> fb_total_bytes b)
        ''contract bytes exceed descriptor total bound'' (Inr d)))))))))))"

section \<open>Occurrences and bindings\<close>

record occurrence_context =
  oc_definition :: sdk_definition_id
  oc_instance :: sdk_instance_id
  oc_transition :: sdk_transition_id
  oc_marking :: sdk_marking_id
  oc_revision :: int
  oc_binding_sha256 :: string
  oc_occurrence :: sdk_occurrence_id
  oc_attempt :: sdk_attempt_id
  oc_ordinal :: int

definition mk_occurrence_context :: "occurrence_context \<Rightarrow> occurrence_context result" where
  "mk_occurrence_context c =
     sdk_nonnegative ''predecessor_revision'' (oc_revision c)
    (sdk_sha256 ''selected_binding_sha256'' (oc_binding_sha256 c)
    (sdk_nonnegative ''attempt_ordinal'' (oc_ordinal c) (Inr c)))"

record firer_binding =
  tb_identity :: sdk_binding_id
  tb_definition :: sdk_definition_id
  tb_transition :: sdk_transition_id
  tb_firer :: sdk_firer_id
  tb_inputs :: "string list"
  tb_outputs :: "string list"
  tb_version :: string

definition firer_binding_state :: "firer_binding \<Rightarrow> json" where
  "firer_binding_state b =
     JList [JStr (sdk_definition_value (tb_definition b)), JStr (sdk_transition_value (tb_transition b)),
       JStr (sdk_firer_value (tb_firer b)), JList (map JStr (tb_inputs b)), JList (map JStr (tb_outputs b)),
       JStr (tb_version b)]"

definition check_roles :: "string \<Rightarrow> string list \<Rightarrow> 'a result \<Rightarrow> 'a result" where
  "check_roles name rs k =
     exact_tuple name sdk_max_payloads rs (foldr (sdk_token (name @ '' role'')) rs (sdk_unique name rs k))"

definition mk_firer_binding :: "firer_binding \<Rightarrow> firer_binding result" where
  "mk_firer_binding b =
     check_roles ''input_roles'' (tb_inputs b)
    (check_roles ''output_roles'' (tb_outputs b)
    (sdk_token ''binding_version'' (tb_version b)
    (bindr (mk_sdk_binding (semantic_sha256 ''workflow-sdk-transition-firer-binding:1'' (firer_binding_state b)))
      (\<lambda>i. Inr (b\<lparr>tb_identity := i\<rparr>)))))"

section \<open>Requests\<close>

record firing_request =
  fq_identity :: sdk_request_id
  fq_context :: occurrence_context
  fq_binding :: sdk_binding_id
  fq_firer :: sdk_firer_id
  fq_inputs :: "inline_payload list"
  fq_version :: string

definition context_state :: "occurrence_context \<Rightarrow> json" where
  "context_state c =
     JList [JStr (sdk_definition_value (oc_definition c)), JStr (sdk_instance_value (oc_instance c)),
       JStr (sdk_transition_value (oc_transition c)), JStr (sdk_marking_value (oc_marking c)), JInt (oc_revision c),
       JStr (oc_binding_sha256 c), JStr (sdk_occurrence_value (oc_occurrence c)),
       JStr (sdk_attempt_value (oc_attempt c)), JInt (oc_ordinal c)]"

definition sdk_request_state :: "firing_request \<Rightarrow> json" where
  "sdk_request_state q =
     JList [context_state (fq_context q), JStr (sdk_binding_value (fq_binding q)), JStr (sdk_firer_value (fq_firer q)),
       JList (map payload_state (fq_inputs q)), JStr (fq_version q)]"

definition payload_bytes :: "inline_payload list \<Rightarrow> int" where
  "payload_bytes ps = sum_list (map ip_length ps)"

definition mk_firing_request :: "firing_request \<Rightarrow> firing_request result" where
  "mk_firing_request q =
     exact_tuple ''inputs'' sdk_max_payloads (fq_inputs q)
    (sdk_unique ''input roles'' (map pm_role (fq_inputs q))
    (require (payload_bytes (fq_inputs q) \<le> int sdk_max_total) ''input bytes exceed SDK hard limit''
    (sdk_version_is sdk_version (fq_version q)
    (bindr (mk_sdk_request (semantic_sha256 ''workflow-sdk-firing-request:1'' (sdk_request_state q)))
      (\<lambda>i. Inr (q\<lparr>fq_identity := i\<rparr>))))))"

section \<open>Results\<close>

datatype result_body =
    FiringSucceeded (body_outputs: "inline_payload list")
  | FiringRejected (body_codes: "string list")
  | FiringFailed (body_codes: "string list")

record firing_result =
  fr_identity :: sdk_result_id
  fr_request :: sdk_request_id
  fr_occurrence :: sdk_occurrence_id
  fr_attempt :: sdk_attempt_id
  fr_firer :: sdk_firer_id
  fr_body :: result_body
  fr_evidence :: "inline_payload list"
  fr_version :: string

fun sdk_outcome :: "result_body \<Rightarrow> string" where
  "sdk_outcome (FiringSucceeded _) = ''succeeded''"
| "sdk_outcome (FiringRejected _) = ''rejected''"
| "sdk_outcome (FiringFailed _) = ''failed''"

fun body_state :: "result_body \<Rightarrow> json" where
  "body_state (FiringSucceeded ps) = JList (map payload_state ps)"
| "body_state (FiringRejected cs) = JList (map JStr cs)"
| "body_state (FiringFailed cs) = JList (map JStr cs)"

definition sdk_result_state :: "firing_result \<Rightarrow> json" where
  "sdk_result_state r =
     JList [JStr (sdk_outcome (fr_body r)), JStr (sdk_request_value (fr_request r)),
       JStr (sdk_occurrence_value (fr_occurrence r)), JStr (sdk_attempt_value (fr_attempt r)),
       JStr (sdk_firer_value (fr_firer r)), body_state (fr_body r), JList (map payload_state (fr_evidence r)),
       JStr (fr_version r)]"

definition result_domain :: "result_body \<Rightarrow> string" where
  "result_domain b = ''workflow-sdk-firing-result-'' @ sdk_outcome b @ '':1''"

definition result_identity :: "firing_result \<Rightarrow> sdk_result_id result" where
  "result_identity r = mk_sdk_result (semantic_sha256 (result_domain (fr_body r)) (sdk_result_state r))"

definition check_codes :: "string \<Rightarrow> string list \<Rightarrow> 'a result \<Rightarrow> 'a result" where
  "check_codes label cs k =
     require (cs \<noteq> [] \<and> length cs \<le> sdk_max_reasons) (label @ '' must contain 1..'' @ dec_nat sdk_max_reasons @ '' values'')
    (foldr (sdk_token label) cs
    (require (cs = sort (remdups cs)) (label @ '' must be unique and canonically sorted'') k))"

definition check_payloads :: "string \<Rightarrow> inline_payload list \<Rightarrow> 'a result \<Rightarrow> 'a result" where
  "check_payloads label ps k =
     exact_tuple label sdk_max_payloads ps
    (sdk_unique (label @ '' roles'') (map pm_role ps)
    (require (payload_bytes ps \<le> int sdk_max_total) (label @ '' bytes exceed SDK hard limit'') k))"

fun check_body :: "result_body \<Rightarrow> 'a result \<Rightarrow> 'a result" where
  "check_body (FiringSucceeded ps) k = check_payloads ''outputs'' ps k"
| "check_body (FiringRejected cs) k = check_codes ''reason_codes'' cs k"
| "check_body (FiringFailed cs) k = check_codes ''failure_codes'' cs k"

definition mk_firing_result :: "firing_result \<Rightarrow> firing_result result" where
  "mk_firing_result r =
     sdk_version_is sdk_version (fr_version r)
    (check_body (fr_body r)
    (check_payloads ''evidence'' (fr_evidence r)
    (bindr (result_identity r) (\<lambda>i. Inr (r\<lparr>fr_identity := i\<rparr>)))))"

definition bounds_state :: "firing_bounds \<Rightarrow> json" where
  "bounds_state b =
     JList (map JInt [fb_inputs b, fb_outputs b, fb_evidence b, fb_input_bytes b, fb_output_bytes b,
       fb_total_bytes b, fb_reasons b])"

definition descriptor_state :: "firer_descriptor \<Rightarrow> json" where
  "descriptor_state d =
     JList [JStr (sdk_firer_value (fd_identity d)), JStr (sdk_implementation_value (fd_implementation d)),
       JList (map payload_contract_state (fd_inputs d)), JList (map payload_contract_state (fd_outputs d)),
       JList (map payload_contract_state (fd_evidence d)), bounds_state (fd_bounds d), JStr (fd_version d)]"

end
