(* ===== verification/Sdk_Valid.thy ===== *)
theory Sdk_Valid
  imports Sdk_Firing
begin

text \<open>
  Which firing records the constructors accept: \<open>..._ok\<close> holds of every object of the class.
\<close>

section \<open>Loops of checks\<close>

lemma foldr_check_Inr:
  assumes "\<And>y k. f y k = Inr x \<longleftrightarrow> P y \<and> k = Inr x"
  shows "foldr f ys k = Inr x \<longleftrightarrow> list_all P ys \<and> k = Inr x"
  using assms by (induction ys arbitrary: k) auto

lemma foldr_sdk_token: "foldr (sdk_token l) ys k = Inr x \<longleftrightarrow> list_all token_text_ok ys \<and> k = Inr x"
  by (rule foldr_check_Inr) (rule sdk_token_Inr)

lemma sorted_iff_sort: "xs = sort xs \<longleftrightarrow> sorted xs"
  by (metis sort_key_id_if_sorted sorted_sort list.map_ident)

lemma exact_tuple_Inr: "exact_tuple l m xs k = Inr x \<longleftrightarrow> length xs \<le> m \<and> k = Inr x"
  by (simp add: exact_tuple_def require_Inr_iff)

section \<open>Records\<close>

text \<open>Restoring a derived identity.\<close>

lemma tb_reidentified: "tb_identity e = i \<Longrightarrow> e = e\<lparr>tb_identity := i\<rparr>"
  by (cases e) simp

lemma fq_reidentified: "fq_identity e = i \<Longrightarrow> e = e\<lparr>fq_identity := i\<rparr>"
  by (cases e) simp

lemma fr_reidentified: "fr_identity e = i \<Longrightarrow> e = e\<lparr>fr_identity := i\<rparr>"
  by (cases e) simp

definition bound_ok :: "string \<times> int \<times> nat \<Rightarrow> bool" where
  "bound_ok f \<longleftrightarrow> (case f of (name, v, maximum) \<Rightarrow> 0 \<le> v \<and> v \<le> int maximum)"

definition bounds_ok :: "firing_bounds \<Rightarrow> bool" where
  "bounds_ok b \<longleftrightarrow> list_all bound_ok (bounds_fields b) \<and> max (fb_input_bytes b) (fb_output_bytes b) \<le> fb_total_bytes b"

lemma sdk_check_bound_Inr: "list_all (\<lambda>(n, v, m). m \<le> sdk_max_total) fs \<Longrightarrow>
    foldr sdk_check_bound fs k = Inr x \<longleftrightarrow> list_all bound_ok fs \<and> k = Inr x"
proof (induction fs)
  case (Cons f fs)
  obtain n v m where f: "f = (n, v, m)" by (cases f)
  have "int m \<le> sdk_max_signed" using Cons.prems by (simp add: f sdk_limits)
  then show ?case using Cons by (auto simp: f sdk_check_bound_def bound_ok_def sdk_nonnegative_Inr require_Inr_iff)
qed simp

lemma mk_firing_bounds_Inr: "mk_firing_bounds b = Inr c \<longleftrightarrow> bounds_ok b \<and> c = b"
proof -
  have "list_all (\<lambda>(n, v, m). m \<le> sdk_max_total) (bounds_fields b)"
    by (simp add: bounds_fields_def sdk_limits)
  then show ?thesis
    unfolding mk_firing_bounds_def bounds_ok_def by (auto simp: sdk_check_bound_Inr require_Inr_iff)
qed

definition contracts_ok :: "payload_contract list \<Rightarrow> bool" where
  "contracts_ok cs \<longleftrightarrow> list_all contract_ok cs \<and> length cs \<le> sdk_max_contracts \<and> distinct (map pm_role cs)"

definition descriptor_fits :: "firer_descriptor \<Rightarrow> bool" where
  "descriptor_fits d \<longleftrightarrow>
     int (length (fd_inputs d)) \<le> fb_inputs (fd_bounds d) \<and>
     int (length (fd_outputs d)) \<le> fb_outputs (fd_bounds d) \<and>
     int (length (fd_evidence d)) \<le> fb_evidence (fd_bounds d) \<and>
     contract_bytes (fd_inputs d) \<le> fb_input_bytes (fd_bounds d) \<and>
     contract_bytes (fd_outputs d) \<le> fb_output_bytes (fd_bounds d) \<and>
     contract_bytes (fd_inputs d) \<le> fb_total_bytes (fd_bounds d) \<and>
     contract_bytes (fd_outputs d) + contract_bytes (fd_evidence d) \<le> fb_total_bytes (fd_bounds d)"

definition descriptor_parts_ok :: "firer_descriptor \<Rightarrow> bool" where
  "descriptor_parts_ok d \<longleftrightarrow>
     lexical_ok (sdk_firer_value (fd_identity d)) \<and> lexical_ok (sdk_implementation_value (fd_implementation d)) \<and>
     list_all contract_ok (fd_inputs d) \<and> list_all contract_ok (fd_outputs d) \<and> list_all contract_ok (fd_evidence d) \<and>
     bounds_ok (fd_bounds d)"

definition descriptor_ok :: "firer_descriptor \<Rightarrow> bool" where
  "descriptor_ok d \<longleftrightarrow> descriptor_parts_ok d \<and> contracts_ok (fd_inputs d) \<and> contracts_ok (fd_outputs d) \<and>
     contracts_ok (fd_evidence d) \<and> fd_version d = sdk_version \<and> descriptor_fits d"

lemma check_contracts_Inr: "check_contracts n cs k = Inr x \<longleftrightarrow>
    length cs \<le> sdk_max_contracts \<and> distinct (map pm_role cs) \<and> k = Inr x"
  unfolding check_contracts_def exact_tuple_Inr sdk_unique_Inr by blast

lemma mk_firer_descriptor_Inr:
  "descriptor_parts_ok d \<Longrightarrow> mk_firer_descriptor d = Inr e \<longleftrightarrow> descriptor_ok d \<and> e = d"
  unfolding mk_firer_descriptor_def Let_def check_contracts_Inr sdk_check_Inr descriptor_ok_def contracts_ok_def
    descriptor_fits_def max.bounded_iff descriptor_parts_ok_def by (simp only: sum.inject) blast

definition context_ids_ok :: "occurrence_context \<Rightarrow> bool" where
  "context_ids_ok c \<longleftrightarrow> lexical_ok (sdk_definition_value (oc_definition c)) \<and> lexical_ok (sdk_instance_value (oc_instance c)) \<and>
     lexical_ok (sdk_transition_value (oc_transition c)) \<and> lexical_ok (sdk_marking_value (oc_marking c)) \<and>
     lexical_ok (sdk_occurrence_value (oc_occurrence c)) \<and> lexical_ok (sdk_attempt_value (oc_attempt c))"

definition sdk_signed :: "int \<Rightarrow> bool" where
  "sdk_signed i \<longleftrightarrow> 0 \<le> i \<and> i \<le> sdk_max_signed"

definition context_ok :: "occurrence_context \<Rightarrow> bool" where
  "context_ok c \<longleftrightarrow> context_ids_ok c \<and> sdk_signed (oc_revision c) \<and> hex64 (oc_binding_sha256 c) \<and> sdk_signed (oc_ordinal c)"

lemma mk_occurrence_context_Inr:
  "context_ids_ok c \<Longrightarrow> mk_occurrence_context c = Inr e \<longleftrightarrow> context_ok c \<and> e = c"
  unfolding mk_occurrence_context_def context_ok_def sdk_signed_def sdk_check_Inr by auto

definition roles_ok :: "string list \<Rightarrow> bool" where
  "roles_ok rs \<longleftrightarrow> length rs \<le> sdk_max_payloads \<and> list_all token_text_ok rs \<and> distinct rs"

definition binding_ids_ok :: "firer_binding \<Rightarrow> bool" where
  "binding_ids_ok b \<longleftrightarrow> lexical_ok (sdk_definition_value (tb_definition b)) \<and>
     lexical_ok (sdk_transition_value (tb_transition b)) \<and> lexical_ok (sdk_firer_value (tb_firer b))"

definition binding_digest :: "firer_binding \<Rightarrow> string" where
  "binding_digest b = semantic_sha256 ''workflow-sdk-transition-firer-binding:1'' (firer_binding_state b)"

definition firer_binding_ok :: "firer_binding \<Rightarrow> bool" where
  "firer_binding_ok b \<longleftrightarrow> binding_ids_ok b \<and> roles_ok (tb_inputs b) \<and> roles_ok (tb_outputs b) \<and>
     token_text_ok (tb_version b) \<and> tb_identity b = SdkBinding (binding_digest b)"

lemma check_roles_Inr: "check_roles n rs k = Inr x \<longleftrightarrow> roles_ok rs \<and> k = Inr x"
  unfolding check_roles_def roles_ok_def exact_tuple_Inr foldr_sdk_token sdk_unique_Inr by blast

lemma binding_digest_update [simp]: "binding_digest (b\<lparr>tb_identity := i\<rparr>) = binding_digest b"
  by (simp add: binding_digest_def firer_binding_state_def)

lemma mk_firer_binding_Inr:
  assumes "binding_ids_ok b"
  shows "mk_firer_binding b = Inr e \<longleftrightarrow> firer_binding_ok e \<and> b = e\<lparr>tb_identity := tb_identity b\<rparr>"
proof -
  let ?n = "b\<lparr>tb_identity := SdkBinding (binding_digest b)\<rparr>"
  have "mk_firer_binding b = Inr e \<longleftrightarrow>
      roles_ok (tb_inputs b) \<and> roles_ok (tb_outputs b) \<and> token_text_ok (tb_version b) \<and> e = ?n"
    unfolding mk_firer_binding_def check_roles_Inr sdk_check_Inr sdk_id_defs sdk_id_Inr binding_digest_def
    using hex64_semantic by auto
  also have "\<dots> \<longleftrightarrow> firer_binding_ok e \<and> b = e\<lparr>tb_identity := tb_identity b\<rparr>"
  proof
    assume "firer_binding_ok e \<and> b = e\<lparr>tb_identity := tb_identity b\<rparr>"
    then obtain i where "firer_binding_ok e" "b = e\<lparr>tb_identity := i\<rparr>" by blast
    then show "roles_ok (tb_inputs b) \<and> roles_ok (tb_outputs b) \<and> token_text_ok (tb_version b) \<and> e = ?n"
      using tb_reidentified [of e] by (simp add: firer_binding_ok_def)
  qed (use assms in \<open>simp add: firer_binding_ok_def binding_ids_ok_def\<close>)
  finally show ?thesis .
qed

definition payloads_ok :: "inline_payload list \<Rightarrow> bool" where
  "payloads_ok ps \<longleftrightarrow> list_all payload_ok ps \<and> length ps \<le> sdk_max_payloads \<and> distinct (map pm_role ps) \<and>
     payload_bytes ps \<le> int sdk_max_total"

definition request_parts_ok :: "firing_request \<Rightarrow> bool" where
  "request_parts_ok q \<longleftrightarrow> context_ok (fq_context q) \<and> hex64 (sdk_binding_value (fq_binding q)) \<and>
     lexical_ok (sdk_firer_value (fq_firer q)) \<and> list_all payload_ok (fq_inputs q)"

definition request_digest :: "firing_request \<Rightarrow> string" where
  "request_digest q = semantic_sha256 ''workflow-sdk-firing-request:1'' (sdk_request_state q)"

definition firing_request_ok :: "firing_request \<Rightarrow> bool" where
  "firing_request_ok q \<longleftrightarrow> request_parts_ok q \<and> payloads_ok (fq_inputs q) \<and> fq_version q = sdk_version \<and>
     fq_identity q = SdkRequest (request_digest q)"

lemma request_digest_update [simp]: "request_digest (q\<lparr>fq_identity := i\<rparr>) = request_digest q"
  by (simp add: request_digest_def sdk_request_state_def)

lemma mk_firing_request_Inr:
  assumes "request_parts_ok q"
  shows "mk_firing_request q = Inr e \<longleftrightarrow> firing_request_ok e \<and> q = e\<lparr>fq_identity := fq_identity q\<rparr>"
proof -
  let ?n = "q\<lparr>fq_identity := SdkRequest (request_digest q)\<rparr>"
  have "mk_firing_request q = Inr e \<longleftrightarrow> payloads_ok (fq_inputs q) \<and> fq_version q = sdk_version \<and> e = ?n"
    unfolding mk_firing_request_def exact_tuple_Inr sdk_check_Inr sdk_id_defs sdk_id_Inr request_digest_def payloads_ok_def
    using hex64_semantic assms by (auto simp: request_parts_ok_def)
  also have "\<dots> \<longleftrightarrow> firing_request_ok e \<and> q = e\<lparr>fq_identity := fq_identity q\<rparr>"
  proof
    assume "firing_request_ok e \<and> q = e\<lparr>fq_identity := fq_identity q\<rparr>"
    then obtain i where "firing_request_ok e" "q = e\<lparr>fq_identity := i\<rparr>" by blast
    then show "payloads_ok (fq_inputs q) \<and> fq_version q = sdk_version \<and> e = ?n"
      using fq_reidentified [of e] by (simp add: firing_request_ok_def)
  qed (use assms in \<open>simp add: firing_request_ok_def request_parts_ok_def\<close>)
  finally show ?thesis .
qed

definition codes_ok :: "string list \<Rightarrow> bool" where
  "codes_ok cs \<longleftrightarrow> cs \<noteq> [] \<and> length cs \<le> sdk_max_reasons \<and> list_all token_text_ok cs \<and> cs = sort (remdups cs)"

fun body_ok :: "result_body \<Rightarrow> bool" where
  "body_ok (FiringSucceeded ps) = payloads_ok ps"
| "body_ok (FiringRejected cs) = codes_ok cs"
| "body_ok (FiringFailed cs) = codes_ok cs"

fun body_parts_ok :: "result_body \<Rightarrow> bool" where
  "body_parts_ok (FiringSucceeded ps) = list_all payload_ok ps"
| "body_parts_ok _ = True"

definition result_parts_ok :: "firing_result \<Rightarrow> bool" where
  "result_parts_ok r \<longleftrightarrow> hex64 (sdk_request_value (fr_request r)) \<and> lexical_ok (sdk_occurrence_value (fr_occurrence r)) \<and>
     lexical_ok (sdk_attempt_value (fr_attempt r)) \<and> lexical_ok (sdk_firer_value (fr_firer r)) \<and>
     body_parts_ok (fr_body r) \<and> list_all payload_ok (fr_evidence r)"

definition result_digest :: "firing_result \<Rightarrow> string" where
  "result_digest r = semantic_sha256 (result_domain (fr_body r)) (sdk_result_state r)"

definition firing_result_ok :: "firing_result \<Rightarrow> bool" where
  "firing_result_ok r \<longleftrightarrow> result_parts_ok r \<and> body_ok (fr_body r) \<and> payloads_ok (fr_evidence r) \<and>
     fr_version r = sdk_version \<and> fr_identity r = SdkResult (result_digest r)"

lemma result_digest_update [simp]: "result_digest (r\<lparr>fr_identity := i\<rparr>) = result_digest r"
  by (simp add: result_digest_def sdk_result_state_def)

lemma check_codes_Inr: "check_codes l cs k = Inr x \<longleftrightarrow> codes_ok cs \<and> k = Inr x"
  unfolding check_codes_def codes_ok_def require_Inr_iff foldr_sdk_token by blast

lemma check_payloads_Inr:
  "list_all payload_ok ps \<Longrightarrow> check_payloads l ps k = Inr x \<longleftrightarrow> payloads_ok ps \<and> k = Inr x"
  unfolding check_payloads_def payloads_ok_def exact_tuple_Inr sdk_unique_Inr require_Inr_iff by blast

lemma check_body_Inr: "body_parts_ok b \<Longrightarrow> check_body b k = Inr x \<longleftrightarrow> body_ok b \<and> k = Inr x"
  by (cases b) (simp_all add: check_codes_Inr check_payloads_Inr)

lemma result_identity_total: "result_identity r = Inr (SdkResult (result_digest r))"
  by (simp add: result_identity_def result_digest_def mk_sdk_result_def digest_identity_of_Inr hex64_semantic)

lemma mk_firing_result_Inr:
  assumes "result_parts_ok r"
  shows "mk_firing_result r = Inr e \<longleftrightarrow> firing_result_ok e \<and> r = e\<lparr>fr_identity := fr_identity r\<rparr>"
proof -
  let ?n = "r\<lparr>fr_identity := SdkResult (result_digest r)\<rparr>"
  have "body_parts_ok (fr_body r)" "list_all payload_ok (fr_evidence r)"
    using assms by (simp_all add: result_parts_ok_def)
  then have "mk_firing_result r = Inr e \<longleftrightarrow>
      body_ok (fr_body r) \<and> payloads_ok (fr_evidence r) \<and> fr_version r = sdk_version \<and> e = ?n"
    unfolding mk_firing_result_def result_identity_total sdk_version_Inr
    by (auto simp: check_body_Inr check_payloads_Inr)
  also have "\<dots> \<longleftrightarrow> firing_result_ok e \<and> r = e\<lparr>fr_identity := fr_identity r\<rparr>"
  proof
    assume "firing_result_ok e \<and> r = e\<lparr>fr_identity := fr_identity r\<rparr>"
    then obtain i where "firing_result_ok e" "r = e\<lparr>fr_identity := i\<rparr>" by blast
    then show "body_ok (fr_body r) \<and> payloads_ok (fr_evidence r) \<and> fr_version r = sdk_version \<and> e = ?n"
      using fr_reidentified [of e] by (simp add: firing_result_ok_def)
  qed (use assms in \<open>simp add: firing_result_ok_def result_parts_ok_def\<close>)
  finally show ?thesis .
qed

text \<open>
  \<open>workflow_sdk/integration.py\<close>: the manifest of an installed integration, with its descriptors in the
  order of their identities.
\<close>

record integration_manifest =
  im_identity :: sdk_manifest_id
  im_integration :: sdk_integration_id
  im_package :: string
  im_package_version :: string
  im_distribution :: string
  im_version :: string
  im_descriptors :: "firer_descriptor list"

definition manifest_state :: "integration_manifest \<Rightarrow> json" where
  "manifest_state m =
     JList [JStr (sdk_integration_value (im_integration m)), JStr (im_package m), JStr (im_package_version m),
       JStr (im_distribution m), JStr (im_version m), JList (map descriptor_state (im_descriptors m))]"

definition descriptor_key :: "firer_descriptor \<Rightarrow> string" where
  "descriptor_key d = sdk_firer_value (fd_identity d)"

definition mk_integration_manifest :: "integration_manifest \<Rightarrow> integration_manifest result" where
  "mk_integration_manifest m =
     (let keys = map descriptor_key (im_descriptors m) in
      sdk_text ''package_name'' sdk_max_text (im_package m)
     (sdk_text ''package_version'' sdk_max_text (im_package_version m)
     (sdk_sha256 ''distribution_sha256'' (im_distribution m)
     (sdk_version_is sdk_version (im_version m)
     (exact_tuple ''firer_descriptors'' sdk_max_contracts (im_descriptors m)
     (require (distinct keys) ''firer descriptor identities must be unique''
     (require (keys = sort keys) ''firer descriptors must be sorted by firer identity''
     (bindr (mk_sdk_manifest (semantic_sha256 ''workflow-sdk-integration-manifest:1'' (manifest_state m)))
       (\<lambda>i. Inr (m\<lparr>im_identity := i\<rparr>))))))))))"

definition manifest_digest :: "integration_manifest \<Rightarrow> string" where
  "manifest_digest m = semantic_sha256 ''workflow-sdk-integration-manifest:1'' (manifest_state m)"

definition manifest_parts_ok :: "integration_manifest \<Rightarrow> bool" where
  "manifest_parts_ok m \<longleftrightarrow> lexical_ok (sdk_integration_value (im_integration m)) \<and> list_all descriptor_ok (im_descriptors m)"

definition manifest_ok :: "integration_manifest \<Rightarrow> bool" where
  "manifest_ok m \<longleftrightarrow> manifest_parts_ok m \<and> text_ok sdk_max_text (im_package m) \<and>
     text_ok sdk_max_text (im_package_version m) \<and> hex64 (im_distribution m) \<and> im_version m = sdk_version \<and>
     length (im_descriptors m) \<le> sdk_max_contracts \<and> canonical descriptor_key (im_descriptors m) \<and>
     im_identity m = SdkManifest (manifest_digest m)"

lemma manifest_digest_update [simp]: "manifest_digest (m\<lparr>im_identity := i\<rparr>) = manifest_digest m"
  by (simp add: manifest_digest_def manifest_state_def)

lemma im_reidentified: "im_identity e = i \<Longrightarrow> e = e\<lparr>im_identity := i\<rparr>"
  by (cases e) simp

lemma mk_sdk_manifest_digest:
  "mk_sdk_manifest (semantic_sha256 ''workflow-sdk-integration-manifest:1'' (manifest_state m)) = Inr (SdkManifest (manifest_digest m))"
  by (simp add: manifest_digest_def mk_sdk_manifest_def digest_identity_of_Inr hex64_semantic)

lemma mk_integration_manifest_Inr:
  assumes "manifest_parts_ok m"
  shows "mk_integration_manifest m = Inr e \<longleftrightarrow> manifest_ok e \<and> m = e\<lparr>im_identity := im_identity m\<rparr>"
proof -
  let ?n = "m\<lparr>im_identity := SdkManifest (manifest_digest m)\<rparr>"
  let ?ok = "text_ok sdk_max_text (im_package m) \<and> text_ok sdk_max_text (im_package_version m) \<and>
      hex64 (im_distribution m) \<and> im_version m = sdk_version \<and> length (im_descriptors m) \<le> sdk_max_contracts \<and>
      canonical descriptor_key (im_descriptors m)"
  have "mk_integration_manifest m = Inr e \<longleftrightarrow> ?ok \<and> e = ?n"
    unfolding mk_integration_manifest_def Let_def sdk_text_Inr sdk_sha256_Inr sdk_version_Inr exact_tuple_Inr
      require_Inr_iff mk_sdk_manifest_digest bindr.simps sorted_iff_sort canonical_def by auto
  also have "\<dots> \<longleftrightarrow> manifest_ok e \<and> m = e\<lparr>im_identity := im_identity m\<rparr>"
  proof
    assume "manifest_ok e \<and> m = e\<lparr>im_identity := im_identity m\<rparr>"
    then obtain i where "manifest_ok e" "m = e\<lparr>im_identity := i\<rparr>" by blast
    then show "?ok \<and> e = ?n"
      using im_reidentified [of e] by (simp add: manifest_ok_def)
  qed (use assms in \<open>simp add: manifest_ok_def manifest_parts_ok_def\<close>)
  finally show ?thesis .
qed

text \<open>
  A derived identity determines the content, up to a collision of SHA-256.
\<close>

lemma jsort_states [simp]:
  "jsort (firer_binding_state b) = firer_binding_state b" "jsort (context_state c) = context_state c"
  "jsort (sdk_request_state q) = sdk_request_state q" "jsort (bounds_state w) = bounds_state w"
  "jsort (descriptor_state d) = descriptor_state d" "jsort (manifest_state m) = manifest_state m"
  by (simp_all add: firer_binding_state_def context_state_def sdk_request_state_def bounds_state_def
      descriptor_state_def manifest_state_def)

lemma jsort_body [simp]: "jsort (body_state b) = body_state b"
  by (cases b) simp_all

lemma jsort_result [simp]: "jsort (sdk_result_state r) = sdk_result_state r"
  by (simp add: sdk_result_state_def)

lemma context_state_inj: "context_state c = context_state d \<Longrightarrow> c = d"
  by (auto simp: context_state_def sdk_id_expand intro: occurrence_context.equality)

lemma map_state_eq: "map payload_state ps = map payload_state qs \<Longrightarrow>
    list_all payload_ok ps \<Longrightarrow> list_all payload_ok qs \<Longrightarrow>
    ps = qs \<or> (\<exists>p \<in> set ps. \<exists>q \<in> set qs. sha256_collision (ip_payload p) (ip_payload q))"
proof (induction ps arbitrary: qs)
  case (Cons p ps)
  then obtain q qs' where q: "qs = q # qs'" "payload_state p = payload_state q" "map payload_state ps = map payload_state qs'"
    by (cases qs) auto
  then show ?case using Cons.IH [of qs'] Cons.prems payload_state_inj [of p q] by auto
qed simp

end
