(* ===== verification/Py_Base64.thy ===== *)
theory Py_Base64
  imports Py_Text
begin

text \<open>
  \<open>base64.b64encode\<close> and \<open>base64.b64decode(..., validate=True)\<close>.  The decoder is the loop of
  \<open>binascii.a2b_base64\<close> in strict mode; every error of it is the value \<open>None\<close>.
\<close>

section \<open>Alphabet\<close>

text \<open>The letters \<open>A..Za..z0..9+/\<close>.\<close>

definition b64_char :: "nat \<Rightarrow> char" where
  "b64_char n = char_of (if n < 26 then n + 65 else if n < 52 then n + 71 else if n < 62 then n - 4
     else if n = 62 then 43 else 47)"

definition b64_value :: "char \<Rightarrow> nat option" where
  "b64_value c =
     (let n = of_char c in
      if 65 \<le> n \<and> n \<le> 90 then Some (n - 65)
      else if 97 \<le> n \<and> n \<le> 122 then Some (n - 71)
      else if 48 \<le> n \<and> n \<le> 57 then Some (n + 4)
      else if n = 43 then Some 62 else if n = 47 then Some 63 else None)"

lemma of_char_b64:
  "n < 64 \<Longrightarrow> (of_char (b64_char n) :: nat) =
     (if n < 26 then n + 65 else if n < 52 then n + 71 else if n < 62 then n - 4
      else if n = 62 then 43 else 47)"
  by (simp add: b64_char_def)

lemma b64_value_char [simp]:
  assumes "n < 64"
  shows "b64_value (b64_char n) = Some n"
proof -
  consider "n < 26" | "26 \<le> n" "n < 52" | "52 \<le> n" "n < 62" | "n = 62" | "n = 63" using assms by linarith
  then show ?thesis using of_char_b64 [OF assms] by cases (auto simp add: b64_value_def Let_def)
qed

lemma b64_value_pad: "b64_value (CHR ''='') = None"
  by code_simp

lemma b64_char_not_pad [simp]: "n < 64 \<Longrightarrow> b64_char n \<noteq> CHR ''=''"
  using b64_value_char [of n] b64_value_pad by (metis option.distinct(1))

section \<open>Encoding\<close>

fun b64encode :: "string \<Rightarrow> string" where
  "b64encode [] = []"
| "b64encode [a] =
     (let x = of_char a in [b64_char (x div 4), b64_char (x mod 4 * 16), CHR ''='', CHR ''=''])"
| "b64encode [a, b] =
     (let x = of_char a; y = of_char b in
      [b64_char (x div 4), b64_char (x mod 4 * 16 + y div 16), b64_char (y mod 16 * 4), CHR ''=''])"
| "b64encode (a # b # c # r) =
     (let x = of_char a; y = of_char b; z = of_char c in
      b64_char (x div 4) # b64_char (x mod 4 * 16 + y div 16) # b64_char (y mod 16 * 4 + z div 64) #
      b64_char (z mod 64) # b64encode r)"

lemma group_count: "Suc (Suc (Suc (Suc (4 * (Suc (Suc n) div 3))))) = 4 * ((5 + n) div 3)"
  by presburger

lemma b64encode_length: "length (b64encode s) = 4 * ((length s + 2) div 3)"
  by (induction s rule: b64encode.induct) (simp_all add: Let_def group_count)

section \<open>Strict decoding\<close>

text \<open>
  The state of the loop: the position in the group of four, the number of padding characters, the
  bits left over, whether padding has started, and the bytes so far.
\<close>

fun a2b_loop :: "nat \<Rightarrow> nat \<Rightarrow> nat \<Rightarrow> bool \<Rightarrow> string \<Rightarrow> string \<Rightarrow> string option" where
  "a2b_loop quad pads left padding out [] = (if quad = 0 then Some out else None)"
| "a2b_loop quad pads left padding out (c # cs) =
     (if c = CHR ''='' then
        if 2 \<le> quad \<and> 4 \<le> quad + pads + 1 then (if cs = [] then Some out else None)
        else a2b_loop quad (if 2 \<le> quad then pads + 1 else pads) left True out cs
      else case b64_value c of
        None \<Rightarrow> None
      | Some v \<Rightarrow>
          if padding then None
          else if quad = 0 then a2b_loop 1 0 v False out cs
          else if quad = 1 then a2b_loop 2 0 (v mod 16) False (out @ [char_of (left * 4 + v div 16)]) cs
          else if quad = 2 then a2b_loop 3 0 (v mod 4) False (out @ [char_of (left * 16 + v div 4)]) cs
          else a2b_loop 0 0 0 False (out @ [char_of (left * 64 + v)]) cs)"

definition b64decode :: "string \<Rightarrow> string option" where
  "b64decode s = (if s \<noteq> [] \<and> hd s = CHR ''='' then None else a2b_loop 0 0 0 False [] s)"

text \<open>Decoding inverts encoding.\<close>

lemma low_part:
  fixes a b k :: nat
  shows "b < k \<Longrightarrow> (a * k + b) div k = a" "b < k \<Longrightarrow> (a * k + b) mod k = b"
  by simp_all

lemma byte_parts:
  fixes x y z :: nat
  assumes "x < 256" "y < 256" "z < 256"
  shows "x div 4 < 64" "x mod 4 * 16 < 64" "x mod 4 * 16 + y div 16 < 64" "y mod 16 * 4 < 64"
    "y mod 16 * 4 + z div 64 < 64" "z mod 64 < 64"
    "x div 4 * 4 + x mod 4 * 16 div 16 = x" "x div 4 * 4 + (x mod 4 * 16 + y div 16) div 16 = x"
    "(x mod 4 * 16 + y div 16) mod 16 * 16 + y mod 16 * 4 div 4 = y"
    "(x mod 4 * 16 + y div 16) mod 16 * 16 + (y mod 16 * 4 + z div 64) div 4 = y"
    "(y mod 16 * 4 + z div 64) mod 4 * 64 + z mod 64 = z"
proof -
  have h: "x mod 4 < 4" "y div 16 < 16" "y mod 16 < 16" "z div 64 < 4"
    using assms by (simp_all add: less_mult_imp_div_less)
  show "x div 4 < 64" "z mod 64 < 64" using assms by (simp_all add: less_mult_imp_div_less)
  show "x mod 4 * 16 < 64" "x mod 4 * 16 + y div 16 < 64" "y mod 16 * 4 < 64" "y mod 16 * 4 + z div 64 < 64"
    using h by linarith+
  show "x div 4 * 4 + x mod 4 * 16 div 16 = x" by simp
  show "x div 4 * 4 + (x mod 4 * 16 + y div 16) div 16 = x" using low_part(1) [OF h(2)] by simp
  show "(x mod 4 * 16 + y div 16) mod 16 * 16 + y mod 16 * 4 div 4 = y" using low_part(2) [OF h(2)] by simp
  show "(x mod 4 * 16 + y div 16) mod 16 * 16 + (y mod 16 * 4 + z div 64) div 4 = y"
    using low_part(2) [OF h(2)] low_part(1) [OF h(4)] by simp
  show "(y mod 16 * 4 + z div 64) mod 4 * 64 + z mod 64 = z" using low_part(2) [OF h(4)] by simp
qed

lemma of_char_byte: "(of_char c :: nat) < 256"
  using nat_of_char_less_256 by simp

lemma a2b_loop_encode: "a2b_loop 0 0 0 False out (b64encode s) = Some (out @ s)"
proof (induction s arbitrary: out rule: b64encode.induct)
  case (2 a)
  note p = byte_parts [OF of_char_byte [of a] of_char_byte [of a] of_char_byte [of a]]
  show ?case using p(1,2,7) by (simp add: Let_def)
next
  case (3 a b)
  note p = byte_parts [OF of_char_byte [of a] of_char_byte [of b] of_char_byte [of b]]
  show ?case using p(1,3,4,8,9) by (simp add: Let_def)
next
  case (4 a b c r)
  note p = byte_parts [OF of_char_byte [of a] of_char_byte [of b] of_char_byte [of c]]
  show ?case using p(1,3,5,6,8,10,11) 4 by (simp add: Let_def)
qed simp

lemma b64decode_encode: "b64decode (b64encode s) = Some s"
proof -
  have "b64encode s = [] \<or> hd (b64encode s) \<noteq> CHR ''=''"
  proof (cases s rule: b64encode.cases)
    case (2 a)
    then show ?thesis using byte_parts(1) [OF of_char_byte [of a] of_char_byte [of a] of_char_byte [of a]] by (simp add: Let_def)
  next
    case (3 a b)
    then show ?thesis using byte_parts(1) [OF of_char_byte [of a] of_char_byte [of b] of_char_byte [of b]] by (simp add: Let_def)
  next
    case (4 a b c r)
    then show ?thesis using byte_parts(1) [OF of_char_byte [of a] of_char_byte [of b] of_char_byte [of c]] by (simp add: Let_def)
  qed simp
  then show ?thesis using a2b_loop_encode [of "[]" s] by (auto simp: b64decode_def)
qed

lemma b64encode_inj: "b64encode s = b64encode t \<Longrightarrow> s = t"
  by (metis b64decode_encode option.inject)

text \<open>The letters of an encoding.\<close>

lemma b64encode_chars: "c \<in> set (b64encode s) \<Longrightarrow> c = CHR ''='' \<or> (\<exists>n < 64. c = b64_char n)"
proof (induction s rule: b64encode.induct)
  case (2 a)
  note p = byte_parts [OF of_char_byte [of a] of_char_byte [of a] of_char_byte [of a]]
  show ?case using 2 p(1,2) unfolding b64encode.simps Let_def list.set by blast
next
  case (3 a b)
  note p = byte_parts [OF of_char_byte [of a] of_char_byte [of b] of_char_byte [of b]]
  show ?case using 3 p(1,3,4) unfolding b64encode.simps Let_def list.set by blast
next
  case (4 a b c r)
  note p = byte_parts [OF of_char_byte [of a] of_char_byte [of b] of_char_byte [of c]]
  show ?case using 4 p(1,3,5,6) unfolding b64encode.simps Let_def list.set by blast
qed simp

end
