(* ===== verification/Sdk_Serialization.thy ===== *)
theory Sdk_Serialization
  imports Sdk_Valid Py_Base64
begin

text \<open>
  \<open>workflow_sdk/serialization.py\<close>: the canonical JSON documents of the SDK records and their strict
  decoders.  A dictionary of the source is the list of its items; the constructor calls of a decoder
  evaluate their arguments in the order of the source.
\<close>

section \<open>Documents and bytes\<close>

definition descriptor_schema :: string where
  "descriptor_schema = ''projectkoios.workflow-sdk.firer-descriptor:1''"
definition binding_schema :: string where
  "binding_schema = ''projectkoios.workflow-sdk.transition-firer-binding:1''"
definition firing_request_schema :: string where
  "firing_request_schema = ''projectkoios.workflow-sdk.firing-request:1''"
definition firing_result_schema :: string where
  "firing_result_schema = ''projectkoios.workflow-sdk.firing-result:1''"
definition manifest_schema :: string where
  "manifest_schema = ''projectkoios.workflow-sdk.integration-manifest:1''"
definition max_base64 :: nat where "max_base64 = 4 * ((sdk_max_inline + 2) div 3)"

fun sdk_object_pairs :: "(string \<times> loaded) list \<Rightarrow> (string \<times> loaded) list \<Rightarrow> loaded result" where
  "sdk_object_pairs acc [] = Inr (LObj acc)"
| "sdk_object_pairs acc ((k, v) # ps) =
     require (k \<notin> set (map fst acc)) (''duplicate JSON key: '' @ k) (sdk_object_pairs (acc @ [(k, v)]) ps)"

definition reject_number :: "string \<Rightarrow> loaded result" where
  "reject_number t = Inl (ValueError (''unsupported JSON number: '' @ t))"

definition sdk_hooks :: json_hooks where
  "sdk_hooks = \<lparr>on_object = sdk_object_pairs [], on_real = reject_number\<rparr>"

definition sdk_load :: "string \<Rightarrow> loaded result" where
  "sdk_load payload =
     require (payload \<noteq> [] \<and> length payload \<le> sdk_max_document)
       (''payload must contain 1..'' @ dec_nat sdk_max_document @ '' bytes'')
    (require (\<not> starts utf8_bom payload) ''payload must not contain a UTF-8 BOM''
    (require (utf8_ok payload) ''payload must be one valid UTF-8 JSON object''
    (case json_loads sdk_hooks payload of
       Inl (Raised e) \<Rightarrow> Inl e
     | Inl _ \<Rightarrow> Inl (ValueError ''payload must be one valid UTF-8 JSON object'')
     | Inr v \<Rightarrow> require (within_depth 1 v) ''document exceeds maximum JSON depth'' (Inr v))))"

definition sdk_dump :: "json \<Rightarrow> string result" where
  "sdk_dump v =
     (let payload = dumps v in
      require (payload \<noteq> [] \<and> length payload \<le> sdk_max_document) ''encoded document exceeds SDK bound'' (Inr payload))"

definition require_canonical :: "string \<Rightarrow> string \<Rightarrow> 'a result \<Rightarrow> 'a result" where
  "require_canonical expected supplied k = require (expected = supplied) ''payload is not the exact canonical encoding'' k"

text \<open>The end of every decoder: the fields, and the canonical bytes compared with the bytes given.\<close>

definition sdk_decode :: "(loaded \<Rightarrow> 'a result) \<Rightarrow> ('a \<Rightarrow> string result) \<Rightarrow> string \<Rightarrow> 'a result" where
  "sdk_decode read encode payload =
     bindr (sdk_load payload) (\<lambda>root. bindr (read root) (\<lambda>x.
     bindr (encode x) (\<lambda>expected. require_canonical expected payload (Inr x))))"

section \<open>Fields\<close>

definition mapping_field :: "(string \<times> loaded) list \<Rightarrow> string \<Rightarrow> (string \<times> loaded) list result" where
  "mapping_field item f = sdk_mapping f (member f item)"

definition array_field :: "(string \<times> loaded) list \<Rightarrow> string \<Rightarrow> nat \<Rightarrow> loaded list result" where
  "array_field item f maximum =
     bindr (sdk_array f (member f item)) (\<lambda>vs.
     require (length vs \<le> maximum) (f @ '' exceeds '' @ dec_nat maximum @ '' entries'') (Inr vs))"

definition string_field :: "(string \<times> loaded) list \<Rightarrow> string \<Rightarrow> string result" where
  "string_field item f = sdk_string f (member f item)"

definition integer_field :: "(string \<times> loaded) list \<Rightarrow> string \<Rightarrow> int result" where
  "integer_field item f = sdk_integer f (member f item)"

definition at_index :: "string \<Rightarrow> nat \<Rightarrow> string" where
  "at_index label i = label @ ''['' @ dec_nat i @ '']''"

definition sdk_string_tuple :: "(string \<times> loaded) list \<Rightarrow> string \<Rightarrow> nat \<Rightarrow> string list result" where
  "sdk_string_tuple item f maximum =
     bindr (array_field item f maximum) (\<lambda>vs. mapr (\<lambda>(i, v). sdk_string (at_index f i) v) (enumerate 0 vs))"

definition item_tuple ::
  "((string \<times> loaded) list \<Rightarrow> 'a result) \<Rightarrow> (string \<times> loaded) list \<Rightarrow> string \<Rightarrow> nat \<Rightarrow> 'a list result" where
  "item_tuple decode item f maximum =
     bindr (array_field item f maximum) (\<lambda>vs.
     mapr (\<lambda>(i, v). bindr (sdk_mapping (at_index f i) v) decode) (enumerate 0 vs))"

section \<open>Roots\<close>

definition sdk_document :: "string \<Rightarrow> string \<Rightarrow> json \<Rightarrow> json" where
  "sdk_document schema f v =
     JObj [(f, v), (''schema_identity'', JStr schema), (''sdk_contract_version'', JStr sdk_version)]"

definition root_metadata :: "(string \<times> loaded) list \<Rightarrow> string \<Rightarrow> 'a result \<Rightarrow> 'a result" where
  "root_metadata root schema k =
     bindr (string_field root ''schema_identity'') (\<lambda>s. require (s = schema) ''unsupported schema identity''
    (bindr (string_field root ''sdk_contract_version'') (\<lambda>v.
     require (v = sdk_version) ''unsupported SDK contract version'' k)))"

definition sdk_root :: "loaded \<Rightarrow> string \<Rightarrow> string \<Rightarrow> (string \<times> loaded) list result" where
  "sdk_root v schema f =
     bindr (sdk_mapping ''document'' v) (\<lambda>root.
     closed_keys [f, ''schema_identity'', ''sdk_contract_version''] ''document'' root
       (root_metadata root schema (Inr root)))"

section \<open>Payload contracts and payloads\<close>

definition decode_meta :: "(string \<times> loaded) list \<Rightarrow> payload_meta result" where
  "decode_meta item =
     bindr (string_field item ''role'') (\<lambda>role.
     bindr (bindr (string_field item ''owner_identity'') mk_sdk_owner) (\<lambda>owner.
     bindr (bindr (string_field item ''payload_type_identity'') mk_sdk_type) (\<lambda>type.
     bindr (bindr (string_field item ''schema_identity'') mk_sdk_schema) (\<lambda>schema.
     bindr (bindr (string_field item ''codec_identity'') mk_sdk_codec) (\<lambda>codec.
     bindr (bindr (string_field item ''representation_identity'') mk_sdk_representation) (\<lambda>rep.
     bindr (string_field item ''media_type'') (\<lambda>media.
     Inr \<lparr>pm_role = role, pm_owner = owner, pm_type = type, pm_schema = schema, pm_codec = codec,
          pm_representation = rep, pm_media = media\<rparr>)))))))"

definition contract_items :: "payload_contract \<Rightarrow> (string \<times> json) list" where
  "contract_items c =
     [(''codec_identity'', JStr (sdk_codec_value (pm_codec c))),
      (''maximum_byte_length'', JInt (pc_maximum c)),
      (''media_type'', JStr (pm_media c)),
      (''owner_identity'', JStr (sdk_owner_value (pm_owner c))),
      (''payload_type_identity'', JStr (sdk_type_value (pm_type c))),
      (''representation_identity'', JStr (sdk_representation_value (pm_representation c))),
      (''role'', JStr (pm_role c)),
      (''schema_identity'', JStr (sdk_schema_value (pm_schema c)))]"

definition contract_keys :: "string list" where
  "contract_keys =
     [''codec_identity'', ''maximum_byte_length'', ''media_type'', ''owner_identity'', ''payload_type_identity'',
      ''representation_identity'', ''role'', ''schema_identity'']"

definition decode_contract :: "(string \<times> loaded) list \<Rightarrow> payload_contract result" where
  "decode_contract item =
     closed_keys contract_keys ''payload contract'' item
    (bindr (decode_meta item) (\<lambda>m.
     bindr (integer_field item ''maximum_byte_length'') (\<lambda>n.
     mk_payload_contract (payload_meta.extend m (payload_contract.fields n)))))"

definition payload_items :: "inline_payload \<Rightarrow> (string \<times> json) list" where
  "payload_items p =
     [(''byte_length'', JInt (ip_length p)),
      (''codec_identity'', JStr (sdk_codec_value (pm_codec p))),
      (''media_type'', JStr (pm_media p)),
      (''owner_identity'', JStr (sdk_owner_value (pm_owner p))),
      (''payload_base64'', JStr (b64encode (ip_payload p))),
      (''payload_sha256'', JStr (ip_sha256 p)),
      (''payload_type_identity'', JStr (sdk_type_value (pm_type p))),
      (''representation_identity'', JStr (sdk_representation_value (pm_representation p))),
      (''role'', JStr (pm_role p)),
      (''schema_identity'', JStr (sdk_schema_value (pm_schema p)))]"

definition payload_keys :: "string list" where
  "payload_keys =
     [''byte_length'', ''codec_identity'', ''media_type'', ''owner_identity'', ''payload_base64'', ''payload_sha256'',
      ''payload_type_identity'', ''representation_identity'', ''role'', ''schema_identity'']"

definition decode_payload :: "(string \<times> loaded) list \<Rightarrow> inline_payload result" where
  "decode_payload item =
     closed_keys payload_keys ''inline payload'' item
    (bindr (string_field item ''payload_base64'') (\<lambda>encoded.
     require (py_len encoded \<le> max_base64) ''payload_base64 exceeds SDK bound''
    (case b64decode encoded of
       None \<Rightarrow> Inl (ValueError ''payload_base64 must be strict Base64'')
     | Some payload \<Rightarrow>
         require (b64encode payload = encoded) ''payload_base64 is noncanonical''
        (bindr (decode_meta item) (\<lambda>m.
         bindr (integer_field item ''byte_length'') (\<lambda>n.
         bindr (string_field item ''payload_sha256'') (\<lambda>h.
         mk_inline_payload (payload_meta.extend m (inline_payload.fields payload n h)))))))))"

section \<open>Descriptors\<close>

definition bounds_items :: "firing_bounds \<Rightarrow> (string \<times> json) list" where
  "bounds_items b =
     [(''maximum_evidence_count'', JInt (fb_evidence b)),
      (''maximum_input_bytes'', JInt (fb_input_bytes b)),
      (''maximum_input_count'', JInt (fb_inputs b)),
      (''maximum_output_bytes'', JInt (fb_output_bytes b)),
      (''maximum_output_count'', JInt (fb_outputs b)),
      (''maximum_reason_count'', JInt (fb_reasons b)),
      (''maximum_total_bytes'', JInt (fb_total_bytes b))]"

definition bounds_keys :: "string list" where
  "bounds_keys =
     [''maximum_evidence_count'', ''maximum_input_bytes'', ''maximum_input_count'', ''maximum_output_bytes'',
      ''maximum_output_count'', ''maximum_reason_count'', ''maximum_total_bytes'']"

definition decode_bounds :: "(string \<times> loaded) list \<Rightarrow> firing_bounds result" where
  "decode_bounds item =
     closed_keys bounds_keys ''bounds'' item
    (bindr (integer_field item ''maximum_input_count'') (\<lambda>ins.
     bindr (integer_field item ''maximum_output_count'') (\<lambda>outs.
     bindr (integer_field item ''maximum_evidence_count'') (\<lambda>evs.
     bindr (integer_field item ''maximum_input_bytes'') (\<lambda>ib.
     bindr (integer_field item ''maximum_output_bytes'') (\<lambda>ob.
     bindr (integer_field item ''maximum_total_bytes'') (\<lambda>tb.
     bindr (integer_field item ''maximum_reason_count'') (\<lambda>rs.
     mk_firing_bounds
       \<lparr>fb_inputs = ins, fb_outputs = outs, fb_evidence = evs, fb_input_bytes = ib, fb_output_bytes = ob,
        fb_total_bytes = tb, fb_reasons = rs\<rparr>))))))))"

definition contracts_json :: "payload_contract list \<Rightarrow> json" where
  "contracts_json cs = JList (map (\<lambda>c. JObj (contract_items c)) cs)"

definition descriptor_items :: "firer_descriptor \<Rightarrow> (string \<times> json) list" where
  "descriptor_items d =
     [(''bounds'', JObj (bounds_items (fd_bounds d))),
      (''evidence_contracts'', contracts_json (fd_evidence d)),
      (''identity'', JStr (sdk_firer_value (fd_identity d))),
      (''implementation_identity'', JStr (sdk_implementation_value (fd_implementation d))),
      (''input_contracts'', contracts_json (fd_inputs d)),
      (''output_contracts'', contracts_json (fd_outputs d)),
      (''sdk_contract_version'', JStr (fd_version d))]"

definition descriptor_keys :: "string list" where
  "descriptor_keys =
     [''bounds'', ''evidence_contracts'', ''identity'', ''implementation_identity'', ''input_contracts'',
      ''output_contracts'', ''sdk_contract_version'']"

definition decode_descriptor :: "(string \<times> loaded) list \<Rightarrow> firer_descriptor result" where
  "decode_descriptor item =
     closed_keys descriptor_keys ''descriptor'' item
    (bindr (bindr (string_field item ''identity'') mk_sdk_firer) (\<lambda>i.
     bindr (bindr (string_field item ''implementation_identity'') mk_sdk_implementation) (\<lambda>imp.
     bindr (item_tuple decode_contract item ''input_contracts'' sdk_max_contracts) (\<lambda>ins.
     bindr (item_tuple decode_contract item ''output_contracts'' sdk_max_contracts) (\<lambda>outs.
     bindr (item_tuple decode_contract item ''evidence_contracts'' sdk_max_contracts) (\<lambda>evs.
     bindr (bindr (mapping_field item ''bounds'') decode_bounds) (\<lambda>b.
     bindr (string_field item ''sdk_contract_version'') (\<lambda>v.
     mk_firer_descriptor
       \<lparr>fd_identity = i, fd_implementation = imp, fd_inputs = ins, fd_outputs = outs, fd_evidence = evs,
        fd_bounds = b, fd_version = v\<rparr>))))))))"

definition encode_descriptor :: "firer_descriptor \<Rightarrow> string result" where
  "encode_descriptor d = sdk_dump (sdk_document descriptor_schema ''descriptor'' (JObj (descriptor_items d)))"

definition read_descriptor :: "loaded \<Rightarrow> firer_descriptor result" where
  "read_descriptor v =
     bindr (sdk_root v descriptor_schema ''descriptor'') (\<lambda>root.
     bindr (mapping_field root ''descriptor'') decode_descriptor)"

definition decode_descriptor_bytes :: "string \<Rightarrow> firer_descriptor result" where
  "decode_descriptor_bytes = sdk_decode read_descriptor encode_descriptor"

section \<open>Bindings\<close>

definition binding_items :: "firer_binding \<Rightarrow> (string \<times> json) list" where
  "binding_items b =
     [(''binding_version'', JStr (tb_version b)),
      (''definition_identity'', JStr (sdk_definition_value (tb_definition b))),
      (''firer_identity'', JStr (sdk_firer_value (tb_firer b))),
      (''identity'', JStr (sdk_binding_value (tb_identity b))),
      (''input_roles'', JList (map JStr (tb_inputs b))),
      (''output_roles'', JList (map JStr (tb_outputs b))),
      (''transition_identity'', JStr (sdk_transition_value (tb_transition b)))]"

definition binding_keys :: "string list" where
  "binding_keys =
     [''binding_version'', ''definition_identity'', ''firer_identity'', ''identity'', ''input_roles'', ''output_roles'',
      ''transition_identity'']"

definition encode_binding :: "firer_binding \<Rightarrow> string result" where
  "encode_binding b = sdk_dump (sdk_document binding_schema ''binding'' (JObj (binding_items b)))"

definition decode_binding :: "(string \<times> loaded) list \<Rightarrow> firer_binding result" where
  "decode_binding item =
     closed_keys binding_keys ''binding'' item
    (bindr (bindr (string_field item ''definition_identity'') mk_sdk_definition) (\<lambda>d.
     bindr (bindr (string_field item ''transition_identity'') mk_sdk_transition) (\<lambda>t.
     bindr (bindr (string_field item ''firer_identity'') mk_sdk_firer) (\<lambda>f.
     bindr (sdk_string_tuple item ''input_roles'' sdk_max_payloads) (\<lambda>ins.
     bindr (sdk_string_tuple item ''output_roles'' sdk_max_payloads) (\<lambda>outs.
     bindr (string_field item ''binding_version'') (\<lambda>v.
     bindr (mk_firer_binding
       \<lparr>tb_identity = SdkBinding [], tb_definition = d, tb_transition = t, tb_firer = f, tb_inputs = ins,
        tb_outputs = outs, tb_version = v\<rparr>) (\<lambda>b.
     bindr (bindr (string_field item ''identity'') mk_sdk_binding) (\<lambda>supplied.
     require (tb_identity b = supplied) ''binding identity differs from semantic content'' (Inr b))))))))))"

definition read_binding :: "loaded \<Rightarrow> firer_binding result" where
  "read_binding v =
     bindr (sdk_root v binding_schema ''binding'') (\<lambda>root. bindr (mapping_field root ''binding'') decode_binding)"

definition decode_binding_bytes :: "string \<Rightarrow> firer_binding result" where
  "decode_binding_bytes = sdk_decode read_binding encode_binding"

section \<open>Requests\<close>

definition context_items :: "occurrence_context \<Rightarrow> (string \<times> json) list" where
  "context_items c =
     [(''attempt_identity'', JStr (sdk_attempt_value (oc_attempt c))),
      (''attempt_ordinal'', JInt (oc_ordinal c)),
      (''definition_identity'', JStr (sdk_definition_value (oc_definition c))),
      (''net_instance_identity'', JStr (sdk_instance_value (oc_instance c))),
      (''occurrence_identity'', JStr (sdk_occurrence_value (oc_occurrence c))),
      (''predecessor_marking_identity'', JStr (sdk_marking_value (oc_marking c))),
      (''predecessor_revision'', JInt (oc_revision c)),
      (''selected_binding_sha256'', JStr (oc_binding_sha256 c)),
      (''transition_identity'', JStr (sdk_transition_value (oc_transition c)))]"

definition context_keys :: "string list" where
  "context_keys =
     [''attempt_identity'', ''attempt_ordinal'', ''definition_identity'', ''net_instance_identity'',
      ''occurrence_identity'', ''predecessor_marking_identity'', ''predecessor_revision'', ''selected_binding_sha256'',
      ''transition_identity'']"

definition decode_context :: "(string \<times> loaded) list \<Rightarrow> occurrence_context result" where
  "decode_context item =
     closed_keys context_keys ''context'' item
    (bindr (bindr (string_field item ''definition_identity'') mk_sdk_definition) (\<lambda>d.
     bindr (bindr (string_field item ''net_instance_identity'') mk_sdk_instance) (\<lambda>n.
     bindr (bindr (string_field item ''transition_identity'') mk_sdk_transition) (\<lambda>t.
     bindr (bindr (string_field item ''predecessor_marking_identity'') mk_sdk_marking) (\<lambda>m.
     bindr (integer_field item ''predecessor_revision'') (\<lambda>rv.
     bindr (string_field item ''selected_binding_sha256'') (\<lambda>h.
     bindr (bindr (string_field item ''occurrence_identity'') mk_sdk_occurrence) (\<lambda>oc.
     bindr (bindr (string_field item ''attempt_identity'') mk_sdk_attempt) (\<lambda>a.
     bindr (integer_field item ''attempt_ordinal'') (\<lambda>n'.
     mk_occurrence_context
       \<lparr>oc_definition = d, oc_instance = n, oc_transition = t, oc_marking = m, oc_revision = rv,
        oc_binding_sha256 = h, oc_occurrence = oc, oc_attempt = a, oc_ordinal = n'\<rparr>))))))))))"

definition payloads_json :: "inline_payload list \<Rightarrow> json" where
  "payloads_json ps = JList (map (\<lambda>p. JObj (payload_items p)) ps)"

definition request_items :: "firing_request \<Rightarrow> (string \<times> json) list" where
  "request_items q =
     [(''binding_identity'', JStr (sdk_binding_value (fq_binding q))),
      (''context'', JObj (context_items (fq_context q))),
      (''firer_identity'', JStr (sdk_firer_value (fq_firer q))),
      (''identity'', JStr (sdk_request_value (fq_identity q))),
      (''inputs'', payloads_json (fq_inputs q)),
      (''sdk_contract_version'', JStr (fq_version q))]"

definition request_keys :: "string list" where
  "request_keys =
     [''binding_identity'', ''context'', ''firer_identity'', ''identity'', ''inputs'', ''sdk_contract_version'']"

definition encode_request :: "firing_request \<Rightarrow> string result" where
  "encode_request q = sdk_dump (sdk_document firing_request_schema ''request'' (JObj (request_items q)))"

definition decode_request :: "(string \<times> loaded) list \<Rightarrow> firing_request result" where
  "decode_request item =
     closed_keys request_keys ''request'' item
    (bindr (bindr (mapping_field item ''context'') decode_context) (\<lambda>c.
     bindr (bindr (string_field item ''binding_identity'') mk_sdk_binding) (\<lambda>b.
     bindr (bindr (string_field item ''firer_identity'') mk_sdk_firer) (\<lambda>f.
     bindr (item_tuple decode_payload item ''inputs'' sdk_max_payloads) (\<lambda>ps.
     bindr (string_field item ''sdk_contract_version'') (\<lambda>v.
     bindr (mk_firing_request
       \<lparr>fq_identity = SdkRequest [], fq_context = c, fq_binding = b, fq_firer = f, fq_inputs = ps, fq_version = v\<rparr>)
       (\<lambda>q.
     bindr (bindr (string_field item ''identity'') mk_sdk_request) (\<lambda>supplied.
     require (fq_identity q = supplied) ''request identity differs from semantic content'' (Inr q)))))))))"

definition read_request :: "loaded \<Rightarrow> firing_request result" where
  "read_request v =
     bindr (sdk_root v firing_request_schema ''request'') (\<lambda>root. bindr (mapping_field root ''request'') decode_request)"

definition decode_request_bytes :: "string \<Rightarrow> firing_request result" where
  "decode_request_bytes = sdk_decode read_request encode_request"

section \<open>Results\<close>

fun body_key :: "result_body \<Rightarrow> string" where
  "body_key (FiringSucceeded ps) = ''outputs''"
| "body_key (FiringRejected cs) = ''reason_codes''"
| "body_key (FiringFailed cs) = ''failure_codes''"

fun body_json :: "result_body \<Rightarrow> json" where
  "body_json (FiringSucceeded ps) = payloads_json ps"
| "body_json (FiringRejected cs) = JList (map JStr cs)"
| "body_json (FiringFailed cs) = JList (map JStr cs)"

definition result_items :: "firing_result \<Rightarrow> (string \<times> json) list" where
  "result_items r =
     [(''attempt_identity'', JStr (sdk_attempt_value (fr_attempt r))),
      (''evidence'', payloads_json (fr_evidence r)),
      (''firer_identity'', JStr (sdk_firer_value (fr_firer r))),
      (''identity'', JStr (sdk_result_value (fr_identity r))),
      (''occurrence_identity'', JStr (sdk_occurrence_value (fr_occurrence r))),
      (''request_identity'', JStr (sdk_request_value (fr_request r))),
      (''sdk_contract_version'', JStr (fr_version r)),
      (body_key (fr_body r), body_json (fr_body r))]"

definition result_keys :: "string \<Rightarrow> string list" where
  "result_keys variant =
     [''attempt_identity'', ''evidence'', ''firer_identity'', ''identity'', ''occurrence_identity'', ''request_identity'',
      ''sdk_contract_version'', variant]"

definition result_document :: "firing_result \<Rightarrow> json" where
  "result_document r =
     JObj [(''outcome'', JStr (sdk_outcome (fr_body r))), (''result'', JObj (result_items r)),
       (''schema_identity'', JStr firing_result_schema), (''sdk_contract_version'', JStr sdk_version)]"

definition encode_result :: "firing_result \<Rightarrow> string result" where
  "encode_result r = sdk_dump (result_document r)"

text \<open>What the three decoders share; \<open>body\<close> decodes the field of the variant.\<close>

definition decode_variant ::
  "string \<Rightarrow> ((string \<times> loaded) list \<Rightarrow> result_body result) \<Rightarrow> (string \<times> loaded) list \<Rightarrow> firing_result result" where
  "decode_variant variant body item =
     closed_keys (result_keys variant) ''result'' item
    (bindr (bindr (string_field item ''request_identity'') mk_sdk_request) (\<lambda>q.
     bindr (bindr (string_field item ''occurrence_identity'') mk_sdk_occurrence) (\<lambda>oc.
     bindr (bindr (string_field item ''attempt_identity'') mk_sdk_attempt) (\<lambda>a.
     bindr (bindr (string_field item ''firer_identity'') mk_sdk_firer) (\<lambda>f.
     bindr (body item) (\<lambda>b.
     bindr (item_tuple decode_payload item ''evidence'' sdk_max_payloads) (\<lambda>ev.
     bindr (string_field item ''sdk_contract_version'') (\<lambda>v.
     bindr (mk_firing_result
       \<lparr>fr_identity = SdkResult [], fr_request = q, fr_occurrence = oc, fr_attempt = a, fr_firer = f, fr_body = b,
        fr_evidence = ev, fr_version = v\<rparr>) (\<lambda>r.
     bindr (bindr (string_field item ''identity'') mk_sdk_result) (\<lambda>supplied.
     require (fr_identity r = supplied) ''result identity differs from semantic content'' (Inr r)))))))))))"

definition decode_succeeded :: "(string \<times> loaded) list \<Rightarrow> firing_result result" where
  "decode_succeeded =
     decode_variant ''outputs''
       (\<lambda>item. bindr (item_tuple decode_payload item ''outputs'' sdk_max_payloads) (\<lambda>ps. Inr (FiringSucceeded ps)))"

definition decode_rejected :: "(string \<times> loaded) list \<Rightarrow> firing_result result" where
  "decode_rejected =
     decode_variant ''reason_codes''
       (\<lambda>item. bindr (sdk_string_tuple item ''reason_codes'' sdk_max_reasons) (\<lambda>cs. Inr (FiringRejected cs)))"

definition decode_failed :: "(string \<times> loaded) list \<Rightarrow> firing_result result" where
  "decode_failed =
     decode_variant ''failure_codes''
       (\<lambda>item. bindr (sdk_string_tuple item ''failure_codes'' sdk_max_reasons) (\<lambda>cs. Inr (FiringFailed cs)))"

definition read_firing_result :: "loaded \<Rightarrow> firing_result result" where
  "read_firing_result v =
     bindr (sdk_mapping ''document'' v) (\<lambda>root.
     closed_keys [''outcome'', ''result'', ''schema_identity'', ''sdk_contract_version''] ''document'' root
    (root_metadata root firing_result_schema
    (bindr (string_field root ''outcome'') (\<lambda>outcome.
     bindr (mapping_field root ''result'') (\<lambda>item.
     if outcome = ''succeeded'' then decode_succeeded item
     else if outcome = ''rejected'' then decode_rejected item
     else if outcome = ''failed'' then decode_failed item
     else Inl (ValueError ''unsupported firing result outcome''))))))"

definition decode_result_bytes :: "string \<Rightarrow> firing_result result" where
  "decode_result_bytes = sdk_decode read_firing_result encode_result"

section \<open>Manifests\<close>

definition manifest_items :: "integration_manifest \<Rightarrow> (string \<times> json) list" where
  "manifest_items m =
     [(''distribution_sha256'', JStr (im_distribution m)),
      (''firer_descriptors'', JList (map (\<lambda>d. JObj (descriptor_items d)) (im_descriptors m))),
      (''identity'', JStr (sdk_manifest_value (im_identity m))),
      (''integration_identity'', JStr (sdk_integration_value (im_integration m))),
      (''package_name'', JStr (im_package m)),
      (''package_version'', JStr (im_package_version m)),
      (''sdk_contract_version'', JStr (im_version m))]"

definition manifest_keys :: "string list" where
  "manifest_keys =
     [''distribution_sha256'', ''firer_descriptors'', ''identity'', ''integration_identity'', ''package_name'',
      ''package_version'', ''sdk_contract_version'']"

definition encode_manifest :: "integration_manifest \<Rightarrow> string result" where
  "encode_manifest m = sdk_dump (sdk_document manifest_schema ''manifest'' (JObj (manifest_items m)))"

definition decode_manifest :: "(string \<times> loaded) list \<Rightarrow> integration_manifest result" where
  "decode_manifest item =
     closed_keys manifest_keys ''manifest'' item
    (bindr (bindr (string_field item ''integration_identity'') mk_sdk_integration) (\<lambda>i.
     bindr (string_field item ''package_name'') (\<lambda>p.
     bindr (string_field item ''package_version'') (\<lambda>pv.
     bindr (string_field item ''distribution_sha256'') (\<lambda>h.
     bindr (string_field item ''sdk_contract_version'') (\<lambda>v.
     bindr (item_tuple decode_descriptor item ''firer_descriptors'' sdk_max_contracts) (\<lambda>ds.
     bindr (mk_integration_manifest
       \<lparr>im_identity = SdkManifest [], im_integration = i, im_package = p, im_package_version = pv,
        im_distribution = h, im_version = v, im_descriptors = ds\<rparr>) (\<lambda>m.
     bindr (bindr (string_field item ''identity'') mk_sdk_manifest) (\<lambda>supplied.
     require (im_identity m = supplied) ''manifest identity differs from semantic content'' (Inr m))))))))))"

definition read_manifest :: "loaded \<Rightarrow> integration_manifest result" where
  "read_manifest v =
     bindr (sdk_root v manifest_schema ''manifest'') (\<lambda>root. bindr (mapping_field root ''manifest'') decode_manifest)"

definition decode_manifest_bytes :: "string \<Rightarrow> integration_manifest result" where
  "decode_manifest_bytes = sdk_decode read_manifest encode_manifest"

end
