(* ===== verification/Sdk_Wire.thy ===== *)
theory Sdk_Wire
  imports Sdk_Serialization
begin

text \<open>
  The documents of the SDK on the wire.  The locale \<open>wire_codec\<close> states what a codec needs of its
  document and of the reader of its fields, and derives both round trips; it is interpreted for the
  five codecs.
\<close>

section \<open>Loading what was dumped\<close>

lemma sdk_object_pairs_distinct:
  "distinct (map fst (acc @ ps)) \<Longrightarrow> sdk_object_pairs acc ps = Inr (LObj (acc @ ps))"
proof (induction ps arbitrary: acc)
  case (Cons p ps)
  then show ?case using Cons.IH [of "acc @ [p]"] by (cases p) auto
qed simp

lemma sdk_hooks_keep: "keeps_members sdk_hooks"
  using sdk_object_pairs_distinct [of "[]"] by (simp add: keeps_members_def sdk_hooks_def)

lemma sdk_dump_Inr: "sdk_dump v = Inr p \<longleftrightarrow> p = dumps v \<and> length p \<le> sdk_max_document \<and> p \<noteq> []"
  by (auto simp: sdk_dump_def Let_def require_Inr_iff)

lemma dumps_nonempty: "dumps v \<noteq> []"
  using dumps_start [of v] by auto

text \<open>A value that is read back from its text within the depth bound, when it stands at depth \<open>d\<close>.\<close>

definition wire_json :: "nat \<Rightarrow> json \<Rightarrow> bool" where
  "wire_json d v \<longleftrightarrow> loadable v \<and> json_utf8 v \<and> within_depth d (loaded_of v)"

lemma wire_json_simps [simp]:
  "wire_json d (JStr s) \<longleftrightarrow> utf8_ok s \<and> d \<le> sdk_max_depth"
  "wire_json d (JInt i) \<longleftrightarrow> printable_int i \<and> d \<le> sdk_max_depth"
  "wire_json d (JList xs) \<longleftrightarrow> list_all (wire_json (Suc d)) xs \<and> d \<le> sdk_max_depth"
  by (auto simp: wire_json_def list_all_iff)

lemma wire_json_obj [simp]:
  "wire_json d (JObj kvs) \<longleftrightarrow> distinct (map fst kvs) \<and> d \<le> sdk_max_depth \<and>
     list_all (\<lambda>(k, v). utf8_ok k \<and> wire_json (Suc d) v) kvs"
  by (auto simp: wire_json_def list_all_iff case_prod_beta)

lemma sdk_load_dump:
  assumes "wire_json 1 (JObj kvs)" "length (dumps (JObj kvs)) \<le> sdk_max_document"
  shows "sdk_load (dumps (JObj kvs)) = Inr (LObj (members kvs))"
proof -
  let ?v = "JObj kvs"
  have w: "loadable ?v" "json_utf8 ?v" "within_depth 1 (loaded_of ?v)"
    using assms(1) unfolding wire_json_def by blast+
  have "json_loads sdk_hooks (dumps ?v) = Inr (loaded_of ?v)" by (rule json_loads_dumps [OF sdk_hooks_keep w(1)])
  moreover have "utf8_ok (dumps ?v)" by (rule utf8_dumps [OF w(2)])
  moreover have "\<not> starts utf8_bom (dumps ?v)" by (simp add: starts_brace)
  ultimately show ?thesis
    unfolding sdk_load_def using assms(2) dumps_nonempty [of ?v] w(3) loaded_of_members [of kvs]
    by (simp only: require_True simp_thms sum.case)
qed

text \<open>Two hand-written decoders cannot differ on the bytes: what is decoded is what the bytes encode.\<close>

lemma sdk_decode_Inr:
  "sdk_decode read encode p = Inr x \<longleftrightarrow> (\<exists>v. sdk_load p = Inr v \<and> read v = Inr x) \<and> encode x = Inr p"
  by (auto simp: sdk_decode_def bindr_Inr_iff require_canonical_def require_Inr_iff)

locale wire_codec =
  fixes ok :: "'a \<Rightarrow> bool" and items :: "'a \<Rightarrow> (string \<times> json) list" and read :: "loaded \<Rightarrow> 'a result"
  assumes wire: "ok x \<Longrightarrow> wire_json 1 (JObj (items x))"
    and read_items: "ok x \<Longrightarrow> read (LObj (members (items x))) = Inr x"
    and read_ok: "read v = Inr x \<Longrightarrow> ok x"
begin

lemma decodes_encoded:
  assumes "ok x" "sdk_dump (JObj (items x)) = Inr p"
  shows "sdk_decode read (\<lambda>x. sdk_dump (JObj (items x))) p = Inr x"
proof -
  have p: "p = dumps (JObj (items x))" "length (dumps (JObj (items x))) \<le> sdk_max_document"
    using assms(2) unfolding sdk_dump_Inr by blast+
  have "sdk_load p = Inr (LObj (members (items x)))"
    unfolding p(1) by (rule sdk_load_dump [OF wire [OF assms(1)] p(2)])
  then show ?thesis
    unfolding sdk_decode_Inr using read_items [OF assms(1)] assms(2) by blast
qed

lemma encodes_decoded:
  "sdk_decode read (\<lambda>x. sdk_dump (JObj (items x))) p = Inr x \<Longrightarrow> ok x \<and> sdk_dump (JObj (items x)) = Inr p"
  unfolding sdk_decode_Inr using read_ok by blast

lemma corresponds:
  "sdk_decode read (\<lambda>x. sdk_dump (JObj (items x))) p = Inr x \<longleftrightarrow> ok x \<and> sdk_dump (JObj (items x)) = Inr p"
  using decodes_encoded encodes_decoded by blast

end

section \<open>Members of dumped dictionaries\<close>

lemma member_of_items:
  assumes "distinct (map fst kvs)"
  shows "member k (members kvs) = (case map_of kvs k of None \<Rightarrow> LNull | Some v \<Rightarrow> loaded_of v)"
proof (cases "map_of kvs k")
  case None
  then have "k \<notin> set (map fst (members kvs))" unfolding members_keys by (simp add: map_of_eq_None_iff)
  then have "map_of (members kvs) k = None" by (simp add: map_of_eq_None_iff)
  then show ?thesis using None by (simp add: member_def)
next
  case (Some v)
  then show ?thesis using member_members [OF assms map_of_SomeD [OF Some]] by simp
qed

lemma closed_keys_members:
  "set (map fst kvs) = set ks \<Longrightarrow> closed_keys ks l (members kvs) k = k"
  unfolding closed_keys_def Let_def members_keys by simp

lemma dec_nat_length: "n < 10 ^ Suc k \<Longrightarrow> length (dec_nat n) \<le> Suc k"
proof (induction k arbitrary: n)
  case 0
  then show ?case by (simp add: dec_nat.simps)
next
  case (Suc k)
  have "n div 10 < 10 ^ Suc k" using Suc.prems by (simp add: less_mult_imp_div_less)
  then show ?case using Suc.IH [of "n div 10"] by (subst dec_nat.simps) simp
qed

lemma signed_printable:
  assumes "0 \<le> i" "i \<le> sdk_max_signed"
  shows "printable_int i \<and> length (dec_int i) \<le> 19"
proof -
  have "nat i < 10 ^ Suc 18" using assms by (simp add: sdk_max_signed_def)
  from dec_nat_length [OF this] show ?thesis
    using assms by (simp add: printable_int_def int_digit_limit_def dec_int_def)
qed

lemma text_ok_utf8: "text_ok m s \<Longrightarrow> utf8_ok s"
  by (simp add: text_ok_def ascii_utf8)

lemma lexical_utf8: "lexical_ok s \<Longrightarrow> utf8_ok s"
  using lexical_okD text_ok_utf8 by blast

lemma token_utf8: "token_text_ok s \<Longrightarrow> utf8_ok s"
  using token_text_okD text_ok_utf8 by blast

lemma media_utf8: "media_ok s \<Longrightarrow> utf8_ok s"
  using media_okD text_ok_utf8 by blast

lemma hex64_utf8: "hex64 s \<Longrightarrow> utf8_ok s"
  by (rule ascii_utf8) (auto simp: hex64_def ascii_def list_all_iff)

lemma b64_ascii: "ascii (b64encode s)"
  using b64encode_chars [of _ s] of_char_b64 by (fastforce simp: ascii_def list_all_iff)

lemma b64_utf8: "utf8_ok (b64encode s)"
  by (rule ascii_utf8 [OF b64_ascii])

lemmas sdk_utf8 = lexical_utf8 token_utf8 media_utf8 hex64_utf8 b64_utf8 text_ok_utf8

lemma utf8_literal [simp]: "utf8_ok []" "of_char c < (128 :: nat) \<Longrightarrow> utf8_ok (c # s) = utf8_ok s"
  by (simp_all add: utf8_ok_def)

section \<open>Documents with a root\<close>

definition root_items :: "string \<Rightarrow> string \<Rightarrow> json \<Rightarrow> (string \<times> json) list" where
  "root_items schema f v = [(f, v), (''schema_identity'', JStr schema), (''sdk_contract_version'', JStr sdk_version)]"

lemma sdk_document_items: "sdk_document schema f v = JObj (root_items schema f v)"
  by (simp add: sdk_document_def root_items_def)

locale root_codec =
  fixes ok :: "'a \<Rightarrow> bool" and schema f :: string and items :: "'a \<Rightarrow> (string \<times> json) list"
    and decode :: "(string \<times> loaded) list \<Rightarrow> 'a result"
  assumes names: "utf8_ok schema" "utf8_ok f" "f \<noteq> ''schema_identity''" "f \<noteq> ''sdk_contract_version''"
    and item_wire: "ok x \<Longrightarrow> wire_json 2 (JObj (items x))"
    and decode_items: "ok x \<Longrightarrow> decode (members (items x)) = Inr x"
    and decode_ok: "decode item = Inr x \<Longrightarrow> ok x"
begin

lemma root_members:
  "sdk_root (LObj (members (root_items schema f v))) schema f = Inr (members (root_items schema f v))"
  "member f (members (root_items schema f v)) = loaded_of v"
proof -
  have d: "distinct (map fst (root_items schema f v))" using names by (simp add: root_items_def)
  note m = member_of_items [OF d]
  show "member f (members (root_items schema f v)) = loaded_of v" by (simp add: m) (simp add: root_items_def)
  have k: "set (map fst (root_items schema f v)) = set [f, ''schema_identity'', ''sdk_contract_version'']"
    by (simp add: root_items_def)
  have "member ''schema_identity'' (members (root_items schema f v)) = LStr schema"
    "member ''sdk_contract_version'' (members (root_items schema f v)) = LStr sdk_version"
    using names by (simp_all add: m) (simp_all add: root_items_def)
  then show "sdk_root (LObj (members (root_items schema f v))) schema f = Inr (members (root_items schema f v))"
    by (simp add: sdk_root_def sdk_mapping_def closed_keys_members [OF k] root_metadata_def string_field_def sdk_string_def)
qed

end

sublocale root_codec \<subseteq> wire_codec ok "\<lambda>x. root_items schema f (JObj (items x))"
  "\<lambda>v. bindr (sdk_root v schema f) (\<lambda>root. bindr (mapping_field root f) decode)"
proof unfold_locales
  fix x assume "ok x"
  then show "wire_json 1 (JObj (root_items schema f (JObj (items x))))"
    using item_wire [of x] names by (simp add: root_items_def sdk_version_def sdk_max_depth_def numeral_2_eq_2)
next
  fix x assume "ok x"
  then show "bindr (sdk_root (LObj (members (root_items schema f (JObj (items x))))) schema f)
      (\<lambda>root. bindr (mapping_field root f) decode) = Inr x"
    using decode_items [of x] unfolding root_members mapping_field_def bindr.simps
    by (simp add: sdk_mapping_def loaded_of_members del: loaded_of.simps)
next
  fix v x assume "bindr (sdk_root v schema f) (\<lambda>root. bindr (mapping_field root f) decode) = Inr x"
  then show "ok x" using decode_ok by (auto simp: bindr_Inr_iff)
qed

end
