(* ===== verification/Sdk_Codecs.thy ===== *)
theory Sdk_Codecs
  imports Sdk_Wire
begin

text \<open>
  The five codecs satisfy \<open>root_codec\<close> or \<open>wire_codec\<close>.
\<close>

section \<open>Fields of printed dictionaries\<close>

lemma mapr_enumerate:
  "(\<And>i x. x \<in> set xs \<Longrightarrow> g (i, h x) = Inr x) \<Longrightarrow> mapr g (enumerate n (map h xs)) = Inr xs"
  by (induction xs arbitrary: n) auto

lemma sdk_string_tuple_member:
  assumes "member f item = LList (map LStr cs)" "length cs \<le> m"
  shows "sdk_string_tuple item f m = Inr cs"
proof -
  have "mapr (\<lambda>(i, v). sdk_string (at_index f i) v) (enumerate 0 (map LStr cs)) = Inr cs"
    by (rule mapr_enumerate) (simp add: sdk_string_def)
  then show ?thesis using assms by (simp add: sdk_string_tuple_def array_field_def sdk_array_def)
qed

lemma item_tuple_member:
  assumes "member f item = LList (map (\<lambda>x. LObj (members (its x))) xs)" "length xs \<le> m"
    and "\<And>x. x \<in> set xs \<Longrightarrow> decode (members (its x)) = Inr x"
  shows "item_tuple decode item f m = Inr xs"
proof -
  have "mapr (\<lambda>(i, v). bindr (sdk_mapping (at_index f i) v) decode) (enumerate 0 (map (\<lambda>x. LObj (members (its x))) xs)) = Inr xs"
    by (rule mapr_enumerate) (simp add: sdk_mapping_def assms(3))
  then show ?thesis using assms(1,2) by (simp add: item_tuple_def array_field_def sdk_array_def)
qed

lemma item_tuple_InrD:
  assumes "item_tuple decode item f m = Inr xs" "\<And>ps x. decode ps = Inr x \<Longrightarrow> P x"
  shows "list_all P xs"
proof -
  obtain vs where "mapr (\<lambda>(i, v). bindr (sdk_mapping (at_index f i) v) decode) (enumerate 0 vs) = Inr xs"
    using assms(1) by (auto simp: item_tuple_def bindr_Inr_iff)
  from mapr_Inr_member [OF this] show ?thesis
    using assms(2) by (fastforce simp: list_all_iff bindr_Inr_iff)
qed

lemma string_field_member: "member f item = LStr s \<Longrightarrow> string_field item f = Inr s"
  by (simp add: string_field_def sdk_string_def)

lemma integer_field_member: "member f item = LInt i \<Longrightarrow> integer_field item f = Inr i"
  by (simp add: integer_field_def sdk_integer_def)

lemma mapping_field_member: "member f item = LObj ps \<Longrightarrow> mapping_field item f = Inr ps"
  by (simp add: mapping_field_def sdk_mapping_def)

lemmas field_member = string_field_member integer_field_member mapping_field_member

lemma loaded_objects: "loaded_of (JList (map (\<lambda>x. JObj (its x)) xs)) = LList (map (\<lambda>x. LObj (members (its x))) xs)"
  by (simp add: loaded_of_members comp_def del: loaded_of.simps(6))

section \<open>Payload contracts and payloads\<close>

lemma decode_meta_member:
  assumes "member ''role'' item = LStr (pm_role c)" "member ''owner_identity'' item = LStr (sdk_owner_value (pm_owner c))"
    "member ''payload_type_identity'' item = LStr (sdk_type_value (pm_type c))"
    "member ''schema_identity'' item = LStr (sdk_schema_value (pm_schema c))"
    "member ''codec_identity'' item = LStr (sdk_codec_value (pm_codec c))"
    "member ''representation_identity'' item = LStr (sdk_representation_value (pm_representation c))"
    "member ''media_type'' item = LStr (pm_media c)" "meta_ids_ok c"
  shows "decode_meta item = Inr (payload_meta.truncate c)"
  using assms(8) unfolding decode_meta_def meta_ids_ok_def
  by (simp add: assms(1-7) string_field_member payload_meta.defs)

lemma decode_meta_InrD: "decode_meta item = Inr m \<Longrightarrow> meta_ids_ok m"
  by (auto simp: decode_meta_def meta_ids_ok_def bindr_Inr_iff sdk_id_defs sdk_id_Inr)

lemma meta_ids_extend: "meta_ids_ok (payload_meta.extend m r) = meta_ids_ok m"
  by (simp add: meta_ids_ok_def payload_meta.defs)

lemma contract_member:
  "set (map fst (contract_items c)) = set contract_keys"
  "member ''role'' (members (contract_items c)) = LStr (pm_role c)"
  "member ''owner_identity'' (members (contract_items c)) = LStr (sdk_owner_value (pm_owner c))"
  "member ''payload_type_identity'' (members (contract_items c)) = LStr (sdk_type_value (pm_type c))"
  "member ''schema_identity'' (members (contract_items c)) = LStr (sdk_schema_value (pm_schema c))"
  "member ''codec_identity'' (members (contract_items c)) = LStr (sdk_codec_value (pm_codec c))"
  "member ''representation_identity'' (members (contract_items c)) = LStr (sdk_representation_value (pm_representation c))"
  "member ''media_type'' (members (contract_items c)) = LStr (pm_media c)"
  "member ''maximum_byte_length'' (members (contract_items c)) = LInt (pc_maximum c)"
proof -
  have d: "distinct (map fst (contract_items c))" by (simp add: contract_items_def)
  show "set (map fst (contract_items c)) = set contract_keys" by (simp add: contract_items_def contract_keys_def)
  note m = member_of_items [OF d]
  show "member ''role'' (members (contract_items c)) = LStr (pm_role c)"
    "member ''owner_identity'' (members (contract_items c)) = LStr (sdk_owner_value (pm_owner c))"
    "member ''payload_type_identity'' (members (contract_items c)) = LStr (sdk_type_value (pm_type c))"
    "member ''schema_identity'' (members (contract_items c)) = LStr (sdk_schema_value (pm_schema c))"
    "member ''codec_identity'' (members (contract_items c)) = LStr (sdk_codec_value (pm_codec c))"
    "member ''representation_identity'' (members (contract_items c)) = LStr (sdk_representation_value (pm_representation c))"
    "member ''media_type'' (members (contract_items c)) = LStr (pm_media c)"
    "member ''maximum_byte_length'' (members (contract_items c)) = LInt (pc_maximum c)"
    unfolding m by (simp_all add: contract_items_def)
qed

lemma extend_truncate_contract:
  "payload_meta.extend (payload_meta.truncate c) (payload_contract.fields (pc_maximum c)) = (c :: payload_contract)"
  by (cases c) (simp add: payload_meta.defs payload_contract.defs)

lemma decode_contract_items: "contract_ok c \<Longrightarrow> decode_contract (members (contract_items c)) = Inr c"
proof -
  assume ok: "contract_ok c"
  then have ids: "meta_ids_ok c" by (simp add: contract_ok_def meta_ok_def)
  have "decode_meta (members (contract_items c)) = Inr (payload_meta.truncate c)"
    by (rule decode_meta_member) (simp_all add: contract_member ids)
  then show ?thesis
    using ok mk_payload_contract_Inr [OF ids]
    by (simp add: decode_contract_def closed_keys_members [OF contract_member(1)] contract_member field_member extend_truncate_contract)
qed

lemma decode_contract_ok:
  assumes "decode_contract item = Inr c"
  shows "contract_ok c"
proof -
  obtain m n where m: "decode_meta item = Inr m"
      "mk_payload_contract (payload_meta.extend m (payload_contract.fields n)) = Inr c"
    using assms unfolding decode_contract_def closed_keys_Inr bindr_Inr_iff by blast
  then show ?thesis
    using mk_payload_contract_Inr [of "payload_meta.extend m (payload_contract.fields n)" c] decode_meta_InrD [OF m(1)]
    by (simp add: meta_ids_extend)
qed

lemma contract_wire: "contract_ok c \<Longrightarrow> d < sdk_max_depth \<Longrightarrow> wire_json d (JObj (contract_items c))"
  using signed_printable [of "pc_maximum c"]
  by (simp add: contract_items_def contract_ok_def meta_ok_def meta_ids_ok_def sdk_utf8 sdk_limits)

text \<open>The members of each dictionary, by lookup in its items.\<close>

lemma payload_member:
  "member k (members (payload_items p)) = (case map_of (payload_items p) k of None \<Rightarrow> LNull | Some v \<Rightarrow> loaded_of v)"
  "closed_keys payload_keys l (members (payload_items p)) r = r"
  by (rule member_of_items, simp add: payload_items_def)
    (rule closed_keys_members, simp add: payload_items_def payload_keys_def)

lemma extend_truncate_payload:
  "payload_meta.extend (payload_meta.truncate p) (inline_payload.fields (ip_payload p) (ip_length p) (ip_sha256 p)) =
     (p :: inline_payload)"
  by (cases p) (simp add: payload_meta.defs inline_payload.defs)

lemma py_len_ascii: "py_len s \<le> length s"
  by (simp add: py_len_def)

lemma payload_base64_bound: "length s \<le> sdk_max_inline \<Longrightarrow> py_len (b64encode s) \<le> max_base64"
  using py_len_ascii [of "b64encode s"] unfolding b64encode_length max_base64_def
  by (meson add_le_mono1 div_le_mono le_trans mult_le_mono2)

lemma decode_payload_items: "payload_ok p \<Longrightarrow> decode_payload (members (payload_items p)) = Inr p"
proof -
  assume ok: "payload_ok p"
  then have ids: "meta_ids_ok p" by (simp add: payload_ok_def meta_ok_def)
  have meta: "decode_meta (members (payload_items p)) = Inr (payload_meta.truncate p)"
    by (rule decode_meta_member) (simp_all only: payload_member, simp_all add: payload_items_def ids)
  have f: "string_field (members (payload_items p)) ''payload_base64'' = Inr (b64encode (ip_payload p))"
    "string_field (members (payload_items p)) ''payload_sha256'' = Inr (ip_sha256 p)"
    "integer_field (members (payload_items p)) ''byte_length'' = Inr (ip_length p)"
    unfolding string_field_def integer_field_def payload_member
    by (simp_all add: payload_items_def sdk_string_def sdk_integer_def)
  show ?thesis
    using ok mk_inline_payload_Inr [OF ids] payload_base64_bound [of "ip_payload p"]
    unfolding decode_payload_def payload_member(2) f meta bindr.simps b64decode_encode option.case extend_truncate_payload
    by (simp add: payload_ok_def)
qed

lemma decode_payload_ok:
  assumes "decode_payload item = Inr p"
  shows "payload_ok p"
proof -
  obtain m b n h where m: "decode_meta item = Inr m"
      "mk_inline_payload (payload_meta.extend m (inline_payload.fields b n h)) = Inr p"
    using assms unfolding decode_payload_def closed_keys_Inr bindr_Inr_iff require_Inr_iff
    by (auto simp: bindr_Inr_iff require_Inr_iff split: option.splits)
  then show ?thesis
    using mk_inline_payload_Inr [of "payload_meta.extend m (inline_payload.fields b n h)" p] decode_meta_InrD [OF m(1)]
    by (simp add: meta_ids_extend)
qed

lemma payload_wire: "payload_ok p \<Longrightarrow> d < sdk_max_depth \<Longrightarrow> wire_json d (JObj (payload_items p))"
  using signed_printable [of "ip_length p"]
  by (simp add: payload_items_def payload_ok_def meta_ok_def meta_ids_ok_def sdk_utf8 hex64_sha256 sdk_limits)

section \<open>Descriptors\<close>

lemma bounds_member:
  "member k (members (bounds_items b)) = (case map_of (bounds_items b) k of None \<Rightarrow> LNull | Some v \<Rightarrow> loaded_of v)"
  "closed_keys bounds_keys l (members (bounds_items b)) r = r"
  by (rule member_of_items, simp add: bounds_items_def)
    (rule closed_keys_members, simp add: bounds_items_def bounds_keys_def)

lemma decode_bounds_items: "bounds_ok b \<Longrightarrow> decode_bounds (members (bounds_items b)) = Inr b"
  unfolding decode_bounds_def bounds_member integer_field_def
  by (cases b) (simp add: bounds_items_def sdk_integer_def mk_firing_bounds_Inr)

lemma decode_bounds_ok: "decode_bounds item = Inr b \<Longrightarrow> bounds_ok b"
  unfolding decode_bounds_def closed_keys_Inr bindr_Inr_iff mk_firing_bounds_Inr by blast

lemma bounds_wire: "bounds_ok b \<Longrightarrow> d < sdk_max_depth \<Longrightarrow> wire_json d (JObj (bounds_items b))"
  using signed_printable
  by (simp add: bounds_items_def bounds_ok_def bounds_fields_def bound_ok_def sdk_limits)

lemma descriptor_member:
  "member k (members (descriptor_items d)) = (case map_of (descriptor_items d) k of None \<Rightarrow> LNull | Some v \<Rightarrow> loaded_of v)"
  "closed_keys descriptor_keys l (members (descriptor_items d)) r = r"
  by (rule member_of_items, simp add: descriptor_items_def)
    (rule closed_keys_members, simp add: descriptor_items_def descriptor_keys_def)

lemma contracts_member:
  assumes "member f item = loaded_of (contracts_json cs)" "contracts_ok cs"
  shows "item_tuple decode_contract item f sdk_max_contracts = Inr cs"
proof (rule item_tuple_member)
  show "member f item = LList (map (\<lambda>c. LObj (members (contract_items c))) cs)"
    using assms(1) unfolding contracts_json_def loaded_objects .
qed (use assms(2) decode_contract_items in \<open>simp_all add: contracts_ok_def list_all_iff\<close>)

lemma decode_descriptor_items: "descriptor_ok d \<Longrightarrow> decode_descriptor (members (descriptor_items d)) = Inr d"
proof -
  assume ok: "descriptor_ok d"
  then have p: "descriptor_parts_ok d" by (simp add: descriptor_ok_def)
  let ?m = "members (descriptor_items d)"
  have t: "item_tuple decode_contract ?m ''input_contracts'' sdk_max_contracts = Inr (fd_inputs d)"
    "item_tuple decode_contract ?m ''output_contracts'' sdk_max_contracts = Inr (fd_outputs d)"
    "item_tuple decode_contract ?m ''evidence_contracts'' sdk_max_contracts = Inr (fd_evidence d)"
    by (rule contracts_member; use ok in \<open>simp add: descriptor_ok_def descriptor_member\<close>; simp add: descriptor_items_def)+
  have f: "string_field ?m ''identity'' = Inr (sdk_firer_value (fd_identity d))"
    "string_field ?m ''implementation_identity'' = Inr (sdk_implementation_value (fd_implementation d))"
    "string_field ?m ''sdk_contract_version'' = Inr (fd_version d)"
    "mapping_field ?m ''bounds'' = Inr (members (bounds_items (fd_bounds d)))"
    unfolding string_field_def mapping_field_def descriptor_member
    by (simp_all add: descriptor_items_def sdk_string_def sdk_mapping_def loaded_of_members del: loaded_of.simps(6))
  have e: "\<lparr>fd_identity = fd_identity d, fd_implementation = fd_implementation d, fd_inputs = fd_inputs d,
      fd_outputs = fd_outputs d, fd_evidence = fd_evidence d, fd_bounds = fd_bounds d, fd_version = fd_version d\<rparr> = d"
    by simp
  show ?thesis
    using p ok mk_firer_descriptor_Inr [OF p, of d]
    unfolding decode_descriptor_def descriptor_member(2) f t bindr.simps
    by (simp add: descriptor_parts_ok_def decode_bounds_items e)
qed

lemma decode_descriptor_ok:
  assumes "decode_descriptor item = Inr d"
  shows "descriptor_ok d"
proof -
  obtain i s imp t ins outs evs b ps v where r: "mk_sdk_firer s = Inr i" "mk_sdk_implementation t = Inr imp"
      "item_tuple decode_contract item ''input_contracts'' sdk_max_contracts = Inr ins"
      "item_tuple decode_contract item ''output_contracts'' sdk_max_contracts = Inr outs"
      "item_tuple decode_contract item ''evidence_contracts'' sdk_max_contracts = Inr evs" "decode_bounds ps = Inr b"
    and d: "mk_firer_descriptor \<lparr>fd_identity = i, fd_implementation = imp, fd_inputs = ins, fd_outputs = outs,
         fd_evidence = evs, fd_bounds = b, fd_version = v\<rparr> = Inr d" (is "mk_firer_descriptor ?d = _")
    using assms unfolding decode_descriptor_def closed_keys_Inr bindr_Inr_iff by (elim exE conjE) (rule that; assumption)
  note t = item_tuple_InrD [where P = contract_ok, OF _ decode_contract_ok]
  have "descriptor_parts_ok ?d"
    using r(1,2) t [OF r(3)] t [OF r(4)] t [OF r(5)] decode_bounds_ok [OF r(6)]
    by (auto simp: descriptor_parts_ok_def sdk_id_defs sdk_id_Inr)
  from mk_firer_descriptor_Inr [OF this, of d] d have "descriptor_ok ?d \<and> d = ?d" by blast
  then show ?thesis by (simp only:)
qed

lemma contracts_wire: "list_all contract_ok cs \<Longrightarrow> Suc d < sdk_max_depth \<Longrightarrow> wire_json d (contracts_json cs)"
  using contract_wire by (simp add: contracts_json_def list_all_iff del: wire_json_obj)

lemma descriptor_wire: "descriptor_ok d \<Longrightarrow> Suc (Suc n) < sdk_max_depth \<Longrightarrow> wire_json n (JObj (descriptor_items d))"
  using bounds_wire [of "fd_bounds d" "Suc n"] contracts_wire [of _ "Suc n"]
  by (simp add: descriptor_items_def descriptor_ok_def descriptor_parts_ok_def contracts_ok_def sdk_utf8 sdk_version_def)

interpretation descriptor_codec: root_codec descriptor_ok descriptor_schema "''descriptor''" descriptor_items decode_descriptor
proof unfold_locales
  show "descriptor_ok d \<Longrightarrow> wire_json 2 (JObj (descriptor_items d))" for d
    by (rule descriptor_wire) (simp_all add: sdk_max_depth_def)
qed (simp_all add: descriptor_schema_def decode_descriptor_items decode_descriptor_ok)

section \<open>Bindings\<close>

lemma binding_member:
  "member k (members (binding_items b)) = (case map_of (binding_items b) k of None \<Rightarrow> LNull | Some v \<Rightarrow> loaded_of v)"
  "closed_keys binding_keys l (members (binding_items b)) r = r"
  by (rule member_of_items, simp add: binding_items_def)
    (rule closed_keys_members, simp add: binding_items_def binding_keys_def)

lemma decode_binding_items: "firer_binding_ok b \<Longrightarrow> decode_binding (members (binding_items b)) = Inr b"
proof -
  assume ok: "firer_binding_ok b"
  let ?m = "members (binding_items b)"
  have t: "sdk_string_tuple ?m ''input_roles'' sdk_max_payloads = Inr (tb_inputs b)"
    "sdk_string_tuple ?m ''output_roles'' sdk_max_payloads = Inr (tb_outputs b)"
    using ok by (auto intro!: sdk_string_tuple_member simp: binding_member firer_binding_ok_def roles_ok_def)
      (simp_all add: binding_items_def comp_def)
  have f: "string_field ?m ''definition_identity'' = Inr (sdk_definition_value (tb_definition b))"
    "string_field ?m ''transition_identity'' = Inr (sdk_transition_value (tb_transition b))"
    "string_field ?m ''firer_identity'' = Inr (sdk_firer_value (tb_firer b))"
    "string_field ?m ''binding_version'' = Inr (tb_version b)"
    "string_field ?m ''identity'' = Inr (sdk_binding_value (tb_identity b))"
    unfolding string_field_def binding_member by (simp_all add: binding_items_def sdk_string_def)
  let ?b = "\<lparr>tb_identity = SdkBinding [], tb_definition = tb_definition b, tb_transition = tb_transition b,
      tb_firer = tb_firer b, tb_inputs = tb_inputs b, tb_outputs = tb_outputs b, tb_version = tb_version b\<rparr>"
  have i: "binding_ids_ok ?b" using ok by (simp add: firer_binding_ok_def binding_ids_ok_def)
  have "mk_firer_binding ?b = Inr b"
    using mk_firer_binding_Inr [OF i, of b] ok by (cases b) simp
  moreover have "hex64 (sdk_binding_value (tb_identity b))"
    using ok hex64_semantic by (simp add: firer_binding_ok_def binding_digest_def)
  ultimately show ?thesis
    using ok unfolding decode_binding_def binding_member(2) f t bindr.simps
    by (simp add: firer_binding_ok_def binding_ids_ok_def)
qed

lemma decode_binding_ok:
  assumes "decode_binding item = Inr b"
  shows "firer_binding_ok b"
proof -
  obtain s d s' t s'' f ins outs v where r: "mk_sdk_definition s = Inr d" "mk_sdk_transition s' = Inr t" "mk_sdk_firer s'' = Inr f"
    and b: "mk_firer_binding \<lparr>tb_identity = SdkBinding [], tb_definition = d, tb_transition = t, tb_firer = f, tb_inputs = ins,
        tb_outputs = outs, tb_version = v\<rparr> = Inr b" (is "mk_firer_binding ?b = _")
    using assms unfolding decode_binding_def closed_keys_Inr bindr_Inr_iff require_Inr_iff sum.inject
    by (elim exE conjE) (hypsubst, rule that; assumption)
  have "binding_ids_ok ?b" using r by (auto simp: binding_ids_ok_def sdk_id_defs sdk_id_Inr)
  from mk_firer_binding_Inr [OF this] b show ?thesis by blast
qed

lemma strings_wire: "list_all utf8_ok ss \<Longrightarrow> d < sdk_max_depth \<Longrightarrow> wire_json d (JList (map JStr ss))"
  by (simp add: list_all_iff)

lemma tokens_utf8: "list_all token_text_ok ss \<Longrightarrow> list_all utf8_ok ss"
  using token_utf8 by (auto simp: list_all_iff)

lemma binding_wire: "firer_binding_ok b \<Longrightarrow> Suc d < sdk_max_depth \<Longrightarrow> wire_json d (JObj (binding_items b))"
  using strings_wire [OF tokens_utf8, of _ "Suc d"]
  by (simp add: binding_items_def firer_binding_ok_def binding_ids_ok_def roles_ok_def sdk_utf8 binding_digest_def hex64_semantic)

interpretation binding_codec: root_codec firer_binding_ok binding_schema "''binding''" binding_items decode_binding
proof unfold_locales
  show "firer_binding_ok b \<Longrightarrow> wire_json 2 (JObj (binding_items b))" for b
    by (rule binding_wire) (simp_all add: sdk_max_depth_def)
qed (simp_all add: binding_schema_def decode_binding_items decode_binding_ok)

section \<open>Requests\<close>

lemma context_member:
  "member k (members (context_items c)) = (case map_of (context_items c) k of None \<Rightarrow> LNull | Some v \<Rightarrow> loaded_of v)"
  "closed_keys context_keys l (members (context_items c)) r = r"
  by (rule member_of_items, simp add: context_items_def)
    (rule closed_keys_members, simp add: context_items_def context_keys_def)

lemma decode_context_items: "context_ok c \<Longrightarrow> decode_context (members (context_items c)) = Inr c"
proof -
  assume ok: "context_ok c"
  then have ids: "context_ids_ok c" by (simp add: context_ok_def)
  let ?m = "members (context_items c)"
  have f: "string_field ?m ''definition_identity'' = Inr (sdk_definition_value (oc_definition c))"
    "string_field ?m ''net_instance_identity'' = Inr (sdk_instance_value (oc_instance c))"
    "string_field ?m ''transition_identity'' = Inr (sdk_transition_value (oc_transition c))"
    "string_field ?m ''predecessor_marking_identity'' = Inr (sdk_marking_value (oc_marking c))"
    "integer_field ?m ''predecessor_revision'' = Inr (oc_revision c)"
    "string_field ?m ''selected_binding_sha256'' = Inr (oc_binding_sha256 c)"
    "string_field ?m ''occurrence_identity'' = Inr (sdk_occurrence_value (oc_occurrence c))"
    "string_field ?m ''attempt_identity'' = Inr (sdk_attempt_value (oc_attempt c))"
    "integer_field ?m ''attempt_ordinal'' = Inr (oc_ordinal c)"
    unfolding string_field_def integer_field_def context_member
    by (simp_all add: context_items_def sdk_string_def sdk_integer_def)
  have e: "\<lparr>oc_definition = oc_definition c, oc_instance = oc_instance c, oc_transition = oc_transition c,
      oc_marking = oc_marking c, oc_revision = oc_revision c, oc_binding_sha256 = oc_binding_sha256 c,
      oc_occurrence = oc_occurrence c, oc_attempt = oc_attempt c, oc_ordinal = oc_ordinal c\<rparr> = c"
    by simp
  show ?thesis
    using ids ok mk_occurrence_context_Inr [OF ids, of c]
    unfolding decode_context_def context_member(2) f bindr.simps by (simp add: context_ids_ok_def e)
qed

lemma decode_context_ok:
  assumes "decode_context item = Inr c"
  shows "context_ok c"
proof -
  obtain s1 d s2 n s3 t s4 m rv h s5 oc s6 a k where r: "mk_sdk_definition s1 = Inr d" "mk_sdk_instance s2 = Inr n"
      "mk_sdk_transition s3 = Inr t" "mk_sdk_marking s4 = Inr m" "mk_sdk_occurrence s5 = Inr oc" "mk_sdk_attempt s6 = Inr a"
    and c: "mk_occurrence_context \<lparr>oc_definition = d, oc_instance = n, oc_transition = t, oc_marking = m, oc_revision = rv,
        oc_binding_sha256 = h, oc_occurrence = oc, oc_attempt = a, oc_ordinal = k\<rparr> = Inr c" (is "mk_occurrence_context ?c = _")
    using assms unfolding decode_context_def closed_keys_Inr bindr_Inr_iff by (elim exE conjE) (rule that; assumption)
  have "context_ids_ok ?c" using r by (auto simp: context_ids_ok_def sdk_id_defs sdk_id_Inr)
  from mk_occurrence_context_Inr [OF this, of c] c have "context_ok ?c \<and> c = ?c" by blast
  then show ?thesis by (simp only:)
qed

lemma context_wire: "context_ok c \<Longrightarrow> d < sdk_max_depth \<Longrightarrow> wire_json d (JObj (context_items c))"
  using signed_printable
  by (simp add: context_items_def context_ok_def context_ids_ok_def sdk_signed_def sdk_utf8)

lemma payloads_member:
  assumes "member f item = loaded_of (payloads_json ps)" "payloads_ok ps"
  shows "item_tuple decode_payload item f sdk_max_payloads = Inr ps"
proof (rule item_tuple_member)
  show "member f item = LList (map (\<lambda>p. LObj (members (payload_items p))) ps)"
    using assms(1) unfolding payloads_json_def loaded_objects .
qed (use assms(2) decode_payload_items in \<open>simp_all add: payloads_ok_def list_all_iff\<close>)

lemmas payloads_InrD = item_tuple_InrD [where P = payload_ok, OF _ decode_payload_ok]

lemma payloads_wire: "list_all payload_ok ps \<Longrightarrow> Suc d < sdk_max_depth \<Longrightarrow> wire_json d (payloads_json ps)"
  using payload_wire by (simp add: payloads_json_def list_all_iff del: wire_json_obj)

lemma request_member:
  "member k (members (request_items q)) = (case map_of (request_items q) k of None \<Rightarrow> LNull | Some v \<Rightarrow> loaded_of v)"
  "closed_keys request_keys l (members (request_items q)) r = r"
  by (rule member_of_items, simp add: request_items_def)
    (rule closed_keys_members, simp add: request_items_def request_keys_def)

lemma decode_request_items: "firing_request_ok q \<Longrightarrow> decode_request (members (request_items q)) = Inr q"
proof -
  assume ok: "firing_request_ok q"
  let ?m = "members (request_items q)"
  have t: "item_tuple decode_payload ?m ''inputs'' sdk_max_payloads = Inr (fq_inputs q)"
    by (rule payloads_member) (use ok in \<open>simp_all add: request_member firing_request_ok_def\<close>, simp add: request_items_def)
  have f: "string_field ?m ''binding_identity'' = Inr (sdk_binding_value (fq_binding q))"
    "string_field ?m ''firer_identity'' = Inr (sdk_firer_value (fq_firer q))"
    "string_field ?m ''sdk_contract_version'' = Inr (fq_version q)"
    "string_field ?m ''identity'' = Inr (sdk_request_value (fq_identity q))"
    "mapping_field ?m ''context'' = Inr (members (context_items (fq_context q)))"
    unfolding string_field_def mapping_field_def request_member
    by (simp_all add: request_items_def sdk_string_def sdk_mapping_def loaded_of_members del: loaded_of.simps(6))
  let ?q = "\<lparr>fq_identity = SdkRequest [], fq_context = fq_context q, fq_binding = fq_binding q, fq_firer = fq_firer q,
      fq_inputs = fq_inputs q, fq_version = fq_version q\<rparr>"
  have p: "request_parts_ok ?q" using ok by (simp add: firing_request_ok_def request_parts_ok_def)
  have "mk_firing_request ?q = Inr q" using mk_firing_request_Inr [OF p, of q] ok by (cases q) simp
  moreover have "hex64 (sdk_request_value (fq_identity q))"
    using ok hex64_semantic by (simp add: firing_request_ok_def request_digest_def)
  ultimately show ?thesis
    using ok unfolding decode_request_def request_member(2) f t bindr.simps
    by (simp add: firing_request_ok_def request_parts_ok_def decode_context_items)
qed

lemma decode_request_ok:
  assumes "decode_request item = Inr q"
  shows "firing_request_ok q"
proof -
  obtain cs c s b s' f ps v where r: "decode_context cs = Inr c" "mk_sdk_binding s = Inr b" "mk_sdk_firer s' = Inr f"
      "item_tuple decode_payload item ''inputs'' sdk_max_payloads = Inr ps"
    and q: "mk_firing_request \<lparr>fq_identity = SdkRequest [], fq_context = c, fq_binding = b, fq_firer = f,
        fq_inputs = ps, fq_version = v\<rparr> = Inr q" (is "mk_firing_request ?q = _")
    using assms unfolding decode_request_def closed_keys_Inr bindr_Inr_iff require_Inr_iff sum.inject
    by (elim exE conjE) (hypsubst, rule that; assumption)
  have "request_parts_ok ?q"
    using r(2,3) decode_context_ok [OF r(1)] payloads_InrD [OF r(4)]
    by (auto simp: request_parts_ok_def sdk_id_defs sdk_id_Inr)
  from mk_firing_request_Inr [OF this] q show ?thesis by blast
qed

lemma request_wire: "firing_request_ok q \<Longrightarrow> Suc (Suc d) < sdk_max_depth \<Longrightarrow> wire_json d (JObj (request_items q))"
  using context_wire [of "fq_context q" "Suc d"] payloads_wire [of "fq_inputs q" "Suc d"]
  by (simp add: request_items_def firing_request_ok_def request_parts_ok_def sdk_utf8 request_digest_def hex64_semantic
      sdk_version_def)

interpretation request_codec: root_codec firing_request_ok firing_request_schema "''request''" request_items decode_request
proof unfold_locales
  show "firing_request_ok q \<Longrightarrow> wire_json 2 (JObj (request_items q))" for q
    by (rule request_wire) (simp_all add: sdk_max_depth_def)
qed (simp_all add: firing_request_schema_def decode_request_items decode_request_ok)

section \<open>Manifests\<close>

lemma manifest_member:
  "member k (members (manifest_items m)) = (case map_of (manifest_items m) k of None \<Rightarrow> LNull | Some v \<Rightarrow> loaded_of v)"
  "closed_keys manifest_keys l (members (manifest_items m)) r = r"
  by (rule member_of_items, simp add: manifest_items_def)
    (rule closed_keys_members, simp add: manifest_items_def manifest_keys_def)

lemma decode_manifest_items: "manifest_ok m \<Longrightarrow> decode_manifest (members (manifest_items m)) = Inr m"
proof -
  assume ok: "manifest_ok m"
  let ?m = "members (manifest_items m)"
  have t: "item_tuple decode_descriptor ?m ''firer_descriptors'' sdk_max_contracts = Inr (im_descriptors m)"
  proof (rule item_tuple_member)
    show "member ''firer_descriptors'' ?m = LList (map (\<lambda>d. LObj (members (descriptor_items d))) (im_descriptors m))"
      unfolding manifest_member loaded_objects [symmetric] by (simp add: manifest_items_def)
  qed (use ok decode_descriptor_items in \<open>simp_all add: manifest_ok_def manifest_parts_ok_def list_all_iff\<close>)
  have f: "string_field ?m ''integration_identity'' = Inr (sdk_integration_value (im_integration m))"
    "string_field ?m ''package_name'' = Inr (im_package m)" "string_field ?m ''package_version'' = Inr (im_package_version m)"
    "string_field ?m ''distribution_sha256'' = Inr (im_distribution m)"
    "string_field ?m ''sdk_contract_version'' = Inr (im_version m)"
    "string_field ?m ''identity'' = Inr (sdk_manifest_value (im_identity m))"
    unfolding string_field_def manifest_member by (simp_all add: manifest_items_def sdk_string_def)
  let ?n = "\<lparr>im_identity = SdkManifest [], im_integration = im_integration m, im_package = im_package m,
      im_package_version = im_package_version m, im_distribution = im_distribution m, im_version = im_version m,
      im_descriptors = im_descriptors m\<rparr>"
  have p: "manifest_parts_ok ?n" using ok by (simp add: manifest_ok_def manifest_parts_ok_def)
  have "mk_integration_manifest ?n = Inr m" using mk_integration_manifest_Inr [OF p, of m] ok by (cases m) simp
  moreover have "hex64 (sdk_manifest_value (im_identity m))"
    using ok hex64_semantic by (simp add: manifest_ok_def manifest_digest_def)
  ultimately show ?thesis
    using ok unfolding decode_manifest_def manifest_member(2) f t bindr.simps
    by (simp add: manifest_ok_def manifest_parts_ok_def)
qed

lemma decode_manifest_ok:
  assumes "decode_manifest item = Inr m"
  shows "manifest_ok m"
proof -
  obtain s i p pv h v ds where r: "mk_sdk_integration s = Inr i"
      "item_tuple decode_descriptor item ''firer_descriptors'' sdk_max_contracts = Inr ds"
    and m: "mk_integration_manifest \<lparr>im_identity = SdkManifest [], im_integration = i, im_package = p, im_package_version = pv,
        im_distribution = h, im_version = v, im_descriptors = ds\<rparr> = Inr m" (is "mk_integration_manifest ?m = _")
    using assms unfolding decode_manifest_def closed_keys_Inr bindr_Inr_iff require_Inr_iff sum.inject
    by (elim exE conjE) (hypsubst, rule that; assumption)
  have "manifest_parts_ok ?m"
    using r(1) item_tuple_InrD [OF r(2) decode_descriptor_ok]
    by (auto simp: manifest_parts_ok_def sdk_id_defs sdk_id_Inr)
  from mk_integration_manifest_Inr [OF this] m show ?thesis by blast
qed

lemma descriptors_wire: "list_all descriptor_ok ds \<Longrightarrow> Suc (Suc (Suc d)) < sdk_max_depth \<Longrightarrow>
    wire_json d (JList (map (\<lambda>x. JObj (descriptor_items x)) ds))"
  using descriptor_wire by (simp add: list_all_iff del: wire_json_obj)

lemma manifest_wire:
  assumes ok: "manifest_ok m" and d: "Suc (Suc (Suc (Suc d))) < sdk_max_depth"
  shows "wire_json d (JObj (manifest_items m))"
proof -
  have "utf8_ok (im_package m)" "utf8_ok (im_package_version m)"
    using ok text_ok_utf8 unfolding manifest_ok_def by blast+
  then show ?thesis
    using ok d descriptors_wire [of "im_descriptors m" "Suc d"]
    by (simp add: manifest_items_def manifest_ok_def manifest_parts_ok_def sdk_utf8 manifest_digest_def hex64_semantic
        sdk_version_def)
qed

interpretation manifest_codec: root_codec manifest_ok manifest_schema "''manifest''" manifest_items decode_manifest
proof unfold_locales
  show "manifest_ok m \<Longrightarrow> wire_json 2 (JObj (manifest_items m))" for m
    by (rule manifest_wire) (simp_all add: sdk_max_depth_def)
qed (simp_all add: manifest_schema_def decode_manifest_items decode_manifest_ok)

section \<open>Results\<close>

lemma result_items_distinct: "distinct (map fst (result_items r))"
  by (cases "fr_body r") (simp_all add: result_items_def)

lemma result_member:
  "member k (members (result_items r)) = (case map_of (result_items r) k of None \<Rightarrow> LNull | Some v \<Rightarrow> loaded_of v)"
  "closed_keys (result_keys (body_key (fr_body r))) l (members (result_items r)) x = x"
  by (rule member_of_items, rule result_items_distinct)
    (rule closed_keys_members, simp add: result_items_def result_keys_def)

lemma body_member: "member (body_key (fr_body r)) (members (result_items r)) = loaded_of (body_json (fr_body r))"
  unfolding result_member by (cases "fr_body r") (simp_all add: result_items_def)

text \<open>A decoder of the body that reads the field of the variant.\<close>

lemma decode_variant_items:
  assumes ok: "firing_result_ok r" and b: "body (members (result_items r)) = Inr (fr_body r)"
  shows "decode_variant (body_key (fr_body r)) body (members (result_items r)) = Inr r"
proof -
  let ?m = "members (result_items r)"
  have t: "item_tuple decode_payload ?m ''evidence'' sdk_max_payloads = Inr (fr_evidence r)"
    by (rule payloads_member) (use ok in \<open>simp_all add: result_member firing_result_ok_def\<close>, simp add: result_items_def)
  have f: "string_field ?m ''request_identity'' = Inr (sdk_request_value (fr_request r))"
    "string_field ?m ''occurrence_identity'' = Inr (sdk_occurrence_value (fr_occurrence r))"
    "string_field ?m ''attempt_identity'' = Inr (sdk_attempt_value (fr_attempt r))"
    "string_field ?m ''firer_identity'' = Inr (sdk_firer_value (fr_firer r))"
    "string_field ?m ''sdk_contract_version'' = Inr (fr_version r)"
    "string_field ?m ''identity'' = Inr (sdk_result_value (fr_identity r))"
    unfolding string_field_def result_member by (simp_all add: result_items_def sdk_string_def)
  let ?r = "\<lparr>fr_identity = SdkResult [], fr_request = fr_request r, fr_occurrence = fr_occurrence r, fr_attempt = fr_attempt r,
      fr_firer = fr_firer r, fr_body = fr_body r, fr_evidence = fr_evidence r, fr_version = fr_version r\<rparr>"
  have p: "result_parts_ok ?r" using ok by (simp add: firing_result_ok_def result_parts_ok_def)
  have "mk_firing_result ?r = Inr r" using mk_firing_result_Inr [OF p, of r] ok by (cases r) simp
  moreover have "hex64 (sdk_result_value (fr_identity r))"
    using ok hex64_semantic by (simp add: firing_result_ok_def result_digest_def)
  ultimately show ?thesis
    using ok unfolding decode_variant_def result_member(2) f t b bindr.simps
    by (simp add: firing_result_ok_def result_parts_ok_def)
qed

lemma decode_variant_ok:
  assumes "decode_variant k body item = Inr r" and b: "\<And>b. body item = Inr b \<Longrightarrow> body_parts_ok b"
  shows "firing_result_ok r \<and> body item = Inr (fr_body r)"
proof -
  obtain s1 q s2 oc s3 a s4 f bd ev v where r: "mk_sdk_request s1 = Inr q" "mk_sdk_occurrence s2 = Inr oc"
      "mk_sdk_attempt s3 = Inr a" "mk_sdk_firer s4 = Inr f" "body item = Inr bd"
      "item_tuple decode_payload item ''evidence'' sdk_max_payloads = Inr ev"
    and m: "mk_firing_result \<lparr>fr_identity = SdkResult [], fr_request = q, fr_occurrence = oc, fr_attempt = a, fr_firer = f,
        fr_body = bd, fr_evidence = ev, fr_version = v\<rparr> = Inr r" (is "mk_firing_result ?r = _")
    using assms(1) unfolding decode_variant_def closed_keys_Inr bindr_Inr_iff require_Inr_iff sum.inject
    by (elim exE conjE) (hypsubst, rule that; assumption)
  have "result_parts_ok ?r"
    using r(1-4) b [OF r(5)] payloads_InrD [OF r(6)] by (auto simp: result_parts_ok_def sdk_id_defs sdk_id_Inr)
  note k = mk_firing_result_Inr [OF this, of r]
  then have "?r = r\<lparr>fr_identity := fr_identity ?r\<rparr>" using m by blast
  then have "fr_body r = bd" by (cases r) simp
  then show ?thesis using k m r(5) by simp
qed

definition result_decoder :: "result_body \<Rightarrow> (string \<times> loaded) list \<Rightarrow> firing_result result" where
  "result_decoder b = (case b of FiringSucceeded ps \<Rightarrow> decode_succeeded | FiringRejected cs \<Rightarrow> decode_rejected
     | FiringFailed cs \<Rightarrow> decode_failed)"

lemma result_decoder_items: "firing_result_ok r \<Longrightarrow> result_decoder (fr_body r) (members (result_items r)) = Inr r"
proof -
  assume ok: "firing_result_ok r"
  then have b: "body_ok (fr_body r)" by (simp add: firing_result_ok_def)
  show ?thesis
  proof (cases "fr_body r")
    case (FiringSucceeded ps)
    have "item_tuple decode_payload (members (result_items r)) ''outputs'' sdk_max_payloads = Inr ps"
      by (rule payloads_member) (use body_member [of r] b FiringSucceeded in simp_all)
    then show ?thesis
      using decode_variant_items [OF ok] by (simp add: result_decoder_def decode_succeeded_def FiringSucceeded)
  next
    case (FiringRejected cs)
    have "sdk_string_tuple (members (result_items r)) ''reason_codes'' sdk_max_reasons = Inr cs"
      by (rule sdk_string_tuple_member) (use body_member [of r] b FiringRejected in \<open>simp_all add: codes_ok_def comp_def\<close>)
    then show ?thesis
      using decode_variant_items [OF ok] by (simp add: result_decoder_def decode_rejected_def FiringRejected)
  next
    case (FiringFailed cs)
    have "sdk_string_tuple (members (result_items r)) ''failure_codes'' sdk_max_reasons = Inr cs"
      by (rule sdk_string_tuple_member) (use body_member [of r] b FiringFailed in \<open>simp_all add: codes_ok_def comp_def\<close>)
    then show ?thesis
      using decode_variant_items [OF ok] by (simp add: result_decoder_def decode_failed_def FiringFailed)
  qed
qed

lemma result_decoder_ok:
  assumes "result_decoder b item = Inr r"
  shows "firing_result_ok r"
proof (cases b)
  case (FiringSucceeded ps)
  have "firing_result_ok r \<and> (bindr (item_tuple decode_payload item ''outputs'' sdk_max_payloads)
      (\<lambda>ps. Inr (FiringSucceeded ps)) = Inr (fr_body r))"
    by (rule decode_variant_ok [OF assms [unfolded FiringSucceeded result_decoder_def result_body.case decode_succeeded_def]])
      (auto simp: bindr_Inr_iff intro: payloads_InrD)
  then show ?thesis ..
next
  case (FiringRejected cs)
  show ?thesis
    by (rule decode_variant_ok [OF assms [unfolded FiringRejected result_decoder_def result_body.case decode_rejected_def],
        THEN conjunct1]) (auto simp: bindr_Inr_iff)
next
  case (FiringFailed cs)
  show ?thesis
    by (rule decode_variant_ok [OF assms [unfolded FiringFailed result_decoder_def result_body.case decode_failed_def],
        THEN conjunct1]) (auto simp: bindr_Inr_iff)
qed

definition result_root :: "firing_result \<Rightarrow> (string \<times> json) list" where
  "result_root r =
     [(''outcome'', JStr (sdk_outcome (fr_body r))), (''result'', JObj (result_items r)),
      (''schema_identity'', JStr firing_result_schema), (''sdk_contract_version'', JStr sdk_version)]"

lemma result_document_root: "result_document r = JObj (result_root r)"
  by (simp add: result_document_def result_root_def)

lemma root_member:
  "member k (members (result_root r)) = (case map_of (result_root r) k of None \<Rightarrow> LNull | Some v \<Rightarrow> loaded_of v)"
  "closed_keys [''outcome'', ''result'', ''schema_identity'', ''sdk_contract_version''] l (members (result_root r)) x = x"
  by (rule member_of_items, simp add: result_root_def) (rule closed_keys_members, simp add: result_root_def)

lemma read_firing_result_root: "firing_result_ok r \<Longrightarrow> read_firing_result (LObj (members (result_root r))) = Inr r"
proof -
  assume ok: "firing_result_ok r"
  let ?m = "members (result_root r)"
  have f: "string_field ?m ''outcome'' = Inr (sdk_outcome (fr_body r))" "string_field ?m ''schema_identity'' = Inr firing_result_schema"
    "string_field ?m ''sdk_contract_version'' = Inr sdk_version" "mapping_field ?m ''result'' = Inr (members (result_items r))"
    unfolding string_field_def mapping_field_def root_member
    by (simp_all add: result_root_def sdk_string_def sdk_mapping_def loaded_of_members del: loaded_of.simps(6))
  show ?thesis
    using result_decoder_items [OF ok]
    unfolding read_firing_result_def sdk_mapping_def loaded.case bindr.simps root_member(2) root_metadata_def f
    by (cases "fr_body r") (simp_all add: result_decoder_def)
qed

lemma read_firing_result_ok: "read_firing_result v = Inr r \<Longrightarrow> firing_result_ok r"
  using result_decoder_ok [of "FiringSucceeded []"] result_decoder_ok [of "FiringRejected []"] result_decoder_ok [of "FiringFailed []"]
  by (auto simp: read_firing_result_def root_metadata_def bindr_Inr_iff closed_keys_Inr require_Inr_iff result_decoder_def split: if_splits)

lemma body_wire: "body_ok b \<Longrightarrow> Suc d < sdk_max_depth \<Longrightarrow> wire_json d (body_json b) \<and> utf8_ok (body_key b)"
  using payloads_wire strings_wire [OF tokens_utf8]
  by (cases b) (simp_all add: payloads_ok_def codes_ok_def)

lemma result_wire: "firing_result_ok r \<Longrightarrow> Suc (Suc d) < sdk_max_depth \<Longrightarrow> wire_json d (JObj (result_items r))"
  using payloads_wire [of "fr_evidence r" "Suc d"] body_wire [of "fr_body r" "Suc d"] result_items_distinct [of r]
  by (simp add: result_items_def firing_result_ok_def result_parts_ok_def sdk_utf8 result_digest_def hex64_semantic
      sdk_version_def payloads_ok_def)

lemma outcome_utf8: "utf8_ok (sdk_outcome b)"
  by (cases b) simp_all

interpretation result_codec: wire_codec firing_result_ok result_root read_firing_result
proof unfold_locales
  show "firing_result_ok r \<Longrightarrow> wire_json 1 (JObj (result_root r))" for r
    using result_wire [of r 2] outcome_utf8
    by (simp add: result_root_def firing_result_schema_def sdk_version_def sdk_max_depth_def numeral_2_eq_2 del: wire_json_obj)
      (simp add: sdk_max_depth_def numeral_2_eq_2)
qed (simp_all add: read_firing_result_root read_firing_result_ok)

section \<open>Bytes\<close>

text \<open>Each decoder accepts exactly the encodings of accepted records.\<close>

lemma descriptor_bytes: "decode_descriptor_bytes p = Inr d \<longleftrightarrow> descriptor_ok d \<and> encode_descriptor d = Inr p"
  using descriptor_codec.corresponds [of p d]
  unfolding decode_descriptor_bytes_def encode_descriptor_def [abs_def] read_descriptor_def [abs_def] sdk_document_items .

lemma binding_bytes: "decode_binding_bytes p = Inr b \<longleftrightarrow> firer_binding_ok b \<and> encode_binding b = Inr p"
  using binding_codec.corresponds [of p b]
  unfolding decode_binding_bytes_def encode_binding_def [abs_def] read_binding_def [abs_def] sdk_document_items .

lemma request_bytes: "decode_request_bytes p = Inr q \<longleftrightarrow> firing_request_ok q \<and> encode_request q = Inr p"
  using request_codec.corresponds [of p q]
  unfolding decode_request_bytes_def encode_request_def [abs_def] read_request_def [abs_def] sdk_document_items .

lemma result_bytes: "decode_result_bytes p = Inr r \<longleftrightarrow> firing_result_ok r \<and> encode_result r = Inr p"
  using result_codec.corresponds [of p r]
  unfolding decode_result_bytes_def encode_result_def [abs_def] result_document_root .

lemma manifest_bytes: "decode_manifest_bytes p = Inr m \<longleftrightarrow> manifest_ok m \<and> encode_manifest m = Inr p"
  using manifest_codec.corresponds [of p m]
  unfolding decode_manifest_bytes_def encode_manifest_def [abs_def] read_manifest_def [abs_def] sdk_document_items .

end
