(* ===== verification/Sdk_Firer.thy ===== *)
theory Sdk_Firer
  imports Sdk_Valid "HOL-Library.Sublist"
begin

text \<open>
  The template method \<open>Firer.fire\<close> of \<open>workflow_sdk/firing.py\<close>.  The descriptor of the firer and its
  \<open>_fire\<close> are arguments; \<open>_fire\<close> may raise.
\<close>

definition check_payload ::
  "string \<Rightarrow> payload_contract list \<Rightarrow> inline_payload \<Rightarrow> nat result" where
  "check_payload label contracts p =
     (case dict_of (map (\<lambda>c. (pm_role c, c)) contracts) (pm_role p) of
        None \<Rightarrow> Inl (ValueError (label @ '' contains unregistered role '' @ pm_role p))
      | Some c \<Rightarrow>
          require (\<not> (pm_owner p \<noteq> pm_owner c \<or> pm_type p \<noteq> pm_type c \<or> pm_schema p \<noteq> pm_schema c \<or>
              pm_codec p \<noteq> pm_codec c \<or> pm_representation p \<noteq> pm_representation c \<or> pm_media p \<noteq> pm_media c))
            (label @ '' payload metadata differs from contract'')
         (require (ip_length p \<le> pc_maximum c) (label @ '' payload exceeds role byte bound'')
         (case dict_of (map (\<lambda>(i, c). (pm_role c, i)) (enumerate 0 contracts)) (pm_role p) of
            None \<Rightarrow> Inl (KeyError (py_repr (pm_role p)))
          | Some i \<Rightarrow> Inr i)))"

definition check_sequence ::
  "string \<Rightarrow> bool \<Rightarrow> payload_contract list \<Rightarrow> inline_payload list \<Rightarrow> 'a result \<Rightarrow> 'a result" where
  "check_sequence label exact contracts ps k =
     bindr (mapr (check_payload label contracts) ps) (\<lambda>positions.
     require (positions = sort positions) (label @ '' roles differ from descriptor order'')
    (require (\<not> (exact \<and> length ps \<noteq> length contracts)) (label @ '' must satisfy every declared contract'') k))"

definition check_output ::
  "firer_descriptor \<Rightarrow> result_body \<Rightarrow> (int \<Rightarrow> 'a result) \<Rightarrow> 'a result" where
  "check_output d b k =
     (case b of
        FiringSucceeded os \<Rightarrow>
          check_sequence ''outputs'' True (fd_outputs d) os
         (require (int (length os) \<le> fb_outputs (fd_bounds d)) ''result output count exceeds descriptor bounds''
         (require (payload_bytes os \<le> fb_output_bytes (fd_bounds d)) ''result output bytes exceed descriptor bounds''
           (k (payload_bytes os))))
      | FiringRejected codes \<Rightarrow>
          require (int (length codes) \<le> fb_reasons (fd_bounds d)) ''result codes exceed descriptor bounds'' (k 0)
      | FiringFailed codes \<Rightarrow>
          require (int (length codes) \<le> fb_reasons (fd_bounds d)) ''result codes exceed descriptor bounds'' (k 0))"

definition check_correlation ::
  "firer_descriptor \<Rightarrow> firing_request \<Rightarrow> firing_result \<Rightarrow> 'a result \<Rightarrow> 'a result" where
  "check_correlation d q r k =
     require (\<not> (fr_request r \<noteq> fq_identity q \<or> fr_occurrence r \<noteq> oc_occurrence (fq_context q) \<or>
         fr_attempt r \<noteq> oc_attempt (fq_context q) \<or> fr_firer r \<noteq> fd_identity d \<or> fr_version r \<noteq> sdk_version))
       ''firing result correlation differs from request''
    (check_sequence ''evidence'' False (fd_evidence d) (fr_evidence r)
    (require (int (length (fr_evidence r)) \<le> fb_evidence (fd_bounds d)) ''result evidence count exceeds descriptor bounds''
    (check_output d (fr_body r) (\<lambda>output_bytes.
       require (output_bytes + payload_bytes (fr_evidence r) \<le> fb_total_bytes (fd_bounds d))
         ''result bytes exceed descriptor total bound'' k))))"

definition sdk_fire ::
  "firer_descriptor \<Rightarrow> (firing_request \<Rightarrow> firing_result result) \<Rightarrow> firing_request \<Rightarrow> firing_result result" where
  "sdk_fire d invoke q =
     require (fq_firer q = fd_identity d) ''request firer identity differs from descriptor''
    (check_sequence ''inputs'' True (fd_inputs d) (fq_inputs q)
    (require (int (length (fq_inputs q)) \<le> fb_inputs (fd_bounds d)) ''request input count exceeds descriptor bounds''
    (require (payload_bytes (fq_inputs q) \<le> fb_input_bytes (fd_bounds d)) ''request input bytes exceed descriptor bounds''
    (require (payload_bytes (fq_inputs q) \<le> fb_total_bytes (fd_bounds d)) ''request bytes exceed descriptor total bound''
    (bindr (invoke q) (\<lambda>r. check_correlation d q r (Inr r)))))))"

section \<open>Matching a sequence of contracts\<close>

definition meets :: "inline_payload \<Rightarrow> payload_contract \<Rightarrow> bool" where
  "meets p c \<longleftrightarrow> same_meta p c \<and> ip_length p \<le> pc_maximum c"

lemma enumerate_roles_Some:
  "distinct (map pm_role cs) \<Longrightarrow>
   dict_of (map (\<lambda>(i, c). (pm_role c, i)) (enumerate 0 cs)) r = Some i \<longleftrightarrow> i < length cs \<and> pm_role (cs ! i) = r"
proof -
  assume d: "distinct (map pm_role cs)"
  have "map fst (map (\<lambda>(i, c). (pm_role c, i)) (enumerate 0 cs)) = map pm_role (map snd (enumerate 0 cs))"
    unfolding map_map by (rule map_cong) auto
  then have "distinct (map fst (map (\<lambda>(i, c). (pm_role c, i)) (enumerate 0 cs)))" using d by simp
  then show ?thesis by (subst dict_of_Some_iff) (auto simp: in_set_enumerate_eq)
qed

lemma check_payload_Inr:
  assumes d: "distinct (map pm_role cs)"
  shows "check_payload l cs p = Inr i \<longleftrightarrow> i < length cs \<and> meets p (cs ! i)"
proof
  assume "check_payload l cs p = Inr i"
  then obtain c where c: "dict_of (map (\<lambda>c. (pm_role c, c)) cs) (pm_role p) = Some c"
      "dict_of (map (\<lambda>(i, c). (pm_role c, i)) (enumerate 0 cs)) (pm_role p) = Some i"
      "pm_owner p = pm_owner c" "pm_type p = pm_type c" "pm_schema p = pm_schema c" "pm_codec p = pm_codec c"
      "pm_representation p = pm_representation c" "pm_media p = pm_media c" "ip_length p \<le> pc_maximum c"
    unfolding check_payload_def by (auto simp: require_Inr_iff split: option.splits)
  have i: "i < length cs" "pm_role (cs ! i) = pm_role p" using c(2) enumerate_roles_Some [OF d] by auto
  have "c \<in> set cs" "pm_role c = pm_role p" using c(1) dict_of_self_Some_iff [OF d] by auto
  then obtain j where "j < length cs" "c = cs ! j" "pm_role (cs ! j) = pm_role p" by (auto simp: in_set_conv_nth)
  then have "c = cs ! i" using i d nth_eq_iff_index_eq [OF d, of i j] by simp
  then show "i < length cs \<and> meets p (cs ! i)" using i c by (simp add: meets_def same_meta_def)
next
  assume m: "i < length cs \<and> meets p (cs ! i)"
  then have "dict_of (map (\<lambda>c. (pm_role c, c)) cs) (pm_role p) = Some (cs ! i)"
    using dict_of_self_Some_iff [OF d] by (simp add: meets_def same_meta_def)
  moreover have "dict_of (map (\<lambda>(i, c). (pm_role c, i)) (enumerate 0 cs)) (pm_role p) = Some i"
    using m enumerate_roles_Some [OF d] by (simp add: meets_def same_meta_def)
  ultimately show "check_payload l cs p = Inr i"
    using m by (simp add: check_payload_def meets_def same_meta_def)
qed

text \<open>Positions in order, each with a different role, select a subsequence; as many as there are
  contracts select them all.\<close>

lemma ascending_filter:
  assumes "sorted ns" "distinct ns" "list_all (\<lambda>i. i < n) ns"
  shows "ns = filter (\<lambda>i. i \<in> set ns) [0..<n]"
  by (rule sorted_distinct_set_unique [OF assms(1,2)]) (use assms(3) in \<open>auto simp: list_all_iff sorted_wrt_filter\<close>)

lemma ascending_subseq:
  fixes ns :: "nat list"
  assumes "sorted ns" "distinct ns" "list_all (\<lambda>i. i < length cs) ns"
  shows "subseq (map ((!) cs) ns) cs"
proof -
  have "subseq ns [0..<length cs]" by (subst ascending_filter [OF assms]) (rule subseq_filter_left)
  from subseq_map [OF this, of "(!) cs"] show ?thesis by (simp add: map_nth)
qed

lemma ascending_all:
  fixes ns :: "nat list"
  assumes "sorted ns" "distinct ns" "list_all (\<lambda>i. i < n) ns" "length ns = n"
  shows "ns = [0..<n]"
proof -
  have "card (set ns) = n" using assms(2,4) distinct_card by blast
  moreover have "set ns \<subseteq> {0..<n}" using assms(3) by (auto simp: list_all_iff)
  ultimately have "set ns = {0..<n}" by (intro card_subset_eq) auto
  then show ?thesis using sorted_distinct_set_unique [OF assms(1,2), of "[0..<n]"] by simp
qed

lemma nths_positions: "nths cs N = map ((!) cs) (filter (\<lambda>i. i \<in> N) [0..<length cs])"
proof (induction cs rule: rev_induct)
  case (snoc c cs)
  have "map ((!) (cs @ [c])) (filter (\<lambda>i. i \<in> N) [0..<length cs]) = map ((!) cs) (filter (\<lambda>i. i \<in> N) [0..<length cs])"
    by (rule map_cong) (auto simp: nth_append)
  then show ?case using snoc by (simp add: nths_append)
qed simp

lemma roles_of_positions:
  assumes "list_all2 (\<lambda>p i. i < length cs \<and> meets p (cs ! i)) ps ns"
  shows "map pm_role ps = map (\<lambda>i. pm_role (cs ! i)) ns"
  using assms by (induction rule: list_all2_induct) (auto simp: meets_def same_meta_def)

lemma check_sequence_Inr:
  assumes d: "distinct (map pm_role cs)" "distinct (map pm_role ps)"
  shows "check_sequence l exact cs ps k = Inr x \<longleftrightarrow>
    (if exact then list_all2 meets ps cs else \<exists>ds. subseq ds cs \<and> list_all2 meets ps ds) \<and> k = Inr x"
    (is "?l \<longleftrightarrow> ?m \<and> k = Inr x")
proof
  assume ?l
  then obtain ns where ns: "list_all2 (\<lambda>p i. i < length cs \<and> meets p (cs ! i)) ps ns" "sorted ns"
      "exact \<longrightarrow> length ps = length cs" "k = Inr x"
    unfolding check_sequence_def bindr_Inr_iff mapr_Inr_iff check_payload_Inr [OF d(1)] require_Inr_iff sorted_iff_sort
    by blast
  have "distinct (map (\<lambda>i. pm_role (cs ! i)) ns)" using d(2) roles_of_positions [OF ns(1)] by simp
  then have dn: "distinct ns" by (simp add: distinct_map)
  have lt: "list_all (\<lambda>i. i < length cs) ns"
    using ns(1) by (auto simp: list_all2_conv_all_nth list_all_length)
  have m: "list_all2 meets ps (map ((!) cs) ns)" using ns(1) by (auto simp: list_all2_conv_all_nth)
  have ?m
  proof (cases exact)
    case True
    then have "ns = [0..<length cs]"
      using ascending_all [OF ns(2) dn lt] ns(1,3) by (simp add: list_all2_lengthD)
    then show ?thesis using m True by (simp add: map_nth)
  next
    case False
    then show ?thesis using ascending_subseq [OF ns(2) dn lt] m by auto
  qed
  then show "?m \<and> k = Inr x" using ns(4) by simp
next
  assume r: "?m \<and> k = Inr x"
  then obtain ds where ds: "subseq ds cs" "list_all2 meets ps ds" "exact \<longrightarrow> ds = cs"
    by (metis subseq_order.refl)
  obtain N where N: "ds = nths cs N" using ds(1) subseq_conv_nths by blast
  define ns where "ns = filter (\<lambda>i. i \<in> N) [0..<length cs]"
  have "ds = map ((!) cs) ns"
    unfolding N ns_def by (rule nths_positions)
  then have "list_all2 (\<lambda>p i. i < length cs \<and> meets p (cs ! i)) ps ns"
    using ds(2) by (auto simp: list_all2_conv_all_nth ns_def dest: nth_mem)
  moreover have "sorted ns" by (simp add: ns_def sorted_wrt_filter)
  moreover have "exact \<longrightarrow> length ps = length cs" using ds(2,3) list_all2_lengthD by blast
  ultimately show ?l
    using r unfolding check_sequence_def bindr_Inr_iff mapr_Inr_iff check_payload_Inr [OF d(1)] require_Inr_iff sorted_iff_sort
    by blast
qed

section \<open>What a call returns\<close>

lemma meets_bytes: "list_all2 meets ps cs \<Longrightarrow> payload_bytes ps \<le> contract_bytes cs"
  by (induction rule: list_all2_induct) (auto simp: payload_bytes_def contract_bytes_def meets_def)

lemma contract_bytes_nonneg: "list_all contract_ok cs \<Longrightarrow> 0 \<le> contract_bytes cs"
  by (induction cs) (auto simp: contract_bytes_def contract_ok_def)

lemma subseq_bytes:
  assumes "subseq ds cs" "list_all contract_ok cs"
  shows "contract_bytes ds \<le> contract_bytes cs \<and> length ds \<le> length cs"
proof -
  have "subseq ds cs \<Longrightarrow> list_all contract_ok cs \<Longrightarrow> contract_bytes ds \<le> contract_bytes cs"
  proof (induction rule: list_emb.induct)
    case (list_emb_Nil ys)
    then show ?case using contract_bytes_nonneg [of ys] by (simp add: contract_bytes_def)
  qed (auto simp: contract_bytes_def contract_ok_def)
  then show ?thesis using assms list_emb_length by blast
qed

lemma payload_bytes_nonneg: "list_all payload_ok ps \<Longrightarrow> 0 \<le> payload_bytes ps"
  by (auto simp: payload_bytes_def list_all_iff payload_ok_def intro!: sum_list_nonneg)

definition meets_in_order :: "inline_payload list \<Rightarrow> payload_contract list \<Rightarrow> bool" where
  "meets_in_order ps cs \<longleftrightarrow> (\<exists>ds. subseq ds cs \<and> list_all2 meets ps ds)"

fun body_meets :: "firer_descriptor \<Rightarrow> result_body \<Rightarrow> bool" where
  "body_meets d (FiringSucceeded os) = list_all2 meets os (fd_outputs d)"
| "body_meets d (FiringRejected codes) = (int (length codes) \<le> fb_reasons (fd_bounds d))"
| "body_meets d (FiringFailed codes) = (int (length codes) \<le> fb_reasons (fd_bounds d))"

definition answers :: "firer_descriptor \<Rightarrow> firing_request \<Rightarrow> firing_result \<Rightarrow> bool" where
  "answers d q r \<longleftrightarrow> fr_request r = fq_identity q \<and> fr_occurrence r = oc_occurrence (fq_context q) \<and>
     fr_attempt r = oc_attempt (fq_context q) \<and> fr_firer r = fd_identity d"

fun body_bytes :: "result_body \<Rightarrow> int" where
  "body_bytes (FiringSucceeded os) = payload_bytes os"
| "body_bytes _ = 0"

lemma check_output_Inr:
  assumes d: "descriptor_ok d" and b: "body_ok b"
  shows "check_output d b k = Inr x \<longleftrightarrow> body_meets d b \<and> k (body_bytes b) = Inr x"
proof (cases b)
  case (FiringSucceeded os)
  have roles: "distinct (map pm_role (fd_outputs d))" "distinct (map pm_role os)"
    using d b by (simp_all add: FiringSucceeded descriptor_ok_def contracts_ok_def payloads_ok_def)
  have "int (length os) \<le> fb_outputs (fd_bounds d) \<and> payload_bytes os \<le> fb_output_bytes (fd_bounds d)"
    if m: "list_all2 meets os (fd_outputs d)"
    using meets_bytes [OF m] list_all2_lengthD [OF m] d by (simp add: descriptor_ok_def descriptor_fits_def)
  then show ?thesis
    by (auto simp: FiringSucceeded check_output_def check_sequence_Inr [OF roles] require_Inr_iff)
qed (auto simp: check_output_def require_Inr_iff)

lemma result_total:
  assumes d: "descriptor_ok d" and m: "body_meets d b" "meets_in_order ps (fd_evidence d)" and b: "body_ok b"
  shows "body_bytes b + payload_bytes ps \<le> fb_total_bytes (fd_bounds d) \<and> int (length ps) \<le> fb_evidence (fd_bounds d)"
proof -
  obtain ds where ds: "subseq ds (fd_evidence d)" "list_all2 meets ps ds" using m(2) by (auto simp: meets_in_order_def)
  have e: "payload_bytes ps \<le> contract_bytes (fd_evidence d)" "length ps \<le> length (fd_evidence d)"
    using subseq_bytes [OF ds(1)] meets_bytes [OF ds(2)] list_all2_lengthD [OF ds(2)] d
    by (auto simp: descriptor_ok_def contracts_ok_def)
  have o: "0 \<le> contract_bytes (fd_outputs d)"
    using d contract_bytes_nonneg by (simp add: descriptor_ok_def contracts_ok_def)
  have "body_bytes b \<le> contract_bytes (fd_outputs d)"
    using m(1) meets_bytes o by (cases b) auto
  then show ?thesis using e d by (simp add: descriptor_ok_def descriptor_fits_def)
qed

lemma check_correlation_Inr:
  assumes d: "descriptor_ok d" and r: "firing_result_ok r"
  shows "check_correlation d q r k = Inr x \<longleftrightarrow>
    answers d q r \<and> meets_in_order (fr_evidence r) (fd_evidence d) \<and> body_meets d (fr_body r) \<and> k = Inr x"
proof -
  have roles: "distinct (map pm_role (fd_evidence d))" "distinct (map pm_role (fr_evidence r))"
    using d r by (simp_all add: descriptor_ok_def contracts_ok_def firing_result_ok_def payloads_ok_def)
  have b: "body_ok (fr_body r)" and v: "fr_version r = sdk_version" using r by (simp_all add: firing_result_ok_def)
  show ?thesis
    unfolding check_correlation_def require_Inr_iff check_sequence_Inr [OF roles] check_output_Inr [OF d b]
    using result_total [OF d _ _ b] v by (auto simp: answers_def meets_in_order_def)
qed

lemma sdk_fire_Inr:
  assumes d: "descriptor_ok d" and q: "firing_request_ok q"
    and r: "\<And>r. invoke q = Inr r \<Longrightarrow> firing_result_ok r"
  shows "sdk_fire d invoke q = Inr r \<longleftrightarrow>
    fq_firer q = fd_identity d \<and> list_all2 meets (fq_inputs q) (fd_inputs d) \<and> invoke q = Inr r \<and>
    answers d q r \<and> meets_in_order (fr_evidence r) (fd_evidence d) \<and> body_meets d (fr_body r)"
proof -
  have roles: "distinct (map pm_role (fd_inputs d))" "distinct (map pm_role (fq_inputs q))"
    using d q by (simp_all add: descriptor_ok_def contracts_ok_def firing_request_ok_def payloads_ok_def)
  have fits: "int (length (fq_inputs q)) \<le> fb_inputs (fd_bounds d) \<and> payload_bytes (fq_inputs q) \<le> fb_input_bytes (fd_bounds d) \<and>
      payload_bytes (fq_inputs q) \<le> fb_total_bytes (fd_bounds d)" if m: "list_all2 meets (fq_inputs q) (fd_inputs d)"
    using meets_bytes [OF m] list_all2_lengthD [OF m] d by (auto simp: descriptor_ok_def descriptor_fits_def)
  have c: "check_correlation d q r' (Inr r') = Inr r \<longleftrightarrow> answers d q r \<and> meets_in_order (fr_evidence r) (fd_evidence d) \<and>
      body_meets d (fr_body r) \<and> r' = r" if "invoke q = Inr r'" for r'
    using check_correlation_Inr [OF d r [OF that], of q "Inr r'" r] by auto
  show ?thesis
    unfolding sdk_fire_def require_Inr_iff check_sequence_Inr [OF roles] bindr_Inr_iff
    using fits c by auto
qed

end
