(* ===== verification/Sdk_Bounds.thy ===== *)
theory Sdk_Bounds
  imports Sdk_Codecs Sdk_Firer
begin

text \<open>
  The size of the documents.  A record may hold more than a document may, but a request never does, and
  neither does a result whose payloads together respect the limit that a firer descriptor puts on them.
\<close>

section \<open>Lengths of texts\<close>

lemma json_string_length: "length (json_string s) = 2 + sum_list (map (length \<circ> escape_char) s)"
  by (simp add: json_string_def length_concat comp_def)

lemma printable_length: "\<forall>c \<in> set s. \<not> control_char c \<Longrightarrow> length (json_string s) \<le> 2 + 2 * length s"
proof -
  have e: "length (escape_char c) \<le> 2" if "\<not> control_char c" for c
    using that by (simp add: escape_char_def control_char_def)
  assume "\<forall>c \<in> set s. \<not> control_char c"
  then have "sum_list (map (length \<circ> escape_char) s) \<le> 2 * length s"
    using e by (induction s) fastforce+
  then show ?thesis by (simp add: json_string_length)
qed

lemma text_length: "text_ok m s \<Longrightarrow> length (json_string s) \<le> 2 + 2 * m"
  using printable_length [of s] text_okD [of m s] by auto

lemma plain_length: "\<forall>c \<in> set s. escape_char c = [c] \<Longrightarrow> length (json_string s) = 2 + length s"
proof -
  assume "\<forall>c \<in> set s. escape_char c = [c]"
  then have "sum_list (map (length \<circ> escape_char) s) = length s" by (induction s) auto
  then show ?thesis by (simp add: json_string_length)
qed

lemma b64_plain: "n < 64 \<Longrightarrow> escape_char (b64_char n) = [b64_char n]"
proof -
  assume n: "n < 64"
  note v = of_char_b64 [OF n]
  have "(32 :: nat) \<le> of_char (b64_char n) \<and> of_char (b64_char n) \<noteq> (34 :: nat) \<and> of_char (b64_char n) \<noteq> (92 :: nat)"
    using n by (auto simp: v)
  then have "b64_char n \<noteq> CHR 0x22" "b64_char n \<noteq> CHR 0x5C" "b64_char n \<noteq> CHR 0x0A" "b64_char n \<noteq> CHR 0x0D"
    "b64_char n \<noteq> CHR 0x09" "b64_char n \<noteq> CHR 0x0C" "b64_char n \<noteq> CHR 0x08" "\<not> of_char (b64_char n) < (32 :: nat)"
    by auto
  then show ?thesis by (simp add: escape_char_def)
qed

lemma b64_length: "length (json_string (b64encode s)) = 2 + 4 * ((length s + 2) div 3)"
proof -
  have "escape_char (CHR ''='') = ''=''" by code_simp
  then have "\<forall>c \<in> set (b64encode s). escape_char c = [c]" using b64encode_chars [of _ s] b64_plain by auto
  from plain_length [OF this] show ?thesis by (simp only: b64encode_length)
qed

lemma hex64_size: "hex64 s \<Longrightarrow> length (json_string s) \<le> 130"
proof -
  assume h: "hex64 s"
  have "\<not> control_char c" if "c \<in> set s" for c
    using h that by (auto simp: hex64_def list_all_iff control_char_def)
  then show ?thesis using printable_length [of s] h by (simp add: hex64_def)
qed

lemma lexical_size: "lexical_ok s \<Longrightarrow> length (json_string s) \<le> 1026"
  using text_length [OF lexical_okD, of s] by (simp add: sdk_limits)

lemma token_size: "token_text_ok s \<Longrightarrow> length (json_string s) \<le> 258"
  using text_length [OF token_text_okD, of s] by (simp add: sdk_limits)

lemma media_size: "media_ok s \<Longrightarrow> length (json_string s) \<le> 512"
  using text_length [OF media_okD, of s] by (simp add: sdk_limits)

lemma join_length: "length (join_comma xs) \<le> sum_list (map (\<lambda>x. length x + 1) xs)"
  by (induction xs rule: join_comma.induct) auto

lemma list_size: "length (dumps (JList xs)) \<le> 2 + sum_list (map (\<lambda>x. length (dumps x) + 1) xs)"
  using join_length [of "map dumps xs"] by (simp add: comp_def)

lemma sum_list_mset: "mset xs = mset ys \<Longrightarrow> sum_list xs = (sum_list ys :: nat)"
  by (metis sum_mset_sum_list)

lemma object_size:
  "length (dumps (JObj kvs)) \<le> 2 + sum_list (map (\<lambda>(k, v). length (json_string k) + length (dumps v) + 2) kvs)"
proof -
  let ?t = "\<lambda>(k, t). json_string k @ CHR '':'' # t"
  let ?s = "sort_key fst (map (\<lambda>(k, v). (k, dumps v)) kvs)"
  have "length (join_comma (map ?t ?s)) \<le> sum_list (map (\<lambda>x. length x + 1) (map ?t ?s))" by (rule join_length)
  also have "\<dots> = sum_list (map (\<lambda>(k, t). length (json_string k) + length t + 2) ?s)"
    unfolding map_map by (rule arg_cong [where f = sum_list], rule map_cong) auto
  also have "\<dots> = sum_list (map (\<lambda>(k, t). length (json_string k) + length t + 2) (map (\<lambda>(k, v). (k, dumps v)) kvs))"
    by (rule sum_list_mset) (simp only: mset_map mset_sort)
  also have "\<dots> = sum_list (map (\<lambda>(k, v). length (json_string k) + length (dumps v) + 2) kvs)"
    unfolding map_map by (rule arg_cong [where f = sum_list], rule map_cong) auto
  finally show ?thesis by simp
qed

lemma sum_bound: "list_all (\<lambda>x. f x \<le> (n :: nat)) xs \<Longrightarrow> sum_list (map f xs) \<le> length xs * n"
  by (induction xs) auto

section \<open>Payloads\<close>

definition payload_overhead :: nat where "payload_overhead = 6400"

lemma payload_size:
  "payload_ok p \<Longrightarrow> length (dumps (JObj (payload_items p))) \<le> 4 * ((length (ip_payload p) + 2) div 3) + payload_overhead"
proof -
  assume ok: "payload_ok p"
  then have m: "lexical_ok (sdk_owner_value (pm_owner p))" "lexical_ok (sdk_type_value (pm_type p))"
      "lexical_ok (sdk_schema_value (pm_schema p))" "lexical_ok (sdk_codec_value (pm_codec p))"
      "lexical_ok (sdk_representation_value (pm_representation p))" "token_text_ok (pm_role p)" "media_ok (pm_media p)"
    by (simp_all add: payload_ok_def meta_ok_def meta_ids_ok_def)
  have i: "length (dec_int (ip_length p)) \<le> 19"
    using signed_printable [of "ip_length p"] ok by (simp add: payload_ok_def sdk_limits)
  have h: "hex64 (ip_sha256 p)" using ok hex64_sha256 by (simp add: payload_ok_def)
  note k = json_string_length escape_char_def
  show ?thesis
    using object_size [of "payload_items p"] lexical_size [OF m(1)] lexical_size [OF m(2)] lexical_size [OF m(3)]
      lexical_size [OF m(4)] lexical_size [OF m(5)] token_size [OF m(6)] media_size [OF m(7)] i hex64_size [OF h]
      b64_length [of "ip_payload p"]
    unfolding payload_items_def payload_overhead_def
    by (simp add: plain_length escape_char_def del: dumps.simps(6)) 
qed


lemma group_sum: "3 * sum_list (map (\<lambda>p. 4 * ((length (ip_payload p) + 2) div 3)) ps) \<le>
    4 * (sum_list (map (\<lambda>p. length (ip_payload p)) ps) + 2 * length ps)"
proof (induction ps)
  case (Cons p ps)
  have "3 * ((length (ip_payload p) + 2) div 3) \<le> length (ip_payload p) + 2" by simp
  then show ?case using Cons by simp
qed simp

lemma payload_bytes_lengths: "list_all payload_ok ps \<Longrightarrow> payload_bytes ps = int (sum_list (map (\<lambda>p. length (ip_payload p)) ps))"
  by (induction ps) (auto simp: payload_bytes_def payload_ok_def)

lemma payloads_size:
  assumes "list_all payload_ok ps"
  shows "3 * length (dumps (payloads_json ps)) \<le> 6 + 4 * nat (payload_bytes ps) + length ps * (11 + 3 * payload_overhead)"
proof -
  let ?g = "\<lambda>p. 4 * ((length (ip_payload p) + 2) div 3)"
  have one: "sum_list (map (\<lambda>p. length (dumps (JObj (payload_items p))) + 1) ps) \<le>
      sum_list (map ?g ps) + length ps * (payload_overhead + 1)"
    using assms
  proof (induction ps)
    case (Cons p ps)
    then show ?case using payload_size [of p] by (simp del: dumps.simps)
  qed simp
  have "length (dumps (payloads_json ps)) \<le> 2 + sum_list (map (\<lambda>p. length (dumps (JObj (payload_items p))) + 1) ps)"
    using list_size [of "map (\<lambda>p. JObj (payload_items p)) ps"] by (simp add: payloads_json_def comp_def del: dumps.simps)
  then have "3 * length (dumps (payloads_json ps)) \<le> 6 + 3 * sum_list (map ?g ps) + 3 * (length ps * (payload_overhead + 1))"
    using one by linarith
  also have "\<dots> \<le> 6 + (4 * nat (payload_bytes ps) + 8 * length ps) + 3 * (length ps * (payload_overhead + 1))"
    using group_sum [of ps] payload_bytes_lengths [OF assms] by simp
  finally show ?thesis by (simp add: algebra_simps)
qed

section \<open>Documents\<close>

lemma document_size:
  "length (dumps (sdk_document schema f v)) \<le>
     100 + length (json_string schema) + length (json_string f) + length (dumps v)"
  using object_size [of "root_items schema f v"] unfolding sdk_document_items
  by (simp add: root_items_def sdk_version_def json_string_length escape_char_def del: dumps.simps(6))

lemma context_size: "context_ok c \<Longrightarrow> length (dumps (JObj (context_items c))) \<le> 7000"
proof -
  assume ok: "context_ok c"
  then have m: "lexical_ok (sdk_definition_value (oc_definition c))" "lexical_ok (sdk_instance_value (oc_instance c))"
      "lexical_ok (sdk_transition_value (oc_transition c))" "lexical_ok (sdk_marking_value (oc_marking c))"
      "lexical_ok (sdk_occurrence_value (oc_occurrence c))" "lexical_ok (sdk_attempt_value (oc_attempt c))"
      "hex64 (oc_binding_sha256 c)"
    by (simp_all add: context_ok_def context_ids_ok_def)
  have i: "length (dec_int (oc_revision c)) \<le> 19" "length (dec_int (oc_ordinal c)) \<le> 19"
    using signed_printable ok by (simp_all add: context_ok_def sdk_signed_def)
  show ?thesis
    using object_size [of "context_items c"] i hex64_size [OF m(7)] lexical_size [OF m(1)] lexical_size [OF m(2)]
      lexical_size [OF m(3)] lexical_size [OF m(4)] lexical_size [OF m(5)] lexical_size [OF m(6)]
    unfolding context_items_def by (simp add: plain_length escape_char_def del: dumps.simps(6))
qed

lemma payloads_total:
  "payloads_ok ps \<Longrightarrow> nat (payload_bytes ps) \<le> sdk_max_total \<and> length ps \<le> 64 \<and> list_all payload_ok ps"
  by (simp add: payloads_ok_def sdk_limits nat_le_iff)

lemma request_size: "firing_request_ok q \<Longrightarrow> length (dumps (JObj (request_items q))) \<le> 23000000"
proof -
  assume ok: "firing_request_ok q"
  then have m: "hex64 (sdk_binding_value (fq_binding q))" "lexical_ok (sdk_firer_value (fq_firer q))"
      "context_ok (fq_context q)" "payloads_ok (fq_inputs q)" "hex64 (sdk_request_value (fq_identity q))"
    by (simp_all add: firing_request_ok_def request_parts_ok_def request_digest_def hex64_semantic)
  have "3 * length (dumps (payloads_json (fq_inputs q))) \<le> 6 + 4 * sdk_max_total + 64 * (11 + 3 * payload_overhead)"
  proof -
    have "length (fq_inputs q) * (11 + 3 * payload_overhead) \<le> 64 * (11 + 3 * payload_overhead)"
      using payloads_total [OF m(4)] by (intro mult_le_mono1) simp
    then show ?thesis using payloads_total [OF m(4)] payloads_size [of "fq_inputs q"] by linarith
  qed
  then have p: "length (dumps (payloads_json (fq_inputs q))) \<le> 22800000"
    by (simp add: sdk_limits payload_overhead_def)
  have v: "length (json_string (fq_version q)) = 9"
    using ok by (simp add: firing_request_ok_def sdk_version_def plain_length escape_char_def)
  show ?thesis
    using object_size [of "request_items q"] p v hex64_size [OF m(1)] hex64_size [OF m(5)] lexical_size [OF m(2)]
      context_size [OF m(3)]
    unfolding request_items_def by (simp add: plain_length escape_char_def del: dumps.simps(5,6))
qed

lemma encode_request_total: "firing_request_ok q \<Longrightarrow> \<exists>p. encode_request q = Inr p"
proof -
  assume ok: "firing_request_ok q"
  have "length (dumps (sdk_document firing_request_schema ''request'' (JObj (request_items q)))) \<le> sdk_max_document"
    using document_size [of firing_request_schema "''request''" "JObj (request_items q)"] request_size [OF ok]
    by (simp add: sdk_limits firing_request_schema_def plain_length escape_char_def del: dumps.simps)
  then show ?thesis using dumps_nonempty by (simp add: encode_request_def sdk_dump_Inr)
qed

lemma codes_size: "codes_ok cs \<Longrightarrow> length (dumps (JList (map JStr cs))) \<le> 20000"
proof -
  assume ok: "codes_ok cs"
  then have "list_all (\<lambda>c. length (json_string c) + 1 \<le> 259) cs"
    using token_size by (fastforce simp: codes_ok_def list_all_iff)
  from sum_bound [OF this] have "sum_list (map (\<lambda>c. length (json_string c) + 1) cs) \<le> length cs * 259" .
  then show ?thesis
    using ok list_size [of "map JStr cs"] by (simp add: codes_ok_def sdk_limits comp_def del: dumps.simps(5))
qed

text \<open>The payloads of a result together, as the total bound of a descriptor limits them.\<close>

lemma result_payloads_size:
  assumes ok: "firing_result_ok r" and total: "body_bytes (fr_body r) + payload_bytes (fr_evidence r) \<le> int sdk_max_total"
  shows "length (dumps (body_json (fr_body r))) + length (dumps (payloads_json (fr_evidence r))) \<le> 23300000"
proof -
  have e: "list_all payload_ok (fr_evidence r)" "length (fr_evidence r) \<le> 64" "0 \<le> payload_bytes (fr_evidence r)"
    using ok payloads_total [of "fr_evidence r"] payload_bytes_nonneg [of "fr_evidence r"]
    by (simp_all add: firing_result_ok_def)
  have ev: "3 * length (dumps (payloads_json (fr_evidence r))) \<le>
      6 + 4 * nat (payload_bytes (fr_evidence r)) + 64 * (11 + 3 * payload_overhead)"
    using payloads_size [OF e(1)] mult_le_mono1 [OF e(2), of "11 + 3 * payload_overhead"] by linarith
  have b: "body_ok (fr_body r)" using ok by (simp add: firing_result_ok_def)
  show ?thesis
  proof (cases "fr_body r")
    case (FiringSucceeded ps)
    then have p: "list_all payload_ok ps" "length ps \<le> 64" "0 \<le> payload_bytes ps"
      using b payloads_total [of ps] payload_bytes_nonneg [of ps] by auto
    have "3 * length (dumps (payloads_json ps)) \<le> 6 + 4 * nat (payload_bytes ps) + 64 * (11 + 3 * payload_overhead)"
      using payloads_size [OF p(1)] mult_le_mono1 [OF p(2), of "11 + 3 * payload_overhead"] by linarith
    moreover have "nat (payload_bytes ps) + nat (payload_bytes (fr_evidence r)) \<le> sdk_max_total"
      using total p(3) e(3) by (simp add: FiringSucceeded nat_add_distrib [symmetric] nat_le_iff)
    ultimately show ?thesis using ev by (simp add: FiringSucceeded sdk_limits payload_overhead_def)
  next
    case (FiringRejected cs)
    have "nat (payload_bytes (fr_evidence r)) \<le> sdk_max_total" using total by (simp add: FiringRejected nat_le_iff)
    then show ?thesis
      using ev codes_size [of cs] b by (simp add: FiringRejected sdk_limits payload_overhead_def del: dumps.simps)
  next
    case (FiringFailed cs)
    have "nat (payload_bytes (fr_evidence r)) \<le> sdk_max_total" using total by (simp add: FiringFailed nat_le_iff)
    then show ?thesis
      using ev codes_size [of cs] b by (simp add: FiringFailed sdk_limits payload_overhead_def del: dumps.simps)
  qed
qed

lemma result_size:
  assumes ok: "firing_result_ok r" and total: "body_bytes (fr_body r) + payload_bytes (fr_evidence r) \<le> int sdk_max_total"
  shows "length (dumps (JObj (result_items r))) \<le> 23400000"
proof -
  have m: "lexical_ok (sdk_attempt_value (fr_attempt r))" "lexical_ok (sdk_firer_value (fr_firer r))"
      "hex64 (sdk_result_value (fr_identity r))" "lexical_ok (sdk_occurrence_value (fr_occurrence r))"
      "hex64 (sdk_request_value (fr_request r))"
    using ok by (simp_all add: firing_result_ok_def result_parts_ok_def result_digest_def hex64_semantic)
  have v: "length (json_string (fr_version r)) = 9"
    using ok by (simp add: firing_result_ok_def sdk_version_def plain_length escape_char_def)
  have k: "length (json_string (body_key (fr_body r))) \<le> 20"
    by (cases "fr_body r") (simp_all add: plain_length escape_char_def)
  show ?thesis
    using object_size [of "result_items r"] result_payloads_size [OF assms] v k lexical_size [OF m(1)] lexical_size [OF m(2)]
      hex64_size [OF m(3)] lexical_size [OF m(4)] hex64_size [OF m(5)]
    unfolding result_items_def by (simp add: plain_length escape_char_def del: dumps.simps(5,6))
qed

lemma encode_result_total:
  assumes "firing_result_ok r" "body_bytes (fr_body r) + payload_bytes (fr_evidence r) \<le> int sdk_max_total"
  shows "\<exists>p. encode_result r = Inr p"
proof -
  have o: "length (json_string (sdk_outcome (fr_body r))) \<le> 11"
    by (cases "fr_body r") (simp_all add: plain_length escape_char_def)
  have "length (dumps (result_document r)) \<le> sdk_max_document"
    using object_size [of "result_root r"] result_size [OF assms] o unfolding result_document_root
    by (simp add: result_root_def sdk_limits sdk_version_def firing_result_schema_def plain_length escape_char_def del: dumps.simps(5,6))
  then show ?thesis using dumps_nonempty by (simp add: encode_result_def sdk_dump_Inr)
qed

section \<open>Descriptors and bindings always have a document\<close>

lemma contract_size: "contract_ok c \<Longrightarrow> length (dumps (JObj (contract_items c))) \<le> 6400"
proof -
  assume ok: "contract_ok c"
  then have m: "lexical_ok (sdk_owner_value (pm_owner c))" "lexical_ok (sdk_type_value (pm_type c))"
      "lexical_ok (sdk_schema_value (pm_schema c))" "lexical_ok (sdk_codec_value (pm_codec c))"
      "lexical_ok (sdk_representation_value (pm_representation c))" "token_text_ok (pm_role c)" "media_ok (pm_media c)"
    by (simp_all add: contract_ok_def meta_ok_def meta_ids_ok_def)
  have i: "length (dec_int (pc_maximum c)) \<le> 19"
    using signed_printable [of "pc_maximum c"] ok by (simp add: contract_ok_def sdk_limits)
  show ?thesis
    using object_size [of "contract_items c"] lexical_size [OF m(1)] lexical_size [OF m(2)] lexical_size [OF m(3)]
      lexical_size [OF m(4)] lexical_size [OF m(5)] token_size [OF m(6)] media_size [OF m(7)] i
    unfolding contract_items_def by (simp add: plain_length escape_char_def del: dumps.simps(6))
qed

lemma contracts_size: "contracts_ok cs \<Longrightarrow> length (dumps (contracts_json cs)) \<le> 410000"
proof -
  assume ok: "contracts_ok cs"
  then have "list_all (\<lambda>c. length (dumps (JObj (contract_items c))) + 1 \<le> 6401) cs"
    using contract_size by (fastforce simp: contracts_ok_def list_all_iff)
  from sum_bound [OF this]
  have "sum_list (map (\<lambda>c. length (dumps (JObj (contract_items c))) + 1) cs) \<le> length cs * 6401" .
  also have "\<dots> \<le> 64 * 6401" using ok by (simp add: contracts_ok_def sdk_limits)
  finally show ?thesis
    using list_size [of "map (\<lambda>c. JObj (contract_items c)) cs"] by (simp add: contracts_json_def comp_def del: dumps.simps)
qed

lemma bounds_size: "bounds_ok b \<Longrightarrow> length (dumps (JObj (bounds_items b))) \<le> 400"
proof -
  assume "bounds_ok b"
  then have "length (dec_int i) \<le> 19" if "i \<in> {fb_inputs b, fb_outputs b, fb_evidence b, fb_input_bytes b,
      fb_output_bytes b, fb_total_bytes b, fb_reasons b}" for i
    using that signed_printable [of i] by (auto simp: bounds_ok_def bounds_fields_def bound_ok_def sdk_limits)
  note i = this [of "fb_inputs b"] this [of "fb_outputs b"] this [of "fb_evidence b"] this [of "fb_input_bytes b"]
    this [of "fb_output_bytes b"] this [of "fb_total_bytes b"] this [of "fb_reasons b"]
  show ?thesis
    using object_size [of "bounds_items b"] i
    unfolding bounds_items_def by (simp add: plain_length escape_char_def del: dumps.simps(6))
qed

lemma encode_descriptor_total: "descriptor_ok d \<Longrightarrow> \<exists>p. encode_descriptor d = Inr p"
proof -
  assume ok: "descriptor_ok d"
  then have m: "contracts_ok (fd_inputs d)" "contracts_ok (fd_outputs d)" "contracts_ok (fd_evidence d)"
      "bounds_ok (fd_bounds d)" "lexical_ok (sdk_firer_value (fd_identity d))"
      "lexical_ok (sdk_implementation_value (fd_implementation d))"
    by (simp_all add: descriptor_ok_def descriptor_parts_ok_def)
  have v: "length (json_string (fd_version d)) = 9"
    using ok by (simp add: descriptor_ok_def sdk_version_def plain_length escape_char_def)
  have "length (dumps (JObj (descriptor_items d))) \<le> 1300000"
    using object_size [of "descriptor_items d"] contracts_size [OF m(1)] contracts_size [OF m(2)] contracts_size [OF m(3)]
      bounds_size [OF m(4)] lexical_size [OF m(5)] lexical_size [OF m(6)] v
    unfolding descriptor_items_def by (simp add: plain_length escape_char_def del: dumps.simps(5,6))
  then have "length (dumps (sdk_document descriptor_schema ''descriptor'' (JObj (descriptor_items d)))) \<le> sdk_max_document"
    using document_size [of descriptor_schema "''descriptor''" "JObj (descriptor_items d)"]
    by (simp add: sdk_limits descriptor_schema_def plain_length escape_char_def del: dumps.simps)
  then show ?thesis using dumps_nonempty by (simp add: encode_descriptor_def sdk_dump_Inr)
qed

lemma roles_size: "roles_ok rs \<Longrightarrow> length (dumps (JList (map JStr rs))) \<le> 20000"
proof -
  assume ok: "roles_ok rs"
  then have "list_all (\<lambda>r. length (json_string r) + 1 \<le> 259) rs"
    using token_size by (fastforce simp: roles_ok_def list_all_iff)
  from sum_bound [OF this] have "sum_list (map (\<lambda>r. length (json_string r) + 1) rs) \<le> length rs * 259" .
  then show ?thesis
    using ok list_size [of "map JStr rs"] by (simp add: roles_ok_def sdk_limits comp_def del: dumps.simps(5))
qed

lemma encode_binding_total: "firer_binding_ok b \<Longrightarrow> \<exists>p. encode_binding b = Inr p"
proof -
  assume ok: "firer_binding_ok b"
  then have m: "roles_ok (tb_inputs b)" "roles_ok (tb_outputs b)" "token_text_ok (tb_version b)"
      "lexical_ok (sdk_definition_value (tb_definition b))" "lexical_ok (sdk_transition_value (tb_transition b))"
      "lexical_ok (sdk_firer_value (tb_firer b))" "hex64 (sdk_binding_value (tb_identity b))"
    by (simp_all add: firer_binding_ok_def binding_ids_ok_def binding_digest_def hex64_semantic)
  have "length (dumps (JObj (binding_items b))) \<le> 50000"
    using object_size [of "binding_items b"] roles_size [OF m(1)] roles_size [OF m(2)] token_size [OF m(3)]
      lexical_size [OF m(4)] lexical_size [OF m(5)] lexical_size [OF m(6)] hex64_size [OF m(7)]
    unfolding binding_items_def by (simp add: plain_length escape_char_def del: dumps.simps(5,6))
  then have "length (dumps (sdk_document binding_schema ''binding'' (JObj (binding_items b)))) \<le> sdk_max_document"
    using document_size [of binding_schema "''binding''" "JObj (binding_items b)"]
    by (simp add: sdk_limits binding_schema_def plain_length escape_char_def del: dumps.simps)
  then show ?thesis using dumps_nonempty by (simp add: encode_binding_def sdk_dump_Inr)
qed

section \<open>What a firer returned has a document\<close>

lemma fired_encodable:
  assumes "descriptor_ok d" "firing_request_ok q" "\<And>r. invoke q = Inr r \<Longrightarrow> firing_result_ok r"
    and "sdk_fire d invoke q = Inr r"
  shows "firing_result_ok r \<and> (\<exists>p. encode_result r = Inr p)"
proof -
  note f = iffD1 [OF sdk_fire_Inr [of d q invoke r] assms(4)]
  have ok: "firing_result_ok r" using f assms(1-3) by blast
  then have "body_ok (fr_body r)" by (simp add: firing_result_ok_def)
  then have "body_bytes (fr_body r) + payload_bytes (fr_evidence r) \<le> fb_total_bytes (fd_bounds d)"
    using f assms(1-3) result_total [OF assms(1)] by blast
  moreover have "fb_total_bytes (fd_bounds d) \<le> int sdk_max_total"
    using assms(1) by (simp add: descriptor_ok_def descriptor_parts_ok_def bounds_ok_def bounds_fields_def bound_ok_def)
  ultimately show ?thesis using ok encode_result_total by simp
qed

end
