(* ===== verification/Sdk_Example.thy ===== *)
theory Sdk_Example
  imports Sdk_Bounds Sdk_Validation
begin

text \<open>
  One instance of the SDK records: a firer with one input, one output and one optional evidence role, a
  request to it and its answer.
\<close>

definition sample_contract :: "string \<Rightarrow> payload_contract" where
  "sample_contract role =
     \<lparr>pm_role = role, pm_owner = SdkOwner ''owner'', pm_type = SdkType ''type'', pm_schema = SdkSchema ''schema'',
      pm_codec = SdkCodec ''codec'', pm_representation = SdkRepresentation ''json'', pm_media = ''text/plain'',
      pc_maximum = 8\<rparr>"

definition sample_payload :: "string \<Rightarrow> inline_payload" where
  "sample_payload role =
     \<lparr>pm_role = role, pm_owner = SdkOwner ''owner'', pm_type = SdkType ''type'', pm_schema = SdkSchema ''schema'',
      pm_codec = SdkCodec ''codec'', pm_representation = SdkRepresentation ''json'', pm_media = ''text/plain'',
      ip_payload = ''data'', ip_length = 4, ip_sha256 = sha256_hex ''data''\<rparr>"

definition sample_bounds :: firing_bounds where
  "sample_bounds = \<lparr>fb_inputs = 1, fb_outputs = 1, fb_evidence = 1, fb_input_bytes = 8, fb_output_bytes = 8,
     fb_total_bytes = 16, fb_reasons = 0\<rparr>"

definition sample_descriptor :: firer_descriptor where
  "sample_descriptor =
     \<lparr>fd_identity = SdkFirer ''firer'', fd_implementation = SdkImplementation ''firer-1'',
      fd_inputs = [sample_contract ''in''], fd_outputs = [sample_contract ''out''],
      fd_evidence = [sample_contract ''log''], fd_bounds = sample_bounds, fd_version = sdk_version\<rparr>"

definition sample_context :: occurrence_context where
  "sample_context =
     \<lparr>oc_definition = SdkDefinition ''definition'', oc_instance = SdkInstance ''net'', oc_transition = SdkTransition ''step'',
      oc_marking = SdkMarking ''m0'', oc_revision = 0, oc_binding_sha256 = sha256_hex [], oc_occurrence = SdkOccurrence ''o1'',
      oc_attempt = SdkAttempt ''a1'', oc_ordinal = 0\<rparr>"

definition sample_request_fields :: firing_request where
  "sample_request_fields =
     \<lparr>fq_identity = SdkRequest [], fq_context = sample_context, fq_binding = SdkBinding (sha256_hex []),
      fq_firer = SdkFirer ''firer'', fq_inputs = [sample_payload ''in''], fq_version = sdk_version\<rparr>"

definition sample_request :: firing_request where
  "sample_request = sample_request_fields\<lparr>fq_identity := SdkRequest (request_digest sample_request_fields)\<rparr>"

definition sample_answer_fields :: "firing_request \<Rightarrow> firing_result" where
  "sample_answer_fields q =
     \<lparr>fr_identity = SdkResult [], fr_request = fq_identity q, fr_occurrence = SdkOccurrence ''o1'',
      fr_attempt = SdkAttempt ''a1'', fr_firer = SdkFirer ''firer'', fr_body = FiringSucceeded [sample_payload ''out''],
      fr_evidence = [], fr_version = sdk_version\<rparr>"

definition sample_answer :: "firing_request \<Rightarrow> firing_result" where
  "sample_answer q = (sample_answer_fields q)\<lparr>fr_identity := SdkResult (result_digest (sample_answer_fields q))\<rparr>"

lemma sample_texts:
  "lexical_ok ''owner''" "lexical_ok ''type''" "lexical_ok ''schema''" "lexical_ok ''codec''" "lexical_ok ''json''"
  "lexical_ok ''firer''" "lexical_ok ''firer-1''" "lexical_ok ''definition''" "lexical_ok ''net''" "lexical_ok ''step''"
  "lexical_ok ''m0''" "lexical_ok ''o1''" "lexical_ok ''a1''" "media_ok ''text/plain''"
  "token_text_ok ''in''" "token_text_ok ''out''" "token_text_ok ''log''"
  by (simp_all add: lexical_ok_def token_text_ok_def media_ok_def text_ok_def ascii_stripped starts_def sdk_limits ascii_def control_char_def sdk_machine_path_def lower_char_def token_grammar_def
      media_type_grammar_def media_char_def alnum_def Let_def)

lemma sample_contract_ok: "token_text_ok r \<Longrightarrow> contract_ok (sample_contract r)"
  by (simp add: contract_ok_def meta_ok_def meta_ids_ok_def sample_contract_def sample_texts sdk_limits)

lemma sample_payload_ok: "token_text_ok r \<Longrightarrow> payload_ok (sample_payload r)"
  by (simp add: payload_ok_def meta_ok_def meta_ids_ok_def sample_payload_def sample_texts sdk_limits)

lemma sample_payload_length: "ip_length (sample_payload r) = 4" "pm_role (sample_payload r) = r"
  "pc_maximum (sample_contract r) = 8"
  by (simp_all add: sample_payload_def sample_contract_def)

lemma sample_descriptor_ok: "descriptor_ok sample_descriptor"
proof -
  have "bounds_ok sample_bounds" by (simp add: bounds_ok_def bounds_fields_def bound_ok_def sample_bounds_def sdk_limits)
  then show ?thesis
    by (simp add: descriptor_ok_def descriptor_parts_ok_def sample_descriptor_def sample_texts sample_contract_ok
        contracts_ok_def descriptor_fits_def contract_bytes_def sample_payload_length sdk_max_contracts_def)
      (simp add: sample_bounds_def)
qed

lemma sample_request_ok: "firing_request_ok sample_request"
proof -
  have "context_ok sample_context"
    by (simp add: context_ok_def context_ids_ok_def sample_context_def sample_texts sdk_signed_def sdk_max_signed_def hex64_sha256)
  then have "request_parts_ok sample_request_fields"
    by (simp add: request_parts_ok_def sample_request_fields_def sample_texts hex64_sha256 sample_payload_ok)
  then show ?thesis
    by (simp add: firing_request_ok_def sample_request_def request_parts_ok_def payloads_ok_def payload_bytes_def)
      (simp add: sample_request_fields_def payload_bytes_def sample_payload_length sdk_limits)
qed

lemma sample_request_identity: "fq_identity sample_request = SdkRequest (request_digest sample_request_fields)"
  by (simp add: sample_request_def)

lemma sample_answer_ok: "firing_result_ok (sample_answer sample_request)"
proof -
  have "result_parts_ok (sample_answer_fields sample_request)"
    by (simp add: result_parts_ok_def sample_answer_fields_def sample_request_identity request_digest_def hex64_semantic
        sample_texts sample_payload_ok)
  then show ?thesis
    by (simp add: firing_result_ok_def sample_answer_def result_parts_ok_def payloads_ok_def)
      (simp add: sample_answer_fields_def payloads_ok_def payload_bytes_def sample_payload_length sdk_limits)
qed

lemma sample_meets: "meets (sample_payload r) (sample_contract r)"
  by (simp add: meets_def same_meta_def sample_payload_def sample_contract_def)

end
