(* ===== verification/Sdk_Theorems.thy ===== *)
theory Sdk_Theorems
  imports Sdk_Example
begin

text \<open>
  The properties of the Workflow SDK: its records on the wire, the template method of a firer, and the
  derived identities.
\<close>

section \<open>Documents\<close>

text \<open>C10: On the wire every SDK record has exactly one document.  For each of the five codecs, bytes are
  decoded to a record exactly when the record is one its constructor accepts and the bytes are its
  encoding; everything else is refused.\<close>

theorem sdk_documents_correspond:
  "(decode_descriptor_bytes p = Inr d \<longleftrightarrow> descriptor_ok d \<and> encode_descriptor d = Inr p) \<and>
   (decode_binding_bytes p = Inr b \<longleftrightarrow> firer_binding_ok b \<and> encode_binding b = Inr p) \<and>
   (decode_request_bytes p = Inr q \<longleftrightarrow> firing_request_ok q \<and> encode_request q = Inr p) \<and>
   (decode_result_bytes p = Inr r \<longleftrightarrow> firing_result_ok r \<and> encode_result r = Inr p) \<and>
   (decode_manifest_bytes p = Inr m \<longleftrightarrow> manifest_ok m \<and> encode_manifest m = Inr p)"
  by (intro conjI descriptor_bytes binding_bytes request_bytes result_bytes manifest_bytes)

section \<open>Firing\<close>

text \<open>C11: A firer returns a result exactly when the request names it, its inputs meet the input contracts
  one by one, its own operation returned that result for this request, and the result answers the
  request with evidence that meets a subsequence of the evidence contracts and with outputs that meet
  the output contracts one by one, or with no more codes than allowed.  The byte and count bounds of
  the descriptor then hold of themselves.\<close>

theorem fire_matches_contracts:
  assumes "descriptor_ok d" "firing_request_ok q" "\<And>r. invoke q = Inr r \<Longrightarrow> firing_result_ok r"
  shows "sdk_fire d invoke q = Inr r \<longleftrightarrow>
    fq_firer q = fd_identity d \<and> list_all2 meets (fq_inputs q) (fd_inputs d) \<and> invoke q = Inr r \<and>
    answers d q r \<and> meets_in_order (fr_evidence r) (fd_evidence d) \<and> body_meets d (fr_body r)"
  by (rule sdk_fire_Inr) (rule assms, assumption?)+

theorem fire_matches_contracts_witness:
  "sdk_fire sample_descriptor (\<lambda>q. Inr (sample_answer q)) sample_request = Inr (sample_answer sample_request)"
proof -
  have "meets_in_order [] cs" for cs by (auto simp: meets_in_order_def)
  then show ?thesis
    using fire_matches_contracts [OF sample_descriptor_ok sample_request_ok, of "\<lambda>q. Inr (sample_answer q)"
        "sample_answer sample_request"] sample_answer_ok sample_meets
    by (simp add: answers_def sample_answer_def sample_answer_fields_def sample_descriptor_def sample_request_def
        sample_request_fields_def sample_context_def)
qed

text \<open>C37: Whatever crosses the boundary can be transported.  The request of a call and the result that the
  firer returns for it both have an encoding within the document bound, which decodes to them.\<close>

theorem fired_transportable:
  assumes "descriptor_ok d" "firing_request_ok q" "\<And>r. invoke q = Inr r \<Longrightarrow> firing_result_ok r"
    and "sdk_fire d invoke q = Inr r"
  shows "(\<exists>p. encode_request q = Inr p \<and> decode_request_bytes p = Inr q) \<and>
    (\<exists>p. encode_result r = Inr p \<and> decode_result_bytes p = Inr r)"
  using encode_request_total [OF assms(2)] fired_encodable [OF assms] assms(2) request_bytes result_bytes by blast

theorem fired_transportable_witness:
  "(\<exists>p. encode_request sample_request = Inr p \<and> decode_request_bytes p = Inr sample_request) \<and>
   (\<exists>p. encode_result (sample_answer sample_request) = Inr p \<and>
     decode_result_bytes p = Inr (sample_answer sample_request))"
proof (rule fired_transportable [OF sample_descriptor_ok sample_request_ok, of "\<lambda>q. Inr (sample_answer q)"])
  have "meets_in_order [] cs" for cs by (auto simp: meets_in_order_def)
  then show "sdk_fire sample_descriptor (\<lambda>q. Inr (sample_answer q)) sample_request = Inr (sample_answer sample_request)"
    using sdk_fire_Inr [OF sample_descriptor_ok sample_request_ok, of "\<lambda>q. Inr (sample_answer q)"
        "sample_answer sample_request"] sample_answer_ok sample_meets
    by (simp add: answers_def sample_answer_def sample_answer_fields_def sample_descriptor_def sample_request_def
        sample_request_fields_def sample_context_def)
qed (use sample_answer_ok in simp)

section \<open>Identities\<close>

text \<open>C38: The identity of a firing request determines the request with the bytes of its inputs, unless two
  semantic texts or two payloads exhibit a collision of SHA-256.\<close>

theorem firing_request_identity_determines:
  assumes "firing_request_ok q" "firing_request_ok q'" "fq_identity q = fq_identity q'"
  shows "q = q' \<or>
    sha256_collision (semantic_text ''workflow-sdk-firing-request:1'' (sdk_request_state q))
      (semantic_text ''workflow-sdk-firing-request:1'' (sdk_request_state q')) \<or>
    (\<exists>p \<in> set (fq_inputs q). \<exists>p' \<in> set (fq_inputs q'). sha256_collision (ip_payload p) (ip_payload p'))"
proof -
  have ok: "list_all payload_ok (fq_inputs q)" "list_all payload_ok (fq_inputs q')" "fq_version q = fq_version q'"
    using assms(1,2) by (simp_all add: firing_request_ok_def request_parts_ok_def)
  have "semantic_sha256 ''workflow-sdk-firing-request:1'' (sdk_request_state q) =
      semantic_sha256 ''workflow-sdk-firing-request:1'' (sdk_request_state q')"
    using assms by (simp add: firing_request_ok_def request_digest_def)
  from semantic_sha256_eqD [OF this] consider "sdk_request_state q = sdk_request_state q'"
    | "sha256_collision (semantic_text ''workflow-sdk-firing-request:1'' (sdk_request_state q))
         (semantic_text ''workflow-sdk-firing-request:1'' (sdk_request_state q'))" by auto
  then show ?thesis
  proof cases
    case 1
    then have s: "context_state (fq_context q) = context_state (fq_context q')"
      "sdk_binding_value (fq_binding q) = sdk_binding_value (fq_binding q')"
      "sdk_firer_value (fq_firer q) = sdk_firer_value (fq_firer q')"
      "map payload_state (fq_inputs q) = map payload_state (fq_inputs q')"
      by (simp_all add: sdk_request_state_def)
    have "q = q'" if "fq_inputs q = fq_inputs q'"
      using that s context_state_inj assms(3) ok(3) by (intro firing_request.equality) (simp_all add: sdk_id_expand)
    then show ?thesis using map_state_eq [OF s(4) ok(1,2)] by blast
  qed blast
qed

theorem firing_request_identity_determines_witness:
  "\<exists>q'. firing_request_ok q' \<and> fq_identity sample_request = fq_identity q' \<and>
    (sample_request = q' \<or>
     sha256_collision (semantic_text ''workflow-sdk-firing-request:1'' (sdk_request_state sample_request))
       (semantic_text ''workflow-sdk-firing-request:1'' (sdk_request_state q')) \<or>
     (\<exists>p \<in> set (fq_inputs sample_request). \<exists>p' \<in> set (fq_inputs q'). sha256_collision (ip_payload p) (ip_payload p')))"
  using firing_request_identity_determines [OF sample_request_ok sample_request_ok refl] sample_request_ok by blast

end
