(* ===== verification/Action_Binding.thy ===== *)
theory Action_Binding
  imports Sdk_Bounds Sdk_Firer Sdk_Validation Cpn_Selection
begin

text \<open>
  \<open>workflow/actions/_validation.py\<close>: the checks of the action mapping that sits between the colored net
  and the Workflow SDK.  A record of the SDK is checked by sending it through its codec; payloads are
  compared with contracts position by position; the bytes of a logical identity are decoded.
\<close>

section \<open>SDK records\<close>

definition max_action_identity :: nat where "max_action_identity = 512"

definition round_trip_binding :: "firer_binding \<Rightarrow> firer_binding result" where
  "round_trip_binding b = bindr (encode_binding b) decode_binding_bytes"

definition round_trip_descriptor :: "firer_descriptor \<Rightarrow> firer_descriptor result" where
  "round_trip_descriptor d = bindr (encode_descriptor d) decode_descriptor_bytes"

text \<open>The tests that every user of the two makes.\<close>

definition retained_binding :: "firer_binding \<Rightarrow> firer_descriptor \<Rightarrow> 'a result \<Rightarrow> 'a result" where
  "retained_binding b d k =
     bindr (round_trip_binding b) (\<lambda>b'.
     bindr (round_trip_descriptor d) (\<lambda>d'.
     require (b' = b) ''transition binding differs after canonical round trip''
    (require (d' = d) ''firer descriptor differs after canonical round trip''
    (require (tb_firer b' = fd_identity d') ''transition binding firer differs from descriptor''
    (require (tb_inputs b' = map pm_role (fd_inputs d')) ''transition binding input roles differ from descriptor''
    (require (tb_outputs b' = map pm_role (fd_outputs d')) ''transition binding output roles differ from descriptor'' k))))))"

section \<open>Payloads\<close>

definition check_against :: "string \<Rightarrow> nat \<times> inline_payload \<times> payload_contract \<Rightarrow> 'a result \<Rightarrow> 'a result" where
  "check_against label entry k =
     (case entry of (i, p, c) \<Rightarrow>
        bindr (mk_inline_payload p) (\<lambda>q.
        require (q = p) (at_index label i @ '' differs after validation'')
       (require (same_meta p c) (at_index label i @ '' metadata differs from contract'')
       (require (ip_length p \<le> pc_maximum c) (at_index label i @ '' exceeds contract byte bound'') k))))"

definition validate_payloads :: "string \<Rightarrow> inline_payload list \<Rightarrow> payload_contract list \<Rightarrow> 'a result \<Rightarrow> 'a result" where
  "validate_payloads label ps cs k =
     require (length ps = length cs) (label @ '' must exactly satisfy retained contracts'')
       (foldr (check_against label) (enumerate 0 (zip ps cs)) k)"

text \<open>The outputs and the evidence of a succeeded result.\<close>

definition validate_bounds ::
  "firer_descriptor \<Rightarrow> firing_request \<Rightarrow> inline_payload list \<Rightarrow> inline_payload list \<Rightarrow> 'a result \<Rightarrow> 'a result" where
  "validate_bounds d q os es k =
     (let b = fd_bounds d in
      require (int (length (fq_inputs q)) \<le> fb_inputs b) ''request input count exceeds descriptor bounds''
     (require (int (length os) \<le> fb_outputs b) ''result output count exceeds descriptor bounds''
     (require (int (length es) \<le> fb_evidence b) ''result evidence count exceeds descriptor bounds''
     (require (payload_bytes (fq_inputs q) \<le> fb_input_bytes b) ''request input bytes exceed descriptor bounds''
     (require (payload_bytes os \<le> fb_output_bytes b) ''result output bytes exceed descriptor bounds''
     (require (max (payload_bytes (fq_inputs q)) (payload_bytes os + payload_bytes es) \<le> fb_total_bytes b)
        ''request or result bytes exceed descriptor total bound'' k))))))"

section \<open>Texts\<close>

definition path_or_locator :: "string \<Rightarrow> bool" where
  "path_or_locator s \<longleftrightarrow>
     CHR ''/'' \<in> set s \<or> CHR 0x5C \<in> set s \<or> s \<in> {''.'', ''..''} \<or>
     list_ex (\<lambda>p. starts p s) [''~'', ''./'', ''../''] \<or> starts ''file:'' (map lower_char s) \<or>
     (case s of
        c # d # _ \<Rightarrow> of_char c \<in> {65..90::nat} \<union> {97..122} \<and> d = CHR '':''
      | _ \<Rightarrow> False)"

definition space_or_control :: "char \<Rightarrow> bool" where
  "space_or_control c \<longleftrightarrow> of_char c \<le> (32 :: nat) \<or> of_char c = (127 :: nat)"

text \<open>Bytes below 128 are the characters they decode to, so encoding the text again gives the payload back.\<close>

definition decode_ascii_identity :: "string \<Rightarrow> int \<Rightarrow> string result" where
  "decode_ascii_identity p maximum =
     require (\<not> (p = [] \<or> int (length p) > maximum \<or> length p > max_action_identity))
       ''identity payload exceeds its bounded ASCII contract''
    (require (ascii p) ''identity payload must contain ASCII only''
    (require (\<not> list_ex space_or_control p) ''identity payload must not contain whitespace or controls''
    (require (\<not> path_or_locator p) ''identity payload must not be a machine path or locator'' (Inr p))))"

definition action_sha256 :: "(string \<Rightarrow> 'a) \<Rightarrow> string \<Rightarrow> string \<Rightarrow> 'a result" where
  "action_sha256 C label s = require (digest_spelling s) (label @ '' must be a lowercase SHA-256 digest'') (Inr (C s))"

definition action_token :: "string \<Rightarrow> string \<Rightarrow> 'a result \<Rightarrow> 'a result" where
  "action_token label s k =
     require (s \<noteq> [] \<and> stripped s) (label @ '' must be nonempty and stripped'')
    (require (ascii s) (label @ '' must contain ASCII only'')
    (require (\<not> list_ex space_or_control s) (label @ '' must not contain whitespace or controls'') k))"

section \<open>What is accepted\<close>

lemma round_trip_binding_same: "round_trip_binding b = Inr b' \<and> b' = b \<longleftrightarrow> firer_binding_ok b \<and> b' = b"
  unfolding round_trip_binding_def bindr_Inr_iff binding_bytes using encode_binding_total [of b] by auto

lemma round_trip_descriptor_same: "round_trip_descriptor d = Inr d' \<and> d' = d \<longleftrightarrow> descriptor_ok d \<and> d' = d"
  unfolding round_trip_descriptor_def bindr_Inr_iff descriptor_bytes using encode_descriptor_total [of d] by auto

text \<open>The binding is one for this descriptor.\<close>

definition binds :: "firer_binding \<Rightarrow> firer_descriptor \<Rightarrow> bool" where
  "binds b d \<longleftrightarrow> firer_binding_ok b \<and> descriptor_ok d \<and>
     tb_firer b = fd_identity d \<and> tb_inputs b = map pm_role (fd_inputs d) \<and> tb_outputs b = map pm_role (fd_outputs d)"

lemma retained_binding_Inr: "retained_binding b d k = Inr x \<longleftrightarrow> binds b d \<and> k = Inr x"
  unfolding retained_binding_def bindr_Inr_iff require_Inr_iff binds_def
  using round_trip_binding_same [of b] round_trip_descriptor_same [of d] by blast

lemma check_against_Inr:
  "payload_ok p \<Longrightarrow> check_against l (i, p, c) k = Inr x \<longleftrightarrow> meets p c \<and> k = Inr x"
  using mk_inline_payload_Inr [of p] by (auto simp: check_against_def bindr_Inr_iff require_Inr_iff meets_def payload_ok_def meta_ok_def)

text \<open>Position by position is what the firer checks too.\<close>

lemma validate_payloads_Inr:
  assumes "list_all payload_ok ps"
  shows "validate_payloads l ps cs k = Inr x \<longleftrightarrow> list_all2 meets ps cs \<and> k = Inr x"
proof -
  have "foldr (check_against l) (enumerate n (zip ps cs)) k = Inr x \<longleftrightarrow> (\<forall>(p, c) \<in> set (zip ps cs). meets p c) \<and> k = Inr x" for n
    using assms
  proof (induction ps arbitrary: cs n)
    case (Cons p ps)
    then show ?case by (cases cs) (simp_all add: check_against_Inr)
  qed simp
  then show ?thesis by (auto simp: validate_payloads_def require_Inr_iff list_all2_iff)
qed

lemma validate_bounds_Inr:
  "validate_bounds d q os es k = Inr x \<longleftrightarrow>
     int (length (fq_inputs q)) \<le> fb_inputs (fd_bounds d) \<and> int (length os) \<le> fb_outputs (fd_bounds d) \<and>
     int (length es) \<le> fb_evidence (fd_bounds d) \<and> payload_bytes (fq_inputs q) \<le> fb_input_bytes (fd_bounds d) \<and>
     payload_bytes os \<le> fb_output_bytes (fd_bounds d) \<and> payload_bytes (fq_inputs q) \<le> fb_total_bytes (fd_bounds d) \<and>
     payload_bytes os + payload_bytes es \<le> fb_total_bytes (fd_bounds d) \<and> k = Inr x"
  unfolding validate_bounds_def Let_def require_Inr_iff max.bounded_iff by blast

lemma path_or_locator_sdk: "path_or_locator s \<longleftrightarrow> sdk_machine_path s"
proof -
  have "starts ''/'' s \<Longrightarrow> CHR ''/'' \<in> set s" "starts [CHR 0x5C] s \<Longrightarrow> CHR 0x5C \<in> set s"
    by (cases s; auto simp: starts_def)+
  then show ?thesis unfolding path_or_locator_def sdk_machine_path_def by auto
qed

definition token_plain :: "string \<Rightarrow> bool" where
  "token_plain s \<longleftrightarrow> s \<noteq> [] \<and> ascii s \<and> \<not> list_ex space_or_control s"

lemma token_plain_stripped: "token_plain s \<Longrightarrow> stripped s"
proof -
  assume t: "token_plain s"
  then have "\<forall>c \<in> set s. of_char c \<notin> {9..13::nat} \<union> {28..32}"
    by (auto simp: token_plain_def list_ex_iff space_or_control_def)
  then show ?thesis using t by (intro ascii_stripped) (auto simp: token_plain_def)
qed

lemma action_token_Inr: "action_token l s k = Inr x \<longleftrightarrow> token_plain s \<and> k = Inr x"
  unfolding action_token_def require_Inr_iff using token_plain_stripped [of s] by (auto simp: token_plain_def)

text \<open>A decoded identity is a lexical identity of the SDK without spaces.\<close>

lemma decode_ascii_identity_Inr:
  "decode_ascii_identity p m = Inr s \<longleftrightarrow>
     s = p \<and> int (length p) \<le> m \<and> length p \<le> max_action_identity \<and> token_plain p \<and> \<not> sdk_machine_path p"
  unfolding decode_ascii_identity_def require_Inr_iff path_or_locator_sdk token_plain_def by auto

lemma decoded_lexical: "decode_ascii_identity p m = Inr s \<Longrightarrow> lexical_ok s"
proof -
  assume "decode_ascii_identity p m = Inr s"
  then have s: "length s \<le> max_action_identity" "token_plain s" "\<not> sdk_machine_path s"
    by (auto simp: decode_ascii_identity_Inr)
  have "space_or_control c" if "control_char c" for c using that by (auto simp: control_char_def space_or_control_def)
  then have "\<not> list_ex control_char s" using s(2) by (auto simp: token_plain_def list_ex_iff)
  then show ?thesis
    using s token_plain_stripped [OF s(2)]
    by (auto simp: lexical_ok_def text_ok_def token_plain_def max_action_identity_def sdk_max_identity_def)
qed

lemma action_sha256_Inr: "action_sha256 C l s = Inr x \<longleftrightarrow> digest_spelling s \<and> x = C s"
  by (auto simp: action_sha256_def require_Inr_iff)

text \<open>
  \<open>workflow/actions/_binding.py\<close>: the canonical bytes of one selected binding of the colored net.  Strings
  are measured in UTF-8 bytes, which is what they are here.
\<close>

definition selected_schema :: string where "selected_schema = ''projectkoios.workflow.experimental-selected-binding:1''"
definition selected_profile :: string where
  "selected_profile = ''projectkoios.workflow.experimental-selected-binding-canonical-json:1''"
definition max_selected_assignments :: nat where "max_selected_assignments = 256"
definition max_selected_bytes :: nat where "max_selected_bytes = 65536"
definition max_selected_identity :: nat where "max_selected_identity = 512"
definition max_selected_string :: nat where "max_selected_string = 4096"
definition max_selected_sequence :: nat where "max_selected_sequence = 256"

section \<open>Checks\<close>

definition occurs_in :: "string \<Rightarrow> string \<Rightarrow> bool" where
  "occurs_in w s \<longleftrightarrow> list_ex (\<lambda>i. starts w (drop i s)) [0..<length s]"

text \<open>A character that \<open>isspace\<close> accepts, or one of category Cc.\<close>

definition spaced_or_controlled :: "string \<Rightarrow> bool" where
  "spaced_or_controlled s \<longleftrightarrow> list_ex (\<lambda>n. occurs_in (utf8_char n) s) (white_points @ [0..<32] @ [127..<160])"

definition selected_identity_text :: "string \<Rightarrow> string \<Rightarrow> 'a result \<Rightarrow> 'a result" where
  "selected_identity_text label s k =
     require (s \<noteq> [] \<and> stripped s) (label @ '' must be nonempty and stripped'')
    (require (length s \<le> max_selected_identity) (label @ '' exceeds 512 UTF-8 bytes'')
    (require (\<not> spaced_or_controlled s) (label @ '' must not contain whitespace or controls'') k))"

definition selected_string :: "string \<Rightarrow> string \<Rightarrow> 'a result \<Rightarrow> 'a result" where
  "selected_string label s k = require (length s \<le> max_selected_string) (label @ '' exceeds 4096 UTF-8 bytes'') k"

definition reconstruct_selected_value :: "nat \<Rightarrow> cpn_value \<Rightarrow> cpn_value result" where
  "reconstruct_selected_value i v =
     (let label = ''assignment '' @ dec_nat i @ '' string'';
          constructed = mk_value (kind_of v) (py_value v) in
      case v of
        VStr s \<Rightarrow> selected_string label s constructed
      | VSeq ss \<Rightarrow>
          require (length ss \<le> max_selected_sequence) ''string sequence exceeds 256 entries''
            (foldr (\<lambda>(j, s). selected_string (label @ '' sequence '' @ dec_nat j) s) (enumerate 0 ss) constructed)
      | _ \<Rightarrow> constructed)"

definition reconstruct_assignment :: "nat \<times> assignment \<Rightarrow> assignment result" where
  "reconstruct_assignment e =
     (case e of (i, a) \<Rightarrow>
        selected_identity_text (''assignment '' @ dec_nat i @ '' variable identity'') (variable_value (as_variable a))
       (bindr (reconstruct_selected_value i (as_value a)) (\<lambda>v.
        bindr (mk_variable_id (PyStr (variable_value (as_variable a)))) (\<lambda>x.
          Inr \<lparr>as_variable = x, as_value = v\<rparr>))))"

definition reconstruct_selected :: "binding \<Rightarrow> binding result" where
  "reconstruct_selected b =
     selected_identity_text ''transition identity'' (transition_value (bind_transition b))
    (bindr (mapr reconstruct_assignment (enumerate 0 (bind_assignments b))) (\<lambda>as.
     bindr (mk_transition_id (PyStr (transition_value (bind_transition b)))) (\<lambda>t.
       mk_binding t as)))"

section \<open>Encoding\<close>

fun selected_value_state :: "cpn_value \<Rightarrow> json" where
  "selected_value_state (VReal x) = JStr (f64_hex x)"
| "selected_value_state (VInt i) = JStr (dec_int i)"
| "selected_value_state (VSeq ss) = JList (map JStr ss)"
| "selected_value_state VNone = JNull"
| "selected_value_state (VBool b) = JBool b"
| "selected_value_state (VStr s) = JStr s"

definition selected_document :: "binding \<Rightarrow> json" where
  "selected_document b = JObj
     [(''assignments'', JList (map (\<lambda>a. JObj
         [(''kind'', JStr (kind_text (kind_of (as_value a)))),
          (''value'', selected_value_state (as_value a)),
          (''variable_identity'', JStr (variable_value (as_variable a)))]) (bind_assignments b))),
      (''schema_identity'', JStr selected_schema),
      (''transition_identity'', JStr (transition_value (bind_transition b)))]"

definition encode_selected :: "binding \<Rightarrow> string result" where
  "encode_selected b =
     bindr (reconstruct_selected b) (\<lambda>b'.
     require (binding_eq b' b) ''selected binding differs after validation''
    (require (length (bind_assignments b) \<le> max_selected_assignments) ''selected binding exceeds 256 assignments''
    (let p = dumps (selected_document b) in
     require (\<not> (p = [] \<or> length p > max_selected_bytes)) ''selected binding exceeds 65536 canonical bytes'' (Inr p))))"

definition selected_sha256 :: "binding \<Rightarrow> string result" where
  "selected_sha256 b = bindr (encode_selected b) (\<lambda>p. Inr (sha256_hex p))"

section \<open>What is encoded\<close>

definition selected_text_ok :: "string \<Rightarrow> bool" where
  "selected_text_ok s \<longleftrightarrow> s \<noteq> [] \<and> stripped s \<and> length s \<le> max_selected_identity \<and> \<not> spaced_or_controlled s"

fun selected_value_ok :: "cpn_value \<Rightarrow> bool" where
  "selected_value_ok (VStr s) = (length s \<le> max_selected_string)"
| "selected_value_ok (VSeq ss) = (length ss \<le> max_selected_sequence \<and> list_all (\<lambda>s. length s \<le> max_selected_string) ss)"
| "selected_value_ok v = True"

definition selectable :: "binding \<Rightarrow> bool" where
  "selectable b \<longleftrightarrow> selected_text_ok (transition_value (bind_transition b)) \<and>
     list_all (\<lambda>a. selected_text_ok (variable_value (as_variable a)) \<and> selected_value_ok (as_value a) \<and>
       value_ok (as_value a)) (bind_assignments b) \<and>
     distinct (map as_variable (bind_assignments b)) \<and> length (bind_assignments b) \<le> max_selected_assignments \<and>
     length (dumps (selected_document b)) \<le> max_selected_bytes"

lemma selected_identity_text_Inr: "selected_identity_text l s k = Inr x \<longleftrightarrow> selected_text_ok s \<and> k = Inr x"
  unfolding selected_identity_text_def selected_text_ok_def require_Inr_iff by blast

lemma selected_string_Inr: "selected_string l s k = Inr x \<longleftrightarrow> length s \<le> max_selected_string \<and> k = Inr x"
  by (simp add: selected_string_def require_Inr_iff)

lemma selected_strings_Inr:
  "foldr (\<lambda>(j, s). selected_string (f j) s) (enumerate n ss) k = Inr x \<longleftrightarrow>
     list_all (\<lambda>s. length s \<le> max_selected_string) ss \<and> k = Inr x"
  by (induction ss arbitrary: n) (auto simp: selected_string_Inr)

lemma reconstruct_selected_value_Inr:
  "reconstruct_selected_value i v = Inr w \<longleftrightarrow> selected_value_ok v \<and> value_ok v \<and> w = v"
  using mk_value_again [of v w]
  by (cases v) (simp_all add: reconstruct_selected_value_def selected_string_Inr selected_strings_Inr require_Inr_iff)

lemma reconstruct_assignment_Inr:
  "reconstruct_assignment (i, a) = Inr c \<longleftrightarrow>
     selected_text_ok (variable_value (as_variable a)) \<and> selected_value_ok (as_value a) \<and> value_ok (as_value a) \<and> c = a"
  by (auto simp: reconstruct_assignment_def selected_identity_text_Inr bindr_Inr_iff reconstruct_selected_value_Inr
      mk_variable_id_def selected_text_ok_def)

lemma reconstruct_assignments_Inr:
  "mapr reconstruct_assignment (enumerate n as) = Inr cs \<longleftrightarrow>
     list_all (\<lambda>a. selected_text_ok (variable_value (as_variable a)) \<and> selected_value_ok (as_value a) \<and>
       value_ok (as_value a)) as \<and> cs = as"
  by (induction as arbitrary: n cs) (auto simp: bindr_Inr_iff reconstruct_assignment_Inr)

lemma reconstruct_selected_Inr:
  "reconstruct_selected b = Inr c \<longleftrightarrow> selected_text_ok (transition_value (bind_transition b)) \<and>
     list_all (\<lambda>a. selected_text_ok (variable_value (as_variable a)) \<and> selected_value_ok (as_value a) \<and>
       value_ok (as_value a)) (bind_assignments b) \<and>
     distinct (map as_variable (bind_assignments b)) \<and> c = b"
  by (auto simp: reconstruct_selected_def selected_identity_text_Inr bindr_Inr_iff reconstruct_assignments_Inr
      mk_transition_id_def mk_binding_Inr selected_text_ok_def)

lemma encode_selected_Inr: "encode_selected b = Inr p \<longleftrightarrow> selectable b \<and> p = dumps (selected_document b)"
  using dumps_nonempty [of "selected_document b"]
  by (auto simp: encode_selected_def Let_def bindr_Inr_iff require_Inr_iff reconstruct_selected_Inr selectable_def)

section \<open>The bytes determine the binding\<close>

lemma selected_value_state_active: "selected_value_state v = active_state v"
  by (cases v) simp_all

lemma selected_document_inj:
  assumes "dumps (selected_document b) = dumps (selected_document c)"
  shows "b = c"
proof -
  have "jsort (selected_document b) = jsort (selected_document c)" by (rule dumps_eqD) (rule assms)
  then have t: "bind_transition b = bind_transition c"
    and as: "map (\<lambda>a. (kind_text (kind_of (as_value a)), jsort (active_state (as_value a)), variable_value (as_variable a)))
        (bind_assignments b) =
      map (\<lambda>a. (kind_text (kind_of (as_value a)), jsort (active_state (as_value a)), variable_value (as_variable a)))
        (bind_assignments c)"
    by (auto simp: selected_document_def selected_value_state_active transition_id.expand map_eq_list_all2
        elim: list.rel_mono_strong)
  have "inj (\<lambda>a :: assignment. (kind_text (kind_of (as_value a)), jsort (active_state (as_value a)), variable_value (as_variable a)))"
    using active_state_inj by (intro injI assignment.equality) (auto simp: variable_id.expand)
  then have "bind_assignments b = bind_assignments c" using as by (simp add: inj_map_eq_map)
  then show ?thesis using t by simp
qed

section \<open>Plain tokens\<close>

lemma excluded_points:
  "list_all (\<lambda>n. utf8_char n \<noteq> [] \<and> (space_or_control (hd (utf8_char n)) \<or> (128 :: nat) \<le> of_char (hd (utf8_char n))))
     (white_points @ [0..<32] @ [127..<160])"
  by (simp add: white_points_def utf8_char_def space_or_control_def upt_rec)

text \<open>A printable ASCII text without spaces is an identity text.\<close>

lemma token_plain_selected: "token_plain s \<Longrightarrow> length s \<le> max_selected_identity \<Longrightarrow> selected_text_ok s"
proof -
  assume t: "token_plain s" and l: "length s \<le> max_selected_identity"
  have "\<not> occurs_in (utf8_char n) s" if n: "n \<in> set (white_points @ [0..<32] @ [127..<160])" for n
  proof
    assume "occurs_in (utf8_char n) s"
    then obtain i where i: "i < length s" "starts (utf8_char n) (drop i s)" by (auto simp: occurs_in_def list_ex_iff)
    have x: "utf8_char n \<noteq> []" "space_or_control (hd (utf8_char n)) \<or> (128 :: nat) \<le> of_char (hd (utf8_char n))"
      using n excluded_points unfolding list_all_iff by blast+
    have "hd (drop i s) = s ! i" using i(1) by (simp add: hd_drop_conv_nth)
    then have "hd (utf8_char n) \<in> set s" using starts_hd [OF i(2) x(1)] i(1) by simp
    then show False using x(2) t by (auto simp: token_plain_def list_ex_iff ascii_def list_all_iff)
  qed
  then show ?thesis
    using t l token_plain_stripped [OF t] by (auto simp: selected_text_ok_def spaced_or_controlled_def list_ex_iff token_plain_def)
qed

end
