(* ===== verification/Action_Mapper.thy ===== *)
theory Action_Mapper
  imports Action_Binding
begin

text \<open>
  \<open>workflow/actions/_models.py\<close> and \<open>_mapper.py\<close>: the mapping of the one ASCII output of a succeeded firing
  to one string variable of the colored net, and the record of one mapping.  The identity fields are
  derived; a record is built from one whose identity field is not read.
\<close>

section \<open>Identities\<close>

datatype mapping_id = MappingId (mapping_value: string)
datatype mapped_id = MappedId (mapped_value: string)

definition mk_mapping_id :: "string \<Rightarrow> mapping_id result" where
  "mk_mapping_id = action_sha256 MappingId ''mapping identity''"

definition mk_mapped_id :: "string \<Rightarrow> mapped_id result" where
  "mk_mapped_id = action_sha256 MappedId ''mapped result identity''"

definition mapping_contract :: string where "mapping_contract = ''projectkoios.workflow.experimental-ascii-output-mapping:1''"
definition ascii_decoder_profile :: string where
  "ascii_decoder_profile = ''projectkoios.workflow.canonical-ascii-owner-logical-identity:1''"
definition ascii_representation :: string where "ascii_representation = ''canonical-ascii:1''"
definition max_mapping_version :: nat where "max_mapping_version = 128"

section \<open>The mapping descriptor\<close>

record output_mapping =
  om_identity :: mapping_id
  om_binding :: firer_binding
  om_firer :: firer_descriptor
  om_role :: string
  om_variable :: variable_id
  om_kind :: value_kind
  om_version :: string
  om_decoder :: string

definition output_contract :: "output_mapping \<Rightarrow> payload_contract" where
  "output_contract m = fd_outputs (om_firer m) ! 0"

definition evidence_contracts :: "output_mapping \<Rightarrow> payload_contract list" where
  "evidence_contracts m = fd_evidence (om_firer m)"

definition mapping_state :: "output_mapping \<Rightarrow> string \<Rightarrow> string \<Rightarrow> json" where
  "mapping_state m descriptor_bytes binding_bytes = JObj
     [(''contract'', JStr mapping_contract),
      (''decoder_profile_identity'', JStr (om_decoder m)),
      (''external_value_kind'', JStr (kind_text (om_kind m))),
      (''external_variable_identity'', JStr (variable_value (om_variable m))),
      (''firer_descriptor_sha256'', JStr (sha256_hex descriptor_bytes)),
      (''mapping_version'', JStr (om_version m)),
      (''output_role'', JStr (om_role m)),
      (''transition_binding_sha256'', JStr (sha256_hex binding_bytes))]"

definition mapping_descriptor_sha256 :: "output_mapping \<Rightarrow> string result" where
  "mapping_descriptor_sha256 m =
     bindr (encode_descriptor (om_firer m)) (\<lambda>dp.
     bindr (encode_binding (om_binding m)) (\<lambda>bp.
       Inr (digest_json (mapping_state m dp bp))))"

text \<open>The sole output contract is read only after there is one.\<close>

definition mk_output_mapping :: "output_mapping \<Rightarrow> output_mapping result" where
  "mk_output_mapping m =
     require (om_kind m = KString) ''experimental ASCII output mapping requires STRING''
    (action_token ''mapping_version'' (om_version m)
    (require (length (om_version m) \<le> max_mapping_version) ''mapping_version exceeds 128 ASCII bytes''
    (require (om_decoder m = ascii_decoder_profile) ''unsupported ASCII decoder profile''
    (retained_binding (om_binding m) (om_firer m)
    (require (length (fd_outputs (om_firer m)) = 1) ''experimental ASCII mapping requires exactly one output''
    (require (om_role m = pm_role (output_contract m)) ''output_role differs from the sole output contract''
    (require (sdk_representation_value (pm_representation (output_contract m)) = ascii_representation)
       ''output contract is not canonical ASCII''
    (require (pc_maximum (output_contract m) \<le> int max_action_identity) ''ASCII logical identity bound exceeds 512 bytes''
    (bindr (mapping_descriptor_sha256 m) (\<lambda>h.
     bindr (mk_mapping_id h) (\<lambda>i. Inr (m\<lparr>om_identity := i\<rparr>))))))))))))"

section \<open>The mapped result\<close>

record mapped_result =
  mr_identity :: mapped_id
  mr_mapping :: output_mapping
  mr_request :: sdk_request_id
  mr_result :: sdk_result_id
  mr_binding :: binding
  mr_source :: inline_payload
  mr_evidence :: "inline_payload list"

definition payload_summary :: "inline_payload \<Rightarrow> json" where
  "payload_summary p = JObj
     [(''byte_length'', JInt (ip_length p)), (''payload_sha256'', JStr (ip_sha256 p)), (''role'', JStr (pm_role p))]"

text \<open>The active value of the only assignment, which has been checked to be a string.\<close>

definition mapped_state :: "mapped_result \<Rightarrow> json" where
  "mapped_state r = JObj
     [(''contract'', JStr ''projectkoios.workflow.experimental-mapped-action-result:1''),
      (''evidence'', JList (map payload_summary (mr_evidence r))),
      (''external_output_binding'', JObj
         [(''assignments'', JList (map (\<lambda>a. JObj
             [(''kind'', JStr (kind_text (kind_of (as_value a)))),
              (''value'', selected_value_state (as_value a)),
              (''variable'', JStr (variable_value (as_variable a)))]) (bind_assignments (mr_binding r)))),
          (''transition_identity'', JStr (transition_value (bind_transition (mr_binding r))))]),
      (''mapping_identity'', JStr (mapping_value (om_identity (mr_mapping r)))),
      (''request_identity'', JStr (sdk_request_value (mr_request r))),
      (''result_identity'', JStr (sdk_result_value (mr_result r))),
      (''source_output'', payload_summary (mr_source r))]"

definition mk_mapped_result :: "mapped_result \<Rightarrow> mapped_result result" where
  "mk_mapped_result r =
     (let m = mr_mapping r; b = mr_binding r in
      bindr (mk_output_mapping m) (\<lambda>m'.
      require (m' = m) ''mapping descriptor differs from its content identity''
     (validate_payloads ''mapped source output'' [mr_source r] [output_contract m]
     (validate_payloads ''mapped evidence'' (mr_evidence r) (evidence_contracts m)
     (require (transition_value (bind_transition b) = sdk_transition_value (tb_transition (om_binding m)))
        ''mapped binding transition differs from mapping''
     (require (length (bind_assignments b) = 1) ''mapped binding must contain exactly one assignment''
     (let a = bind_assignments b ! 0 in
      require (as_variable a = om_variable m) ''mapped binding variable differs from mapping''
     (require (kind_of (as_value a) = om_kind m) ''mapped binding value kind differs from mapping''
     (bindr (decode_ascii_identity (ip_payload (mr_source r)) (pc_maximum (output_contract m))) (\<lambda>s.
      require (as_value a = VStr s) ''mapped binding value differs from owner output''
     (bindr (mk_mapped_id (digest_json (mapped_state r))) (\<lambda>i. Inr (r\<lparr>mr_identity := i\<rparr>)))))))))))))"

section \<open>What is accepted\<close>

definition mapping_fits :: "output_mapping \<Rightarrow> bool" where
  "mapping_fits m \<longleftrightarrow> om_kind m = KString \<and> token_plain (om_version m) \<and> length (om_version m) \<le> max_mapping_version \<and>
     om_decoder m = ascii_decoder_profile \<and> binds (om_binding m) (om_firer m) \<and> length (fd_outputs (om_firer m)) = 1 \<and>
     om_role m = pm_role (output_contract m) \<and>
     sdk_representation_value (pm_representation (output_contract m)) = ascii_representation \<and>
     pc_maximum (output_contract m) \<le> int max_action_identity"

definition mapping_ok :: "output_mapping \<Rightarrow> bool" where
  "mapping_ok m \<longleftrightarrow> mapping_fits m \<and> mapping_descriptor_sha256 m = Inr (mapping_value (om_identity m))"

lemma om_reidentified: "om_identity e = i \<Longrightarrow> e = e\<lparr>om_identity := i\<rparr>"
  by (cases e) simp

lemma mr_reidentified: "mr_identity e = i \<Longrightarrow> e = e\<lparr>mr_identity := i\<rparr>"
  by (cases e) simp

lemma mapping_update [simp]:
  "mapping_fits (m\<lparr>om_identity := i\<rparr>) = mapping_fits m"
  "mapping_descriptor_sha256 (m\<lparr>om_identity := i\<rparr>) = mapping_descriptor_sha256 m"
  by (simp_all add: mapping_fits_def mapping_descriptor_sha256_def mapping_state_def output_contract_def)

lemma mapping_digest:
  "mapping_fits m \<Longrightarrow> \<exists>dp bp. encode_descriptor (om_firer m) = Inr dp \<and> encode_binding (om_binding m) = Inr bp \<and>
     mapping_descriptor_sha256 m = Inr (digest_json (mapping_state m dp bp))"
  using encode_descriptor_total encode_binding_total
  by (fastforce simp: mapping_fits_def binds_def mapping_descriptor_sha256_def)

lemma mk_output_mapping_Inr:
  "mk_output_mapping m = Inr e \<longleftrightarrow> mapping_ok e \<and> m = e\<lparr>om_identity := om_identity m\<rparr>"
proof -
  have "mk_output_mapping m = Inr e \<longleftrightarrow> mapping_fits m \<and>
      (\<exists>h. mapping_descriptor_sha256 m = Inr h \<and> digest_spelling h \<and> e = m\<lparr>om_identity := MappingId h\<rparr>)"
    unfolding mk_output_mapping_def require_Inr_iff action_token_Inr retained_binding_Inr bindr_Inr_iff mk_mapping_id_def
      action_sha256_Inr mapping_fits_def by auto
  also have "\<dots> \<longleftrightarrow> mapping_ok e \<and> m = e\<lparr>om_identity := om_identity m\<rparr>"
  proof
    assume "mapping_ok e \<and> m = e\<lparr>om_identity := om_identity m\<rparr>"
    then obtain i where e: "mapping_ok e" "m = e\<lparr>om_identity := i\<rparr>" by blast
    moreover have "e = e\<lparr>om_identity := MappingId (mapping_value (om_identity e))\<rparr>" by (rule om_reidentified) simp
    ultimately show "mapping_fits m \<and>
        (\<exists>h. mapping_descriptor_sha256 m = Inr h \<and> digest_spelling h \<and> e = m\<lparr>om_identity := MappingId h\<rparr>)"
      using mapping_digest [of e] by (auto simp: mapping_ok_def)
  qed (auto simp: mapping_ok_def)
  finally show ?thesis .
qed

lemma mapping_again: "mk_output_mapping m = Inr m \<longleftrightarrow> mapping_ok m"
  using om_reidentified [of m "om_identity m"] by (simp add: mk_output_mapping_Inr)

lemma mapping_checked: "mk_output_mapping m = Inr m' \<and> m' = m \<longleftrightarrow> mapping_ok m \<and> m' = m"
  using mapping_again by blast

text \<open>The mapped binding is the one the output names.\<close>

definition mapped_binding :: "output_mapping \<Rightarrow> string \<Rightarrow> binding" where
  "mapped_binding m s =
     \<lparr>bind_transition = TransitionId (sdk_transition_value (tb_transition (om_binding m))),
      bind_assignments = [\<lparr>as_variable = om_variable m, as_value = VStr s\<rparr>]\<rparr>"

definition mapped_fits :: "mapped_result \<Rightarrow> bool" where
  "mapped_fits r \<longleftrightarrow> mapping_ok (mr_mapping r) \<and> meets (mr_source r) (output_contract (mr_mapping r)) \<and>
     list_all2 meets (mr_evidence r) (evidence_contracts (mr_mapping r)) \<and>
     is_ok (decode_ascii_identity (ip_payload (mr_source r)) (pc_maximum (output_contract (mr_mapping r)))) \<and>
     mr_binding r = mapped_binding (mr_mapping r) (ip_payload (mr_source r))"

definition mapped_ok :: "mapped_result \<Rightarrow> bool" where
  "mapped_ok r \<longleftrightarrow> mapped_fits r \<and> mr_identity r = MappedId (digest_json (mapped_state r))"

lemma mapped_binding_iff:
  "b = mapped_binding m s \<longleftrightarrow>
     transition_value (bind_transition b) = sdk_transition_value (tb_transition (om_binding m)) \<and>
     length (bind_assignments b) = 1 \<and> as_variable (bind_assignments b ! 0) = om_variable m \<and>
     as_value (bind_assignments b ! 0) = VStr s"
proof
  assume "transition_value (bind_transition b) = sdk_transition_value (tb_transition (om_binding m)) \<and>
     length (bind_assignments b) = 1 \<and> as_variable (bind_assignments b ! 0) = om_variable m \<and>
     as_value (bind_assignments b ! 0) = VStr s"
  moreover from this obtain a where "bind_assignments b = [a]" by (auto simp: length_Suc_conv)
  ultimately show "b = mapped_binding m s"
    by (intro binding.equality) (auto simp: mapped_binding_def transition_id.expand intro: assignment.equality)
qed (simp add: mapped_binding_def)

lemma mk_mapped_result_Inr:
  assumes "payload_ok (mr_source r)" "list_all payload_ok (mr_evidence r)"
  shows "mk_mapped_result r = Inr e \<longleftrightarrow>
    mapped_fits r \<and> e = r\<lparr>mr_identity := MappedId (digest_json (mapped_state r))\<rparr>"
proof -
  have o1: "list_all payload_ok [mr_source r]" using assms(1) by simp
  have i: "mk_mapped_id (digest_json j) = Inr i \<longleftrightarrow> i = MappedId (digest_json j)" for j i
    by (simp add: mk_mapped_id_def action_sha256_Inr)
  show ?thesis
    unfolding mk_mapped_result_def Let_def bindr_Inr_iff require_Inr_iff validate_payloads_Inr [OF o1]
      validate_payloads_Inr [OF assms(2)] i decode_ascii_identity_Inr mapped_fits_def mapped_binding_iff is_ok_iff
    using mapping_again by (auto simp: mapping_ok_def mapping_fits_def)
qed

text \<open>
  \<open>workflow/actions/_mapper.py\<close>: validate one succeeded firing against a mapping, the transition of the
  colored net and the retained context, and name the external output binding.
\<close>

definition mapper_correlation ::
  "output_mapping \<Rightarrow> transition_definition \<Rightarrow> occurrence_context \<Rightarrow> firing_request \<Rightarrow> firing_result \<Rightarrow> 'a result \<Rightarrow> 'a result" where
  "mapper_correlation m t c q r k =
     (let b = om_binding m; d = om_firer m in
      require (fq_context q = c) ''request context differs from retained expectation''
     (require (fq_binding q = tb_identity b) ''request binding identity differs from mapping''
     (require (fq_firer q = fd_identity d) ''request firer identity differs from mapping''
     (require (oc_definition (fq_context q) = tb_definition b) ''request definition identity differs from mapping''
     (require (oc_transition (fq_context q) = tb_transition b) ''request transition identity differs from mapping''
     (require (transition_value (td_identity t) = sdk_transition_value (tb_transition b))
        ''CPN transition identity differs from mapping''
     (require (td_externals t = [om_variable m]) ''CPN transition external variables differ from scalar mapping''
     (require (fr_request r = fq_identity q) ''result request identity differs from request''
     (require (fr_occurrence r = oc_occurrence (fq_context q)) ''result occurrence identity differs from request''
     (require (fr_attempt r = oc_attempt (fq_context q)) ''result attempt identity differs from request''
     (require (fr_firer r = fq_firer q) ''result firer identity differs from request'' k)))))))))))"

definition external_binding :: "output_mapping \<Rightarrow> string \<Rightarrow> binding result" where
  "external_binding m s =
     bindr (mk_transition_id (PyStr (sdk_transition_value (tb_transition (om_binding m))))) (\<lambda>t.
     bindr (mk_value KString (PyStr s)) (\<lambda>v.
       mk_binding t [\<lparr>as_variable = om_variable m, as_value = v\<rparr>]))"

text \<open>What follows the validation of the arguments; \<open>os\<close> are the outputs of \<open>r\<close>.\<close>

definition map_validated ::
  "output_mapping \<Rightarrow> transition_definition \<Rightarrow> occurrence_context \<Rightarrow> firing_request \<Rightarrow> firing_result \<Rightarrow>
   inline_payload list \<Rightarrow> mapped_result result" where
  "map_validated m t c q r os =
     (let d = om_firer m in
      mapper_correlation m t c q r
     (validate_payloads ''request inputs'' (fq_inputs q) (fd_inputs d)
     (validate_payloads ''result outputs'' os (fd_outputs d)
     (validate_payloads ''result evidence'' (fr_evidence r) (fd_evidence d)
     (validate_bounds d q os (fr_evidence r)
     (let source = os ! 0 in
      bindr (decode_ascii_identity (ip_payload source) (pc_maximum (output_contract m))) (\<lambda>s.
      bindr (external_binding m s) (\<lambda>b.
        mk_mapped_result
          \<lparr>mr_identity = MappedId [], mr_mapping = m, mr_request = fq_identity q, mr_result = fr_identity r,
           mr_binding = b, mr_source = source, mr_evidence = fr_evidence r\<rparr>))))))))"

fun succeeded :: "result_body \<Rightarrow> bool" where
  "succeeded (FiringSucceeded _) = True"
| "succeeded _ = False"

definition execute_mapper ::
  "output_mapping \<Rightarrow> transition_definition \<Rightarrow> occurrence_context \<Rightarrow> firing_request \<Rightarrow> firing_result \<Rightarrow> mapped_result result" where
  "execute_mapper m t c q r =
     bindr (mk_output_mapping m) (\<lambda>m'.
     require (m' = m) ''mapping differs from its content identity''
    (bindr (mk_occurrence_context c) (\<lambda>c'.
     require (c' = c) ''expected_context differs after validation''
    (bindr (bindr (encode_request q) decode_request_bytes) (\<lambda>q'.
     require (q' = q) ''request differs after canonical round trip''
    (case fr_body r of
       FiringSucceeded os \<Rightarrow>
         bindr (bindr (encode_result r) decode_result_bytes) (\<lambda>r'.
         require (succeeded (fr_body r')) ''result canonical round trip changed its variant''
        (require (r' = r) ''result differs after canonical round trip''
           (map_validated m t c q r os)))
     | _ \<Rightarrow> Inl (TypeError ''result must be WorkflowFiringSucceeded'')))))))"

section \<open>What is mapped\<close>

text \<open>The result answers the request, and both belong to the mapping and to the transition.\<close>

definition correlated ::
  "output_mapping \<Rightarrow> transition_definition \<Rightarrow> firing_request \<Rightarrow> firing_result \<Rightarrow> bool" where
  "correlated m t q r \<longleftrightarrow>
     fq_binding q = tb_identity (om_binding m) \<and> fq_firer q = fd_identity (om_firer m) \<and>
     oc_definition (fq_context q) = tb_definition (om_binding m) \<and>
     oc_transition (fq_context q) = tb_transition (om_binding m) \<and>
     transition_value (td_identity t) = sdk_transition_value (tb_transition (om_binding m)) \<and>
     td_externals t = [om_variable m] \<and> answers (om_firer m) q r"

lemma mapper_correlation_Inr:
  assumes "firing_result_ok r"
  shows "mapper_correlation m t c q r k = Inr x \<longleftrightarrow> fq_context q = c \<and> correlated m t q r \<and> k = Inr x"
  using assms unfolding mapper_correlation_def Let_def require_Inr_iff correlated_def answers_def firing_result_ok_def by auto

lemma external_binding_Inr:
  "mapping_ok m \<Longrightarrow> external_binding m s = Inr b \<longleftrightarrow> b = mapped_binding m s"
  by (auto simp: external_binding_def bindr_Inr_iff mk_transition_id_def mk_value_def mk_binding_Inr mapped_binding_def
      mapping_ok_def mapping_fits_def binds_def firer_binding_ok_def binding_ids_ok_def lexical_ok_def text_ok_def)

text \<open>Everything that a mapping of \<open>p\<close> needs of the payloads.\<close>

definition mapped_payloads :: "output_mapping \<Rightarrow> firing_request \<Rightarrow> firing_result \<Rightarrow> inline_payload \<Rightarrow> bool" where
  "mapped_payloads m q r p \<longleftrightarrow>
     list_all2 meets (fq_inputs q) (fd_inputs (om_firer m)) \<and> meets p (output_contract m) \<and>
     list_all2 meets (fr_evidence r) (fd_evidence (om_firer m)) \<and>
     is_ok (decode_ascii_identity (ip_payload p) (pc_maximum (output_contract m)))"

definition mapped_fields :: "output_mapping \<Rightarrow> firing_request \<Rightarrow> firing_result \<Rightarrow> inline_payload \<Rightarrow> mapped_result" where
  "mapped_fields m q r p =
     \<lparr>mr_identity = MappedId [], mr_mapping = m, mr_request = fq_identity q, mr_result = fr_identity r,
      mr_binding = mapped_binding m (ip_payload p), mr_source = p, mr_evidence = fr_evidence r\<rparr>"

definition mapped_of :: "output_mapping \<Rightarrow> firing_request \<Rightarrow> firing_result \<Rightarrow> inline_payload \<Rightarrow> mapped_result" where
  "mapped_of m q r p = (mapped_fields m q r p)\<lparr>mr_identity := MappedId (digest_json (mapped_state (mapped_fields m q r p)))\<rparr>"

text \<open>The bounds of the descriptor admit whatever meets its contracts.\<close>

lemma meets_within_bounds:
  assumes d: "descriptor_ok d" and i: "list_all2 meets (fq_inputs q) (fd_inputs d)"
    and o: "list_all2 meets os (fd_outputs d)" and e: "list_all2 meets es (fd_evidence d)"
  shows "validate_bounds d q os es k = Inr x \<longleftrightarrow> k = Inr x"
  using d meets_bytes [OF i] meets_bytes [OF o] meets_bytes [OF e]
    list_all2_lengthD [OF i] list_all2_lengthD [OF o] list_all2_lengthD [OF e]
  unfolding validate_bounds_Inr by (auto simp: descriptor_ok_def descriptor_fits_def)

lemma sole_output: "mapping_ok m \<Longrightarrow> fd_outputs (om_firer m) = [output_contract m]"
proof -
  assume "mapping_ok m"
  then have "length (fd_outputs (om_firer m)) = 1" by (simp add: mapping_ok_def mapping_fits_def)
  then obtain c where "fd_outputs (om_firer m) = [c]" by (auto simp: length_Suc_conv)
  then show ?thesis by (simp add: output_contract_def)
qed

lemma mapped_fields_mapped:
  assumes "mapping_ok m" "payload_ok p" "list_all payload_ok (fr_evidence r)" "mapped_payloads m q r p"
  shows "mk_mapped_result (mapped_fields m q r p) = Inr e \<longleftrightarrow> e = mapped_of m q r p"
proof -
  have "mk_mapped_result (mapped_fields m q r p) = Inr e \<longleftrightarrow> mapped_fits (mapped_fields m q r p) \<and> e = mapped_of m q r p"
    unfolding mapped_of_def by (rule mk_mapped_result_Inr) (use assms(2,3) in \<open>simp_all add: mapped_fields_def\<close>)
  then show ?thesis
    using assms(1,4) by (simp add: mapped_fits_def mapped_fields_def mapped_payloads_def evidence_contracts_def)
qed

lemma map_validated_Inr:
  assumes m: "mapping_ok m" and q: "firing_request_ok q" and r: "firing_result_ok r" "fr_body r = FiringSucceeded os"
  shows "map_validated m t c q r os = Inr e \<longleftrightarrow>
    fq_context q = c \<and> correlated m t q r \<and> (\<exists>p. os = [p] \<and> mapped_payloads m q r p \<and> e = mapped_of m q r p)"
proof -
  have ok: "list_all payload_ok (fq_inputs q)" "list_all payload_ok os" "list_all payload_ok (fr_evidence r)"
    using q r by (simp_all add: firing_request_ok_def payloads_ok_def firing_result_ok_def)
  have d: "descriptor_ok (om_firer m)" using m by (simp add: mapping_ok_def mapping_fits_def binds_def)
  let ?p = "os ! 0"
  let ?step = "bindr (decode_ascii_identity (ip_payload ?p) (pc_maximum (output_contract m))) (\<lambda>s.
      bindr (external_binding m s) (\<lambda>b. mk_mapped_result
        \<lparr>mr_identity = MappedId [], mr_mapping = m, mr_request = fq_identity q, mr_result = fr_identity r,
         mr_binding = b, mr_source = ?p, mr_evidence = fr_evidence r\<rparr>))"
  have step: "?step = Inr e \<longleftrightarrow> is_ok (decode_ascii_identity (ip_payload ?p) (pc_maximum (output_contract m))) \<and>
      mk_mapped_result (mapped_fields m q r ?p) = Inr e"
    by (auto simp: bindr_Inr_iff external_binding_Inr [OF m] is_ok_iff mapped_fields_def decode_ascii_identity_Inr)
  have "map_validated m t c q r os = Inr e \<longleftrightarrow> fq_context q = c \<and> correlated m t q r \<and>
      list_all2 meets (fq_inputs q) (fd_inputs (om_firer m)) \<and> list_all2 meets os (fd_outputs (om_firer m)) \<and>
      list_all2 meets (fr_evidence r) (fd_evidence (om_firer m)) \<and> ?step = Inr e"
    unfolding map_validated_def Let_def mapper_correlation_Inr [OF r(1)] validate_payloads_Inr [OF ok(1)]
      validate_payloads_Inr [OF ok(2)] validate_payloads_Inr [OF ok(3)]
    using meets_within_bounds [OF d, of q os "fr_evidence r" ?step e] by (auto simp del: bindr.simps)
  also have "\<dots> \<longleftrightarrow> fq_context q = c \<and> correlated m t q r \<and>
      (\<exists>p. os = [p] \<and> mapped_payloads m q r p \<and> e = mapped_of m q r p)"
    unfolding step sole_output [OF m] list_all2_Cons2 list_all2_Nil2
    using ok(2,3) mapped_fields_mapped [OF m] by (auto simp: mapped_payloads_def)
  finally show ?thesis .
qed

text \<open>The mapper, as a table.\<close>

lemma execute_mapper_Inr:
  assumes "context_ok c" "firing_request_ok q" "firing_result_ok r"
  shows "execute_mapper m t c q r = Inr e \<longleftrightarrow>
    mapping_ok m \<and> is_ok (encode_result r) \<and> fq_context q = c \<and> correlated m t q r \<and>
    (\<exists>p. fr_body r = FiringSucceeded [p] \<and> mapped_payloads m q r p \<and> e = mapped_of m q r p)"
proof -
  have c: "mk_occurrence_context c = Inr c' \<longleftrightarrow> c' = c" for c'
    using assms(1) mk_occurrence_context_Inr [of c c'] by (auto simp: context_ok_def)
  have q: "bindr (encode_request q) decode_request_bytes = Inr q' \<longleftrightarrow> q' = q" if "q' = q" for q'
    using that encode_request_total [OF assms(2)] assms(2) by (auto simp: bindr_Inr_iff request_bytes)
  have r: "bindr (encode_result r) decode_result_bytes = Inr r \<longleftrightarrow> is_ok (encode_result r)"
    using assms(3) by (auto simp: bindr_Inr_iff result_bytes is_ok_iff)
  show ?thesis
  proof (cases "fr_body r")
    case (FiringSucceeded os)
    have "execute_mapper m t c q r = Inr e \<longleftrightarrow> mapping_ok m \<and> is_ok (encode_result r) \<and> map_validated m t c q r os = Inr e"
      unfolding execute_mapper_def FiringSucceeded result_body.case bindr_Inr_iff [of "mk_output_mapping m"]
        bindr_Inr_iff [of "mk_occurrence_context c"] bindr_Inr_iff [of "bindr (encode_request q) decode_request_bytes"]
        bindr_Inr_iff [of "bindr (encode_result r) decode_result_bytes"] require_Inr_iff
      using c q r mapping_again FiringSucceeded by (metis succeeded.simps(1))
    then show ?thesis
      using map_validated_Inr [OF _ assms(2,3) FiringSucceeded] FiringSucceeded by auto
  qed (simp_all add: execute_mapper_def bindr_Inr_iff require_Inr_iff)
qed

end
