(* ===== verification/Action_Request.thy ===== *)
theory Action_Request
  imports Action_Binding
begin

text \<open>
  \<open>workflow/actions/_selection.py\<close>, \<open>_input_mapping.py\<close> and \<open>_request.py\<close>: the evidence of one selected
  binding, the mapping of a retained source to an input role, and the factory of firing requests,
  which derives the digest of the binding itself.
\<close>

section \<open>Evidence of a selection\<close>

datatype selected_profile_id = SelectedProfile (selected_profile_value: string)
datatype selected_evidence_id = SelectedEvidenceId (selected_evidence_value: string)

definition selection_evidence_contract :: string where
  "selection_evidence_contract = ''projectkoios.workflow.experimental-selected-binding-evidence:1''"
definition max_profile_identity :: nat where "max_profile_identity = 512"

definition mk_selected_profile :: "string \<Rightarrow> selected_profile_id result" where
  "mk_selected_profile s =
     action_token ''selected binding profile identity'' s
    (require (length s \<le> max_profile_identity) ''selected binding profile identity exceeds 512 ASCII bytes''
      (Inr (SelectedProfile s)))"

definition mk_selected_evidence_id :: "string \<Rightarrow> selected_evidence_id result" where
  "mk_selected_evidence_id = action_sha256 SelectedEvidenceId ''selected binding evidence identity''"

record binding_evidence =
  be_identity :: selected_evidence_id
  be_profile :: selected_profile_id
  be_sha256 :: string
  be_bytes :: string
  be_enablement :: enablement
  be_selection :: selection

definition evidence_state :: "enablement \<Rightarrow> selection \<Rightarrow> binding \<Rightarrow> string \<Rightarrow> selected_profile_id \<Rightarrow> json" where
  "evidence_state en se b p profile = JObj
     [(''binding_byte_length'', JInt (int (length p))),
      (''contract'', JStr selection_evidence_contract),
      (''definition_identity'', JStr (definition_value (er_definition en))),
      (''enablement_result_identity'', JStr (enablement_value (er_identity en))),
      (''predecessor_marking_identity'', JStr (marking_value (er_marking en))),
      (''profile_identity'', JStr (selected_profile_value profile)),
      (''selected_binding_sha256'', JStr (sha256_hex p)),
      (''selection_result_identity'', JStr (selection_value (sr_identity se))),
      (''transition_identity'', JStr (transition_value (bind_transition b)))]"

definition mk_binding_evidence :: "enablement \<Rightarrow> selection \<Rightarrow> binding_evidence result" where
  "mk_binding_evidence r s =
     bindr (mk_enablement r) (\<lambda>en.
     require (enablement_eq en r) ''enablement result differs after validation''
    (bindr (mk_selection (sr_enablement s) (sr_selector s) (sr_ordering s) (sr_outcome s) (sr_binding s)
        (sr_directive s) (sr_code s)) (\<lambda>se.
     require (selection_eq se s) ''selection result differs after validation''
    (case er_bindings en of
       None \<Rightarrow> Inl (ValueError ''selected binding evidence requires successful enablement'')
     | Some bs \<Rightarrow>
         require (sr_outcome se = Selected) ''selected binding evidence requires a selected result''
        (case sr_binding se of
           None \<Rightarrow> Inl (ValueError ''selected result must contain one selected binding'')
         | Some b \<Rightarrow>
             require (sr_enablement se = er_identity en) ''selection result differs from enablement result''
            (require (sr_ordering se = er_ordering en) ''selection ordering differs from enablement ordering''
            (require (list_ex (binding_eq b) bs) ''selected binding is absent from enablement result''
            (bindr (encode_selected b) (\<lambda>p.
             bindr (mk_selected_profile selected_profile) (\<lambda>profile.
             bindr (mk_selected_evidence_id (digest_json (evidence_state en se b p profile))) (\<lambda>i.
               Inr \<lparr>be_identity = i, be_profile = profile, be_sha256 = sha256_hex p, be_bytes = p,
                    be_enablement = r, be_selection = s\<rparr>)))))))))))"

definition evidence_binding :: "binding_evidence \<Rightarrow> binding result" where
  "evidence_binding v = (case sr_binding (be_selection v) of None \<Rightarrow> Inl AssertionError | Some b \<Rightarrow> Inr b)"

text \<open>\<open>==\<close> of two evidence records.\<close>

definition evidence_eq :: "binding_evidence \<Rightarrow> binding_evidence \<Rightarrow> bool" where
  "evidence_eq v w \<longleftrightarrow> be_identity v = be_identity w \<and> be_profile v = be_profile w \<and> be_sha256 v = be_sha256 w \<and>
     be_bytes v = be_bytes w \<and> enablement_eq (be_enablement v) (be_enablement w) \<and>
     selection_eq (be_selection v) (be_selection w)"

section \<open>Input mappings\<close>

datatype source_profile_id = SourceProfile (source_profile_value: string)
datatype input_mapping_id = InputMappingId (input_mapping_value: string)

definition input_mapping_domain :: string where
  "input_mapping_domain = ''projectkoios.workflow.experimental-pure-action-input-mapping:1''"
definition max_token_bytes :: nat where "max_token_bytes = 512"

definition bounded_token :: "string \<Rightarrow> string \<Rightarrow> 'a result \<Rightarrow> 'a result" where
  "bounded_token label s k =
     action_token label s (require (length s \<le> max_token_bytes) (label @ '' exceeds '' @ dec_nat max_token_bytes @ '' bytes'') k)"

definition mk_source_profile :: "string \<Rightarrow> source_profile_id result" where
  "mk_source_profile s = bounded_token ''input source profile identity'' s (Inr (SourceProfile s))"

definition mk_input_mapping_id :: "string \<Rightarrow> input_mapping_id result" where
  "mk_input_mapping_id = action_sha256 InputMappingId ''input mapping descriptor identity''"

record input_mapping =
  im_identity :: input_mapping_id
  im_role :: string
  im_kind :: string
  im_profile :: source_profile_id
  im_version :: string

definition input_mapping_state :: "input_mapping \<Rightarrow> json" where
  "input_mapping_state m = JObj
     [(''domain'', JStr input_mapping_domain), (''input_role'', JStr (im_role m)), (''mapping_version'', JStr (im_version m)),
      (''source_kind'', JStr (im_kind m)), (''source_profile_identity'', JStr (source_profile_value (im_profile m)))]"

definition mk_input_mapping :: "input_mapping \<Rightarrow> input_mapping result" where
  "mk_input_mapping m =
     bounded_token ''input role'' (im_role m)
    (bounded_token ''source kind'' (im_kind m)
    (bindr (mk_source_profile (source_profile_value (im_profile m))) (\<lambda>p.
     require (p = im_profile m) ''source profile differs after validation''
    (bounded_token ''mapping version'' (im_version m)
    (bindr (mk_input_mapping_id (digest_json (input_mapping_state m))) (\<lambda>i. Inr (m\<lparr>im_identity := i\<rparr>)))))))"

definition reconstruct_input_mapping :: "input_mapping \<Rightarrow> input_mapping result" where
  "reconstruct_input_mapping m =
     bindr (mk_input_mapping m) (\<lambda>r. require (r = m) ''input mapping differs after validation'' (Inr r))"

section \<open>Coordinates\<close>

record request_coordinates =
  rc_instance :: sdk_instance_id
  rc_marking :: sdk_marking_id
  rc_revision :: int
  rc_occurrence :: sdk_occurrence_id
  rc_attempt :: sdk_attempt_id
  rc_ordinal :: int

definition mk_coordinates :: "request_coordinates \<Rightarrow> request_coordinates result" where
  "mk_coordinates c =
     require (0 \<le> rc_revision c) ''predecessor_revision must be nonnegative''
    (require (0 \<le> rc_ordinal c) ''attempt_ordinal must be nonnegative'' (Inr c))"

section \<open>The factory\<close>

definition factory_context :: "firer_binding \<Rightarrow> request_coordinates \<Rightarrow> string \<Rightarrow> occurrence_context" where
  "factory_context b c h =
     \<lparr>oc_definition = tb_definition b, oc_instance = rc_instance c, oc_transition = tb_transition b,
      oc_marking = rc_marking c, oc_revision = rc_revision c, oc_binding_sha256 = h, oc_occurrence = rc_occurrence c,
      oc_attempt = rc_attempt c, oc_ordinal = rc_ordinal c\<rparr>"

definition factory_request ::
  "firer_binding \<Rightarrow> request_coordinates \<Rightarrow> string \<Rightarrow> inline_payload list \<Rightarrow> firing_request result" where
  "factory_request b c h ins =
     bindr (mk_occurrence_context (factory_context b c h)) (\<lambda>context.
     bindr (mk_firing_request \<lparr>fq_identity = SdkRequest [], fq_context = context, fq_binding = tb_identity b,
        fq_firer = tb_firer b, fq_inputs = ins, fq_version = sdk_version\<rparr>) (\<lambda>q.
     bindr (bindr (encode_request q) decode_request_bytes) (\<lambda>q'.
     require (q' = q) ''request differs after canonical round trip'' (Inr q))))"

definition execute_factory ::
  "firer_binding \<Rightarrow> firer_descriptor \<Rightarrow> binding_evidence \<Rightarrow> request_coordinates \<Rightarrow> inline_payload list \<Rightarrow>
   firing_request result" where
  "execute_factory b d v c ins =
     bindr (mk_binding_evidence (be_enablement v) (be_selection v)) (\<lambda>v'.
     require (evidence_eq v' v) ''selected binding evidence differs after validation''
    (bindr (mk_coordinates c) (\<lambda>c'.
     require (c' = c) ''coordinates differ after validation''
    (retained_binding b d
    (bindr (evidence_binding v') (\<lambda>selected.
     require (definition_value (er_definition (be_enablement v')) = sdk_definition_value (tb_definition b))
        ''selected CPN evidence has the wrong definition''
    (require (transition_value (bind_transition selected) = sdk_transition_value (tb_transition b))
        ''selected CPN binding has the wrong transition''
    (require (marking_value (er_marking (be_enablement v')) = sdk_marking_value (rc_marking c))
        ''selected CPN evidence has the wrong predecessor marking''
    (validate_payloads ''request inputs'' ins (fd_inputs d)
    (require (int (length ins) \<le> fb_inputs (fd_bounds d)) ''request input count exceeds descriptor bounds''
    (require (payload_bytes ins \<le> fb_input_bytes (fd_bounds d)) ''request input bytes exceed descriptor bounds''
    (require (payload_bytes ins \<le> fb_total_bytes (fd_bounds d)) ''request input bytes exceed descriptor total bound''
    (factory_request b c (be_sha256 v') ins)))))))))))))"

section \<open>What is evidence\<close>

definition selection_ok :: "selection \<Rightarrow> bool" where
  "selection_ok s \<longleftrightarrow> mk_selection (sr_enablement s) (sr_selector s) (sr_ordering s) (sr_outcome s) (sr_binding s)
     (sr_directive s) (sr_code s) = Inr s"

text \<open>The binding that a selection took from an enablement.\<close>

definition takes :: "enablement \<Rightarrow> selection \<Rightarrow> binding \<Rightarrow> bool" where
  "takes r s b \<longleftrightarrow> (\<exists>bs. mk_enablement r = Inr r \<and> er_bindings r = Some bs \<and> selection_ok s \<and> sr_outcome s = Selected \<and>
     sr_binding s = Some b \<and> sr_enablement s = er_identity r \<and> sr_ordering s = er_ordering r \<and> list_ex (binding_eq b) bs)"

definition evidence_of :: "enablement \<Rightarrow> selection \<Rightarrow> binding \<Rightarrow> binding_evidence" where
  "evidence_of r s b =
     (let p = dumps (selected_document b) in
      \<lparr>be_identity = SelectedEvidenceId (digest_json (evidence_state r s b p (SelectedProfile selected_profile))),
       be_profile = SelectedProfile selected_profile, be_sha256 = sha256_hex p, be_bytes = p,
       be_enablement = r, be_selection = s\<rparr>)"

lemma mk_enablement_same: "mk_enablement r = Inr e \<Longrightarrow> e = r"
  by (auto simp: mk_enablement_def split: if_splits)

lemma mk_selection_same:
  assumes "mk_selection (sr_enablement s) (sr_selector s) (sr_ordering s) (sr_outcome s) (sr_binding s) (sr_directive s)
    (sr_code s) = Inr e"
  shows "e = s \<longleftrightarrow> selection_eq e s"
proof
  assume "selection_eq e s"
  then have "sr_identity e = sr_identity s" by (simp add: selection_eq_def)
  then show "e = s" using assms unfolding mk_selection_Inr by (intro selection.equality) simp_all
qed simp

lemma selected_profile_total: "mk_selected_profile selected_profile = Inr (SelectedProfile selected_profile)"
proof -
  have "token_plain selected_profile"
    by (simp add: token_plain_def selected_profile_def ascii_def space_or_control_def)
  moreover have "length selected_profile \<le> max_profile_identity"
    by (simp add: selected_profile_def max_profile_identity_def)
  ultimately show ?thesis by (simp add: mk_selected_profile_def action_token_Inr)
qed

lemma mk_binding_evidence_Inr:
  "mk_binding_evidence r s = Inr v \<longleftrightarrow> (\<exists>b. takes r s b \<and> selectable b \<and> v = evidence_of r s b)"
proof -
  have i: "mk_selected_evidence_id (digest_json j) = Inr i \<longleftrightarrow> i = SelectedEvidenceId (digest_json j)" for j i
    by (simp add: mk_selected_evidence_id_def action_sha256_Inr)
  let ?mk = "mk_selection (sr_enablement s) (sr_selector s) (sr_ordering s) (sr_outcome s) (sr_binding s) (sr_directive s) (sr_code s)"
  have e: "(\<exists>en. mk_enablement r = Inr en \<and> enablement_eq en r \<and> P en) \<longleftrightarrow> mk_enablement r = Inr r \<and> P r" for P
    using mk_enablement_same enablement_eq_refl by blast
  have se: "(\<exists>se. ?mk = Inr se \<and> selection_eq se s \<and> P se) \<longleftrightarrow> selection_ok s \<and> P s" for P
    using mk_selection_same [of s] selection_eq_refl [of s] unfolding selection_ok_def by blast
  show ?thesis
    unfolding mk_binding_evidence_def bindr_Inr_iff [of "mk_enablement r"] bindr_Inr_iff [of ?mk] require_Inr_iff e se
    by (auto simp: takes_def evidence_of_def Let_def bindr_Inr_iff require_Inr_iff encode_selected_Inr
        selected_profile_total i split: option.splits)
qed

lemma evidence_of_sha256: "be_sha256 (evidence_of r s b) = sha256_hex (dumps (selected_document b))"
  and evidence_of_sources: "be_enablement (evidence_of r s b) = r" "be_selection (evidence_of r s b) = s"
  by (simp_all add: evidence_of_def Let_def)

section \<open>What the factory builds\<close>

definition coordinate_ids_ok :: "request_coordinates \<Rightarrow> bool" where
  "coordinate_ids_ok c \<longleftrightarrow> lexical_ok (sdk_instance_value (rc_instance c)) \<and> lexical_ok (sdk_marking_value (rc_marking c)) \<and>
     lexical_ok (sdk_occurrence_value (rc_occurrence c)) \<and> lexical_ok (sdk_attempt_value (rc_attempt c))"

definition request_fields :: "firer_binding \<Rightarrow> request_coordinates \<Rightarrow> string \<Rightarrow> inline_payload list \<Rightarrow> firing_request" where
  "request_fields b c h ins =
     \<lparr>fq_identity = SdkRequest [], fq_context = factory_context b c h, fq_binding = tb_identity b,
      fq_firer = tb_firer b, fq_inputs = ins, fq_version = sdk_version\<rparr>"

definition request_of :: "firer_binding \<Rightarrow> request_coordinates \<Rightarrow> string \<Rightarrow> inline_payload list \<Rightarrow> firing_request" where
  "request_of b c h ins = (request_fields b c h ins)\<lparr>fq_identity := SdkRequest (request_digest (request_fields b c h ins))\<rparr>"

definition coordinates_ok :: "request_coordinates \<Rightarrow> bool" where
  "coordinates_ok c \<longleftrightarrow> coordinate_ids_ok c \<and> sdk_signed (rc_revision c) \<and> sdk_signed (rc_ordinal c)"

text \<open>Payloads that meet the input contracts of a descriptor are those of a request.\<close>

lemma meets_roles: "list_all2 meets ps cs \<Longrightarrow> map pm_role ps = map pm_role cs"
  by (induction rule: list_all2_induct) (auto simp: meets_def same_meta_def)

lemma input_payloads:
  assumes "descriptor_ok d" "list_all payload_ok ins" "list_all2 meets ins (fd_inputs d)"
  shows "payloads_ok ins"
proof -
  have "fb_input_bytes (fd_bounds d) \<le> int sdk_max_total"
    using assms(1) by (simp add: descriptor_ok_def descriptor_parts_ok_def bounds_ok_def bounds_fields_def bound_ok_def)
  then have "payload_bytes ins \<le> int sdk_max_total"
    using meets_bytes [OF assms(3)] assms(1) by (simp add: descriptor_ok_def descriptor_fits_def)
  moreover have "length ins \<le> sdk_max_payloads"
    using list_all2_lengthD [OF assms(3)] assms(1) by (simp add: descriptor_ok_def contracts_ok_def sdk_max_payloads_def sdk_max_contracts_def)
  ultimately show ?thesis
    using assms(1,2) meets_roles [OF assms(3)] by (simp add: payloads_ok_def descriptor_ok_def contracts_ok_def)
qed

lemma request_of_ok:
  assumes "binds b d" "coordinates_ok c" "hex64 h" "list_all payload_ok ins" "list_all2 meets ins (fd_inputs d)"
  shows "firing_request_ok (request_of b c h ins)"
proof -
  have "context_ok (factory_context b c h)"
    using assms(1-3) by (simp add: context_ok_def context_ids_ok_def factory_context_def binds_def firer_binding_ok_def
        binding_ids_ok_def coordinates_ok_def coordinate_ids_ok_def)
  moreover have "hex64 (sdk_binding_value (tb_identity b))" "lexical_ok (sdk_firer_value (tb_firer b))"
    using assms(1) by (auto simp: binds_def firer_binding_ok_def binding_ids_ok_def binding_digest_def hex64_semantic)
  ultimately have "request_parts_ok (request_fields b c h ins)"
    using assms(4) by (simp add: request_parts_ok_def request_fields_def)
  moreover have "payloads_ok ins" using input_payloads assms by (auto simp: binds_def)
  ultimately show ?thesis
    by (simp add: firing_request_ok_def request_of_def request_parts_ok_def) (simp add: request_fields_def)
qed

lemma factory_request_Inr:
  assumes "binds b d" "coordinate_ids_ok c" "hex64 h" "list_all payload_ok ins" "list_all2 meets ins (fd_inputs d)"
  shows "factory_request b c h ins = Inr q \<longleftrightarrow> coordinates_ok c \<and> q = request_of b c h ins"
proof -
  have ids: "context_ids_ok (factory_context b c h)"
    using assms(1,2) by (simp add: context_ids_ok_def factory_context_def binds_def firer_binding_ok_def
        binding_ids_ok_def coordinate_ids_ok_def)
  have ctx: "mk_occurrence_context (factory_context b c h) = Inr x \<longleftrightarrow> coordinates_ok c \<and> x = factory_context b c h" for x
    using ids assms(2,3) mk_occurrence_context_Inr [OF ids, of x]
    by (auto simp: context_ok_def coordinates_ok_def factory_context_def)
  have made: "mk_firing_request (request_fields b c h ins) = Inr q \<longleftrightarrow> q = request_of b c h ins" if ok: "coordinates_ok c" for q
  proof -
    have o: "firing_request_ok (request_of b c h ins)" by (rule request_of_ok [OF assms(1) ok assms(3-5)])
    then have p: "request_parts_ok (request_fields b c h ins)"
      by (simp add: firing_request_ok_def request_of_def request_parts_ok_def)
    have "mk_firing_request (request_fields b c h ins) = Inr (request_of b c h ins)"
      unfolding mk_firing_request_Inr [OF p] using o by (simp add: request_of_def)
    then show ?thesis by auto
  qed
  have trip: "bindr (encode_request q) decode_request_bytes = Inr q" if "firing_request_ok q" for q
    using that encode_request_total [OF that] by (auto simp: bindr_Inr_iff request_bytes)
  show ?thesis
  proof (cases "coordinates_ok c")
    case True
    have m: "mk_occurrence_context (factory_context b c h) = Inr (factory_context b c h)" using ctx True by blast
    have "factory_request b c h ins = bindr (mk_firing_request (request_fields b c h ins)) (\<lambda>q.
        bindr (bindr (encode_request q) decode_request_bytes) (\<lambda>q'. require (q' = q) ''request differs after canonical round trip'' (Inr q)))"
      unfolding factory_request_def m bindr.simps request_fields_def ..
    also have "\<dots> = Inr (request_of b c h ins)"
      using iffD2 [OF made [OF True] refl] trip [OF request_of_ok [OF assms(1) True assms(3-5)]] by simp
    finally show ?thesis using True by auto
  next
    case False
    then have "\<not> (\<exists>x. mk_occurrence_context (factory_context b c h) = Inr x)" using ctx by blast
    then show ?thesis using False by (auto simp: factory_request_def bindr_Inr_iff)
  qed
qed

lemma evidence_eq_same:
  assumes "be_enablement v = be_enablement w" "be_selection v = be_selection w"
  shows "evidence_eq v w \<longleftrightarrow> v = w"
  using assms by (auto simp: evidence_eq_def intro: binding_evidence.equality)

lemma hex64_selected: "hex64 (be_sha256 (evidence_of r s b))"
  by (simp add: evidence_of_sha256 hex64_sha256)

text \<open>The factory, as a table; \<open>r\<close> and \<open>s\<close> are the results that the evidence holds.\<close>

definition belongs :: "firer_binding \<Rightarrow> enablement \<Rightarrow> binding \<Rightarrow> request_coordinates \<Rightarrow> bool" where
  "belongs b r x c \<longleftrightarrow> definition_value (er_definition r) = sdk_definition_value (tb_definition b) \<and>
     transition_value (bind_transition x) = sdk_transition_value (tb_transition b) \<and>
     marking_value (er_marking r) = sdk_marking_value (rc_marking c)"

lemma execute_factory_Inr:
  fixes v :: binding_evidence
  assumes "coordinate_ids_ok c" "list_all payload_ok ins"
  defines "r \<equiv> be_enablement v" and "s \<equiv> be_selection v"
  shows "execute_factory b d v c ins = Inr q \<longleftrightarrow>
    (\<exists>x. takes r s x \<and> selectable x \<and> v = evidence_of r s x \<and> binds b d \<and> belongs b r x c \<and>
      list_all2 meets ins (fd_inputs d) \<and> coordinates_ok c \<and> q = request_of b c (be_sha256 v) ins)"
proof -
  have e: "mk_binding_evidence r s = Inr v' \<and> evidence_eq v' v \<longleftrightarrow> (\<exists>x. takes r s x \<and> selectable x \<and> v' = evidence_of r s x) \<and> v' = v" for v'
    unfolding mk_binding_evidence_Inr using evidence_eq_same [of v' v]
    by (auto simp: evidence_of_sources r_def s_def)
  have x: "evidence_binding v = Inr x \<longleftrightarrow> sr_binding s = Some x" for x
    by (auto simp: evidence_binding_def s_def split: option.splits)
  have bounds: "list_all2 meets ins (fd_inputs d) \<and> int (length ins) \<le> fb_inputs (fd_bounds d) \<and>
      payload_bytes ins \<le> fb_input_bytes (fd_bounds d) \<and> payload_bytes ins \<le> fb_total_bytes (fd_bounds d) \<longleftrightarrow>
      list_all2 meets ins (fd_inputs d)" if "binds b d"
    using that meets_bytes [of ins "fd_inputs d"] list_all2_lengthD [of meets ins "fd_inputs d"]
    by (auto simp: binds_def descriptor_ok_def descriptor_fits_def)
  have f: "factory_request b c (be_sha256 v) ins = Inr q \<longleftrightarrow> coordinates_ok c \<and> q = request_of b c (be_sha256 v) ins"
    if "binds b d" "list_all2 meets ins (fd_inputs d)" "v = evidence_of r s x" for x
    using factory_request_Inr [OF that(1) assms(1) _ assms(2) that(2)] hex64_selected [of r s x] that(3) by simp
  have step: "bindr (mk_binding_evidence r s) (\<lambda>v'. require (evidence_eq v' v) msg (k v')) = Inr q \<longleftrightarrow>
      (\<exists>x. takes r s x \<and> selectable x \<and> v = evidence_of r s x) \<and> k v = Inr q" for msg k
    unfolding bindr_Inr_iff require_Inr_iff conj_assoc [symmetric] e by auto
  have coord: "bindr (mk_coordinates c) (\<lambda>c'. require (c' = c) msg k) = Inr q \<longleftrightarrow>
      0 \<le> rc_revision c \<and> 0 \<le> rc_ordinal c \<and> k = Inr q" for msg k
    by (auto simp: mk_coordinates_def bindr_Inr_iff require_Inr_iff)
  have main: "execute_factory b d v c ins = Inr q \<longleftrightarrow> (\<exists>x. takes r s x \<and> selectable x \<and> v = evidence_of r s x) \<and>
      0 \<le> rc_revision c \<and> 0 \<le> rc_ordinal c \<and> binds b d \<and> (\<exists>x. sr_binding s = Some x \<and>
        definition_value (er_definition r) = sdk_definition_value (tb_definition b) \<and>
        transition_value (bind_transition x) = sdk_transition_value (tb_transition b) \<and>
        marking_value (er_marking r) = sdk_marking_value (rc_marking c) \<and>
        list_all2 meets ins (fd_inputs d) \<and> int (length ins) \<le> fb_inputs (fd_bounds d) \<and>
        payload_bytes ins \<le> fb_input_bytes (fd_bounds d) \<and> payload_bytes ins \<le> fb_total_bytes (fd_bounds d) \<and>
        factory_request b c (be_sha256 v) ins = Inr q)"
    unfolding execute_factory_def r_def [symmetric] s_def [symmetric] step coord retained_binding_Inr
      bindr_Inr_iff [of "evidence_binding v"] x require_Inr_iff validate_payloads_Inr [OF assms(2)] ..
  show ?thesis
  proof (cases "\<exists>x. takes r s x \<and> selectable x \<and> v = evidence_of r s x")
    case True
    then obtain x where v: "takes r s x" "selectable x" "v = evidence_of r s x" by blast
    have sb: "sr_binding s = Some x" using v(1) by (auto simp: takes_def)
    have only: "takes r s y \<longleftrightarrow> y = x" for y using v(1) sb by (auto simp: takes_def)
    have "execute_factory b d v c ins = Inr q \<longleftrightarrow> 0 \<le> rc_revision c \<and> 0 \<le> rc_ordinal c \<and> binds b d \<and> belongs b r x c \<and>
        (list_all2 meets ins (fd_inputs d) \<and> int (length ins) \<le> fb_inputs (fd_bounds d) \<and>
        payload_bytes ins \<le> fb_input_bytes (fd_bounds d) \<and> payload_bytes ins \<le> fb_total_bytes (fd_bounds d)) \<and>
        factory_request b c (be_sha256 v) ins = Inr q"
      unfolding main sb belongs_def using True by auto
    also have "\<dots> \<longleftrightarrow> binds b d \<and> belongs b r x c \<and> list_all2 meets ins (fd_inputs d) \<and> coordinates_ok c \<and>
        q = request_of b c (be_sha256 v) ins"
      using bounds f [OF _ _ v(3)] by (auto simp: coordinates_ok_def sdk_signed_def)
    finally show ?thesis unfolding only using v(2,3) by auto
  qed (use main in blast)
qed

section \<open>The colored net's own results\<close>

text \<open>Where every branch of a computation ends in a property of its result.\<close>

lemma branches:
  "(\<And>x. f x = Inr r \<longrightarrow> P) \<Longrightarrow> bindr z f = Inr r \<longrightarrow> P"
  "A = Inr r \<longrightarrow> P \<Longrightarrow> B = Inr r \<longrightarrow> P \<Longrightarrow> (if c then A else B) = Inr r \<longrightarrow> P"
  "(\<And>x. f x = Inr r \<longrightarrow> P) \<Longrightarrow> (\<And>y. g y = Inr r \<longrightarrow> P) \<Longrightarrow> case_sum f g w = Inr r \<longrightarrow> P"
  "(\<And>a b. h a b = Inr r \<longrightarrow> P) \<Longrightarrow> case_prod h u = Inr r \<longrightarrow> P"
  by (auto simp: bindr_Inr_iff split: sum.splits prod.splits)

lemma enable_with_again: "enable_with n m ev ord = Inr r \<longrightarrow> mk_enablement r = Inr r"
proof -
  have same: "mk_enablement x = Inr r \<longrightarrow> mk_enablement r = Inr r" for x using mk_enablement_same by blast
  have failed: "enablement_failed n m ev ord code phase ex ob di is = Inr r \<longrightarrow> mk_enablement r = Inr r" for code phase ex ob di "is"
    unfolding enablement_failed_def Let_def by (intro branches same)
  show ?thesis unfolding enable_with_def by (intro branches same failed)
qed

lemma select_selection_ok: "select n r d = Inr s \<Longrightarrow> selection_ok s"
proof -
  assume s: "select n r d = Inr s"
  obtain o' b d' k where "selection_choice n r d = (o', b, d', k)" by (metis surj_pair)
  with s show ?thesis by (auto simp: select_choice selection_ok_def mk_selection_Inr)
qed

text \<open>What the selector takes from the enabler's result is evidence.\<close>

lemma selected_takes:
  assumes "enable n m = Inr r" "select n r d = Inr s" "sr_binding s = Some b"
  shows "takes r s b"
proof -
  note c = select_Inr [OF assms(2)]
  have "mk_enablement r = Inr r" using assms(1) enable_with_again by (simp add: enable_def)
  moreover have "\<exists>bs. er_bindings r = Some bs \<and> list_ex (binding_eq b) bs \<and> sr_outcome s = Selected"
    using c assms(3) by (auto simp: selection_choice_def split: if_splits option.splits list.splits)
  ultimately show ?thesis
    unfolding takes_def using c select_selection_ok [OF assms(2)] assms(3) by auto
qed

end
