(* ===== verification/Action_Example.thy ===== *)
theory Action_Example
  imports Action_Mapper Action_Request Sdk_Example
begin

text \<open>
  One instance of the action mapping: a firer whose sole output is an ASCII identity, bound to the
  transition \<open>step\<close> of the definition \<open>net\<close>, and its mapping to the variable \<open>w\<close>.
\<close>

definition act_contract :: payload_contract where
  "act_contract = (sample_contract ''out'')\<lparr>pm_representation := SdkRepresentation ''canonical-ascii:1''\<rparr>"

definition act_payload :: inline_payload where
  "act_payload = (sample_payload ''out'')\<lparr>pm_representation := SdkRepresentation ''canonical-ascii:1''\<rparr>"

definition act_descriptor :: firer_descriptor where
  "act_descriptor = sample_descriptor\<lparr>fd_outputs := [act_contract], fd_evidence := []\<rparr>"

definition act_binding_fields :: firer_binding where
  "act_binding_fields =
     \<lparr>tb_identity = SdkBinding [], tb_definition = SdkDefinition ''net'', tb_transition = SdkTransition ''step'',
      tb_firer = SdkFirer ''firer'', tb_inputs = [''in''], tb_outputs = [''out''], tb_version = ''1''\<rparr>"

definition act_binding :: firer_binding where
  "act_binding = act_binding_fields\<lparr>tb_identity := SdkBinding (binding_digest act_binding_fields)\<rparr>"

definition act_coordinates :: request_coordinates where
  "act_coordinates =
     \<lparr>rc_instance = SdkInstance ''net'', rc_marking = SdkMarking ''m0'', rc_revision = 0,
      rc_occurrence = SdkOccurrence ''o1'', rc_attempt = SdkAttempt ''a1'', rc_ordinal = 0\<rparr>"

definition act_request :: "string \<Rightarrow> firing_request" where
  "act_request h = request_of act_binding act_coordinates h [sample_payload ''in'']"

definition act_answer_fields :: "firing_request \<Rightarrow> firing_result" where
  "act_answer_fields q = (sample_answer_fields q)\<lparr>fr_body := FiringSucceeded [act_payload]\<rparr>"

definition act_answer :: "firing_request \<Rightarrow> firing_result" where
  "act_answer q = (act_answer_fields q)\<lparr>fr_identity := SdkResult (result_digest (act_answer_fields q))\<rparr>"

definition act_mapping_fields :: output_mapping where
  "act_mapping_fields =
     \<lparr>om_identity = MappingId [], om_binding = act_binding, om_firer = act_descriptor, om_role = ''out'',
      om_variable = VariableId ''w'', om_kind = KString, om_version = ''1'', om_decoder = ascii_decoder_profile\<rparr>"

definition act_mapping :: output_mapping where
  "act_mapping = act_mapping_fields\<lparr>om_identity :=
     MappingId (case mapping_descriptor_sha256 act_mapping_fields of Inr h \<Rightarrow> h | Inl _ \<Rightarrow> [])\<rparr>"

lemma act_texts: "lexical_ok ''canonical-ascii:1''" "token_text_ok ''1''"
  by (simp_all add: lexical_ok_def token_text_ok_def text_ok_def ascii_stripped starts_def sdk_limits ascii_def
      control_char_def sdk_machine_path_def lower_char_def token_grammar_def alnum_def)

lemma act_contract_ok: "contract_ok act_contract"
  using sample_contract_ok [OF sample_texts(16)]
  by (simp add: act_contract_def contract_ok_def meta_ok_def meta_ids_ok_def act_texts)

lemma act_payload_ok: "payload_ok act_payload"
  using sample_payload_ok [OF sample_texts(16)]
  by (simp add: act_payload_def payload_ok_def meta_ok_def meta_ids_ok_def act_texts)

lemma act_meets: "meets act_payload act_contract"
  using sample_meets [of "''out''"] by (simp add: act_payload_def act_contract_def meets_def same_meta_def)

lemma act_descriptor_ok: "descriptor_ok act_descriptor"
proof -
  have m: "pc_maximum act_contract = 8" by (simp add: act_contract_def sample_payload_length)
  show ?thesis
    using sample_descriptor_ok act_contract_ok m
    by (simp add: act_descriptor_def descriptor_ok_def descriptor_parts_ok_def contracts_ok_def descriptor_fits_def
        contract_bytes_def sdk_max_contracts_def) (simp add: sample_descriptor_def sample_bounds_def)
qed

lemma act_binds: "binds act_binding act_descriptor"
proof -
  have "binding_ids_ok act_binding_fields" "roles_ok (tb_inputs act_binding_fields)" "roles_ok (tb_outputs act_binding_fields)"
    by (simp_all add: binding_ids_ok_def act_binding_fields_def sample_texts roles_ok_def sdk_max_payloads_def)
  then have "firer_binding_ok act_binding"
    by (simp add: firer_binding_ok_def act_binding_def binding_ids_ok_def) (simp add: act_binding_fields_def act_texts)
  then show ?thesis
    using act_descriptor_ok
    by (simp add: binds_def) (simp add: act_binding_def act_binding_fields_def act_descriptor_def sample_descriptor_def
        act_contract_def sample_payload_length sample_contract_def)
qed

lemma act_coordinates_ok: "coordinates_ok act_coordinates"
  by (simp add: coordinates_ok_def coordinate_ids_ok_def act_coordinates_def sample_texts sdk_signed_def sdk_max_signed_def)

lemma act_inputs: "list_all2 meets [sample_payload ''in''] (fd_inputs act_descriptor)" "list_all payload_ok [sample_payload ''in'']"
  using sample_meets [of "''in''"] sample_payload_ok [OF sample_texts(15)]
  by (simp_all add: act_descriptor_def sample_descriptor_def)

lemma act_request_ok: "hex64 h \<Longrightarrow> firing_request_ok (act_request h)"
  unfolding act_request_def by (rule request_of_ok [OF act_binds act_coordinates_ok _ act_inputs(2,1)])

lemma act_answer_ok: "hex64 h \<Longrightarrow> firing_result_ok (act_answer (act_request h))"
proof -
  have "hex64 (sdk_request_value (fq_identity (act_request h)))"
    by (simp add: act_request_def request_of_def request_digest_def hex64_semantic)
  then have "result_parts_ok (act_answer_fields (act_request h))"
    by (simp add: result_parts_ok_def act_answer_fields_def sample_answer_fields_def sample_texts act_payload_ok)
  then show ?thesis
    by (simp add: firing_result_ok_def act_answer_def result_parts_ok_def payloads_ok_def)
      (simp add: act_answer_fields_def sample_answer_fields_def payloads_ok_def payload_bytes_def sample_payload_length sdk_limits
        act_payload_def)
qed

lemma act_mapping_ok: "mapping_ok act_mapping"
proof -
  have c: "output_contract act_mapping_fields = act_contract"
    by (simp add: output_contract_def act_mapping_fields_def act_descriptor_def)
  have "mapping_fits act_mapping_fields"
    using act_binds by (simp add: mapping_fits_def c)
      (simp add: act_mapping_fields_def act_descriptor_def act_contract_def sample_contract_def ascii_representation_def
        max_action_identity_def max_mapping_version_def token_plain_def ascii_def space_or_control_def)
  then show ?thesis
    using mapping_digest [of act_mapping_fields] by (auto simp: mapping_ok_def act_mapping_def)
qed

lemma act_answers: "answers act_descriptor (act_request h) (act_answer (act_request h))"
  by (simp add: answers_def act_answer_def act_answer_fields_def sample_answer_fields_def act_request_def request_of_def
      request_fields_def factory_context_def act_coordinates_def act_descriptor_def sample_descriptor_def)

end
