(* ===== verification/Action_Theorems.thy ===== *)
theory Action_Theorems
  imports Action_Example Cpn_Audit Example
begin

text \<open>
  The properties of the action mapping: the digest of a selected binding, the factory of requests, the
  mapper of results, and the way from a selected binding through a firer back to the colored net.
\<close>

section \<open>The selected binding\<close>

text \<open>C40: The digest that a request carries determines the selected binding.  Two bindings with one digest are
  the same object, so also where Python's equality identifies a negative with a positive zero, unless
  their canonical bytes are a collision of SHA-256.\<close>

theorem selected_digest_determines:
  assumes "selected_sha256 b = Inr h" "selected_sha256 c = Inr h"
  shows "b = c \<or> sha256_collision (dumps (selected_document b)) (dumps (selected_document c))"
proof -
  have "sha256_hex (dumps (selected_document b)) = sha256_hex (dumps (selected_document c))"
    using assms by (auto simp: selected_sha256_def bindr_Inr_iff encode_selected_Inr)
  then show ?thesis using selected_document_inj [of b c] by (auto simp: sha256_collision_def)
qed

lemma ex_selected_length: "length (dumps (selected_document (ex_binding 3))) = 230"
  by code_simp

lemma ex_selectable: "selectable (ex_binding 3)"
proof -
  have "selected_text_ok s" if "s \<in> {''step'', ''x'', ''y''}" for s
    by (rule token_plain_selected) (use that in \<open>auto simp: token_plain_def ascii_def space_or_control_def max_selected_identity_def\<close>)
  then show ?thesis
    using ex_selected_length
    by (simp add: selectable_def max_selected_bytes_def)
      (simp add: ex_binding_def ex_ids i64_min_def i64_max_def max_selected_string_def max_selected_assignments_def)
qed

theorem selected_digest_determines_witness:
  "\<exists>h. selected_sha256 (ex_binding 3) = Inr h \<and> (ex_binding 3 = ex_binding 3 \<or>
     sha256_collision (dumps (selected_document (ex_binding 3))) (dumps (selected_document (ex_binding 3))))"
proof -
  have "selected_sha256 (ex_binding 3) = Inr (sha256_hex (dumps (selected_document (ex_binding 3))))"
    using ex_selectable by (simp add: selected_sha256_def bindr_Inr_iff encode_selected_Inr)
  from selected_digest_determines [OF this this] this show ?thesis by blast
qed

section \<open>Requests\<close>

text \<open>C39: The factory issues a request exactly for what the colored net selected.  With the evidence of a binding
  that the selector took from the enabler's result, a request is returned exactly when the binding has
  canonical bytes, the firer binding is one for the descriptor and for the definition, the transition
  and the marking of the evidence, the coordinates fit 64 bits and the inputs meet the contracts one by
  one; the request then carries the digest of those bytes.\<close>

theorem factory_requests_selected:
  assumes "enable n m = Inr e" "select n e d = Inr s" "sr_binding s = Some x"
    and "coordinate_ids_ok c" "list_all payload_ok ins"
  shows "(\<exists>v. mk_binding_evidence e s = Inr v \<and> execute_factory b fd v c ins = Inr q) \<longleftrightarrow>
    selectable x \<and> binds b fd \<and> belongs b e x c \<and> coordinates_ok c \<and> list_all2 meets ins (fd_inputs fd) \<and>
    q = request_of b c (sha256_hex (dumps (selected_document x))) ins"
proof -
  have t: "takes e s y \<longleftrightarrow> y = x" for y
    using selected_takes [OF assms(1-3)] assms(3) by (auto simp: takes_def)
  show ?thesis
    unfolding mk_binding_evidence_Inr t execute_factory_Inr [OF assms(4,5)]
    by (auto simp: evidence_of_sources evidence_of_sha256 t)
qed

lemma ex_belongs: "belongs act_binding ex_enablement (ex_binding 3) act_coordinates"
  by (simp add: belongs_def act_binding_def act_binding_fields_def ex_enablement_def ex_binding_def ex_ids act_coordinates_def)

theorem factory_requests_selected_witness:
  "\<exists>v. mk_binding_evidence ex_enablement ex_selection = Inr v \<and>
     execute_factory act_binding act_descriptor v act_coordinates [sample_payload ''in''] =
       Inr (act_request (sha256_hex (dumps (selected_document (ex_binding 3)))))"
  unfolding act_request_def
  using factory_requests_selected [OF ex_enable ex_select ex_selection_parts(2) _ act_inputs(2), of act_coordinates]
    ex_selectable act_binds ex_belongs act_coordinates_ok act_inputs(1) by (simp add: coordinates_ok_def)

section \<open>Results\<close>

text \<open>C13: The mapper maps exactly the answers it may trust.  For a context, a request and a result of the SDK it
  returns a record exactly when the mapping is valid, the result has a document and is a success with
  one output for this request in this context, both belong to the mapping and to a transition with the
  mapping's variable as its only external one, and inputs, output and all evidence meet their contracts
  one by one with an output that is a path-free ASCII identity; the record then binds that variable to
  that text.\<close>

theorem mapper_decides:
  assumes "context_ok c" "firing_request_ok q" "firing_result_ok r"
  shows "execute_mapper m t c q r = Inr y \<longleftrightarrow>
    mapping_ok m \<and> is_ok (encode_result r) \<and> fq_context q = c \<and> correlated m t q r \<and>
    (\<exists>p. fr_body r = FiringSucceeded [p] \<and> mapped_payloads m q r p \<and> y = mapped_of m q r p)"
  by (rule execute_mapper_Inr [OF assms])

lemma act_firing:
  fixes h :: string
  defines "q \<equiv> act_request h"
  assumes "hex64 h"
  shows "sdk_fire act_descriptor (\<lambda>q. Inr (act_answer q)) q = Inr (act_answer q)"
    "mapped_payloads act_mapping q (act_answer q) act_payload"
    "correlated act_mapping ex_transition q (act_answer q)"
proof -
  have o: "meets_in_order [] cs" for cs by (auto simp: meets_in_order_def)
  have e: "fr_evidence (act_answer q) = []" "fr_body (act_answer q) = FiringSucceeded [act_payload]"
    by (simp_all add: act_answer_def act_answer_fields_def sample_answer_fields_def)
  have i: "fq_inputs q = [sample_payload ''in'']" "fq_firer q = fd_identity act_descriptor" "fq_binding q = tb_identity act_binding"
      "oc_definition (fq_context q) = tb_definition act_binding" "oc_transition (fq_context q) = tb_transition act_binding"
    using act_binds by (simp_all add: q_def act_request_def request_of_def request_fields_def binds_def factory_context_def)
  have d: "fd_outputs act_descriptor = [act_contract]" "fd_evidence act_descriptor = []" by (simp_all add: act_descriptor_def)
  have a: "answers act_descriptor q (act_answer q)" using act_answers by (simp add: q_def)
  have ok: "firing_request_ok q" "firing_result_ok (act_answer q)"
    using act_request_ok [OF assms(2)] act_answer_ok [OF assms(2)] by (simp_all add: q_def)
  show "sdk_fire act_descriptor (\<lambda>q. Inr (act_answer q)) q = Inr (act_answer q)"
    using sdk_fire_Inr [OF act_descriptor_ok ok(1), of "\<lambda>_. Inr (act_answer q)" "act_answer q"] ok(2) act_inputs(1) a act_meets o
    by (simp add: e i d sdk_fire_def)
  have c: "output_contract act_mapping = act_contract" "om_firer act_mapping = act_descriptor" "om_binding act_mapping = act_binding"
    "om_variable act_mapping = ex_w"
    by (simp_all add: act_mapping_def act_mapping_fields_def output_contract_def act_descriptor_def ex_ids)
  have "is_ok (decode_ascii_identity ''data'' 8)"
    by (simp add: is_ok_iff decode_ascii_identity_Inr token_plain_def ascii_def space_or_control_def sdk_machine_path_def
        starts_def lower_char_def max_action_identity_def)
  moreover have "ip_payload act_payload = ''data''" "pc_maximum act_contract = 8"
    by (simp_all add: act_payload_def sample_payload_def act_contract_def sample_contract_def)
  ultimately show "mapped_payloads act_mapping q (act_answer q) act_payload"
    using act_inputs(1) act_meets by (simp add: mapped_payloads_def c i e d)
  have "tb_transition act_binding = SdkTransition ''step''" by (simp add: act_binding_def act_binding_fields_def)
  then show "correlated act_mapping ex_transition q (act_answer q)"
    using a by (simp add: correlated_def c i) (simp add: ex_transition_def ex_ids)
qed

theorem mapper_decides_witness:
  "\<exists>q r y. context_ok (fq_context q) \<and> firing_request_ok q \<and> firing_result_ok r \<and>
     execute_mapper act_mapping ex_transition (fq_context q) q r = Inr y"
proof -
  let ?q = "act_request (sha256_hex [])"
  note f = act_firing [OF hex64_sha256 [of "[]"]]
  have ok: "firing_request_ok ?q" "firing_result_ok (act_answer ?q)"
    using act_request_ok act_answer_ok hex64_sha256 by blast+
  then have c: "context_ok (fq_context ?q)" by (simp add: firing_request_ok_def request_parts_ok_def)
  have "is_ok (encode_result (act_answer ?q))"
    using fired_encodable [OF act_descriptor_ok ok(1) _ f(1)] act_answer_ok ok(2) sdk_fire_Inr
    by (simp add: is_ok_iff)
  moreover have "fr_body (act_answer ?q) = FiringSucceeded [act_payload]"
    by (simp add: act_answer_def act_answer_fields_def)
  ultimately show ?thesis
    using mapper_decides [OF c ok] act_mapping_ok f(2,3) c ok by blast
qed

section \<open>From a selection through a firer back to the net\<close>

text \<open>What the factory issued and the firer answered, as the mapper asks for it.\<close>

lemma issued_correlated:
  assumes m: "mapping_ok m" and v: "mk_binding_evidence e s = Inr v"
    and q: "execute_factory (om_binding m) (om_firer m) v c ins = Inr q" "coordinate_ids_ok c" "list_all payload_ok ins"
    and r: "\<And>r. invoke q = Inr r \<Longrightarrow> firing_result_ok r" "sdk_fire (om_firer m) invoke q = Inr r"
    and t: "sr_binding s = Some x" "td_identity t = bind_transition x" "td_externals t = [om_variable m]"
  shows "firing_request_ok q \<and> firing_result_ok r \<and> is_ok (encode_result r) \<and> correlated m t q r \<and>
    list_all2 meets (fq_inputs q) (fd_inputs (om_firer m)) \<and> body_meets (om_firer m) (fr_body r)"
proof -
  have d: "binds (om_binding m) (om_firer m)" using m by (simp add: mapping_ok_def mapping_fits_def)
  obtain y where y: "takes e s y" "v = evidence_of e s y" using v by (auto simp: mk_binding_evidence_Inr)
  then have yx: "y = x" using t(1) by (auto simp: takes_def)
  have f: "belongs (om_binding m) e x c" "list_all2 meets ins (fd_inputs (om_firer m))" "coordinates_ok c"
      "q = request_of (om_binding m) c (be_sha256 v) ins"
    using q(1) yx y t(1) by (auto simp: execute_factory_Inr [OF q(2,3)] evidence_of_sources takes_def)
  have h: "hex64 (be_sha256 v)" using hex64_selected y(2) by simp
  have ok: "firing_request_ok q" unfolding f(4) by (rule request_of_ok [OF d f(3) h q(3) f(2)])
  have dok: "descriptor_ok (om_firer m)" using d by (simp add: binds_def)
  have a: "answers (om_firer m) q r" "body_meets (om_firer m) (fr_body r)"
    using iffD1 [OF sdk_fire_Inr [OF dok ok r(1)] r(2)] by blast+
  have "correlated m t q r"
    using a(1) d f(1) t(2,3) by (simp add: correlated_def binds_def belongs_def)
      (simp add: f(4) request_of_def request_fields_def factory_context_def)
  moreover have "fq_inputs q = ins" by (simp add: f(4) request_of_def request_fields_def)
  ultimately show ?thesis using fired_encodable [OF dok ok r] ok a(2) f(2) by (simp add: is_ok_iff)
qed

text \<open>C12: The loop closes.  A valid binding that the colored net enabled and selected, the request that the
  factory issues for it, the result that a conforming firer returns with one path-free ASCII output and
  all its evidence: the mapper maps that result, and its binding is the external binding that firing
  the selected binding asks for, so firing succeeds or fails only in the outputs of the transition.\<close>

theorem action_loop_closes:
  assumes net: "net_ok n" "marking_ok k" "enable n k = Inr e" "select n e dir = Inr s" "sr_binding s = Some x" "binding_ok x"
    and request: "mk_binding_evidence e s = Inr v" "execute_factory (om_binding m) (om_firer m) v c ins = Inr q"
      "coordinate_ids_ok c" "list_all payload_ok ins"
    and firer: "\<And>r. invoke q = Inr r \<Longrightarrow> firing_result_ok r" "sdk_fire (om_firer m) invoke q = Inr r"
      "fr_body r = FiringSucceeded [p]"
    and mapping: "mapping_ok m" "is_ok (decode_ascii_identity (ip_payload p) (pc_maximum (output_contract m)))"
      "list_all2 meets (fr_evidence r) (fd_evidence (om_firer m))"
    and transition: "t \<in> set (n_transitions n)" "td_identity t = bind_transition x" "td_externals t = [om_variable m]"
  shows "\<exists>y w. execute_mapper m t (fq_context q) q r = Inr y \<and>
    bind_assignments (mr_binding y) = [\<lparr>as_variable = om_variable m, as_value = VStr (ip_payload p)\<rparr>] \<and>
    fire \<lparr>fi_net = n, fi_transition = bind_transition x, fi_marking = k, fi_enablement = e, fi_selection = s,
      fi_binding = x, fi_directive = directive_identity s, fi_external = mr_binding y\<rparr> = Inr w \<and>
    (fr_successor w \<noteq> None \<or>
      (\<exists>z. fr_failure w = Some z \<and> ff_code z \<in> {FOutputFailed, FIdentityCollision, FProducedInvalid}))"
proof -
  note i = issued_correlated [OF mapping(1) request firer(1,2) net(5) transition(2,3)]
  let ?y = "mapped_of m q r p"
  have "meets p (output_contract m)"
    using i firer(3) sole_output [OF mapping(1)] by simp
  then have "mapped_payloads m q r p" using i mapping(2,3) by (simp add: mapped_payloads_def)
  moreover have "context_ok (fq_context q)" using i by (simp add: firing_request_ok_def request_parts_ok_def)
  ultimately have y: "execute_mapper m t (fq_context q) q r = Inr ?y"
    using execute_mapper_Inr [of "fq_context q" q r m t ?y] i mapping(1) firer(3) by blast
  have b: "mr_binding ?y = mapped_binding m (ip_payload p)" by (simp add: mapped_of_def mapped_fields_def)
  have bt: "bind_transition (mr_binding ?y) = bind_transition x"
    using i transition(2) by (simp add: b mapped_binding_def correlated_def transition_id.expand)
  have bo: "binding_ok (mr_binding ?y)" by (simp add: b mapped_binding_def binding_ok_def)
  define f where f: "f = \<lparr>fi_net = n, fi_transition = bind_transition x, fi_marking = k, fi_enablement = e, fi_selection = s,
      fi_binding = x, fi_directive = directive_identity s, fi_external = mr_binding ?y\<rparr>"
  have sel: "sr_outcome s = Selected" using selected_takes [OF net(3-5)] by (auto simp: takes_def)
  obtain u c' where u: "firing_ok f" "definition_valid (fi_net f)" "marking_valid (fi_net f) (fi_marking f)"
      "binding_enabled (fi_net f) (fi_marking f) c'" "binding_eq (fi_binding f) c'"
      "u \<in> set (n_transitions (fi_net f))" "td_identity u = bind_transition (fi_binding f)" "fire f = fire_transition f u"
    by (rule pipeline_replays [OF net(1-4) sel net(5,6) bo f])
  have "transitions_of n (td_identity t) = Some t" "transitions_of n (td_identity t) = Some u"
    using u(6,7) transition(1,2) by (simp_all add: transitions_of_Some_iff [OF net(1)] f)
  then have ut: "u = t" by simp
  have em: "\<not> external_mismatch f u"
    using bt transition(2,3) by (simp add: external_mismatch_def ut f b mapped_binding_def)
  have "\<exists>w. fire f = Inr w \<and> (fr_successor w \<noteq> None \<or>
      (\<exists>z. fr_failure w = Some z \<and> ff_code z \<in> {FOutputFailed, FIdentityCollision, FProducedInvalid}))"
    unfolding u(8) by (rule fire_matched_cases [OF u(1-7) em]) (auto simp: fails_with_def firing_succeeded_eq)
  then show ?thesis using y b unfolding f by (auto simp: mapped_binding_def)
qed

theorem action_loop_closes_witness:
  "\<exists>q r y w. execute_mapper act_mapping ex_transition (fq_context q) q r = Inr y \<and>
    bind_assignments (mr_binding y) = [\<lparr>as_variable = ex_w, as_value = VStr ''data''\<rparr>] \<and>
    fire \<lparr>fi_net = ex_net, fi_transition = bind_transition (ex_binding 3), fi_marking = ex_marking,
      fi_enablement = ex_enablement, fi_selection = ex_selection, fi_binding = ex_binding 3,
      fi_directive = directive_identity ex_selection, fi_external = mr_binding y\<rparr> = Inr w \<and>
    (fr_successor w \<noteq> None \<or>
      (\<exists>z. fr_failure w = Some z \<and> ff_code z \<in> {FOutputFailed, FIdentityCollision, FProducedInvalid}))"
proof -
  let ?h = "sha256_hex (dumps (selected_document (ex_binding 3)))"
  let ?q = "act_request ?h" and ?fire = "\<lambda>_. Inr (act_answer (act_request ?h))"
  note f = act_firing [OF hex64_sha256, of "dumps (selected_document (ex_binding 3))"]
  have m: "om_binding act_mapping = act_binding" "om_firer act_mapping = act_descriptor" "om_variable act_mapping = ex_w"
    by (simp_all add: act_mapping_def act_mapping_fields_def ex_ids)
  have x: "mk_binding_evidence ex_enablement ex_selection = Inr (evidence_of ex_enablement ex_selection (ex_binding 3))"
    using selected_takes [OF ex_enable ex_select ex_selection_parts(2)] ex_selectable by (auto simp: mk_binding_evidence_Inr)
  have c: "coordinate_ids_ok act_coordinates" using act_coordinates_ok by (simp add: coordinates_ok_def)
  have q: "execute_factory (om_binding act_mapping) (om_firer act_mapping) (evidence_of ex_enablement ex_selection (ex_binding 3))
      act_coordinates [sample_payload ''in''] = Inr ?q"
    unfolding execute_factory_Inr [OF c act_inputs(2)] m evidence_of_sources evidence_of_sha256
    using selected_takes [OF ex_enable ex_select ex_selection_parts(2)] ex_selectable act_binds ex_belongs act_inputs(1)
      act_coordinates_ok by (auto simp: act_request_def)
  have fires: "sdk_fire (om_firer act_mapping) ?fire ?q = Inr (act_answer ?q)"
    using f(1) by (simp add: m sdk_fire_def)
  have parts: "fr_body (act_answer ?q) = FiringSucceeded [act_payload]" "fr_evidence (act_answer ?q) = []"
      "fd_evidence act_descriptor = []" "ip_payload act_payload = ''data''"
    by (simp_all add: act_answer_def act_answer_fields_def sample_answer_fields_def act_descriptor_def act_payload_def sample_payload_def)
  have "ex_transition \<in> set (n_transitions ex_net)" "td_identity ex_transition = bind_transition (ex_binding 3)"
      "td_externals ex_transition = [om_variable act_mapping]"
    by (simp_all add: ex_net_def ex_transition_def ex_binding_def m)
  moreover have "is_ok (decode_ascii_identity (ip_payload act_payload) (pc_maximum (output_contract act_mapping)))"
    using f(2) by (simp add: mapped_payloads_def)
  moreover have "binding_ok (ex_binding 3)" by code_simp
  ultimately show ?thesis
    using action_loop_closes [OF ex_net_ok ex_marking_ok ex_enable ex_select ex_selection_parts(2) _ x q c act_inputs(2) _ fires
        parts(1) act_mapping_ok] act_answer_ok [OF hex64_sha256] parts(2-4) m(2,3) by fastforce
qed

end
