(* ===== verification/Spec2Isabelle.thy ===== *)
theory Spec2Isabelle
  imports Firing_Theorems Component_Theorems Core_Theorems Runtime_Theorems Store_Theorems Review_Theorems
    Sdk_Theorems Action_Theorems
begin

text \<open>
  A verification library for \<open>projectkoios-workflow\<close>: the colored Petri-net kernel
  (\<open>petrinet/colored\<close>), the workflow core (\<open>core\<close>), the revision store (\<open>persistence\<close>), the local
  runtime (\<open>runtime\<close>), the review workflows (\<open>course_review\<close>, \<open>reference_review\<close>) and the mapping of
  actions (\<open>actions\<close>) of \<open>src/src/python/projectkoios/workflow\<close>, and the SDK (\<open>src/sdk/src/python/projectkoios/workflow_sdk\<close>).

  \<^bold>\<open>The program.\<close>  A colored net is a set of places with colors, transitions with guards, and
  consume, read, inhibitor and produce arcs.  Enablement enumerates the bindings of a marking,
  selection picks one of them, and firing replays the enablement, takes tokens and returns the
  successor marking with an audit record.  The core knows nothing of nets: a run of a workflow moves
  through revisions, each transition is requested under an authority, an adapter supplies evidence,
  and the processor decides one of six outcomes, builds the successor run and an audit event.
  The runtime retains what the core did: events of a run form a chain of revisions in a store, one
  request at a time is reserved at a core revision, and its transition is recorded behind it.  The
  store compares and appends in one SQLite transaction, and says when it does not know the outcome.
  The SDK is the boundary to code of other owners: a request carries payloads under declared contracts
  to a firer, a template method checks what goes in and what comes out, and five codecs put the records
  on the wire.  The action mapping joins the net and the SDK: evidence of a selected binding becomes a request
  to a firer, and the one ASCII output of its result becomes the external binding of the transition.
  Every record carries a content identity, a SHA-256 digest over a canonical representation, and
  every constructor checks it.

  \<^bold>\<open>How code is modelled.\<close>  A Python \<open>str\<close> is the list of its UTF-8 bytes, an \<open>int\<close> an \<open>int\<close>, a
  \<open>float\<close> its 64-bit pattern (\<open>Float64\<close>), a tuple a list, an enum a datatype.  A frozen dataclass is a
  record; its constructor with \<open>__post_init__\<close> is \<open>mk_...\<close>, its class method \<open>create\<close> is
  \<open>create_...\<close>; both return \<open>py_exn + record\<close>, so that every \<open>raise\<close> is a value with its message, in
  the order of the source.  The checks \<open>type(x) is C\<close> of arguments are the HOL types of the
  model, except where the argument is a raw object (\<open>py_object\<close>), as for identities and token values.
  \<open>..._ok\<close> states what a constructor accepts; \<open>mk_..._Inr\<close> proves it.

  \<^bold>\<open>Theories.\<close>
  \<^item> \<open>Prelude\<close>: exceptions as values, loops with early return, dictionaries, canonical collections and
    their contract, the locale \<open>canonical_builder\<close>, interpreted for every collection of the code.
  \<^item> \<open>Float64\<close>: binary64 values, comparison, \<open>float(int)\<close> with its overflow, \<open>float.hex\<close>;
    \<open>Py_Text\<close>: JSON text as \<open>json.dumps\<close> prints it, and its injectivity; \<open>Sha256\<close>: the digest.
  \<^item> \<open>Cpn_Values\<close>, \<open>Cpn_Markings\<close>, \<open>Cpn_Expressions\<close>, \<open>Cpn_Definitions\<close>, \<open>Cpn_Validation\<close>,
    \<open>Cpn_Enablement\<close>, \<open>Cpn_Selection\<close>, \<open>Cpn_Firing\<close>: the files of \<open>petrinet/colored\<close> of the same
    names (\<open>values.py\<close>, ...); \<open>Cpn_Represent\<close>: their canonical representations, with the locale
    \<open>faithful\<close> that each of them satisfies.
  \<^item> \<open>Cpn_Validity\<close>, \<open>Cpn_Enabled\<close>, \<open>Cpn_Fire_Rule\<close>, \<open>Cpn_Reconstruct\<close>, \<open>Cpn_Successor\<close>,
    \<open>Cpn_Firing_Input\<close>, \<open>Cpn_Audit\<close>, \<open>Guard_Lemmas\<close>: the declarative rules (validity, enabled bindings,
    the firing rule) and the proofs that the code implements them; \<open>Example\<close>: a net used as instance;
    \<open>Firing_Theorems\<close>, \<open>Component_Theorems\<close>: the properties of the kernel.
  \<^item> \<open>Core_Identities\<close> (\<open>core/identities.py\<close>), \<open>Core_Records\<close>, \<open>Core_Requests\<close>,
    \<open>Core_Outcomes\<close> (\<open>core/models.py\<close>), \<open>Core_Processing\<close> (\<open>core/processing.py\<close>): the workflow core.
  \<^item> \<open>Core_Reports\<close>: when the records of an input agree and which outcome it deserves;
    \<open>Core_Process\<close>: the proof that the processor returns it; \<open>Core_Lifecycle\<close>: the
    histories of a run; \<open>Core_Example\<close>, \<open>Core_Theorems\<close>: an instance and the properties of the core.
  \<^item> \<open>Store_Sqlite\<close>: \<open>persistence/store.py\<close> with the abstract store, a log of revisions and keys, and
    the SQLite store (\<open>persistence/sqlite.py\<close> and the schema check of \<open>_sqlite_private.py\<close>): a database is
    the content of its tables, and an \<open>environment\<close> says which steps of the engine fail;
    \<open>Store_Refinement\<close>: the database represents a log and both operations follow the specification, and
    envelopes determine their rows; \<open>Store_Theorems\<close>: the properties of the store.
  \<^item> \<open>Py_Json\<close>: \<open>json.loads\<close> with an object hook and the strict UTF-8 decoder; \<open>Py_Utf8\<close>: printed texts are
    UTF-8, and reading a document and its members.  \<open>Runtime_Records\<close>, \<open>Runtime_Serialization\<close>,
    \<open>Runtime_Repository\<close>, \<open>Runtime_Service\<close>: the files of \<open>runtime\<close> of the same names; reads and commits of the store are arguments of their operations.
  \<^item> \<open>Runtime_Store\<close>: the locale \<open>atomic_store\<close>, a store that may fail but never lies or tears a commit,
    interpreted for the SQLite store under any schedule of failures; \<open>Runtime_Starting\<close>: its extension
    \<open>reliable_store\<close>, interpreted for the store while nothing fails.
    \<open>Runtime_Reservation\<close>: which event may follow a history, the interleavings of several runtimes as
    an inductive set of states, and the invariant of all their histories.  \<open>Runtime_Example\<close>,
    \<open>Runtime_Theorems\<close>: the course review on the runtime and the properties of the runtime.

  \<^item> \<open>Py_Pattern\<close>: the regular expressions of the records.  \<open>Course_Review\<close> (\<open>course_review\<close>),
    \<open>Reference_Review\<close> (\<open>reference_review\<close>): the two concrete workflows.  Their adapters
    end alike: \<open>Review_Steps\<close> has the locale \<open>review_step\<close> of one such step and the processor's answer to
    it, interpreted for the candidate step, the manual review and both decisions.  \<open>Course_Review\<close> itself,
    \<open>Reference_Process\<close>, \<open>Reference_History\<close>: what each call accepts, and the histories of runs that the
    calls and the processor produce; \<open>Review_Theorems\<close>: their properties.

  \<^item> \<open>Py_Base64\<close>: Base64 and its strict decoder.  \<open>Sdk_Validation\<close> (\<open>_validation.py\<close>, \<open>identities.py\<close>),
    \<open>Sdk_Firing\<close> (\<open>payloads.py\<close> and the records of \<open>firing.py\<close>), \<open>Sdk_Valid\<close> (what their constructors
    accept, and \<open>integration.py\<close>), \<open>Sdk_Serialization\<close>: the files of \<open>workflow_sdk\<close>;
    \<open>Sdk_Firer\<close>: the class \<open>Firer\<close>.  \<open>Sdk_Wire\<close>: the locales
    \<open>wire_codec\<close> and \<open>root_codec\<close> of a canonical codec, interpreted in \<open>Sdk_Codecs\<close> for all five;
    \<open>Sdk_Bounds\<close>: the size of the documents; \<open>Sdk_Example\<close>,
    \<open>Sdk_Theorems\<close>: one firer and the properties.

  \<^item> \<open>Action_Binding\<close> (\<open>_validation.py\<close>, \<open>_binding.py\<close>), \<open>Action_Mapper\<close> (\<open>_models.py\<close>, \<open>_mapper.py\<close>): the files
    of \<open>actions\<close>, with what each operation accepts as one equivalence; \<open>Action_Request\<close>: \<open>_selection.py\<close>,
    \<open>_input_mapping.py\<close> and \<open>_request.py\<close>.  \<open>Action_Example\<close>, \<open>Action_Theorems\<close>: one mapping, and the way from the
    enabler through the selector, the factory, the firer and the mapper back to firing.

  \<^bold>\<open>Bounds.\<close>  Integers keep the limits of the code: 64-bit checks of integer token values, the binary64
  overflow of real ones, the counts and lengths of the core records.  Enablement enumerates every
  assignment, as the code does, without a limit.  Python refuses to print integers of more than 4300 digits; the theorem on the processor
  asks for printable revisions.  The loops of the kernel and the core are
  structural.  Reconstructing a history ends after at most 10000 events, the bound of the code, which
  is the measure of \<open>load_loop\<close>; \<open>load_any_store\<close> counts the reads that it makes.  The JSON scanner runs on fuel, twice the length of the text and a
  constant; \<open>json_loads_terminates\<close> proves that it never runs out.

  \<^bold>\<open>Not modelled.\<close>  Lone surrogates in strings (they have no UTF-8 bytes), subclasses of built-in types
  beyond the code's own checks, exhaustion of memory, the recursion limit of Python's JSON scanner on
  deeply nested text (both readers refuse such a text, the model with another exception), and the escapes
  that \<open>repr\<close> gives to nonprintable characters beyond ASCII in the texts of errors.  Of the store, the private-file policy and the pragmas of \<open>_sqlite_private.py\<close>;
  the engine is assumed to execute the modelled statements and to commit atomically, as documented.
  The other packages (pure-action reservations, execution, compilation) are
  listed in the manifest with their state.
\<close>

end
